(* ===== verification/Prelude.thy ===== *)
theory Prelude
  imports
    Complex_Main
    "HOL-Library.Product_Lexorder"
    "HOL-Library.List_Lexorder"
    "HOL-Library.Char_ord"
begin

text \<open>
  Shared vocabulary of the development: instants and durations, database tables as lists of rows
  with the queries the services run on them, reachability for transition systems, and the locales
  that state the contracts several components rely on.

  An instant is the number of microseconds since the Unix epoch (the resolution of Python's
  \<^verbatim>\<open>datetime\<close>), always in UTC, so the source's \<^verbatim>\<open>_as_utc\<close> conversions are the identity.
\<close>

named_theorems row_simps \<open>frame rules of the tables of rows\<close>

type_synonym time = int

type_synonym ident = string

definition seconds :: "int \<Rightarrow> int" where
  "seconds n = n * 1000000"

definition days :: "int \<Rightarrow> int" where
  "days n = n * 86400 * 1000000"

lemma seconds_mono [simp]: "seconds a \<le> seconds b \<longleftrightarrow> a \<le> b"
  by (simp add: seconds_def)

lemma seconds_pos [simp]: "0 < seconds a \<longleftrightarrow> 0 < a"
  by (simp add: seconds_def)

lemma seconds_nonneg [simp]: "0 \<le> seconds a \<longleftrightarrow> 0 \<le> a"
  by (simp add: seconds_def)

section \<open>Results\<close>

text \<open>
  A routine that may raise returns \<open>Inl\<close> the exception or \<open>Inr\<close> its value; \<open>and_then\<close> runs the
  rest of the routine when nothing was raised.
\<close>

definition and_then :: "'e + 'a \<Rightarrow> ('a \<Rightarrow> 'e + 'b) \<Rightarrow> 'e + 'b" where
  "and_then m k = (case m of Inl e \<Rightarrow> Inl e | Inr x \<Rightarrow> k x)"

definition is_ok :: "'e + 'a \<Rightarrow> bool" where
  "is_ok m = (case m of Inl _ \<Rightarrow> False | Inr _ \<Rightarrow> True)"

lemma and_then_simps [simp]:
  "and_then (Inl e) k = Inl e"
  "and_then (Inr x) k = k x"
  by (simp_all add: and_then_def)

lemma is_ok_simps [simp]: "is_ok (Inr x)" "\<not> is_ok (Inl e)"
  by (simp_all add: is_ok_def)

lemma and_then_Inr: "and_then m k = Inr y \<longleftrightarrow> (\<exists>x. m = Inr x \<and> k x = Inr y)"
  by (cases m) auto

section \<open>Tables\<close>

text \<open>
  A table is the list of its rows in insertion order. \<open>tbl_find\<close> is a primary-key lookup,
  \<open>tbl_upd\<close> assigns to the fields of the row with that key, \<open>first_by\<close> is a query with
  \<^verbatim>\<open>WHERE\<close>, \<^verbatim>\<open>ORDER BY\<close> and \<^verbatim>\<open>LIMIT 1\<close>, \<open>query_by\<close> the same without a limit of one. Rows that
  compare equal under the ordering keep their insertion order.
\<close>

definition tbl_find :: "('r \<Rightarrow> 'k) \<Rightarrow> 'k \<Rightarrow> 'r list \<Rightarrow> 'r option" where
  "tbl_find rid k rows = find (\<lambda>r. rid r = k) rows"

definition tbl_upd :: "('r \<Rightarrow> 'k) \<Rightarrow> 'k \<Rightarrow> ('r \<Rightarrow> 'r) \<Rightarrow> 'r list \<Rightarrow> 'r list" where
  "tbl_upd rid k f rows = map (\<lambda>r. if rid r = k then f r else r) rows"

definition query_by :: "('r \<Rightarrow> 'o::linorder) \<Rightarrow> ('r \<Rightarrow> bool) \<Rightarrow> 'r list \<Rightarrow> 'r list" where
  "query_by key p rows = sort_key key (filter p rows)"

definition first_by :: "('r \<Rightarrow> 'o::linorder) \<Rightarrow> ('r \<Rightarrow> bool) \<Rightarrow> 'r list \<Rightarrow> 'r option" where
  "first_by key p rows = (case query_by key p rows of [] \<Rightarrow> None | r # _ \<Rightarrow> Some r)"

lemma tbl_find_Some: "tbl_find rid k rows = Some r \<Longrightarrow> r \<in> set rows \<and> rid r = k"
  by (auto simp: tbl_find_def find_Some_iff)

lemma tbl_find_None: "tbl_find rid k rows = None \<longleftrightarrow> k \<notin> rid ` set rows"
  by (auto simp: tbl_find_def find_None_iff)

lemma tbl_find_append:
  "tbl_find rid k (xs @ ys) =
     (case tbl_find rid k xs of None \<Rightarrow> tbl_find rid k ys | Some r \<Rightarrow> Some r)"
  by (induction xs) (auto simp: tbl_find_def)

lemma tbl_find_single [simp]: "tbl_find rid k [r] = (if rid r = k then Some r else None)"
  by (simp add: tbl_find_def)

lemma tbl_find_upd:
  assumes "\<And>r. rid (f r) = rid r"
  shows "tbl_find rid k (tbl_upd rid k' f rows) =
    (if k = k' then map_option f (tbl_find rid k rows) else tbl_find rid k rows)"
  using assms by (induction rows) (auto simp: tbl_find_def tbl_upd_def)

lemma map_rid_upd [simp]:
  assumes "\<And>r. rid (f r) = rid r"
  shows "map rid (tbl_upd rid k f rows) = map rid rows"
  using assms by (induction rows) (auto simp: tbl_upd_def)

lemma set_tbl_upd:
  "set (tbl_upd rid k f rows) = {if rid r = k then f r else r | r. r \<in> set rows}"
  by (auto simp: tbl_upd_def)

lemma in_tbl_updE:
  assumes "r \<in> set (tbl_upd rid k f rows)"
  obtains (changed) r0 where "r0 \<in> set rows" "rid r0 = k" "r = f r0"
    | (same) "r \<in> set rows" "rid r \<noteq> k"
  using assms by (auto simp: set_tbl_upd split: if_splits)

lemma tbl_upd_absent: "k \<notin> rid ` set rows \<Longrightarrow> tbl_upd rid k f rows = rows"
  by (induction rows) (auto simp: tbl_upd_def)

lemma distinct_tbl_find:
  "distinct (map rid rows) \<Longrightarrow> r \<in> set rows \<Longrightarrow> tbl_find rid (rid r) rows = Some r"
  by (induction rows) (auto simp: tbl_find_def image_iff)

lemma length_tbl_upd [simp]: "length (tbl_upd rid k f rows) = length rows"
  by (simp add: tbl_upd_def)

lemma query_by_set [simp]: "set (query_by key p rows) = {r \<in> set rows. p r}"
  by (simp add: query_by_def)

lemma first_by_Some:
  assumes "first_by key p rows = Some r"
  shows "r \<in> set rows" and "p r" and "\<And>x. x \<in> set rows \<Longrightarrow> p x \<Longrightarrow> key r \<le> key x"
proof -
  obtain rest where q: "query_by key p rows = r # rest"
    using assms by (auto simp: first_by_def split: list.splits)
  have "r \<in> set (query_by key p rows)" by (simp add: q)
  then show "r \<in> set rows" and "p r" by simp_all
  fix x assume "x \<in> set rows" and "p x"
  then have "x \<in> set (r # rest)" using q query_by_set[of key p rows] by auto
  moreover have "sorted (map key (r # rest))"
    using q sorted_sort_key[of key "filter p rows"] by (simp add: query_by_def)
  ultimately show "key r \<le> key x" by auto
qed

lemma first_by_None: "first_by key p rows = None \<longleftrightarrow> (\<forall>r \<in> set rows. \<not> p r)"
proof -
  have "first_by key p rows = None \<longleftrightarrow> query_by key p rows = []"
    by (simp add: first_by_def split: list.splits)
  also have "\<dots> \<longleftrightarrow> set (query_by key p rows) = {}" by (simp only: set_empty)
  finally show ?thesis by auto
qed

lemma query_by_filter: "query_by key (\<lambda>r. p r \<and> q r) rows = filter q (query_by key p rows)"
  by (simp add: query_by_def filter_sort conj_commute)

lemma query_by_cong: "(\<And>r. r \<in> set rows \<Longrightarrow> p r = q r) \<Longrightarrow> query_by key p rows = query_by key q rows"
  by (simp add: query_by_def cong: filter_cong)

lemma distinct_query: "distinct (map f rows) \<Longrightarrow> distinct (map f (query_by key p rows))"
  using distinct_map_filter[of f rows p] by (simp add: query_by_def distinct_map)

lemma insort_key_map:
  "(\<And>r. key (f r) = key r) \<Longrightarrow> insort_key key (f x) (map f xs) = map f (insort_key key x xs)"
  by (induction xs) auto

lemma sort_key_map: "(\<And>r. key (f r) = key r) \<Longrightarrow> sort_key key (map f xs) = map f (sort_key key xs)"
  by (induction xs) (auto simp: insort_key_map)

lemma first_by_map:
  assumes "\<And>r. key (f r) = key r" "\<And>r. p (f r) = p r"
  shows "first_by key p (map f rows) = map_option f (first_by key p rows)"
proof -
  have "filter p (map f rows) = map f (filter p rows)"
    using assms(2) by (induction rows) auto
  then show ?thesis
    by (simp add: first_by_def query_by_def sort_key_map[of key f, OF assms(1)] split: list.split)
qed

text \<open>The row whose key is strictly least.\<close>

lemma first_by_least:
  assumes "r \<in> set rows" "p r" "\<And>x. x \<in> set rows \<Longrightarrow> p x \<Longrightarrow> x \<noteq> r \<Longrightarrow> key r < key x"
  shows "first_by key p rows = Some r"
proof -
  obtain x where x: "first_by key p rows = Some x"
    using assms(1,2) first_by_None[of key p rows] by (cases "first_by key p rows") auto
  have "key x \<le> key r" by (rule first_by_Some(3)[OF x assms(1,2)])
  then have "x = r" using assms(3)[OF first_by_Some(1,2)[OF x]] by force
  with x show ?thesis by simp
qed

text \<open>A query that excludes the first \<open>n\<close> rows of its answer returns the others.\<close>

lemma query_by_rest:
  assumes "distinct (map f rows)"
    and "\<And>r. r \<in> set rows \<Longrightarrow> q r \<longleftrightarrow> p r \<and> f r \<notin> f ` set (take n (query_by key p rows))"
  shows "query_by key q rows = drop n (query_by key p rows)"
proof -
  let ?xs = "query_by key p rows" and ?out = "\<lambda>r. f r \<notin> f ` set (take n (query_by key p rows))"
  have d: "distinct (map f (take n ?xs @ drop n ?xs))" using distinct_query[OF assms(1)] by simp
  have "query_by key q rows = filter ?out ?xs"
    using assms(2) by (subst query_by_filter[symmetric]) (rule query_by_cong)
  also have "\<dots> = filter ?out (take n ?xs @ drop n ?xs)" by (simp only: append_take_drop_id)
  also have "\<dots> = filter ?out (take n ?xs) @ filter ?out (drop n ?xs)" by (rule filter_append)
  also have "filter ?out (take n ?xs) = []" by (auto simp: filter_empty_conv)
  also have "filter ?out (drop n ?xs) = drop n ?xs"
    using d unfolding map_append distinct_append by (intro filter_True) auto
  finally show ?thesis by simp
qed

text \<open>Pigeonhole for counting rows: the number of rows with a property drops when one loses it.\<close>

lemma count_rows_drop:
  assumes "r \<in> set rows" "q r" "rid r = k"
    and "\<And>x. rid x = k \<Longrightarrow> \<not> q (f x)"
  shows "length (filter q (tbl_upd rid k f rows)) < length (filter q rows)"
  using assms(1,2,3)
proof (induction rows)
  case Nil
  then show ?case by simp
next
  case (Cons a rows)
  have le: "length (filter q (tbl_upd rid k f rows)) \<le> length (filter q rows)"
    using assms(4) by (induction rows) (auto simp: tbl_upd_def)
  show ?case
  proof (cases "r = a")
    case True
    with Cons.prems assms(4) le show ?thesis by (simp add: tbl_upd_def)
  next
    case False
    with Cons have "length (filter q (tbl_upd rid k f rows)) < length (filter q rows)" by simp
    with assms(4) show ?thesis by (auto simp: tbl_upd_def)
  qed
qed

subsection \<open>The contract of a table inside a database state\<close>

text \<open>
  \<open>table_view\<close> is the interface every component uses: a database state, one of its tables, and
  the key of that table's rows. Its laws are the record laws of the field; its lemmas are the
  frame rules of key lookup and assignment, proved once.
\<close>

locale table_view =
  fixes rows :: "'s \<Rightarrow> 'r list"
    and put :: "'r list \<Rightarrow> 's \<Rightarrow> 's"
    and rid :: "'r \<Rightarrow> 'k"
  assumes rows_put: "rows (put xs s) = xs"
    and put_put: "put xs (put ys s) = put xs s"
    and put_rows: "put (rows s) s = s"
begin

lemma find_modify:
  assumes "\<And>r. rid (f r) = rid r"
  shows "tbl_find rid k (rows (put (tbl_upd rid k' f (rows s)) s)) =
    (if k = k' then map_option f (tbl_find rid k (rows s)) else tbl_find rid k (rows s))"
  using assms by (simp add: rows_put tbl_find_upd)

lemma find_insert:
  "tbl_find rid k (rows (put (rows s @ [r]) s)) =
    (case tbl_find rid k (rows s) of None \<Rightarrow> if rid r = k then Some r else None
     | Some x \<Rightarrow> Some x)"
  by (simp add: rows_put tbl_find_append split: option.splits)

lemma keys_modify:
  assumes "\<And>r. rid (f r) = rid r"
  shows "map rid (rows (put (tbl_upd rid k f (rows s)) s)) = map rid (rows s)"
  by (simp add: rows_put assms)

lemma keys_insert_distinct:
  "distinct (map rid (rows s)) \<Longrightarrow> tbl_find rid (rid r) (rows s) = None \<Longrightarrow>
   distinct (map rid (rows (put (rows s @ [r]) s)))"
  by (simp add: rows_put tbl_find_None)

lemma modify_absent:
  "tbl_find rid k (rows s) = None \<Longrightarrow> put (tbl_upd rid k f (rows s)) s = s"
  by (simp add: tbl_find_None tbl_upd_absent put_rows)

end

section \<open>Transition systems\<close>

inductive reach :: "('s \<Rightarrow> bool) \<Rightarrow> ('s \<Rightarrow> 's \<Rightarrow> bool) \<Rightarrow> 's \<Rightarrow> bool"
  for init :: "'s \<Rightarrow> bool" and step :: "'s \<Rightarrow> 's \<Rightarrow> bool" where
  reach_init: "init s \<Longrightarrow> reach init step s"
| reach_step: "reach init step s \<Longrightarrow> step s t \<Longrightarrow> reach init step t"

text \<open>
  \<open>inv_system\<close> is the contract between a component and the claims about its runs: the invariant
  holds at the start and every operation keeps it.
\<close>

locale inv_system =
  fixes init :: "'s \<Rightarrow> bool"
    and step :: "'s \<Rightarrow> 's \<Rightarrow> bool"
    and inv :: "'s \<Rightarrow> bool"
  assumes inv_init: "init s \<Longrightarrow> inv s"
    and inv_step: "inv s \<Longrightarrow> step s t \<Longrightarrow> inv t"
begin

lemma reach_inv: "reach init step s \<Longrightarrow> inv s"
  by (induction rule: reach.induct) (auto intro: inv_init inv_step)

lemma steps_inv: "step\<^sup>*\<^sup>* s t \<Longrightarrow> inv s \<Longrightarrow> inv t"
  by (induction rule: rtranclp_induct) (auto intro: inv_step)

end

text \<open>
  \<open>ranked_system\<close> adds a quantity that no operation decreases (a fencing epoch, a sequence
  number) and a predicate that, once true, stays true.
\<close>

locale ranked_system = inv_system +
  fixes rank :: "'s \<Rightarrow> int"
    and final :: "'s \<Rightarrow> bool"
  assumes rank_step: "inv s \<Longrightarrow> step s t \<Longrightarrow> rank s \<le> rank t"
    and final_step: "inv s \<Longrightarrow> final s \<Longrightarrow> step s t \<Longrightarrow> final t"
begin

lemma steps_rank: "step\<^sup>*\<^sup>* s t \<Longrightarrow> inv s \<Longrightarrow> rank s \<le> rank t"
proof (induction rule: rtranclp_induct)
  case base
  then show ?case by simp
next
  case (step t u)
  then show ?case using steps_inv rank_step by (meson order_trans)
qed

lemma steps_final: "step\<^sup>*\<^sup>* s t \<Longrightarrow> inv s \<Longrightarrow> final s \<Longrightarrow> final t"
proof (induction rule: rtranclp_induct)
  case base
  then show ?case by simp
next
  case (step t u)
  then show ?case using steps_inv final_step by blast
qed

end

end
