(* ===== verification/PyText.thy ===== *)
theory PyText
  imports Prelude
begin

text \<open>
  The part of Python's values and text operations the services use: dynamically typed values of
  JSON documents, \<^verbatim>\<open>str.strip\<close>, \<^verbatim>\<open>str.lower\<close>, decimal rendering, and the parsers behind
  \<^verbatim>\<open>int(...)\<close> and \<^verbatim>\<open>float(...)\<close> with their grammars (surrounding blanks, a sign, underscores
  between digits, exponents, \<open>inf\<close> and \<open>nan\<close>). A character is a code point below 256.
  Finite floats are the rationals they denote; rounding to binary64 is not modelled.
\<close>

section \<open>Values of JSON documents\<close>

datatype pyfloat = Fin rat | PInf | NInf | NaN

datatype pyval =
    PNone
  | PBool bool
  | PInt int
  | PFloat pyfloat
  | PStr string
  | PList "pyval list"
  | PDict "(string \<times> pyval) list"

text \<open>\<open>dict_get\<close> is \<^verbatim>\<open>d.get(k)\<close>; \<open>truthy\<close> is Python's truth value.\<close>

definition dict_get :: "(string \<times> pyval) list \<Rightarrow> string \<Rightarrow> pyval" where
  "dict_get d k = (case map_of d k of None \<Rightarrow> PNone | Some v \<Rightarrow> v)"

fun truthy :: "pyval \<Rightarrow> bool" where
  "truthy PNone = False"
| "truthy (PBool b) = b"
| "truthy (PInt n) = (n \<noteq> 0)"
| "truthy (PFloat x) = (x \<noteq> Fin 0)"
| "truthy (PStr s) = (s \<noteq> [])"
| "truthy (PList xs) = (xs \<noteq> [])"
| "truthy (PDict d) = (d \<noteq> [])"

text \<open>Comparisons of floats with a finite bound: every comparison with \<open>NaN\<close> is false.\<close>

fun pf_le :: "pyfloat \<Rightarrow> pyfloat \<Rightarrow> bool" where
  "pf_le NaN _ = False"
| "pf_le _ NaN = False"
| "pf_le NInf _ = True"
| "pf_le _ PInf = True"
| "pf_le (Fin a) (Fin b) = (a \<le> b)"
| "pf_le _ _ = False"

fun pf_lt :: "pyfloat \<Rightarrow> pyfloat \<Rightarrow> bool" where
  "pf_lt NaN _ = False"
| "pf_lt _ NaN = False"
| "pf_lt NInf b = (b \<noteq> NInf)"
| "pf_lt a PInf = (a \<noteq> PInf)"
| "pf_lt (Fin a) (Fin b) = (a < b)"
| "pf_lt _ _ = False"

fun pf_finite :: "pyfloat \<Rightarrow> bool" where
  "pf_finite (Fin _) = True"
| "pf_finite _ = False"

section \<open>Characters and strings\<close>

definition code :: "char \<Rightarrow> nat" where
  "code c = of_char c"

definition is_space :: "char \<Rightarrow> bool" where
  "is_space c = (9 \<le> code c \<and> code c \<le> 13 \<or> 28 \<le> code c \<and> code c \<le> 32
     \<or> code c = 133 \<or> code c = 160)"

definition is_digit :: "char \<Rightarrow> bool" where
  "is_digit c = (48 \<le> code c \<and> code c \<le> 57)"

text \<open>\<^verbatim>\<open>str.isdigit\<close> also accepts the three superscript digits of Latin-1.\<close>

definition str_isdigit :: "string \<Rightarrow> bool" where
  "str_isdigit s = (s \<noteq> [] \<and>
     list_all (\<lambda>c. is_digit c \<or> code c = 178 \<or> code c = 179 \<or> code c = 185) s)"

definition is_upper :: "char \<Rightarrow> bool" where
  "is_upper c = (65 \<le> code c \<and> code c \<le> 90)"

definition is_lower :: "char \<Rightarrow> bool" where
  "is_lower c = (97 \<le> code c \<and> code c \<le> 122)"

definition is_alnum :: "char \<Rightarrow> bool" where
  "is_alnum c = (is_digit c \<or> is_upper c \<or> is_lower c)"

text \<open>\<open>lower\<close> and \<open>upper\<close> convert ASCII letters, the only letters the services compare.\<close>

definition lower_char :: "char \<Rightarrow> char" where
  "lower_char c = (if is_upper c then char_of (code c + 32) else c)"

definition upper_char :: "char \<Rightarrow> char" where
  "upper_char c = (if is_lower c then char_of (code c - 32) else c)"

definition lower :: "string \<Rightarrow> string" where
  "lower s = map lower_char s"

definition upper :: "string \<Rightarrow> string" where
  "upper s = map upper_char s"

definition lstrip :: "string \<Rightarrow> string" where
  "lstrip s = dropWhile is_space s"

definition strip :: "string \<Rightarrow> string" where
  "strip s = rev (lstrip (rev (lstrip s)))"

definition starts_with :: "string \<Rightarrow> string \<Rightarrow> bool" where
  "starts_with s p = (take (length p) s = p)"

definition ends_with :: "string \<Rightarrow> string \<Rightarrow> bool" where
  "ends_with s p = (length p \<le> length s \<and> drop (length s - length p) s = p)"

text \<open>\<open>split_on\<close> is \<^verbatim>\<open>s.split(c)\<close>: the fields between the separators, empty ones included.\<close>

fun split_on :: "char \<Rightarrow> string \<Rightarrow> string list" where
  "split_on c [] = [[]]"
| "split_on c (x # xs) =
     (if x = c then [] # split_on c xs
      else case split_on c xs of [] \<Rightarrow> [[x]] | f # fs \<Rightarrow> (x # f) # fs)"

fun join_on :: "char \<Rightarrow> string list \<Rightarrow> string" where
  "join_on c [] = []"
| "join_on c [f] = f"
| "join_on c (f # g # fs) = f @ [c] @ join_on c (g # fs)"

lemma split_on_nonempty [simp]: "split_on c s \<noteq> []"
  by (induction s) (auto split: list.splits)

lemma split_on_no_sep: "c \<notin> set s \<Longrightarrow> split_on c s = [s]"
  by (induction s) auto

lemma split_on_append: "c \<notin> set s \<Longrightarrow> split_on c (s @ c # t) = s # split_on c t"
  by (induction s) auto

lemma join_split: "join_on c (split_on c s) = s"
proof (induction s)
  case Nil
  then show ?case by simp
next
  case (Cons x xs)
  obtain f fs where "split_on c xs = f # fs" by (cases "split_on c xs") auto
  with Cons show ?case by (cases fs) auto
qed

section \<open>Decimal numbers\<close>

fun show_nat :: "nat \<Rightarrow> string" where
  "show_nat n = (if n < 10 then [char_of (48 + n)]
     else show_nat (n div 10) @ [char_of (48 + n mod 10)])"

declare show_nat.simps [simp del]

definition show_int :: "int \<Rightarrow> string" where
  "show_int i = (if i < 0 then CHR ''-'' # show_nat (nat (- i)) else show_nat (nat i))"

text \<open>
  \<open>scan_digits ok acc n s\<close> reads \<open>digit (["_"] digit)*\<close>: it returns the value, the number of
  digits and the rest. \<open>ok\<close> says that a digit has just been read, so an underscore may follow;
  an underscore is consumed only when a digit follows it.
\<close>

fun scan_digits :: "bool \<Rightarrow> nat \<Rightarrow> nat \<Rightarrow> string \<Rightarrow> nat \<times> nat \<times> string" where
  "scan_digits ok acc n (c # d # s) =
     (if is_digit c then scan_digits True (10 * acc + (code c - 48)) (Suc n) (d # s)
      else if ok \<and> c = CHR ''_'' \<and> is_digit d then scan_digits False acc n (d # s)
      else (acc, n, c # d # s))"
| "scan_digits ok acc n [c] =
     (if is_digit c then (10 * acc + (code c - 48), Suc n, []) else (acc, n, [c]))"
| "scan_digits ok acc n [] = (acc, n, [])"

definition take_sign :: "string \<Rightarrow> bool \<times> string" where
  "take_sign s = (case s of
      c # t \<Rightarrow> if c = CHR ''-'' then (True, t) else if c = CHR ''+'' then (False, t) else (False, s)
    | [] \<Rightarrow> (False, s))"

definition py_int :: "string \<Rightarrow> int option" where
  "py_int s = (let (neg, t) = take_sign (strip s); (v, n, rest) = scan_digits False 0 0 t
     in if 0 < n \<and> rest = [] then Some (if neg then - int v else int v) else None)"

definition scan_exponent :: "string \<Rightarrow> int option" where
  "scan_exponent s = (case s of
      [] \<Rightarrow> Some 0
    | c # t \<Rightarrow> if c = CHR ''e'' \<or> c = CHR ''E'' then
        (let (neg, u) = take_sign t; (v, n, rest) = scan_digits False 0 0 u
         in if 0 < n \<and> rest = [] then Some (if neg then - int v else int v) else None)
      else None)"

definition pow10 :: "int \<Rightarrow> rat" where
  "pow10 e = (if e < 0 then 1 / 10 ^ nat (- e) else 10 ^ nat e)"

definition scan_decimal :: "string \<Rightarrow> rat option" where
  "scan_decimal s = (let (a, n, rest) = scan_digits False 0 0 s in
     case rest of
       c # t \<Rightarrow> if c = CHR ''.'' then
           (let (b, m, rest') = scan_digits False 0 0 t in
            if n + m = 0 then None
            else map_option (\<lambda>e. (of_nat a + of_nat b * pow10 (- int m)) * pow10 e)
                   (scan_exponent rest'))
         else if n = 0 then None else map_option (\<lambda>e. of_nat a * pow10 e) (scan_exponent rest)
     | [] \<Rightarrow> if n = 0 then None else Some (of_nat a))"

definition py_float :: "string \<Rightarrow> pyfloat option" where
  "py_float s = (let (neg, t) = take_sign (strip s); u = lower t in
     if u = ''inf'' \<or> u = ''infinity'' then Some (if neg then NInf else PInf)
     else if u = ''nan'' then Some NaN
     else map_option (\<lambda>q. Fin (if neg then - q else q)) (scan_decimal t))"

subsection \<open>Rendering and reading decimals agree\<close>

lemma code_digit: "(d::nat) < 10 \<Longrightarrow> code (char_of (48 + d)) = 48 + d"
  by (simp add: code_def)

lemma is_digit_char [simp]: "(d::nat) < 10 \<Longrightarrow> is_digit (char_of (48 + d))"
  by (simp add: is_digit_def code_digit)

lemma show_nat_nonempty [simp]: "show_nat n \<noteq> []"
  by (subst show_nat.simps) simp

lemma show_nat_digits: "\<forall>c \<in> set (show_nat n). is_digit c"
proof (induction n rule: show_nat.induct)
  case (1 n)
  then show ?case by (subst show_nat.simps) auto
qed

lemma scan_digits_all:
  "\<forall>c \<in> set s. is_digit c \<Longrightarrow>
   scan_digits ok acc n s = (foldl (\<lambda>a c. 10 * a + (code c - 48)) acc s, n + length s, [])"
  by (induction ok acc n s rule: scan_digits.induct) auto

lemma foldl_show_nat:
  "foldl (\<lambda>a c. 10 * a + (code c - 48)) 0 (show_nat n) = n"
proof (induction n rule: show_nat.induct)
  case (1 n)
  show ?case
  proof (cases "n < 10")
    case True
    then show ?thesis by (subst show_nat.simps) (simp add: code_digit)
  next
    case False
    with 1 show ?thesis by (subst show_nat.simps) (simp add: code_digit)
  qed
qed

lemma digit_not_space: "is_digit c \<Longrightarrow> \<not> is_space c"
  by (auto simp: is_digit_def is_space_def)

lemma lstrip_id: "(\<And>c. c \<in> set s \<Longrightarrow> \<not> is_space c) \<Longrightarrow> lstrip s = s"
  by (cases s) (auto simp: lstrip_def)

lemma strip_id: "(\<And>c. c \<in> set s \<Longrightarrow> \<not> is_space c) \<Longrightarrow> strip s = s"
proof -
  assume s: "\<And>c. c \<in> set s \<Longrightarrow> \<not> is_space c"
  then have "lstrip (rev s) = rev s" by (intro lstrip_id) simp
  with s show ?thesis by (simp add: strip_def lstrip_id)
qed

lemma digit_sign: "is_digit c \<Longrightarrow> c \<noteq> CHR ''-'' \<and> c \<noteq> CHR ''+''"
  by (auto simp: is_digit_def code_def)

lemma py_int_show_int: "py_int (show_int i) = Some i"
proof -
  have digs: "c \<in> set (show_nat n) \<Longrightarrow> is_digit c" for c n
    using show_nat_digits by blast
  have st: "strip (show_int i) = show_int i"
  proof (rule strip_id)
    fix c assume "c \<in> set (show_int i)"
    then have "c = CHR ''-'' \<or> is_digit c" by (auto simp: show_int_def dest: digs split: if_splits)
    then show "\<not> is_space c" by (auto simp: digit_not_space) (simp add: is_space_def code_def)
  qed
  have ts: "take_sign (show_nat n) = (False, show_nat n)" for n
  proof (cases "show_nat n")
    case (Cons c t)
    then have "is_digit c" using digs[of c n] by simp
    with Cons show ?thesis by (simp add: take_sign_def digit_sign)
  qed simp
  have tm: "take_sign (CHR ''-'' # t) = (True, t)" for t
    by (simp add: take_sign_def)
  have sc: "scan_digits False 0 0 (show_nat n) = (n, length (show_nat n), [])" for n
    using scan_digits_all[OF show_nat_digits] by (simp add: foldl_show_nat)
  show ?thesis
    by (cases "i < 0") (simp_all add: py_int_def st, simp_all add: show_int_def ts tm sc)
qed

lemma show_int_inj: "show_int a = show_int b \<Longrightarrow> a = b"
  using py_int_show_int by (metis option.inject)

lemma lower_idem [simp]: "lower (lower s) = lower s"
proof -
  have "lower_char (lower_char c) = lower_char c" for c
    by (auto simp: lower_char_def is_upper_def code_def)
  then show ?thesis by (simp add: lower_def)
qed

lemma strip_space_ends: "s \<noteq> [] \<Longrightarrow> strip s = s \<Longrightarrow> \<not> is_space (hd s)"
proof
  assume s: "s \<noteq> []" "strip s = s" "is_space (hd s)"
  then have "lstrip s = lstrip (tl s)" by (cases s) (auto simp: lstrip_def)
  moreover have "length (strip s) \<le> length (lstrip s)"
    by (simp add: strip_def lstrip_def) (metis length_dropWhile_le length_rev)
  moreover have "length (lstrip (tl s)) \<le> length (tl s)"
    by (simp only: lstrip_def length_dropWhile_le)
  ultimately show False using s(1,2) by (cases s) auto
qed

lemma lstrip_suffix: "\<exists>p. s = p @ lstrip s \<and> (\<forall>c \<in> set p. is_space c)"
  using takeWhile_dropWhile_id[of is_space s] set_takeWhileD[of _ is_space s] unfolding lstrip_def by metis

lemma lstrip_fix: "lstrip s = s \<longleftrightarrow> s = [] \<or> \<not> is_space (hd s)"
proof
  assume "lstrip s = s"
  moreover have "\<not> is_space (hd (lstrip s))" if "lstrip s \<noteq> []"
    using hd_dropWhile that unfolding lstrip_def by blast
  ultimately show "s = [] \<or> \<not> is_space (hd s)" by metis
next
  assume "s = [] \<or> \<not> is_space (hd s)"
  then show "lstrip s = s" by (cases s) (auto simp: lstrip_def)
qed

lemma lstrip_idem: "lstrip (lstrip s) = lstrip s"
  unfolding lstrip_fix[of "lstrip s"] using hd_dropWhile unfolding lstrip_def by blast

lemma lstrip_append_stable: "lstrip s = s \<Longrightarrow> s = a @ b \<Longrightarrow> lstrip a = a"
  unfolding lstrip_fix by (cases a) auto

lemma strip_length: "length (strip s) \<le> length s"
proof -
  have "length (lstrip t) \<le> length t" for t by (simp add: lstrip_def length_dropWhile_le)
  from this[of "rev (lstrip s)"] this[of s] show ?thesis by (simp add: strip_def)
qed

lemma strip_idem: "strip (strip s) = strip s"
proof -
  define t where "t = lstrip s"
  obtain p where p: "rev t = p @ lstrip (rev t)" using lstrip_suffix by blast
  have "t = rev (lstrip (rev t)) @ rev p" using arg_cong[OF p, of rev] by simp
  moreover have "lstrip t = t" by (simp add: t_def lstrip_idem)
  ultimately have e: "lstrip (rev (lstrip (rev t))) = rev (lstrip (rev t))" using lstrip_append_stable by blast
  have "strip s = rev (lstrip (rev t))" by (simp only: strip_def t_def)
  then show ?thesis by (simp only: strip_def e rev_rev_ident lstrip_idem)
qed

end
