(* ===== verification/JobModel.thy ===== *)
theory JobModel
  imports PyText
begin

text \<open>
  The data of the durable job runtime (\<^verbatim>\<open>app/jobs/runtime.py\<close> and the three tables of
  \<^verbatim>\<open>app/db/models.py\<close> it owns): its configuration read from environment variables, jobs, the
  outbox that hands them to Redis, and terminal error records. The check constraints on
  \<^verbatim>\<open>status\<close> columns become datatypes. Operations are polymorphic in the extension of the database
  record, so that later components add their own tables to the same state.
\<close>

section \<open>Configuration\<close>

type_synonym env = "string \<Rightarrow> string option"

record runtime_config =
  c_enabled :: bool
  c_redis_url :: string
  c_queue_name :: string
  c_queue_key_prefix :: string
  c_heartbeat_ttl :: int
  c_pop_timeout :: int
  c_scheduler_interval :: pyfloat
  c_dispatch_batch :: int
  c_redispatch :: int
  c_retry_base :: int
  c_retry_max :: int
  c_stale_lock :: int

definition bool_env :: "env \<Rightarrow> string \<Rightarrow> bool \<Rightarrow> string + bool" where
  "bool_env env name dflt = (case env name of
      None \<Rightarrow> Inr dflt
    | Some v \<Rightarrow> (let n = lower (strip v) in
        if n \<in> {''1'', ''true'', ''yes'', ''on''} then Inr True
        else if n \<in> {''0'', ''false'', ''no'', ''off''} then Inr False
        else Inl (name @ '' must be true or false'')))"

definition int_env :: "env \<Rightarrow> string \<Rightarrow> int \<Rightarrow> string + int" where
  "int_env env name dflt =
     (case py_int (case env name of None \<Rightarrow> show_int dflt | Some v \<Rightarrow> v) of
        None \<Rightarrow> Inl (name @ '' must be an integer'')
      | Some i \<Rightarrow> Inr i)"

text \<open>\<open>shown\<close> is the decimal text Python prints for the default.\<close>

definition float_env :: "env \<Rightarrow> string \<Rightarrow> string \<Rightarrow> string + pyfloat" where
  "float_env env name shown =
     (case py_float (case env name of None \<Rightarrow> shown | Some v \<Rightarrow> v) of
        None \<Rightarrow> Inl (name @ '' must be numeric'')
      | Some x \<Rightarrow> Inr x)"

definition str_env :: "env \<Rightarrow> string \<Rightarrow> string \<Rightarrow> string" where
  "str_env env name dflt = (case env name of None \<Rightarrow> dflt | Some v \<Rightarrow> v)"

definition key_prefix_char :: "char \<Rightarrow> bool" where
  "key_prefix_char c = (is_alnum c \<or> c = CHR ''.'' \<or> c = CHR ''_'' \<or> c = CHR ''-'')"

definition check_config :: "runtime_config \<Rightarrow> string + runtime_config" where
  "check_config c =
    (if c_queue_name c = [] \<or> CHR '':'' \<in> set (c_queue_name c)
       then Inl ''ASYNC_QUEUE_NAME must be non-empty and cannot contain ':' ''
     else if c_queue_key_prefix c = [] \<or> \<not> list_all key_prefix_char (c_queue_key_prefix c)
       then Inl ''ASYNC_QUEUE_KEY_PREFIX contains invalid characters''
     else if c_heartbeat_ttl c < 15 then Inl ''ASYNC_HEARTBEAT_TTL_SECONDS must be at least 15''
     else if \<not> (1 \<le> c_pop_timeout c \<and> c_pop_timeout c < c_heartbeat_ttl c)
       then Inl ''ASYNC_POP_TIMEOUT_SECONDS must be positive and below heartbeat TTL''
     else if pf_le (c_scheduler_interval c) (Fin 0)
       then Inl ''ASYNC_SCHEDULER_INTERVAL_SECONDS must be positive''
     else if \<not> (1 \<le> c_dispatch_batch c \<and> c_dispatch_batch c \<le> 1000)
       then Inl ''ASYNC_DISPATCH_BATCH_SIZE must be between 1 and 1000''
     else if c_redispatch c < c_heartbeat_ttl c
       then Inl ''ASYNC_REDISPATCH_SECONDS must be at least the heartbeat TTL''
     else if c_retry_base c < 1 \<or> c_retry_max c < c_retry_base c
       then Inl ''Async retry settings are invalid''
     else if c_stale_lock c < c_heartbeat_ttl c
       then Inl ''ASYNC_STALE_LOCK_SECONDS must be at least the heartbeat TTL''
     else Inr c)"

definition config_from_env :: "env \<Rightarrow> string + runtime_config" where
  "config_from_env env =
     and_then (bool_env env ''ASYNC_RUNTIME_ENABLED'' False) (\<lambda>enabled.
     and_then (int_env env ''ASYNC_HEARTBEAT_TTL_SECONDS'' 45) (\<lambda>heartbeat.
     and_then (int_env env ''ASYNC_POP_TIMEOUT_SECONDS'' 5) (\<lambda>pop.
     and_then (float_env env ''ASYNC_SCHEDULER_INTERVAL_SECONDS'' ''2.0'') (\<lambda>interval.
     and_then (int_env env ''ASYNC_DISPATCH_BATCH_SIZE'' 100) (\<lambda>batch.
     and_then (int_env env ''ASYNC_REDISPATCH_SECONDS'' 60) (\<lambda>redispatch.
     and_then (int_env env ''ASYNC_RETRY_BASE_SECONDS'' 5) (\<lambda>base.
     and_then (int_env env ''ASYNC_RETRY_MAX_SECONDS'' 900) (\<lambda>mx.
     and_then (int_env env ''ASYNC_STALE_LOCK_SECONDS'' 300) (\<lambda>stale.
       check_config \<lparr> c_enabled = enabled,
         c_redis_url = str_env env ''REDIS_URL'' ''redis://redis:6379/0'',
         c_queue_name = str_env env ''ASYNC_QUEUE_NAME'' ''default'',
         c_queue_key_prefix = str_env env ''ASYNC_QUEUE_KEY_PREFIX'' ''bumpabestie'',
         c_heartbeat_ttl = heartbeat, c_pop_timeout = pop, c_scheduler_interval = interval,
         c_dispatch_batch = batch, c_redispatch = redispatch, c_retry_base = base,
         c_retry_max = mx, c_stale_lock = stale \<rparr>)))))))))"

definition queue_key :: "runtime_config \<Rightarrow> string" where
  "queue_key c = c_queue_key_prefix c @ '':jobs:'' @ c_queue_name c"

definition heartbeat_key :: "runtime_config \<Rightarrow> string \<Rightarrow> string" where
  "heartbeat_key c service = c_queue_key_prefix c @ '':health:'' @ service"

text \<open>What every configuration that the process accepts satisfies.\<close>

definition config_ok :: "runtime_config \<Rightarrow> bool" where
  "config_ok c \<longleftrightarrow>
     15 \<le> c_heartbeat_ttl c \<and> 1 \<le> c_pop_timeout c \<and> c_pop_timeout c < c_heartbeat_ttl c
   \<and> 1 \<le> c_dispatch_batch c \<and> c_dispatch_batch c \<le> 1000
   \<and> c_heartbeat_ttl c \<le> c_redispatch c \<and> c_heartbeat_ttl c \<le> c_stale_lock c
   \<and> 1 \<le> c_retry_base c \<and> c_retry_base c \<le> c_retry_max c
   \<and> c_queue_name c \<noteq> [] \<and> CHR '':'' \<notin> set (c_queue_name c)
   \<and> CHR '':'' \<notin> set (c_queue_key_prefix c)"

lemma key_prefix_no_colon: "list_all key_prefix_char s \<Longrightarrow> CHR '':'' \<notin> set s"
  by (induction s) (auto simp: key_prefix_char_def is_alnum_def is_digit_def is_upper_def
      is_lower_def code_def)

lemma check_config_ok: "check_config c = Inr c' \<Longrightarrow> c' = c \<and> config_ok c"
  by (auto simp: check_config_def config_ok_def key_prefix_no_colon split: if_splits)

lemma config_from_env_ok: "config_from_env env = Inr c \<Longrightarrow> config_ok c"
  by (auto simp: config_from_env_def and_then_Inr dest: check_config_ok)

text \<open>Keys of different services or queues never collide: neither part may hold a colon.\<close>

lemma queue_key_inj:
  assumes "config_ok c" "config_ok d" "queue_key c = queue_key d"
  shows "c_queue_key_prefix c = c_queue_key_prefix d \<and> c_queue_name c = c_queue_name d"
proof -
  have "hd (split_on CHR '':'' (queue_key x)) = c_queue_key_prefix x" if "config_ok x" for x
    using that by (simp add: queue_key_def config_ok_def split_on_append)
  with assms have "c_queue_key_prefix c = c_queue_key_prefix d" by metis
  with assms(3) show ?thesis by (simp add: queue_key_def)
qed

section \<open>Jobs, outbox and terminal errors\<close>

datatype job_status = JPending | JQueued | JRunning | JRetry | JSucceeded | JDeadLetter | JCancelled

datatype outbox_status = OPending | ODispatched

record async_job =
  j_id :: ident
  j_tenant_id :: "ident option"
  j_queue_name :: string
  j_kind :: string
  j_payload :: pyval
  j_status :: job_status
  j_idempotency_key :: string
  j_claim_epoch :: int
  j_attempts :: int
  j_max_attempts :: int
  j_available_at :: time
  j_locked_at :: "time option"
  j_locked_by :: "string option"
  j_last_error :: "string option"
  j_result :: pyval
  j_finished_at :: "time option"
  j_created_at :: time

text \<open>The outbox row's own primary key is never read; a row is identified by its unique \<open>job_id\<close>.\<close>

record job_outbox =
  o_tenant_id :: "ident option"
  o_job_id :: ident
  o_status :: outbox_status
  o_available_at :: time
  o_dispatch_attempts :: int
  o_dispatched_at :: "time option"
  o_last_error :: "string option"
  o_created_at :: time

record system_error =
  e_id :: ident
  e_tenant_id :: "ident option"
  e_service :: string
  e_severity :: string
  e_message :: string
  e_stack :: "string option"
  e_metadata :: pyval
  e_created_at :: time

record jobdb =
  job_rows :: "async_job list"
  outbox_rows :: "job_outbox list"
  error_rows :: "system_error list"

definition empty_jobdb :: jobdb where
  "empty_jobdb = \<lparr> job_rows = [], outbox_rows = [], error_rows = [] \<rparr>"

definition get_job :: "'a jobdb_scheme \<Rightarrow> ident \<Rightarrow> async_job option" where
  "get_job db jid = tbl_find j_id jid (job_rows db)"

definition set_job :: "ident \<Rightarrow> (async_job \<Rightarrow> async_job) \<Rightarrow> 'a jobdb_scheme \<Rightarrow> 'a jobdb_scheme" where
  "set_job jid f db = db\<lparr>job_rows := tbl_upd j_id jid f (job_rows db)\<rparr>"

definition get_outbox :: "'a jobdb_scheme \<Rightarrow> ident \<Rightarrow> job_outbox option" where
  "get_outbox db jid = tbl_find o_job_id jid (outbox_rows db)"

definition set_outbox :: "ident \<Rightarrow> (job_outbox \<Rightarrow> job_outbox) \<Rightarrow> 'a jobdb_scheme \<Rightarrow> 'a jobdb_scheme" where
  "set_outbox jid f db = db\<lparr>outbox_rows := tbl_upd o_job_id jid f (outbox_rows db)\<rparr>"

interpretation jobs_table: table_view job_rows "\<lambda>xs db. db\<lparr>job_rows := xs\<rparr>" j_id
  by unfold_locales simp_all

interpretation outbox_table: table_view outbox_rows "\<lambda>xs db. db\<lparr>outbox_rows := xs\<rparr>" o_job_id
  by unfold_locales simp_all

lemma get_set_job [row_simps]:
  "(\<And>r. j_id (f r) = j_id r) \<Longrightarrow>
   get_job (set_job k' f db) k = (if k = k' then map_option f (get_job db k) else get_job db k)"
  unfolding get_job_def set_job_def by (rule jobs_table.find_modify)

lemma get_set_outbox [row_simps]:
  "(\<And>r. o_job_id (f r) = o_job_id r) \<Longrightarrow>
   get_outbox (set_outbox k' f db) k =
     (if k = k' then map_option f (get_outbox db k) else get_outbox db k)"
  unfolding get_outbox_def set_outbox_def by (rule outbox_table.find_modify)

lemma get_job_frame [row_simps]:
  "get_job (set_outbox k f db) j = get_job db j"
  "get_job (db\<lparr>outbox_rows := os\<rparr>) j = get_job db j"
  "get_job (db\<lparr>error_rows := es\<rparr>) j = get_job db j"
  by (simp_all add: get_job_def set_outbox_def)

lemma get_outbox_frame [row_simps]:
  "get_outbox (set_job k g db) j = get_outbox db j"
  "get_outbox (db\<lparr>job_rows := js\<rparr>) j = get_outbox db j"
  "get_outbox (db\<lparr>error_rows := es\<rparr>) j = get_outbox db j"
  by (simp_all add: get_outbox_def set_job_def)

lemma set_rows_frame [simp]:
  "outbox_rows (set_job k f db) = outbox_rows db"
  "error_rows (set_job k f db) = error_rows db"
  "job_rows (set_outbox k g db) = job_rows db"
  "error_rows (set_outbox k g db) = error_rows db"
  "job_rows (set_job k f db) = tbl_upd j_id k f (job_rows db)"
  "outbox_rows (set_outbox k g db) = tbl_upd o_job_id k g (outbox_rows db)"
  by (simp_all add: set_job_def set_outbox_def)

lemma get_job_Some: "get_job db jid = Some j \<Longrightarrow> j \<in> set (job_rows db) \<and> j_id j = jid"
  by (auto simp: get_job_def dest: tbl_find_Some)

lemma get_outbox_Some: "get_outbox db jid = Some ob \<Longrightarrow> ob \<in> set (outbox_rows db) \<and> o_job_id ob = jid"
  by (auto simp: get_outbox_def dest: tbl_find_Some)

end
