(* ===== verification/JobQueue.thy ===== *)
theory JobQueue
  imports JobModel
begin

text \<open>
  The operations of \<^verbatim>\<open>app/jobs/runtime.py\<close> on the job tables. Each operation is one transaction:
  it takes the database it reads, one reading of the clock, and the choices of its environment
  (fresh identifiers, rows locked by other transactions, whether Redis accepts a publish), and it
  returns the committed database. A rollback returns the database unchanged.

  \<^item> \<open>held\<close> says which rows another transaction has locked; \<^verbatim>\<open>SKIP LOCKED\<close> leaves them out.
  \<^item> \<open>enqueue_job\<close> reads the database twice, as the source does: \<open>seen\<close> is what its first
    \<^verbatim>\<open>SELECT\<close> saw, \<open>db\<close> what the insert meets, so a concurrent insert of the same key is covered.
\<close>

section \<open>Exceptions and deferral\<close>

datatype job_exn =
    PermanentJobError
  | JobDeferredError rat
  | JobLeaseLostError
  | OtherError string

fun exn_name :: "job_exn \<Rightarrow> string" where
  "exn_name PermanentJobError = ''PermanentJobError''"
| "exn_name (JobDeferredError _) = ''JobDeferredError''"
| "exn_name JobLeaseLostError = ''JobLeaseLostError''"
| "exn_name (OtherError n) = n"

text \<open>The constructor of \<^verbatim>\<open>JobDeferredError\<close>; \<open>Inl\<close> is its \<^verbatim>\<open>ValueError\<close>.\<close>

definition deferral :: "pyfloat \<Rightarrow> string + job_exn" where
  "deferral delay = (case delay of
      Fin q \<Rightarrow> if 0 < q \<and> q \<le> 3600 then Inr (JobDeferredError q)
        else Inl ''Job deferral must be between zero and one hour''
    | _ \<Rightarrow> Inl ''Job deferral must be between zero and one hour'')"

definition safe_error :: "job_exn \<Rightarrow> string \<Rightarrow> string" where
  "safe_error e fallback = take 240 (exn_name e @ '': '' @ fallback)"

text \<open>\<^verbatim>\<open>timedelta(seconds=x)\<close> for a float rounds to microseconds, ties to even.\<close>

definition round_half_even :: "rat \<Rightarrow> int" where
  "round_half_even q = (let f = floor q; d = q - of_int f in
     if d < 1 / 2 then f else if 1 / 2 < d then f + 1 else if even f then f else f + 1)"

definition float_seconds :: "rat \<Rightarrow> time" where
  "float_seconds q = round_half_even (q * 1000000)"

definition retry_delay :: "int \<Rightarrow> int \<Rightarrow> int \<Rightarrow> int" where
  "retry_delay base mx attempts = min (base * 2 ^ nat (max (attempts - 1) 0)) mx"

section \<open>Leases and fences\<close>

record job_fence =
  f_job_id :: ident
  f_worker_id :: string
  f_claim_epoch :: int
  f_stale_lock :: int
  f_invalid :: bool

definition invalidate :: "job_fence \<Rightarrow> job_fence" where
  "invalidate f = f\<lparr>f_invalid := True\<rparr>"

definition assert_job_lease ::
  "'a jobdb_scheme \<Rightarrow> time \<Rightarrow> ident \<Rightarrow> int \<Rightarrow> int \<Rightarrow> string option \<Rightarrow> job_exn + unit" where
  "assert_job_lease db now jid epoch stale worker =
    (case get_job db jid of
       None \<Rightarrow> Inl JobLeaseLostError
     | Some j \<Rightarrow>
         if j_status j \<noteq> JRunning
          \<or> j_claim_epoch j \<noteq> epoch
          \<or> (case worker of None \<Rightarrow> False | Some w \<Rightarrow> j_locked_by j \<noteq> Some w)
          \<or> (case j_locked_by j of None \<Rightarrow> True | Some w \<Rightarrow> w = [])
          \<or> (case j_locked_at j of None \<Rightarrow> True
             | Some t \<Rightarrow> epoch < 1 \<or> stale \<le> 0 \<or> t \<le> now - seconds stale)
         then Inl JobLeaseLostError else Inr ())"

definition assert_current_job_lease ::
  "'a jobdb_scheme \<Rightarrow> time \<Rightarrow> job_fence option \<Rightarrow> job_fence option \<times> (job_exn + unit)" where
  "assert_current_job_lease db now fo = (case fo of
      None \<Rightarrow> (None, Inr ())
    | Some f \<Rightarrow> if f_invalid f then (fo, Inl JobLeaseLostError)
        else case assert_job_lease db now (f_job_id f) (f_claim_epoch f) (f_stale_lock f)
                    (Some (f_worker_id f)) of
          Inl e \<Rightarrow> (Some (invalidate f), Inl e)
        | Inr u \<Rightarrow> (fo, Inr u))"

definition owns_job :: "async_job option \<Rightarrow> string \<Rightarrow> int option \<Rightarrow> bool" where
  "owns_job jo worker epoch = (case jo of None \<Rightarrow> False | Some j \<Rightarrow>
     j_status j = JRunning \<and> j_locked_by j = Some worker
     \<and> (case epoch of None \<Rightarrow> True | Some e \<Rightarrow> j_claim_epoch j = e))"

section \<open>Handlers by kind\<close>

type_synonym 'h registry = "(string \<times> 'h) list"

definition register :: "string \<Rightarrow> 'h \<Rightarrow> 'h registry \<Rightarrow> string + 'h registry" where
  "register kind h reg = (if kind = [] \<or> map_of reg kind \<noteq> None
     then Inl (''Job handler is already registered or invalid: '' @ kind)
     else Inr ((kind, h) # reg))"

definition handler_for :: "'h registry \<Rightarrow> string \<Rightarrow> job_exn + 'h" where
  "handler_for reg kind = (case map_of reg kind of None \<Rightarrow> Inl PermanentJobError | Some h \<Rightarrow> Inr h)"

section \<open>Admission\<close>

datatype enqueue_error = ValueError string | IntegrityError

definition find_by_key :: "'a jobdb_scheme \<Rightarrow> string \<Rightarrow> string \<Rightarrow> async_job option" where
  "find_by_key db q k = find (\<lambda>j. j_queue_name j = q \<and> j_idempotency_key j = k) (job_rows db)"

definition new_job ::
  "ident \<Rightarrow> time \<Rightarrow> string \<Rightarrow> pyval \<Rightarrow> string \<Rightarrow> ident option \<Rightarrow> string \<Rightarrow> int \<Rightarrow> time \<Rightarrow> async_job" where
  "new_job nid now kind payload key tenant q maxa due =
    \<lparr> j_id = nid, j_tenant_id = tenant, j_queue_name = q, j_kind = kind, j_payload = payload,
      j_status = JPending, j_idempotency_key = key, j_claim_epoch = 0, j_attempts = 0,
      j_max_attempts = maxa, j_available_at = due, j_locked_at = None, j_locked_by = None,
      j_last_error = None, j_result = PNone, j_finished_at = None, j_created_at = now \<rparr>"

definition new_outbox :: "ident option \<Rightarrow> ident \<Rightarrow> time \<Rightarrow> time \<Rightarrow> job_outbox" where
  "new_outbox tenant jid due now =
    \<lparr> o_tenant_id = tenant, o_job_id = jid, o_status = OPending, o_available_at = due,
      o_dispatch_attempts = 0, o_dispatched_at = None, o_last_error = None, o_created_at = now \<rparr>"

definition insert_ok :: "'a jobdb_scheme \<Rightarrow> bool \<Rightarrow> ident \<Rightarrow> string \<Rightarrow> string \<Rightarrow> bool" where
  "insert_ok db fk_ok nid q k =
    (fk_ok \<and> find_by_key db q k = None \<and> get_job db nid = None \<and> get_outbox db nid = None)"

definition enqueue_job ::
  "'a jobdb_scheme \<Rightarrow> 'a jobdb_scheme \<Rightarrow> ident \<Rightarrow> bool \<Rightarrow> time \<Rightarrow> string \<Rightarrow> pyval \<Rightarrow> string \<Rightarrow>
   ident option \<Rightarrow> string \<Rightarrow> int \<Rightarrow> time option \<Rightarrow>
   enqueue_error + ('a jobdb_scheme \<times> async_job \<times> bool)" where
  "enqueue_job seen db nid fk_ok now kind payload key tenant q maxa avail =
    (if kind = [] \<or> key = [] then Inl (ValueError ''kind and idempotency_key are required'')
     else if \<not> (1 \<le> maxa \<and> maxa \<le> 100)
       then Inl (ValueError ''max_attempts must be between 1 and 100'')
     else case find_by_key seen q key of
       Some j \<Rightarrow> Inr (db, j, False)
     | None \<Rightarrow>
        (let due = (case avail of None \<Rightarrow> now | Some t \<Rightarrow> t);
             job = new_job nid now kind payload key tenant q maxa due
         in if insert_ok db fk_ok nid q key
            then Inr (db\<lparr>job_rows := job_rows db @ [job],
                         outbox_rows := outbox_rows db @ [new_outbox tenant nid due now]\<rparr>, job, True)
            else case find_by_key db q key of
              Some j \<Rightarrow> Inr (db, j, False)
            | None \<Rightarrow> Inl IntegrityError))"

section \<open>Dispatch\<close>

datatype dispatch_result = NoneDue | Dropped | PublishFailed | Published ident

definition job_in_queue :: "'a jobdb_scheme \<Rightarrow> string \<Rightarrow> ident \<Rightarrow> bool" where
  "job_in_queue db q jid = (case get_job db jid of None \<Rightarrow> False | Some j \<Rightarrow> j_queue_name j = q)"

definition next_due :: "'a jobdb_scheme \<Rightarrow> (ident \<Rightarrow> bool) \<Rightarrow> string \<Rightarrow> time \<Rightarrow> job_outbox option" where
  "next_due db held q now = first_by (\<lambda>ob. (o_available_at ob, o_created_at ob))
     (\<lambda>ob. o_status ob = OPending \<and> o_available_at ob \<le> now \<and> \<not> held (o_job_id ob)
        \<and> job_in_queue db q (o_job_id ob)) (outbox_rows db)"

definition mark_queued :: "async_job \<Rightarrow> async_job" where
  "mark_queued j = (if j_status j \<in> {JPending, JRetry} then j\<lparr>j_status := JQueued\<rparr> else j)"

text \<open>
  One iteration of the dispatch loop; \<open>fault\<close> is the exception Redis raised when the identifier
  was pushed, if it did.
\<close>

definition dispatch_one ::
  "runtime_config \<Rightarrow> job_exn option \<Rightarrow> (ident \<Rightarrow> bool) \<Rightarrow> time \<Rightarrow> 'a jobdb_scheme \<Rightarrow>
   dispatch_result \<times> 'a jobdb_scheme" where
  "dispatch_one cfg fault held now db =
    (case next_due db held (c_queue_name cfg) now of
       None \<Rightarrow> (NoneDue, db)
     | Some ob \<Rightarrow>
        (let jid = o_job_id ob in
         case get_job db jid of
           None \<Rightarrow> (Dropped, set_outbox jid
             (\<lambda>r. r\<lparr>o_status := ODispatched, o_dispatched_at := Some now, o_last_error := None\<rparr>) db)
         | Some j \<Rightarrow>
             if j_status j \<in> {JSucceeded, JDeadLetter, JCancelled}
             then (Dropped, set_outbox jid
               (\<lambda>r. r\<lparr>o_status := ODispatched, o_dispatched_at := Some now, o_last_error := None\<rparr>) db)
             else case fault of
               Some e \<Rightarrow> (PublishFailed, set_outbox jid
                 (\<lambda>r. let n = o_dispatch_attempts r + 1 in
                   r\<lparr>o_dispatch_attempts := n,
                     o_last_error := Some (safe_error e ''queue publish failed''),
                     o_available_at :=
                       now + seconds (retry_delay (c_retry_base cfg) (c_retry_max cfg) n)\<rparr>) db)
             | None \<Rightarrow> (Published jid, set_job jid mark_queued (set_outbox jid
                 (\<lambda>r. r\<lparr>o_status := ODispatched, o_dispatch_attempts := o_dispatch_attempts r + 1,
                       o_dispatched_at := Some now, o_last_error := None\<rparr>) db))))"

definition pending_outbox :: "'a jobdb_scheme \<Rightarrow> job_outbox list" where
  "pending_outbox db = filter (\<lambda>ob. o_status ob = OPending) (outbox_rows db)"

lemma next_due_Some:
  assumes "next_due db held q now = Some ob"
  shows "ob \<in> set (outbox_rows db)" "o_status ob = OPending" "o_available_at ob \<le> now"
    "\<not> held (o_job_id ob)" "job_in_queue db q (o_job_id ob)"
  using first_by_Some[OF assms[unfolded next_due_def]] by auto

text \<open>Every iteration that does not end the loop takes one row out of the pending ones.\<close>

lemma dispatch_one_progress:
  assumes "dispatch_one cfg fault held now db = (r, db')" "r = Dropped \<or> r = Published jid"
  shows "length (pending_outbox db') < length (pending_outbox db)"
proof -
  obtain ob where ob: "next_due db held (c_queue_name cfg) now = Some ob"
    using assms by (auto simp: dispatch_one_def split: option.splits)
  have drop: "length (filter (\<lambda>x. o_status x = OPending)
      (tbl_upd o_job_id (o_job_id ob) f (outbox_rows db)))
      < length (filter (\<lambda>x. o_status x = OPending) (outbox_rows db))"
    if "\<And>x. o_status (f x) = ODispatched" for f
    using that next_due_Some[OF ob] by (intro count_rows_drop[where r = ob]) auto
  from assms ob show ?thesis
    by (auto simp: dispatch_one_def Let_def pending_outbox_def
        intro!: drop split: option.splits if_splits)
qed

text \<open>
  The loop. Iteration \<open>i\<close> reads the clock \<open>clk i\<close>, meets the locks \<open>held i\<close> and the publish
  outcome \<open>pub i\<close>; \<open>n\<close> counts the identifiers published so far and \<open>wake\<close> is the Redis list.
\<close>

function dispatch_loop ::
  "runtime_config \<Rightarrow> (nat \<Rightarrow> job_exn option) \<Rightarrow> (nat \<Rightarrow> ident \<Rightarrow> bool) \<Rightarrow> (nat \<Rightarrow> time) \<Rightarrow> int \<Rightarrow>
   nat \<Rightarrow> int \<Rightarrow> 'a jobdb_scheme \<Rightarrow> ident list \<Rightarrow> int \<times> 'a jobdb_scheme \<times> ident list" where
  "dispatch_loop cfg pub held clk limit i n db wake =
    (if limit \<le> n then (n, db, wake)
     else case dispatch_one cfg (pub i) (held i) (clk i) db of
       (NoneDue, _) \<Rightarrow> (n, db, wake)
     | (PublishFailed, db') \<Rightarrow> (n, db', wake)
     | (Dropped, db') \<Rightarrow> dispatch_loop cfg pub held clk limit (Suc i) n db' wake
     | (Published jid, db') \<Rightarrow>
         dispatch_loop cfg pub held clk limit (Suc i) (n + 1) db' (wake @ [jid]))"
  by pat_completeness auto
termination
  by (relation "measure (\<lambda>(cfg, pub, held, clk, limit, i, n, db, wake). length (pending_outbox db))")
    (auto intro: dispatch_one_progress[OF sym])

declare dispatch_loop.simps [simp del]

definition dispatch_due_jobs ::
  "runtime_config \<Rightarrow> (nat \<Rightarrow> job_exn option) \<Rightarrow> (nat \<Rightarrow> ident \<Rightarrow> bool) \<Rightarrow> (nat \<Rightarrow> time) \<Rightarrow> int \<Rightarrow>
   'a jobdb_scheme \<Rightarrow> ident list \<Rightarrow> int \<times> 'a jobdb_scheme \<times> ident list" where
  "dispatch_due_jobs cfg pub held clk limit db wake = dispatch_loop cfg pub held clk limit 0 0 db wake"

section \<open>Claims, renewal, completion\<close>

definition claimable :: "async_job \<Rightarrow> time \<Rightarrow> bool" where
  "claimable j now = (j_status j \<in> {JPending, JQueued, JRetry} \<and> j_available_at j \<le> now)"

definition claim_fields :: "string \<Rightarrow> time \<Rightarrow> async_job \<Rightarrow> async_job" where
  "claim_fields worker now j = j\<lparr>j_status := JRunning, j_attempts := j_attempts j + 1,
     j_claim_epoch := j_claim_epoch j + 1, j_locked_at := Some now, j_locked_by := Some worker,
     j_last_error := None\<rparr>"

definition claim_job ::
  "'a jobdb_scheme \<Rightarrow> (ident \<Rightarrow> bool) \<Rightarrow> time \<Rightarrow> ident \<Rightarrow> string \<Rightarrow>
   'a jobdb_scheme \<times> async_job option" where
  "claim_job db held now jid worker =
    (case get_job db jid of
       None \<Rightarrow> (db, None)
     | Some j \<Rightarrow> if held jid \<or> \<not> claimable j now then (db, None)
         else (set_job jid (claim_fields worker now) db, Some (claim_fields worker now j)))"

definition renew_job_lease ::
  "'a jobdb_scheme \<Rightarrow> time \<Rightarrow> ident \<Rightarrow> string \<Rightarrow> int option \<Rightarrow> int option \<Rightarrow>
   'a jobdb_scheme \<times> bool" where
  "renew_job_lease db now jid worker epoch stale =
    (case get_job db jid of
       None \<Rightarrow> (db, False)
     | Some j \<Rightarrow>
         if owns_job (Some j) worker epoch
          \<and> (case stale of None \<Rightarrow> True | Some s \<Rightarrow>
               (case j_locked_at j of None \<Rightarrow> False | Some t \<Rightarrow> now - seconds s < t))
         then (set_job jid (\<lambda>r. r\<lparr>j_locked_at := Some now\<rparr>) db, True)
         else (db, False))"

definition complete_job ::
  "'a jobdb_scheme \<Rightarrow> time \<Rightarrow> ident \<Rightarrow> pyval \<Rightarrow> string \<Rightarrow> int option \<Rightarrow> job_exn + 'a jobdb_scheme" where
  "complete_job db now jid result worker epoch =
    (if owns_job (get_job db jid) worker epoch
     then Inr (set_job jid (\<lambda>r. r\<lparr>j_status := JSucceeded, j_result := result,
            j_finished_at := Some now, j_locked_at := None, j_locked_by := None\<rparr>) db)
     else Inl JobLeaseLostError)"

text \<open>
  Reopening the outbox row of a job that will be tried again; a missing row is recreated.
\<close>

definition reopen_outbox :: "async_job \<Rightarrow> time \<Rightarrow> time \<Rightarrow> 'a jobdb_scheme \<Rightarrow> 'a jobdb_scheme" where
  "reopen_outbox j due now db =
    (let db1 = (case get_outbox db (j_id j) of
                  Some _ \<Rightarrow> db
                | None \<Rightarrow> db\<lparr>outbox_rows :=
                    outbox_rows db @ [new_outbox (j_tenant_id j) (j_id j) now now]\<rparr>)
     in set_outbox (j_id j) (\<lambda>r. r\<lparr>o_status := OPending, o_available_at := due,
          o_dispatched_at := None, o_last_error := None\<rparr>) db1)"

definition record_terminal_failure ::
  "ident \<Rightarrow> time \<Rightarrow> async_job \<Rightarrow> string \<Rightarrow> string \<Rightarrow> 'a jobdb_scheme \<Rightarrow> 'a jobdb_scheme" where
  "record_terminal_failure eid now j reason service db = db\<lparr>error_rows := error_rows db @
     [\<lparr> e_id = eid, e_tenant_id = j_tenant_id j, e_service = service, e_severity = ''high'',
        e_message = ''Asynchronous job reached terminal failure'', e_stack = None,
        e_metadata = PDict [(''job_id'', PStr (j_id j)), (''job_kind'', PStr (j_kind j)),
          (''terminal_reason'', PStr reason), (''attempts'', PInt (j_attempts j)),
          (''max_attempts'', PInt (j_max_attempts j))],
        e_created_at = now \<rparr>]\<rparr>"

section \<open>Failure, deferral, recovery, replay\<close>

datatype fail_result = FMissing | FLeaseLost | FDeadLetter | FRetry | FDeferred

definition fail_job ::
  "'a jobdb_scheme \<Rightarrow> runtime_config \<Rightarrow> ident \<Rightarrow> time \<Rightarrow> ident \<Rightarrow> job_exn \<Rightarrow> string \<Rightarrow> int option \<Rightarrow>
   bool \<Rightarrow> 'a jobdb_scheme \<times> fail_result" where
  "fail_job db cfg eid now jid err worker epoch permanent =
    (case get_job db jid of
       None \<Rightarrow> (db, FMissing)
     | Some j \<Rightarrow>
        if \<not> owns_job (Some j) worker epoch then (db, FLeaseLost)
        else if permanent \<or> j_max_attempts j \<le> j_attempts j then
          (record_terminal_failure eid now j
             (if permanent then ''permanent_failure'' else ''attempts_exhausted'') ''async_worker''
             (set_job jid (\<lambda>r. r\<lparr>j_last_error := Some (safe_error err ''job execution failed''),
                j_locked_at := None, j_locked_by := None, j_status := JDeadLetter,
                j_finished_at := Some now\<rparr>) db), FDeadLetter)
        else
          (let due = now + seconds (retry_delay (c_retry_base cfg) (c_retry_max cfg) (j_attempts j))
           in (reopen_outbox j due now
                (set_job jid (\<lambda>r. r\<lparr>j_last_error := Some (safe_error err ''job execution failed''),
                   j_locked_at := None, j_locked_by := None, j_status := JRetry,
                   j_available_at := due\<rparr>) db), FRetry)))"

definition defer_job ::
  "'a jobdb_scheme \<Rightarrow> time \<Rightarrow> ident \<Rightarrow> rat \<Rightarrow> string \<Rightarrow> int option \<Rightarrow>
   'a jobdb_scheme \<times> fail_result" where
  "defer_job db now jid delay worker epoch =
    (case get_job db jid of
       None \<Rightarrow> (db, FMissing)
     | Some j \<Rightarrow>
        if \<not> owns_job (Some j) worker epoch then (db, FLeaseLost)
        else
          (let due = now + float_seconds delay
           in (reopen_outbox j due now
                (set_job jid (\<lambda>r. r\<lparr>j_status := JRetry, j_attempts := max 0 (j_attempts r - 1),
                   j_available_at := due, j_locked_at := None, j_locked_by := None,
                   j_finished_at := None,
                   j_last_error := Some ''JobDeferredError: execution deferred''\<rparr>) db), FDeferred)))"

definition recover_one ::
  "ident \<Rightarrow> time \<Rightarrow> async_job \<Rightarrow> 'a jobdb_scheme \<Rightarrow> 'a jobdb_scheme" where
  "recover_one eid now j db =
    (if j_max_attempts j \<le> j_attempts j then
       record_terminal_failure eid now j ''stale_lease_exhausted'' ''async_scheduler''
         (set_job (j_id j) (\<lambda>r. r\<lparr>j_status := JDeadLetter, j_finished_at := Some now,
            j_last_error := Some ''Stale worker lease exhausted retry budget'',
            j_locked_at := None, j_locked_by := None\<rparr>) db)
     else
       reopen_outbox j now now
         (set_job (j_id j) (\<lambda>r. r\<lparr>j_status := JRetry, j_available_at := now,
            j_last_error := Some ''Stale worker lease recovered'',
            j_locked_at := None, j_locked_by := None\<rparr>) db))"

fun recover_all ::
  "(nat \<Rightarrow> ident) \<Rightarrow> time \<Rightarrow> nat \<Rightarrow> async_job list \<Rightarrow> 'a jobdb_scheme \<Rightarrow> 'a jobdb_scheme" where
  "recover_all eids now i [] db = db"
| "recover_all eids now i (j # js) db = recover_all eids now (Suc i) js (recover_one (eids i) now j db)"

definition stale_jobs ::
  "'a jobdb_scheme \<Rightarrow> runtime_config \<Rightarrow> (ident \<Rightarrow> bool) \<Rightarrow> time \<Rightarrow> async_job list" where
  "stale_jobs db cfg held now = take (nat (c_dispatch_batch cfg))
     (query_by (\<lambda>j. case j_locked_at j of None \<Rightarrow> 0 | Some t \<Rightarrow> t)
       (\<lambda>j. j_status j = JRunning \<and> \<not> held (j_id j)
          \<and> (case j_locked_at j of None \<Rightarrow> False | Some t \<Rightarrow> t < now - seconds (c_stale_lock cfg)))
       (job_rows db))"

definition recover_stale_jobs ::
  "'a jobdb_scheme \<Rightarrow> runtime_config \<Rightarrow> (nat \<Rightarrow> ident) \<Rightarrow> (ident \<Rightarrow> bool) \<Rightarrow> time \<Rightarrow>
   'a jobdb_scheme \<times> int" where
  "recover_stale_jobs db cfg eids held now =
    (let js = stale_jobs db cfg held now in (recover_all eids now 0 js db, int (length js)))"

definition lost_wakeups ::
  "'a jobdb_scheme \<Rightarrow> runtime_config \<Rightarrow> (ident \<Rightarrow> bool) \<Rightarrow> time \<Rightarrow> job_outbox list" where
  "lost_wakeups db cfg held now = take (nat (c_dispatch_batch cfg))
     (query_by (\<lambda>ob. case o_dispatched_at ob of None \<Rightarrow> 0 | Some t \<Rightarrow> t)
       (\<lambda>ob. o_status ob = ODispatched \<and> \<not> held (o_job_id ob)
          \<and> (case o_dispatched_at ob of None \<Rightarrow> False | Some t \<Rightarrow> t < now - seconds (c_redispatch cfg))
          \<and> (case get_job db (o_job_id ob) of None \<Rightarrow> False | Some j \<Rightarrow>
               j_queue_name j = c_queue_name cfg \<and> j_status j = JQueued))
       (outbox_rows db))"

definition rewake :: "time \<Rightarrow> job_outbox \<Rightarrow> 'a jobdb_scheme \<Rightarrow> 'a jobdb_scheme" where
  "rewake now ob db = set_outbox (o_job_id ob) (\<lambda>r. r\<lparr>o_status := OPending, o_available_at := now,
     o_dispatched_at := None,
     o_last_error := Some ''Wake-up lease expired; redispatching durable job''\<rparr>) db"

definition recover_stale_wakeups ::
  "'a jobdb_scheme \<Rightarrow> runtime_config \<Rightarrow> (ident \<Rightarrow> bool) \<Rightarrow> time \<Rightarrow> 'a jobdb_scheme \<times> int" where
  "recover_stale_wakeups db cfg held now =
    (let obs = lost_wakeups db cfg held now in (fold (rewake now) obs db, int (length obs)))"

definition replay_dead_letter ::
  "'a jobdb_scheme \<Rightarrow> time \<Rightarrow> ident \<Rightarrow> int option \<Rightarrow> string + ('a jobdb_scheme \<times> async_job)" where
  "replay_dead_letter db now jid maxa =
    (case get_job db jid of
       None \<Rightarrow> Inl ''Only dead-letter jobs can be replayed''
     | Some j \<Rightarrow>
        if j_status j \<noteq> JDeadLetter then Inl ''Only dead-letter jobs can be replayed''
        else if (case maxa of None \<Rightarrow> False | Some m \<Rightarrow> \<not> (1 \<le> m \<and> m \<le> 100))
          then Inl ''max_attempts must be between 1 and 100''
        else
          (let f = (\<lambda>r. r\<lparr>j_status := JRetry, j_attempts := 0,
                 j_max_attempts := (case maxa of None \<Rightarrow> j_max_attempts r | Some m \<Rightarrow> m),
                 j_available_at := now, j_finished_at := None, j_last_error := None\<rparr>)
           in Inr (reopen_outbox j now now (set_job jid f db), f j)))"

end
