(* ===== verification/JobLifecycle.thy ===== *)
theory JobLifecycle
  imports JobQueue
begin

text \<open>
  What the job runtime guarantees over any interleaving of its operations.

  \<^item> \<open>life_step\<close> is the abstract life of one job: status, attempts, claim epoch, attempt limit.
    \<open>job_step\<close> is the concrete system: one transaction of any process. Every concrete step is, for
    every job, an abstract step or no step at all (\<open>job_step_refines\<close>).
  \<^item> \<open>job_inv\<close> is the invariant of the tables: keys are unique, a job is locked exactly while it
    runs, finished exactly in its two outcomes, never beyond its attempt limit, and every job still
    to be run is reachable through its outbox row.
  \<^item> The claims about fencing, bounded retries, single outcome and dispatch follow from the two.
\<close>

section \<open>The abstract life of a job\<close>

record life =
  l_status :: job_status
  l_attempts :: int
  l_epoch :: int
  l_max :: int

definition life_of :: "async_job \<Rightarrow> life" where
  "life_of j = \<lparr> l_status = j_status j, l_attempts = j_attempts j, l_epoch = j_claim_epoch j,
     l_max = j_max_attempts j \<rparr>"

inductive life_step :: "life \<Rightarrow> life \<Rightarrow> bool" where
  life_publish: "l_status x \<in> {JPending, JRetry} \<Longrightarrow> life_step x (x\<lparr>l_status := JQueued\<rparr>)"
| life_claim: "l_status x \<in> {JPending, JQueued, JRetry} \<Longrightarrow>
    life_step x (x\<lparr>l_status := JRunning, l_attempts := l_attempts x + 1, l_epoch := l_epoch x + 1\<rparr>)"
| life_succeed: "l_status x = JRunning \<Longrightarrow> life_step x (x\<lparr>l_status := JSucceeded\<rparr>)"
| life_retry: "l_status x = JRunning \<Longrightarrow> l_attempts x < l_max x \<Longrightarrow>
    life_step x (x\<lparr>l_status := JRetry\<rparr>)"
| life_bury: "l_status x = JRunning \<Longrightarrow> life_step x (x\<lparr>l_status := JDeadLetter\<rparr>)"
| life_defer: "l_status x = JRunning \<Longrightarrow>
    life_step x (x\<lparr>l_status := JRetry, l_attempts := max 0 (l_attempts x - 1)\<rparr>)"
| life_replay: "l_status x = JDeadLetter \<Longrightarrow> 1 \<le> m \<Longrightarrow> m \<le> 100 \<Longrightarrow>
    life_step x (x\<lparr>l_status := JRetry, l_attempts := 0, l_max := m\<rparr>)"

text \<open>The rules on explicit records, for the proofs about rows.\<close>

lemmas life_intros =
  life_step.intros[where x = "\<lparr> l_status = s, l_attempts = a, l_epoch = e, l_max = m \<rparr>" for s a e m, simplified]

lemma life_defer_spent:
  "1 \<le> a \<Longrightarrow> life_step \<lparr> l_status = JRunning, l_attempts = a, l_epoch = e, l_max = m \<rparr>
     \<lparr> l_status = JRetry, l_attempts = a - 1, l_epoch = e, l_max = m \<rparr>"
  using life_defer[of "\<lparr> l_status = JRunning, l_attempts = a, l_epoch = e, l_max = m \<rparr>"]
  by (simp add: max_def)

inductive_cases life_stepE: "life_step x y"

definition life_ok :: "life \<Rightarrow> bool" where
  "life_ok x \<longleftrightarrow> 0 \<le> l_attempts x \<and> l_attempts x \<le> l_max x \<and> 1 \<le> l_max x \<and> l_max x \<le> 100
     \<and> l_attempts x \<le> l_epoch x
     \<and> (l_status x = JRunning \<longrightarrow> 1 \<le> l_attempts x)
     \<and> (l_status x \<in> {JPending, JQueued, JRetry} \<longrightarrow> l_attempts x < l_max x)"

text \<open>\<open>retired e x\<close>: the claim with epoch \<open>e\<close> is over.\<close>

definition retired :: "int \<Rightarrow> life \<Rightarrow> bool" where
  "retired e x \<longleftrightarrow> e < l_epoch x \<or> (l_epoch x = e \<and> l_status x \<noteq> JRunning)"

lemma life_step_ok: "life_step x y \<Longrightarrow> life_ok x \<Longrightarrow> life_ok y"
  by (erule life_stepE) (auto simp: life_ok_def)

lemma life_step_epoch: "life_step x y \<Longrightarrow> l_epoch x \<le> l_epoch y"
  by (erule life_stepE) auto

lemma life_step_retired: "life_step x y \<Longrightarrow> retired e x \<Longrightarrow> retired e y"
  by (erule life_stepE) (auto simp: retired_def)

lemma life_succeeded_stuck: "life_step x y \<Longrightarrow> l_status x \<noteq> JSucceeded"
  by (erule life_stepE) auto

section \<open>The invariant of the tables\<close>

definition row_ok :: "async_job \<Rightarrow> bool" where
  "row_ok j \<longleftrightarrow> life_ok (life_of j)
     \<and> (j_locked_at j \<noteq> None \<longleftrightarrow> j_status j = JRunning)
     \<and> (j_locked_by j \<noteq> None \<longleftrightarrow> j_status j = JRunning)
     \<and> (j_finished_at j \<noteq> None \<longleftrightarrow> j_status j \<in> {JSucceeded, JDeadLetter})"

definition handoff_ok :: "async_job \<Rightarrow> job_outbox \<Rightarrow> bool" where
  "handoff_ok j ob \<longleftrightarrow> (o_status ob = ODispatched \<longleftrightarrow> o_dispatched_at ob \<noteq> None)
     \<and> (j_status j \<in> {JPending, JRetry} \<longrightarrow> o_status ob = OPending)"

definition job_key :: "async_job \<Rightarrow> string \<times> string" where
  "job_key j = (j_queue_name j, j_idempotency_key j)"

definition job_inv :: "'a jobdb_scheme \<Rightarrow> bool" where
  "job_inv db \<longleftrightarrow> distinct (map j_id (job_rows db)) \<and> distinct (map job_key (job_rows db))
     \<and> distinct (map o_job_id (outbox_rows db))
     \<and> (\<forall>jid j. get_job db jid = Some j \<longrightarrow>
          row_ok j \<and> (\<exists>ob. get_outbox db jid = Some ob \<and> handoff_ok j ob))"

lemma job_invD:
  assumes "job_inv db" "get_job db jid = Some j"
  shows "row_ok j" and "\<exists>ob. get_outbox db jid = Some ob \<and> handoff_ok j ob"
  using assms by (auto simp: job_inv_def)

lemma empty_job_inv [simp]: "job_inv empty_jobdb"
  by (simp add: job_inv_def empty_jobdb_def get_job_def tbl_find_def)

lemma job_inv_errors [simp]: "job_inv (db\<lparr>error_rows := es\<rparr>) \<longleftrightarrow> job_inv db"
  by (simp add: job_inv_def row_simps)

lemma get_job_in: "job_inv db \<Longrightarrow> j \<in> set (job_rows db) \<Longrightarrow> get_job db (j_id j) = Some j"
  by (simp add: job_inv_def get_job_def distinct_tbl_find)

lemma get_outbox_in:
  "job_inv db \<Longrightarrow> ob \<in> set (outbox_rows db) \<Longrightarrow> get_outbox db (o_job_id ob) = Some ob"
  by (simp add: job_inv_def get_outbox_def distinct_tbl_find)

lemma set_job_id [simp]: "set_job k (\<lambda>r. r) db = db"
  by (simp add: set_job_def tbl_upd_def)

lemma set_outbox_id [simp]: "set_outbox k (\<lambda>r. r) db = db"
  by (simp add: set_outbox_def tbl_upd_def)

lemma set_outbox_set_job: "set_outbox k g (set_job k' f db) = set_job k' f (set_outbox k g db)"
  by (simp add: set_outbox_def set_job_def)

lemma job_inv_update:
  assumes inv: "job_inv db" and j: "get_job db jid = Some j" and ob: "get_outbox db jid = Some ob"
    and f: "\<And>r. j_id (f r) = j_id r" "\<And>r. job_key (f r) = job_key r"
    and g: "\<And>r. o_job_id (g r) = o_job_id r"
    and ok: "row_ok (f j)" "handoff_ok (f j) (g ob)"
  shows "job_inv (set_job jid f (set_outbox jid g db))"
proof -
  have keys: "map j_id (tbl_upd j_id jid f (job_rows db)) = map j_id (job_rows db)"
    "map job_key (tbl_upd j_id jid f (job_rows db)) = map job_key (job_rows db)"
    "map o_job_id (tbl_upd o_job_id jid g (outbox_rows db)) = map o_job_id (outbox_rows db)"
    using f g by (auto simp: tbl_upd_def)
  have look: "get_job (set_job jid f (set_outbox jid g db)) k =
      (if k = jid then Some (f j) else get_job db k)"
    "get_outbox (set_job jid f (set_outbox jid g db)) k =
      (if k = jid then Some (g ob) else get_outbox db k)" for k
    using f g j ob by (simp_all add: row_simps)
  show ?thesis
    unfolding job_inv_def
    using inv ok by (simp add: keys look) (auto simp: job_inv_def)
qed

lemma job_inv_set_job:
  assumes "job_inv db" "get_job db jid = Some j"
    and "\<And>r. j_id (f r) = j_id r" "\<And>r. job_key (f r) = job_key r"
    and "row_ok (f j)" "\<And>ob. handoff_ok j ob \<Longrightarrow> handoff_ok (f j) ob"
  shows "job_inv (set_job jid f db)"
proof -
  obtain ob where "get_outbox db jid = Some ob" "handoff_ok j ob"
    using job_invD(2)[OF assms(1,2)] by blast
  with assms show ?thesis using job_inv_update[of db jid j ob f "\<lambda>r. r"] by simp
qed

lemma job_inv_set_outbox:
  assumes "job_inv db"
    and "\<And>r. o_job_id (g r) = o_job_id r"
    and "\<And>j ob. get_job db jid = Some j \<Longrightarrow> handoff_ok j ob \<Longrightarrow> handoff_ok j (g ob)"
  shows "job_inv (set_outbox jid g db)"
proof (cases "get_job db jid")
  case None
  have "map o_job_id (tbl_upd o_job_id jid g (outbox_rows db)) = map o_job_id (outbox_rows db)"
    using assms(2) by (auto simp: tbl_upd_def)
  with None assms show ?thesis by (auto simp: job_inv_def row_simps)
next
  case (Some j)
  then obtain ob where "get_outbox db jid = Some ob" "handoff_ok j ob"
    using job_invD(2)[OF assms(1)] by blast
  with Some assms show ?thesis
    using job_inv_update[of db jid j ob "\<lambda>r. r" g] job_invD(1)[OF assms(1) Some] by simp
qed

text \<open>Under the invariant the outbox row exists, so reopening it is an assignment.\<close>

lemma reopen_outbox_eq:
  assumes "job_inv db" "get_job db (j_id j) = Some j" "\<And>r. j_id (f r) = j_id r"
  shows "reopen_outbox j due now (set_job (j_id j) f db) =
    set_job (j_id j) f (set_outbox (j_id j) (\<lambda>r. r\<lparr>o_status := OPending, o_available_at := due,
          o_dispatched_at := None, o_last_error := None\<rparr>) db)"
  using job_invD(2)[OF assms(1,2)]
  by (auto simp: reopen_outbox_def row_simps set_outbox_set_job)

lemma reopen_inv:
  assumes "job_inv db" "get_job db (j_id j) = Some j"
    and "\<And>r. j_id (f r) = j_id r" "\<And>r. job_key (f r) = job_key r" "row_ok (f j)"
  shows "job_inv (reopen_outbox j due now (set_job (j_id j) f db))"
proof -
  obtain ob where "get_outbox db (j_id j) = Some ob" using job_invD(2)[OF assms(1,2)] by blast
  with assms show ?thesis
    by (subst reopen_outbox_eq) (auto intro!: job_inv_update simp: handoff_ok_def)
qed

lemma get_job_reopen:
  "get_job (reopen_outbox j due now db) k = get_job db k"
  by (auto simp: reopen_outbox_def row_simps Let_def split: option.splits)

section \<open>The concrete system\<close>

inductive job_step :: "runtime_config \<Rightarrow> jobdb \<Rightarrow> jobdb \<Rightarrow> bool" for cfg :: runtime_config where
  step_enqueue: "enqueue_job seen db nid fk now kind payload key tenant q maxa avail = Inr (db', j, b) \<Longrightarrow>
    job_step cfg db db'"
| step_dispatch: "dispatch_one cfg fault held now db = (r, db') \<Longrightarrow> job_step cfg db db'"
| step_claim: "claim_job db held now jid worker = (db', r) \<Longrightarrow> job_step cfg db db'"
| step_renew: "renew_job_lease db now jid worker epoch stale = (db', b) \<Longrightarrow> job_step cfg db db'"
| step_complete: "complete_job db now jid result worker epoch = Inr db' \<Longrightarrow> job_step cfg db db'"
| step_fail: "fail_job db cfg eid now jid err worker epoch perm = (db', res) \<Longrightarrow> job_step cfg db db'"
| step_defer: "defer_job db now jid delay worker epoch = (db', res) \<Longrightarrow> job_step cfg db db'"
| step_recover: "recover_stale_jobs db cfg eids held now = (db', n) \<Longrightarrow> job_step cfg db db'"
| step_rewake: "recover_stale_wakeups db cfg held now = (db', n) \<Longrightarrow> job_step cfg db db'"
| step_replay: "replay_dead_letter db now jid maxa = Inr (db', j) \<Longrightarrow> job_step cfg db db'"

text \<open>
  \<open>job_effect\<close> is the shape of every operation's effect on the jobs: the job of one identifier may
  make one abstract step and keeps its identity, every other job is untouched.
\<close>

definition life_rel :: "async_job \<Rightarrow> async_job \<Rightarrow> bool" where
  "life_rel j j' \<longleftrightarrow> j_id j' = j_id j \<and> job_key j' = job_key j
     \<and> (j' = j \<or> life_step (life_of j) (life_of j')
        \<or> (life_of j' = life_of j \<and> j_status j \<noteq> JSucceeded))"

definition refines :: "'a jobdb_scheme \<Rightarrow> 'a jobdb_scheme \<Rightarrow> bool" where
  "refines db db' \<longleftrightarrow> (\<forall>k j. get_job db k = Some j \<longrightarrow> (\<exists>j'. get_job db' k = Some j' \<and> life_rel j j'))"

lemma refines_refl [simp]: "refines db db"
  by (auto simp: refines_def life_rel_def)

lemma refines_set_job:
  assumes "get_job db jid = Some j" "\<And>r. j_id (f r) = j_id r" "life_rel j (f j)"
    and "\<And>k. get_job db' k = get_job (set_job jid f db) k"
  shows "refines db db'"
  using assms by (auto simp: refines_def row_simps life_rel_def)

lemma refines_same_jobs: "(\<And>k. get_job db' k = get_job db k) \<Longrightarrow> refines db db'"
  by (auto simp: refines_def life_rel_def)

lemmas row_update_simps = row_ok_def life_ok_def life_of_def handoff_ok_def job_key_def

lemma owns_jobD:
  "owns_job (Some j) worker epoch \<Longrightarrow> j_status j = JRunning \<and> j_locked_by j = Some worker"
  by (simp add: owns_job_def)

subsection \<open>Each operation keeps the invariant and refines the abstract life\<close>

lemma new_job_fields [simp]:
  "j_id (new_job nid now kind payload key tenant q maxa due) = nid"
  "j_available_at (new_job nid now kind payload key tenant q maxa due) = due"
  "j_status (new_job nid now kind payload key tenant q maxa due) = JPending"
  "job_key (new_job nid now kind payload key tenant q maxa due) = (q, key)"
  by (simp_all add: new_job_def job_key_def)

lemma new_outbox_fields [simp]:
  "o_job_id (new_outbox tenant nid due now) = nid"
  "o_status (new_outbox tenant nid due now) = OPending"
  "o_dispatched_at (new_outbox tenant nid due now) = None"
  by (simp_all add: new_outbox_def)

lemma enqueue_cases:
  assumes "enqueue_job seen db nid fk now kind payload key tenant q maxa avail = Inr (db', j, b)"
  obtains (old) "db' = db" "b = False"
    | (new) due where "b = True" "1 \<le> maxa" "maxa \<le> 100" "insert_ok db fk nid q key"
      "j = new_job nid now kind payload key tenant q maxa due"
      "db' = db\<lparr>job_rows := job_rows db @ [j],
         outbox_rows := outbox_rows db @ [new_outbox tenant nid due now]\<rparr>"
proof (cases b)
  case False
  with assms have "db' = db"
    by (simp add: enqueue_job_def Let_def split: if_splits option.splits)
  with False show thesis by (intro old) simp_all
next
  case True
  with assms show thesis
    by (intro new[where due = "case avail of None \<Rightarrow> now | Some t \<Rightarrow> t"])
      (auto simp: enqueue_job_def Let_def split: if_splits option.splits)
qed

lemma enqueue_inv:
  assumes "enqueue_job seen db nid fk now kind payload key tenant q maxa avail = Inr (db', j, b)"
    and "job_inv db"
  shows "job_inv db' \<and> refines db db'"
  using assms(1)
proof (cases rule: enqueue_cases)
  case old
  with assms(2) show ?thesis by simp
next
  case (new due)
  have fresh: "get_job db nid = None" "get_outbox db nid = None" "find_by_key db q key = None"
    using new(4) by (auto simp: insert_ok_def)
  have look: "get_job db' k = (if k = nid then Some j else get_job db k)"
    "get_outbox db' k = (if k = nid then Some (new_outbox tenant nid due now)
       else get_outbox db k)" for k
    using fresh(1,2)
    by (simp_all add: get_job_def get_outbox_def tbl_find_append new(5,6) split: option.splits)
  have "(q, key) \<notin> job_key ` set (job_rows db)"
    using fresh(3) by (auto simp: find_by_key_def find_None_iff job_key_def)
  moreover have "nid \<notin> j_id ` set (job_rows db)" "nid \<notin> o_job_id ` set (outbox_rows db)"
    using fresh(1,2) by (simp_all add: get_job_def get_outbox_def tbl_find_None)
  moreover have "row_ok j"
    using new(2,3) by (simp add: new(5) row_update_simps new_job_def)
  moreover have "handoff_ok j (new_outbox tenant nid due now)"
    by (simp add: handoff_ok_def)
  ultimately have "job_inv db'"
    using assms(2) unfolding job_inv_def look by (simp add: new(5,6))
  moreover have "refines db db'"
    using look fresh by (auto simp: refines_def life_rel_def)
  ultimately show ?thesis ..
qed

lemma dispatch_inv:
  assumes "dispatch_one cfg fault held now db = (r, db')" "job_inv db"
  shows "job_inv db' \<and> refines db db'"
proof (cases "next_due db held (c_queue_name cfg) now")
  case None
  with assms show ?thesis by (simp add: dispatch_one_def)
next
  case (Some ob)
  note due = next_due_Some[OF Some]
  obtain j where j: "get_job db (o_job_id ob) = Some j"
    using due(5) by (auto simp: job_in_queue_def split: option.splits)
  have ob: "get_outbox db (o_job_id ob) = Some ob" using get_outbox_in[OF assms(2) due(1)] .
  have hand: "handoff_ok j ob" using job_invD(2)[OF assms(2) j] ob by auto
  have ok: "row_ok j" by (rule job_invD(1)[OF assms(2) j])
  show ?thesis
  proof (cases "j_status j \<in> {JSucceeded, JDeadLetter, JCancelled}")
    case True
    with Some j assms have eq: "db' = set_outbox (o_job_id ob)
      (\<lambda>r. r\<lparr>o_status := ODispatched, o_dispatched_at := Some now, o_last_error := None\<rparr>) db"
      by (simp add: dispatch_one_def)
    show ?thesis unfolding eq using True j assms(2)
      by (auto intro!: job_inv_set_outbox refines_same_jobs simp: handoff_ok_def row_simps)
  next
    case False
    show ?thesis
    proof (cases fault)
      case None
      with False Some j assms have eq: "db' = set_job (o_job_id ob) mark_queued (set_outbox (o_job_id ob)
        (\<lambda>r. r\<lparr>o_status := ODispatched, o_dispatch_attempts := o_dispatch_attempts r + 1,
            o_dispatched_at := Some now, o_last_error := None\<rparr>) db)"
        by (simp add: dispatch_one_def Let_def)
      have "job_inv db'" unfolding eq using assms(2) j ob ok
        by (rule_tac job_inv_update)
          (auto simp: mark_queued_def row_update_simps)
      moreover have "life_rel j (mark_queued j)"
        by (auto simp: life_rel_def mark_queued_def job_key_def life_of_def intro: life_intros)
      then have "refines db db'" unfolding eq using j
        by (intro refines_set_job[where jid = "o_job_id ob" and f = mark_queued])
          (auto simp: mark_queued_def row_simps)
      ultimately show ?thesis ..
    next
      case (Some e)
      with False \<open>next_due _ _ _ _ = _\<close> j assms obtain g where eq: "db' = set_outbox (o_job_id ob) g db"
        and g: "\<And>r. o_job_id (g r) = o_job_id r \<and> o_status (g r) = o_status r
          \<and> o_dispatched_at (g r) = o_dispatched_at r"
        by (auto simp: dispatch_one_def Let_def)
      show ?thesis unfolding eq using assms(2) g
        by (auto intro!: job_inv_set_outbox refines_same_jobs simp: handoff_ok_def row_simps)
    qed
  qed
qed

lemma life_rel_step:
  "j_id j' = j_id j \<Longrightarrow> job_key j' = job_key j \<Longrightarrow> life_step (life_of j) (life_of j') \<Longrightarrow> life_rel j j'"
  by (simp add: life_rel_def)

lemma claim_cases:
  assumes "claim_job db held now jid worker = (db', r)"
  obtains (none) "r = None" "db' = db"
    | (claimed) j where "get_job db jid = Some j" "claimable j now" "\<not> held jid"
        "r = Some (claim_fields worker now j)" "db' = set_job jid (claim_fields worker now) db"
  using assms by (auto simp: claim_job_def split: option.splits if_splits)

lemma claim_inv:
  assumes "claim_job db held now jid worker = (db', r)" "job_inv db"
  shows "job_inv db' \<and> refines db db'"
  using assms(1)
proof (cases rule: claim_cases)
  case none
  with assms(2) show ?thesis by simp
next
  case (claimed j)
  have "row_ok j" by (rule job_invD(1)[OF assms(2) claimed(1)])
  with claimed(2) have ok: "row_ok (claim_fields worker now j)"
    by (auto simp: claimable_def claim_fields_def row_ok_def life_ok_def life_of_def)
  have "life_rel j (claim_fields worker now j)"
    using claimed(2)
    by (intro life_rel_step)
      (auto simp: claimable_def claim_fields_def life_of_def job_key_def intro: life_intros)
  then have "refines db db'"
    unfolding claimed(5) using claimed(1)
    by (intro refines_set_job[where jid = jid and f = "claim_fields worker now"])
      (auto simp: claim_fields_def)
  moreover have "job_inv db'"
    unfolding claimed(5) using assms(2) claimed(1) ok
    by (intro job_inv_set_job) (auto simp: claim_fields_def job_key_def handoff_ok_def)
  ultimately show ?thesis by simp
qed

lemma renew_inv:
  assumes "renew_job_lease db now jid worker epoch stale = (db', b)" "job_inv db"
  shows "job_inv db' \<and> refines db db'"
proof (cases b)
  case False
  with assms show ?thesis by (auto simp: renew_job_lease_def split: option.splits if_splits)
next
  case True
  with assms obtain j where j: "get_job db jid = Some j" "owns_job (Some j) worker epoch"
    and eq: "db' = set_job jid (\<lambda>r. r\<lparr>j_locked_at := Some now\<rparr>) db"
    by (auto simp: renew_job_lease_def split: option.splits if_splits)
  have "row_ok j" by (rule job_invD(1)[OF assms(2) j(1)])
  moreover have "life_rel j (j\<lparr>j_locked_at := Some now\<rparr>)"
    using owns_jobD[OF j(2)] by (auto simp: life_rel_def job_key_def life_of_def)
  ultimately show ?thesis
    unfolding eq using assms(2) j owns_jobD[OF j(2)]
    by (auto intro!: job_inv_set_job refines_set_job[where jid = jid and f = "\<lambda>r. r\<lparr>j_locked_at := Some now\<rparr>"]
        simp: row_ok_def life_of_def job_key_def handoff_ok_def)
qed

lemma complete_inv:
  assumes "complete_job db now jid result worker epoch = Inr db'" "job_inv db"
  shows "job_inv db' \<and> refines db db'"
proof -
  let ?f = "\<lambda>r. r\<lparr>j_status := JSucceeded, j_result := result,
            j_finished_at := Some now, j_locked_at := None, j_locked_by := None\<rparr>"
  obtain j where j: "get_job db jid = Some j" "owns_job (Some j) worker epoch"
    and eq: "db' = set_job jid ?f db"
    using assms by (auto simp: complete_job_def owns_job_def split: option.splits if_splits)
  have "row_ok j" by (rule job_invD(1)[OF assms(2) j(1)])
  then have "row_ok (?f j)" by (simp add: row_ok_def life_ok_def life_of_def)
  moreover have "life_rel j (?f j)"
    using owns_jobD[OF j(2)]
    by (intro life_rel_step) (auto simp: job_key_def life_of_def intro: life_intros)
  ultimately show ?thesis
    unfolding eq using assms(2) j(1)
    by (auto intro!: job_inv_set_job refines_set_job[where jid = jid and f = ?f]
        simp: job_key_def handoff_ok_def)
qed

text \<open>
  The common shape of failure and recovery: a running job is buried with an error record, or goes
  back to its outbox row.
\<close>

lemma bury_inv:
  assumes "job_inv db" "get_job db (j_id j) = Some j" "j_status j = JRunning"
    and f: "\<And>r. f r = r\<lparr>j_last_error := le, j_locked_at := None, j_locked_by := None,
              j_status := JDeadLetter, j_finished_at := Some now\<rparr>"
  shows "job_inv (record_terminal_failure eid now j reason service (set_job (j_id j) f db))
    \<and> refines db (record_terminal_failure eid now j reason service (set_job (j_id j) f db))"
proof -
  have "row_ok j" by (rule job_invD(1)[OF assms(1,2)])
  then have "row_ok (f j)" by (simp add: f row_ok_def life_ok_def life_of_def)
  moreover have "life_rel j (f j)"
    using assms(3) by (intro life_rel_step) (auto simp: f job_key_def life_of_def intro: life_intros)
  ultimately show ?thesis
    using assms(1,2)
    by (auto intro!: job_inv_set_job refines_set_job[where jid = "j_id j" and f = f]
        simp: record_terminal_failure_def job_key_def handoff_ok_def f row_simps)
qed

lemma retry_inv:
  assumes "job_inv db" "get_job db (j_id j) = Some j"
    and "\<And>r. j_id (f r) = j_id r" "\<And>r. job_key (f r) = job_key r"
    and "row_ok (f j)" "life_step (life_of j) (life_of (f j))"
  shows "job_inv (reopen_outbox j due now (set_job (j_id j) f db))
    \<and> refines db (reopen_outbox j due now (set_job (j_id j) f db))"
  using assms
  by (auto intro!: reopen_inv refines_set_job[where jid = "j_id j" and f = f] life_rel_step
      simp: get_job_reopen)

lemma fail_inv:
  assumes "fail_job db cfg eid now jid err worker epoch perm = (db', res)" "job_inv db"
  shows "job_inv db' \<and> refines db db'"
proof (cases "get_job db jid")
  case None
  with assms show ?thesis by (simp add: fail_job_def)
next
  case (Some j)
  then have id: "jid = j_id j" by (simp add: get_job_Some)
  note j = Some[unfolded id]
  have ok: "row_ok j" by (rule job_invD(1)[OF assms(2) j])
  show ?thesis
  proof (cases "owns_job (Some j) worker epoch")
    case False
    with Some assms show ?thesis by (simp add: fail_job_def)
  next
    case True
    note run = owns_jobD[OF True]
    show ?thesis
    proof (cases "perm \<or> j_max_attempts j \<le> j_attempts j")
      case True
      with assms j \<open>owns_job _ _ _\<close> show ?thesis
        using bury_inv[OF assms(2) j run[THEN conjunct1] refl]
        by (auto simp: fail_job_def id)
    next
      case False
      with assms j \<open>owns_job _ _ _\<close> ok run show ?thesis
        by (auto simp: fail_job_def id Let_def intro!: retry_inv[THEN conjunct1] retry_inv[THEN conjunct2])
          (auto simp: row_ok_def life_ok_def life_of_def job_key_def intro: life_intros)
    qed
  qed
qed

lemma defer_inv:
  assumes "defer_job db now jid delay worker epoch = (db', res)" "job_inv db"
  shows "job_inv db' \<and> refines db db'"
proof (cases "get_job db jid")
  case None
  with assms show ?thesis by (simp add: defer_job_def)
next
  case (Some j)
  then have id: "jid = j_id j" by (simp add: get_job_Some)
  note j = Some[unfolded id]
  have ok: "row_ok j" by (rule job_invD(1)[OF assms(2) j])
  show ?thesis
  proof (cases "owns_job (Some j) worker epoch")
    case False
    with Some assms show ?thesis by (simp add: defer_job_def)
  next
    case True
    with assms j ok owns_jobD[OF True] show ?thesis
      by (auto simp: defer_job_def id Let_def intro!: retry_inv[THEN conjunct1] retry_inv[THEN conjunct2])
        (auto simp: row_ok_def life_ok_def life_of_def job_key_def intro: life_intros life_defer_spent)
  qed
qed

lemma replay_inv:
  assumes "replay_dead_letter db now jid maxa = Inr (db', j')" "job_inv db"
  shows "job_inv db' \<and> refines db db'"
proof -
  obtain j where jid: "get_job db jid = Some j" and dead: "j_status j = JDeadLetter"
    and m: "\<And>m. maxa = Some m \<Longrightarrow> 1 \<le> m \<and> m \<le> 100"
    using assms(1) by (fastforce simp: replay_dead_letter_def split: option.splits if_splits)
  then have id: "jid = j_id j" by (simp add: get_job_Some)
  note j = jid[unfolded id]
  have ok: "row_ok j" by (rule job_invD(1)[OF assms(2) j])
  from assms j dead ok m show ?thesis
    by (auto simp: replay_dead_letter_def id Let_def split: if_splits option.splits intro!: retry_inv[THEN conjunct1] retry_inv[THEN conjunct2])
      (auto simp: row_ok_def life_ok_def life_of_def job_key_def intro: life_intros)
qed

text \<open>Recovery walks over a batch of stale rows, each still in its row when its turn comes.\<close>

lemma recover_one_inv:
  assumes "job_inv db" "get_job db (j_id j) = Some j" "j_status j = JRunning"
  shows "job_inv (recover_one eid now j db) \<and> refines db (recover_one eid now j db)"
proof (cases "j_max_attempts j \<le> j_attempts j")
  case True
  then show ?thesis
    unfolding recover_one_def if_P[OF True]
    by (intro bury_inv[OF assms, where le = "Some ''Stale worker lease exhausted retry budget''"]) simp
next
  case False
  with assms job_invD(1)[OF assms(1,2)] show ?thesis
    by (auto simp: recover_one_def intro!: retry_inv[THEN conjunct1] retry_inv[THEN conjunct2])
      (auto simp: row_ok_def life_ok_def life_of_def job_key_def intro: life_intros)
qed

lemma get_job_recover_one:
  "k \<noteq> j_id j \<Longrightarrow> get_job (recover_one eid now j db) k = get_job db k"
  by (simp add: recover_one_def get_job_reopen record_terminal_failure_def row_simps)

lemma recover_all_inv:
  assumes "job_inv db" "distinct (map j_id js)"
    and "\<And>j. j \<in> set js \<Longrightarrow> get_job db (j_id j) = Some j \<and> j_status j = JRunning"
  shows "job_inv (recover_all eids now i js db)
    \<and> (\<forall>k. k \<notin> j_id ` set js \<longrightarrow> get_job (recover_all eids now i js db) k = get_job db k)
    \<and> refines db (recover_all eids now i js db)"
  using assms
proof (induction js arbitrary: db i)
  case Nil
  then show ?case by simp
next
  case (Cons j js)
  let ?db = "recover_one (eids i) now j db"
  have one: "job_inv ?db" "refines db ?db" 
    using recover_one_inv[OF Cons.prems(1)] Cons.prems(3)[of j] by auto
  have rest: "get_job ?db (j_id x) = Some x \<and> j_status x = JRunning" if "x \<in> set js" for x
    using Cons.prems that by (auto simp: get_job_recover_one image_iff)
  have IH: "job_inv (recover_all eids now (Suc i) js ?db)"
    "\<And>k. k \<notin> j_id ` set js \<Longrightarrow> get_job (recover_all eids now (Suc i) js ?db) k = get_job ?db k"
    "refines ?db (recover_all eids now (Suc i) js ?db)"
    using Cons.IH[OF one(1) _ rest, of "Suc i"] Cons.prems(2) by auto
  have "refines db (recover_all eids now (Suc i) js ?db)"
    unfolding refines_def
  proof (intro allI impI)
    fix k x assume k: "get_job db k = Some x"
    show "\<exists>j'. get_job (recover_all eids now (Suc i) js ?db) k = Some j' \<and> life_rel x j'"
    proof (cases "k = j_id j")
      case True
      with Cons.prems(2) have "k \<notin> j_id ` set js" by auto
      with IH(2) one(2) k show ?thesis by (auto simp: refines_def)
    next
      case False
      with k IH(3) show ?thesis by (auto simp: refines_def get_job_recover_one)
    qed
  qed
  with IH(1,2) Cons.prems(2) show ?case by (auto simp: get_job_recover_one)
qed

lemma distinct_query_by: "distinct (map f rows) \<Longrightarrow> distinct (map f (take n (query_by key p rows)))"
proof -
  assume d: "distinct (map f rows)"
  then have "distinct (query_by key p rows)" "inj_on f (set (query_by key p rows))"
    by (auto simp: query_by_def distinct_map intro: inj_on_subset)
  then show ?thesis
    by (metis distinct_map distinct_take inj_on_subset set_take_subset)
qed

lemma recover_inv:
  assumes "recover_stale_jobs db cfg eids held now = (db', n)" "job_inv db"
  shows "job_inv db' \<and> refines db db'"
proof -
  let ?js = "stale_jobs db cfg held now"
  have "set ?js \<subseteq> {j \<in> set (job_rows db). j_status j = JRunning}"
    using set_take_subset by (fastforce simp: stale_jobs_def)
  moreover have "distinct (map j_id ?js)"
    using assms(2) by (auto simp: stale_jobs_def job_inv_def intro!: distinct_query_by)
  ultimately have "job_inv (recover_all eids now 0 ?js db) \<and> refines db (recover_all eids now 0 ?js db)"
    using recover_all_inv[OF assms(2)] get_job_in[OF assms(2)] by blast
  with assms(1) show ?thesis by (simp add: recover_stale_jobs_def Let_def)
qed

lemma rewake_fold_inv:
  assumes "job_inv db"
    and "\<And>ob. ob \<in> set obs \<Longrightarrow> (case get_job db (o_job_id ob) of None \<Rightarrow> True | Some j \<Rightarrow> j_status j = JQueued)"
  shows "job_inv (fold (rewake now) obs db) \<and> (\<forall>k. get_job (fold (rewake now) obs db) k = get_job db k)"
  using assms
proof (induction obs arbitrary: db)
  case Nil
  then show ?case by simp
next
  case (Cons ob obs)
  have same: "get_job (rewake now ob db) k = get_job db k" for k
    by (simp add: rewake_def row_simps)
  have "job_inv (rewake now ob db)"
    unfolding rewake_def using Cons.prems
    by (intro job_inv_set_outbox) (auto simp: handoff_ok_def)
  with Cons same show ?case by simp
qed

lemma wakeups_inv:
  assumes "recover_stale_wakeups db cfg held now = (db', n)" "job_inv db"
  shows "job_inv db' \<and> refines db db'"
proof -
  let ?obs = "lost_wakeups db cfg held now"
  have "case get_job db (o_job_id ob) of None \<Rightarrow> True | Some j \<Rightarrow> j_status j = JQueued"
    if "ob \<in> set ?obs" for ob
    using that set_take_subset by (fastforce simp: lost_wakeups_def split: option.splits)
  then have "job_inv (fold (rewake now) ?obs db) \<and> (\<forall>k. get_job (fold (rewake now) ?obs db) k = get_job db k)"
    by (intro rewake_fold_inv[OF assms(2)])
  with assms(1) show ?thesis
    by (auto simp: recover_stale_wakeups_def Let_def intro: refines_same_jobs)
qed

lemma job_step_inv: "job_step cfg db db' \<Longrightarrow> job_inv db \<Longrightarrow> job_inv db' \<and> refines db db'"
  by (induction rule: job_step.induct)
    (erule enqueue_inv dispatch_inv claim_inv renew_inv complete_inv fail_inv defer_inv
      recover_inv wakeups_inv replay_inv, assumption)+

end
