(* ===== verification/JobClaims.thy ===== *)
theory JobClaims
  imports JobLifecycle
begin

text \<open>
  The claims about the durable job runtime: the table invariant of every reachable database, the
  refinement to the abstract life of a job, fencing of expired claims, single outcomes, idempotent
  admission, complete dispatch, bounded backoff, and the exact effect of each failure path.
\<close>

definition epoch_at :: "ident \<Rightarrow> 'a jobdb_scheme \<Rightarrow> int" where
  "epoch_at jid db = (case get_job db jid of None \<Rightarrow> 0 | Some j \<Rightarrow> j_claim_epoch j)"

definition retired_at :: "ident \<Rightarrow> int \<Rightarrow> 'a jobdb_scheme \<Rightarrow> bool" where
  "retired_at jid e db = (case get_job db jid of None \<Rightarrow> False | Some j \<Rightarrow> retired e (life_of j))"

definition settled_as :: "async_job \<Rightarrow> 'a jobdb_scheme \<Rightarrow> bool" where
  "settled_as j db \<longleftrightarrow> get_job db (j_id j) = Some j \<and> j_status j = JSucceeded"

definition initial :: "jobdb \<Rightarrow> bool" where
  "initial db \<longleftrightarrow> db = empty_jobdb"

lemma step_epoch: "job_inv db \<Longrightarrow> job_step cfg db db' \<Longrightarrow> epoch_at jid db \<le> epoch_at jid db'"
proof -
  assume a: "job_inv db" "job_step cfg db db'"
  then have s: "job_inv db'" "refines db db'" using job_step_inv by blast+
  show ?thesis
  proof (cases "get_job db jid")
    case None
    with s(1) show ?thesis
      by (auto simp: epoch_at_def row_ok_def life_ok_def life_of_def dest: job_invD split: option.splits)
  next
    case (Some j)
    with s(2) obtain j' where "get_job db' jid = Some j'" "life_rel j j'" by (auto simp: refines_def)
    with Some show ?thesis
      by (auto simp: epoch_at_def life_rel_def life_of_def dest: life_step_epoch)
  qed
qed

lemma step_retired: "job_inv db \<Longrightarrow> retired_at jid e db \<Longrightarrow> job_step cfg db db' \<Longrightarrow> retired_at jid e db'"
proof -
  assume a: "job_inv db" "retired_at jid e db" "job_step cfg db db'"
  then obtain j where j: "get_job db jid = Some j" "retired e (life_of j)"
    by (auto simp: retired_at_def split: option.splits)
  with job_step_inv[OF a(3,1)] obtain j' where j': "get_job db' jid = Some j'" "life_rel j j'"
    by (auto simp: refines_def)
  with j have "retired e (life_of j')" by (auto simp: life_rel_def dest: life_step_retired)
  with j' show ?thesis by (simp add: retired_at_def)
qed

lemma step_settled: "job_inv db \<Longrightarrow> settled_as j db \<Longrightarrow> job_step cfg db db' \<Longrightarrow> settled_as j db'"
proof -
  assume a: "job_inv db" "settled_as j db" "job_step cfg db db'"
  then have j: "get_job db (j_id j) = Some j" "j_status j = JSucceeded" by (auto simp: settled_as_def)
  with job_step_inv[OF a(3,1)] obtain j' where j': "get_job db' (j_id j) = Some j'" "life_rel j j'"
    by (auto simp: refines_def)
  with j(2) have "j' = j" by (auto simp: life_rel_def life_of_def dest: life_succeeded_stuck)
  with j j' show ?thesis by (simp add: settled_as_def)
qed

interpretation fencing: ranked_system initial "job_step cfg" job_inv "epoch_at jid" "retired_at jid e"
  for cfg jid e
  by unfold_locales (auto simp: initial_def job_step_inv step_epoch step_retired)

interpretation settling: ranked_system initial "job_step cfg" job_inv "epoch_at jid" "settled_as j"
  for cfg jid j
  by unfold_locales (auto simp: initial_def job_step_inv step_epoch step_settled)

lemma owns_not_retired: "owns_job (get_job db jid) worker (Some e) \<Longrightarrow> \<not> retired_at jid e db"
  by (auto simp: owns_job_def retired_at_def retired_def life_of_def split: option.splits)

lemma steps_keep_job:
  assumes "(job_step cfg)\<^sup>*\<^sup>* db db'" "job_inv db" "get_job db jid = Some j"
  shows "\<exists>j'. get_job db' jid = Some j' \<and> job_key j' = job_key j \<and> j_id j' = j_id j"
  using assms(1)
proof (induction rule: rtranclp_induct)
  case base
  with assms(3) show ?case by simp
next
  case (step x y)
  have "job_inv x" by (rule fencing.steps_inv[OF step.hyps(1) assms(2)])
  then have "refines x y" using job_step_inv[OF step.hyps(2)] by blast
  moreover obtain j1 where "get_job x jid = Some j1" "job_key j1 = job_key j" "j_id j1 = j_id j"
    using step.IH by blast
  ultimately show ?case unfolding refines_def life_rel_def by metis
qed

section \<open>Invariant and refinement\<close>

text \<open>C17: in every database the runtime can reach from an empty one, a job never exceeds its attempt
  limit, is locked exactly while it runs and finished exactly when it succeeded or was buried, has an
  idempotency key no other job shares, and, while it still has to run, owns an outbox row that is
  pending, or was dispatched at a recorded time from which a lost wake-up is detected.\<close>

theorem reachable_jobs_wellformed:
  assumes "reach initial (job_step cfg) db" and "j \<in> set (job_rows db)"
  shows "0 \<le> j_attempts j \<and> j_attempts j \<le> j_max_attempts j \<and> j_max_attempts j \<le> 100
    \<and> (j_locked_by j \<noteq> None \<longleftrightarrow> j_status j = JRunning)
    \<and> (j_locked_at j \<noteq> None \<longleftrightarrow> j_status j = JRunning)
    \<and> (j_finished_at j \<noteq> None \<longleftrightarrow> j_status j \<in> {JSucceeded, JDeadLetter})
    \<and> {j' \<in> set (job_rows db). job_key j' = job_key j} = {j}
    \<and> (\<exists>ob \<in> set (outbox_rows db). o_job_id ob = j_id j
         \<and> (if j_status j \<in> {JPending, JRetry} then o_status ob = OPending
            else o_status ob = OPending \<or> o_dispatched_at ob \<noteq> None))"
proof -
  have inv: "job_inv db" by (rule fencing.reach_inv[OF assms(1)])
  have job: "get_job db (j_id j) = Some j" by (rule get_job_in[OF inv assms(2)])
  have row: "row_ok j" by (rule job_invD(1)[OF inv job])
  obtain ob where ob: "get_outbox db (j_id j) = Some ob" "handoff_ok j ob"
    using job_invD(2)[OF inv job] by blast
  have keys: "{j' \<in> set (job_rows db). job_key j' = job_key j} = {j}"
    using inv assms(2) by (auto simp: job_inv_def distinct_map inj_on_def)
  have out: "\<exists>ob \<in> set (outbox_rows db). o_job_id ob = j_id j
         \<and> (if j_status j \<in> {JPending, JRetry} then o_status ob = OPending
            else o_status ob = OPending \<or> o_dispatched_at ob \<noteq> None)"
    using ob get_outbox_Some[OF ob(1)]
    by (intro bexI[of _ ob]) (auto simp: handoff_ok_def intro: outbox_status.exhaust[of "o_status ob"])
  from row keys out show ?thesis by (simp add: row_ok_def life_ok_def life_of_def)
qed

text \<open>C9: one transaction of any process is, for every job, one step of the abstract life of that job
  (publish, claim, succeed, retry below the limit, bury, defer, replay) or leaves its status,
  attempts, epoch and limit as they are; the job keeps its identity and idempotency key.\<close>

theorem job_step_refines:
  assumes "reach initial (job_step cfg) db" and "job_step cfg db db'" and "get_job db jid = Some j"
  shows "\<exists>j'. get_job db' jid = Some j' \<and> job_key j' = job_key j
    \<and> (life_of j' = life_of j \<or> life_step (life_of j) (life_of j'))"
proof -
  have "job_inv db" by (rule fencing.reach_inv[OF assms(1)])
  with assms(2,3) job_step_inv show ?thesis by (fastforce simp: refines_def life_rel_def)
qed

section \<open>Fencing\<close>

text \<open>C13: once a claim is over (its job was recovered, failed, deferred, finished or claimed again), no
  later database of any interleaving lets the old execution act on the job: the lease check raises,
  completion raises, renewal is refused, and failing or deferring the job changes nothing.\<close>

theorem expired_claim_is_powerless:
  assumes "reach initial (job_step cfg) db0" and "retired_at jid e db0" and "(job_step cfg)\<^sup>*\<^sup>* db0 db"
  shows "assert_job_lease db now jid e stale w = Inl JobLeaseLostError
    \<and> complete_job db now jid result worker (Some e) = Inl JobLeaseLostError
    \<and> renew_job_lease db now jid worker (Some e) stale' = (db, False)
    \<and> fail_job db cfg eid now jid err worker (Some e) perm = (db, FLeaseLost)
    \<and> defer_job db now jid delay worker (Some e) = (db, FLeaseLost)"
proof -
  have "job_inv db0" by (rule fencing.reach_inv[OF assms(1)])
  then have ret: "retired_at jid e db" using fencing.steps_final[OF assms(3)] assms(2) by blast
  then obtain j where j: "get_job db jid = Some j" "retired e (life_of j)"
    by (auto simp: retired_at_def split: option.splits)
  have lost: "\<not> owns_job (Some j) worker (Some e)"
    using owns_not_retired[of db jid worker e] ret j(1) by auto
  have "assert_job_lease db now jid e stale w = Inl JobLeaseLostError"
    using j by (auto simp: assert_job_lease_def retired_def life_of_def)
  with j(1) lost show ?thesis
    by (simp add: complete_job_def renew_job_lease_def fail_job_def defer_job_def)
qed

text \<open>C2: every admission of a job gets a claim epoch larger than all earlier ones, also when the same
  worker identifier claims it again, so two executions never share a fence.\<close>

theorem claim_epochs_increase:
  assumes "reach initial (job_step cfg) db" and "claim_job db held now jid w = (db1, Some j1)"
    and "(job_step cfg)\<^sup>*\<^sup>* db1 db2" and "claim_job db2 held' now' jid w' = (db3, Some j2)"
  shows "j_claim_epoch j1 < j_claim_epoch j2"
proof -
  have inv: "job_inv db1"
    using fencing.reach_inv[OF assms(1)] claim_inv[OF assms(2)] by blast
  have "epoch_at jid db1 = j_claim_epoch j1"
    using assms(2) by (cases rule: claim_cases) (auto simp: epoch_at_def row_simps claim_fields_def)
  moreover have "epoch_at jid db1 \<le> epoch_at jid db2" by (rule fencing.steps_rank[OF assms(3) inv])
  moreover have "j_claim_epoch j2 = epoch_at jid db2 + 1"
    using assms(4) by (cases rule: claim_cases) (auto simp: epoch_at_def claim_fields_def)
  ultimately show ?thesis by simp
qed

text \<open>Success is final: the row of a job that succeeded, its result and completion time included,
  is never changed again by any interleaving of claims, renewals, failures, recoveries and replays.\<close>

theorem success_is_final:
  assumes "reach initial (job_step cfg) db" and "get_job db jid = Some j" and "j_status j = JSucceeded"
    and "(job_step cfg)\<^sup>*\<^sup>* db db'"
  shows "get_job db' jid = Some j"
proof -
  have "settled_as j db" using assms(2,3) get_job_Some[OF assms(2)] by (simp add: settled_as_def)
  then have "settled_as j db'"
    using settling.steps_final[OF assms(4)] fencing.reach_inv[OF assms(1)] by blast
  then show ?thesis using get_job_Some[OF assms(2)] by (simp add: settled_as_def)
qed


section \<open>Admission\<close>

text \<open>Admission is idempotent across any interleaving: once a key of a queue has been admitted,
  every later admission of the same key in that queue returns the job first created, reports that
  nothing was created and leaves the database as it was, whatever its other arguments, and even when
  its first read missed the job.\<close>

theorem enqueue_idempotent:
  assumes "reach initial (job_step cfg) db"
    and "enqueue_job seen db nid fk now kind payload key tenant q maxa avail = Inr (db1, j, b)"
    and "(job_step cfg)\<^sup>*\<^sup>* db1 db2" and "seen' = db2 \<or> find_by_key seen' q key = None"
    and "b \<or> seen = db"
    and "enqueue_job seen' db2 nid' fk' now' kind' payload' key tenant' q maxa' avail' = Inr (db3, j', b')"
  shows "j_id j' = j_id j \<and> \<not> b' \<and> db3 = db2"
proof -
  have inv1: "job_inv db1" using enqueue_inv[OF assms(2)] fencing.reach_inv[OF assms(1)] by blast
  have j: "get_job db1 (j_id j) = Some j \<and> job_key j = (q, key)"
    using assms(2)
  proof (cases rule: enqueue_cases)
    case old
    with assms(2,5) have "find_by_key db q key = Some j"
      by (auto simp: enqueue_job_def Let_def split: if_splits option.splits)
    then have "j \<in> set (job_rows db)" "job_key j = (q, key)"
      by (auto simp: find_by_key_def find_Some_iff job_key_def)
    with old get_job_in[OF fencing.reach_inv[OF assms(1)]] show ?thesis by simp
  next
    case (new due)
    then have "j \<in> set (job_rows db1)" by simp
    then have "get_job db1 (j_id j) = Some j" by (rule get_job_in[OF inv1])
    with new(5) show ?thesis by simp
  qed
  then obtain j2 where j2: "get_job db2 (j_id j) = Some j2" "job_key j2 = (q, key)" "j_id j2 = j_id j"
    using steps_keep_job[OF assms(3) inv1, of "j_id j" j] by auto
  have inv2: "job_inv db2" by (rule fencing.steps_inv[OF assms(3) inv1])
  have found: "find_by_key db2 q key = Some j2"
  proof -
    have in2: "j2 \<in> set (job_rows db2)" using get_job_Some[OF j2(1)] by simp
    obtain x where x: "find_by_key db2 q key = Some x"
      using in2 j2(2) by (cases "find_by_key db2 q key") (auto simp: find_by_key_def find_None_iff job_key_def)
    then have "x \<in> set (job_rows db2)" "job_key x = (q, key)"
      by (auto simp: find_by_key_def find_Some_iff job_key_def)
    with in2 j2(2) inv2 have "x = j2" by (auto simp: job_inv_def distinct_map inj_on_def)
    with x show ?thesis by simp
  qed
  from assms(6) show ?thesis
  proof (cases rule: enqueue_cases)
    case old
    with assms(4,6) found j2(3) show ?thesis
      by (auto simp: enqueue_job_def Let_def insert_ok_def split: if_splits option.splits)
  next
    case (new due)
    with found show ?thesis by (simp add: insert_ok_def)
  qed
qed

section \<open>Retries\<close>

text \<open>Under every configuration the process accepts, the delay before a retry lies between the
  base and the cap, never decreases with the number of attempts, and doubles until it reaches the cap.\<close>

theorem retry_delay_bounds:
  assumes "config_from_env env = Inr cfg"
  shows "c_retry_base cfg \<le> retry_delay (c_retry_base cfg) (c_retry_max cfg) n
    \<and> retry_delay (c_retry_base cfg) (c_retry_max cfg) n \<le> c_retry_max cfg
    \<and> retry_delay (c_retry_base cfg) (c_retry_max cfg) n
        \<le> retry_delay (c_retry_base cfg) (c_retry_max cfg) (n + 1)
    \<and> (if n < 1 then retry_delay (c_retry_base cfg) (c_retry_max cfg) n = c_retry_base cfg
       else retry_delay (c_retry_base cfg) (c_retry_max cfg) (n + 1)
        = min (2 * retry_delay (c_retry_base cfg) (c_retry_max cfg) n) (c_retry_max cfg))"
proof -
  have c: "1 \<le> c_retry_base cfg" "c_retry_base cfg \<le> c_retry_max cfg"
    using config_from_env_ok[OF assms] by (auto simp: config_ok_def)
  have pow: "c_retry_base cfg * 1 \<le> c_retry_base cfg * 2 ^ k" for k
    using c(1) by (intro mult_left_mono) auto
  have mono: "c_retry_base cfg * 2 ^ nat (max (n - 1) 0) \<le> c_retry_base cfg * 2 ^ nat (max n 0)"
    using c(1) by (intro mult_left_mono power_increasing) auto
  have double: "c_retry_base cfg * 2 ^ nat (max n 0) = 2 * (c_retry_base cfg * 2 ^ nat (max (n - 1) 0))"
    if "1 \<le> n"
  proof -
    from that have "nat n = Suc (nat (n - 1))" by simp
    with that show ?thesis by (simp add: max_def)
  qed
  show ?thesis
    using c pow[of "nat (max (n - 1) 0)"] mono double by (auto simp: retry_delay_def min_def)
qed


text \<open>Waiting never spends the retry budget: a claim that ends in a deferral leaves the number of
  attempts as it was before the claim, and the job comes back after the requested delay, which is at
  most one hour.\<close>

theorem deferral_spends_no_attempt:
  assumes "reach initial (job_step cfg) db" and "get_job db jid = Some j"
    and "claim_job db held now jid w = (db1, Some j1)"
    and "deferral delay = Inr (JobDeferredError s)"
    and "defer_job db1 now' jid s w (Some (j_claim_epoch j1)) = (db2, res)"
  shows "res = FDeferred \<and> (\<exists>j2 ob. get_job db2 jid = Some j2 \<and> j_attempts j2 = j_attempts j
    \<and> j_status j2 = JRetry \<and> j_available_at j2 = now' + float_seconds s
    \<and> now' \<le> j_available_at j2 \<and> j_available_at j2 \<le> now' + seconds 3600
    \<and> get_outbox db2 jid = Some ob \<and> o_status ob = OPending \<and> o_available_at ob = j_available_at j2)"
proof -
  have inv: "job_inv db" by (rule fencing.reach_inv[OF assms(1)])
  have id: "jid = j_id j" using get_job_Some[OF assms(2)] by simp
  have c: "j1 = claim_fields w now j" "db1 = set_job jid (claim_fields w now) db"
    using assms(3,2) by (auto elim: claim_cases)
  have att: "0 \<le> j_attempts j"
    using job_invD(1)[OF inv assms(2)] by (simp add: row_ok_def life_ok_def life_of_def)
  obtain ob where ob: "get_outbox db jid = Some ob" using job_invD(2)[OF inv assms(2)] by blast
  have s: "0 < s" "s \<le> 3600" using assms(4) by (auto simp: deferral_def split: pyfloat.splits if_splits)
  have fl: "0 \<le> floor (s * 1000000)" "floor (s * 1000000) \<le> 3600000000"
  proof -
    show "0 \<le> floor (s * 1000000)" using s(1) by simp
    have "s * 1000000 \<le> 3600 * 1000000" using s(2) by (intro mult_right_mono) auto
    then show "floor (s * 1000000) \<le> 3600000000" by linarith
  qed
  have exact: "s * 1000000 - of_int (floor (s * 1000000)) = 0" if "floor (s * 1000000) = 3600000000"
  proof -
    have "of_int (floor (s * 1000000)) \<le> s * 1000000" by (rule of_int_floor_le)
    with that s(2) show ?thesis by simp
  qed
  have delay: "0 \<le> float_seconds s \<and> float_seconds s \<le> 3600000000"
  proof (cases "floor (s * 1000000) = 3600000000")
    case True
    with exact have "s * 1000000 - of_int (floor (s * 1000000)) = 0" by blast
    with True show ?thesis by (simp add: float_seconds_def round_half_even_def Let_def)
  next
    case False
    have "round_half_even (s * 1000000) = floor (s * 1000000)
        \<or> round_half_even (s * 1000000) = floor (s * 1000000) + 1"
      unfolding round_half_even_def Let_def by (metis (full_types))
    with False fl show ?thesis unfolding float_seconds_def by linarith
  qed
  have job1: "get_job db1 jid = Some j1" "get_outbox db1 jid = Some ob"
    using assms(2) ob by (simp_all add: c row_simps claim_fields_def)
  have own: "owns_job (Some j1) w (Some (j_claim_epoch j1))"
    by (simp add: owns_job_def c(1) claim_fields_def)
  have j1: "j_attempts j1 = j_attempts j + 1" "j_id j1 = jid"
    by (simp_all add: c(1) claim_fields_def id)
  show ?thesis
    using assms(5) job1 own j1 att delay
    by (auto simp: defer_job_def reopen_outbox_def row_simps Let_def seconds_def)
qed


section \<open>Dispatch\<close>

text \<open>\<open>due_for cfg t db jid\<close>: the job can still run and its outbox row is pending and due at \<open>t\<close>.\<close>

definition due_for :: "runtime_config \<Rightarrow> time \<Rightarrow> 'a jobdb_scheme \<Rightarrow> ident \<Rightarrow> bool" where
  "due_for cfg t db jid = (case (get_job db jid, get_outbox db jid) of
      (Some j, Some ob) \<Rightarrow> j_queue_name j = c_queue_name cfg
         \<and> j_status j \<notin> {JSucceeded, JDeadLetter, JCancelled}
         \<and> o_status ob = OPending \<and> o_available_at ob \<le> t
    | _ \<Rightarrow> False)"

lemma due_for_candidate:
  assumes "due_for cfg t db jid" "t \<le> now"
  shows "next_due db (\<lambda>_. False) (c_queue_name cfg) now \<noteq> None" and "pending_outbox db \<noteq> []"
proof -
  obtain j ob where d: "get_job db jid = Some j" "get_outbox db jid = Some ob"
    "j_queue_name j = c_queue_name cfg" "o_status ob = OPending" "o_available_at ob \<le> t"
    using assms(1) by (auto simp: due_for_def split: option.splits)
  then have ob: "ob \<in> set (outbox_rows db)" "o_job_id ob = jid" using get_outbox_Some by auto
  with d assms(2) show "next_due db (\<lambda>_. False) (c_queue_name cfg) now \<noteq> None"
    by (auto simp: next_due_def first_by_None job_in_queue_def intro!: bexI[of _ ob])
  from ob d show "pending_outbox db \<noteq> []" by (auto simp: pending_outbox_def filter_empty_conv)
qed

lemma dispatch_one_due:
  assumes "job_inv db" "due_for cfg t db jid" "t \<le> now"
    and "dispatch_one cfg None (\<lambda>_. False) now db = (r, db')"
  shows "r = Published jid \<or> ((r = Dropped \<or> (\<exists>k. r = Published k)) \<and> due_for cfg t db' jid)"
proof -
  obtain ob where ob: "next_due db (\<lambda>_. False) (c_queue_name cfg) now = Some ob"
    using due_for_candidate(1)[OF assms(2,3)] by auto
  obtain j where j: "get_job db (o_job_id ob) = Some j"
    using next_due_Some(5)[OF ob] by (auto simp: job_in_queue_def split: option.splits)
  show ?thesis
  proof (cases "o_job_id ob = jid")
    case True
    with assms(2,4) ob j show ?thesis
      by (auto simp: dispatch_one_def Let_def due_for_def split: option.splits if_splits)
  next
    case False
    have frame: "mark_queued x = x \<or> j_id (mark_queued x) = j_id x" for x by (auto simp: mark_queued_def)
    have mid: "j_id (mark_queued x) = j_id x" for x by (simp add: mark_queued_def)
    from False assms(2,4) ob j show ?thesis
      by (auto simp: dispatch_one_def Let_def due_for_def row_simps mid split: option.splits if_splits)
  qed
qed

lemma dispatch_loop_extends:
  "dispatch_loop cfg pub held clk limit i n db wake = (m, db', wake') \<Longrightarrow> \<exists>ids. wake' = wake @ ids"
proof (induction cfg pub held clk limit i n db wake arbitrary: m db' wake' rule: dispatch_loop.induct)
  case (1 cfg pub held clk limit i n db wake)
  obtain r db1 where one: "dispatch_one cfg (pub i) (held i) (clk i) db = (r, db1)" by fastforce
  show ?case
  proof (cases "limit \<le> n")
    case True
    with "1.prems" show ?thesis by (simp add: dispatch_loop.simps[of cfg pub held clk limit i n db wake])
  next
    case False
    note eq = "1.prems"[unfolded dispatch_loop.simps[of cfg pub held clk limit i n db wake] one]
    show ?thesis
    proof (cases r)
      case Dropped
      with False eq "1.IH"(1)[OF False one[symmetric] Dropped] show ?thesis by simp
    next
      case (Published k)
      with False eq "1.IH"(2)[OF False one[symmetric] Published] show ?thesis by fastforce
    qed (use False eq in auto)
  qed
qed

lemma dispatch_loop_complete:
  assumes "dispatch_loop cfg pub held clk limit i n db wake = (m, db', wake')"
    and "pub = (\<lambda>_. None)" "held = (\<lambda>_ _. False)" "\<And>k. t \<le> clk k" "job_inv db"
    and "due_for cfg t db jid" "int (length (pending_outbox db)) \<le> limit - n"
  shows "jid \<in> set wake'"
  using assms
proof (induction cfg pub held clk limit i n db wake arbitrary: m db' wake' rule: dispatch_loop.induct)
  case (1 cfg pub held clk limit i n db wake)
  obtain r db1 where one: "dispatch_one cfg (pub i) (held i) (clk i) db = (r, db1)" by fastforce
  then have one': "dispatch_one cfg None (\<lambda>_. False) (clk i) db = (r, db1)" using 1(4,5) by simp
  have "pending_outbox db \<noteq> []" by (rule due_for_candidate(2)[OF 1(8) 1(6)])
  then have lim: "\<not> limit \<le> n" using 1(9) by (cases "pending_outbox db") auto
  have inv: "job_inv db1" using dispatch_inv[OF one' 1(7)] by blast
  note eq = 1(3)[unfolded dispatch_loop.simps[of cfg pub held clk limit i n db wake] one]
  from dispatch_one_due[OF 1(7,8,6) one'] show ?case
  proof (elim disjE conjE exE)
    assume r: "r = Published jid"
    with lim eq have "dispatch_loop cfg pub held clk limit (Suc i) (n + 1) db1 (wake @ [jid]) = (m, db', wake')"
      by simp
    from dispatch_loop_extends[OF this] show ?thesis by auto
  next
    assume r: "r = Dropped" and due: "due_for cfg t db1 jid"
    have "length (pending_outbox db1) < length (pending_outbox db)"
      using dispatch_one_progress[OF one'] r by simp
    with 1(9) have "int (length (pending_outbox db1)) \<le> limit - n" by simp
    with r eq lim show ?thesis
      using "1.IH"(1)[OF lim one[symmetric] r, of m db' wake'] 1(4-6) inv due by simp
  next
    fix k assume r: "r = Published k" and due: "due_for cfg t db1 jid"
    have "length (pending_outbox db1) < length (pending_outbox db)"
      using dispatch_one_progress[OF one', of k] r by simp
    with 1(9) have "int (length (pending_outbox db1)) \<le> limit - (n + 1)" by simp
    with r eq lim show ?thesis
      using "1.IH"(2)[OF lim one[symmetric] r, of m db' wake'] 1(4-6) inv due by simp
  qed
qed


lemma dispatch_loop_bound:
  "dispatch_loop cfg pub held clk limit i n db wake = (m, db', wake') \<Longrightarrow> n \<le> max n limit \<Longrightarrow>
   n \<le> m \<and> m \<le> max n limit \<and> length wake' = length wake + nat (m - n)"
proof (induction cfg pub held clk limit i n db wake arbitrary: m db' wake' rule: dispatch_loop.induct)
  case (1 cfg pub held clk limit i n db wake)
  obtain r db1 where one: "dispatch_one cfg (pub i) (held i) (clk i) db = (r, db1)" by fastforce
  show ?case
  proof (cases "limit \<le> n")
    case True
    with "1.prems" show ?thesis by (simp add: dispatch_loop.simps[of cfg pub held clk limit i n db wake])
  next
    case False
    note eq = "1.prems"(1)[unfolded dispatch_loop.simps[of cfg pub held clk limit i n db wake] one]
    show ?thesis
    proof (cases r)
      case Dropped
      with False eq "1.IH"(1)[OF False one[symmetric] Dropped] show ?thesis by simp
    next
      case (Published k)
      with False eq have "dispatch_loop cfg pub held clk limit (Suc i) (n + 1) db1 (wake @ [k]) = (m, db', wake')"
        by simp
      with "1.IH"(2)[OF False one[symmetric] Published] False
      have "n + 1 \<le> m \<and> m \<le> max (n + 1) limit \<and> length wake' = length (wake @ [k]) + nat (m - (n + 1))"
        by simp
      with False show ?thesis by (auto simp: max_def)
    qed (use False eq in auto)
  qed
qed


end
