(* ===== verification/JobExamples.thy ===== *)
theory JobExamples
  imports JobClaims
begin

text \<open>
  A concrete history of one job (admitted, claimed, failed, claimed again, completed) and the
  applications of the runtime's claims to it.
\<close>

definition ex_cfg :: runtime_config where
  "ex_cfg = \<lparr> c_enabled = False, c_redis_url = ''redis://redis:6379/0'', c_queue_name = ''default'',
     c_queue_key_prefix = ''bumpabestie'', c_heartbeat_ttl = 45, c_pop_timeout = 5,
     c_scheduler_interval = Fin 2, c_dispatch_batch = 100, c_redispatch = 60, c_retry_base = 5,
     c_retry_max = 900, c_stale_lock = 300 \<rparr>"

lemma default_config: "config_from_env (\<lambda>_. None) = Inr ex_cfg"
  by code_simp

definition ex_job :: async_job where
  "ex_job = new_job ''a'' 0 ''bumpa.sync'' (PDict []) ''k1'' None ''default'' 3 0"

definition ex_claimed :: async_job where
  "ex_claimed = claim_fields ''w1'' 0 ex_job"

definition ex_retry :: async_job where
  "ex_retry = ex_claimed\<lparr>j_last_error := Some ''ValueError: job execution failed'',
     j_locked_at := None, j_locked_by := None, j_status := JRetry, j_available_at := seconds 5\<rparr>"

definition ex_again :: async_job where
  "ex_again = claim_fields ''w1'' (seconds 9) ex_retry"

definition ex_done :: async_job where
  "ex_done = ex_again\<lparr>j_status := JSucceeded, j_result := PInt 7, j_finished_at := Some (seconds 10),
     j_locked_at := None, j_locked_by := None\<rparr>"

definition ex_out :: "time \<Rightarrow> job_outbox" where
  "ex_out due = (new_outbox None ''a'' 0 0)\<lparr>o_available_at := due\<rparr>"

definition ex_db :: "async_job \<Rightarrow> time \<Rightarrow> jobdb" where
  "ex_db j due = \<lparr> job_rows = [j], outbox_rows = [ex_out due], error_rows = [] \<rparr>"

lemmas ex_defs = ex_db_def ex_out_def ex_done_def ex_again_def ex_retry_def ex_claimed_def ex_job_def
  new_job_def new_outbox_def claim_fields_def

lemma ex_enqueue:
  "enqueue_job empty_jobdb empty_jobdb ''a'' True 0 ''bumpa.sync'' (PDict []) ''k1'' None ''default'' 3 None
   = Inr (ex_db ex_job 0, ex_job, True)"
  by code_simp

lemma ex_claim: "claim_job (ex_db ex_job 0) (\<lambda>_. False) 0 ''a'' ''w1'' = (ex_db ex_claimed 0, Some ex_claimed)"
  by code_simp

lemma ex_fail: "fail_job (ex_db ex_claimed 0) ex_cfg ''e'' 0 ''a'' (OtherError ''ValueError'') ''w1'' (Some 1) False
   = (ex_db ex_retry (seconds 5), FRetry)"
  by code_simp

lemma ex_claim_again:
  "claim_job (ex_db ex_retry (seconds 5)) (\<lambda>_. False) (seconds 9) ''a'' ''w1'' = (ex_db ex_again (seconds 5), Some ex_again)"
  by code_simp

lemma ex_complete:
  "complete_job (ex_db ex_again (seconds 5)) (seconds 10) ''a'' (PInt 7) ''w1'' (Some 2) = Inr (ex_db ex_done (seconds 5))"
  by code_simp

lemma ex_reach0: "reach initial (job_step ex_cfg) empty_jobdb"
  by (rule reach_init) (simp add: initial_def)

lemma ex_reach1: "reach initial (job_step ex_cfg) (ex_db ex_job 0)"
  using ex_reach0 step_enqueue[OF ex_enqueue] by (rule reach_step)

lemma ex_reach2: "reach initial (job_step ex_cfg) (ex_db ex_claimed 0)"
  using ex_reach1 step_claim[OF ex_claim] by (rule reach_step)

lemma ex_reach3: "reach initial (job_step ex_cfg) (ex_db ex_retry (seconds 5))"
  using ex_reach2 step_fail[OF ex_fail] by (rule reach_step)

lemma ex_reach4: "reach initial (job_step ex_cfg) (ex_db ex_again (seconds 5))"
  using ex_reach3 step_claim[OF ex_claim_again] by (rule reach_step)

lemma ex_reach5: "reach initial (job_step ex_cfg) (ex_db ex_done (seconds 5))"
  using ex_reach4 step_complete[OF ex_complete] by (rule reach_step)

lemma ex_get: "j_id j = ''a'' \<Longrightarrow> get_job (ex_db j due) ''a'' = Some j"
  by (simp add: get_job_def ex_db_def)

lemma ex_ids [simp]: "j_id ex_job = ''a''" "j_id ex_claimed = ''a''" "j_id ex_retry = ''a''"
  "j_id ex_again = ''a''" "j_id ex_done = ''a''"
  by (simp_all add: ex_defs)

theorem reachable_jobs_wellformed_witness:
  "reach initial (job_step ex_cfg) (ex_db ex_retry (seconds 5))
   \<and> (\<exists>ob \<in> set (outbox_rows (ex_db ex_retry (seconds 5))). o_status ob = OPending)"
  using ex_reach3 reachable_jobs_wellformed[OF ex_reach3, of ex_retry]
  by (simp add: ex_db_def ex_retry_def)

theorem job_step_refines_witness:
  "\<exists>j'. get_job (ex_db ex_retry (seconds 5)) ''a'' = Some j' \<and> job_key j' = job_key ex_claimed"
  using job_step_refines[OF ex_reach2 step_fail[OF ex_fail] ex_get[OF ex_ids(2)]] by blast

theorem expired_claim_is_powerless_witness:
  "complete_job (ex_db ex_again (seconds 5)) 0 ''a'' PNone ''w1'' (Some 1) = Inl JobLeaseLostError"
proof -
  have "retired_at ''a'' 1 (ex_db ex_retry (seconds 5))" by code_simp
  moreover have "(job_step ex_cfg)\<^sup>*\<^sup>* (ex_db ex_retry (seconds 5)) (ex_db ex_again (seconds 5))"
    using step_claim[OF ex_claim_again] by (rule r_into_rtranclp)
  ultimately show ?thesis using expired_claim_is_powerless[OF ex_reach3] by blast
qed

theorem claim_epochs_increase_witness: "j_claim_epoch ex_claimed < j_claim_epoch ex_again"
proof -
  have "(job_step ex_cfg)\<^sup>*\<^sup>* (ex_db ex_claimed 0) (ex_db ex_retry (seconds 5))"
    using step_fail[OF ex_fail] by (rule r_into_rtranclp)
  from claim_epochs_increase[OF ex_reach1 ex_claim this ex_claim_again] show ?thesis .
qed

theorem success_is_final_witness:
  "get_job (ex_db ex_done (seconds 5)) ''a'' = Some ex_done \<and> j_status ex_done = JSucceeded"
proof -
  have s: "j_status ex_done = JSucceeded" by (simp add: ex_defs)
  with success_is_final[OF ex_reach5 ex_get[OF ex_ids(5)] s rtranclp.rtrancl_refl] show ?thesis by simp
qed

theorem enqueue_idempotent_witness:
  "enqueue_job (ex_db ex_claimed 0) (ex_db ex_claimed 0) ''b'' True 5 ''other'' PNone ''k1'' None ''default'' 9 None
     = Inr (ex_db ex_claimed 0, ex_claimed, False) \<and> j_id ex_claimed = j_id ex_job"
proof -
  have e: "enqueue_job (ex_db ex_claimed 0) (ex_db ex_claimed 0) ''b'' True 5 ''other'' PNone ''k1'' None ''default'' 9 None
     = Inr (ex_db ex_claimed 0, ex_claimed, False)"
    by code_simp
  have "(job_step ex_cfg)\<^sup>*\<^sup>* (ex_db ex_job 0) (ex_db ex_claimed 0)"
    using step_claim[OF ex_claim] by (rule r_into_rtranclp)
  from enqueue_idempotent[OF ex_reach0 ex_enqueue this disjI1[OF refl] _ e] e
  show ?thesis by simp
qed

theorem retry_delay_bounds_witness:
  "c_retry_base ex_cfg \<le> retry_delay (c_retry_base ex_cfg) (c_retry_max ex_cfg) 4 \<and> retry_delay 5 900 4 = 40"
proof -
  have "retry_delay 5 900 4 = 40" by code_simp
  with retry_delay_bounds[OF default_config, of 4] show ?thesis by simp
qed


theorem deferral_spends_no_attempt_witness:
  "\<exists>db2 j2. defer_job (ex_db ex_claimed 0) (seconds 1) ''a'' (1/2) ''w1'' (Some (j_claim_epoch ex_claimed)) = (db2, FDeferred)
     \<and> get_job db2 ''a'' = Some j2 \<and> j_attempts j2 = j_attempts ex_job"
proof -
  have d: "deferral (Fin (1/2)) = Inr (JobDeferredError (1/2))" by (simp add: deferral_def)
  obtain db2 res where e:
    "defer_job (ex_db ex_claimed 0) (seconds 1) ''a'' (1/2) ''w1'' (Some (j_claim_epoch ex_claimed)) = (db2, res)"
    by fastforce
  from deferral_spends_no_attempt[OF ex_reach1 ex_get[OF ex_ids(1)] ex_claim d e] e show ?thesis by blast
qed



end
