(* ===== verification/Worker.thy ===== *)
theory Worker
  imports JobExamples
begin

text \<open>
  The job worker (\<^verbatim>\<open>app/jobs/worker.py\<close>): \<open>process_one\<close> claims a job, runs its handler under the
  claim's fence and settles the outcome; \<open>keeper_step\<close> is one round of the thread that renews the
  claim's lease meanwhile.

  A handler is a parameter. Its run is described by the database its own commits and all other
  transactions leave (\<open>hr_committed\<close>), that database with its uncommitted writes (\<open>hr_working\<close>),
  its result or exception, and whether the keeper lost the lease meanwhile.
\<close>

section \<open>Processing one job\<close>

record 'd handler_run =
  hr_committed :: 'd
  hr_working :: 'd
  hr_result :: "job_exn + pyval"
  hr_fence_lost :: bool

type_synonym 'd job_handler = "'d \<Rightarrow> async_job \<Rightarrow> 'd handler_run"

datatype worker_status = WIgnored | WSucceeded | WLeaseLost | WSettled fail_result

definition job_fence_for :: "async_job \<Rightarrow> string \<Rightarrow> runtime_config \<Rightarrow> job_fence" where
  "job_fence_for j worker cfg = \<lparr> f_job_id = j_id j, f_worker_id = worker,
     f_claim_epoch = j_claim_epoch j, f_stale_lock = c_stale_lock cfg, f_invalid = False \<rparr>"

text \<open>
  The body of the \<^verbatim>\<open>try\<close> block: the database the exception's rollback leaves, or the one the
  completion committed. \<open>clk\<close> holds the clock readings of the transactions in order.
\<close>

definition run_handler ::
  "'a jobdb_scheme \<Rightarrow> ('a jobdb_scheme) job_handler registry \<Rightarrow> (nat \<Rightarrow> time) \<Rightarrow> string \<Rightarrow>
   async_job \<Rightarrow> job_fence \<Rightarrow> 'a jobdb_scheme \<times> (job_exn + unit)" where
  "run_handler db reg clk worker j fence =
    (case snd (assert_current_job_lease db (clk 1) (Some fence)) of
       Inl e \<Rightarrow> (db, Inl e)
     | Inr _ \<Rightarrow>
        (case handler_for reg (j_kind j) of
           Inl e \<Rightarrow> (db, Inl e)
         | Inr h \<Rightarrow>
            (let r = h db j; f = (if hr_fence_lost r then invalidate fence else fence) in
             case hr_result r of
               Inl e \<Rightarrow> (hr_committed r, Inl e)
             | Inr v \<Rightarrow>
                (case snd (assert_current_job_lease (hr_working r) (clk 2) (Some f)) of
                   Inl e \<Rightarrow> (hr_committed r, Inl e)
                 | Inr _ \<Rightarrow>
                    (case complete_job (hr_working r) (clk 3) (f_job_id f) v worker
                            (Some (f_claim_epoch f)) of
                       Inl e \<Rightarrow> (hr_committed r, Inl e)
                     | Inr db' \<Rightarrow> (db', Inr ()))))))"

definition settle_failure ::
  "'a jobdb_scheme \<Rightarrow> runtime_config \<Rightarrow> ident \<Rightarrow> time \<Rightarrow> string \<Rightarrow> job_fence \<Rightarrow> job_exn \<Rightarrow>
   'a jobdb_scheme \<times> worker_status" where
  "settle_failure db cfg eid now worker fence e = (case e of
      JobLeaseLostError \<Rightarrow> (db, WLeaseLost)
    | JobDeferredError s \<Rightarrow>
        (case defer_job db now (f_job_id fence) s worker (Some (f_claim_epoch fence)) of
          (db', res) \<Rightarrow> (db', WSettled res))
    | PermanentJobError \<Rightarrow>
        (case fail_job db cfg eid now (f_job_id fence) e worker (Some (f_claim_epoch fence)) True of
          (db', res) \<Rightarrow> (db', WSettled res))
    | OtherError _ \<Rightarrow>
        (case fail_job db cfg eid now (f_job_id fence) e worker (Some (f_claim_epoch fence)) False of
          (db', res) \<Rightarrow> (db', WSettled res)))"

definition process_one ::
  "'a jobdb_scheme \<Rightarrow> runtime_config \<Rightarrow> ('a jobdb_scheme) job_handler registry \<Rightarrow> (ident \<Rightarrow> bool) \<Rightarrow>
   (nat \<Rightarrow> time) \<Rightarrow> ident \<Rightarrow> ident \<Rightarrow> string \<Rightarrow> 'a jobdb_scheme \<times> worker_status" where
  "process_one db cfg reg held clk eid jid worker =
    (case claim_job db held (clk 0) jid worker of
       (db1, None) \<Rightarrow> (db1, WIgnored)
     | (db1, Some j) \<Rightarrow>
        (let fence = job_fence_for j worker cfg in
         case run_handler db1 reg clk worker j fence of
           (db2, Inr _) \<Rightarrow> (db2, WSucceeded)
         | (db2, Inl e) \<Rightarrow> settle_failure db2 cfg eid (clk 3) worker fence e))"

section \<open>The lease keeper\<close>

definition keeper_interval :: "runtime_config \<Rightarrow> rat" where
  "keeper_interval cfg = max (1 / 100) (of_int (min (c_heartbeat_ttl cfg) (c_stale_lock cfg)) / 3)"

text \<open>
  One round of \<^verbatim>\<open>JobLeaseKeeper._run\<close>: the renewal may raise (\<open>raises\<close>), fail or succeed; the third
  component says whether the thread goes on. A failed heartbeat is logged and has no effect here.
\<close>

definition keeper_step ::
  "runtime_config \<Rightarrow> string \<Rightarrow> bool \<Rightarrow> time \<Rightarrow> 'a jobdb_scheme \<Rightarrow> job_fence \<Rightarrow>
   'a jobdb_scheme \<times> job_fence \<times> bool" where
  "keeper_step cfg worker raises now db f =
    (if raises then (db, invalidate f, False)
     else case renew_job_lease db now (f_job_id f) worker (Some (f_claim_epoch f))
                 (Some (c_stale_lock cfg)) of
       (db', True) \<Rightarrow> (db', f, True)
     | (db', False) \<Rightarrow> (db', invalidate f, False))"

text \<open>
  The thread's loop over a schedule of rounds: the instant of the round, what the other
  transactions did since the last one, whether the renewal raises. The list ends when the handler
  stops the thread.
\<close>

fun keeper_loop ::
  "runtime_config \<Rightarrow> string \<Rightarrow> (time \<times> ('a jobdb_scheme \<Rightarrow> 'a jobdb_scheme) \<times> bool) list \<Rightarrow>
   'a jobdb_scheme \<Rightarrow> job_fence \<Rightarrow> 'a jobdb_scheme \<times> job_fence" where
  "keeper_loop cfg worker [] db f = (db, f)"
| "keeper_loop cfg worker ((now, others, raises) # rounds) db f =
    (case keeper_step cfg worker raises now (others db) f of
       (db', f', True) \<Rightarrow> keeper_loop cfg worker rounds db' f'
     | (db', f', False) \<Rightarrow> (db', f'))"

section \<open>Effects outside the runtime's tables\<close>

text \<open>\<open>jobdb.more\<close> is the rest of the database: everything the handler writes for its application.\<close>

lemma more_set [simp]:
  "jobdb.more (set_job k f db) = jobdb.more db"
  "jobdb.more (set_outbox k g db) = jobdb.more db"
  by (simp_all add: set_job_def set_outbox_def)

lemma more_reopen [simp]: "jobdb.more (reopen_outbox j due now db) = jobdb.more db"
  by (simp add: reopen_outbox_def Let_def split: option.splits)

lemma more_record [simp]:
  "jobdb.more (record_terminal_failure eid now j reason service db) = jobdb.more db"
  by (simp add: record_terminal_failure_def)

lemma get_job_record [row_simps]:
  "get_job (record_terminal_failure eid now j reason service db) k = get_job db k"
  by (simp add: record_terminal_failure_def row_simps)

definition only_job :: "ident \<Rightarrow> 'a jobdb_scheme \<Rightarrow> 'a jobdb_scheme \<Rightarrow> bool" where
  "only_job jid db db' \<longleftrightarrow> jobdb.more db' = jobdb.more db
     \<and> (\<forall>k. k \<noteq> jid \<longrightarrow> get_job db' k = get_job db k)"

lemma only_job_refl [simp]: "only_job jid db db"
  by (simp add: only_job_def)

lemma claim_only: "claim_job db held now jid worker = (db', r) \<Longrightarrow> only_job jid db db'"
  by (auto simp: claim_job_def only_job_def row_simps claim_fields_def split: option.splits if_splits)

lemma fail_only: "fail_job db cfg eid now jid e worker ep perm = (db', r) \<Longrightarrow> only_job jid db db'"
  by (auto simp: fail_job_def only_job_def row_simps get_job_reopen Let_def
      split: option.splits if_splits)

lemma defer_only: "defer_job db now jid s worker ep = (db', r) \<Longrightarrow> only_job jid db db'"
  by (auto simp: defer_job_def only_job_def row_simps get_job_reopen Let_def
      split: option.splits if_splits)

lemma settle_only:
  "settle_failure db cfg eid now worker f e = (db', st) \<Longrightarrow> only_job (f_job_id f) db db' \<and> st \<noteq> WSucceeded"
  by (auto simp: settle_failure_def split: job_exn.splits prod.splits dest: fail_only defer_only)

section \<open>A job's effects and its outcome are one transaction\<close>

lemma complete_cases:
  assumes "complete_job db now jid v worker epoch = Inr db'"
  obtains j where "get_job db jid = Some j" "owns_job (Some j) worker epoch"
    "db' = set_job jid (\<lambda>r. r\<lparr>j_status := JSucceeded, j_result := v,
            j_finished_at := Some now, j_locked_at := None, j_locked_by := None\<rparr>) db"
proof (cases "get_job db jid")
  case None
  with assms show thesis by (simp add: complete_job_def owns_job_def)
next
  case (Some j)
  with assms show thesis by (intro that[of j]) (auto simp: complete_job_def split: if_splits)
qed

lemma lease_ok_fresh:
  assumes "snd (assert_current_job_lease db now (Some f)) = Inr u"
  shows "\<not> f_invalid f \<and> (\<exists>j t. get_job db (f_job_id f) = Some j \<and> j_status j = JRunning
    \<and> j_claim_epoch j = f_claim_epoch f \<and> j_locked_by j = Some (f_worker_id f)
    \<and> j_locked_at j = Some t \<and> now < t + seconds (f_stale_lock f))"
  using assms
  by (auto simp: assert_current_job_lease_def assert_job_lease_def
      split: if_splits sum.splits option.splits)

lemma run_handler_ok:
  assumes "run_handler db reg clk worker j fence = (db', Inr u)"
  obtains h v where "handler_for reg (j_kind j) = Inr h" "hr_result (h db j) = Inr v"
    "\<not> hr_fence_lost (h db j)"
    "snd (assert_current_job_lease (hr_working (h db j)) (clk 2) (Some fence)) = Inr ()"
    "complete_job (hr_working (h db j)) (clk 3) (f_job_id fence) v worker
       (Some (f_claim_epoch fence)) = Inr db'"
proof -
  have "f_invalid (invalidate fence)" by (simp add: invalidate_def)
  with assms that show thesis
    by (auto simp: run_handler_def Let_def split: sum.splits if_splits)
      (metis lease_ok_fresh)+
qed

lemma run_handler_raised:
  assumes "run_handler db reg clk worker j fence = (db', Inl e)"
  shows "db' = db \<or> (\<exists>h. handler_for reg (j_kind j) = Inr h \<and> db' = hr_committed (h db j))"
  using assms by (auto simp: run_handler_def Let_def split: sum.splits)


section \<open>A keeper that renews on time never loses the lease\<close>

lemma keeper_interval_bounds:
  assumes "config_ok cfg"
  shows "5 \<le> keeper_interval cfg \<and> 3 * keeper_interval cfg \<le> of_int (c_stale_lock cfg)"
proof -
  have "15 \<le> min (c_heartbeat_ttl cfg) (c_stale_lock cfg)"
    "min (c_heartbeat_ttl cfg) (c_stale_lock cfg) \<le> c_stale_lock cfg"
    using assms by (auto simp: config_ok_def)
  then have "(15::rat) \<le> of_int (min (c_heartbeat_ttl cfg) (c_stale_lock cfg))"
    "(of_int (min (c_heartbeat_ttl cfg) (c_stale_lock cfg)) :: rat) \<le> of_int (c_stale_lock cfg)"
    by (metis of_int_le_iff of_int_numeral, metis of_int_le_iff)
  then show ?thesis by (auto simp: keeper_interval_def max_def)
qed

text \<open>
  \<open>on_time cfg t rounds\<close>: from a renewal at \<open>t\<close>, every round comes no later than two intervals
  after the one before, so each may be late by a whole interval. \<open>undisturbed\<close>: the renewals reach
  the database and no other transaction rewrites the job.
\<close>

fun on_time :: "runtime_config \<Rightarrow> time \<Rightarrow> (time \<times> 'o \<times> bool) list \<Rightarrow> bool" where
  "on_time cfg t [] = True"
| "on_time cfg t ((now, others, raises) # rounds) =
    (t \<le> now \<and> of_int (now - t) \<le> 2 * 1000000 * keeper_interval cfg \<and> on_time cfg now rounds)"

definition undisturbed ::
  "ident \<Rightarrow> (time \<times> ('a jobdb_scheme \<Rightarrow> 'a jobdb_scheme) \<times> bool) list \<Rightarrow> bool" where
  "undisturbed jid rounds \<longleftrightarrow>
     (\<forall>(now, others, raises) \<in> set rounds. \<not> raises \<and> (\<forall>db. get_job (others db) jid = get_job db jid))"

definition leased :: "'a jobdb_scheme \<Rightarrow> job_fence \<Rightarrow> string \<Rightarrow> time \<Rightarrow> bool" where
  "leased db f worker t \<longleftrightarrow> (\<exists>j. get_job db (f_job_id f) = Some j \<and> j_status j = JRunning
     \<and> j_locked_by j = Some worker \<and> j_claim_epoch j = f_claim_epoch f \<and> j_locked_at j = Some t)"

lemma keeper_step_renews:
  assumes "leased db f worker t" "t \<le> now" "now < t + seconds (c_stale_lock cfg)"
  obtains db' where "keeper_step cfg worker False now db f = (db', f, True)" "leased db' f worker now"
proof -
  obtain j where j: "get_job db (f_job_id f) = Some j" "j_status j = JRunning"
     "j_locked_by j = Some worker" "j_claim_epoch j = f_claim_epoch f" "j_locked_at j = Some t"
    using assms(1) by (auto simp: leased_def)
  show thesis
  proof (rule that)
    show "keeper_step cfg worker False now db f =
        (set_job (f_job_id f) (\<lambda>r. r\<lparr>j_locked_at := Some now\<rparr>) db, f, True)"
      using j assms(2,3) by (simp add: keeper_step_def renew_job_lease_def owns_job_def)
    show "leased (set_job (f_job_id f) (\<lambda>r. r\<lparr>j_locked_at := Some now\<rparr>) db) f worker now"
      using j by (simp add: leased_def row_simps)
  qed
qed

lemma interval_gap:
  assumes "config_ok cfg" "of_int (now - t) \<le> 2 * 1000000 * keeper_interval cfg"
  shows "now < t + seconds (c_stale_lock cfg)"
proof -
  have k: "5 \<le> keeper_interval cfg" "3 * keeper_interval cfg \<le> of_int (c_stale_lock cfg)"
    using keeper_interval_bounds[OF assms(1)] by auto
  then have "2 * 1000000 * keeper_interval cfg < 1000000 * of_int (c_stale_lock cfg)" by linarith
  with assms(2) have "(of_int (now - t) :: rat) < of_int (1000000 * c_stale_lock cfg)" by simp
  then have "now - t < 1000000 * c_stale_lock cfg" by (simp only: of_int_less_iff)
  then show ?thesis by (simp add: seconds_def)
qed

lemma keeper_loop_leased:
  assumes "config_ok cfg"
  shows "leased db f worker t \<Longrightarrow> on_time cfg t rounds \<Longrightarrow> undisturbed (f_job_id f) rounds \<Longrightarrow>
   \<exists>db' t'. keeper_loop cfg worker rounds db f = (db', f) \<and> leased db' f worker t'
     \<and> t' = (if rounds = [] then t else fst (last rounds))"
proof (induction rounds arbitrary: db t)
  case Nil
  then show ?case by auto
next
  case (Cons r rounds)
  obtain now others raises where r: "r = (now, others, raises)" by (cases r)
  have u: "\<not> raises" "\<And>d. get_job (others d) (f_job_id f) = get_job d (f_job_id f)"
    "undisturbed (f_job_id f) rounds"
    using Cons.prems(3) by (auto simp: undisturbed_def r)
  have l: "leased (others db) f worker t" using Cons.prems(1) u(2) by (simp add: leased_def)
  have t: "t \<le> now" "of_int (now - t) \<le> 2 * 1000000 * keeper_interval cfg" "on_time cfg now rounds"
    using Cons.prems(2) by (auto simp: r)
  obtain db1 where s: "keeper_step cfg worker False now (others db) f = (db1, f, True)"
    "leased db1 f worker now"
    using keeper_step_renews[OF l t(1) interval_gap[OF assms t(2)]] by blast
  from Cons.IH[OF s(2) t(3) u(3)] s(1) u(1) show ?case by (auto simp: r)
qed

lemma fresh_not_stale:
  assumes "leased db f worker t" "now \<le> t + seconds (c_stale_lock cfg)" "j \<in> set (stale_jobs db cfg held now)"
    and "job_inv db"
  shows "j_id j \<noteq> f_job_id f"
proof
  assume id: "j_id j = f_job_id f"
  have j: "j \<in> set (job_rows db)" "\<exists>u. j_locked_at j = Some u \<and> u < now - seconds (c_stale_lock cfg)"
    using assms(3) by (auto simp: stale_jobs_def dest!: in_set_takeD split: option.splits)
  from get_job_in[OF assms(4) j(1)] have "get_job db (f_job_id f) = Some j" by (simp add: id)
  with j(2) assms(1,2) show False by (auto simp: leased_def)
qed

text \<open>With an accepted configuration, a keeper whose rounds each come within twice its own interval
  (a whole interval of lateness), whose renewals reach the database and whose job nobody else rewrites
  keeps the claim: the fence stays as it was, the job is still leased to the worker under its epoch
  with the last round's timestamp, and no recovery run within the stale-lock time after it selects
  the job.\<close>

theorem keeper_keeps_lease:
  assumes "config_from_env env = Inr cfg" and "leased db f worker t"
    and "on_time cfg t rounds" and "undisturbed (f_job_id f) rounds"
    and "keeper_loop cfg worker rounds db f = (db', f')" and "rounds \<noteq> []"
    and "job_inv db'" and "now \<le> fst (last rounds) + seconds (c_stale_lock cfg)"
  shows "f' = f \<and> leased db' f worker (fst (last rounds))
    \<and> f_job_id f \<notin> j_id ` set (stale_jobs db' cfg held now)"
proof -
  have ok: "config_ok cfg" by (rule config_from_env_ok[OF assms(1)])
  have l: "f' = f" "leased db' f worker (fst (last rounds))"
    using keeper_loop_leased[OF ok assms(2-4)] assms(5,6) by auto
  have "f_job_id f \<notin> j_id ` set (stale_jobs db' cfg held now)"
    by (metis imageE fresh_not_stale[OF l(2) assms(8) _ assms(7)])
  with l show ?thesis by blast
qed

section \<open>A worker on a concrete job\<close>

text \<open>The application's own table is a list of numbers here; the handler appends to it.\<close>

definition ex_app :: "async_job \<Rightarrow> int list \<Rightarrow> (int list) jobdb_scheme" where
  "ex_app j xs = jobdb.extend (ex_db j 0) xs"

definition ex_handler :: "((int list) jobdb_scheme) job_handler" where
  "ex_handler db j = \<lparr> hr_committed = db, hr_working = jobdb.more_update (\<lambda>xs. 1 # xs) db,
     hr_result = Inr (PInt 7), hr_fence_lost = False \<rparr>"

definition ex_registry :: "((int list) jobdb_scheme) job_handler registry" where
  "ex_registry = [(''bumpa.sync'', ex_handler)]"

lemma ex_process:
  "process_one (ex_app ex_job []) ex_cfg ex_registry (\<lambda>_. False) (\<lambda>_. 0) ''e'' ''a'' ''w1'' =
   (ex_app (ex_claimed\<lparr>j_status := JSucceeded, j_result := PInt 7, j_finished_at := Some 0,
      j_locked_at := None, j_locked_by := None\<rparr>) [1], WSucceeded)"
  by code_simp


theorem keeper_keeps_lease_witness:
  "leased (set_job ''a'' (\<lambda>r. r\<lparr>j_locked_at := Some (seconds 20)\<rparr>) (ex_db ex_claimed 0))
     (job_fence_for ex_claimed ''w1'' ex_cfg) ''w1'' (seconds 20)"
proof -
  define f where "f = job_fence_for ex_claimed ''w1'' ex_cfg"
  define rounds where "rounds = [(seconds 20, \<lambda>db::jobdb. db, False)]"
  have id: "f_job_id f = ''a''" by (simp add: f_def job_fence_for_def)
  have l: "leased (ex_db ex_claimed 0) f ''w1'' 0"
    by (simp add: leased_def id ex_get)
      (simp add: f_def job_fence_for_def ex_claimed_def claim_fields_def ex_job_def new_job_def)
  have o: "on_time ex_cfg 0 rounds" by (simp add: rounds_def) code_simp
  have u: "undisturbed (f_job_id f) rounds" by (simp add: rounds_def undisturbed_def)
  have k: "keeper_loop ex_cfg ''w1'' rounds (ex_db ex_claimed 0) f =
      (set_job ''a'' (\<lambda>r. r\<lparr>j_locked_at := Some (seconds 20)\<rparr>) (ex_db ex_claimed 0), f)"
    unfolding rounds_def f_def by code_simp
  have st: "job_step ex_cfg (ex_db ex_claimed 0)
      (set_job ''a'' (\<lambda>r. r\<lparr>j_locked_at := Some (seconds 20)\<rparr>) (ex_db ex_claimed 0))"
    by (rule step_renew[where now = "seconds 20" and jid = "''a''" and worker = "''w1''"
          and epoch = None and stale = None and b = True]) code_simp
  have inv: "job_inv (set_job ''a'' (\<lambda>r. r\<lparr>j_locked_at := Some (seconds 20)\<rparr>) (ex_db ex_claimed 0))"
    by (rule fencing.reach_inv[OF reach_step[OF ex_reach2 st]])
  have ne: "rounds \<noteq> []" by (simp add: rounds_def)
  have "now \<le> fst (last rounds) + seconds (c_stale_lock ex_cfg)" if "now = seconds 20" for now
    using that by (simp add: rounds_def ex_cfg_def seconds_def)
  then have n: "seconds 20 \<le> fst (last rounds) + seconds (c_stale_lock ex_cfg)" by blast
  show ?thesis
    using keeper_keeps_lease[OF default_config l o u k ne inv n, of "\<lambda>_. False"]
    by (simp add: rounds_def f_def)
qed

end
