(* ===== verification/Calendar.thy ===== *)
theory Calendar
  imports PyText
begin

text \<open>
  The proleptic Gregorian calendar as Python's \<^verbatim>\<open>datetime\<close> computes it: ordinals (day 1 is
  January 1 of year 1), year/month/day, ISO weeks, and the textual forms the services build their
  idempotency keys from. \<open>ymd_ord\<close> and \<open>ord_ymd\<close> are proved inverse, so a rendered date identifies
  its day.
\<close>

section \<open>Ordinals\<close>

definition leap :: "int \<Rightarrow> bool" where
  "leap y \<longleftrightarrow> y mod 4 = 0 \<and> (y mod 100 \<noteq> 0 \<or> y mod 400 = 0)"

definition before_year :: "int \<Rightarrow> int" where
  "before_year y = (let p = y - 1 in p * 365 + p div 4 - p div 100 + p div 400)"

definition before_month :: "bool \<Rightarrow> nat \<Rightarrow> int" where
  "before_month lp m = [0, 0, 31, 59, 90, 120, 151, 181, 212, 243, 273, 304, 334] ! m
     + (if 2 < m \<and> lp then 1 else 0)"

definition ymd_ord :: "int \<Rightarrow> nat \<Rightarrow> int \<Rightarrow> int" where
  "ymd_ord y m d = before_year y + before_month (leap y) m + d"

definition month_length :: "bool \<Rightarrow> nat \<Rightarrow> int" where
  "month_length lp m = [0, 31, 28, 31, 30, 31, 30, 31, 31, 30, 31, 30, 31] ! m
     + (if m = 2 \<and> lp then 1 else 0)"

text \<open>The month and day of the \<open>n\<close>-th day of a year, counted from zero.\<close>

definition month_day :: "bool \<Rightarrow> int \<Rightarrow> nat \<times> int" where
  "month_day lp n = (let m = nat ((n + 50) div 32); p = before_month lp m in
     if n < p then (m - 1, n - (p - month_length lp (m - 1)) + 1) else (m, n - p + 1))"

definition ord_ymd :: "int \<Rightarrow> int \<times> nat \<times> int" where
  "ord_ymd ordinal = (let n = ordinal - 1;
      n400 = n div 146097; r400 = n mod 146097;
      n100 = r400 div 36524; r100 = r400 mod 36524;
      n4 = r100 div 1461; r4 = r100 mod 1461;
      n1 = r4 div 365; r1 = r4 mod 365;
      y = n400 * 400 + 1 + n100 * 100 + n4 * 4 + n1 in
    if n1 = 4 \<or> n100 = 4 then (y - 1, 12, 31)
    else (let lp = (n1 = 3 \<and> (n4 \<noteq> 24 \<or> n100 = 3)); (m, d) = month_day lp r1 in (y, m, d)))"

lemma month_day_table:
  "list_all (\<lambda>n. case month_day False n of (m, d) \<Rightarrow> before_month False m + d = n + 1 \<and> 1 \<le> d) [0..364]"
  "list_all (\<lambda>n. case month_day True n of (m, d) \<Rightarrow> before_month True m + d = n + 1 \<and> 1 \<le> d) [0..365]"
  by code_simp+

lemma month_day_inv:
  assumes "0 \<le> n" "n < (if lp then 366 else 365)"
  shows "case month_day lp n of (m, d) \<Rightarrow> before_month lp m + d = n + 1 \<and> 1 \<le> d"
  using assms month_day_table by (cases lp) (auto simp: list_all_iff)

text \<open>The year number from its parts in the 400, 100, 4 and 1 year cycles.\<close>

lemma before_year_cycles:
  assumes "0 \<le> b" "b \<le> 3" "0 \<le> c" "c \<le> 24" "0 \<le> e" "e \<le> 3"
  shows "before_year (a * 400 + 1 + b * 100 + c * 4 + e) = 146097 * a + 36524 * b + 1461 * c + 365 * e"
proof -
  define p where "p = a * 400 + b * 100 + c * 4 + e"
  have "p div 4 = 100 * a + 25 * b + c" "p div 100 = 4 * a + b" "p div 400 = a"
    using assms by (auto simp: p_def)
  then have "p * 365 + p div 4 - p div 100 + p div 400 = 146097 * a + 36524 * b + 1461 * c + 365 * e"
    by (simp add: p_def)
  moreover have "a * 400 + 1 + b * 100 + c * 4 + e - 1 = p" by (simp add: p_def)
  ultimately show ?thesis by (simp add: before_year_def Let_def)
qed

lemma mod_top: "1 \<le> x \<Longrightarrow> x \<le> k \<Longrightarrow> x mod k = 0 \<longleftrightarrow> x = (k::int)"
  by (cases "x = k") (auto simp: mod_pos_pos_trivial)

lemma leap_cycles:
  assumes "0 \<le> b" "b \<le> 3" "0 \<le> c" "c \<le> 24" "0 \<le> e" "e \<le> 3"
  shows "leap (a * 400 + 1 + b * 100 + c * 4 + e) \<longleftrightarrow> e = 3 \<and> (c \<noteq> 24 \<or> b = 3)"
proof -
  define y where "y = a * 400 + 1 + b * 100 + c * 4 + e"
  have "y = 1 + e + (a * 100 + b * 25 + c) * 4" "y = 1 + c * 4 + e + (a * 4 + b) * 100"
    "y = 1 + b * 100 + c * 4 + e + a * 400"
    by (simp_all add: y_def)
  then have "y mod 4 = (1 + e) mod 4" "y mod 100 = (1 + c * 4 + e) mod 100"
    "y mod 400 = (1 + b * 100 + c * 4 + e) mod 400"
    by (metis mod_mult_self1)+
  then have m: "y mod 4 = 0 \<longleftrightarrow> 1 + e = 4" "y mod 100 = 0 \<longleftrightarrow> 1 + c * 4 + e = 100"
    "y mod 400 = 0 \<longleftrightarrow> 1 + b * 100 + c * 4 + e = 400"
    using assms by (simp_all only: mod_top)
  show ?thesis unfolding y_def[symmetric] leap_def m using assms by auto
qed

lemma ymd_ord_inverse: "case ord_ymd n of (y, m, d) \<Rightarrow> ymd_ord y m d = n"
proof -
  define a where "a = (n - 1) div 146097"
  define r400 where "r400 = (n - 1) mod 146097"
  define b where "b = r400 div 36524"
  define r100 where "r100 = r400 mod 36524"
  define c where "c = r100 div 1461"
  define r4 where "r4 = r100 mod 1461"
  define e where "e = r4 div 365"
  define r1 where "r1 = r4 mod 365"
  note defs = a_def r400_def b_def r100_def c_def r4_def e_def r1_def
  have n: "n - 1 = 146097 * a + r400" "r400 = 36524 * b + r100" "r100 = 1461 * c + r4" "r4 = 365 * e + r1"
    by (simp_all add: a_def r400_def b_def r100_def c_def r4_def e_def r1_def)
  have rng: "0 \<le> r400" "r400 < 146097" "0 \<le> r100" "r100 < 36524" "0 \<le> r4" "r4 < 1461" "0 \<le> r1" "r1 < 365"
    by (simp_all add: r400_def r100_def r4_def r1_def)
  have b: "0 \<le> b" "b \<le> 4" and c: "0 \<le> c" "c \<le> 24" and e: "0 \<le> e" "e \<le> 4"
    using rng n by linarith+
  have ym: "ord_ymd n = (let y = a * 400 + 1 + b * 100 + c * 4 + e in
      if e = 4 \<or> b = 4 then (y - 1, 12, 31)
      else (let lp = (e = 3 \<and> (c \<noteq> 24 \<or> b = 3)); (m, d) = month_day lp r1 in (y, m, d)))"
    unfolding ord_ymd_def defs Let_def ..
  consider (ord) "b \<le> 3" "e \<le> 3" | (last4) "e = 4" "b \<le> 3" | (last400) "b = 4" using b e by linarith
  then show ?thesis
  proof cases
    case ord
    let ?lp = "e = 3 \<and> (c \<noteq> 24 \<or> b = 3)"
    obtain m d where md: "month_day ?lp r1 = (m, d)" by fastforce
    have "before_month ?lp m + d = r1 + 1" using month_day_inv[of r1 ?lp] rng(7,8) md by auto
    moreover note before_year_cycles[OF b(1) ord(1) c e(1) ord(2), of a]
      leap_cycles[OF b(1) ord(1) c e(1) ord(2), of a]
    ultimately have "ymd_ord (a * 400 + 1 + b * 100 + c * 4 + e) m d = n"
      using n by (simp add: ymd_ord_def)
    with ord md show ?thesis by (simp add: ym Let_def)
  next
    case last4
    then have "r1 = 0" "c \<noteq> 24" using n rng by linarith+
    moreover note before_year_cycles[OF b(1) last4(2) c, of 3 a] leap_cycles[OF b(1) last4(2) c, of 3 a]
    moreover have "a * 400 + 1 + b * 100 + c * 4 + 4 - 1 = a * 400 + 1 + b * 100 + c * 4 + 3" by simp
    ultimately have "ymd_ord (a * 400 + 1 + b * 100 + c * 4 + 4 - 1) 12 31 = n"
      using n last4(1) by (simp add: ymd_ord_def before_month_def)
    with last4 show ?thesis by (simp add: ym Let_def)
  next
    case last400
    then have z: "r100 = 0" using n rng by linarith
    then have "c = 0" "e = 0" "r4 = 0" "r1 = 0" by (simp_all add: c_def e_def r4_def r1_def)
    moreover note before_year_cycles[of 3 24 3 a] leap_cycles[of 3 24 3 a]
    ultimately have "ymd_ord (a * 400 + 1 + 400 - 1) 12 31 = n"
      using n z last400 by (simp add: ymd_ord_def before_month_def)
    with last400 \<open>c = 0\<close> \<open>e = 0\<close> show ?thesis by (simp add: ym Let_def)
  qed
qed

lemma ord_ymd_pos: "1 \<le> n \<Longrightarrow> case ord_ymd n of (y, m, d) \<Rightarrow> 0 \<le> y \<and> 0 \<le> d"
proof -
  assume n: "1 \<le> n"
  define r where "r = (n - 1) mod 146097 mod 36524 mod 1461"
  define q where "q = (n - 1) mod 146097 div 36524"
  define c where "c = (n - 1) mod 146097 mod 36524 div 1461"
  have "0 \<le> r" "0 \<le> q" "0 \<le> c" "0 \<le> (n - 1) div 146097"
    using n by (simp_all add: r_def q_def c_def pos_imp_zdiv_nonneg_iff)
  moreover have "0 \<le> r div 365" using \<open>0 \<le> r\<close> by (simp add: pos_imp_zdiv_nonneg_iff)
  moreover have "case month_day lp (r mod 365) of (m, d) \<Rightarrow> 0 \<le> d" for lp
  proof -
    have "r mod 365 < 365" by simp
    then have "r mod 365 < (if lp then 366 else 365)" by (rule order_less_le_trans) simp
    with month_day_inv[of "r mod 365" lp] show ?thesis by (auto split: prod.splits)
  qed
  ultimately show ?thesis
    unfolding ord_ymd_def Let_def q_def[symmetric] c_def[symmetric] r_def[symmetric]
    by (auto split: prod.splits if_splits)
qed

section \<open>Instants and dates\<close>

text \<open>
  An instant is a number of microseconds since 1970-01-01, whose ordinal is 719163. Local times are
  instants shifted by the zone's offset.
\<close>

definition day_of :: "time \<Rightarrow> int" where
  "day_of t = 719163 + t div 86400000000"

definition hour_of :: "time \<Rightarrow> int" where
  "hour_of t = t mod 86400000000 div 3600000000"

definition minute_of :: "time \<Rightarrow> int" where
  "minute_of t = t mod 3600000000 div 60000000"

definition weekday :: "int \<Rightarrow> int" where
  "weekday ordinal = (ordinal + 6) mod 7"

definition week1_monday :: "int \<Rightarrow> int" where
  "week1_monday y = (let first = ymd_ord y 1 1; wd = (first + 6) mod 7
     in first - wd + (if 3 < wd then 7 else 0))"

definition iso_week :: "int \<Rightarrow> int \<times> int" where
  "iso_week ordinal = (case ord_ymd ordinal of (y, _, _) \<Rightarrow>
     (let week = (ordinal - week1_monday y) div 7 in
      if week < 0 then (y - 1, (ordinal - week1_monday (y - 1)) div 7 + 1)
      else if 52 \<le> week \<and> week1_monday (y + 1) \<le> ordinal then (y + 1, 1)
      else (y, week + 1)))"

section \<open>Text forms\<close>

definition zpad :: "nat \<Rightarrow> nat \<Rightarrow> string" where
  "zpad w n = replicate (w - length (show_nat n)) (CHR ''0'') @ show_nat n"

definition iso_date :: "int \<Rightarrow> string" where
  "iso_date ordinal = (case ord_ymd ordinal of (y, m, d) \<Rightarrow>
     zpad 4 (nat y) @ ''-'' @ zpad 2 m @ ''-'' @ zpad 2 (nat d))"

text \<open>\<^verbatim>\<open>strftime("%Y%m%dT%H%MZ")\<close>, for years of four digits.\<close>

definition minute_slot :: "time \<Rightarrow> string" where
  "minute_slot t = (case ord_ymd (day_of t) of (y, m, d) \<Rightarrow>
     zpad 4 (nat y) @ zpad 2 m @ zpad 2 (nat d) @ ''T'' @ zpad 2 (nat (hour_of t))
     @ zpad 2 (nat (minute_of t)) @ ''Z'')"

text \<open>\<^verbatim>\<open>isoformat()\<close> of a UTC instant: microseconds appear only when they are not zero.\<close>

definition iso_instant :: "time \<Rightarrow> string" where
  "iso_instant t = (let s = t mod 60000000 div 1000000; us = t mod 1000000 in
     iso_date (day_of t) @ ''T'' @ zpad 2 (nat (hour_of t)) @ '':'' @ zpad 2 (nat (minute_of t))
     @ '':'' @ zpad 2 (nat s) @ (if us = 0 then [] else ''.'' @ zpad 6 (nat us)) @ ''+00:00'')"

definition read_digits :: "string \<Rightarrow> nat" where
  "read_digits s = foldl (\<lambda>a c. 10 * a + (code c - 48)) 0 s"

lemma foldl_zeros: "foldl (\<lambda>a c. 10 * a + (code c - 48)) 0 (replicate k (CHR ''0'')) = (0::nat)"
  by (induction k) (simp_all add: code_def)

lemma read_zpad [simp]: "read_digits (zpad w n) = n"
  by (simp add: read_digits_def zpad_def foldl_zeros foldl_show_nat)

lemma zpad_inj: "zpad w n = zpad w m \<longleftrightarrow> n = m"
  by (metis read_zpad)

lemma zpad_digits: "c \<in> set (zpad w n) \<Longrightarrow> is_digit c"
  using show_nat_digits by (auto simp: zpad_def is_digit_def code_def)

lemma zpad_no_dash [simp]: "CHR ''-'' \<notin> set (zpad w n)"
  using zpad_digits[of "CHR ''-''" w n] by (auto simp: is_digit_def code_def)

lemma zpad_no_colon [simp]: "CHR '':'' \<notin> set (zpad w n)"
  using zpad_digits[of "CHR '':''" w n] by (auto simp: is_digit_def code_def)

lemma iso_date_no_colon [simp]: "CHR '':'' \<notin> set (iso_date n)"
  by (simp add: iso_date_def split: prod.splits)

lemma iso_date_inj:
  assumes "iso_date n = iso_date n'" "1 \<le> n" "1 \<le> n'"
  shows "n = n'"
proof -
  obtain y m d y' m' d' where o: "ord_ymd n = (y, m, d)" "ord_ymd n' = (y', m', d')" by (metis prod_cases3)
  have "split_on CHR ''-'' (iso_date n) = [zpad 4 (nat y), zpad 2 m, zpad 2 (nat d)]"
    "split_on CHR ''-'' (iso_date n') = [zpad 4 (nat y'), zpad 2 m', zpad 2 (nat d')]"
    by (simp_all add: iso_date_def o split_on_append split_on_no_sep)
  with assms(1) have "nat y = nat y'" "m = m'" "nat d = nat d'" by (simp_all add: zpad_inj)
  moreover have "0 \<le> y" "0 \<le> d" "0 \<le> y'" "0 \<le> d'"
    using ord_ymd_pos[OF assms(2)] ord_ymd_pos[OF assms(3)] o by auto
  ultimately have "ord_ymd n = ord_ymd n'" by (simp add: o eq_nat_nat_iff)
  then show ?thesis using ymd_ord_inverse[of n] ymd_ord_inverse[of n'] o by simp
qed

end
