(* ===== verification/AppModel.thy ===== *)
theory AppModel
  imports Calendar
begin

text \<open>
  The rows of \<^verbatim>\<open>app/db/models.py\<close> that several services share. A column whose values a check
  constraint fixes is a datatype; other status columns are strings, as in the schema. Columns that
  no modelled operation reads or writes (display names, labels) are left out.
\<close>

section \<open>Tenants, people and their roles\<close>

datatype tenant_status = TActive | TSuspended | TArchived | TProvisioning

record tenant =
  tn_id :: ident
  tn_slug :: string
  tn_name :: string
  tn_status :: tenant_status
  tn_timezone :: string
  tn_consent :: string

record user_row =
  us_id :: ident
  us_name :: "string option"
  us_email :: "string option"
  us_phone :: string
  us_status :: string

datatype platform_role_name = Operator | Researcher | Superadmin

record platform_role =
  pr_id :: ident
  pr_user_id :: ident
  pr_role :: platform_role_name

datatype member_role = MOwner | MAdmin | MMember | MResearcher | MOperator | MSuperadmin

record membership =
  mb_id :: ident
  mb_tenant_id :: ident
  mb_user_id :: ident
  mb_role :: member_role
  mb_status :: string
  mb_created_at :: time

record phone_identity =
  ph_id :: ident
  ph_tenant_id :: ident
  ph_user_id :: ident
  ph_phone :: string
  ph_wa_id :: "string option"
  ph_status :: string
  ph_opt_out :: bool

record audit_row =
  lg_id :: ident
  lg_tenant_id :: "ident option"
  lg_actor_user_id :: "ident option"
  lg_action :: string
  lg_resource_type :: "string option"
  lg_resource_id :: "string option"
  lg_before :: pyval
  lg_after :: pyval
  lg_created_at :: time

section \<open>Store connections, agent profiles, subscriptions\<close>

datatype scope_type = BusinessId | LocationId

record bumpa_connection =
  bc_id :: ident
  bc_tenant_id :: ident
  bc_encrypted_api_key :: string
  bc_scope_type :: scope_type
  bc_scope_id :: string
  bc_store_timezone :: string
  bc_store_currency :: string
  bc_provider :: string
  bc_status :: string
  bc_boundary_revision :: int
  bc_sync_generation :: int
  bc_published_generation :: int
  bc_last_successful_sync_at :: "time option"
  bc_last_failed_sync_at :: "time option"
  bc_last_error :: "string option"

record hermes_profile =
  hp_id :: ident
  hp_tenant_id :: ident
  hp_profile_name :: string
  hp_provider :: string
  hp_api_url :: string
  hp_encrypted_api_key :: string
  hp_status :: string

datatype mcp_status = CDisabled | CAdminPending | CApproved | COauthInProgress | CActive | CRejected | CError

record mcp_connection =
  mc_id :: ident
  mc_tenant_id :: ident
  mc_created_by :: "ident option"
  mc_provider :: string
  mc_status :: mcp_status
  mc_encrypted_credentials :: "string option"
  mc_scopes :: "string list"
  mc_allowed_resources :: "string list"
  mc_read_only :: bool
  mc_admin_approved :: bool

datatype cadence = Daily | Weekly

record subscription =
  sb_id :: ident
  sb_tenant_id :: ident
  sb_user_id :: ident
  sb_cadence :: cadence
  sb_status :: string
  sb_timezone :: string
  sb_local_hour :: int
  sb_weekday :: int
  sb_revision :: int

section \<open>Agent runs\<close>

datatype run_status = RRunning | RCompleted | RFailed | RExpired | RReconciling | RUnknown

record agent_run =
  ar_id :: ident
  ar_tenant_id :: ident
  ar_user_id :: ident
  ar_conversation_id :: ident
  ar_initiating_message_id :: ident
  ar_actor_identity_id :: "ident option"
  ar_provider_run_ids :: "string list"
  ar_context_digest :: "string option"
  ar_snapshots :: "string option"
  ar_reconcile_epoch :: int
  ar_output_message_id :: "ident option"
  ar_effect_keys :: "string list"
  ar_job_id :: "ident option"
  ar_job_claim_epoch :: "int option"
  ar_job_stale_lock :: "int option"
  ar_status :: run_status
  ar_expires_at :: time
  ar_created_at :: time

section \<open>Store synchronisation runs and WhatsApp traffic\<close>

datatype sync_status = SQueued | SRunning | SSuccess | SPartial | SFailed

datatype sync_quality = QLegacy | QPending | QComplete | QAcceptedPartial | QDegraded | QFailed

record sync_run =
  sr_id :: ident
  sr_tenant_id :: ident
  sr_connection_id :: ident
  sr_status :: sync_status
  sr_quality :: sync_quality
  sr_partial_reason :: "string option"
  sr_requested_from :: int
  sr_requested_to :: int
  sr_started_at :: "time option"
  sr_finished_at :: "time option"
  sr_error :: "string option"
  sr_orders_availability :: "string option"
  sr_orders_count :: "int option"
  sr_boundary_revision :: int
  sr_sync_generation :: "int option"

datatype direction = Inbound | Outbound

record wa_message =
  wm_id :: ident
  wm_tenant_id :: "ident option"
  wm_user_id :: "ident option"
  wm_idempotency_key :: "string option"
  wm_meta_message_id :: "string option"
  wm_receiver_scope :: string
  wm_wa_id :: "string option"
  wm_phone :: "string option"
  wm_direction :: direction
  wm_type :: "string option"
  wm_text :: "string option"
  wm_reply_to :: "string option"
  wm_media :: "(string \<times> pyval) list"
  wm_payload :: "(string \<times> pyval) list"
  wm_status :: string
  wm_status_rank :: int
  wm_created_at :: time

record wa_event =
  we_id :: ident
  we_message_id :: "ident option"
  we_receiver_scope :: string
  we_meta_message_id :: string
  we_status :: string
  we_event_timestamp :: string
  we_payload :: "(string \<times> pyval) list"
  we_created_at :: time

end
