(* ===== verification/JobAdmission.thy ===== *)
theory JobAdmission
  imports JobLifecycle AppModel
begin

text \<open>
  The contract between the job runtime and the services that admit jobs in bulk (scheduler sweeps,
  alert discovery): an admission is identified by its idempotency key, adds exactly that key and
  reports whether it was new. What follows for a whole sweep is proved once, in the locale
  \<open>admission\<close>, and \<open>enqueue_job\<close> is shown to satisfy the contract.
\<close>

section \<open>Sweeps\<close>

text \<open>A sweep admits rows in order inside one transaction; an exception ends it.\<close>

fun sweep :: "(nat \<Rightarrow> 'r \<Rightarrow> 'd \<Rightarrow> 'e + ('d \<times> bool)) \<Rightarrow> nat \<Rightarrow> 'r list \<Rightarrow> 'd \<Rightarrow> 'e + ('d \<times> int)" where
  "sweep put i [] d = Inr (d, 0)"
| "sweep put i (r # rs) d =
    and_then (put i r d) (\<lambda>(d1, b).
    and_then (sweep put (Suc i) rs d1) (\<lambda>(d2, n).
    Inr (d2, (if b then 1 else 0) + n)))"

lemma sweep_keeps:
  assumes "\<And>i r d d' b. put i r d = Inr (d', b) \<Longrightarrow> P d \<Longrightarrow> P d'"
  shows "sweep put i rs d = Inr (d', n) \<Longrightarrow> P d \<Longrightarrow> P d'"
  by (induction rs arbitrary: i d n) (auto simp: and_then_Inr dest: assms)

locale admission =
  fixes keyed :: "'r \<Rightarrow> 'k"
    and valid :: "'r \<Rightarrow> bool"
    and put :: "nat \<Rightarrow> 'r \<Rightarrow> 'd \<Rightarrow> 'e + ('d \<times> bool)"
    and has :: "'k \<Rightarrow> 'd \<Rightarrow> bool"
    and good :: "'d \<Rightarrow> bool"
  assumes put_old: "valid r \<Longrightarrow> has (keyed r) d \<Longrightarrow> put i r d = Inr (d, False)"
    and put_has: "put i r d = Inr (d', b) \<Longrightarrow> has k d' \<longleftrightarrow> has k d \<or> k = keyed r"
    and put_new: "put i r d = Inr (d', b) \<Longrightarrow> b \<longleftrightarrow> \<not> has (keyed r) d"
    and put_good: "put i r d = Inr (d', b) \<Longrightarrow> good d \<Longrightarrow> good d'"
begin

lemma sweep_has:
  "sweep put i rs d = Inr (d', n) \<Longrightarrow> has k d' \<longleftrightarrow> has k d \<or> k \<in> keyed ` set rs"
proof (induction rs arbitrary: i d n)
  case Nil
  then show ?case by simp
next
  case (Cons r rs)
  then obtain d1 b m where "put i r d = Inr (d1, b)" "sweep put (Suc i) rs d1 = Inr (d', m)"
    by (auto simp: and_then_Inr)
  with Cons.IH put_has show ?case by auto
qed

lemma sweep_good: "sweep put i rs d = Inr (d', n) \<Longrightarrow> good d \<Longrightarrow> good d'"
  by (induction rs arbitrary: i d n) (auto simp: and_then_Inr dest: put_good)

text \<open>The number of admissions is the number of keys that were new.\<close>

lemma sweep_count:
  "sweep put i rs d = Inr (d', n) \<Longrightarrow> n = int (card (keyed ` set rs - {k. has k d}))"
proof (induction rs arbitrary: i d n)
  case Nil
  then show ?case by simp
next
  case (Cons r rs)
  then obtain d1 b m where s: "put i r d = Inr (d1, b)" "sweep put (Suc i) rs d1 = Inr (d', m)"
    "n = (if b then 1 else 0) + m"
    by (auto simp: and_then_Inr)
  have m: "m = int (card (keyed ` set rs - {k. has k d1}))" by (rule Cons.IH[OF s(2)])
  have h: "{k. has k d1} = insert (keyed r) {k. has k d}" using put_has[OF s(1)] by auto
  show ?case
  proof (cases "has (keyed r) d")
    case True
    then have "keyed ` set (r # rs) - {k. has k d} = keyed ` set rs - {k. has k d1}" by (auto simp: h)
    with True put_new[OF s(1)] s(3) m show ?thesis by simp
  next
    case False
    then have "keyed ` set (r # rs) - {k. has k d} = insert (keyed r) (keyed ` set rs - {k. has k d1})"
      by (auto simp: h)
    moreover have "keyed r \<notin> keyed ` set rs - {k. has k d1}" by (simp add: h)
    ultimately have "card (keyed ` set (r # rs) - {k. has k d}) = Suc (card (keyed ` set rs - {k. has k d1}))"
      by simp
    with False put_new[OF s(1)] s(3) m show ?thesis by simp
  qed
qed

text \<open>Repeating a sweep admits nothing and changes nothing.\<close>

lemma sweep_repeat:
  "(\<And>r. r \<in> set rs \<Longrightarrow> valid r \<and> has (keyed r) d) \<Longrightarrow> sweep put i rs d = Inr (d, 0)"
  by (induction rs arbitrary: i) (auto simp: put_old)

end

section \<open>Admission through the job runtime\<close>

record job_request =
  q_kind :: string
  q_tenant :: "ident option"
  q_key :: string
  q_payload :: pyval
  q_max_attempts :: int

definition request_ok :: "job_request \<Rightarrow> bool" where
  "request_ok r \<longleftrightarrow> q_kind r \<noteq> [] \<and> q_key r \<noteq> [] \<and> 1 \<le> q_max_attempts r \<and> q_max_attempts r \<le> 100"

text \<open>\<open>fresh\<close> and \<open>fk\<close> give the identifier of the \<open>i\<close>-th new row and whether its tenant exists.\<close>

definition admit ::
  "(nat \<Rightarrow> ident) \<Rightarrow> (nat \<Rightarrow> bool) \<Rightarrow> time \<Rightarrow> nat \<Rightarrow> job_request \<Rightarrow> 'a jobdb_scheme \<Rightarrow>
   enqueue_error + ('a jobdb_scheme \<times> bool)" where
  "admit fresh fk now i r db =
    (case enqueue_job db db (fresh i) (fk i) now (q_kind r) (q_payload r) (q_key r) (q_tenant r)
            ''default'' (q_max_attempts r) None of
       Inl e \<Rightarrow> Inl e
     | Inr (db', j, created) \<Rightarrow> Inr (db', created))"

definition admitted :: "string \<Rightarrow> 'a jobdb_scheme \<Rightarrow> bool" where
  "admitted key db \<longleftrightarrow> find_by_key db ''default'' key \<noteq> None"

lemma admitted_iff: "admitted key db \<longleftrightarrow> (''default'', key) \<in> job_key ` set (job_rows db)"
proof -
  have "admitted key db \<longleftrightarrow> (\<exists>j \<in> set (job_rows db). job_key j = (''default'', key))"
    by (auto simp: admitted_def find_by_key_def find_None_iff job_key_def)
  then show ?thesis by force
qed

lemma enqueue_default:
  assumes "enqueue_job db db nid fk now kind payload key tenant ''default'' maxa avail = Inr (db', j, b)"
  shows "b \<longleftrightarrow> \<not> admitted key db" and "admitted k db' \<longleftrightarrow> admitted k db \<or> k = key"
    and "b \<or> db' = db"
proof -
  show b: "b \<longleftrightarrow> \<not> admitted key db"
    using assms by (auto simp: enqueue_job_def admitted_def Let_def insert_ok_def
        split: if_splits option.splits)
  show "b \<or> db' = db"
    using assms by (auto elim: enqueue_cases)
  show "admitted k db' \<longleftrightarrow> admitted k db \<or> k = key"
  proof (cases b)
    case True
    then obtain due where "db' = db\<lparr>job_rows := job_rows db @
        [new_job nid now kind payload key tenant ''default'' maxa due],
         outbox_rows := outbox_rows db @ [new_outbox tenant nid due now]\<rparr>"
      using assms by (auto elim: enqueue_cases)
    then show ?thesis by (auto simp: admitted_iff)
  next
    case False
    with b \<open>b \<or> db' = db\<close> show ?thesis by auto
  qed
qed

lemma admit_Inr:
  assumes "admit fresh fk now i r db = Inr (db', b)"
  obtains j where "enqueue_job db db (fresh i) (fk i) now (q_kind r) (q_payload r) (q_key r)
    (q_tenant r) ''default'' (q_max_attempts r) None = Inr (db', j, b)"
  using assms by (auto simp: admit_def split: sum.splits)

lemma admit_old: "request_ok r \<Longrightarrow> admitted (q_key r) db \<Longrightarrow> admit fresh fk now i r db = Inr (db, False)"
  by (auto simp: admit_def request_ok_def admitted_def enqueue_job_def)

interpretation jobs: admission q_key request_ok "admit fresh fk now" admitted job_inv
  for fresh fk now
proof unfold_locales
  fix r :: job_request and db db' :: "'a jobdb_scheme" and i b k
  show "request_ok r \<Longrightarrow> admitted (q_key r) db \<Longrightarrow> admit fresh fk now i r db = Inr (db, False)"
    by (rule admit_old)
  assume "admit fresh fk now i r db = Inr (db', b)"
  then obtain j where e: "enqueue_job db db (fresh i) (fk i) now (q_kind r) (q_payload r) (q_key r)
      (q_tenant r) ''default'' (q_max_attempts r) None = Inr (db', j, b)"
    by (rule admit_Inr)
  show "admitted k db' \<longleftrightarrow> admitted k db \<or> k = q_key r" by (rule enqueue_default(2)[OF e])
  show "b \<longleftrightarrow> \<not> admitted (q_key r) db" by (rule enqueue_default(1)[OF e])
  show "job_inv db \<Longrightarrow> job_inv db'" using enqueue_inv[OF e] by blast
qed

text \<open>Under the runtime's invariant a key belongs to one job.\<close>

lemma admitted_unique:
  assumes "job_inv db" "admitted key db"
  shows "\<exists>!j. j \<in> set (job_rows db) \<and> job_key j = (''default'', key)"
proof -
  obtain j where j: "j \<in> set (job_rows db)" "job_key j = (''default'', key)"
    using assms(2) by (force simp: admitted_iff)
  moreover have "x = j" if "x \<in> set (job_rows db)" "job_key x = (''default'', key)" for x
  proof -
    have "inj_on job_key (set (job_rows db))" using assms(1) by (simp add: job_inv_def distinct_map)
    then show ?thesis using that j by (metis inj_onD)
  qed
  ultimately show ?thesis by blast
qed

text \<open>Admission touches nothing outside the runtime's tables and no existing job.\<close>

lemma admit_more: "admit fresh fk now i r db = Inr (db', b) \<Longrightarrow> jobdb.more db' = jobdb.more db"
  by (erule admit_Inr) (auto elim!: enqueue_cases)

lemma sweep_more:
  "sweep (admit fresh fk now) i rs db = Inr (db', n) \<Longrightarrow> jobdb.more db' = jobdb.more db"
  by (erule sweep_keeps[where P = "\<lambda>d. jobdb.more d = jobdb.more db", rotated]) (simp_all add: admit_more)

text \<open>\<open>has_rows\<close>: the job and its outbox row are these.\<close>

definition has_rows :: "ident \<Rightarrow> async_job \<Rightarrow> job_outbox \<Rightarrow> 'a jobdb_scheme \<Rightarrow> bool" where
  "has_rows jid j ob db \<longleftrightarrow> get_job db jid = Some j \<and> get_outbox db jid = Some ob"

lemma admit_keeps_rows:
  assumes "admit fresh fk now i r db = Inr (db', b)" "has_rows jid j ob db"
  shows "has_rows jid j ob db'"
proof -
  obtain x where e: "enqueue_job db db (fresh i) (fk i) now (q_kind r) (q_payload r) (q_key r)
    (q_tenant r) ''default'' (q_max_attempts r) None = Inr (db', x, b)"
    by (rule admit_Inr[OF assms(1)])
  from e show ?thesis
  proof (cases rule: enqueue_cases)
    case old
    with assms(2) show ?thesis by simp
  next
    case (new due)
    with assms(2) show ?thesis
      by (simp add: has_rows_def get_job_def get_outbox_def tbl_find_append)
  qed
qed

lemma sweep_keeps_rows:
  "sweep (admit fresh fk now) i rs db = Inr (db', n) \<Longrightarrow> has_rows jid j ob db \<Longrightarrow> has_rows jid j ob db'"
  by (erule sweep_keeps[where P = "has_rows jid j ob", rotated]) (auto intro: admit_keeps_rows)

text \<open>A key that was not admitted before belongs, afterwards, to a new pending job of the sweep.\<close>

lemma sweep_new:
  assumes "sweep (admit fresh fk now) i rs db = Inr (db', n)" "\<not> admitted key db" "key \<in> q_key ` set rs"
  shows "\<exists>r \<in> set rs. \<exists>jid j ob. q_key r = key \<and> has_rows jid j ob db' \<and> j_status j = JPending
    \<and> job_key j = (''default'', key) \<and> j_kind j = q_kind r \<and> j_payload j = q_payload r
    \<and> o_status ob = OPending \<and> o_available_at ob = now"
  using assms
proof (induction rs arbitrary: i db n)
  case Nil
  then show ?case by simp
next
  case (Cons r rs)
  then obtain d1 b m where s: "admit fresh fk now i r db = Inr (d1, b)"
    "sweep (admit fresh fk now) (Suc i) rs d1 = Inr (db', m)"
    by (auto simp: and_then_Inr)
  show ?case
  proof (cases "q_key r = key")
    case True
    obtain x where e: "enqueue_job db db (fresh i) (fk i) now (q_kind r) (q_payload r) (q_key r)
      (q_tenant r) ''default'' (q_max_attempts r) None = Inr (d1, x, b)"
      by (rule admit_Inr[OF s(1)])
    have b: "b" using jobs.put_new[OF s(1)] Cons.prems(2) True by simp
    have "d1 = (let x = new_job (fresh i) now (q_kind r) (q_payload r) (q_key r) (q_tenant r)
          ''default'' (q_max_attempts r) now in
        db\<lparr>job_rows := job_rows db @ [x],
           outbox_rows := outbox_rows db @ [new_outbox (q_tenant r) (fresh i) now now]\<rparr>)
      \<and> insert_ok db (fk i) (fresh i) ''default'' (q_key r)"
      using e b by (auto simp: enqueue_job_def Let_def split: if_splits option.splits)
    then have "has_rows (fresh i) (new_job (fresh i) now (q_kind r) (q_payload r) (q_key r) (q_tenant r)
          ''default'' (q_max_attempts r) now) (new_outbox (q_tenant r) (fresh i) now now) d1"
      by (auto simp: has_rows_def get_job_def get_outbox_def tbl_find_append insert_ok_def Let_def)
    from sweep_keeps_rows[OF s(2) this] True show ?thesis
      by (intro bexI[of _ r] exI) (auto simp: new_job_def new_outbox_def job_key_def)
  next
    case False
    with jobs.put_has[OF s(1), of key] Cons.prems Cons.IH[OF s(2)] show ?thesis by auto
  qed
qed

text \<open>A sweep of acceptable requests with fresh identifiers and existing tenants never raises.\<close>

lemma sweep_admits:
  assumes "\<forall>r \<in> set rs. request_ok r" "\<And>k. fk k"
    and "\<And>k. i \<le> k \<Longrightarrow> get_job db (fresh k) = None \<and> get_outbox db (fresh k) = None" "inj fresh"
  shows "is_ok (sweep (admit fresh fk now) i rs db)"
  using assms(1,3)
proof (induction rs arbitrary: i db)
  case Nil
  then show ?case by simp
next
  case (Cons r rs)
  show ?case
  proof (cases "admitted (q_key r) db")
    case True
    with Cons.prems Cons.IH[where db = db and i = "Suc i"] show ?thesis
      by (cases "sweep (admit fresh fk now) (Suc i) rs db") (auto simp: admit_old)
  next
    case False
    define j where "j = new_job (fresh i) now (q_kind r) (q_payload r) (q_key r) (q_tenant r)
       ''default'' (q_max_attempts r) now"
    define db1 where "db1 = db\<lparr>job_rows := job_rows db @ [j],
       outbox_rows := outbox_rows db @ [new_outbox (q_tenant r) (fresh i) now now]\<rparr>"
    have a: "admit fresh fk now i r db = Inr (db1, True)"
      using False Cons.prems assms(2)
      by (simp add: admit_def enqueue_job_def request_ok_def admitted_def insert_ok_def db1_def j_def Let_def)
    have "get_job db1 (fresh k) = None \<and> get_outbox db1 (fresh k) = None" if "Suc i \<le> k" for k
      using Cons.prems(2)[of k] that injD[OF assms(4), of i k]
      by (auto simp: db1_def j_def get_job_def get_outbox_def tbl_find_append)
    with Cons.IH[where db = db1 and i = "Suc i"] Cons.prems(1) a show ?thesis
      by (cases "sweep (admit fresh fk now) (Suc i) rs db1") auto
  qed
qed

end
