(* ===== verification/Alerts.thy ===== *)
theory Alerts
  imports JobAdmission
begin

text \<open>
  Operational alerts (\<^verbatim>\<open>app/services/operational_alerts.py\<close>): discovery scans four kinds of recent
  failure evidence and admits one delivery job per piece of evidence; delivery validates the job's
  payload, builds a signed envelope that names tenants and sources only through digests, and sends
  it; a profile health check turns a failing profile into evidence.

  Parameters: \<open>sha\<close> (hexadecimal SHA-256), \<open>mac\<close> (hexadecimal HMAC-SHA-256 under a key), \<open>from_iso\<close>
  (\<^verbatim>\<open>datetime.fromisoformat\<close>), and the answer of the alert destination or of the profile.
\<close>

section \<open>Sources of alerts\<close>

datatype alert_event = SyncFailure | DeliveryFailure | CallFailure | HealthFailure

definition event_name :: "alert_event \<Rightarrow> string" where
  "event_name e = (case e of SyncFailure \<Rightarrow> ''bumpa_sync_failure''
     | DeliveryFailure \<Rightarrow> ''whatsapp_delivery_failure''
     | CallFailure \<Rightarrow> ''hermes_call_failure'' | HealthFailure \<Rightarrow> ''hermes_health_failure'')"

record alert_source =
  as_event :: alert_event
  as_source_type :: string
  as_source_id :: string
  as_at :: time
  as_tenant :: "ident option"
  as_category :: string

record alert_settings =
  al_enabled :: bool
  al_lookback_hours :: int
  al_scan_limit :: int
  al_max_attempts :: int
  al_secret :: string

record alert_db = jobdb +
  ad_sync_runs :: "sync_run list"
  ad_messages :: "wa_message list"
  ad_events :: "wa_event list"
  ad_profiles :: "hermes_profile list"

definition token_first :: "char \<Rightarrow> bool" where
  "token_first c = (is_lower c \<or> is_digit c)"

definition token_char :: "char \<Rightarrow> bool" where
  "token_char c = (token_first c \<or> c = CHR ''_'' \<or> c = CHR ''.'' \<or> c = CHR ''-'')"

text \<open>\<open>safe_token\<close> is the full match of \<^verbatim>\<open>[a-z0-9][a-z0-9_.-]{0,79}\<close>.\<close>

definition safe_token :: "string \<Rightarrow> bool" where
  "safe_token s = (case s of [] \<Rightarrow> False
     | c # t \<Rightarrow> token_first c \<and> length t \<le> 79 \<and> list_all token_char t)"

definition safe_category :: "pyval \<Rightarrow> string" where
  "safe_category v = (case v of PStr s \<Rightarrow> if safe_token s then s else ''provider_failure''
     | _ \<Rightarrow> ''provider_failure'')"

definition failed_statuses :: "string list" where
  "failed_statuses = [''failed'', ''rejected'', ''ambiguous'', ''undeliverable'']"

definition alert_key :: "alert_event \<Rightarrow> string \<Rightarrow> string \<Rightarrow> string" where
  "alert_key e t i = ''ops-alert:'' @ event_name e @ '':'' @ t @ '':'' @ i"

definition opt_str :: "string option \<Rightarrow> pyval" where
  "opt_str v = (case v of None \<Rightarrow> PNone | Some s \<Rightarrow> PStr s)"

definition alert_payload :: "alert_source \<Rightarrow> pyval" where
  "alert_payload s = PDict [(''event_type'', PStr (event_name (as_event s))),
     (''source_type'', PStr (as_source_type s)), (''source_id'', PStr (as_source_id s)),
     (''occurred_at'', PStr (iso_instant (as_at s))), (''tenant_id'', opt_str (as_tenant s)),
     (''category'', PStr (as_category s))]"

definition alert_request :: "alert_settings \<Rightarrow> alert_source \<Rightarrow> job_request" where
  "alert_request st s = \<lparr> q_kind = ''ops.deliver_alert'', q_tenant = as_tenant s,
     q_key = alert_key (as_event s) (as_source_type s) (as_source_id s),
     q_payload = alert_payload s, q_max_attempts = al_max_attempts st \<rparr>"

definition not_already_alerted :: "alert_event \<Rightarrow> string \<Rightarrow> 'a jobdb_scheme \<Rightarrow> ident \<Rightarrow> bool" where
  "not_already_alerted e t db i = (\<not> admitted (alert_key e t i) db)"

section \<open>Discovery\<close>

definition sync_pending :: "time \<Rightarrow> 'a alert_db_scheme \<Rightarrow> sync_run list" where
  "sync_pending cutoff db = query_by (\<lambda>r. (case sr_finished_at r of None \<Rightarrow> 0 | Some t \<Rightarrow> t, sr_id r))
     (\<lambda>r. (case sr_finished_at r of None \<Rightarrow> False | Some t \<Rightarrow> cutoff \<le> t)
        \<and> (sr_status r = SFailed \<or> sr_quality r = QDegraded)
        \<and> not_already_alerted SyncFailure ''bumpa_sync_run'' db (sr_id r))
     (ad_sync_runs db)"

definition sync_source :: "time \<Rightarrow> sync_run \<Rightarrow> alert_source" where
  "sync_source cutoff r = \<lparr> as_event = SyncFailure, as_source_type = ''bumpa_sync_run'',
     as_source_id = sr_id r, as_at = (case sr_finished_at r of None \<Rightarrow> cutoff | Some t \<Rightarrow> t),
     as_tenant = Some (sr_tenant_id r),
     as_category = (if sr_quality r = QDegraded then ''degraded'' else ''failed'') \<rparr>"

definition messages_pending :: "time \<Rightarrow> 'a alert_db_scheme \<Rightarrow> wa_message list" where
  "messages_pending cutoff db = query_by (\<lambda>m. (wm_created_at m, wm_id m))
     (\<lambda>m. cutoff \<le> wm_created_at m \<and> wm_direction m = Outbound
        \<and> wm_status m \<in> set failed_statuses
        \<and> not_already_alerted DeliveryFailure ''whatsapp_message'' db (wm_id m))
     (ad_messages db)"

definition message_source :: "wa_message \<Rightarrow> alert_source" where
  "message_source m = \<lparr> as_event = DeliveryFailure, as_source_type = ''whatsapp_message'',
     as_source_id = wm_id m, as_at = wm_created_at m, as_tenant = wm_tenant_id m,
     as_category = (if wm_status m \<in> set failed_statuses then wm_status m else ''failed'') \<rparr>"

definition events_pending :: "time \<Rightarrow> 'a alert_db_scheme \<Rightarrow> wa_event list" where
  "events_pending cutoff db = query_by (\<lambda>e. (we_created_at e, we_id e))
     (\<lambda>e. cutoff \<le> we_created_at e \<and> we_status e \<in> set failed_statuses
        \<and> not_already_alerted DeliveryFailure ''whatsapp_delivery_event'' db (we_id e))
     (ad_events db)"

definition event_source :: "'a alert_db_scheme \<Rightarrow> wa_event \<Rightarrow> alert_source" where
  "event_source db e = \<lparr> as_event = DeliveryFailure, as_source_type = ''whatsapp_delivery_event'',
     as_source_id = we_id e, as_at = we_created_at e,
     as_tenant = (case we_message_id e of None \<Rightarrow> None
       | Some mid \<Rightarrow> Option.bind (tbl_find wm_id mid (ad_messages db)) wm_tenant_id),
     as_category = (if we_status e \<in> set failed_statuses then we_status e else ''undeliverable'') \<rparr>"

definition error_event :: "system_error \<Rightarrow> alert_event" where
  "error_event e = (if e_service e = ''hermes_health'' then HealthFailure else CallFailure)"

definition errors_pending :: "time \<Rightarrow> 'a alert_db_scheme \<Rightarrow> system_error list" where
  "errors_pending cutoff db = query_by (\<lambda>e. (e_created_at e, e_id e))
     (\<lambda>e. cutoff \<le> e_created_at e
        \<and> (e_service e = ''hermes'' \<and> not_already_alerted CallFailure ''system_error'' db (e_id e)
           \<or> e_service e = ''hermes_health''
              \<and> not_already_alerted HealthFailure ''system_error'' db (e_id e)))
     (error_rows db)"

definition error_source :: "system_error \<Rightarrow> alert_source" where
  "error_source e = \<lparr> as_event = error_event e, as_source_type = ''system_error'',
     as_source_id = e_id e, as_at = e_created_at e, as_tenant = e_tenant_id e,
     as_category = safe_category (case e_metadata e of PDict d \<Rightarrow> dict_get d ''category'' | _ \<Rightarrow> PNone) \<rparr>"

definition alert_cutoff :: "alert_settings \<Rightarrow> time \<Rightarrow> time" where
  "alert_cutoff st now = now - seconds (al_lookback_hours st * 3600)"

definition alert_sources :: "alert_settings \<Rightarrow> time \<Rightarrow> 'a alert_db_scheme \<Rightarrow> alert_source list" where
  "alert_sources st now db = (let cutoff = alert_cutoff st now; n = nat (al_scan_limit st) in
     map (sync_source cutoff) (take n (sync_pending cutoff db))
     @ map message_source (take n (messages_pending cutoff db))
     @ map (event_source db) (take n (events_pending cutoff db))
     @ map error_source (take n (errors_pending cutoff db)))"

definition enqueue_alert_job ::
  "(nat \<Rightarrow> ident) \<Rightarrow> (nat \<Rightarrow> bool) \<Rightarrow> time \<Rightarrow> alert_settings \<Rightarrow> nat \<Rightarrow> alert_source \<Rightarrow> 'a jobdb_scheme \<Rightarrow>
   enqueue_error + ('a jobdb_scheme \<times> bool)" where
  "enqueue_alert_job fresh fk now st i s db = admit fresh fk now i (alert_request st s) db"

definition discover_alerts ::
  "alert_settings \<Rightarrow> (nat \<Rightarrow> ident) \<Rightarrow> (nat \<Rightarrow> bool) \<Rightarrow> time \<Rightarrow> 'a alert_db_scheme \<Rightarrow>
   enqueue_error + ('a alert_db_scheme \<times> int)" where
  "discover_alerts st fresh fk now db =
    (if \<not> al_enabled st then Inr (db, 0)
     else sweep (enqueue_alert_job fresh fk now st) 0 (alert_sources st now db) db)"

section \<open>Delivery\<close>

definition event_of :: "string \<Rightarrow> alert_event option" where
  "event_of s = find (\<lambda>e. event_name e = s) [SyncFailure, DeliveryFailure, CallFailure, HealthFailure]"

text \<open>
  Validation of a job payload. Every rejection is a \<^verbatim>\<open>PermanentJobError\<close>, except that a list or
  dictionary as event type is unhashable and raises \<^verbatim>\<open>TypeError\<close>.
\<close>

definition source_from_payload ::
  "(string \<Rightarrow> time option) \<Rightarrow> (string \<times> pyval) list \<Rightarrow> job_exn + alert_source" where
  "source_from_payload from_iso p =
    (case dict_get p ''event_type'' of
       PList _ \<Rightarrow> Inl (OtherError ''TypeError'')
     | PDict _ \<Rightarrow> Inl (OtherError ''TypeError'')
     | PStr et \<Rightarrow>
        (case (dict_get p ''source_type'', dict_get p ''source_id'', dict_get p ''occurred_at'',
               dict_get p ''category'') of
           (PStr ty, PStr sid, PStr occurred, PStr cat) \<Rightarrow>
             (case (event_of et, from_iso occurred) of
                (Some e, Some t) \<Rightarrow>
                  if safe_token ty \<and> 1 \<le> length sid \<and> length sid \<le> 160
                   \<and> (case dict_get p ''tenant_id'' of PNone \<Rightarrow> True | PStr x \<Rightarrow> length x \<le> 160 | _ \<Rightarrow> False)
                  then Inr \<lparr> as_event = e, as_source_type = ty, as_source_id = sid, as_at = t,
                         as_tenant = (case dict_get p ''tenant_id'' of PStr x \<Rightarrow> Some x | _ \<Rightarrow> None),
                         as_category = safe_category (PStr cat) \<rparr>
                  else Inl PermanentJobError
              | _ \<Rightarrow> Inl PermanentJobError)
         | _ \<Rightarrow> Inl PermanentJobError)
     | _ \<Rightarrow> Inl PermanentJobError)"

definition service_for :: "alert_event \<Rightarrow> string" where
  "service_for e = (case e of SyncFailure \<Rightarrow> ''bumpa'' | DeliveryFailure \<Rightarrow> ''whatsapp''
     | CallFailure \<Rightarrow> ''hermes'' | HealthFailure \<Rightarrow> ''hermes'')"

definition summary_for :: "alert_event \<Rightarrow> string" where
  "summary_for e = (case e of SyncFailure \<Rightarrow> ''Bumpa sync needs operator attention''
     | DeliveryFailure \<Rightarrow> ''WhatsApp delivery needs operator attention''
     | CallFailure \<Rightarrow> ''Hermes call needs operator attention''
     | HealthFailure \<Rightarrow> ''Hermes profile health needs operator attention'')"

definition event_digest :: "(string \<Rightarrow> string) \<Rightarrow> alert_source \<Rightarrow> string" where
  "event_digest sha s = sha (event_name (as_event s) @ [char_of (0::nat)] @ as_source_type s
     @ [char_of (0::nat)] @ as_source_id s)"

definition build_envelope ::
  "(string \<Rightarrow> string) \<Rightarrow> (string \<Rightarrow> string \<Rightarrow> string) \<Rightarrow> alert_source \<Rightarrow> string \<Rightarrow> (string \<times> pyval) list" where
  "build_envelope sha mac s secret =
    [(''schema_version'', PInt 1), (''event_id'', PStr (event_digest sha s)),
     (''event_type'', PStr (event_name (as_event s))), (''severity'', PStr ''high''),
     (''occurred_at'', PStr (iso_instant (as_at s))), (''service'', PStr (service_for (as_event s))),
     (''summary'', PStr (summary_for (as_event s))),
     (''attributes'', PDict [(''category'', PStr (as_category s)),
        (''source_reference'', PStr (take 24 (sha (as_source_id s)))),
        (''tenant_reference'', (case as_tenant s of
            Some x \<Rightarrow> if x = [] then PNone else PStr (take 24 (mac secret x))
          | None \<Rightarrow> PNone))])]"

text \<open>
  The destination's answer: the request fails in transport, or a status and the size of the body
  read. \<open>Inl retryable\<close> is the source's \<^verbatim>\<open>OperationalAlertError\<close>.
\<close>

datatype http_answer = TransportFailure | Answered int int

definition send_outcome :: "int \<Rightarrow> http_answer \<Rightarrow> bool + unit" where
  "send_outcome limit a = (case a of
      TransportFailure \<Rightarrow> Inl True
    | Answered status bytes \<Rightarrow>
        if limit < bytes then Inl False
        else if 200 \<le> status \<and> status < 300 then Inr ()
        else Inl (status \<in> {408, 425, 429} \<or> 500 \<le> status))"

datatype delivery_report = AlertsDisabled | AlertDelivered string string

definition deliver_alert ::
  "(string \<Rightarrow> string) \<Rightarrow> (string \<Rightarrow> string \<Rightarrow> string) \<Rightarrow> (string \<Rightarrow> time option) \<Rightarrow>
   ((string \<times> pyval) list \<Rightarrow> bool + unit) \<Rightarrow> alert_settings \<Rightarrow> (string \<times> pyval) list \<Rightarrow>
   job_exn + delivery_report" where
  "deliver_alert sha mac from_iso send st p =
    (if \<not> al_enabled st then Inr AlertsDisabled
     else case source_from_payload from_iso p of
       Inl e \<Rightarrow> Inl e
     | Inr s \<Rightarrow>
        (case send (build_envelope sha mac s (al_secret st)) of
           Inl retryable \<Rightarrow> Inl (if retryable then OtherError ''OperationalAlertError'' else PermanentJobError)
         | Inr _ \<Rightarrow> Inr (AlertDelivered (event_digest sha s) (event_name (as_event s)))))"

section \<open>Profile health\<close>

text \<open>
  The readiness probe's outcome: ready with its latency, not ready, a provider error with its code,
  or a configuration error (\<^verbatim>\<open>ValueError\<close>).
\<close>

datatype probe = Ready int | NotReady | HermesFailed pyval | BadConfiguration

datatype health_report = HDisabled | HSkipped | HHealthy int | HAlertQueued string

definition probe_category :: "probe \<Rightarrow> string" where
  "probe_category p = (case p of HermesFailed c \<Rightarrow> safe_category c
     | BadConfiguration \<Rightarrow> ''profile_configuration'' | _ \<Rightarrow> ''not_ready'')"

definition check_profile_health ::
  "alert_settings \<Rightarrow> (nat \<Rightarrow> ident) \<Rightarrow> (nat \<Rightarrow> bool) \<Rightarrow> ident \<Rightarrow> time \<Rightarrow> ident \<Rightarrow> probe \<Rightarrow> 'a alert_db_scheme \<Rightarrow>
   enqueue_error + ('a alert_db_scheme \<times> health_report)" where
  "check_profile_health st fresh fk eid now pid answer db =
    (if \<not> al_enabled st then Inr (db, HDisabled)
     else case tbl_find hp_id pid (ad_profiles db) of
       None \<Rightarrow> Inr (db, HSkipped)
     | Some p \<Rightarrow>
        if hp_provider p \<noteq> ''hermes'' \<or> hp_status p = ''disabled'' then Inr (db, HSkipped)
        else (case answer of
           Ready ms \<Rightarrow> Inr ((if hp_status p = ''degraded''
               then db\<lparr>ad_profiles := tbl_upd hp_id pid (\<lambda>r. r\<lparr>hp_status := ''active''\<rparr>) (ad_profiles db)\<rparr>
               else db), HHealthy ms)
         | _ \<Rightarrow>
            (let cat = probe_category answer;
                 err = \<lparr> e_id = eid, e_tenant_id = Some (hp_tenant_id p), e_service = ''hermes_health'',
                   e_severity = ''high'', e_message = ''Hermes profile health check failed'',
                   e_stack = None, e_metadata = PDict [(''category'', PStr cat), (''profile_id'', PStr pid)],
                   e_created_at = now \<rparr>;
                 db1 = db\<lparr>ad_profiles := tbl_upd hp_id pid (\<lambda>r. r\<lparr>hp_status := ''degraded''\<rparr>) (ad_profiles db),
                          error_rows := error_rows db @ [err]\<rparr>;
                 src = \<lparr> as_event = HealthFailure, as_source_type = ''system_error'', as_source_id = eid,
                   as_at = now, as_tenant = Some (hp_tenant_id p), as_category = cat \<rparr>
             in and_then (enqueue_alert_job fresh fk now st 0 src db1)
                  (\<lambda>(db2, _). Inr (db2, HAlertQueued cat)))))"

section \<open>Discovery admits each piece of evidence once and drains any backlog\<close>

definition source_key :: "alert_source \<Rightarrow> string" where
  "source_key s = alert_key (as_event s) (as_source_type s) (as_source_id s)"

lemma enqueue_alert_request [simp]: "q_key (alert_request st s) = source_key s"
  by (simp add: alert_request_def source_key_def)

interpretation alerts: admission source_key "\<lambda>s. request_ok (alert_request st s)"
    "enqueue_alert_job fresh fk now st" admitted job_inv
  for st fresh fk now
proof unfold_locales
  fix s :: alert_source and db db' :: "'a jobdb_scheme" and i b k
  show "request_ok (alert_request st s) \<Longrightarrow> admitted (source_key s) db \<Longrightarrow>
      enqueue_alert_job fresh fk now st i s db = Inr (db, False)"
    using admit_old[of "alert_request st s" db fresh fk now i] by (simp add: enqueue_alert_job_def)
  assume e: "enqueue_alert_job fresh fk now st i s db = Inr (db', b)"
  note a = e[unfolded enqueue_alert_job_def]
  show "admitted k db' \<longleftrightarrow> admitted k db \<or> k = source_key s"
    using jobs.put_has[OF a, of k] by simp
  show "b \<longleftrightarrow> \<not> admitted (source_key s) db" using jobs.put_new[OF a] by simp
  show "job_inv db \<Longrightarrow> job_inv db'" by (rule jobs.put_good[OF a])
qed

lemma alert_request_ok: "1 \<le> al_max_attempts st \<Longrightarrow> al_max_attempts st \<le> 100 \<Longrightarrow> request_ok (alert_request st s)"
  by (simp add: request_ok_def alert_request_def alert_key_def)

lemma alert_key_inj: "alert_key e t i = alert_key e t i' \<longleftrightarrow> i = i'"
  by (simp add: alert_key_def)

lemma enqueue_alert_more:
  "sweep (enqueue_alert_job fresh fk now st) i ss db = Inr (db', n) \<Longrightarrow> jobdb.more db' = jobdb.more db"
  by (induction ss arbitrary: i db n)
    (auto simp: and_then_Inr enqueue_alert_job_def dest: admit_more)

lemma more_fields:
  assumes "jobdb.more db' = jobdb.more (db :: 'a alert_db_scheme)"
  shows "ad_sync_runs db' = ad_sync_runs db" "ad_messages db' = ad_messages db"
    "ad_events db' = ad_events db" "ad_profiles db' = ad_profiles db"
  using assms by (cases db; cases db'; simp)+

text \<open>Evidence of different kinds never shares a key.\<close>

lemma source_key_kinds:
  "source_key (sync_source c r) = alert_key SyncFailure ''bumpa_sync_run'' (sr_id r)"
  "source_key (message_source m) = alert_key DeliveryFailure ''whatsapp_message'' (wm_id m)"
  "source_key (event_source db e) = alert_key DeliveryFailure ''whatsapp_delivery_event'' (we_id e)"
  "source_key (error_source x) = alert_key (error_event x) ''system_error'' (e_id x)"
  by (simp_all add: source_key_def sync_source_def message_source_def event_source_def error_source_def)

lemma alert_key_kinds:
  "alert_key SyncFailure ''bumpa_sync_run'' i \<noteq> alert_key DeliveryFailure t i'"
  "alert_key SyncFailure ''bumpa_sync_run'' i \<noteq> alert_key (error_event x) t i'"
  "alert_key DeliveryFailure ''whatsapp_message'' i \<noteq> alert_key DeliveryFailure ''whatsapp_delivery_event'' i'"
  "alert_key DeliveryFailure t i \<noteq> alert_key (error_event x) t' i'"
  by (simp_all add: alert_key_def event_name_def error_event_def)

lemma error_key_inj:
  "alert_key (error_event x) ''system_error'' i = alert_key (error_event y) ''system_error'' i' \<Longrightarrow>
   i = i' \<and> error_event x = error_event y"
  by (auto simp: alert_key_def event_name_def error_event_def split: if_splits)

lemma source_keys:
  "source_key ` set (alert_sources st now db) = (let c = alert_cutoff st now; n = nat (al_scan_limit st) in
     alert_key SyncFailure ''bumpa_sync_run'' ` sr_id ` set (take n (sync_pending c db))
     \<union> alert_key DeliveryFailure ''whatsapp_message'' ` wm_id ` set (take n (messages_pending c db))
     \<union> alert_key DeliveryFailure ''whatsapp_delivery_event'' ` we_id ` set (take n (events_pending c db))
     \<union> (\<lambda>x. alert_key (error_event x) ''system_error'' (e_id x)) ` set (take n (errors_pending c db)))"
  by (simp add: alert_sources_def Let_def image_Un image_image source_key_kinds Un_assoc)

lemma discover_sweep:
  assumes "al_enabled st" "discover_alerts st fresh fk now db = Inr (db', n)"
  shows "sweep (enqueue_alert_job fresh fk now st) 0 (alert_sources st now db) db = Inr (db', n)"
  using assms by (simp add: discover_alerts_def)

lemma errors_unchanged:
  "sweep (enqueue_alert_job fresh fk now st) i ss db = Inr (db', n) \<Longrightarrow> error_rows db' = error_rows db"
  by (induction ss arbitrary: i db n)
    (auto simp: and_then_Inr enqueue_alert_job_def elim!: admit_Inr enqueue_cases)

lemma errors_pending_alt:
  "errors_pending c db = query_by (\<lambda>e. (e_created_at e, e_id e))
     (\<lambda>e. c \<le> e_created_at e \<and> e_service e \<in> {''hermes'', ''hermes_health''}
        \<and> \<not> admitted (alert_key (error_event e) ''system_error'' (e_id e)) db) (error_rows db)"
  unfolding errors_pending_def
  by (rule query_by_cong) (auto simp: error_event_def not_already_alerted_def)

lemma error_admitted:
  assumes "distinct (map e_id (error_rows db))" "r \<in> set (error_rows db)"
  shows "alert_key (error_event r) ''system_error'' (e_id r)
      \<in> (\<lambda>x. alert_key (error_event x) ''system_error'' (e_id x)) ` set (take k (errors_pending c db))
    \<longleftrightarrow> e_id r \<in> e_id ` set (take k (errors_pending c db))" (is "?l \<longleftrightarrow> ?r")
proof
  assume ?l
  then show ?r by (auto dest: error_key_inj)
next
  assume ?r
  then obtain x where x: "x \<in> set (take k (errors_pending c db))" "e_id x = e_id r" by auto
  then have "x \<in> set (error_rows db)" by (auto simp: errors_pending_alt dest!: in_set_takeD)
  with assms x(2) have "x = r" by (auto simp: distinct_map dest: inj_onD)
  with x show ?l by blast
qed

text \<open>Alert discovery raises each piece of failure evidence once and drains any backlog. After a scan,
  what a scan over the same window would still find is, for failed or degraded syncs, failed outbound
  messages, failed delivery receipts and provider errors alike, exactly the old list without the
  entries the scan limit admitted, oldest first, so repeated scans reach every entry; and each
  admitted piece of evidence has one delivery job and no more.\<close>

theorem alerts_drain_backlog:
  assumes "job_inv db" "al_enabled st" "discover_alerts st fresh fk now db = Inr (db', n)"
    and "distinct (map sr_id (ad_sync_runs db))" "distinct (map wm_id (ad_messages db))"
    and "distinct (map we_id (ad_events db))" "distinct (map e_id (error_rows db))"
  defines "c \<equiv> alert_cutoff st now" and "k \<equiv> nat (al_scan_limit st)"
  shows "sync_pending c db' = drop k (sync_pending c db)
    \<and> messages_pending c db' = drop k (messages_pending c db)
    \<and> events_pending c db' = drop k (events_pending c db)
    \<and> errors_pending c db' = drop k (errors_pending c db)
    \<and> (\<forall>s \<in> set (alert_sources st now db).
         \<exists>!j. j \<in> set (job_rows db') \<and> job_key j = (''default'', source_key s))"
proof -
  note sw = discover_sweep[OF assms(2,3)]
  note rows = more_fields[OF enqueue_alert_more[OF sw]] errors_unchanged[OF sw]
  have adm: "admitted key db' \<longleftrightarrow> admitted key db \<or> key \<in> source_key ` set (alert_sources st now db)" for key
    by (rule alerts.sweep_has[OF sw])
  note keys = adm source_keys Let_def c_def[symmetric] k_def[symmetric]
  have "sync_pending c db' = drop k (sync_pending c db)"
    unfolding sync_pending_def[of c db'] rows
    using assms(4) unfolding sync_pending_def[of c db]
    by (rule query_by_rest)
      (auto simp: not_already_alerted_def keys alert_key_inj alert_key_kinds image_iff sync_pending_def)
  moreover have "messages_pending c db' = drop k (messages_pending c db)"
    unfolding messages_pending_def[of c db'] rows
    using assms(5) unfolding messages_pending_def[of c db]
    by (rule query_by_rest)
      (auto simp: not_already_alerted_def keys alert_key_inj alert_key_kinds alert_key_kinds[symmetric]
        image_iff messages_pending_def)
  moreover have "events_pending c db' = drop k (events_pending c db)"
    unfolding events_pending_def[of c db'] rows
    using assms(6) unfolding events_pending_def[of c db]
    by (rule query_by_rest)
      (auto simp: not_already_alerted_def keys alert_key_inj alert_key_kinds alert_key_kinds[symmetric]
        image_iff events_pending_def)
  moreover have "errors_pending c db' = drop k (errors_pending c db)"
    unfolding errors_pending_alt[of c db'] rows
    using assms(7)
    unfolding errors_pending_alt[of c db, symmetric]
  proof (subst errors_pending_alt[of c db], rule query_by_rest)
    fix r assume "r \<in> set (error_rows db)"
    note e = error_admitted[OF assms(7) this, of k c]
    show "(c \<le> e_created_at r \<and> e_service r \<in> {''hermes'', ''hermes_health''}
        \<and> \<not> admitted (alert_key (error_event r) ''system_error'' (e_id r)) db') \<longleftrightarrow>
      (c \<le> e_created_at r \<and> e_service r \<in> {''hermes'', ''hermes_health''}
        \<and> \<not> admitted (alert_key (error_event r) ''system_error'' (e_id r)) db)
      \<and> e_id r \<notin> e_id ` set (take k (query_by (\<lambda>e. (e_created_at e, e_id e))
          (\<lambda>e. c \<le> e_created_at e \<and> e_service e \<in> {''hermes'', ''hermes_health''}
            \<and> \<not> admitted (alert_key (error_event e) ''system_error'' (e_id e)) db) (error_rows db)))"
      unfolding errors_pending_alt[of c db, symmetric] keys
      using e by (auto simp: alert_key_kinds alert_key_kinds[symmetric])
  qed
  moreover have "\<exists>!j. j \<in> set (job_rows db') \<and> job_key j = (''default'', source_key s)"
    if "s \<in> set (alert_sources st now db)" for s
    using alerts.sweep_good[OF sw assms(1)] that adm by (intro admitted_unique) auto
  ultimately show ?thesis by blast
qed

section \<open>What discovery admits, delivery accepts\<close>

lemma event_of_name [simp]: "event_of (event_name e) = Some e"
  by (cases e) (simp_all add: event_of_def event_name_def)

lemma safe_category_safe: "safe_token (safe_category v)"
proof (cases v)
  case (PStr s)
  have "safe_token ''provider_failure''" by code_simp
  with PStr show ?thesis by (simp add: safe_category_def)
qed (simp_all add: safe_category_def, code_simp+)

lemma failed_status_safe: "s \<in> set failed_statuses \<Longrightarrow> safe_token s"
proof -
  have "list_all safe_token failed_statuses" by code_simp
  then show "s \<in> set failed_statuses \<Longrightarrow> safe_token s" by (simp add: list_all_iff)
qed

lemma source_tokens_safe:
  assumes "s \<in> set (alert_sources st now db)"
  shows "safe_token (as_category s) \<and> safe_token (as_source_type s)"
proof -
  have c: "safe_token ''degraded''" "safe_token ''failed''" "safe_token ''undeliverable''"
    "safe_token ''bumpa_sync_run''" "safe_token ''whatsapp_message''"
    "safe_token ''whatsapp_delivery_event''" "safe_token ''system_error''"
    by code_simp+
  from assms show ?thesis
    by (auto simp: alert_sources_def Let_def sync_source_def message_source_def event_source_def
        error_source_def c safe_category_safe failed_status_safe)
qed

text \<open>Every alert job that discovery admits carries a payload delivery accepts: validation returns the
  very source that was discovered, so the job's outcome depends on the destination alone: it is
  delivered when the destination answers with success, retried when the failure is transient, and
  buried when the destination rejects it.\<close>

theorem alert_payload_accepted:
  assumes "s \<in> set (alert_sources st now db)" and "al_enabled st"
    and "1 \<le> length (as_source_id s)" "length (as_source_id s) \<le> 160"
    and "\<And>x. as_tenant s = Some x \<Longrightarrow> length x \<le> 160"
    and "from_iso (iso_instant (as_at s)) = Some (as_at s)"
    and "q_payload (alert_request st s) = PDict p"
  shows "source_from_payload from_iso p = Inr s
    \<and> deliver_alert sha mac from_iso (\<lambda>env. send_outcome limit answer) st p =
       (case send_outcome limit answer of
          Inr _ \<Rightarrow> Inr (AlertDelivered (event_digest sha s) (event_name (as_event s)))
        | Inl True \<Rightarrow> Inl (OtherError ''OperationalAlertError'')
        | Inl False \<Rightarrow> Inl PermanentJobError)"
proof -
  have p: "p = [(''event_type'', PStr (event_name (as_event s))),
     (''source_type'', PStr (as_source_type s)), (''source_id'', PStr (as_source_id s)),
     (''occurred_at'', PStr (iso_instant (as_at s))), (''tenant_id'', opt_str (as_tenant s)),
     (''category'', PStr (as_category s))]"
    using assms(7) by (simp add: alert_request_def alert_payload_def)
  have look: "dict_get p ''event_type'' = PStr (event_name (as_event s))"
    "dict_get p ''source_type'' = PStr (as_source_type s)"
    "dict_get p ''source_id'' = PStr (as_source_id s)"
    "dict_get p ''occurred_at'' = PStr (iso_instant (as_at s))"
    "dict_get p ''tenant_id'' = opt_str (as_tenant s)" "dict_get p ''category'' = PStr (as_category s)"
    by (simp_all add: p dict_get_def)
  have safe: "safe_token (as_source_type s)" "safe_category (PStr (as_category s)) = as_category s"
    using source_tokens_safe[OF assms(1)] by (simp_all add: safe_category_def)
  have v: "source_from_payload from_iso p = Inr s"
    using assms(3-6) safe
    by (cases "as_tenant s") (simp_all add: source_from_payload_def look opt_str_def Let_def)
  with assms(2) show ?thesis
    by (cases "send_outcome limit answer") (auto simp: deliver_alert_def)
qed

section \<open>A scan of a concrete database\<close>

definition ex_error :: "ident \<Rightarrow> time \<Rightarrow> system_error" where
  "ex_error i t = \<lparr> e_id = i, e_tenant_id = Some ''t1'', e_service = ''hermes'', e_severity = ''high'',
     e_message = ''m'', e_stack = None, e_metadata = PDict [(''category'', PStr ''timeout'')],
     e_created_at = t \<rparr>"

definition ex_alert_db :: alert_db where
  "ex_alert_db = \<lparr> job_rows = [], outbox_rows = [],
     error_rows = [ex_error ''e2'' 20, ex_error ''e1'' 10], ad_sync_runs = [], ad_messages = [],
     ad_events = [], ad_profiles = [] \<rparr>"

definition ex_alert_settings :: alert_settings where
  "ex_alert_settings = \<lparr> al_enabled = True, al_lookback_hours = 1, al_scan_limit = 1,
     al_max_attempts = 3, al_secret = ''s'' \<rparr>"

definition ex_alert_fresh :: "nat \<Rightarrow> ident" where
  "ex_alert_fresh i = ''job'' @ show_nat i"

definition ex_alert_after :: alert_db where
  "ex_alert_after = (case discover_alerts ex_alert_settings ex_alert_fresh (\<lambda>_. True) 30 ex_alert_db of
     Inr (db, _) \<Rightarrow> db | Inl _ \<Rightarrow> ex_alert_db)"

lemma ex_discover:
  "discover_alerts ex_alert_settings ex_alert_fresh (\<lambda>_. True) 30 ex_alert_db = Inr (ex_alert_after, 1)"
  by code_simp

lemma ex_alert_sources:
  "alert_sources ex_alert_settings 30 ex_alert_db = [error_source (ex_error ''e1'' 10)]"
  by code_simp

theorem alerts_drain_backlog_witness:
  "errors_pending (alert_cutoff ex_alert_settings 30) ex_alert_after = [ex_error ''e2'' 20]"
proof -
  have inv: "job_inv ex_alert_db"
    by (simp add: job_inv_def ex_alert_db_def get_job_def tbl_find_def)
  have en: "al_enabled ex_alert_settings" by (simp add: ex_alert_settings_def)
  have d: "distinct (map sr_id (ad_sync_runs ex_alert_db))" "distinct (map wm_id (ad_messages ex_alert_db))"
    "distinct (map we_id (ad_events ex_alert_db))" "distinct (map e_id (error_rows ex_alert_db))"
    by (simp_all add: ex_alert_db_def ex_error_def)
  have e: "errors_pending (alert_cutoff ex_alert_settings 30) ex_alert_db =
      [ex_error ''e1'' 10, ex_error ''e2'' 20]"
    by code_simp
  show ?thesis
    using alerts_drain_backlog[OF inv en ex_discover d] e by (simp add: ex_alert_settings_def)
qed

theorem alert_payload_accepted_witness:
  "deliver_alert (\<lambda>x. x) (\<lambda>k x. x) (\<lambda>_. Some 10) (\<lambda>env. send_outcome 100 (Answered 204 0))
     ex_alert_settings (case alert_payload (error_source (ex_error ''e1'' 10)) of PDict p \<Rightarrow> p | _ \<Rightarrow> []) =
   Inr (AlertDelivered (event_digest (\<lambda>x. x) (error_source (ex_error ''e1'' 10))) ''hermes_call_failure'')"
proof -
  let ?s = "error_source (ex_error ''e1'' 10)"
  let ?p = "case alert_payload ?s of PDict p \<Rightarrow> p | _ \<Rightarrow> []"
  have "?s \<in> set (alert_sources ex_alert_settings 30 ex_alert_db)" by (simp add: ex_alert_sources)
  moreover have "al_enabled ex_alert_settings" by (simp add: ex_alert_settings_def)
  moreover have "1 \<le> length (as_source_id ?s)" "length (as_source_id ?s) \<le> 160"
    "\<And>x. as_tenant ?s = Some x \<Longrightarrow> length x \<le> 160"
    by (simp_all add: error_source_def ex_error_def)
  moreover have "(\<lambda>_::string. Some (10::int)) (iso_instant (as_at ?s)) = Some (as_at ?s)"
    by (simp add: error_source_def ex_error_def)
  moreover have "q_payload (alert_request ex_alert_settings ?s) = PDict ?p"
    by (simp add: alert_request_def alert_payload_def)
  ultimately have "deliver_alert (\<lambda>x. x) (\<lambda>k x. x) (\<lambda>_. Some 10)
      (\<lambda>env. send_outcome 100 (Answered 204 0)) ex_alert_settings ?p =
    (case send_outcome 100 (Answered 204 0) of
          Inr _ \<Rightarrow> Inr (AlertDelivered (event_digest (\<lambda>x. x) ?s) (event_name (as_event ?s)))
        | Inl True \<Rightarrow> Inl (OtherError ''OperationalAlertError'')
        | Inl False \<Rightarrow> Inl PermanentJobError)"
    by (intro alert_payload_accepted[THEN conjunct2])
  then show ?thesis
    by (simp add: send_outcome_def error_source_def ex_error_def error_event_def event_name_def)
qed

end
