(* ===== verification/Scheduler.thy ===== *)
theory Scheduler
  imports JobExamples Alerts
begin

text \<open>
  The scheduler (\<^verbatim>\<open>app/jobs/scheduler.py\<close>): one cycle admits the periodic jobs that are due and then
  recovers stale claims, lost wake-ups and dispatches. Every admission goes through \<open>enqueue_job\<close>
  with an idempotency key that names the slot (a UTC minute, a store-local day, a cadence slot, an
  alert interval), so repeating a cycle admits nothing new.

  \<^item> \<open>zone\<close> is the time-zone database: the offset-adjusted local clock of a zone name, or \<open>None\<close> for
    a name \<^verbatim>\<open>ZoneInfo\<close> rejects.
  \<^item> Fresh identifiers come from \<open>fresh\<close>, indexed by the phase of the cycle and the row of its sweep.
    All admissions stay in one transaction, so an exception undoes them all.
\<close>

record sched_settings =
  s_app_env :: string
  s_retention_batch :: int
  s_sync_enabled :: bool
  s_sync_hour :: int
  s_sync_window_days :: int
  s_proactive :: bool
  s_daily :: bool
  s_weekly :: bool
  s_alerts :: alert_settings
  s_health_interval_minutes :: int

record sched_db = alert_db +
  sd_tenants :: "tenant list"
  sd_connections :: "bumpa_connection list"
  sd_subscriptions :: "subscription list"
  sd_runs :: "agent_run list"

type_synonym zone_db = "string \<Rightarrow> (time \<Rightarrow> time) option"

section \<open>What is due\<close>

definition run_recovery_requests :: "sched_settings \<Rightarrow> time \<Rightarrow> agent_run list \<Rightarrow> job_request list" where
  "run_recovery_requests st now runs =
    (if \<exists>r \<in> set runs. ar_status r \<in> {RRunning, RExpired, RReconciling} \<and> ar_expires_at r \<le> now
     then [\<lparr> q_kind = ''system.reconcile_expired_runs'', q_tenant = None,
        q_key = ''run-recovery:'' @ s_app_env st @ '':'' @ minute_slot now,
        q_payload = PDict [(''limit'', PInt 25), (''environment_lane'', PStr (s_app_env st))],
        q_max_attempts = 1 \<rparr>]
     else [])"

definition maintenance_requests :: "sched_settings \<Rightarrow> time \<Rightarrow> job_request list" where
  "maintenance_requests st now =
    (if s_app_env st \<noteq> ''production'' then []
     else [\<lparr> q_kind = ''research.cleanup_expired_artifacts'', q_tenant = None,
             q_key = ''research-retention:'' @ iso_date (day_of now),
             q_payload = PDict [(''limit'', PInt 1000)], q_max_attempts = 3 \<rparr>,
           \<lparr> q_kind = ''system.cleanup_operational_history'', q_tenant = None,
             q_key = ''operational-retention:'' @ iso_date (day_of now),
             q_payload = PDict [(''limit'', PInt (s_retention_batch st))], q_max_attempts = 3 \<rparr>])"

definition active_connections :: "sched_db \<Rightarrow> bumpa_connection list" where
  "active_connections db = query_by bc_id
     (\<lambda>c. bc_status c = ''active''
        \<and> (\<exists>t \<in> set (sd_tenants db). tn_id t = bc_tenant_id c \<and> tn_status t = TActive))
     (sd_connections db)"

definition sync_key :: "bumpa_connection \<Rightarrow> int \<Rightarrow> string" where
  "sync_key c day = ''scheduled-bumpa-sync:'' @ bc_id c @ '':''
     @ show_int (bc_boundary_revision c) @ '':'' @ iso_date day"

definition sync_request :: "sched_settings \<Rightarrow> bumpa_connection \<Rightarrow> int \<Rightarrow> job_request" where
  "sync_request st c day = (let upto = day - 1; since = upto - (s_sync_window_days st - 1) in
     \<lparr> q_kind = ''bumpa.sync'', q_tenant = Some (bc_tenant_id c), q_key = sync_key c day,
       q_payload = PDict [(''tenant_id'', PStr (bc_tenant_id c)), (''connection_id'', PStr (bc_id c)),
         (''boundary_revision'', PInt (bc_boundary_revision c)),
         (''date_from'', PStr (iso_date since)), (''date_to'', PStr (iso_date upto))],
       q_max_attempts = 5 \<rparr>)"

text \<open>The local day of a connection when its refresh is due; an unknown zone is skipped.\<close>

definition sync_day :: "sched_settings \<Rightarrow> zone_db \<Rightarrow> time \<Rightarrow> bumpa_connection \<Rightarrow> int option" where
  "sync_day st zone now c = (case zone (bc_store_timezone c) of
      None \<Rightarrow> None
    | Some local \<Rightarrow> if hour_of (local now) < s_sync_hour st then None else Some (day_of (local now)))"

definition sync_requests :: "sched_settings \<Rightarrow> zone_db \<Rightarrow> time \<Rightarrow> sched_db \<Rightarrow> job_request list" where
  "sync_requests st zone now db =
    (if \<not> s_sync_enabled st then []
     else List.map_filter (\<lambda>c. map_option (sync_request st c) (sync_day st zone now c))
       (active_connections db))"

definition cadence_name :: "cadence \<Rightarrow> string" where
  "cadence_name c = (case c of Daily \<Rightarrow> ''daily'' | Weekly \<Rightarrow> ''weekly'')"

definition subscription_slot :: "zone_db \<Rightarrow> time \<Rightarrow> subscription \<Rightarrow> string option" where
  "subscription_slot zone now sb =
    (if sb_status sb \<noteq> ''active'' then None
     else case zone (sb_timezone sb) of
       None \<Rightarrow> None
     | Some local \<Rightarrow>
        (let l = local now; wd = weekday (day_of l) in
         case sb_cadence sb of
           Daily \<Rightarrow> if sb_local_hour sb \<le> hour_of l then Some (iso_date (day_of l)) else None
         | Weekly \<Rightarrow>
             if wd < sb_weekday sb \<or> (wd = sb_weekday sb \<and> hour_of l < sb_local_hour sb) then None
             else (case iso_week (day_of l) of (y, w) \<Rightarrow>
               Some (zpad 4 (nat y) @ ''-W'' @ zpad 2 (nat w)))))"

definition insight_request :: "subscription \<Rightarrow> string \<Rightarrow> job_request" where
  "insight_request sb slot = \<lparr> q_kind = ''whatsapp.proactive_insight'',
     q_tenant = Some (sb_tenant_id sb),
     q_key = ''proactive:'' @ sb_id sb @ '':'' @ show_int (sb_revision sb) @ '':'' @ slot,
     q_payload = PDict [(''tenant_id'', PStr (sb_tenant_id sb)),
       (''cadence'', PStr (cadence_name (sb_cadence sb))), (''slot'', PStr slot),
       (''subscription_id'', PStr (sb_id sb)), (''subscription_revision'', PInt (sb_revision sb))],
     q_max_attempts = 3 \<rparr>"

definition insight_requests :: "sched_settings \<Rightarrow> zone_db \<Rightarrow> time \<Rightarrow> sched_db \<Rightarrow> job_request list" where
  "insight_requests st zone now db =
    (if \<not> s_proactive st then []
     else List.map_filter (\<lambda>sb.
         if sb_cadence sb = Daily \<and> \<not> s_daily st \<or> sb_cadence sb = Weekly \<and> \<not> s_weekly st then None
         else map_option (insight_request sb) (subscription_slot zone now sb))
       (filter (\<lambda>sb. sb_status sb = ''active'') (sd_subscriptions db)))"

definition health_requests :: "sched_settings \<Rightarrow> time \<Rightarrow> sched_db \<Rightarrow> job_request list" where
  "health_requests st now db =
    (let slot = (now div 1000000) div (s_health_interval_minutes st * 60) in
       map (\<lambda>p. \<lparr> q_kind = ''ops.hermes_health'', q_tenant = Some (hp_tenant_id p),
           q_key = ''hermes-health:'' @ hp_id p @ '':'' @ show_int slot,
           q_payload = PDict [(''profile_id'', PStr (hp_id p))], q_max_attempts = 1 \<rparr>)
         (take (nat (al_scan_limit (s_alerts st))) (query_by hp_id
           (\<lambda>p. hp_provider p = ''hermes'' \<and> hp_status p \<in> {''active'', ''degraded'', ''provisioning''})
           (ad_profiles db))))"

section \<open>The cycle\<close>

text \<open>Where a phase's new rows come from: their identifiers and whether the referenced tenant exists.\<close>

type_synonym id_supply = "nat \<Rightarrow> ((nat \<Rightarrow> ident) \<times> (nat \<Rightarrow> bool))"

definition admit_requests ::
  "id_supply \<Rightarrow> nat \<Rightarrow> time \<Rightarrow> job_request list \<Rightarrow> 'a jobdb_scheme \<Rightarrow> enqueue_error + ('a jobdb_scheme \<times> int)" where
  "admit_requests ids phase now rs db = sweep (admit (fst (ids phase)) (snd (ids phase)) now) 0 rs db"

definition ensure_daily_maintenance ::
  "sched_settings \<Rightarrow> id_supply \<Rightarrow> time \<Rightarrow> sched_db \<Rightarrow> enqueue_error + (sched_db \<times> int)" where
  "ensure_daily_maintenance st ids now db = admit_requests ids 0 now (maintenance_requests st now) db"

definition ensure_run_recovery ::
  "sched_settings \<Rightarrow> id_supply \<Rightarrow> time \<Rightarrow> sched_db \<Rightarrow> enqueue_error + (sched_db \<times> int)" where
  "ensure_run_recovery st ids now db =
     admit_requests ids 1 now (run_recovery_requests st now (sd_runs db)) db"

definition ensure_bumpa_sync ::
  "sched_settings \<Rightarrow> zone_db \<Rightarrow> id_supply \<Rightarrow> time \<Rightarrow> sched_db \<Rightarrow> enqueue_error + (sched_db \<times> int)" where
  "ensure_bumpa_sync st zone ids now db = admit_requests ids 2 now (sync_requests st zone now db) db"

definition ensure_insights ::
  "sched_settings \<Rightarrow> zone_db \<Rightarrow> id_supply \<Rightarrow> time \<Rightarrow> sched_db \<Rightarrow> enqueue_error + (sched_db \<times> int)" where
  "ensure_insights st zone ids now db = admit_requests ids 3 now (insight_requests st zone now db) db"

definition ensure_alerts ::
  "sched_settings \<Rightarrow> id_supply \<Rightarrow> time \<Rightarrow> sched_db \<Rightarrow> enqueue_error + (sched_db \<times> int)" where
  "ensure_alerts st ids now db =
    (if \<not> al_enabled (s_alerts st) then Inr (db, 0)
     else and_then (discover_alerts (s_alerts st) (fst (ids 4)) (snd (ids 4)) now db) (\<lambda>(db1, n).
          and_then (admit_requests ids 5 now (health_requests st now db1) db1) (\<lambda>(db2, m).
          Inr (db2, n + m))))"

text \<open>
  \<open>clk\<close> gives the clock of the dispatch iterations; \<open>held\<close> and \<open>pub\<close> are the locks of other
  transactions and the answers of Redis. The counts are the scheduled refreshes, recovered claims,
  recovered wake-ups and published wake-ups.
\<close>

definition cycle_admissions ::
  "sched_settings \<Rightarrow> zone_db \<Rightarrow> id_supply \<Rightarrow> time \<Rightarrow> sched_db \<Rightarrow> enqueue_error + (sched_db \<times> int)" where
  "cycle_admissions st zone ids now db =
     and_then (ensure_daily_maintenance st ids now db) (\<lambda>(db1, _).
     and_then (ensure_run_recovery st ids now db1) (\<lambda>(db2, _).
     and_then (ensure_bumpa_sync st zone ids now db2) (\<lambda>(db3, synced).
     and_then (ensure_insights st zone ids now db3) (\<lambda>(db4, _).
     and_then (ensure_alerts st ids now db4) (\<lambda>(db5, _). Inr (db5, synced))))))"

definition cycle_recovery ::
  "runtime_config \<Rightarrow> (nat \<Rightarrow> ident) \<Rightarrow> (ident \<Rightarrow> bool) \<Rightarrow> time \<Rightarrow> sched_db \<Rightarrow> sched_db \<times> int \<times> int" where
  "cycle_recovery cfg eids skip now db =
    (case recover_stale_jobs db cfg eids skip now of (db6, recovered) \<Rightarrow>
     case recover_stale_wakeups db6 cfg skip now of (db7, wakeups) \<Rightarrow> (db7, recovered, wakeups))"

definition run_cycle ::
  "sched_settings \<Rightarrow> runtime_config \<Rightarrow> zone_db \<Rightarrow> id_supply \<Rightarrow> (nat \<Rightarrow> ident) \<Rightarrow> (ident \<Rightarrow> bool) \<Rightarrow>
   (nat \<Rightarrow> job_exn option) \<Rightarrow> (nat \<Rightarrow> ident \<Rightarrow> bool) \<Rightarrow> time \<Rightarrow> (nat \<Rightarrow> time) \<Rightarrow> sched_db \<Rightarrow> ident list \<Rightarrow>
   enqueue_error + ((int \<times> int \<times> int \<times> int) \<times> sched_db \<times> ident list)" where
  "run_cycle st cfg zone ids eids skip pub held now clk db wake =
     and_then (cycle_admissions st zone ids now db) (\<lambda>(db5, synced).
       case cycle_recovery cfg eids skip now db5 of (db7, recovered, wakeups) \<Rightarrow>
       case dispatch_due_jobs cfg pub held clk (c_dispatch_batch cfg) db7 wake of
         (dispatched, db8, wake') \<Rightarrow> Inr ((synced, recovered, wakeups, dispatched), db8, wake'))"

section \<open>Slots and their keys\<close>

lemma show_int_no_colon: "CHR '':'' \<notin> set (show_int i)"
proof
  assume "CHR '':'' \<in> set (show_int i)"
  then have "is_digit (CHR '':'')" using show_nat_digits by (auto simp: show_int_def split: if_splits)
  then show False by (simp add: is_digit_def code_def)
qed

text \<open>The part after the last colon identifies the day, the part before it the revision.\<close>

lemma append_colon_inj:
  "a @ '':'' @ b = a' @ '':'' @ b' \<Longrightarrow> CHR '':'' \<notin> set b \<Longrightarrow> CHR '':'' \<notin> set b' \<Longrightarrow> a = a' \<and> b = b'"
proof (induction a arbitrary: a')
  case Nil
  then show ?case by (cases a') (auto dest: arg_cong[of _ _ set])
next
  case (Cons x a)
  then show ?case by (cases a') (auto dest: arg_cong[of _ _ set])
qed

lemma sync_key_inj:
  assumes "sync_key c d = sync_key c' d'" "1 \<le> d" "1 \<le> d'"
  shows "bc_id c = bc_id c' \<and> bc_boundary_revision c = bc_boundary_revision c' \<and> d = d'"
proof -
  have "(bc_id c @ '':'' @ show_int (bc_boundary_revision c)) @ '':'' @ iso_date d =
      (bc_id c' @ '':'' @ show_int (bc_boundary_revision c')) @ '':'' @ iso_date d'"
    using assms(1) by (simp add: sync_key_def)
  from append_colon_inj[OF this] have "bc_id c @ '':'' @ show_int (bc_boundary_revision c) =
      bc_id c' @ '':'' @ show_int (bc_boundary_revision c')" "iso_date d = iso_date d'"
    by simp_all
  with append_colon_inj[OF this(1)] iso_date_inj[OF this(2) assms(2,3)] show ?thesis
    by (auto simp: show_int_no_colon dest: show_int_inj)
qed

lemma sync_request_in:
  assumes "s_sync_enabled st" "c \<in> set (active_connections db)" "sync_day st zone now c = Some d"
  shows "sync_request st c d \<in> set (sync_requests st zone now db)"
  using assms by (auto simp: sync_requests_def List.map_filter_def intro!: image_eqI[of _ _ c])

lemma sync_requests_keys:
  assumes "r \<in> set (sync_requests st zone now db)"
  obtains c d where "c \<in> set (active_connections db)" "sync_day st zone now c = Some d"
    "r = sync_request st c d"
  using assms by (auto simp: sync_requests_def List.map_filter_def split: if_splits)

lemma sync_requests_ok: "r \<in> set (sync_requests st zone now db) \<Longrightarrow> request_ok r"
  by (erule sync_requests_keys) (simp add: sync_request_def Let_def request_ok_def sync_key_def)

lemma sync_request_key [simp]: "q_key (sync_request st c d) = sync_key c d"
  by (simp add: sync_request_def Let_def)

section \<open>One refresh per connection and local day\<close>

lemma sched_more:
  assumes "jobdb.more db' = jobdb.more (db :: sched_db)"
  shows "sd_connections db' = sd_connections db" "sd_tenants db' = sd_tenants db"
    "sd_subscriptions db' = sd_subscriptions db" "ad_profiles db' = ad_profiles db"
    "sd_runs db' = sd_runs db"
  using assms by (cases db; cases db'; simp)+

lemma active_connections_more:
  "jobdb.more db' = jobdb.more db \<Longrightarrow> active_connections db' = active_connections db"
  using sched_more(1,2)[of db' db] by (simp add: active_connections_def)

lemma map_filter_same:
  "(\<And>x. x \<in> set xs \<Longrightarrow> f x = g x) \<Longrightarrow> List.map_filter f xs = List.map_filter g xs"
  by (induction xs) (simp_all add: List.map_filter_simps split: option.split)

text \<open>The scheduler admits one refresh per store connection, scope revision and store-local day. After
  the sweep every connection whose local hour has come owns exactly one job for its day; sweeping
  again, at any later moment that lies in the same local days, admits nothing and changes nothing;
  and the job keys of two connections, revisions or days are different.\<close>

theorem sync_once_per_day:
  assumes "job_inv db" and "s_sync_enabled st" and "ensure_bumpa_sync st zone ids now db = Inr (db', n)"
    and "\<And>c. c \<in> set (active_connections db) \<Longrightarrow> sync_day st zone now' c = sync_day st zone now c"
    and "c \<in> set (active_connections db)" and "sync_day st zone now c = Some d"
  shows "(\<exists>!j. j \<in> set (job_rows db') \<and> job_key j = (''default'', sync_key c d))
    \<and> ensure_bumpa_sync st zone ids' now' db' = Inr (db', 0)
    \<and> (1 \<le> d \<longrightarrow> 1 \<le> d' \<longrightarrow> sync_key c' d' = sync_key c d \<longrightarrow>
         bc_id c' = bc_id c \<and> bc_boundary_revision c' = bc_boundary_revision c \<and> d' = d)"
proof -
  note sw = assms(3)[unfolded ensure_bumpa_sync_def admit_requests_def]
  have adm: "admitted key db' \<longleftrightarrow> admitted key db \<or> key \<in> q_key ` set (sync_requests st zone now db)" for key
    by (rule jobs.sweep_has[OF sw])
  have "sync_key c d \<in> q_key ` set (sync_requests st zone now db)"
    using sync_request_in[OF assms(2,5,6)] by (metis image_eqI sync_request_key)
  then have one: "\<exists>!j. j \<in> set (job_rows db') \<and> job_key j = (''default'', sync_key c d)"
    using adm by (intro admitted_unique jobs.sweep_good[OF sw assms(1)]) blast
  have same: "sync_requests st zone now' db' = sync_requests st zone now db"
    unfolding sync_requests_def active_connections_more[OF sweep_more[OF sw]]
    by (simp add: assms(4) cong: map_filter_same)
  have "ensure_bumpa_sync st zone ids' now' db' = Inr (db', 0)"
    unfolding ensure_bumpa_sync_def admit_requests_def same
    by (rule jobs.sweep_repeat) (auto simp: sync_requests_ok adm)
  with one show ?thesis by (auto dest: sync_key_inj)
qed

section \<open>A due refresh is woken in the same cycle\<close>

lemma recover_one_keeps_rows:
  assumes "has_rows jid j ob db" "j_id x \<noteq> jid"
  shows "has_rows jid j ob (recover_one eid now x db)"
proof -
  have "get_outbox (reopen_outbox x due now db1) jid = get_outbox db1 jid" for due and db1 :: "'a jobdb_scheme"
    using assms(2)
    by (auto simp: reopen_outbox_def Let_def get_outbox_def set_outbox_def tbl_find_upd tbl_find_append
        split: option.splits)
  with assms show ?thesis
    by (simp add: has_rows_def recover_one_def row_simps get_job_reopen record_terminal_failure_def)
qed

lemma recover_all_keeps_rows:
  "has_rows jid j ob db \<Longrightarrow> jid \<notin> j_id ` set js \<Longrightarrow> has_rows jid j ob (recover_all eids now i js db)"
  by (induction eids now i js db rule: recover_all.induct) (auto intro: recover_one_keeps_rows)

lemma recover_keeps_rows:
  assumes "job_inv db" "has_rows jid j ob db" "j_status j \<noteq> JRunning"
    and "recover_stale_jobs db cfg eids held now = (db', n)"
  shows "has_rows jid j ob db'"
proof -
  have "jid \<notin> j_id ` set (stale_jobs db cfg held now)"
  proof
    assume "jid \<in> j_id ` set (stale_jobs db cfg held now)"
    then obtain x where x: "x \<in> set (job_rows db)" "j_status x = JRunning" "j_id x = jid"
      by (auto simp: stale_jobs_def dest!: in_set_takeD)
    with get_job_in[OF assms(1) x(1)] assms(2,3) show False by (auto simp: has_rows_def)
  qed
  with assms(2,4) show ?thesis by (auto simp: recover_stale_jobs_def Let_def intro: recover_all_keeps_rows)
qed

lemma rewake_keeps_rows:
  assumes "has_rows jid j ob db" "jid \<notin> o_job_id ` set obs"
  shows "has_rows jid j ob (fold (rewake now) obs db)"
  using assms
proof (induction obs arbitrary: db)
  case (Cons x obs)
  have "has_rows jid j ob (rewake now x db)"
    using Cons.prems by (auto simp: rewake_def has_rows_def row_simps)
  with Cons show ?case by simp
qed simp

lemma wakeups_keep_rows:
  assumes "has_rows jid j ob db" "j_status j \<noteq> JQueued"
    and "recover_stale_wakeups db cfg held now = (db', n)"
  shows "has_rows jid j ob db'"
proof -
  have "jid \<notin> o_job_id ` set (lost_wakeups db cfg held now)"
    using assms(1,2) by (auto simp: lost_wakeups_def has_rows_def dest!: in_set_takeD split: option.splits)
  with assms show ?thesis by (auto simp: recover_stale_wakeups_def Let_def intro: rewake_keeps_rows)
qed

lemma admit_requests_keep:
  assumes "admit_requests ids phase now rs db = Inr (db', n)"
  shows "job_inv db \<Longrightarrow> job_inv db'" "has_rows jid j ob db \<Longrightarrow> has_rows jid j ob db'"
    "jobdb.more db' = jobdb.more db"
    "admitted key db' \<longleftrightarrow> admitted key db \<or> key \<in> q_key ` set rs"
proof -
  note sw = assms[unfolded admit_requests_def]
  show "job_inv db \<Longrightarrow> job_inv db'" by (rule jobs.sweep_good[OF sw])
  show "has_rows jid j ob db \<Longrightarrow> has_rows jid j ob db'" by (rule sweep_keeps_rows[OF sw])
  show "jobdb.more db' = jobdb.more db" by (rule sweep_more[OF sw])
  show "admitted key db' \<longleftrightarrow> admitted key db \<or> key \<in> q_key ` set rs" by (rule jobs.sweep_has[OF sw])
qed

lemma discover_keeps:
  assumes "discover_alerts st fresh fk now db = Inr (db', n)"
  shows "job_inv db \<Longrightarrow> job_inv db'" "has_rows jid j ob db \<Longrightarrow> has_rows jid j ob db'"
proof -
  have step: "has_rows jid j ob d'" if "enqueue_alert_job fresh fk now st i s d = Inr (d', b)"
    "has_rows jid j ob d" for i s b and d d' :: "'a alert_db_scheme"
    using that unfolding enqueue_alert_job_def by (rule admit_keeps_rows)
  consider (off) "db' = db"
    | (on) "sweep (enqueue_alert_job fresh fk now st) 0 (alert_sources st now db) db = Inr (db', n)"
    using assms unfolding discover_alerts_def by (cases "al_enabled st") simp_all
  note c = this
  show "has_rows jid j ob db \<Longrightarrow> has_rows jid j ob db'"
  proof (cases rule: c)
    case on
    show "has_rows jid j ob db \<Longrightarrow> has_rows jid j ob db'"
      by (rule sweep_keeps[where P = "has_rows jid j ob", OF step on])
  qed simp
  show "job_inv db \<Longrightarrow> job_inv db'"
  proof (cases rule: c)
    case on
    then show "job_inv db \<Longrightarrow> job_inv db'" by (rule alerts.sweep_good)
  qed simp
qed

lemma ensure_alerts_keep:
  assumes "ensure_alerts st ids now db = Inr (db', n)"
  shows "job_inv db \<Longrightarrow> job_inv db'" "has_rows jid j ob db \<Longrightarrow> has_rows jid j ob db'"
proof -
  consider "db' = db"
    | d1 k m where "discover_alerts (s_alerts st) (fst (ids 4)) (snd (ids 4)) now db = Inr (d1, k)"
        "admit_requests ids 5 now (health_requests st now d1) d1 = Inr (db', m)"
    using assms by (auto simp: ensure_alerts_def and_then_Inr split: if_splits)
  then show "job_inv db \<Longrightarrow> job_inv db'" "has_rows jid j ob db \<Longrightarrow> has_rows jid j ob db'"
    by (cases; blast intro: discover_keeps admit_requests_keep(1,2))+
qed

text \<open>The phases of the admissions, separated.\<close>

lemma admissions_phases:
  assumes "cycle_admissions st zone ids now db = Inr (db5, synced)"
  obtains d1 d2 d3 d4 n1 n2 n4 n5 where
    "ensure_daily_maintenance st ids now db = Inr (d1, n1)"
    "ensure_run_recovery st ids now d1 = Inr (d2, n2)"
    "ensure_bumpa_sync st zone ids now d2 = Inr (d3, synced)"
    "ensure_insights st zone ids now d3 = Inr (d4, n4)"
    "ensure_alerts st ids now d4 = Inr (db5, n5)"
  using assms unfolding cycle_admissions_def by (auto simp: and_then_Inr)

lemma sync_key_prefix:
  "sync_key c d \<notin> q_key ` set (maintenance_requests st now)"
  "sync_key c d \<notin> q_key ` set (run_recovery_requests st now runs)"
  by (auto simp: sync_key_def maintenance_requests_def run_recovery_requests_def split: if_splits)

lemma cycle_recovery_keeps:
  assumes "cycle_recovery cfg eids skip now db = (db7, n, m)" "job_inv db"
    and "has_rows jid j ob db" "j_status j = JPending"
  shows "job_inv db7 \<and> has_rows jid j ob db7"
proof -
  obtain db6 where d: "recover_stale_jobs db cfg eids skip now = (db6, n)"
    "recover_stale_wakeups db6 cfg skip now = (db7, m)"
    using assms(1) by (auto simp: cycle_recovery_def split: prod.splits)
  have "job_inv db7" using recover_inv[OF d(1) assms(2)] wakeups_inv[OF d(2)] by blast
  moreover have "has_rows jid j ob db6" using recover_keeps_rows[OF assms(2,3) _ d(1)] assms(4) by simp
  then have "has_rows jid j ob db7" using wakeups_keep_rows[OF _ _ d(2)] assms(4) by simp
  ultimately show ?thesis ..
qed


text \<open>
  The scheduler, like every other service, admits jobs on the queue named \<open>default\<close>; a deployment
  that configures another queue name publishes none of them.
\<close>

lemma other_queue_strands:
  assumes "\<forall>j \<in> set (job_rows db). j_queue_name j = ''default''" "c_queue_name cfg \<noteq> ''default''"
  shows "dispatch_due_jobs cfg pub held clk limit db wake = (0, db, wake)"
proof -
  have "\<not> job_in_queue db (c_queue_name cfg) k" for k
    using assms get_job_Some[of db k] by (auto simp: job_in_queue_def split: option.splits)
  then have "next_due db h (c_queue_name cfg) t = None" for h t
    by (simp add: next_due_def first_by_None)
  then show ?thesis
    by (simp add: dispatch_due_jobs_def dispatch_loop.simps dispatch_one_def)
qed

section \<open>A cycle on a concrete database\<close>

definition ex_conn :: bumpa_connection where
  "ex_conn = \<lparr> bc_id = ''c1'', bc_tenant_id = ''t1'', bc_encrypted_api_key = ''k'',
     bc_scope_type = BusinessId, bc_scope_id = ''b1'', bc_store_timezone = ''Africa/Lagos'',
     bc_store_currency = ''NGN'', bc_provider = ''local'', bc_status = ''active'',
     bc_boundary_revision = 1, bc_sync_generation = 0, bc_published_generation = 0,
     bc_last_successful_sync_at = None, bc_last_failed_sync_at = None, bc_last_error = None \<rparr>"

definition ex_tenant :: tenant where
  "ex_tenant = \<lparr> tn_id = ''t1'', tn_slug = ''s'', tn_name = ''n'', tn_status = TActive,
     tn_timezone = ''Africa/Lagos'', tn_consent = ''pending'' \<rparr>"

definition ex_sched_db :: sched_db where
  "ex_sched_db = \<lparr> job_rows = [], outbox_rows = [], error_rows = [], ad_sync_runs = [],
     ad_messages = [], ad_events = [], ad_profiles = [], sd_tenants = [ex_tenant],
     sd_connections = [ex_conn], sd_subscriptions = [], sd_runs = [] \<rparr>"

definition ex_sched :: sched_settings where
  "ex_sched = \<lparr> s_app_env = ''staging'', s_retention_batch = 10, s_sync_enabled = True, s_sync_hour = 3,
     s_sync_window_days = 30, s_proactive = False, s_daily = False, s_weekly = False,
     s_alerts = \<lparr> al_enabled = False, al_lookback_hours = 1, al_scan_limit = 1, al_max_attempts = 3,
       al_secret = ''s'' \<rparr>, s_health_interval_minutes = 15 \<rparr>"

definition ex_zone :: zone_db where
  "ex_zone z = (if z = ''Africa/Lagos'' then Some (\<lambda>t. t + seconds 3600) else None)"

definition ex_ids :: id_supply where
  "ex_ids k = (\<lambda>i. show_nat k @ ''-'' @ show_nat i, \<lambda>_. True)"

definition ex_now :: time where
  "ex_now = seconds (86400 + 8 * 3600)"

definition ex_sync_job :: async_job where
  "ex_sync_job = (let r = sync_request ex_sched ex_conn 719164 in
     new_job ''2-0'' ex_now (q_kind r) (q_payload r) (q_key r) (q_tenant r) ''default'' 5 ex_now)"

definition ex_admitted :: sched_db where
  "ex_admitted = ex_sched_db\<lparr>job_rows := [ex_sync_job],
     outbox_rows := [new_outbox (Some ''t1'') ''2-0'' ex_now ex_now]\<rparr>"

definition ex_dispatched :: "int \<times> sched_db \<times> ident list" where
  "ex_dispatched = dispatch_due_jobs ex_cfg (\<lambda>_. None) (\<lambda>_ _. False) (\<lambda>_. ex_now) 100 ex_admitted []"

lemma ex_days:
  "active_connections ex_sched_db = [ex_conn]"
  "sync_day ex_sched ex_zone ex_now ex_conn = Some 719164"
  "sync_day ex_sched ex_zone (ex_now + seconds 60) ex_conn = Some 719164"
  "fst (ex_ids 2) 0 = ''2-0''"
  by code_simp+

lemma ex_requests:
  "sync_requests ex_sched ex_zone ex_now ex_sched_db = [sync_request ex_sched ex_conn 719164]"
  by (simp add: sync_requests_def ex_days List.map_filter_simps) (simp add: ex_sched_def)

lemma ex_ensure: "ensure_bumpa_sync ex_sched ex_zone ex_ids ex_now ex_sched_db = Inr (ex_admitted, 1)"
proof -
  have "\<not> admitted key ex_sched_db" for key by (simp add: admitted_iff ex_sched_db_def)
  then have "find_by_key ex_sched_db ''default'' key = None" for key by (simp add: admitted_def)
  moreover have "get_job ex_sched_db k = None" "get_outbox ex_sched_db k = None" for k
    by (simp_all add: ex_sched_db_def get_job_def get_outbox_def tbl_find_def)
  moreover have "snd (ex_ids 2) 0" by (simp add: ex_ids_def)
  moreover have "job_rows ex_sched_db = []" "outbox_rows ex_sched_db = []" "bc_tenant_id ex_conn = ''t1''"
    by (simp_all add: ex_sched_db_def ex_conn_def)
  ultimately show ?thesis
    by (simp add: ensure_bumpa_sync_def admit_requests_def ex_requests admit_def enqueue_job_def
        insert_ok_def ex_days ex_sync_job_def ex_admitted_def sync_request_def Let_def sync_key_def)
qed

lemma ex_cycle: "cycle_admissions ex_sched ex_zone ex_ids ex_now ex_sched_db = Inr (ex_admitted, 1)"
proof -
  have "ensure_daily_maintenance ex_sched ex_ids ex_now ex_sched_db = Inr (ex_sched_db, 0)"
    by (simp add: ensure_daily_maintenance_def admit_requests_def maintenance_requests_def ex_sched_def)
  moreover have "ensure_run_recovery ex_sched ex_ids ex_now ex_sched_db = Inr (ex_sched_db, 0)"
    by (simp add: ensure_run_recovery_def admit_requests_def run_recovery_requests_def ex_sched_db_def)
  moreover have "ensure_insights ex_sched ex_zone ex_ids ex_now ex_admitted = Inr (ex_admitted, 0)"
    by (simp add: ensure_insights_def admit_requests_def insight_requests_def ex_sched_def)
  moreover have "ensure_alerts ex_sched ex_ids ex_now ex_admitted = Inr (ex_admitted, 0)"
    by (simp add: ensure_alerts_def ex_sched_def)
  ultimately show ?thesis by (simp add: cycle_admissions_def ex_ensure)
qed

lemma ex_recovery: "cycle_recovery ex_cfg (\<lambda>_. ''e'') (\<lambda>_. False) ex_now ex_admitted = (ex_admitted, 0, 0)"
proof -
  have "stale_jobs ex_admitted ex_cfg (\<lambda>_. False) ex_now = []"
    by (simp add: stale_jobs_def query_by_def ex_admitted_def ex_sync_job_def new_job_def Let_def)
  moreover have "lost_wakeups ex_admitted ex_cfg (\<lambda>_. False) ex_now = []"
    by (simp add: lost_wakeups_def query_by_def ex_admitted_def new_outbox_def)
  ultimately show ?thesis
    by (simp add: cycle_recovery_def recover_stale_jobs_def recover_stale_wakeups_def)
qed

lemma ex_sched_inv: "job_inv ex_sched_db"
  by (simp add: job_inv_def ex_sched_db_def get_job_def tbl_find_def)

lemma ex_enabled: "s_sync_enabled ex_sched"
  by (simp add: ex_sched_def)

theorem sync_once_per_day_witness:
  "ensure_bumpa_sync ex_sched ex_zone ex_ids (ex_now + seconds 60) ex_admitted = Inr (ex_admitted, 0)"
proof -
  have "sync_day ex_sched ex_zone (ex_now + seconds 60) c = sync_day ex_sched ex_zone ex_now c"
    if "c \<in> set (active_connections ex_sched_db)" for c
    using that by (simp add: ex_days)
  moreover have "ex_conn \<in> set (active_connections ex_sched_db)" by (simp add: ex_days)
  ultimately show ?thesis
    using sync_once_per_day[OF ex_sched_inv ex_enabled ex_ensure _ _ ex_days(2)] by blast
qed


end
