(* ===== verification/Identity.thy ===== *)
theory Identity
  imports AppModel
begin

text \<open>
  Who may sign in and with which authority: phone normalisation and login eligibility
  (\<^verbatim>\<open>app/core/security.py\<close>), platform roles granted and revoked
  (\<^verbatim>\<open>app/services/platform_access.py\<close>), and the tenant a request is narrowed to
  (\<^verbatim>\<open>app/core/dependencies.py\<close>).

  \<open>auth_db\<close> holds the tables of authentication; its one-time codes and sessions are used by the
  theory \<open>AuthSessions\<close>. An HTTP exception is its status code and detail.
\<close>

datatype http_error = HTTP int string

section \<open>Tables\<close>

datatype otp_purpose = PLogin | PInvite | PPhoneVerify | PTempPin

record otp_row =
  ot_id :: ident
  ot_phone :: string
  ot_code_hash :: string
  ot_purpose :: otp_purpose
  ot_attempts :: int
  ot_consumed_at :: "time option"
  ot_expires_at :: time
  ot_created_at :: time

record auth_session =
  ss_id :: ident
  ss_user_id :: ident
  ss_jti_hash :: string
  ss_expires_at :: time
  ss_revoked_at :: "time option"

record auth_db =
  au_tenants :: "tenant list"
  au_users :: "user_row list"
  au_roles :: "platform_role list"
  au_memberships :: "membership list"
  au_phones :: "phone_identity list"
  au_otps :: "otp_row list"
  au_sessions :: "auth_session list"
  au_audit :: "audit_row list"

section \<open>Phone numbers and login eligibility\<close>

definition e164 :: "string \<Rightarrow> bool" where
  "e164 s = (case s of
      p # d # ds \<Rightarrow> p = CHR ''+'' \<and> is_digit d \<and> d \<noteq> CHR ''0''
        \<and> 7 \<le> length ds \<and> length ds \<le> 14 \<and> list_all is_digit ds
    | _ \<Rightarrow> False)"

definition phone_filler :: "char \<Rightarrow> bool" where
  "phone_filler c = (is_space c \<or> c = CHR ''('' \<or> c = CHR '')'' \<or> c = CHR ''-'')"

definition normalize_phone :: "string \<Rightarrow> http_error + string" where
  "normalize_phone value = (let phone = filter (\<lambda>c. \<not> phone_filler c) value in
     if e164 phone then Inr phone else Inl (HTTP 422 ''Phone must be in E.164 format''))"

text \<open>An approved, not opted-out identity of the user with an active membership of an active tenant.\<close>

definition active_mapping :: "auth_db \<Rightarrow> ident \<Rightarrow> string \<Rightarrow> bool" where
  "active_mapping db uid phone = (\<exists>p \<in> set (au_phones db).
     ph_user_id p = uid \<and> ph_phone p = phone \<and> ph_status p = ''approved'' \<and> \<not> ph_opt_out p
     \<and> (\<exists>m \<in> set (au_memberships db). mb_tenant_id m = ph_tenant_id p \<and> mb_user_id m = ph_user_id p
          \<and> mb_status m = ''active'')
     \<and> (\<exists>t \<in> set (au_tenants db). tn_id t = ph_tenant_id p \<and> tn_status t = TActive))"

definition has_platform_role :: "auth_db \<Rightarrow> ident \<Rightarrow> bool" where
  "has_platform_role db uid = (\<exists>r \<in> set (au_roles db).
     pr_user_id r = uid \<and> pr_role r \<in> {Operator, Researcher, Superadmin})"

definition opted_out :: "auth_db \<Rightarrow> ident \<Rightarrow> string \<Rightarrow> bool" where
  "opted_out db uid phone = (\<exists>p \<in> set (au_phones db).
     ph_user_id p = uid \<and> ph_phone p = phone \<and> ph_opt_out p)"

definition find_login_eligible_user :: "auth_db \<Rightarrow> string \<Rightarrow> http_error + user_row option" where
  "find_login_eligible_user db phone = and_then (normalize_phone phone) (\<lambda>normalized.
     Inr (find (\<lambda>u. us_phone u = normalized \<and> us_status u = ''active''
        \<and> (active_mapping db (us_id u) normalized \<or> has_platform_role db (us_id u))
        \<and> \<not> opted_out db (us_id u) normalized) (au_users db)))"

definition find_mapped_login_user :: "auth_db \<Rightarrow> string \<Rightarrow> http_error + user_row option" where
  "find_mapped_login_user db phone = and_then (normalize_phone phone) (\<lambda>normalized.
     Inr (find (\<lambda>u. us_phone u = normalized \<and> us_status u = ''active''
        \<and> active_mapping db (us_id u) normalized) (au_users db)))"

lemma normalize_e164: "normalize_phone v = Inr p \<Longrightarrow> e164 p"
  by (auto simp: normalize_phone_def Let_def split: if_splits)

lemma e164_chars:
  assumes "e164 s" "c \<in> set s"
  shows "c = CHR ''+'' \<or> is_digit c"
  using assms by (auto simp: e164_def list_all_iff split: list.splits)

lemma e164_no_filler: "e164 s \<Longrightarrow> c \<in> set s \<Longrightarrow> \<not> phone_filler c"
  by (drule (1) e164_chars) (auto simp: phone_filler_def is_space_def is_digit_def code_def)

lemma normalize_id: "e164 s \<Longrightarrow> normalize_phone s = Inr s"
  by (auto simp: normalize_phone_def Let_def filter_id_conv e164_no_filler)

section \<open>Platform roles\<close>

datatype access_error = TargetNotFound | TargetInactive | TargetUnmapped | ProtectedSuperadmin
  | AccessConflict

record access_mutation =
  am_user :: user_row
  am_changed :: bool
  am_role_id :: "ident option"

definition role_of :: "auth_db \<Rightarrow> ident \<Rightarrow> platform_role_name \<Rightarrow> platform_role option" where
  "role_of db uid role = find (\<lambda>r. pr_user_id r = uid \<and> pr_role r = role) (au_roles db)"

definition locked_target :: "auth_db \<Rightarrow> ident \<Rightarrow> access_error + user_row" where
  "locked_target db uid = (case tbl_find us_id uid (au_users db) of
     None \<Rightarrow> Inl TargetNotFound | Some u \<Rightarrow> Inr u)"

definition locked_active_target :: "auth_db \<Rightarrow> ident \<Rightarrow> access_error + user_row" where
  "locked_active_target db uid = and_then (locked_target db uid) (\<lambda>u.
     if us_status u \<noteq> ''active'' then Inl TargetInactive else Inr u)"

definition protect_superadmin :: "auth_db \<Rightarrow> ident \<Rightarrow> access_error + unit" where
  "protect_superadmin db uid =
     (if role_of db uid Superadmin \<noteq> None then Inl ProtectedSuperadmin else Inr ())"

definition role_name :: "platform_role_name \<Rightarrow> string" where
  "role_name r = (case r of Operator \<Rightarrow> ''operator'' | Researcher \<Rightarrow> ''researcher''
     | Superadmin \<Rightarrow> ''superadmin'')"

text \<open>The audit record of a platform action: it names no tenant, so no research event follows it.\<close>

definition platform_audit ::
  "ident \<Rightarrow> time \<Rightarrow> ident \<Rightarrow> string \<Rightarrow> ident \<Rightarrow> pyval \<Rightarrow> pyval \<Rightarrow> audit_row" where
  "platform_audit lid now actor action rid before after =
     \<lparr> lg_id = lid, lg_tenant_id = None, lg_actor_user_id = Some actor, lg_action = action,
       lg_resource_type = Some ''platform_role'', lg_resource_id = Some rid, lg_before = before,
       lg_after = after, lg_created_at = now \<rparr>"

text \<open>
  \<open>seen\<close> is the database the checks read; \<open>db\<close> is the one the insert meets, which may already hold
  a role granted concurrently. \<open>rid\<close> and \<open>lid\<close> are the new rows' identifiers.
\<close>

definition grant_platform_access ::
  "auth_db \<Rightarrow> auth_db \<Rightarrow> ident \<Rightarrow> ident \<Rightarrow> time \<Rightarrow> ident \<Rightarrow> ident \<Rightarrow> platform_role_name \<Rightarrow> bool \<Rightarrow> bool \<Rightarrow>
   access_error + (auth_db \<times> access_mutation)" where
  "grant_platform_access seen db rid lid now actor uid role user_created need_mapping =
     and_then (locked_active_target seen uid) (\<lambda>user.
     and_then (protect_superadmin seen uid) (\<lambda>_.
     (case role_of seen uid role of
        Some r \<Rightarrow> Inr (db, \<lparr> am_user = user, am_changed = False, am_role_id = Some (pr_id r) \<rparr>)
      | None \<Rightarrow>
         if need_mapping \<and> \<not> active_mapping seen (us_id user) (us_phone user) then Inl TargetUnmapped
         else if role_of db uid role \<noteq> None \<or> rid \<in> pr_id ` set (au_roles db) then
           (case role_of db uid role of
              Some r \<Rightarrow> Inr (db, \<lparr> am_user = user, am_changed = False, am_role_id = Some (pr_id r) \<rparr>)
            | None \<Rightarrow> Inl AccessConflict)
         else Inr (db\<lparr>au_roles := au_roles db @ [\<lparr> pr_id = rid, pr_user_id = uid, pr_role = role \<rparr>],
                au_audit := au_audit db @ [platform_audit lid now actor
                  (''platform.'' @ role_name role @ ''.granted'') rid PNone
                  (PDict ([(''user_id'', PStr uid), (''role'', PStr (role_name role))]
                    @ (if user_created then [(''user_created'', PBool True)] else [])))]\<rparr>,
              \<lparr> am_user = user, am_changed = True, am_role_id = Some rid \<rparr>))))"

definition revoke_platform_access ::
  "auth_db \<Rightarrow> ident \<Rightarrow> time \<Rightarrow> ident \<Rightarrow> ident \<Rightarrow> platform_role_name \<Rightarrow>
   access_error + (auth_db \<times> access_mutation)" where
  "revoke_platform_access db lid now actor uid role =
     and_then (locked_target db uid) (\<lambda>user.
     and_then (protect_superadmin db uid) (\<lambda>_.
     (case role_of db uid role of
        None \<Rightarrow> Inr (db, \<lparr> am_user = user, am_changed = False, am_role_id = None \<rparr>)
      | Some r \<Rightarrow>
         Inr (db\<lparr>au_roles := filter (\<lambda>x. pr_id x \<noteq> pr_id r) (au_roles db),
                au_audit := au_audit db @ [platform_audit lid now actor
                  (''platform.'' @ role_name role @ ''.revoked'') (pr_id r)
                  (PDict [(''user_id'', PStr uid), (''role'', PStr (role_name role))]) PNone]\<rparr>,
              \<lparr> am_user = user, am_changed = True, am_role_id = Some (pr_id r) \<rparr>))))"

section \<open>The principal of a request\<close>

text \<open>The row-level security context of the database session.\<close>

datatype rls = Privileged | Narrowed "ident option"

record principal =
  p_user :: user_row
  p_roles :: "platform_role_name list"
  p_memberships :: "membership list"
  p_membership :: "membership option"
  p_tenant :: "tenant option"

definition roles_of :: "auth_db \<Rightarrow> ident \<Rightarrow> platform_role_name list" where
  "roles_of db uid = map pr_role (filter (\<lambda>r. pr_user_id r = uid) (au_roles db))"

definition memberships_of :: "auth_db \<Rightarrow> ident \<Rightarrow> membership list" where
  "memberships_of db uid = query_by (\<lambda>m. (mb_created_at m, mb_id m)) (\<lambda>m. mb_user_id m = uid)
     (au_memberships db)"

definition any_role :: "platform_role_name list \<Rightarrow> platform_role_name list \<Rightarrow> bool" where
  "any_role roles wanted = list_ex (\<lambda>r. r \<in> set wanted) roles"

text \<open>
  \<open>get_principal\<close> after authentication: \<open>user\<close> is the user the token names and \<open>requested\<close> the
  \<^verbatim>\<open>X-Tenant-ID\<close> header (an empty header counts as none).
\<close>

definition requested_id :: "string option \<Rightarrow> string option" where
  "requested_id requested = (case requested of Some r \<Rightarrow> if r = [] then None else Some r | None \<Rightarrow> None)"

definition selected_membership :: "auth_db \<Rightarrow> ident \<Rightarrow> string option \<Rightarrow> membership option" where
  "selected_membership db uid req =
    (let active = filter (\<lambda>m. mb_status m = ''active'') (memberships_of db uid) in
     case req of
       Some r \<Rightarrow> find (\<lambda>m. mb_tenant_id m = r) active
     | None \<Rightarrow> find (\<lambda>m. True) active)"

definition selected_tenant :: "auth_db \<Rightarrow> ident \<Rightarrow> string option \<Rightarrow> tenant option" where
  "selected_tenant db uid req =
    (case (case req of Some r \<Rightarrow> Some r | None \<Rightarrow> map_option mb_tenant_id (selected_membership db uid None)) of
       None \<Rightarrow> None
     | Some k \<Rightarrow> tbl_find tn_id k (au_tenants db))"

definition get_principal ::
  "auth_db \<Rightarrow> user_row \<Rightarrow> string option \<Rightarrow> http_error + (principal \<times> rls)" where
  "get_principal db user requested =
    (let roles = roles_of db (us_id user);
         req = requested_id requested;
         member = selected_membership db (us_id user) req;
         tn = selected_tenant db (us_id user) req
     in
     if req \<noteq> None \<and> member = None \<and> \<not> any_role roles [Operator, Researcher, Superadmin]
     then Inl (HTTP 403 ''Tenant access denied'')
     else if (case tn of None \<Rightarrow> False | Some t \<Rightarrow>
             tn_status t \<noteq> TActive \<and> \<not> any_role roles [Operator, Superadmin])
     then Inl (HTTP 403 ''Tenant is not active'')
     else Inr (\<lparr> p_user = user, p_roles = roles, p_memberships = memberships_of db (us_id user),
                 p_membership = member, p_tenant = tn \<rparr>,
               if any_role roles [Operator, Researcher, Superadmin] then Privileged
               else Narrowed (map_option tn_id tn)))"

definition require_tenant :: "principal \<times> rls \<Rightarrow> http_error + (principal \<times> rls)" where
  "require_tenant pr = (case pr of (p, ctx) \<Rightarrow>
     (case (p_tenant p, p_membership p) of
        (Some t, Some m) \<Rightarrow>
          if tn_status t \<noteq> TActive then Inl (HTTP 403 ''Tenant is not active'')
          else Inr (p, Narrowed (Some (tn_id t)))
      | _ \<Rightarrow> Inl (HTTP 403 ''An active tenant membership is required'')))"

definition require_tenant_admin :: "principal \<times> rls \<Rightarrow> http_error + (principal \<times> rls)" where
  "require_tenant_admin pr = (case p_membership (fst pr) of
      Some m \<Rightarrow> if mb_role m \<in> {MOwner, MAdmin} then Inr pr
        else Inl (HTTP 403 ''Tenant administrator access required'')
    | None \<Rightarrow> Inl (HTTP 403 ''Tenant administrator access required''))"

definition require_operator :: "principal \<times> rls \<Rightarrow> http_error + (principal \<times> rls)" where
  "require_operator pr = (if any_role (p_roles (fst pr)) [Operator, Superadmin] then Inr pr
     else Inl (HTTP 403 ''Operator access required''))"

definition require_superadmin :: "principal \<times> rls \<Rightarrow> http_error + (principal \<times> rls)" where
  "require_superadmin pr = (if any_role (p_roles (fst pr)) [Superadmin] then Inr pr
     else Inl (HTTP 403 ''Superadministrator access required''))"

definition require_researcher :: "principal \<times> rls \<Rightarrow> http_error + (principal \<times> rls)" where
  "require_researcher pr = (if any_role (p_roles (fst pr)) [Researcher, Superadmin] then Inr pr
     else Inl (HTTP 403 ''Researcher access required''))"

section \<open>A tenant-scoped request stays inside one tenant\<close>

lemma find_SomeD: "find P xs = Some x \<Longrightarrow> x \<in> set xs \<and> P x"
  by (auto simp: find_Some_iff)

lemma selected_membershipD:
  "selected_membership db uid req = Some m \<Longrightarrow>
   m \<in> set (au_memberships db) \<and> mb_user_id m = uid \<and> mb_status m = ''active''
   \<and> (\<forall>r. req = Some r \<longrightarrow> mb_tenant_id m = r)"
  by (auto simp: selected_membership_def Let_def memberships_of_def dest!: find_SomeD split: option.splits)

lemma selected_tenantD:
  "selected_tenant db uid req = Some t \<Longrightarrow> t \<in> set (au_tenants db) \<and> (\<forall>r. req = Some r \<longrightarrow> tn_id t = r)
   \<and> (\<forall>m. selected_membership db uid req = Some m \<longrightarrow> mb_tenant_id m = tn_id t)"
  by (cases req) (auto simp: selected_tenant_def dest!: tbl_find_Some split: option.splits
      dest: selected_membershipD)

lemma principal_fields:
  assumes "get_principal db user requested = Inr (p, ctx)"
  shows "p_user p = user" "p_roles p = roles_of db (us_id user)"
    "p_membership p = selected_membership db (us_id user) (requested_id requested)"
    "p_tenant p = selected_tenant db (us_id user) (requested_id requested)"
    "ctx = (if any_role (p_roles p) [Operator, Researcher, Superadmin] then Privileged
       else Narrowed (map_option tn_id (p_tenant p)))"
    "p_tenant p = Some t \<Longrightarrow> tn_status t = TActive \<or> any_role (p_roles p) [Operator, Superadmin]"
    "requested_id requested \<noteq> None \<Longrightarrow> p_membership p \<noteq> None \<or> any_role (p_roles p) [Operator, Researcher, Superadmin]"
  using assms by (auto simp: get_principal_def Let_def split: if_splits)

lemma require_tenantD:
  assumes "require_tenant (p, ctx) = Inr (p', ctx')"
  obtains t m where "p' = p" "p_tenant p = Some t" "p_membership p = Some m" "tn_status t = TActive"
    "ctx' = Narrowed (Some (tn_id t))"
  using assms by (auto simp: require_tenant_def split: option.splits if_splits)

text \<open>C3: a tenant-scoped request is confined to one tenant the user belongs to. When the tenant dependency
  lets a request through, its database context is narrowed to a single active tenant of which the
  user has an active membership, the one named in the request header if there is one, whatever
  platform roles the user holds; the administrator check lets only owners and administrators of that
  very tenant pass; and a user without platform role never gets the privileged context at all.\<close>

theorem tenant_isolation:
  assumes "get_principal db user requested = Inr (p, ctx)"
  shows "(\<forall>p' ctx'. require_tenant (p, ctx) = Inr (p', ctx') \<longrightarrow>
      (\<exists>t m. t \<in> set (au_tenants db) \<and> tn_status t = TActive \<and> ctx' = Narrowed (Some (tn_id t))
         \<and> m \<in> set (au_memberships db) \<and> mb_user_id m = us_id user \<and> mb_tenant_id m = tn_id t
         \<and> mb_status m = ''active'' \<and> (\<forall>r. requested = Some r \<and> r \<noteq> [] \<longrightarrow> tn_id t = r)
         \<and> (is_ok (require_tenant_admin (p', ctx')) \<longleftrightarrow> mb_role m \<in> {MOwner, MAdmin})))
    \<and> (roles_of db (us_id user) = [] \<longrightarrow> ctx \<noteq> Privileged
        \<and> \<not> is_ok (require_operator (p, ctx)) \<and> \<not> is_ok (require_researcher (p, ctx)))"
proof (intro conjI allI impI)
  fix p' ctx' assume "require_tenant (p, ctx) = Inr (p', ctx')"
  then obtain t m where r: "p' = p" "p_tenant p = Some t" "p_membership p = Some m" "tn_status t = TActive"
    "ctx' = Narrowed (Some (tn_id t))"
    by (rule require_tenantD)
  note f = principal_fields[OF assms]
  have t: "selected_tenant db (us_id user) (requested_id requested) = Some t" using f(4) r(2) by simp
  have m: "selected_membership db (us_id user) (requested_id requested) = Some m" using f(3) r(3) by simp
  have "tn_id t = r" if "requested = Some r" "r \<noteq> []" for r
    using selected_tenantD[OF t] that by (simp add: requested_id_def)
  moreover have "is_ok (require_tenant_admin (p', ctx')) \<longleftrightarrow> mb_role m \<in> {MOwner, MAdmin}"
    by (simp add: require_tenant_admin_def r)
  ultimately show "\<exists>t m. t \<in> set (au_tenants db) \<and> tn_status t = TActive \<and> ctx' = Narrowed (Some (tn_id t))
         \<and> m \<in> set (au_memberships db) \<and> mb_user_id m = us_id user \<and> mb_tenant_id m = tn_id t
         \<and> mb_status m = ''active'' \<and> (\<forall>r. requested = Some r \<and> r \<noteq> [] \<longrightarrow> tn_id t = r)
         \<and> (is_ok (require_tenant_admin (p', ctx')) \<longleftrightarrow> mb_role m \<in> {MOwner, MAdmin})"
    using selected_tenantD[OF t] selected_membershipD[OF m] m r(4,5) by blast
next
  assume none: "roles_of db (us_id user) = []"
  note f = principal_fields[OF assms]
  show "ctx \<noteq> Privileged" using f(2,5) none by (simp add: any_role_def)
  show "\<not> is_ok (require_operator (p, ctx))" "\<not> is_ok (require_researcher (p, ctx))"
    using f(2) none by (simp_all add: require_operator_def require_researcher_def any_role_def)
qed

section \<open>Grants and revocations\<close>

definition assignments :: "auth_db \<Rightarrow> (ident \<times> platform_role_name) set" where
  "assignments db = (\<lambda>r. (pr_user_id r, pr_role r)) ` set (au_roles db)"

definition roles_unique :: "auth_db \<Rightarrow> bool" where
  "roles_unique db \<longleftrightarrow> distinct (map pr_id (au_roles db))
     \<and> distinct (map (\<lambda>r. (pr_user_id r, pr_role r)) (au_roles db))"

lemma role_of_None: "role_of db uid role = None \<longleftrightarrow> (uid, role) \<notin> assignments db"
  by (auto simp: role_of_def assignments_def find_None_iff)

lemma role_of_Some: "role_of db uid role = Some r \<Longrightarrow> r \<in> set (au_roles db) \<and> pr_user_id r = uid \<and> pr_role r = role"
  by (auto simp: role_of_def find_Some_iff)

lemma grant_effect:
  assumes "grant_platform_access seen db rid lid now actor uid role created need = Inr (db', m)"
    and "roles_unique db" and "assignments seen \<subseteq> assignments db"
  shows "roles_unique db'" and "assignments db' = insert (uid, role) (assignments db)"
    and "(uid, Superadmin) \<notin> assignments seen"
    and "if am_changed m then \<exists>l. au_audit db' = au_audit db @ [l] \<and> lg_actor_user_id l = Some actor
           \<and> lg_resource_id l = am_role_id m \<and> lg_action l = ''platform.'' @ role_name role @ ''.granted''
         else db' = db"
proof -
  have sup: "(uid, Superadmin) \<notin> assignments seen"
    using assms(1) by (auto simp: grant_platform_access_def and_then_Inr protect_superadmin_def role_of_None[symmetric]
        split: if_splits)
  then show "(uid, Superadmin) \<notin> assignments seen" .
  consider (old) "db' = db" "\<not> am_changed m" "(uid, role) \<in> assignments db"
    | (new) b where "am_changed m" "am_role_id m = Some rid" "(uid, role) \<notin> assignments db" "rid \<notin> pr_id ` set (au_roles db)"
      "au_roles db' = au_roles db @ [\<lparr> pr_id = rid, pr_user_id = uid, pr_role = role \<rparr>]"
      "au_audit db' = au_audit db @ [platform_audit lid now actor (''platform.'' @ role_name role @ ''.granted'') rid PNone b]"
  proof (cases "role_of seen uid role")
    case (Some r)
    then have "(uid, role) \<in> assignments seen" using role_of_None[of seen uid role] by simp
    with Some assms(1,3) that(1) show ?thesis
      by (auto simp: grant_platform_access_def and_then_Inr)
  next
    case None
    show ?thesis
    proof (cases "role_of db uid role")
      case None2: None
      then have "(uid, role) \<notin> assignments db" by (rule role_of_None[THEN iffD1])
      with None None2 assms(1) that(2)[of "PDict ([(''user_id'', PStr uid), (''role'', PStr (role_name role))]
            @ (if created then [(''user_created'', PBool True)] else []))"]
      show ?thesis by (auto simp: grant_platform_access_def and_then_Inr split: if_splits)
    next
      case (Some r)
      then have "(uid, role) \<in> assignments db" using role_of_None[of db uid role] by simp
      with Some None assms(1) that(1) show ?thesis
        by (auto simp: grant_platform_access_def and_then_Inr split: if_splits)
    qed
  qed
  note c = this
  show "roles_unique db'" by (cases rule: c) (use assms(2) in \<open>auto simp: roles_unique_def assignments_def\<close>)
  show "assignments db' = insert (uid, role) (assignments db)"
    by (cases rule: c) (auto simp: assignments_def)
  show "if am_changed m then \<exists>l. au_audit db' = au_audit db @ [l] \<and> lg_actor_user_id l = Some actor
           \<and> lg_resource_id l = am_role_id m \<and> lg_action l = ''platform.'' @ role_name role @ ''.granted''
         else db' = db"
    by (cases rule: c) (auto simp: platform_audit_def)
qed

lemma revoke_effect:
  assumes "revoke_platform_access db lid now actor uid role = Inr (db', m)" and "roles_unique db"
  shows "roles_unique db'" and "assignments db' = assignments db - {(uid, role)}"
    and "(uid, Superadmin) \<notin> assignments db"
    and "if am_changed m then \<exists>l. au_audit db' = au_audit db @ [l] \<and> lg_actor_user_id l = Some actor
           \<and> lg_resource_id l = am_role_id m \<and> lg_action l = ''platform.'' @ role_name role @ ''.revoked''
         else db' = db"
proof -
  show "(uid, Superadmin) \<notin> assignments db"
    using assms(1) by (auto simp: revoke_platform_access_def and_then_Inr protect_superadmin_def
        role_of_None[symmetric] split: if_splits)
  consider (old) "db' = db" "\<not> am_changed m" "(uid, role) \<notin> assignments db"
    | (new) r b where "role_of db uid role = Some r" "am_changed m" "am_role_id m = Some (pr_id r)"
      "au_roles db' = filter (\<lambda>x. pr_id x \<noteq> pr_id r) (au_roles db)"
      "au_audit db' = au_audit db @ [platform_audit lid now actor (''platform.'' @ role_name role @ ''.revoked'') (pr_id r) b PNone]"
  proof (cases "role_of db uid role")
    case None
    then have "(uid, role) \<notin> assignments db" by (rule role_of_None[THEN iffD1])
    with None assms(1) that(1) show ?thesis by (auto simp: revoke_platform_access_def and_then_Inr)
  next
    case (Some r)
    with assms(1) that(2)[of r "PDict [(''user_id'', PStr uid), (''role'', PStr (role_name role))]"]
    show ?thesis by (auto simp: revoke_platform_access_def and_then_Inr)
  qed
  note c = this
  show "roles_unique db'"
    by (cases rule: c) (use assms(2) in \<open>auto simp: roles_unique_def intro: distinct_map_filter\<close>)
  show "assignments db' = assignments db - {(uid, role)}"
  proof (cases rule: c)
    case (new r b)
    note r = role_of_Some[OF new(1)]
    have "pr_id x = pr_id r \<longleftrightarrow> (pr_user_id x, pr_role x) = (uid, role)" if "x \<in> set (au_roles db)" for x
    proof -
      have inj: "inj_on pr_id (set (au_roles db))" "inj_on (\<lambda>r. (pr_user_id r, pr_role r)) (set (au_roles db))"
        using assms(2) by (simp_all add: roles_unique_def distinct_map)
      have "pr_id x = pr_id r \<longleftrightarrow> x = r" using inj_onD[OF inj(1)] that r by blast
      moreover have "(pr_user_id x, pr_role x) = (uid, role) \<longleftrightarrow> x = r"
        using inj_onD[OF inj(2), of x r] that r by auto
      ultimately show ?thesis by blast
    qed
    with new(4) show ?thesis by (auto simp: assignments_def)
  qed (simp add: insert_absorb)
  show "if am_changed m then \<exists>l. au_audit db' = au_audit db @ [l] \<and> lg_actor_user_id l = Some actor
           \<and> lg_resource_id l = am_role_id m \<and> lg_action l = ''platform.'' @ role_name role @ ''.revoked''
         else db' = db"
    by (cases rule: c) (auto simp: platform_audit_def)
qed

text \<open>Platform roles are granted and revoked exactly and under audit. A grant adds exactly the one
  assignment and a revocation removes exactly it, the pair of user and role stays unique even when a
  concurrent grant of the same role commits first, one audit record naming the actor and the role's
  row is written exactly when something changed, a grant followed by its revocation restores the
  assignments, and neither ever succeeds on a superadministrator.\<close>

theorem platform_access_exact:
  assumes "roles_unique db" and "assignments seen \<subseteq> assignments db"
    and "grant_platform_access seen db rid lid now actor uid role created need = Inr (db', m)"
    and "revoke_platform_access db' lid' now' actor' uid role = Inr (db'', m')"
  shows "roles_unique db' \<and> roles_unique db''
    \<and> assignments db' = insert (uid, role) (assignments db)
    \<and> assignments db'' = assignments db - {(uid, role)}
    \<and> length (au_audit db') = length (au_audit db) + (if am_changed m then 1 else 0)
    \<and> am_changed m' \<and> (\<exists>l. au_audit db'' = au_audit db' @ [l] \<and> lg_actor_user_id l = Some actor'
         \<and> lg_resource_id l = am_role_id m')
    \<and> (uid, Superadmin) \<notin> assignments seen \<and> role \<noteq> Superadmin"
proof -
  note g = grant_effect[OF assms(3,1,2)]
  note r = revoke_effect[OF assms(4) g(1)]
  have ch: "am_changed m'"
  proof (rule ccontr)
    assume "\<not> am_changed m'"
    then have "db'' = db'" using r(4) by simp
    with r(2) g(2) show False by blast
  qed
  have "role \<noteq> Superadmin" using r(3) g(2) by auto
  with g r ch show ?thesis by (auto split: if_splits)
qed

section \<open>A concrete tenant\<close>

definition ex_auth :: auth_db where
  "ex_auth = \<lparr> au_tenants = [\<lparr> tn_id = ''t1'', tn_slug = ''s'', tn_name = ''n'', tn_status = TActive,
       tn_timezone = ''Africa/Lagos'', tn_consent = ''pending'' \<rparr>],
     au_users = [\<lparr> us_id = ''u1'', us_name = None, us_email = None, us_phone = ''+2348012345678'',
       us_status = ''active'' \<rparr>],
     au_roles = [],
     au_memberships = [\<lparr> mb_id = ''m1'', mb_tenant_id = ''t1'', mb_user_id = ''u1'', mb_role = MOwner,
       mb_status = ''active'', mb_created_at = 0 \<rparr>],
     au_phones = [\<lparr> ph_id = ''p1'', ph_tenant_id = ''t1'', ph_user_id = ''u1'', ph_phone = ''+2348012345678'',
       ph_wa_id = None, ph_status = ''approved'', ph_opt_out = False \<rparr>],
     au_otps = [], au_sessions = [], au_audit = [] \<rparr>"

definition ex_user :: user_row where
  "ex_user = hd (au_users ex_auth)"

definition ex_principal :: "principal \<times> rls" where
  "ex_principal = (case get_principal ex_auth ex_user (Some ''t1'') of Inr x \<Rightarrow> x
     | Inl _ \<Rightarrow> (\<lparr> p_user = ex_user, p_roles = [], p_memberships = [], p_membership = None, p_tenant = None \<rparr>,
         Privileged))"

lemma ex_principal:
  "get_principal ex_auth ex_user (Some ''t1'') = Inr (fst ex_principal, snd ex_principal)"
  "require_tenant (fst ex_principal, snd ex_principal) = Inr (fst ex_principal, Narrowed (Some ''t1''))"
  "roles_of ex_auth (us_id ex_user) = []"
  by code_simp+

theorem tenant_isolation_witness:
  "snd ex_principal \<noteq> Privileged \<and> \<not> is_ok (require_operator (fst ex_principal, snd ex_principal))
   \<and> (\<exists>m. m \<in> set (au_memberships ex_auth) \<and> mb_tenant_id m = ''t1'' \<and> mb_status m = ''active'')"
proof -
  note t = tenant_isolation[OF ex_principal(1)]
  from t[THEN conjunct1, rule_format, OF ex_principal(2)]
  have "\<exists>m. m \<in> set (au_memberships ex_auth) \<and> mb_tenant_id m = ''t1'' \<and> mb_status m = ''active''"
    by auto
  with t[THEN conjunct2] ex_principal(3) show ?thesis by simp
qed

definition ex_granted :: auth_db where
  "ex_granted = ex_auth\<lparr>au_roles := [\<lparr> pr_id = ''r1'', pr_user_id = ''u1'', pr_role = Operator \<rparr>],
     au_audit := [platform_audit ''l1'' 5 ''boss'' ''platform.operator.granted'' ''r1'' PNone
       (PDict [(''user_id'', PStr ''u1''), (''role'', PStr ''operator'')])]\<rparr>"

lemma ex_grant:
  "grant_platform_access ex_auth ex_auth ''r1'' ''l1'' 5 ''boss'' ''u1'' Operator False True =
   Inr (ex_granted, \<lparr> am_user = ex_user, am_changed = True, am_role_id = Some ''r1'' \<rparr>)"
  by code_simp

definition ex_revoked :: auth_db where
  "ex_revoked = ex_granted\<lparr>au_roles := [],
     au_audit := au_audit ex_granted @ [platform_audit ''l2'' 6 ''boss'' ''platform.operator.revoked'' ''r1''
       (PDict [(''user_id'', PStr ''u1''), (''role'', PStr ''operator'')]) PNone]\<rparr>"

lemma ex_revoke:
  "revoke_platform_access ex_granted ''l2'' 6 ''boss'' ''u1'' Operator =
   Inr (ex_revoked, \<lparr> am_user = ex_user, am_changed = True, am_role_id = Some ''r1'' \<rparr>)"
  by code_simp

theorem platform_access_exact_witness:
  "assignments ex_granted = {(''u1'', Operator)} \<and> assignments ex_revoked = {}"
proof -
  have u: "roles_unique ex_auth" by (simp add: roles_unique_def ex_auth_def)
  have e: "assignments ex_auth = {}" by (simp add: assignments_def ex_auth_def)
  show ?thesis using platform_access_exact[OF u _ ex_grant ex_revoke] e by auto
qed

end
