(* ===== verification/AuthSessions.thy ===== *)
theory AuthSessions
  imports Identity
begin

text \<open>
  One-time codes, the temporary shared PIN, access tokens and their revocation
  (\<^verbatim>\<open>app/core/security.py\<close>).

  Parameters: \<open>hash\<close> is \<^verbatim>\<open>secret_hash(_, otp_secret)\<close>, \<open>sha\<close> hexadecimal SHA-256, \<open>encode\<close> and
  \<open>decode\<close> are \<^verbatim>\<open>jwt.encode\<close> and \<^verbatim>\<open>jwt.decode\<close> under the deployment's secret (\<open>decode now\<close> checks the
  signature and the expiry at \<open>now\<close>). New identifiers, nonces and random codes are arguments. The
  advisory lock on a phone number makes \<open>issue_otp\<close> and \<open>verify_otp\<close> atomic steps.
\<close>

datatype login_mode = LDisabled | LWhatsappOtp | LStaticPin

record auth_settings =
  st_local :: bool
  st_mode :: login_mode
  st_otp_ttl_minutes :: int
  st_otp_max_attempts :: int
  st_otp_cooldown :: int
  st_local_code :: string
  st_pin_verifier :: string
  st_pin_expires_at :: "time option"
  st_token_minutes :: int

definition minutes :: "int \<Rightarrow> time" where
  "minutes n = seconds (n * 60)"

definition set_otp :: "ident \<Rightarrow> (otp_row \<Rightarrow> otp_row) \<Rightarrow> auth_db \<Rightarrow> auth_db" where
  "set_otp oid f db = db\<lparr>au_otps := tbl_upd ot_id oid f (au_otps db)\<rparr>"

section \<open>Login codes\<close>

definition latest_otp :: "auth_db \<Rightarrow> string \<Rightarrow> otp_row option" where
  "latest_otp db phone = first_by (\<lambda>r. - ot_created_at r)
     (\<lambda>r. ot_phone r = phone \<and> ot_purpose r = PLogin) (au_otps db)"

definition consume_open :: "string \<Rightarrow> time \<Rightarrow> otp_row list \<Rightarrow> otp_row list" where
  "consume_open phone now rows = map (\<lambda>r.
     if ot_phone r = phone \<and> ot_purpose r = PLogin \<and> ot_consumed_at r = None
     then r\<lparr>ot_consumed_at := Some now\<rparr> else r) rows"

definition new_otp :: "(string \<Rightarrow> string) \<Rightarrow> auth_settings \<Rightarrow> ident \<Rightarrow> time \<Rightarrow> string \<Rightarrow> string \<Rightarrow> otp_row" where
  "new_otp hash st oid now phone pin = \<lparr> ot_id = oid, ot_phone = phone,
     ot_code_hash = hash (phone @ '':'' @ pin), ot_purpose = PLogin, ot_attempts = 0,
     ot_consumed_at = None, ot_expires_at = now + minutes (st_otp_ttl_minutes st), ot_created_at = now \<rparr>"

definition issue_otp ::
  "(string \<Rightarrow> string) \<Rightarrow> auth_settings \<Rightarrow> ident \<Rightarrow> time \<Rightarrow> string \<Rightarrow> string \<Rightarrow> auth_db \<Rightarrow>
   http_error + (auth_db \<times> otp_row \<times> string)" where
  "issue_otp hash st oid now random_pin phone db = and_then (normalize_phone phone) (\<lambda>normalized.
     if (case latest_otp db normalized of None \<Rightarrow> False
         | Some l \<Rightarrow> now - ot_created_at l < seconds (st_otp_cooldown st) \<and> ot_consumed_at l = None)
     then Inl (HTTP 429 ''Please wait before requesting another code'')
     else (let pin = (if st_local st then st_local_code st else random_pin);
               otp = new_otp hash st oid now normalized pin
           in Inr (db\<lparr>au_otps := consume_open normalized now (au_otps db) @ [otp]\<rparr>, otp, pin)))"

text \<open>The login identity in a mode: local development also admits platform roles without mapping.\<close>

definition login_user :: "auth_settings \<Rightarrow> auth_db \<Rightarrow> string \<Rightarrow> http_error + user_row option" where
  "login_user st db phone =
     (if st_local st then find_login_eligible_user db phone else find_mapped_login_user db phone)"

text \<open>The second component is the outcome; the first is the database its commits leave.\<close>

definition verify_otp ::
  "(string \<Rightarrow> string) \<Rightarrow> auth_settings \<Rightarrow> time \<Rightarrow> string \<Rightarrow> string \<Rightarrow> auth_db \<Rightarrow>
   auth_db \<times> (http_error + user_row)" where
  "verify_otp hash st now phone pin db =
    (case normalize_phone phone of
       Inl e \<Rightarrow> (db, Inl e)
     | Inr normalized \<Rightarrow>
        (case latest_otp db normalized of
           None \<Rightarrow> (db, Inl (HTTP 401 ''Invalid or expired code''))
         | Some otp \<Rightarrow>
            if ot_consumed_at otp \<noteq> None \<or> ot_expires_at otp \<le> now
            then (db, Inl (HTTP 401 ''Invalid or expired code''))
            else if st_otp_max_attempts st \<le> ot_attempts otp then (db, Inl (HTTP 423 ''Code is locked''))
            else if ot_code_hash otp \<noteq> hash (normalized @ '':'' @ pin)
            then (set_otp (ot_id otp) (\<lambda>r. r\<lparr>ot_attempts := ot_attempts r + 1\<rparr>) db,
                  Inl (if st_otp_max_attempts st \<le> ot_attempts otp + 1
                       then HTTP 423 ''Code is locked'' else HTTP 401 ''Invalid or expired code''))
            else (case login_user st db normalized of
                Inl e \<Rightarrow> (db, Inl e)
              | Inr None \<Rightarrow> (set_otp (ot_id otp) (\<lambda>r. r\<lparr>ot_consumed_at := Some now\<rparr>) db,
                    Inl (HTTP 403 ''This phone number is not approved''))
              | Inr (Some u) \<Rightarrow> (set_otp (ot_id otp) (\<lambda>r. r\<lparr>ot_consumed_at := Some now\<rparr>) db, Inr u))))"

section \<open>The temporary shared PIN\<close>

definition open_challenge :: "auth_db \<Rightarrow> string \<Rightarrow> otp_row option" where
  "open_challenge db phone = first_by (\<lambda>r. - ot_created_at r)
     (\<lambda>r. ot_phone r = phone \<and> ot_purpose r = PTempPin \<and> ot_consumed_at r = None) (au_otps db)"

text \<open>
  \<open>seen\<close> is what the first query reads, \<open>db\<close> what the commit meets: a concurrent open challenge of
  the same phone violates the partial unique index. \<open>Inl\<close> is the re-raised \<^verbatim>\<open>IntegrityError\<close>.
\<close>

definition issue_pin_challenge ::
  "(string \<Rightarrow> string) \<Rightarrow> auth_settings \<Rightarrow> ident \<Rightarrow> string \<Rightarrow> time \<Rightarrow> string \<Rightarrow> auth_db \<Rightarrow> auth_db \<Rightarrow>
   http_error + (unit + auth_db)" where
  "issue_pin_challenge hash st oid nonce now phone seen db = and_then (normalize_phone phone) (\<lambda>normalized.
     let latest = open_challenge seen normalized in
     if (case latest of None \<Rightarrow> False | Some l \<Rightarrow> now \<le> ot_expires_at l) then Inr (Inr db)
     else
      (let db1 = (case latest of None \<Rightarrow> db
             | Some l \<Rightarrow> set_otp (ot_id l) (\<lambda>r. r\<lparr>ot_consumed_at := Some now\<rparr>) db)
       in case open_challenge db1 normalized of
           None \<Rightarrow> Inr (Inr (db1\<lparr>au_otps := au_otps db1 @ [\<lparr> ot_id = oid, ot_phone = normalized,
              ot_code_hash = hash (''web-pin-challenge:'' @ normalized @ '':'' @ nonce),
              ot_purpose = PTempPin, ot_attempts = 0, ot_consumed_at = None,
              ot_expires_at = now + minutes (st_otp_ttl_minutes st), ot_created_at = now \<rparr>]\<rparr>))
         | Some _ \<Rightarrow>
             (case open_challenge db normalized of
                Some c \<Rightarrow> if now \<le> ot_expires_at c then Inr (Inr db) else Inr (Inl ())
              | None \<Rightarrow> Inr (Inl ()))))"

definition verify_pin ::
  "(string \<Rightarrow> string) \<Rightarrow> auth_settings \<Rightarrow> time \<Rightarrow> string \<Rightarrow> string \<Rightarrow> auth_db \<Rightarrow>
   http_error + (auth_db \<times> user_row option)" where
  "verify_pin hash st now phone pin db = and_then (normalize_phone phone) (\<lambda>normalized.
     let matches = (st_pin_verifier st = hash (''web-login-pin:'' @ pin));
         challenge = open_challenge db normalized;
         live = (case challenge of None \<Rightarrow> False | Some c \<Rightarrow> now \<le> ot_expires_at c);
         usable = (case challenge of None \<Rightarrow> False
           | Some c \<Rightarrow> now \<le> ot_expires_at c \<and> ot_attempts c < st_otp_max_attempts st)
     in case challenge of
          None \<Rightarrow> Inr (db, None)
        | Some c \<Rightarrow>
          if \<not> matches \<or> \<not> usable
          then Inr (if live then set_otp (ot_id c) (\<lambda>r. r\<lparr>ot_attempts := ot_attempts r + 1,
                      ot_consumed_at := (if st_otp_max_attempts st \<le> ot_attempts r + 1 then Some now
                        else ot_consumed_at r)\<rparr>) db else db, None)
          else and_then (find_mapped_login_user db normalized) (\<lambda>u.
            Inr (set_otp (ot_id c) (\<lambda>r. r\<lparr>ot_consumed_at := Some now\<rparr>) db, u)))"

section \<open>Access tokens\<close>

type_synonym claims = "(string \<times> pyval) list"

definition access_claims :: "ident \<Rightarrow> string \<Rightarrow> time \<Rightarrow> time \<Rightarrow> claims" where
  "access_claims uid jti now expires = [(''sub'', PStr uid), (''jti'', PStr jti), (''iat'', PInt (now div 1000000)),
     (''exp'', PInt (expires div 1000000)), (''type'', PStr ''access'')]"

definition create_access_token ::
  "(string \<Rightarrow> string) \<Rightarrow> (claims \<Rightarrow> string) \<Rightarrow> auth_settings \<Rightarrow> ident \<Rightarrow> string \<Rightarrow> time \<Rightarrow> user_row \<Rightarrow> auth_db \<Rightarrow>
   auth_db \<times> string \<times> auth_session" where
  "create_access_token sha encode st sid jti now user db =
    (let expires = now + minutes (st_token_minutes st);
         session = \<lparr> ss_id = sid, ss_user_id = us_id user, ss_jti_hash = sha jti,
           ss_expires_at = expires, ss_revoked_at = None \<rparr>
     in (db\<lparr>au_sessions := au_sessions db @ [session]\<rparr>,
         encode (access_claims (us_id user) jti now expires),
         session))"

text \<open>A \<open>jti\<close> that is no string has no \<^verbatim>\<open>encode\<close>; the exception leaves the request as status 500.\<close>

definition decode_access_token ::
  "(string \<Rightarrow> string) \<Rightarrow> (time \<Rightarrow> string \<Rightarrow> claims option) \<Rightarrow> auth_settings \<Rightarrow> time \<Rightarrow> string \<Rightarrow> auth_db \<Rightarrow>
   http_error + user_row" where
  "decode_access_token sha decode st now token db =
    (let unauthorized = Inl (HTTP 401 ''Authentication required'') in
     case decode now token of
       None \<Rightarrow> unauthorized
     | Some c \<Rightarrow>
        if dict_get c ''type'' \<noteq> PStr ''access'' then unauthorized
        else (case (map_of c ''sub'', map_of c ''jti'') of
           (Some sub, Some (PStr jti)) \<Rightarrow>
             (case find (\<lambda>s. PStr (ss_user_id s) = sub \<and> ss_jti_hash s = sha jti \<and> ss_revoked_at s = None)
                     (au_sessions db) of
                None \<Rightarrow> unauthorized
              | Some s \<Rightarrow>
                 if ss_expires_at s < now then unauthorized
                 else (case tbl_find us_id (ss_user_id s) (au_users db) of
                    None \<Rightarrow> unauthorized
                  | Some u \<Rightarrow>
                     (case (if st_mode st = LStaticPin \<or> \<not> st_local st
                            then find_mapped_login_user db (us_phone u)
                            else find_login_eligible_user db (us_phone u)) of
                        Inl e \<Rightarrow> Inl e
                      | Inr None \<Rightarrow> unauthorized
                      | Inr (Some _) \<Rightarrow> if us_status u \<noteq> ''active'' then unauthorized else Inr u)))
         | (Some _, Some _) \<Rightarrow> Inl (HTTP 500 ''Internal Server Error'')
         | _ \<Rightarrow> unauthorized))"

definition token_jti_hash ::
  "(string \<Rightarrow> string) \<Rightarrow> (time \<Rightarrow> string \<Rightarrow> claims option) \<Rightarrow> time \<Rightarrow> string \<Rightarrow> string option" where
  "token_jti_hash sha decode now token = (case decode now token of None \<Rightarrow> None
     | Some c \<Rightarrow> (case map_of c ''jti'' of Some (PStr j) \<Rightarrow> Some (sha j) | _ \<Rightarrow> None))"

definition revoke_token ::
  "(string \<Rightarrow> string) \<Rightarrow> (time \<Rightarrow> string \<Rightarrow> claims option) \<Rightarrow> time \<Rightarrow> string \<Rightarrow> auth_db \<Rightarrow>
   http_error + auth_db" where
  "revoke_token sha decode now token db =
    (case decode now token of
       None \<Rightarrow> Inr db
     | Some c \<Rightarrow>
        (case map_of c ''jti'' of
           None \<Rightarrow> Inr db
         | Some (PStr j) \<Rightarrow>
            (case find (\<lambda>s. ss_jti_hash s = sha j) (au_sessions db) of
               None \<Rightarrow> Inr db
             | Some s \<Rightarrow> Inr (if ss_revoked_at s \<noteq> None then db
                else db\<lparr>au_sessions := tbl_upd ss_id (ss_id s) (\<lambda>r. r\<lparr>ss_revoked_at := Some now\<rparr>) (au_sessions db)\<rparr>))
         | Some _ \<Rightarrow> Inl (HTTP 500 ''Internal Server Error'')))"

definition other_session :: "ident \<Rightarrow> time \<Rightarrow> string \<Rightarrow> auth_session \<Rightarrow> bool" where
  "other_session uid now h s = (ss_user_id s = uid \<and> ss_revoked_at s = None \<and> now < ss_expires_at s
     \<and> ss_jti_hash s \<noteq> h)"

definition revoke_other_tokens ::
  "(string \<Rightarrow> string) \<Rightarrow> (time \<Rightarrow> string \<Rightarrow> claims option) \<Rightarrow> time \<Rightarrow> ident \<Rightarrow> string \<Rightarrow> auth_db \<Rightarrow>
   http_error + (auth_db \<times> int)" where
  "revoke_other_tokens sha decode now uid token db =
    (let denied = Inl (HTTP 401 ''Authentication required'') in
     case decode now token of
       None \<Rightarrow> denied
     | Some c \<Rightarrow>
        if dict_get c ''type'' \<noteq> PStr ''access'' \<or> dict_get c ''sub'' \<noteq> PStr uid then denied
        else (case token_jti_hash sha decode now token of
           None \<Rightarrow> denied
         | Some h \<Rightarrow> Inr (db\<lparr>au_sessions := map (\<lambda>s. if other_session uid now h s
                then s\<lparr>ss_revoked_at := Some now\<rparr> else s) (au_sessions db)\<rparr>,
              int (length (filter (other_session uid now h) (au_sessions db))))))"

section \<open>A login code has a bounded number of guesses and one use\<close>

fun guesses ::
  "(string \<Rightarrow> string) \<Rightarrow> auth_settings \<Rightarrow> string \<Rightarrow> (time \<times> string) list \<Rightarrow> auth_db \<Rightarrow> auth_db" where
  "guesses hash st phone [] db = db"
| "guesses hash st phone ((t, g) # gs) db = guesses hash st phone gs (fst (verify_otp hash st t phone g db))"

lemma latest_set_otp:
  assumes "\<And>r. ot_phone (f r) = ot_phone r" "\<And>r. ot_purpose (f r) = ot_purpose r"
    "\<And>r. ot_created_at (f r) = ot_created_at r"
  shows "latest_otp (set_otp oid f db) phone =
    map_option (\<lambda>r. if ot_id r = oid then f r else r) (latest_otp db phone)"
  unfolding latest_otp_def set_otp_def tbl_upd_def
  using first_by_map[where f = "\<lambda>r. if ot_id r = oid then f r else r"
      and key = "\<lambda>r. - ot_created_at r" and p = "\<lambda>r. ot_phone r = phone \<and> ot_purpose r = PLogin"]
    assms by simp

lemma set_otp_tables [simp]:
  "au_users (set_otp oid f db) = au_users db" "au_phones (set_otp oid f db) = au_phones db"
  "au_memberships (set_otp oid f db) = au_memberships db" "au_tenants (set_otp oid f db) = au_tenants db"
  "au_roles (set_otp oid f db) = au_roles db"
  by (simp_all add: set_otp_def)

lemma login_user_otps [simp]: "login_user st (set_otp oid f db) phone = login_user st db phone"
  by (simp add: login_user_def find_login_eligible_user_def find_mapped_login_user_def
      active_mapping_def has_platform_role_def opted_out_def)

text \<open>The row after \<open>k\<close> failed guesses.\<close>

definition guessed :: "auth_settings \<Rightarrow> otp_row \<Rightarrow> nat \<Rightarrow> otp_row" where
  "guessed st otp k = otp\<lparr>ot_attempts := ot_attempts otp + min (int k) (max 0 (st_otp_max_attempts st - ot_attempts otp))\<rparr>"

lemma guessed_locked: "st_otp_max_attempts st \<le> ot_attempts otp \<Longrightarrow> guessed st otp k = otp"
  by (simp add: guessed_def)

lemma guessed_Suc:
  "ot_attempts otp < st_otp_max_attempts st \<Longrightarrow>
   guessed st (otp\<lparr>ot_attempts := ot_attempts otp + 1\<rparr>) k = guessed st otp (Suc k)"
  by (simp add: guessed_def min_def max_def)

lemma guessed_keeps [simp]:
  "ot_consumed_at (guessed st otp k) = ot_consumed_at otp" "ot_expires_at (guessed st otp k) = ot_expires_at otp"
  "ot_code_hash (guessed st otp k) = ot_code_hash otp" "ot_id (guessed st otp k) = ot_id otp"
  by (simp_all add: guessed_def)

lemma guesses_spend:
  assumes "e164 phone" "latest_otp db phone = Some otp" "ot_consumed_at otp = None"
    and "\<And>t g. (t, g) \<in> set gs \<Longrightarrow> t < ot_expires_at otp \<and> hash (phone @ '':'' @ g) \<noteq> ot_code_hash otp"
  shows "latest_otp (guesses hash st phone gs db) phone = Some (guessed st otp (length gs))
    \<and> login_user st (guesses hash st phone gs db) phone = login_user st db phone"
  using assms(2-4)
proof (induction gs arbitrary: db otp)
  case Nil
  then show ?case by (simp add: guessed_def)
next
  case (Cons tg gs)
  obtain t g where tg: "tg = (t, g)" by fastforce
  have w: "\<not> ot_expires_at otp \<le> t" "ot_code_hash otp \<noteq> hash (phone @ '':'' @ g)"
    using Cons.prems(3)[of t g] by (auto simp: tg)
  have w': "t' < ot_expires_at otp \<and> hash (phone @ '':'' @ g') \<noteq> ot_code_hash otp" if "(t', g') \<in> set gs" for t' g'
    by (rule Cons.prems(3)) (simp add: that)
  show ?case
  proof (cases "st_otp_max_attempts st \<le> ot_attempts otp")
    case True
    then have "fst (verify_otp hash st t phone g db) = db"
      using Cons.prems(1,2) w(1) by (simp add: verify_otp_def normalize_id[OF assms(1)])
    moreover have "latest_otp (guesses hash st phone gs db) phone = Some (guessed st otp (length gs))
        \<and> login_user st (guesses hash st phone gs db) phone = login_user st db phone"
      by (rule Cons.IH[OF Cons.prems(1,2)]) (rule w')
    ultimately show ?thesis using guessed_locked[OF True] by (simp add: tg)
  next
    case False
    define otp' where "otp' = otp\<lparr>ot_attempts := ot_attempts otp + 1\<rparr>"
    define db' where "db' = set_otp (ot_id otp) (\<lambda>r. r\<lparr>ot_attempts := ot_attempts r + 1\<rparr>) db"
    have "fst (verify_otp hash st t phone g db) = db'"
      using Cons.prems(1,2) w False by (simp add: verify_otp_def normalize_id[OF assms(1)] db'_def)
    moreover have "latest_otp db' phone = Some otp'"
      using Cons.prems(1) by (simp add: db'_def otp'_def latest_set_otp)
    moreover have "login_user st db' phone = login_user st db phone" by (simp add: db'_def)
    moreover have "latest_otp (guesses hash st phone gs db') phone = Some (guessed st otp' (length gs))
        \<and> login_user st (guesses hash st phone gs db') phone = login_user st db' phone"
      if "latest_otp db' phone = Some otp'"
      by (rule Cons.IH[OF that]) (use Cons.prems(2) w' in \<open>auto simp: otp'_def\<close>)
    moreover have "guessed st otp' (length gs) = guessed st otp (Suc (length gs))"
      unfolding otp'_def using False by (intro guessed_Suc) simp
    ultimately show ?thesis by (simp add: tg)
  qed
qed

lemma closes:
  assumes "r \<in> set (consume_open phone now rows)" "ot_phone r = phone" "ot_purpose r = PLogin"
  shows "ot_consumed_at r \<noteq> None"
proof -
  obtain x where "r = (if ot_phone x = phone \<and> ot_purpose x = PLogin \<and> ot_consumed_at x = None
      then x\<lparr>ot_consumed_at := Some now\<rparr> else x)"
    using assms(1) unfolding consume_open_def set_map by (elim imageE)
  with assms(2,3) show ?thesis by (cases "ot_consumed_at x") (simp_all split: if_splits)
qed

lemma issue_otp_latest:
  assumes "issue_otp hash st oid now rnd phone db = Inr (db', otp, pin)"
    and "\<And>r. r \<in> set (au_otps db) \<Longrightarrow> ot_created_at r < now"
  obtains n where "normalize_phone phone = Inr n" "otp = new_otp hash st oid now n pin"
    "latest_otp db' n = Some otp" "au_users db' = au_users db" "login_user st db' n = login_user st db n"
    "\<And>r. r \<in> set (au_otps db') \<Longrightarrow> ot_phone r = n \<Longrightarrow> ot_purpose r = PLogin \<Longrightarrow>
       ot_consumed_at r = None \<Longrightarrow> r = otp"
proof -
  obtain n where n: "normalize_phone phone = Inr n" "otp = new_otp hash st oid now n pin"
    "db' = db\<lparr>au_otps := consume_open n now (au_otps db) @ [otp]\<rparr>"
    using assms(1) by (auto simp: issue_otp_def and_then_Inr Let_def split: if_splits)
  have otp: "ot_phone otp = n" "ot_purpose otp = PLogin" "ot_created_at otp = now"
    by (simp_all add: n(2) new_otp_def)
  have "ot_created_at r < now" if "r \<in> set (consume_open n now (au_otps db))" for r
    using that assms(2) by (auto simp: consume_open_def)
  then have "latest_otp db' n = Some otp"
    unfolding latest_otp_def by (intro first_by_least) (auto simp: n(3) otp)
  moreover have "login_user st db' n = login_user st db n"
    by (simp add: n(3) login_user_def find_login_eligible_user_def find_mapped_login_user_def
        active_mapping_def has_platform_role_def opted_out_def)
  moreover have "r = otp" if "r \<in> set (au_otps db')" "ot_phone r = n" "ot_purpose r = PLogin"
    "ot_consumed_at r = None" for r
    using that closes[of r n now "au_otps db"] by (auto simp: n(3))
  moreover have "au_users db' = au_users db" by (simp add: n(3))
  ultimately show thesis using that[OF n(1,2)] by blast
qed

text \<open>C22: a login code survives fewer wrong guesses than the attempt limit, no more, and works once. After a
  code is issued, it is the only open one of its phone number; following any sequence of wrong guesses
  before it expires, the right code signs the eligible user in when the guesses stayed below the limit
  and is answered with "locked" when they reached it; and once it signed somebody in, no code is
  accepted for that number until another is issued.\<close>

theorem otp_guess_budget:
  assumes "issue_otp hash st oid now rnd phone db = Inr (db1, otp, pin)"
    and "\<And>r. r \<in> set (au_otps db) \<Longrightarrow> ot_created_at r < now"
    and "normalize_phone phone = Inr n" and "0 \<le> st_otp_max_attempts st"
    and "\<And>s g. (s, g) \<in> set gs \<Longrightarrow> s < ot_expires_at otp \<and> hash (n @ '':'' @ g) \<noteq> hash (n @ '':'' @ pin)"
    and "t < ot_expires_at otp" and "login_user st db n = Inr (Some u)"
    and "verify_otp hash st t n pin (guesses hash st n gs db1) = (db2, outcome)"
  shows "(\<forall>r \<in> set (au_otps db1). ot_phone r = n \<and> ot_purpose r = PLogin \<and> ot_consumed_at r = None \<longrightarrow> r = otp)
    \<and> outcome = (if int (length gs) < st_otp_max_attempts st then Inr u else Inl (HTTP 423 ''Code is locked''))
    \<and> (is_ok outcome \<longrightarrow> (\<forall>t' g. verify_otp hash st t' n g db2 = (db2, Inl (HTTP 401 ''Invalid or expired code''))))"
proof -
  obtain n' where i: "normalize_phone phone = Inr n'" "otp = new_otp hash st oid now n' pin"
    "latest_otp db1 n' = Some otp" "login_user st db1 n' = login_user st db n'"
    "\<And>r. r \<in> set (au_otps db1) \<Longrightarrow> ot_phone r = n' \<Longrightarrow> ot_purpose r = PLogin \<Longrightarrow>
       ot_consumed_at r = None \<Longrightarrow> r = otp"
    by (rule issue_otp_latest[OF assms(1,2)]) blast+
  have n: "n' = n" "e164 n" using i(1) assms(3) normalize_e164 by auto
  note i = i[unfolded n(1)]
  have f: "ot_consumed_at otp = None" "ot_code_hash otp = hash (n @ '':'' @ pin)" "ot_attempts otp = 0"
    using i(2) by (simp_all add: new_otp_def)
  define db' where "db' = guesses hash st n gs db1"
  have st: "latest_otp db' n = Some (guessed st otp (length gs))" "login_user st db' n = Inr (Some u)"
    using guesses_spend[OF n(2) i(3) f(1), of gs hash st] assms(5,7) i(4) by (auto simp: db'_def f(2))
  have att: "ot_attempts (guessed st otp (length gs)) = min (int (length gs)) (st_otp_max_attempts st)"
    using assms(4) f(3) by (simp add: guessed_def)
  have v: "verify_otp hash st t n pin db' = (if int (length gs) < st_otp_max_attempts st
      then (set_otp (ot_id otp) (\<lambda>r. r\<lparr>ot_consumed_at := Some t\<rparr>) db', Inr u)
      else (db', Inl (HTTP 423 ''Code is locked'')))"
    unfolding verify_otp_def normalize_id[OF n(2)] using assms(6)
    by (simp add: st att f min_le_iff_disj)
  have out: "outcome = (if int (length gs) < st_otp_max_attempts st then Inr u else Inl (HTTP 423 ''Code is locked''))"
    using v assms(8) by (auto simp: db'_def split: if_splits)
  have "verify_otp hash st t' n g db2 = (db2, Inl (HTTP 401 ''Invalid or expired code''))"
    if "is_ok outcome" for t' g
  proof -
    have "int (length gs) < st_otp_max_attempts st" using that out by (auto split: if_splits)
    then have "db2 = set_otp (ot_id otp) (\<lambda>r. r\<lparr>ot_consumed_at := Some t\<rparr>) db'"
      using v assms(8) by (simp add: db'_def)
    then have "latest_otp db2 n = Some ((guessed st otp (length gs))\<lparr>ot_consumed_at := Some t\<rparr>)"
      using st(1) by (simp add: latest_set_otp guessed_def)
    then show ?thesis by (simp add: verify_otp_def normalize_id[OF n(2)])
  qed
  with i(5) out show ?thesis by blast
qed

section \<open>Access tokens open exactly one live session\<close>

text \<open>A session stays usable until it is revoked or expires.\<close>

definition live_session :: "auth_db \<Rightarrow> time \<Rightarrow> string \<Rightarrow> auth_session \<Rightarrow> bool" where
  "live_session db now h s = (s \<in> set (au_sessions db) \<and> ss_jti_hash s = h \<and> ss_revoked_at s = None
     \<and> now \<le> ss_expires_at s)"

lemma decode_access_token_Inr:
  assumes "decode_access_token sha decode st now token db = Inr u"
  obtains c jti s m where "decode now token = Some c" "map_of c ''jti'' = Some (PStr jti)"
    "dict_get c ''type'' = PStr ''access''" "map_of c ''sub'' = Some (PStr (us_id u))"
    "live_session db now (sha jti) s" "ss_user_id s = us_id u" "u \<in> set (au_users db)"
    "us_status u = ''active''"
    "(if st_mode st = LStaticPin \<or> \<not> st_local st then find_mapped_login_user db (us_phone u)
      else find_login_eligible_user db (us_phone u)) = Inr (Some m)"
proof -
  obtain c where c: "decode now token = Some c" and ty: "dict_get c ''type'' = PStr ''access''"
    using assms by (auto simp: decode_access_token_def Let_def split: option.splits if_splits)
  obtain jti where j: "map_of c ''jti'' = Some (PStr jti)"
    using assms c ty by (auto simp: decode_access_token_def Let_def split: option.splits pyval.splits)
  obtain sub where sub: "map_of c ''sub'' = Some sub"
    using assms c ty j by (auto simp: decode_access_token_def Let_def split: option.splits)
  obtain s where s: "find (\<lambda>s. PStr (ss_user_id s) = sub \<and> ss_jti_hash s = sha jti \<and> ss_revoked_at s = None)
      (au_sessions db) = Some s"
    using assms c ty j sub by (auto simp: decode_access_token_def Let_def split: option.splits)
  have e: "now \<le> ss_expires_at s"
    using assms c ty j sub s by (auto simp: decode_access_token_def Let_def split: if_splits)
  obtain w where w: "tbl_find us_id (ss_user_id s) (au_users db) = Some w"
    using assms c ty j sub s e by (auto simp: decode_access_token_def Let_def split: option.splits)
  define L where "L = (if st_mode st = LStaticPin \<or> \<not> st_local st then find_mapped_login_user db (us_phone w)
      else find_login_eligible_user db (us_phone w))"
  have "(case L of Inl e \<Rightarrow> Inl e | Inr None \<Rightarrow> Inl (HTTP 401 ''Authentication required'')
      | Inr (Some _) \<Rightarrow> if us_status w \<noteq> ''active'' then Inl (HTTP 401 ''Authentication required'') else Inr w) = Inr u"
    using assms e unfolding decode_access_token_def Let_def c option.case j sub s w prod.case pyval.case ty L_def
    by (simp split: if_splits)
  then obtain m where m: "L = Inr (Some m)" and u: "u = w" "us_status u = ''active''"
    by (cases L rule: sum.exhaust; cases "projr L") (auto split: if_splits)
  note m = m[unfolded L_def]
  have "s \<in> set (au_sessions db)" "PStr (ss_user_id s) = sub" "ss_jti_hash s = sha jti" "ss_revoked_at s = None"
    using s by (auto simp: find_Some_iff)
  with e have live: "live_session db now (sha jti) s" and s': "PStr (ss_user_id s) = sub"
    by (simp_all add: live_session_def)
  have w': "us_id w = ss_user_id s" "w \<in> set (au_users db)" using tbl_find_Some[OF w] by simp_all
  show thesis
    by (rule that[where m = m, OF c j ty _ live _ _ u(2)]) (use m[folded u(1)] sub s' w' u(1) in \<open>simp_all split del: if_split\<close>)
qed

text \<open>What the tokens' library promises of one token: it decodes to what was encoded while it is valid.\<close>

definition jwt_faithful :: "(time \<Rightarrow> string \<Rightarrow> claims option) \<Rightarrow> string \<Rightarrow> claims \<Rightarrow> time \<Rightarrow> time \<Rightarrow> bool" where
  "jwt_faithful decode token c issued expires = (\<forall>t. decode t token =
     (if seconds (issued div 1000000) \<le> t \<and> t < seconds (expires div 1000000) then Some c else None))"

lemma whole_seconds: "seconds (t div 1000000) \<le> t"
  unfolding seconds_def by presburger

lemma access_claims_get [simp]:
  "map_of (access_claims uid jti a b) ''sub'' = Some (PStr uid)"
  "map_of (access_claims uid jti a b) ''jti'' = Some (PStr jti)"
  "dict_get (access_claims uid jti a b) ''type'' = PStr ''access''"
  by (simp_all add: access_claims_def dict_get_def)

lemma find_append: "find p (xs @ ys) = (case find p xs of None \<Rightarrow> find p ys | Some x \<Rightarrow> Some x)"
  by (induction xs) auto

lemma find_fresh: "(\<And>x. x \<in> set xs \<Longrightarrow> \<not> p x) \<Longrightarrow> find p xs = None"
  by (auto simp: find_None_iff)

lemma mapped_user_sessions [simp]:
  "find_mapped_login_user (db\<lparr>au_sessions := ss\<rparr>) phone = find_mapped_login_user db phone"
  by (simp add: find_mapped_login_user_def active_mapping_def)

text \<open>An access token works from its issue to its expiry, for its user only, unless it is revoked. A token
  created for an active user with an approved mapping decodes to exactly that user at every instant of
  its validity and is refused with 401 afterwards; logging out with it at any valid instant makes it
  be refused at every instant, whether before or after, and leaves every other session as it was.\<close>

theorem token_lifecycle:
  assumes "create_access_token sha encode st sid jti now u db = (db1, token, s)"
    and "jwt_faithful decode token (access_claims (us_id u) jti now (ss_expires_at s)) now (ss_expires_at s)"
    and "\<And>r. r \<in> set (au_sessions db) \<Longrightarrow> ss_jti_hash r \<noteq> sha jti \<and> ss_id r \<noteq> sid"
    and "tbl_find us_id (us_id u) (au_users db) = Some u" "us_status u = ''active''" "\<not> st_local st"
    and "find_mapped_login_user db (us_phone u) = Inr (Some m)"
  shows "(\<forall>t. decode_access_token sha decode st t token db1 =
        (if seconds (now div 1000000) \<le> t \<and> t < seconds (ss_expires_at s div 1000000) then Inr u
         else Inl (HTTP 401 ''Authentication required'')))
    \<and> (\<forall>t db2. seconds (now div 1000000) \<le> t \<and> t < seconds (ss_expires_at s div 1000000)
        \<and> revoke_token sha decode t token db1 = Inr db2 \<longrightarrow>
          (\<forall>t'. decode_access_token sha decode st t' token db2 = Inl (HTTP 401 ''Authentication required''))
          \<and> au_sessions db2 = au_sessions db @ [s\<lparr>ss_revoked_at := Some t\<rparr>])"
proof (intro conjI allI impI)
  have s: "s = \<lparr> ss_id = sid, ss_user_id = us_id u, ss_jti_hash = sha jti,
      ss_expires_at = now + minutes (st_token_minutes st), ss_revoked_at = None \<rparr>"
    and db1: "db1 = db\<lparr>au_sessions := au_sessions db @ [s]\<rparr>"
    using assms(1) by (auto simp: create_access_token_def Let_def)
  note dec = assms(2)[unfolded jwt_faithful_def, rule_format]
  have f1: "find (\<lambda>r. ss_user_id r = us_id u \<and> ss_jti_hash r = sha jti \<and> ss_revoked_at r = None) (au_sessions db) = None"
    and f2: "find (\<lambda>r. ss_jti_hash r = sha jti) (au_sessions db) = None"
    using assms(3) by (auto intro!: find_fresh)
  fix t
  show "decode_access_token sha decode st t token db1 =
        (if seconds (now div 1000000) \<le> t \<and> t < seconds (ss_expires_at s div 1000000) then Inr u
         else Inl (HTTP 401 ''Authentication required''))"
    using whole_seconds[of "ss_expires_at s"] assms(4-7)
    by (simp add: decode_access_token_def dec db1 find_append f1 s)
  fix db2
  assume r: "seconds (now div 1000000) \<le> t \<and> t < seconds (ss_expires_at s div 1000000)
      \<and> revoke_token sha decode t token db1 = Inr db2"
  have sid: "tbl_upd ss_id sid f (au_sessions db) = au_sessions db" for f
    using assms(3) by (intro tbl_upd_absent) auto
  have "db2 = db1\<lparr>au_sessions := tbl_upd ss_id sid (\<lambda>r. r\<lparr>ss_revoked_at := Some t\<rparr>) (au_sessions db1)\<rparr>"
  proof -
    have "decode t token = Some (access_claims (us_id u) jti now (ss_expires_at s))" using r dec by simp
    then show ?thesis
      using r conjunct2[OF conjunct2[OF r]] by (simp add: revoke_token_def db1 find_append f2) (simp add: s)
  qed
  then have db2: "db2 = db\<lparr>au_sessions := au_sessions db @ [s\<lparr>ss_revoked_at := Some t\<rparr>]\<rparr>"
    using sid by (simp add: db1 tbl_upd_def s)
  then show "au_sessions db2 = au_sessions db @ [s\<lparr>ss_revoked_at := Some t\<rparr>]" by simp
  fix t'
  show "decode_access_token sha decode st t' token db2 = Inl (HTTP 401 ''Authentication required'')"
    by (simp add: decode_access_token_def dec db2 find_append f1 s)
qed

text \<open>C22: "sign out everywhere else" leaves one session. When revoking the other tokens succeeds, the sessions of
  the caller still usable strictly later are exactly the one of the presented token (if it was usable),
  the answer is the number of sessions ended, and no session of another user changes.\<close>

theorem sign_out_elsewhere:
  assumes "revoke_other_tokens sha decode now uid token db = Inr (db', n)"
  shows "\<exists>h. token_jti_hash sha decode now token = Some h
    \<and> (\<forall>s t k. now < t \<and> ss_user_id s = uid \<longrightarrow>
         (live_session db' t k s \<longleftrightarrow> live_session db t k s \<and> k = h))
    \<and> filter (\<lambda>s. ss_user_id s \<noteq> uid) (au_sessions db') = filter (\<lambda>s. ss_user_id s \<noteq> uid) (au_sessions db)
    \<and> n = int (length (filter (\<lambda>s. ss_revoked_at s = None) (au_sessions db)))
        - int (length (filter (\<lambda>s. ss_revoked_at s = None) (au_sessions db')))"
proof -
  obtain h where h: "token_jti_hash sha decode now token = Some h"
    "db' = db\<lparr>au_sessions := map (\<lambda>s. if other_session uid now h s
        then s\<lparr>ss_revoked_at := Some now\<rparr> else s) (au_sessions db)\<rparr>"
    "n = int (length (filter (other_session uid now h) (au_sessions db)))"
    using assms by (auto simp: revoke_other_tokens_def Let_def split: option.splits if_splits)
  define f where "f s = (if other_session uid now h s then s\<lparr>ss_revoked_at := Some now\<rparr> else s)" for s
  have ss: "au_sessions db' = map f (au_sessions db)" by (simp add: h(2) f_def[abs_def])
  have live: "live_session db' t k s \<longleftrightarrow> live_session db t k s \<and> k = h"
    if t: "now < t" "ss_user_id s = uid" for s t k
  proof
    assume l: "live_session db' t k s"
    then obtain r where r: "r \<in> set (au_sessions db)" "s = f r" by (auto simp: live_session_def ss)
    have "ss_revoked_at (f r) = None" using l r(2) by (simp add: live_session_def)
    then have o: "\<not> other_session uid now h r" by (auto simp: f_def)
    then have "s = r" using r(2) by (simp add: f_def)
    with o show "live_session db t k s \<and> k = h" using l r t by (auto simp: live_session_def other_session_def)
  next
    assume l: "live_session db t k s \<and> k = h"
    then have "f s = s" by (simp add: f_def other_session_def live_session_def)
    then show "live_session db' t k s"
      using l unfolding live_session_def ss by (metis image_eqI list.set_map)
  qed
  have others: "filter (\<lambda>s. ss_user_id s \<noteq> uid) (map f xs) = filter (\<lambda>s. ss_user_id s \<noteq> uid) xs" for xs
    by (induction xs) (auto simp: f_def other_session_def)
  have count: "int (length (filter (other_session uid now h) xs)) =
      int (length (filter (\<lambda>s. ss_revoked_at s = None) xs))
      - int (length (filter (\<lambda>s. ss_revoked_at s = None) (map f xs)))" for xs
    by (induction xs) (auto simp: f_def other_session_def)
  show ?thesis using h(1,3) live others count ss by auto
qed

section \<open>Concrete sign-ins\<close>

definition ex_settings :: auth_settings where
  "ex_settings = \<lparr> st_local = False, st_mode = LWhatsappOtp, st_otp_ttl_minutes = 10, st_otp_max_attempts = 3,
     st_otp_cooldown = 60, st_local_code = ''000000'', st_pin_verifier = [], st_pin_expires_at = None,
     st_token_minutes = 60 \<rparr>"

definition ex_phone :: string where
  "ex_phone = ''+2348012345678''"

definition ex_otp :: otp_row where
  "ex_otp = new_otp id ex_settings ''o1'' 5 ex_phone ''123456''"

lemma ex_issue:
  "issue_otp id ex_settings ''o1'' 5 ''123456'' ''+234 801-234-5678'' ex_auth =
     Inr (ex_auth\<lparr>au_otps := [ex_otp]\<rparr>, ex_otp, ''123456'')"
  "normalize_phone ''+234 801-234-5678'' = Inr ex_phone"
  "login_user ex_settings ex_auth ex_phone = Inr (Some ex_user)"
  by code_simp+

theorem otp_guess_budget_witness:
  "is_ok (snd (verify_otp id ex_settings 9 ex_phone ''123456''
     (guesses id ex_settings ex_phone [(6, ''1''), (7, ''2'')] (ex_auth\<lparr>au_otps := [ex_otp]\<rparr>))))"
proof -
  let ?db = "guesses id ex_settings ex_phone [(6, ''1''), (7, ''2'')] (ex_auth\<lparr>au_otps := [ex_otp]\<rparr>)"
  obtain db2 outcome where v: "verify_otp id ex_settings 9 ex_phone ''123456'' ?db = (db2, outcome)" by fastforce
  have x: "ot_expires_at ex_otp = 600000005" "st_otp_max_attempts ex_settings = 3" by code_simp+
  have "outcome = (if int (length [(6::int, ''1''), (7, ''2'')]) < st_otp_max_attempts ex_settings then Inr ex_user
      else Inl (HTTP 423 ''Code is locked''))"
    by (rule otp_guess_budget[OF ex_issue(1) _ ex_issue(2) _ _ _ ex_issue(3) v, THEN conjunct2, THEN conjunct1])
      (use x in \<open>auto simp: ex_auth_def\<close>)
  with v x show ?thesis by simp
qed

definition ex_claims :: claims where
  "ex_claims = access_claims ''u1'' ''j'' 0 3600000000"

definition ex_decode :: "time \<Rightarrow> string \<Rightarrow> claims option" where
  "ex_decode t token = (if token = ''tok'' \<and> 0 \<le> t \<and> t < 3600000000 then Some ex_claims else None)"

theorem token_lifecycle_witness:
  "\<exists>db1 s. create_access_token id (\<lambda>_. ''tok'') ex_settings ''s1'' ''j'' 0 ex_user ex_auth = (db1, ''tok'', s)
    \<and> decode_access_token id ex_decode ex_settings 7 ''tok'' db1 = Inr ex_user"
proof -
  obtain db1 s where c: "create_access_token id (\<lambda>_. ''tok'') ex_settings ''s1'' ''j'' 0 ex_user ex_auth = (db1, ''tok'', s)"
    by (auto simp: create_access_token_def Let_def)
  then have s: "ss_expires_at s = 3600000000"
    by (auto simp: create_access_token_def Let_def ex_settings_def minutes_def seconds_def)
  have u: "us_id ex_user = ''u1''" "us_status ex_user = ''active''" "\<not> st_local ex_settings"
    "tbl_find us_id (us_id ex_user) (au_users ex_auth) = Some ex_user"
    "find_mapped_login_user ex_auth (us_phone ex_user) = Inr (Some ex_user)" "au_sessions ex_auth = []"
    by code_simp+
  have "jwt_faithful ex_decode ''tok'' (access_claims (us_id ex_user) ''j'' 0 (ss_expires_at s)) 0 (ss_expires_at s)"
    by (auto simp: jwt_faithful_def ex_decode_def ex_claims_def s u(1) seconds_def)
  from token_lifecycle[OF c this _ u(4,2,3,5), THEN conjunct1, rule_format, of 7] u(6) s c
  show ?thesis by (auto simp: seconds_def)
qed

theorem sign_out_elsewhere_witness:
  "snd (projr (revoke_other_tokens id ex_decode 7 ''u1'' ''tok''
     (ex_auth\<lparr>au_sessions := [\<lparr> ss_id = ''s2'', ss_user_id = ''u1'', ss_jti_hash = ''k'', ss_expires_at = 9,
        ss_revoked_at = None \<rparr>]\<rparr>))) = 1"
proof -
  let ?db = "ex_auth\<lparr>au_sessions := [\<lparr> ss_id = ''s2'', ss_user_id = ''u1'', ss_jti_hash = ''k'', ss_expires_at = 9,
        ss_revoked_at = None \<rparr>]\<rparr>"
  have ok: "is_ok (revoke_other_tokens id ex_decode 7 ''u1'' ''tok'' ?db)" by code_simp
  then obtain db' n where r: "revoke_other_tokens id ex_decode 7 ''u1'' ''tok'' ?db = Inr (db', n)"
    by (cases "revoke_other_tokens id ex_decode 7 ''u1'' ''tok'' ?db") auto
  from sign_out_elsewhere[OF r] obtain h where h: "token_jti_hash id ex_decode 7 ''tok'' = Some h"
    "n = int (length (filter (\<lambda>s. ss_revoked_at s = None) (au_sessions ?db)))
        - int (length (filter (\<lambda>s. ss_revoked_at s = None) (au_sessions db')))"
    by blast
  have "h = ''j''" using h(1) by (simp add: token_jti_hash_def ex_decode_def ex_claims_def)
  then have "length (filter (\<lambda>s. ss_revoked_at s = None) (au_sessions db')) = 0"
    using r by (auto simp: revoke_other_tokens_def Let_def h(1) other_session_def split: option.splits if_splits)
  with h(2) r show ?thesis by simp
qed

end
