(* ===== verification/RateLimit.thy ===== *)
theory RateLimit
  imports Identity
begin

text \<open>
  Fixed-window budgets (\<^verbatim>\<open>app/core/rate_limit.py\<close>): the Lua script, its call and the two wrappers.

  The Redis server is a parameter: \<open>redis_ops\<close> are the commands the script calls at an instant
  (the script runs atomically) and \<open>view t s k\<close> is the counter and expiry of a key. \<open>redis_laws\<close>
  states their documented behaviour; \<^verbatim>\<open>TTL\<close> answers in whole seconds, rounded either way.
  Windows are in seconds, instants in microseconds.
\<close>

record 's redis_ops =
  rd_get :: "time \<Rightarrow> 's \<Rightarrow> string \<Rightarrow> int option"
  rd_ttl :: "time \<Rightarrow> 's \<Rightarrow> string \<Rightarrow> int"
  rd_incr :: "time \<Rightarrow> string \<Rightarrow> 's \<Rightarrow> 's \<times> int"
  rd_expire :: "time \<Rightarrow> string \<Rightarrow> int \<Rightarrow> 's \<Rightarrow> 's"

type_synonym 's redis_view = "time \<Rightarrow> 's \<Rightarrow> string \<Rightarrow> (int \<times> time option) option"

definition incremented :: "(int \<times> time option) option \<Rightarrow> int \<times> time option" where
  "incremented x = (case x of None \<Rightarrow> (1, None) | Some (n, e) \<Rightarrow> (n + 1, e))"

definition redis_laws :: "'s redis_ops \<Rightarrow> 's redis_view \<Rightarrow> bool" where
  "redis_laws ops view = (
     (\<forall>t s k. rd_get ops t s k = map_option fst (view t s k))
   \<and> (\<forall>t s k. view t s k = None \<longrightarrow> rd_ttl ops t s k = - 2)
   \<and> (\<forall>t s k n. view t s k = Some (n, None) \<longrightarrow> rd_ttl ops t s k = - 1)
   \<and> (\<forall>t s k n e. view t s k = Some (n, Some e) \<longrightarrow> 0 \<le> rd_ttl ops t s k \<and> t < e
        \<and> seconds (rd_ttl ops t s k - 1) < e - t \<and> e - t < seconds (rd_ttl ops t s k + 1))
   \<and> (\<forall>t s k k'. view t (fst (rd_incr ops t k s)) k' =
        (if k' = k then Some (incremented (view t s k)) else view t s k'))
   \<and> (\<forall>t s k. snd (rd_incr ops t k s) = fst (incremented (view t s k)))
   \<and> (\<forall>t s k w k'. 0 < w \<longrightarrow> view t (rd_expire ops t k w s) k' =
        (if k' = k then map_option (\<lambda>x. (fst x, Some (t + seconds w))) (view t s k) else view t s k'))
   \<and> (\<forall>t t' s k. t \<le> t' \<longrightarrow> view t' s k =
        (case view t s k of Some (n, Some e) \<Rightarrow> if e \<le> t' then None else Some (n, Some e) | x \<Rightarrow> x)))"

section \<open>The script\<close>

definition script_check ::
  "'s redis_ops \<Rightarrow> time \<Rightarrow> int \<Rightarrow> string \<times> int \<Rightarrow> 's \<times> int \<Rightarrow> 's \<times> int" where
  "script_check ops t window kl acc = (case (kl, acc) of ((key, limit), (s, retry_after)) \<Rightarrow>
     (let current = (case rd_get ops t s key of None \<Rightarrow> 0 | Some v \<Rightarrow> v) in
      if limit \<le> current then
        (let ttl = rd_ttl ops t s key;
             s' = (if ttl < 1 then rd_expire ops t key window s else s);
             ttl' = (if ttl < 1 then window else ttl)
         in (s', if retry_after < ttl' then ttl' else retry_after))
      else (s, retry_after)))"

definition script_spend :: "'s redis_ops \<Rightarrow> time \<Rightarrow> int \<Rightarrow> string \<Rightarrow> 's \<Rightarrow> 's" where
  "script_spend ops t window key s = (case rd_incr ops t key s of (s', value) \<Rightarrow>
     if value = 1 then rd_expire ops t key window s' else s')"

definition fixed_window_script ::
  "'s redis_ops \<Rightarrow> time \<Rightarrow> int \<Rightarrow> (string \<times> int) list \<Rightarrow> 's \<Rightarrow> 's \<times> int \<times> int" where
  "fixed_window_script ops t window kls s =
    (case fold (script_check ops t window) kls (s, 0) of (s1, retry_after) \<Rightarrow>
       if 0 < retry_after then (s1, 0, retry_after)
       else (fold (script_spend ops t window) (map fst kls) s1, 1, 0))"

section \<open>The call\<close>

datatype rate_error = RateMisuse | RateUnavailable | RateExceeded int

text \<open>The connection may fail before the script runs or after it.\<close>

datatype link = LinkUp | LinkDown | ReplyLost

definition consume_fixed_window ::
  "'s redis_ops \<Rightarrow> link \<Rightarrow> time \<Rightarrow> string list \<Rightarrow> int list \<Rightarrow> int \<Rightarrow> 's \<Rightarrow> 's \<times> (rate_error + unit)" where
  "consume_fixed_window ops lnk t keys limits window s =
    (if keys = [] \<or> length keys \<noteq> length limits then (s, Inl RateMisuse)
     else if lnk = LinkDown then (s, Inl RateUnavailable)
     else (case fixed_window_script ops t window (zip keys limits) s of (s', ok, retry_after) \<Rightarrow>
        if lnk = ReplyLost then (s', Inl RateUnavailable)
        else if ok \<noteq> 1 then (s', Inl (RateExceeded (max 1 retry_after)))
        else (s', Inr ())))"

record rate_settings =
  rs_auth_enabled :: bool
  rs_operation_enabled :: bool
  rs_request_phone_limit :: int
  rs_request_ip_limit :: int
  rs_verify_phone_limit :: int
  rs_verify_ip_limit :: int
  rs_auth_window :: int

text \<open>An error answer and its \<^verbatim>\<open>Retry-After\<close> header; \<open>BadCall\<close> is an escaping \<^verbatim>\<open>ValueError\<close>.\<close>

datatype limit_error = Limited http_error "int option" | BadCall string

definition client_ip :: "(string \<Rightarrow> string option) \<Rightarrow> string option \<Rightarrow> string" where
  "client_ip compressed host = (case compressed (case host of None \<Rightarrow> ''unknown'' | Some h \<Rightarrow> h) of
     None \<Rightarrow> ''unknown'' | Some a \<Rightarrow> a)"

definition auth_limits :: "rate_settings \<Rightarrow> string \<Rightarrow> (int \<times> int) option" where
  "auth_limits st operation =
    (if operation = ''request'' then Some (rs_request_phone_limit st, rs_request_ip_limit st)
     else if operation = ''verify'' then Some (rs_verify_phone_limit st, rs_verify_ip_limit st)
     else None)"

definition auth_keys :: "(string \<Rightarrow> string) \<Rightarrow> string \<Rightarrow> string \<Rightarrow> string \<Rightarrow> string list" where
  "auth_keys hash operation phone address =
    [''bumpabestie:auth:'' @ operation @ '':phone:'' @ hash (''rate-limit:phone:'' @ phone),
     ''bumpabestie:auth:'' @ operation @ '':ip:'' @ hash (''rate-limit:ip:'' @ address)]"

definition enforce_auth_rate_limit ::
  "(string \<Rightarrow> string) \<Rightarrow> 's redis_ops \<Rightarrow> link \<Rightarrow> time \<Rightarrow> rate_settings \<Rightarrow> string \<Rightarrow> string \<Rightarrow> string \<Rightarrow> 's \<Rightarrow>
   's \<times> (limit_error + unit)" where
  "enforce_auth_rate_limit hash ops lnk t st address phone operation s =
    (if \<not> rs_auth_enabled st then (s, Inr ())
     else (case auth_limits st operation of
        None \<Rightarrow> (s, Inl (BadCall ''Unsupported authentication rate-limit operation''))
      | Some (phone_limit, ip_limit) \<Rightarrow>
         (case consume_fixed_window ops lnk t (auth_keys hash operation phone address)
             [phone_limit, ip_limit] (rs_auth_window st) s of
            (s', Inr u) \<Rightarrow> (s', Inr u)
          | (s', Inl RateUnavailable) \<Rightarrow>
              (s', Inl (Limited (HTTP 503 ''Authentication service is temporarily unavailable'') None))
          | (s', Inl (RateExceeded n)) \<Rightarrow>
              (s', Inl (Limited (HTTP 429 ''Too many authentication attempts; try again later'') (Some n)))
          | (s', Inl RateMisuse) \<Rightarrow>
              (s', Inl (BadCall ''Rate-limit keys and limits must be non-empty and aligned'')))))"

definition operation_key :: "(string \<Rightarrow> string) \<Rightarrow> string \<Rightarrow> string \<times> string \<Rightarrow> string" where
  "operation_key hash operation sv = ''bumpabestie:operation:'' @ operation @ '':'' @ fst sv @ '':''
     @ hash (operation @ '':'' @ fst sv @ '':'' @ snd sv)"

text \<open>\<open>scopes\<close> is the dict as its list of items.\<close>

definition consume_operation_rate_limit ::
  "(string \<Rightarrow> string) \<Rightarrow> 's redis_ops \<Rightarrow> link \<Rightarrow> time \<Rightarrow> rate_settings \<Rightarrow> string \<Rightarrow> (string \<times> string) list \<Rightarrow>
   int \<Rightarrow> int \<Rightarrow> 's \<Rightarrow> 's \<times> (rate_error + unit)" where
  "consume_operation_rate_limit hash ops lnk t st operation scopes limit window s =
    (if \<not> rs_operation_enabled st then (s, Inr ())
     else (let keys = map (operation_key hash operation) (sort scopes) in
       consume_fixed_window ops lnk t keys (replicate (length keys) limit) window s))"

definition enforce_operation_rate_limit ::
  "(string \<Rightarrow> string) \<Rightarrow> 's redis_ops \<Rightarrow> link \<Rightarrow> time \<Rightarrow> rate_settings \<Rightarrow> string \<Rightarrow> (string \<times> string) list \<Rightarrow>
   int \<Rightarrow> int \<Rightarrow> 's \<Rightarrow> 's \<times> (limit_error + unit)" where
  "enforce_operation_rate_limit hash ops lnk t st operation scopes limit window s =
    (case consume_operation_rate_limit hash ops lnk t st operation scopes limit window s of
       (s', Inr u) \<Rightarrow> (s', Inr u)
     | (s', Inl RateUnavailable) \<Rightarrow>
         (s', Inl (Limited (HTTP 503 ''Service budget is temporarily unavailable'') None))
     | (s', Inl (RateExceeded n)) \<Rightarrow>
         (s', Inl (Limited (HTTP 429 ''This operation is temporarily rate limited'') (Some n)))
     | (s', Inl RateMisuse) \<Rightarrow>
         (s', Inl (BadCall ''Rate-limit keys and limits must be non-empty and aligned'')))"

section \<open>What the script does to one key\<close>

definition spent :: "(int \<times> time option) option \<Rightarrow> int" where
  "spent x = (case x of None \<Rightarrow> 0 | Some (n, e) \<Rightarrow> n)"

lemma spent_simps [simp]: "spent None = 0" "spent (Some x) = fst x"
  by (auto simp: spent_def split: prod.split)

lemma get_spent:
  "redis_laws ops view \<Longrightarrow> (case rd_get ops t s k of None \<Rightarrow> 0 | Some v \<Rightarrow> v) = spent (view t s k)"
  by (auto simp: redis_laws_def spent_def split: option.split)

text \<open>A window restarted by the script: the counter is kept, the expiry is a full window ahead.\<close>

definition restarted :: "time \<Rightarrow> int \<Rightarrow> (int \<times> time option) option \<Rightarrow> (int \<times> time option) option" where
  "restarted t w x = map_option (\<lambda>p. (fst p, Some (t + seconds w))) x"

lemma restarted_simps [simp]:
  "restarted t w None = None" "spent (restarted t w x) = spent x" "restarted t w (restarted t w x) = restarted t w x"
  by (cases x; simp add: restarted_def)+

definition exhausted :: "'s redis_view \<Rightarrow> time \<Rightarrow> 's \<Rightarrow> (string \<times> int) list \<Rightarrow> string \<Rightarrow> bool" where
  "exhausted view t s kls k = (\<exists>l. (k, l) \<in> set kls \<and> l \<le> spent (view t s k))"

lemma expire_view:
  "redis_laws ops view \<Longrightarrow> 0 < w \<Longrightarrow> view t (rd_expire ops t k w s) k' =
     (if k' = k then restarted t w (view t s k) else view t s k')"
  by (simp add: redis_laws_def restarted_def)

lemma incr_view:
  "redis_laws ops view \<Longrightarrow> rd_incr ops t k s = (s', v) \<Longrightarrow>
   v = fst (incremented (view t s k)) \<and>
   view t s' k' = (if k' = k then Some (incremented (view t s k)) else view t s k')"
  unfolding redis_laws_def by (metis fst_conv snd_conv)

lemma ttl_view:
  "redis_laws ops view \<Longrightarrow> view t s k = Some (n, Some e) \<Longrightarrow> 0 \<le> rd_ttl ops t s k \<and> t < e
     \<and> seconds (rd_ttl ops t s k - 1) < e - t \<and> e - t < seconds (rd_ttl ops t s k + 1)"
  by (simp add: redis_laws_def)

lemma later_view:
  "redis_laws ops view \<Longrightarrow> t \<le> t' \<Longrightarrow> view t' s k =
     (case view t s k of Some (n, Some e) \<Rightarrow> if e \<le> t' then None else Some (n, Some e) | x \<Rightarrow> x)"
  by (simp add: redis_laws_def)

definition check_wait :: "'s redis_ops \<Rightarrow> time \<Rightarrow> int \<Rightarrow> 's \<Rightarrow> string \<Rightarrow> int" where
  "check_wait ops t w s k = (if rd_ttl ops t s k < 1 then w else rd_ttl ops t s k)"

lemma check_one:
  assumes "redis_laws ops view" "0 < w" "script_check ops t w (k, l) (s, r) = (s1, r1)"
  shows "if spent (view t s k) < l then s1 = s \<and> r1 = r
    else r1 = max r (check_wait ops t w s k) \<and> (\<forall>k'. view t s1 k' =
      (if k' = k \<and> rd_ttl ops t s k < 1 then restarted t w (view t s k') else view t s k'))"
proof (cases "spent (view t s k) < l")
  case True
  then show ?thesis using assms(3) by (simp add: script_check_def get_spent[OF assms(1)])
next
  case False
  then have "s1 = (if rd_ttl ops t s k < 1 then rd_expire ops t k w s else s)" "r1 = max r (check_wait ops t w s k)"
    using assms(3) by (auto simp: script_check_def get_spent[OF assms(1)] Let_def check_wait_def max_def)
  with False show ?thesis by (simp add: expire_view[OF assms(1,2)])
qed

text \<open>
  Checking leaves every counter; it restarts the window only of an exhausted key whose time to live
  rounds to nothing, and it asks for a wait exactly when some key is exhausted.
\<close>

definition check_kept :: "time \<Rightarrow> int \<Rightarrow> (int \<times> time option) option \<Rightarrow> (int \<times> time option) option \<Rightarrow> bool" where
  "check_kept t w x y = (y = x \<or> (y = restarted t w x \<and> (\<forall>n e. x = Some (n, Some e) \<longrightarrow> e < t + seconds 1)))"

lemma check_kept_trans:
  assumes "1 \<le> w" "check_kept t w x y" "check_kept t w y z"
  shows "check_kept t w x z"
  using assms by (cases x) (auto simp: check_kept_def restarted_def)

lemma check_kept_spent: "check_kept t w x y \<Longrightarrow> spent y = spent x"
  by (auto simp: check_kept_def)

lemma check_fold:
  assumes "redis_laws ops view" "1 \<le> w" "fold (script_check ops t w) kls (s, r) = (s1, r1)"
  shows "r \<le> r1 \<and> (\<forall>k. check_kept t w (view t s k) (view t s1 k))
    \<and> ((\<forall>(k, l) \<in> set kls. spent (view t s k) < l) \<longrightarrow> s1 = s \<and> r1 = r)
    \<and> ((\<exists>(k, l) \<in> set kls. l \<le> spent (view t s k)) \<longrightarrow> 0 < r1)
    \<and> (\<forall>k. view t s1 k \<noteq> view t s k \<longrightarrow> exhausted view t s kls k)"
  using assms(3)
proof (induction kls arbitrary: s r)
  case Nil
  then show ?case by (auto simp: check_kept_def)
next
  case (Cons kl kls)
  obtain k l where kl: "kl = (k, l)" by fastforce
  obtain s2 r2 where one: "script_check ops t w (k, l) (s, r) = (s2, r2)" by fastforce
  have w: "0 < w" using assms(2) by simp
  note c = check_one[OF assms(1) w one]
  have "fold (script_check ops t w) kls (s2, r2) = (s1, r1)" using Cons.prems one by (simp add: kl)
  note IH = Cons.IH[OF this]
  show ?case
  proof (cases "spent (view t s k) < l")
    case True
    then have "s2 = s" "r2 = r" using c by simp_all
    with IH True show ?thesis by (auto simp: kl exhausted_def)
  next
    case False
    with c have r2: "r2 = max r (check_wait ops t w s k)"
      and v: "\<And>k'. view t s2 k' = (if k' = k \<and> rd_ttl ops t s k < 1 then restarted t w (view t s k') else view t s k')"
      by simp_all
    have wait: "0 < check_wait ops t w s k" using w by (simp add: check_wait_def)
    have kept: "check_kept t w (view t s k') (view t s2 k')" for k'
      using ttl_view[OF assms(1), of t s k'] unfolding v check_kept_def by (force simp: seconds_def)
    then have sp: "spent (view t s2 k') = spent (view t s k')" for k' by (rule check_kept_spent)
    have "exhausted view t s (kl # kls) k'" if "view t s1 k' \<noteq> view t s k'" for k'
    proof (cases "view t s2 k' = view t s k'")
      case True
      then have "exhausted view t s2 kls k'" using IH that by metis
      then show ?thesis by (auto simp: exhausted_def sp)
    next
      case ne: False
      then have "k' = k" using v by metis
      then show ?thesis using False by (auto simp: exhausted_def kl)
    qed
    moreover have "check_kept t w (view t s k') (view t s1 k')" for k'
      using check_kept_trans[OF assms(2) kept] IH by blast
    moreover have "0 < r1" "r \<le> r1" using IH r2 wait by auto
    ultimately show ?thesis using False by (auto simp: kl)
  qed
qed

definition spent_once :: "time \<Rightarrow> int \<Rightarrow> (int \<times> time option) option \<Rightarrow> (int \<times> time option) option" where
  "spent_once t w x = (case incremented x of (n, e) \<Rightarrow> Some (n, if n = 1 then Some (t + seconds w) else e))"

lemma spend_one:
  assumes "redis_laws ops view" "0 < w"
  shows "view t (script_spend ops t w k s) k' = (if k' = k then spent_once t w (view t s k) else view t s k')"
proof -
  obtain s' v where i: "rd_incr ops t k s = (s', v)" by fastforce
  obtain n e where n: "incremented (view t s k) = (n, e)" by fastforce
  show ?thesis
    using incr_view[OF assms(1) i, of k'] incr_view[OF assms(1) i, of k] n
    by (auto simp: script_spend_def i expire_view[OF assms] spent_once_def restarted_def)
qed

lemma spend_fold:
  assumes "redis_laws ops view" "0 < w" "distinct ks"
  shows "view t (fold (script_spend ops t w) ks s) k =
    (if k \<in> set ks then spent_once t w (view t s k) else view t s k)"
  using assms(3) by (induction ks arbitrary: s) (auto simp: spend_one[OF assms(1,2)])

section \<open>A budget is spent by all keys of a call or by none\<close>

definition windows_ok :: "'s redis_view \<Rightarrow> int \<Rightarrow> time \<Rightarrow> 's \<Rightarrow> bool" where
  "windows_ok view w t s = (\<forall>k n x. view t s k = Some (n, x) \<longrightarrow> (\<exists>e. x = Some e \<and> e \<le> t + seconds w))"

lemma seconds_add: "seconds a + seconds b = seconds (a + b)"
  by (simp add: seconds_def)

lemma check_wait_le:
  assumes "redis_laws ops view" "1 \<le> w" "windows_ok view w t s"
  shows "1 \<le> check_wait ops t w s k \<and> check_wait ops t w s k \<le> w"
proof (cases "view t s k")
  case None
  then have "rd_ttl ops t s k = - 2" using assms(1) by (simp add: redis_laws_def)
  then show ?thesis using assms(2) by (simp add: check_wait_def)
next
  case (Some p)
  obtain n x where "p = (n, x)" by fastforce
  with Some obtain e where p: "view t s k = Some (n, Some e)" "e \<le> t + seconds w"
    using assms(3) unfolding windows_ok_def by metis
  have "seconds (rd_ttl ops t s k - 1) < seconds w" using ttl_view[OF assms(1) p(1)] p(2) by simp
  then show ?thesis using assms(2) by (simp add: check_wait_def seconds_def)
qed

lemma windows_kept:
  assumes "windows_ok view w t s" "\<And>k. check_kept t w (view t s k) (view t s2 k)"
  shows "windows_ok view w t s2"
  unfolding windows_ok_def
proof (intro allI impI)
  fix k n x assume v: "view t s2 k = Some (n, x)"
  show "\<exists>e. x = Some e \<and> e \<le> t + seconds w"
  proof (cases "view t s2 k = view t s k")
    case True
    with v have "view t s k = Some (n, x)" by simp
    then show ?thesis using assms(1) unfolding windows_ok_def by blast
  next
    case False
    then have "view t s2 k = restarted t w (view t s k)" using assms(2) unfolding check_kept_def by metis
    with v have "restarted t w (view t s k) = Some (n, x)" by simp
    then show ?thesis by (auto simp: restarted_def)
  qed
qed

lemma check_fold_wait:
  assumes "redis_laws ops view" "1 \<le> w" "windows_ok view w t s" "r \<le> w"
    and "fold (script_check ops t w) kls (s, r) = (s1, r1)"
  shows "r1 \<le> w"
  using assms(3-5)
proof (induction kls arbitrary: s r)
  case Nil
  then show ?case by simp
next
  case (Cons kl kls)
  obtain k l where kl: "kl = (k, l)" by fastforce
  obtain s2 r2 where one: "script_check ops t w (k, l) (s, r) = (s2, r2)" by fastforce
  note c = check_one[OF assms(1) _ one] and f = check_fold[OF assms(1,2), of t "[(k, l)]" s r s2 r2]
  have "windows_ok view w t s2"
    by (rule windows_kept[OF Cons.prems(1)]) (use f one in simp)
  moreover have "r2 \<le> w"
    using c assms(2) Cons.prems(2) check_wait_le[OF assms(1,2) Cons.prems(1), of k] by (auto split: if_splits)
  ultimately show ?case using Cons.IH Cons.prems(3) one by (simp add: kl)
qed

lemma consume_cases:
  assumes "redis_laws ops view" "1 \<le> w" "consume_fixed_window ops lnk t keys limits w s = (s', r)"
    and "keys \<noteq> []" "length keys = length limits" "distinct keys"
  obtains (down) "lnk = LinkDown" "s' = s" "r = Inl RateUnavailable"
    | (spent) "\<forall>(k, l) \<in> set (zip keys limits). spent (view t s k) < l" "lnk \<noteq> LinkDown"
        "r = (if lnk = ReplyLost then Inl RateUnavailable else Inr ())"
        "\<And>k. view t s' k = (if k \<in> set keys then spent_once t w (view t s k) else view t s k)"
    | (refused) n where "\<exists>(k, l) \<in> set (zip keys limits). l \<le> spent (view t s k)" "lnk \<noteq> LinkDown"
        "r = (if lnk = ReplyLost then Inl RateUnavailable else Inl (RateExceeded n))" "1 \<le> n"
        "windows_ok view w t s \<Longrightarrow> n \<le> w" "\<And>k. check_kept t w (view t s k) (view t s' k)"
        "\<And>k. view t s' k \<noteq> view t s k \<Longrightarrow> exhausted view t s (zip keys limits) k"
proof (cases "lnk = LinkDown")
  case True
  then show ?thesis using down assms(3,4,5) by (simp add: consume_fixed_window_def)
next
  case up: False
  obtain s1 r1 where f: "fold (script_check ops t w) (zip keys limits) (s, 0) = (s1, r1)" by fastforce
  note c = check_fold[OF assms(1,2) f]
  have w: "0 < w" using assms(2) by simp
  show ?thesis
  proof (cases "\<forall>(k, l) \<in> set (zip keys limits). spent (view t s k) < l")
    case True
    with c have s1: "s1 = s" "r1 = 0" by auto
    have "s' = fold (script_spend ops t w) keys s" "r = (if lnk = ReplyLost then Inl RateUnavailable else Inr ())"
      using assms(3-5) up s1 f by (auto simp: consume_fixed_window_def fixed_window_script_def split: if_splits)
    then show ?thesis using spent True up spend_fold[OF assms(1) w assms(6)] by metis
  next
    case False
    then have some: "\<exists>(k, l) \<in> set (zip keys limits). l \<le> spent (view t s k)" by force
    with c have r1: "0 < r1" by blast
    have "s' = s1" "r = (if lnk = ReplyLost then Inl RateUnavailable else Inl (RateExceeded r1))"
      using assms(3-5) up r1 f by (auto simp: consume_fixed_window_def fixed_window_script_def split: if_splits)
    then show ?thesis using refused[of r1] some up c r1 check_fold_wait[OF assms(1,2) _ _ f] w by auto
  qed
qed

text \<open>A budget call is all or nothing and decides exactly. With the store reachable, the call succeeds exactly
  when every one of its keys is below its limit; a success adds one to each of its keys and touches
  no other; a refusal names an exhausted key, leaves every counter as it was, and asks the client to
  wait at least one second and at most the window.\<close>

theorem budget_all_or_nothing:
  assumes "redis_laws ops view" "1 \<le> w" "windows_ok view w t s"
    and "consume_fixed_window ops LinkUp t keys limits w s = (s', r)"
    and "keys \<noteq> []" "length keys = length limits" "distinct keys"
  shows "(r = Inr () \<longleftrightarrow> (\<forall>(k, l) \<in> set (zip keys limits). spent (view t s k) < l))
    \<and> (r = Inr () \<longrightarrow> (\<forall>k. spent (view t s' k) = spent (view t s k) + (if k \<in> set keys then 1 else 0)))
    \<and> (r \<noteq> Inr () \<longrightarrow> (\<exists>n. r = Inl (RateExceeded n) \<and> 1 \<le> n \<and> n \<le> w
         \<and> (\<forall>k. spent (view t s' k) = spent (view t s k))))"
  using assms(1,2,4-7)
proof (cases rule: consume_cases)
  case down
  then show ?thesis by simp
next
  case spent
  have "spent (spent_once t w x) = spent x + 1" for x :: "(int \<times> time option) option"
    by (auto simp: spent_once_def incremented_def split: option.split)
  with spent show ?thesis by simp
next
  case (refused n)
  have "\<not> (\<forall>(k, l) \<in> set (zip keys limits). spent (view t s k) < l)" using refused(1) by force
  then show ?thesis using refused(3-5) assms(3) check_kept_spent[OF refused(6)] by simp
qed

section \<open>At most two budgets in a window's time\<close>

text \<open>
  A history of calls with their instants, connections and budgets; \<open>grants\<close> are the instants at which
  a call that spends key \<open>k\<close> was let through.
\<close>

type_synonym budget_call = "time \<times> link \<times> (string \<times> int) list"

fun grants :: "'s redis_ops \<Rightarrow> int \<Rightarrow> string \<Rightarrow> budget_call list \<Rightarrow> 's \<Rightarrow> time list" where
  "grants ops w k [] s = []"
| "grants ops w k ((t, lnk, kls) # cs) s =
    (case consume_fixed_window ops lnk t (map fst kls) (map snd kls) w s of (s', r) \<Rightarrow>
       (if r = Inr () \<and> k \<in> fst ` set kls then [t] else []) @ grants ops w k cs s')"

lemma grants_times: "set (grants ops w k cs s) \<subseteq> fst ` set cs"
proof (induction cs arbitrary: s)
  case Nil
  then show ?case by simp
next
  case (Cons c cs)
  obtain t lnk kls where c: "c = (t, lnk, kls)" by (metis surj_pair)
  obtain s' r where "consume_fixed_window ops lnk t (map fst kls) (map snd kls) w s = (s', r)" by fastforce
  then show ?case using Cons.IH[of s'] by (auto simp: c)
qed

definition key_ok :: "int \<Rightarrow> time \<Rightarrow> (int \<times> time option) option \<Rightarrow> bool" where
  "key_ok w t x = (\<forall>n e. x = Some (n, e) \<longrightarrow> 1 \<le> n \<and> (\<exists>e'. e = Some e' \<and> e' \<le> t + seconds w))"

definition fair_call :: "string \<Rightarrow> int \<Rightarrow> budget_call \<Rightarrow> bool" where
  "fair_call k l c = (distinct (map fst (snd (snd c))) \<and> snd (snd c) \<noteq> []
     \<and> (\<forall>l'. (k, l') \<in> set (snd (snd c)) \<longrightarrow> l' = l))"

lemma call_effect:
  assumes "redis_laws ops view" "1 \<le> w" "fair_call k l (t, lnk, kls)"
    and "consume_fixed_window ops lnk t (map fst kls) (map snd kls) w s = (s', r)"
  obtains (kept) "\<not> (r = Inr () \<and> k \<in> fst ` set kls)" "check_kept t w (view t s k) (view t s' k)"
    | (spent) "spent (view t s k) < l" "view t s' k = spent_once t w (view t s k)"
proof -
  have pre: "map fst kls \<noteq> []" "length (map fst kls) = length (map snd kls)" "distinct (map fst kls)"
    using assms(3) by (auto simp: fair_call_def)
  show thesis using assms(1,2,4) pre
  proof (cases rule: consume_cases)
    case down
    then show ?thesis using kept by (simp add: check_kept_def)
  next
    case sp: spent
    show ?thesis
    proof (cases "k \<in> fst ` set kls")
      case True
      then obtain l' where "(k, l') \<in> set kls" by auto
      then have "spent (view t s k) < l" using sp(1) assms(3) by (force simp: fair_call_def zip_map_fst_snd)
      then show ?thesis using spent sp(4) True by simp
    next
      case False
      then show ?thesis using kept sp(4) by (simp add: check_kept_def)
    qed
  next
    case (refused n)
    then show ?thesis using kept by (auto split: if_splits)
  qed
qed

text \<open>How many calls may still pass before \<open>b\<close>, given the key's state.\<close>

definition cap :: "int \<Rightarrow> time \<Rightarrow> (int \<times> time option) option \<Rightarrow> int" where
  "cap l b x = (case x of None \<Rightarrow> max 0 l | Some (n, None) \<Rightarrow> 0
     | Some (n, Some e) \<Rightarrow> if b \<le> e then max 0 (l - n) else max 0 (l - n) + max 0 l)"

definition cap_ok :: "int \<Rightarrow> time \<Rightarrow> time \<Rightarrow> (int \<times> time option) option \<Rightarrow> bool" where
  "cap_ok w b t x = (case x of None \<Rightarrow> b \<le> t + seconds w | Some (n, None) \<Rightarrow> False
     | Some (n, Some e) \<Rightarrow> b \<le> e + seconds w)"

lemma cap_kept:
  assumes "check_kept t w x y" "1 \<le> w" "key_ok w t x" "cap_ok w b t x"
  shows "key_ok w t y \<and> cap_ok w b t y \<and> cap l b y \<le> cap l b x"
proof -
  have "seconds 1 \<le> seconds w" using assms(2) by simp
  with assms show ?thesis
    by (cases x) (auto simp: check_kept_def key_ok_def cap_ok_def cap_def restarted_def max_def)
qed

lemma cap_spent:
  assumes "key_ok w t x" "cap_ok w b t x" "spent x < l" "1 \<le> w"
  shows "key_ok w t (spent_once t w x) \<and> cap_ok w b t (spent_once t w x) \<and> 1 + cap l b (spent_once t w x) \<le> cap l b x"
proof -
  have "0 < seconds w" using assms(4) by simp
  with assms show ?thesis
    by (cases x) (auto simp: key_ok_def cap_ok_def cap_def spent_once_def incremented_def max_def seconds_def)
qed

definition later :: "time \<Rightarrow> (int \<times> time option) option \<Rightarrow> (int \<times> time option) option" where
  "later t x = (case x of Some (n, Some e) \<Rightarrow> if e \<le> t then None else Some (n, Some e) | y \<Rightarrow> y)"

lemma key_ok_later: "key_ok w t x \<Longrightarrow> t \<le> t' \<Longrightarrow> key_ok w t' (later t' x)"
  by (force simp: key_ok_def later_def split: option.splits prod.splits if_splits)

lemma cap_later:
  "cap_ok w b t x \<Longrightarrow> t \<le> t' \<Longrightarrow> t' < b \<Longrightarrow> cap_ok w b t' (later t' x) \<and> cap l b (later t' x) \<le> cap l b x"
  by (auto simp: cap_ok_def cap_def later_def split: option.splits prod.splits if_splits)

lemma grants_cap:
  assumes "redis_laws ops view" "1 \<le> w" "\<forall>c \<in> set cs. fair_call k l c"
    and "sorted (map fst cs)" "\<forall>c \<in> set cs. t \<le> fst c" "key_ok w t (view t s k)" "cap_ok w b t (view t s k)"
  shows "int (length (filter (\<lambda>x. x < b) (grants ops w k cs s))) \<le> cap l b (view t s k)"
  using assms(3-7)
proof (induction cs arbitrary: t s)
  case Nil
  then show ?case by (simp add: cap_def split: option.split prod.split)
next
  case (Cons c cs)
  obtain t1 lnk kls where c: "c = (t1, lnk, kls)" by (metis surj_pair)
  obtain s' r where call: "consume_fixed_window ops lnk t1 (map fst kls) (map snd kls) w s = (s', r)" by fastforce
  show ?case
  proof (cases "t1 < b")
    case False
    have "filter (\<lambda>x. x < b) (grants ops w k (c # cs) s) = []"
      using grants_times[of ops w k "c # cs" s] Cons.prems(2) False by (force simp: c filter_empty_conv)
    then show ?thesis by (simp add: cap_def split: option.split prod.split)
  next
    case True
    have t1: "t \<le> t1" using Cons.prems(3) by (simp add: c)
    have v: "view t1 s k = later t1 (view t s k)" using later_view[OF assms(1) t1] by (simp add: later_def)
    note ok = key_ok_later[OF Cons.prems(4) t1] and cp = cap_later[OF Cons.prems(5) t1 True, of l]
    have fair: "fair_call k l (t1, lnk, kls)" using Cons.prems(1) by (simp add: c)
    have rest: "int (length (filter (\<lambda>x. x < b) (grants ops w k cs s'))) \<le> cap l b (view t1 s' k)"
      if "key_ok w t1 (view t1 s' k)" "cap_ok w b t1 (view t1 s' k)"
      by (rule Cons.IH[OF _ _ _ that]) (use Cons.prems c in auto)
    show ?thesis using assms(1,2) fair call
    proof (cases rule: call_effect)
      case kept
      then show ?thesis
        using cap_kept[OF kept(2) assms(2), of b l] ok cp rest call by (auto simp: v c)
    next
      case spent
      then show ?thesis
        using cap_spent[of w t1 "view t1 s k" b l] ok cp rest call assms(2) by (simp add: v c)
    qed
  qed
qed

text \<open>C23: a budget holds over every interval. Take any history of calls in time order, over any connections, whose
  calls all give key \<open>k\<close> the limit \<open>l\<close>; within any span as long as the window, the calls let through that
  spend \<open>k\<close> are at most twice \<open>l\<close> (the two windows the span can touch), and none when the limit is not
  positive.\<close>

theorem budget_bound:
  assumes "redis_laws ops view" "1 \<le> w" "\<forall>c \<in> set cs. fair_call k l c" "sorted (map fst cs)"
    and "\<forall>c \<in> set cs. t \<le> fst c" "key_ok w t (view t s k)"
  shows "int (length (filter (\<lambda>x. a \<le> x \<and> x < a + seconds w) (grants ops w k cs s))) \<le> 2 * max 0 l"
  using assms(3-6)
proof (induction cs arbitrary: t s)
  case Nil
  then show ?case by simp
next
  case (Cons c cs)
  obtain t1 lnk kls where c: "c = (t1, lnk, kls)" by (metis surj_pair)
  obtain s' r where call: "consume_fixed_window ops lnk t1 (map fst kls) (map snd kls) w s = (s', r)" by fastforce
  have t1: "t \<le> t1" using Cons.prems(3) by (simp add: c)
  have v: "view t1 s k = later t1 (view t s k)" using later_view[OF assms(1) t1] by (simp add: later_def)
  note ok = key_ok_later[OF Cons.prems(4) t1, folded v]
  show ?case
  proof (cases "t1 < a")
    case True
    have "key_ok w t1 (view t1 s' k)"
      using assms(1,2) Cons.prems(1)[unfolded c list.set, simplified, THEN conjunct1] call
    proof (cases rule: call_effect)
      case kept
      have "cap_ok w (t1 + seconds w) t1 (view t1 s k)"
        using ok ttl_view[OF assms(1), of t1 s k] by (force simp: cap_ok_def key_ok_def split: option.split)
      then show ?thesis using cap_kept[OF kept(2) assms(2) ok] by blast
    next
      case spent
      then show ?thesis using ok assms(2) by (auto simp: key_ok_def spent_once_def incremented_def split: option.splits)
    qed
    then have "int (length (filter (\<lambda>x. a \<le> x \<and> x < a + seconds w) (grants ops w k cs s'))) \<le> 2 * max 0 l"
      by (intro Cons.IH) (use Cons.prems c in auto)
    then show ?thesis using True call by (simp add: c)
  next
    case False
    have same: "filter (\<lambda>x. a \<le> x \<and> x < a + seconds w) (grants ops w k (c # cs) s) =
        filter (\<lambda>x. x < a + seconds w) (grants ops w k (c # cs) s)"
      using grants_times[of ops w k "c # cs" s] Cons.prems(2) False by (intro filter_cong) (force simp: c)+
    have "cap_ok w (a + seconds w) t1 (view t1 s k)"
      using ok False ttl_view[OF assms(1), of t1 s k] by (force simp: cap_ok_def key_ok_def split: option.split)
    then have "int (length (filter (\<lambda>x. x < a + seconds w) (grants ops w k (c # cs) s))) \<le> cap l (a + seconds w) (view t1 s k)"
      by (intro grants_cap[OF assms(1,2) Cons.prems(1,2) _ ok]) (use Cons.prems(2) c in auto)
    also have "\<dots> \<le> 2 * max 0 l" using ok by (auto simp: cap_def key_ok_def split: option.split)
    finally show ?thesis unfolding same .
  qed
qed

section \<open>Waiting as told may not be enough\<close>

text \<open>A client that waits exactly as long as it was told can be locked out for another whole window. The wait
  is the time to live of the exhausted key in whole seconds; when that was rounded down, the key is
  still there after the wait with a time to live that rounds to zero, and the script, which takes
  this for a key without expiry, restarts the window and asks for a full window again.\<close>

theorem obedient_retry_restarts_window:
  assumes "redis_laws ops view" "1 \<le> w" "view t s k = Some (n, Some e)" "l \<le> n" "1 \<le> rd_ttl ops t s k"
    and "consume_fixed_window ops LinkUp t [k] [l] w s = (s1, Inl (RateExceeded d))"
    and "rd_ttl ops (t + seconds d) s1 k = 0" "t + seconds d < e"
  shows "\<exists>s2. consume_fixed_window ops LinkUp (t + seconds d) [k] [l] w s1 = (s2, Inl (RateExceeded w))
    \<and> view (t + seconds d) s2 k = Some (n, Some (t + seconds d + seconds w))"
proof -
  let ?t = "t + seconds d"
  have w: "0 < w" using assms(2) by simp
  obtain s' r' where one: "script_check ops t w (k, l) (s, 0) = (s', r')" by fastforce
  have s': "s' = s" using assms(1,3-5) one by (simp add: script_check_def get_spent[OF assms(1)])
  moreover have "r' = rd_ttl ops t s k"
    using assms(3-5) check_one[OF assms(1) w one] by (simp add: check_wait_def)
  ultimately have d: "s1 = s" "d = rd_ttl ops t s k"
    using assms(5,6) one by (auto simp: consume_fixed_window_def fixed_window_script_def split: if_splits)
  have v: "view ?t s k = Some (n, Some e)"
    using later_view[OF assms(1), of t ?t s k] assms(3,5,8) d(2) by (simp add: seconds_def)
  obtain s2 r2 where two: "script_check ops ?t w (k, l) (s, 0) = (s2, r2)" by fastforce
  have r2: "r2 = w" "view ?t s2 k = restarted ?t w (view ?t s k)"
    using check_one[OF assms(1) w two] v assms(2,4,7) d(1) by (simp_all add: check_wait_def)
  have "consume_fixed_window ops LinkUp ?t [k] [l] w s1 = (s2, Inl (RateExceeded w))"
    using two r2(1) w d(1) by (simp add: consume_fixed_window_def fixed_window_script_def)
  with r2(2) v show ?thesis by (auto simp: restarted_def)
qed

section \<open>A store in memory\<close>

type_synonym mem = "string \<Rightarrow> (int \<times> time option) option"

definition mem_view :: "mem redis_view" where
  "mem_view t s k = later t (s k)"

definition mem_ops :: "mem redis_ops" where
  "mem_ops = \<lparr> rd_get = (\<lambda>t s k. map_option fst (mem_view t s k)),
     rd_ttl = (\<lambda>t s k. case mem_view t s k of None \<Rightarrow> - 2 | Some (n, None) \<Rightarrow> - 1
        | Some (n, Some e) \<Rightarrow> (e - t + 500000) div 1000000),
     rd_incr = (\<lambda>t k s. (s(k \<mapsto> incremented (mem_view t s k)), fst (incremented (mem_view t s k)))),
     rd_expire = (\<lambda>t k w s. case mem_view t s k of None \<Rightarrow> s | Some (n, x) \<Rightarrow> s(k \<mapsto> (n, Some (t + seconds w)))) \<rparr>"

lemma later_idem [simp]: "later t (later t x) = later t x"
  by (auto simp: later_def split: option.split prod.split)

lemma later_incremented [simp]: "later t (Some (incremented (later t x))) = Some (incremented (later t x))"
  by (auto simp: later_def incremented_def split: option.split prod.split)

lemma later_alive: "later t x = Some (n, Some e) \<Longrightarrow> t < e"
  by (auto simp: later_def split: option.splits prod.splits if_splits)

lemma mem_laws: "redis_laws mem_ops mem_view"
proof -
  have ttl: "0 \<le> (e - t + 500000) div 1000000 \<and> seconds ((e - t + 500000) div 1000000 - 1) < e - t
      \<and> e - t < seconds ((e - t + 500000) div 1000000 + 1)" if "t < e" for t e :: int
  proof -
    define q where "q = (e - t + 500000) div 1000000"
    have "q * 1000000 \<le> e - t + 500000" "e - t + 500000 < q * 1000000 + 1000000"
      using mult_div_mod_eq[of 1000000 "e - t + 500000"] pos_mod_bound[of 1000000 "e - t + 500000"]
        pos_mod_sign[of 1000000 "e - t + 500000"] by (simp_all add: q_def)
    with that show ?thesis unfolding seconds_def q_def[symmetric] by simp
  qed
  have mono: "later t' x = (case later t x of Some (n, Some e) \<Rightarrow> if e \<le> t' then None else Some (n, Some e) | y \<Rightarrow> y)"
    if "t \<le> t'" for t t' x using that by (auto simp: later_def split: option.split prod.split)
  have fresh: "later t (Some (n, Some (t + seconds w))) = Some (n, Some (t + seconds w))" if "0 < w" for t w n
    using that by (simp add: later_def seconds_def)
  have v: "mem_view t (rd_expire mem_ops t k w s) k' =
      (if k' = k then map_option (\<lambda>x. (fst x, Some (t + seconds w))) (mem_view t s k) else mem_view t s k')"
    if "0 < w" for t s k w k'
    using fresh[OF that, of t] by (auto simp: mem_ops_def mem_view_def split: option.split)
  have a: "mem_view t (fst (rd_incr mem_ops t k s)) k' =
      (if k' = k then Some (incremented (mem_view t s k)) else mem_view t s k')" for t s k k'
    by (simp add: mem_ops_def mem_view_def)
  have b: "0 \<le> rd_ttl mem_ops t s k \<and> t < e \<and> seconds (rd_ttl mem_ops t s k - 1) < e - t
      \<and> e - t < seconds (rd_ttl mem_ops t s k + 1)" if "mem_view t s k = Some (n, Some e)" for t s k n e
    using later_alive[OF that[unfolded mem_view_def]] ttl[of t e] by (simp add: mem_ops_def that)
  have c: "mem_view t' s k = (case mem_view t s k of Some (n, Some e) \<Rightarrow> if e \<le> t' then None else Some (n, Some e)
      | y \<Rightarrow> y)" if "t \<le> t'" for t t' s k
    unfolding mem_view_def by (rule mono[OF that])
  have d: "rd_get mem_ops t s k = map_option fst (mem_view t s k)"
    "mem_view t s k = None \<Longrightarrow> rd_ttl mem_ops t s k = - 2"
    "mem_view t s k = Some (n, None) \<Longrightarrow> rd_ttl mem_ops t s k = - 1"
    "snd (rd_incr mem_ops t k s) = fst (incremented (mem_view t s k))" for t s k n
    by (simp_all add: mem_ops_def)
  show ?thesis unfolding redis_laws_def by (intro conjI allI impI) (use a b c d v in \<open>simp_all only: simp_thms\<close>)
qed

definition ex_calls :: "budget_call list" where
  "ex_calls = [(0, LinkUp, [(''a'', 2), (''b'', 5)]), (1, LinkUp, [(''a'', 2)]), (2, LinkUp, [(''a'', 2)])]"

theorem budget_bound_witness:
  "int (length (filter (\<lambda>x. 0 \<le> x \<and> x < seconds 60) (grants mem_ops 60 ''a'' ex_calls Map.empty))) \<le> 4
   \<and> grants mem_ops 60 ''a'' ex_calls Map.empty = [0, 1]"
proof -
  have "\<forall>c \<in> set ex_calls. fair_call ''a'' 2 c" by (simp add: ex_calls_def fair_call_def)
  moreover have "key_ok 60 0 (mem_view 0 Map.empty ''a'')" by (simp add: key_ok_def mem_view_def later_def)
  moreover have "sorted (map fst ex_calls)" "\<forall>c \<in> set ex_calls. 0 \<le> fst c" by (simp_all add: ex_calls_def)
  moreover have "grants mem_ops 60 ''a'' ex_calls Map.empty = [0, 1]" by code_simp
  ultimately show ?thesis using budget_bound[OF mem_laws, of 60 ex_calls "''a''" 2 0 Map.empty 0] by simp
qed

theorem budget_all_or_nothing_witness:
  "snd (consume_fixed_window mem_ops LinkUp 0 [''a'', ''b''] [1, 0] 60 Map.empty) \<noteq> Inr ()
   \<and> spent (mem_view 0 (fst (consume_fixed_window mem_ops LinkUp 0 [''a'', ''b''] [1, 0] 60 Map.empty)) ''a'') = 0"
proof -
  obtain s' r where c: "consume_fixed_window mem_ops LinkUp 0 [''a'', ''b''] [1, 0] 60 Map.empty = (s', r)" by fastforce
  have "windows_ok mem_view 60 0 Map.empty" by (simp add: windows_ok_def mem_view_def later_def)
  from budget_all_or_nothing[OF mem_laws _ this c]
  have "r \<noteq> Inr ()" "\<forall>k. spent (mem_view 0 s' k) = spent (mem_view 0 Map.empty k)" by (auto simp: mem_view_def later_def)
  then show ?thesis by (simp add: c mem_view_def later_def)
qed

definition ex_full :: mem where
  "ex_full = [''a'' \<mapsto> (3, Some 10400000)]"

theorem obedient_retry_restarts_window_witness:
  "\<exists>s2. consume_fixed_window mem_ops LinkUp 10000000 [''a''] [3] 60 ex_full = (s2, Inl (RateExceeded 60))
     \<and> mem_view 10000000 s2 ''a'' = Some (3, Some 70000000)"
proof -
  have a: "mem_view 0 ex_full ''a'' = Some (3, Some 10400000)" by code_simp
  have b: "consume_fixed_window mem_ops LinkUp 0 [''a''] [3] 60 ex_full = (ex_full, Inl (RateExceeded 10))"
    by (simp add: consume_fixed_window_def fixed_window_script_def script_check_def mem_ops_def mem_view_def ex_full_def later_def)
  have c: "rd_ttl mem_ops 0 ex_full ''a'' = 10" "rd_ttl mem_ops (0 + seconds 10) ex_full ''a'' = 0" by code_simp+
  show ?thesis
    using obedient_retry_restarts_window[OF mem_laws _ a _ _ b c(2)] c(1) by (simp add: seconds_def)
qed

end
