(* ===== verification/AuthRoutes.thy ===== *)
theory AuthRoutes
  imports AuthSessions RateLimit
begin

text \<open>
  The sign-in routes (\<^verbatim>\<open>app/routes/auth.py\<close>) over the sessions, the identities and the budgets, and
  the token extraction with its cross-site check (\<^verbatim>\<open>app/core/dependencies.py\<close>).

  A route takes the budget store and the database and returns both with its answer. Parameters:
  the parsers of URLs and addresses, the delivery of a code by the messaging provider and the
  cryptographic functions of \<open>AuthSessions\<close>. The request bodies are already validated.
\<close>

section \<open>Token extraction and the cross-site check\<close>

record url =
  url_scheme :: string
  url_hostname :: "string option"
  url_username :: "string option"
  url_password :: "string option"
  url_port :: "int option option"

record http_request =
  rq_method :: string
  rq_authorization :: "string option"
  rq_cookies :: "(string \<times> string) list"
  rq_default_cookie :: "string option"
  rq_origin :: "string option"
  rq_referer :: "string option"
  rq_base_url :: string
  rq_client_host :: "string option"

record web_settings =
  ws_local :: bool
  ws_cookie_name :: string
  ws_cors_origins :: "string list"

text \<open>\<open>split\<close> is \<^verbatim>\<open>urlsplit\<close>, \<open>None\<close> its \<^verbatim>\<open>ValueError\<close>; a port out of range is \<open>None\<close>.\<close>

definition normalized_origin :: "(string \<Rightarrow> url option) \<Rightarrow> string \<Rightarrow> string option" where
  "normalized_origin split value = (case split value of
     None \<Rightarrow> None
   | Some p \<Rightarrow>
      if url_scheme p \<notin> {''http'', ''https''} then None
      else (case url_hostname p of
         None \<Rightarrow> None
       | Some host \<Rightarrow>
          if host = [] \<or> url_username p \<noteq> None \<or> url_password p \<noteq> None then None
          else (case url_port p of
             None \<Rightarrow> None
           | Some port \<Rightarrow>
              let default_port = (if url_scheme p = ''https'' then 443 else 80);
                  suffix = (case port of None \<Rightarrow> [] | Some n \<Rightarrow> if n \<noteq> default_port then '':'' @ show_int n else [])
              in Some (url_scheme p @ ''://'' @ lower host @ suffix))))"

text \<open>\<open>classify h\<close> is \<^verbatim>\<open>(is_private, is_loopback)\<close> of an address, \<open>None\<close> when it is none.\<close>

definition private_peer :: "(string \<Rightarrow> (bool \<times> bool) option) \<Rightarrow> http_request \<Rightarrow> bool" where
  "private_peer classify rq = (case rq_client_host rq of None \<Rightarrow> False
     | Some h \<Rightarrow> (case classify h of None \<Rightarrow> False | Some (private, loopback) \<Rightarrow> private \<or> loopback))"

definition header_or :: "string option \<Rightarrow> string option \<Rightarrow> string option" where
  "header_or a b = (case a of Some x \<Rightarrow> if x = [] then b else a | None \<Rightarrow> b)"

definition allowed_origins :: "(string \<Rightarrow> url option) \<Rightarrow> web_settings \<Rightarrow> http_request \<Rightarrow> string list" where
  "allowed_origins split ws rq = List.map_filter (normalized_origin split) (ws_cors_origins ws)
     @ (case normalized_origin split (rq_base_url rq) of None \<Rightarrow> [] | Some x \<Rightarrow> [x])"

definition enforce_cookie_origin ::
  "(string \<Rightarrow> url option) \<Rightarrow> (string \<Rightarrow> (bool \<times> bool) option) \<Rightarrow> web_settings \<Rightarrow> http_request \<Rightarrow>
   http_error + unit" where
  "enforce_cookie_origin split classify ws rq =
    (if upper (rq_method rq) \<in> {''GET'', ''HEAD'', ''OPTIONS'', ''TRACE''} \<or> ws_local ws then Inr ()
     else (case header_or (rq_origin rq) (rq_referer rq) of
        None \<Rightarrow> if private_peer classify rq then Inr ()
          else Inl (HTTP 403 ''Request origin could not be verified'')
      | Some source \<Rightarrow>
          if source = [] then
            (if private_peer classify rq then Inr () else Inl (HTTP 403 ''Request origin could not be verified''))
          else (case normalized_origin split source of
             None \<Rightarrow> Inl (HTTP 403 ''Request origin is not allowed'')
           | Some x \<Rightarrow> if x \<in> set (allowed_origins split ws rq) then Inr ()
               else Inl (HTTP 403 ''Request origin is not allowed''))))"

definition extract_token ::
  "(string \<Rightarrow> url option) \<Rightarrow> (string \<Rightarrow> (bool \<times> bool) option) \<Rightarrow> web_settings \<Rightarrow> http_request \<Rightarrow>
   http_error + string" where
  "extract_token split classify ws rq =
    (case rq_authorization rq of
       Some a \<Rightarrow>
         if starts_with a ''Bearer '' then Inr (strip (drop 7 a))
         else (case header_or (map_of (rq_cookies rq) (ws_cookie_name ws)) (rq_default_cookie rq) of
            None \<Rightarrow> Inl (HTTP 401 ''Authentication required'')
          | Some t \<Rightarrow> if t = [] then Inl (HTTP 401 ''Authentication required'')
              else and_then (enforce_cookie_origin split classify ws rq) (\<lambda>_. Inr t))
     | None \<Rightarrow> (case header_or (map_of (rq_cookies rq) (ws_cookie_name ws)) (rq_default_cookie rq) of
            None \<Rightarrow> Inl (HTTP 401 ''Authentication required'')
          | Some t \<Rightarrow> if t = [] then Inl (HTTP 401 ''Authentication required'')
              else and_then (enforce_cookie_origin split classify ws rq) (\<lambda>_. Inr t)))"

section \<open>Requesting a code\<close>

datatype backend = BackendDisabled | BackendLocal | BackendMeta

datatype delivery = Delivered | ProviderFailed bool | NotDeliverable

record otp_requested =
  or_status :: string
  or_expires_in :: int
  or_resend_after :: int
  or_delivery :: string
  or_dev_code :: "string option"

record route_settings =
  rt_auth :: auth_settings
  rt_rate :: rate_settings
  rt_backend :: backend
  rt_expose_local_otp :: bool

text \<open>The cryptographic parameters of a deployment.\<close>

record crypto_ops =
  co_hash :: "string \<Rightarrow> string"
  co_sha :: "string \<Rightarrow> string"
  co_encode :: "claims \<Rightarrow> string"
  co_decode :: "time \<Rightarrow> string \<Rightarrow> claims option"

definition pin_active :: "auth_settings \<Rightarrow> time \<Rightarrow> bool" where
  "pin_active st now = (case st_pin_expires_at st of None \<Rightarrow> False | Some e \<Rightarrow> now < e)"

definition otp_answer :: "auth_settings \<Rightarrow> string option \<Rightarrow> otp_requested" where
  "otp_answer st dev = \<lparr> or_status = ''sent'', or_expires_in = st_otp_ttl_minutes st * 60,
     or_resend_after = st_otp_cooldown st, or_delivery = ''whatsapp'', or_dev_code = dev \<rparr>"

definition pin_answer :: "auth_settings \<Rightarrow> otp_requested" where
  "pin_answer st = \<lparr> or_status = ''accepted'', or_expires_in = st_otp_ttl_minutes st * 60,
     or_resend_after = 0, or_delivery = ''web_pin'', or_dev_code = None \<rparr>"

text \<open>The message went to the provider: what its answer makes of the code.\<close>

definition after_delivery ::
  "route_settings \<Rightarrow> time \<Rightarrow> delivery \<Rightarrow> otp_row \<Rightarrow> string \<Rightarrow> auth_db \<Rightarrow> auth_db \<times> (limit_error + otp_requested)" where
  "after_delivery rt later_now d otp pin db =
    (let consumed = set_otp (ot_id otp) (\<lambda>r. r\<lparr>ot_consumed_at := Some later_now\<rparr>) db in
     case d of
       Delivered \<Rightarrow> (db, Inr (otp_answer (rt_auth rt)
         (if st_local (rt_auth rt) \<and> rt_expose_local_otp rt then Some pin else None)))
     | ProviderFailed retryable \<Rightarrow> (consumed, Inl (Limited
         (if retryable then HTTP 503 ''WhatsApp OTP delivery is temporarily unavailable''
          else HTTP 502 ''WhatsApp rejected OTP delivery'') None))
     | NotDeliverable \<Rightarrow> (consumed, Inl (Limited (HTTP 503 ''WhatsApp OTP delivery is not configured'') None)))"

definition request_otp ::
  "crypto_ops \<Rightarrow> 's redis_ops \<Rightarrow> link \<Rightarrow> route_settings \<Rightarrow> string \<Rightarrow> (string \<Rightarrow> string \<Rightarrow> delivery) \<Rightarrow>
   ident \<Rightarrow> string \<Rightarrow> string \<Rightarrow> time \<Rightarrow> time \<Rightarrow> string \<Rightarrow> 's \<Rightarrow> auth_db \<Rightarrow>
   's \<times> auth_db \<times> (limit_error + otp_requested)" where
  "request_otp co ops lnk rt address deliver oid nonce rnd now later_now raw store db =
    (let st = rt_auth rt in
     if st_mode st = LDisabled
     then (store, db, Inl (Limited (HTTP 503 ''Web authentication is not configured'') None))
     else if st_mode st = LWhatsappOtp \<and> rt_backend rt = BackendDisabled
     then (store, db, Inl (Limited (HTTP 503 ''WhatsApp OTP delivery is not configured'') None))
     else (case normalize_phone raw of
        Inl e \<Rightarrow> (store, db, Inl (Limited e None))
      | Inr phone \<Rightarrow>
         (case enforce_auth_rate_limit (co_hash co) ops lnk now (rt_rate rt) address phone ''request'' store of
            (store', Inl e) \<Rightarrow> (store', db, Inl e)
          | (store', Inr _) \<Rightarrow>
             if st_mode st = LStaticPin then
               (if \<not> pin_active st now
                then (store', db, Inl (Limited (HTTP 503 ''Temporary web authentication is unavailable'') None))
                else (case find_mapped_login_user db phone of
                   Inl e \<Rightarrow> (store', db, Inl (Limited e None))
                 | Inr None \<Rightarrow> (store', db, Inr (pin_answer st))
                 | Inr (Some _) \<Rightarrow>
                    (case issue_pin_challenge (co_hash co) st oid nonce now phone db db of
                       Inl e \<Rightarrow> (store', db, Inl (Limited e None))
                     | Inr (Inl _) \<Rightarrow> (store', db, Inl (BadCall ''IntegrityError''))
                     | Inr (Inr db') \<Rightarrow> (store', db', Inr (pin_answer st)))))
             else (case login_user st db phone of
                Inl e \<Rightarrow> (store', db, Inl (Limited e None))
              | Inr None \<Rightarrow> (store', db, Inr (otp_answer st None))
              | Inr (Some _) \<Rightarrow>
                 (case issue_otp (co_hash co) st oid now rnd phone db of
                    Inl (HTTP status detail) \<Rightarrow>
                      if status \<noteq> 429 then (store', db, Inl (Limited (HTTP status detail) None))
                      else (store', db, Inr (otp_answer st None))
                  | Inr (db', otp, pin) \<Rightarrow> (store', after_delivery rt later_now (deliver phone pin) otp pin db'))))))"

section \<open>Verifying a code\<close>

definition auth_audit ::
  "ident \<Rightarrow> time \<Rightarrow> ident option \<Rightarrow> ident option \<Rightarrow> string \<Rightarrow> string \<Rightarrow> string option \<Rightarrow> pyval \<Rightarrow> audit_row" where
  "auth_audit lid now actor tid action rtype rid after = \<lparr> lg_id = lid, lg_tenant_id = tid,
     lg_actor_user_id = actor, lg_action = action, lg_resource_type = Some rtype, lg_resource_id = rid,
     lg_before = PNone, lg_after = after, lg_created_at = now \<rparr>"

definition add_audit :: "audit_row \<Rightarrow> auth_db \<Rightarrow> auth_db" where
  "add_audit row db = db\<lparr>au_audit := au_audit db @ [row]\<rparr>"

definition verify_static_pin ::
  "crypto_ops \<Rightarrow> auth_settings \<Rightarrow> ident \<Rightarrow> time \<Rightarrow> string \<Rightarrow> string \<Rightarrow> auth_db \<Rightarrow> auth_db \<times> (http_error + user_row)" where
  "verify_static_pin co st lid now phone submitted db =
    (let reference = co_hash co (''auth-audit:phone:'' @ phone) in
     case verify_pin (co_hash co) st now phone submitted db of
       Inl e \<Rightarrow> (db, Inl e)
     | Inr (db', None) \<Rightarrow>
         (add_audit (auth_audit lid now None None ''auth.temporary_static_pin.denied'' ''phone_identity''
            (Some reference) (PDict [(''outcome'', PStr ''invalid_credentials'')])) db',
          Inl (HTTP 401 ''Invalid or expired code''))
     | Inr (db', Some u) \<Rightarrow>
         (add_audit (auth_audit lid now (Some (us_id u)) None ''auth.temporary_static_pin.verified'' ''phone_identity''
            (Some reference) (PDict [(''outcome'', PStr ''success'')])) db', Inr u))"

record auth_response =
  ap_token :: string
  ap_user_id :: ident
  ap_user_name :: "string option"
  ap_user_phone :: string
  ap_cookie_max_age :: int

definition verify_code ::
  "crypto_ops \<Rightarrow> 's redis_ops \<Rightarrow> link \<Rightarrow> route_settings \<Rightarrow> string \<Rightarrow> ident \<Rightarrow> ident \<Rightarrow> string \<Rightarrow> time \<Rightarrow>
   string \<Rightarrow> string \<Rightarrow> 's \<Rightarrow> auth_db \<Rightarrow> 's \<times> auth_db \<times> (limit_error + auth_response)" where
  "verify_code co ops lnk rt address lid sid jti now raw submitted store db =
    (let st = rt_auth rt in
     case normalize_phone raw of
       Inl e \<Rightarrow> (store, db, Inl (Limited e None))
     | Inr phone \<Rightarrow>
        (case enforce_auth_rate_limit (co_hash co) ops lnk now (rt_rate rt) address phone ''verify'' store of
           (store', Inl e) \<Rightarrow> (store', db, Inl e)
         | (store', Inr _) \<Rightarrow>
            if st_mode st = LDisabled
            then (store', db, Inl (Limited (HTTP 503 ''Web authentication is not configured'') None))
            else if st_mode st = LStaticPin \<and> \<not> pin_active st now
            then (store', db, Inl (Limited (HTTP 503 ''Temporary web authentication is unavailable'') None))
            else (case (if st_mode st = LStaticPin then verify_static_pin co st lid now phone submitted db
                        else verify_otp (co_hash co) st now phone submitted db) of
                (db', Inl e) \<Rightarrow> (store', db', Inl (Limited e None))
              | (db', Inr u) \<Rightarrow>
                 (case create_access_token (co_sha co) (co_encode co) st sid jti now u db' of
                    (db'', token, session) \<Rightarrow> (store', db'',
                       Inr \<lparr> ap_token = token, ap_user_id = us_id u, ap_user_name = us_name u,
                         ap_user_phone = us_phone u, ap_cookie_max_age = st_token_minutes st * 60 \<rparr>)))))"

section \<open>Signing out\<close>

definition logout :: "crypto_ops \<Rightarrow> time \<Rightarrow> string \<Rightarrow> auth_db \<Rightarrow> http_error + (auth_db \<times> string)" where
  "logout co now token db = and_then (revoke_token (co_sha co) (co_decode co) now token db)
     (\<lambda>db'. Inr (db', ''Logged out''))"

definition logout_other_sessions ::
  "crypto_ops \<Rightarrow> ident \<Rightarrow> time \<Rightarrow> principal \<Rightarrow> string \<Rightarrow> auth_db \<Rightarrow> http_error + (auth_db \<times> int)" where
  "logout_other_sessions co lid now p token db =
    and_then (revoke_other_tokens (co_sha co) (co_decode co) now (us_id (p_user p)) token db) (\<lambda>(db', revoked).
      Inr (add_audit (auth_audit lid now (Some (us_id (p_user p))) (map_option tn_id (p_tenant p))
             ''auth.sessions.revoked_others'' ''auth_session'' None
             (PDict [(''revoked_sessions'', PInt revoked)])) db', revoked))"

definition member_view :: "membership \<Rightarrow> ident \<times> ident \<times> member_role \<times> string" where
  "member_view m = (mb_id m, mb_tenant_id m, mb_role m, mb_status m)"

record me_view =
  me_id :: ident
  me_name :: "string option"
  me_email :: "string option"
  me_phone :: string
  me_roles :: "string list"
  me_memberships :: "(ident \<times> ident \<times> member_role \<times> string) list"
  me_tenant :: "ident option"

definition me :: "principal \<Rightarrow> me_view" where
  "me p = \<lparr> me_id = us_id (p_user p), me_name = us_name (p_user p), me_email = us_email (p_user p),
     me_phone = us_phone (p_user p), me_roles = sort (remdups (map role_name (p_roles p))),
     me_memberships = map member_view (p_memberships p), me_tenant = map_option tn_id (p_tenant p) \<rparr>"

section \<open>Comparing origins as text\<close>

text \<open>The reference: an origin is a scheme, a host whose letter case is immaterial, and the effective port.\<close>

definition origin_of :: "(string \<Rightarrow> url option) \<Rightarrow> string \<Rightarrow> (string \<times> string \<times> int) option" where
  "origin_of split value = (case split value of
     None \<Rightarrow> None
   | Some p \<Rightarrow> (case (url_hostname p, url_port p) of
       (Some host, Some port) \<Rightarrow>
         if url_scheme p \<in> {''http'', ''https''} \<and> host \<noteq> [] \<and> url_username p = None \<and> url_password p = None
         then Some (url_scheme p, lower host,
           (case port of Some n \<Rightarrow> n | None \<Rightarrow> if url_scheme p = ''https'' then 443 else 80))
         else None
     | _ \<Rightarrow> None))"

text \<open>Hosts written with a colon (IPv6 literals lose their brackets in \<^verbatim>\<open>hostname\<close>) are excluded.\<close>

definition plain_url :: "(string \<Rightarrow> url option) \<Rightarrow> string \<Rightarrow> bool" where
  "plain_url split value = (\<forall>p host. split value = Some p \<and> url_hostname p = Some host \<longrightarrow> CHR '':'' \<notin> set host)"

definition show_origin :: "string \<times> string \<times> int \<Rightarrow> string" where
  "show_origin x = (case x of (scheme, host, port) \<Rightarrow> scheme @ ''://'' @ host
     @ (if port = (if scheme = ''https'' then 443 else 80) then [] else '':'' @ show_int port))"

lemma normalized_origin_of: "normalized_origin split v = map_option show_origin (origin_of split v)"
proof (cases "split v")
  case None
  then show ?thesis by (simp add: normalized_origin_def origin_of_def)
next
  case (Some p)
  show ?thesis
    by (cases "url_hostname p"; cases "url_port p")
      (auto simp: normalized_origin_def origin_of_def Some show_origin_def Let_def split: option.split)
qed

lemma lower_colon: "CHR '':'' \<notin> set h \<Longrightarrow> CHR '':'' \<notin> set (lower h)"
proof
  assume h: "CHR '':'' \<notin> set h" "CHR '':'' \<in> set (lower h)"
  then obtain c where c: "c \<in> set h" "lower_char c = CHR '':''" by (auto simp: lower_def)
  have "code (lower_char c) = (if is_upper c then code c + 32 else code c)"
    by (auto simp: lower_char_def is_upper_def code_def)
  then have "\<not> is_upper c" using c(2) by (auto simp: is_upper_def code_def)
  with c(2) h(1) c(1) show False by (simp add: lower_char_def)
qed

lemma colon_suffix_eq:
  assumes "CHR '':'' \<notin> set h" "CHR '':'' \<notin> set h'"
    and "h @ (if a then [] else '':'' @ x) = h' @ (if b then [] else '':'' @ y)"
  shows "h = h' \<and> a = b \<and> (\<not> a \<longrightarrow> x = y)"
proof -
  have field: "hd (split_on CHR '':'' (h @ (if a then [] else '':'' @ x))) = h"
    "tl (split_on CHR '':'' (h @ (if a then [] else '':'' @ x))) = (if a then [] else split_on CHR '':'' x)"
    if "CHR '':'' \<notin> set h" for h a x
    using that by (simp_all add: split_on_no_sep split_on_append)
  have "h = h'" using field(1)[OF assms(1), of a x] field(1)[OF assms(2), of b y] assms(3) by simp
  with assms(3) show ?thesis by (auto split: if_splits)
qed

lemma show_origin_inj:
  assumes "fst x \<in> {''http'', ''https''}" "fst y \<in> {''http'', ''https''}"
    and "CHR '':'' \<notin> set (fst (snd x))" "CHR '':'' \<notin> set (fst (snd y))" "show_origin x = show_origin y"
  shows "x = y"
proof -
  obtain s h p s' h' p' where xy: "x = (s, h, p)" "y = (s', h', p')" by (metis surj_pair)
  have s: "s = s'" using assms(1,2,5) by (auto simp: xy show_origin_def)
  define d where "d = (if s = ''https'' then 443 else 80 :: int)"
  have "h @ (if p = d then [] else '':'' @ show_int p) = h' @ (if p' = d then [] else '':'' @ show_int p')"
    using assms(5) by (simp add: xy s show_origin_def d_def)
  from colon_suffix_eq[OF _ _ this] assms(3,4) have "h = h'" "(p = d) = (p' = d)" "p \<noteq> d \<Longrightarrow> show_int p = show_int p'"
    by (simp_all add: xy)
  then show ?thesis using s show_int_inj by (auto simp: xy)
qed

lemma origin_of_parts:
  assumes "origin_of split v = Some x"
  shows "fst x \<in> {''http'', ''https''}" "plain_url split v \<Longrightarrow> CHR '':'' \<notin> set (fst (snd x))"
  using assms by (auto simp: origin_of_def plain_url_def lower_colon split: option.splits if_splits)

text \<open>Comparing normalised origins as text is comparing origins. For two addresses whose hosts contain no
  colon, the strings the cross-site check compares are equal exactly when both addresses have an origin
  and the same scheme, the same host up to letter case and the same effective port, or neither has
  one.\<close>

theorem origin_text_equivalence:
  assumes "plain_url split a" "plain_url split b"
  shows "normalized_origin split a = normalized_origin split b \<longleftrightarrow> origin_of split a = origin_of split b"
proof (cases "origin_of split a = None \<or> origin_of split b = None")
  case True
  then show ?thesis by (auto simp: normalized_origin_of)
next
  case False
  then obtain x y where xy: "origin_of split a = Some x" "origin_of split b = Some y" by auto
  show ?thesis
    using show_origin_inj[OF origin_of_parts(1)[OF xy(1)] origin_of_parts(1)[OF xy(2)]
        origin_of_parts(2)[OF xy(1) assms(1)] origin_of_parts(2)[OF xy(2) assms(2)]]
    by (auto simp: normalized_origin_of xy)
qed

section \<open>Asking for a code does not tell who may sign in\<close>

definition one_open_challenge :: "auth_db \<Rightarrow> bool" where
  "one_open_challenge db = distinct (map ot_phone
     (filter (\<lambda>r. ot_purpose r = PTempPin \<and> ot_consumed_at r = None) (au_otps db)))"

lemma issue_pin_no_conflict:
  assumes "one_open_challenge db" "e164 phone"
  shows "\<exists>db'. issue_pin_challenge hash st oid nonce now phone db db = Inr (Inr db')"
proof (cases "open_challenge db phone")
  case None
  then show ?thesis by (simp add: issue_pin_challenge_def normalize_id[OF assms(2)])
next
  case (Some l)
  define db1 where "db1 = set_otp (ot_id l) (\<lambda>r. r\<lparr>ot_consumed_at := Some now\<rparr>) db"
  have l: "l \<in> set (au_otps db)" "ot_phone l = phone" "ot_purpose l = PTempPin" "ot_consumed_at l = None"
    using first_by_Some(1,2)[OF Some[unfolded open_challenge_def]] by simp_all
  have "open_challenge db1 phone = None"
    unfolding open_challenge_def first_by_None
  proof (intro ballI notI)
    fix r assume r: "r \<in> set (au_otps db1)" "ot_phone r = phone \<and> ot_purpose r = PTempPin \<and> ot_consumed_at r = None"
    from r(1)[unfolded db1_def set_otp_def, simplified] show False
    proof (cases rule: in_tbl_updE)
      case (changed r0)
      then show False using r(2) by simp
    next
      case same
      have "inj_on ot_phone (set (filter (\<lambda>r. ot_purpose r = PTempPin \<and> ot_consumed_at r = None) (au_otps db)))"
        using assms(1) by (simp add: one_open_challenge_def distinct_map)
      then have "r = l" using same(1) r(2) l by (auto dest: inj_onD)
      with same(2) show False by simp
    qed
  qed
  then show ?thesis
    using Some by (simp add: issue_pin_challenge_def normalize_id[OF assms(2)] Let_def db1_def)
qed

lemma login_user_ok:
  "e164 phone \<Longrightarrow> \<exists>r. login_user st db phone = Inr r"
  "e164 phone \<Longrightarrow> \<exists>r. find_mapped_login_user db phone = Inr r"
  by (simp_all add: login_user_def find_mapped_login_user_def find_login_eligible_user_def normalize_id)

lemma issue_otp_refusal: "e164 phone \<Longrightarrow> issue_otp hash st oid now rnd phone db = Inl (HTTP n d) \<Longrightarrow> n = 429"
  by (auto simp: issue_otp_def normalize_id Let_def split: if_splits)

text \<open>The answer when nobody may tell whether the number is known.\<close>

definition public_answer ::
  "crypto_ops \<Rightarrow> 's redis_ops \<Rightarrow> link \<Rightarrow> route_settings \<Rightarrow> string \<Rightarrow> time \<Rightarrow> string \<Rightarrow> 's \<Rightarrow>
   's \<times> (limit_error + otp_requested)" where
  "public_answer co ops lnk rt address now raw store =
    (let st = rt_auth rt in
     if st_mode st = LDisabled
     then (store, Inl (Limited (HTTP 503 ''Web authentication is not configured'') None))
     else if st_mode st = LWhatsappOtp \<and> rt_backend rt = BackendDisabled
     then (store, Inl (Limited (HTTP 503 ''WhatsApp OTP delivery is not configured'') None))
     else (case normalize_phone raw of
        Inl e \<Rightarrow> (store, Inl (Limited e None))
      | Inr phone \<Rightarrow>
         (case enforce_auth_rate_limit (co_hash co) ops lnk now (rt_rate rt) address phone ''request'' store of
            (store', Inl e) \<Rightarrow> (store', Inl e)
          | (store', Inr _) \<Rightarrow> (store',
             if st_mode st = LStaticPin then
               (if pin_active st now then Inr (pin_answer st)
                else Inl (Limited (HTTP 503 ''Temporary web authentication is unavailable'') None))
             else Inr (otp_answer st None)))))"

text \<open>C25: asking for a code reveals nothing about the people in the database. Outside local development, whenever
  the provider accepts the messages it is given, the whole answer of the route and what it does to the
  budgets are the same for every database: they depend on the settings, the budgets and the number
  alone, so an unknown, blocked or unmapped number, one with a running cooldown and an eligible one
  are answered alike.\<close>

theorem no_eligibility_oracle:
  assumes "\<not> st_local (rt_auth rt)" "\<And>p c. deliver p c = Delivered" "one_open_challenge db"
    and "request_otp co ops lnk rt address deliver oid nonce rnd now later_now raw store db = (store', db', answer)"
  shows "(store', answer) = public_answer co ops lnk rt address now raw store"
proof (cases "st_mode (rt_auth rt) = LDisabled \<or> st_mode (rt_auth rt) = LWhatsappOtp \<and> rt_backend rt = BackendDisabled")
  case True
  then show ?thesis using assms(4) by (auto simp: request_otp_def public_answer_def Let_def split: if_splits)
next
  case on: False
  show ?thesis
  proof (cases "normalize_phone raw")
    case (Inl e)
    then show ?thesis using assms(4) on by (auto simp: request_otp_def public_answer_def Let_def split: if_splits)
  next
    case (Inr phone)
    note e = normalize_e164[OF Inr]
    obtain s1 r where lim: "enforce_auth_rate_limit (co_hash co) ops lnk now (rt_rate rt) address phone ''request'' store
        = (s1, r)" by fastforce
    obtain mu where mu: "find_mapped_login_user db phone = Inr mu" using login_user_ok(2)[OF e] by blast
    obtain lu where lu: "login_user (rt_auth rt) db phone = Inr lu" using login_user_ok(1)[OF e] by blast
    obtain db2 where pin: "issue_pin_challenge (co_hash co) (rt_auth rt) oid nonce now phone db db = Inr (Inr db2)"
      using issue_pin_no_conflict[OF assms(3) e] by blast
    show ?thesis
    proof (cases "st_mode (rt_auth rt) = LStaticPin")
      case True
      then show ?thesis
        using assms(4) on Inr lim mu pin
        by (cases r; cases mu) (auto simp: request_otp_def public_answer_def Let_def split: if_splits)
    next
      case False
      show ?thesis
      proof (cases "issue_otp (co_hash co) (rt_auth rt) oid now rnd phone db")
        case er: (Inl x)
        then obtain d where "x = HTTP 429 d" using issue_otp_refusal[OF e] by (cases x) auto
        then show ?thesis
          using assms(4) on Inr lim lu er False
          by (cases r; cases lu) (auto simp: request_otp_def public_answer_def Let_def split: if_splits)
      next
        case ok: (Inr x)
        then show ?thesis
          using assms on Inr lim lu False
          by (cases r; cases lu; cases x)
            (auto simp: request_otp_def public_answer_def Let_def after_delivery_def split: if_splits)
      qed
    qed
  qed
qed

section \<open>Signing in needs a live credential and spends it\<close>

lemma find_mapped_Some:
  "find_mapped_login_user db phone = Inr (Some u) \<Longrightarrow> e164 phone \<Longrightarrow>
   u \<in> set (au_users db) \<and> us_phone u = phone \<and> us_status u = ''active'' \<and> active_mapping db (us_id u) phone"
  by (auto simp: find_mapped_login_user_def normalize_id dest: find_SomeD)

lemma login_user_Some:
  "login_user st db phone = Inr (Some u) \<Longrightarrow> e164 phone \<Longrightarrow>
   u \<in> set (au_users db) \<and> us_phone u = phone \<and> us_status u = ''active''
   \<and> (\<not> st_local st \<longrightarrow> active_mapping db (us_id u) phone)"
  by (auto simp: login_user_def find_login_eligible_user_def find_mapped_login_user_def normalize_id
      dest: find_SomeD split: if_splits)

lemma verify_otp_Inr:
  assumes "verify_otp hash st now phone pin db = (db', Inr u)" "e164 phone"
  obtains otp where "latest_otp db phone = Some otp" "ot_consumed_at otp = None" "now < ot_expires_at otp"
    "ot_attempts otp < st_otp_max_attempts st" "ot_code_hash otp = hash (phone @ '':'' @ pin)"
    "login_user st db phone = Inr (Some u)" "db' = set_otp (ot_id otp) (\<lambda>r. r\<lparr>ot_consumed_at := Some now\<rparr>) db"
proof -
  obtain otp where l: "latest_otp db phone = Some otp"
    using assms by (cases "latest_otp db phone") (auto simp: verify_otp_def normalize_id)
  show thesis
    using that[OF l] assms l
    by (simp add: verify_otp_def normalize_id split: if_splits sum.splits option.splits)
qed

lemma verify_pin_Inr:
  assumes "verify_pin hash st now phone pin db = Inr (db', Some u)" "e164 phone"
  obtains c where "open_challenge db phone = Some c" "now \<le> ot_expires_at c"
    "ot_attempts c < st_otp_max_attempts st" "st_pin_verifier st = hash (''web-login-pin:'' @ pin)"
    "find_mapped_login_user db phone = Inr (Some u)"
    "db' = set_otp (ot_id c) (\<lambda>r. r\<lparr>ot_consumed_at := Some now\<rparr>) db"
proof -
  obtain c where c: "open_challenge db phone = Some c"
    using assms by (cases "open_challenge db phone") (auto simp: verify_pin_def normalize_id)
  show thesis
    using that[OF c] assms c
    by (auto simp: verify_pin_def normalize_id and_then_Inr Let_def split: if_splits)
qed

text \<open>C24: nobody signs in without a live credential. When the route answers with a token, the web login is
  enabled, the number belongs to an active user (outside local development one with an approved active
  mapping), the submitted code matched the latest unused, unexpired, unlocked one-time code of the
  number, or the shared PIN within its lifetime against an open challenge of the number; that
  credential is now used up; and exactly one new session, of that user, was opened for the token.\<close>

theorem sign_in_needs_live_credential:
  assumes "verify_code co ops lnk rt address lid sid jti now raw submitted store db = (store', db', Inr resp)"
  shows "\<exists>phone u cred. normalize_phone raw = Inr phone \<and> ap_user_id resp = us_id u \<and> u \<in> set (au_users db)
    \<and> us_phone u = phone \<and> us_status u = ''active''
    \<and> (\<not> st_local (rt_auth rt) \<longrightarrow> active_mapping db (us_id u) phone) \<and> st_mode (rt_auth rt) \<noteq> LDisabled
    \<and> cred \<in> set (au_otps db) \<and> ot_phone cred = phone \<and> ot_consumed_at cred = None
    \<and> ot_attempts cred < st_otp_max_attempts (rt_auth rt) \<and> now \<le> ot_expires_at cred
    \<and> (if st_mode (rt_auth rt) = LStaticPin
       then open_challenge db phone = Some cred \<and> pin_active (rt_auth rt) now
         \<and> st_pin_verifier (rt_auth rt) = co_hash co (''web-login-pin:'' @ submitted)
       else latest_otp db phone = Some cred \<and> ot_code_hash cred = co_hash co (phone @ '':'' @ submitted))
    \<and> au_otps db' = tbl_upd ot_id (ot_id cred) (\<lambda>r. r\<lparr>ot_consumed_at := Some now\<rparr>) (au_otps db)
    \<and> (\<exists>s. au_sessions db' = au_sessions db @ [s] \<and> ss_user_id s = us_id u \<and> ss_jti_hash s = co_sha co jti)"
proof -
  obtain phone where phone: "normalize_phone raw = Inr phone"
    using assms by (cases "normalize_phone raw") (auto simp: verify_code_def Let_def)
  note e = normalize_e164[OF phone]
  obtain s1 r where lim: "enforce_auth_rate_limit (co_hash co) ops lnk now (rt_rate rt) address phone ''verify'' store
      = (s1, r)" by fastforce
  have r: "r = Inr ()" "st_mode (rt_auth rt) \<noteq> LDisabled"
    "\<not> (st_mode (rt_auth rt) = LStaticPin \<and> \<not> pin_active (rt_auth rt) now)"
    using assms phone lim by (cases r; auto simp: verify_code_def Let_def split: if_splits)+
  obtain d1 out where v: "(if st_mode (rt_auth rt) = LStaticPin then verify_static_pin co (rt_auth rt) lid now phone submitted db
      else verify_otp (co_hash co) (rt_auth rt) now phone submitted db) = (d1, out)" by fastforce
  obtain u where u: "out = Inr u" "ap_user_id resp = us_id u"
    "db' = fst (create_access_token (co_sha co) (co_encode co) (rt_auth rt) sid jti now u d1)"
    using assms phone lim r v by (cases out) (auto simp: verify_code_def Let_def split: prod.splits)
  have sess: "\<exists>s. au_sessions db' = au_sessions d1 @ [s] \<and> ss_user_id s = us_id u \<and> ss_jti_hash s = co_sha co jti"
    "au_otps db' = au_otps d1"
    using u(3) by (simp_all add: create_access_token_def Let_def)
  show ?thesis
  proof (cases "st_mode (rt_auth rt) = LStaticPin")
    case True
    then obtain d2 where d2: "verify_pin (co_hash co) (rt_auth rt) now phone submitted db = Inr (d2, Some u)"
      "au_sessions d1 = au_sessions d2" "au_otps d1 = au_otps d2"
      using v u(1) by (auto simp: verify_static_pin_def Let_def add_audit_def split: sum.splits option.splits)
    obtain c where c: "open_challenge db phone = Some c" "now \<le> ot_expires_at c"
      "ot_attempts c < st_otp_max_attempts (rt_auth rt)" "st_pin_verifier (rt_auth rt) = co_hash co (''web-login-pin:'' @ submitted)"
      "find_mapped_login_user db phone = Inr (Some u)"
      "d2 = set_otp (ot_id c) (\<lambda>r. r\<lparr>ot_consumed_at := Some now\<rparr>) db"
      by (rule verify_pin_Inr[OF d2(1) e])
    have c': "c \<in> set (au_otps db)" "ot_phone c = phone" "ot_consumed_at c = None"
      using first_by_Some(1,2)[OF c(1)[unfolded open_challenge_def]] by simp_all
    have "au_otps db' = tbl_upd ot_id (ot_id c) (\<lambda>r. r\<lparr>ot_consumed_at := Some now\<rparr>) (au_otps db)"
      "au_sessions d1 = au_sessions db"
      using sess(2) d2(2,3) c(6) by (simp_all add: set_otp_def)
    then show ?thesis
      using phone u(2) find_mapped_Some[OF c(5) e] r True c c' sess(1) by auto
  next
    case False
    then have "verify_otp (co_hash co) (rt_auth rt) now phone submitted db = (d1, Inr u)" using v u(1) by simp
    then obtain otp where ot: "latest_otp db phone = Some otp" "ot_consumed_at otp = None" "now < ot_expires_at otp"
      "ot_attempts otp < st_otp_max_attempts (rt_auth rt)" "ot_code_hash otp = co_hash co (phone @ '':'' @ submitted)"
      "login_user (rt_auth rt) db phone = Inr (Some u)" "d1 = set_otp (ot_id otp) (\<lambda>r. r\<lparr>ot_consumed_at := Some now\<rparr>) db"
      using e by (rule verify_otp_Inr)
    have ot': "otp \<in> set (au_otps db)" "ot_phone otp = phone"
      using first_by_Some(1,2)[OF ot(1)[unfolded latest_otp_def]] by simp_all
    have "au_otps db' = tbl_upd ot_id (ot_id otp) (\<lambda>r. r\<lparr>ot_consumed_at := Some now\<rparr>) (au_otps db)"
      "au_sessions d1 = au_sessions db"
      using sess(2) ot(7) by (simp_all add: set_otp_def)
    then show ?thesis
      using phone u(2) login_user_Some[OF ot(6) e] r False ot ot' sess(1) by auto
  qed
qed

section \<open>Concrete requests\<close>

definition ex_split :: "string \<Rightarrow> url option" where
  "ex_split v = (if v = ''http://Shop'' then Some \<lparr> url_scheme = ''http'', url_hostname = Some ''Shop'',
       url_username = None, url_password = None, url_port = Some None \<rparr>
     else if v = ''http://shop:80/x'' then Some \<lparr> url_scheme = ''http'', url_hostname = Some ''shop'',
       url_username = None, url_password = None, url_port = Some (Some 80) \<rparr>
     else None)"

theorem origin_text_equivalence_witness:
  "normalized_origin ex_split ''http://Shop'' = normalized_origin ex_split ''http://shop:80/x''"
proof -
  have "origin_of ex_split ''http://Shop'' = origin_of ex_split ''http://shop:80/x''" by code_simp
  moreover have "plain_url ex_split ''http://Shop''" "plain_url ex_split ''http://shop:80/x''"
    by (simp_all add: plain_url_def ex_split_def)
  ultimately show ?thesis using origin_text_equivalence by blast
qed

definition ex_crypto :: crypto_ops where
  "ex_crypto = \<lparr> co_hash = id, co_sha = id, co_encode = (\<lambda>_. ''tok''), co_decode = ex_decode \<rparr>"

definition ex_route :: route_settings where
  "ex_route = \<lparr> rt_auth = ex_settings,
     rt_rate = \<lparr> rs_auth_enabled = True, rs_operation_enabled = True, rs_request_phone_limit = 5,
       rs_request_ip_limit = 20, rs_verify_phone_limit = 5, rs_verify_ip_limit = 20, rs_auth_window = 60 \<rparr>,
     rt_backend = BackendMeta, rt_expose_local_otp = True \<rparr>"

theorem no_eligibility_oracle_witness:
  "snd (snd (request_otp ex_crypto mem_ops LinkUp ex_route ''::1'' (\<lambda>_ _. Delivered) ''o9'' ''n'' ''111111'' 5 6
     ''+2348012345678'' Map.empty ex_auth)) = Inr (otp_answer ex_settings None)"
proof -
  obtain store' db' answer where r: "request_otp ex_crypto mem_ops LinkUp ex_route ''::1'' (\<lambda>_ _. Delivered) ''o9'' ''n''
      ''111111'' 5 6 ''+2348012345678'' Map.empty ex_auth = (store', db', answer)" by (metis surj_pair)
  have a: "\<not> st_local (rt_auth ex_route)" "one_open_challenge ex_auth"
    by (simp_all add: ex_route_def ex_settings_def one_open_challenge_def ex_auth_def)
  have "snd (public_answer ex_crypto mem_ops LinkUp ex_route ''::1'' 5 ''+2348012345678'' Map.empty)
      = Inr (otp_answer ex_settings None)" by code_simp
  with no_eligibility_oracle[OF a(1) _ a(2) r] r show ?thesis by (metis snd_conv)
qed

lemma ex_sign_in:
  "is_ok (snd (snd (verify_code ex_crypto mem_ops LinkUp ex_route ''::1'' ''l1'' ''s1'' ''j'' 9 ex_phone ''123456''
     Map.empty (ex_auth\<lparr>au_otps := [ex_otp]\<rparr>))))"
  by code_simp

theorem sign_in_needs_live_credential_witness:
  "length (au_sessions (fst (snd (verify_code ex_crypto mem_ops LinkUp ex_route ''::1'' ''l1'' ''s1'' ''j'' 9 ex_phone
     ''123456'' Map.empty (ex_auth\<lparr>au_otps := [ex_otp]\<rparr>))))) = 1"
proof -
  obtain store' db' answer where r: "verify_code ex_crypto mem_ops LinkUp ex_route ''::1'' ''l1'' ''s1'' ''j'' 9 ex_phone
      ''123456'' Map.empty (ex_auth\<lparr>au_otps := [ex_otp]\<rparr>) = (store', db', answer)" by (metis surj_pair)
  then obtain resp where "answer = Inr resp" using ex_sign_in by (cases answer) auto
  from sign_in_needs_live_credential[OF r[unfolded this]]
  obtain s where "au_sessions db' = au_sessions (ex_auth\<lparr>au_otps := [ex_otp]\<rparr>) @ [s]" by blast
  moreover have "au_sessions (ex_auth\<lparr>au_otps := [ex_otp]\<rparr>) = []" by (simp add: ex_auth_def)
  ultimately show ?thesis by (simp add: r)
qed

end
