(* ===== verification/Encoding.thy ===== *)
theory Encoding
  imports PyText "HOL-Library.Word"
begin

text \<open>
  Bytes and the encodings of the standard library that credentials pass through: strict UTF-8 and
  base64 with the URL-safe alphabet, decoded strictly (\<^verbatim>\<open>validate=True\<close>). A text here is its list of
  Unicode code points, because a decoded secret may hold any of them; surrogates have no encoding.
\<close>

type_synonym byte = "8 word"

type_synonym utext = "nat list"

section \<open>UTF-8\<close>

definition scalar_value :: "nat \<Rightarrow> bool" where
  "scalar_value c = (c < 0xD800 \<or> 0xE000 \<le> c \<and> c < 0x110000)"

definition byte_of :: "nat \<Rightarrow> byte" where
  "byte_of n = of_nat n"

definition utf8_char :: "nat \<Rightarrow> byte list" where
  "utf8_char c =
    (if c < 0x80 then [byte_of c]
     else if c < 0x800 then [byte_of (0xC0 + c div 64), byte_of (0x80 + c mod 64)]
     else if c < 0x10000 then
       [byte_of (0xE0 + c div 4096), byte_of (0x80 + c div 64 mod 64), byte_of (0x80 + c mod 64)]
     else [byte_of (0xF0 + c div 262144), byte_of (0x80 + c div 4096 mod 64),
           byte_of (0x80 + c div 64 mod 64), byte_of (0x80 + c mod 64)])"

definition utf8_encode :: "utext \<Rightarrow> byte list option" where
  "utf8_encode t = (if list_all scalar_value t then Some (concat (map utf8_char t)) else None)"

definition continuation :: "byte \<Rightarrow> bool" where
  "continuation b = (0x80 \<le> unat b \<and> unat b < 0xC0)"

definition low6 :: "byte \<Rightarrow> nat" where
  "low6 b = unat b - 0x80"

text \<open>The next code point and the rest, \<open>None\<close> when the bytes are no UTF-8.\<close>

fun utf8_next :: "byte list \<Rightarrow> (nat \<times> byte list) option" where
  "utf8_next [] = None"
| "utf8_next (a # s) = (let n = unat a in
     if n < 0x80 then Some (n, s)
     else if n < 0xC2 then None
     else if n < 0xE0 then (case s of
         b # r \<Rightarrow> if continuation b then Some ((n - 0xC0) * 64 + low6 b, r) else None
       | [] \<Rightarrow> None)
     else if n < 0xF0 then (case s of
         b # c # r \<Rightarrow>
           (let v = (n - 0xE0) * 4096 + low6 b * 64 + low6 c in
            if continuation b \<and> continuation c \<and> 0x800 \<le> v \<and> scalar_value v then Some (v, r) else None)
       | _ \<Rightarrow> None)
     else if n < 0xF5 then (case s of
         b # c # d # r \<Rightarrow>
           (let v = (n - 0xF0) * 262144 + low6 b * 4096 + low6 c * 64 + low6 d in
            if continuation b \<and> continuation c \<and> continuation d \<and> 0x10000 \<le> v \<and> scalar_value v
            then Some (v, r) else None)
       | _ \<Rightarrow> None)
     else None)"

lemma utf8_next_shorter: "utf8_next s = Some (c, r) \<Longrightarrow> length r < length s"
  by (cases s) (auto simp: Let_def split: if_splits list.splits)

function utf8_decode :: "byte list \<Rightarrow> utext option" where
  "utf8_decode s = (if s = [] then Some []
     else (case utf8_next s of None \<Rightarrow> None
       | Some (c, r) \<Rightarrow> map_option (Cons c) (utf8_decode r)))"
  by pat_completeness auto
termination by (relation "measure length") (auto dest: utf8_next_shorter)

declare utf8_decode.simps [simp del]

lemma unat_byte [simp]: "n < 256 \<Longrightarrow> unat (byte_of n) = n"
  by (simp add: byte_of_def unsigned_of_nat take_bit_nat_eq_self)

lemma byte_unat [simp]: "byte_of (unat b) = b"
  by (simp add: byte_of_def)

lemma base64_digits:
  fixes c :: nat
  shows "c div 4096 * 4096 + c div 64 mod 64 * 64 + c mod 64 = c"
    "c div 262144 * 262144 + c div 4096 mod 64 * 4096 + c div 64 mod 64 * 64 + c mod 64 = c"
proof -
  have d: "c div 4096 = c div 64 div 64" "c div 262144 = c div 4096 div 64"
    by (simp_all add: div_mult2_eq[symmetric])
  have a: "c div 4096 * 64 + c div 64 mod 64 = c div 64" "c div 262144 * 64 + c div 4096 mod 64 = c div 4096"
    "c div 64 * 64 + c mod 64 = c"
    unfolding d by (rule div_mult_mod_eq)+
  show "c div 4096 * 4096 + c div 64 mod 64 * 64 + c mod 64 = c" using a by linarith
  then show "c div 262144 * 262144 + c div 4096 mod 64 * 4096 + c div 64 mod 64 * 64 + c mod 64 = c" using a by linarith
qed

lemma utf8_next_char:
  assumes "scalar_value c"
  shows "utf8_next (utf8_char c @ r) = Some (c, r)"
proof -
  have c: "c < 0x110000" using assms by (auto simp: scalar_value_def)
  consider (1) "c < 0x80" | (2) "\<not> c < 0x80" "c < 0x800" | (3) "\<not> c < 0x800" "c < 0x10000"
    | (4) "\<not> c < 0x10000"
    by blast
  then show ?thesis
  proof cases
    case 1
    then show ?thesis by (simp add: utf8_char_def unat_byte)
  next
    case 2
    define q m where "q = c div 64" and "m = c mod 64"
    have qm: "c = q * 64 + m" "m < 64" by (simp_all add: q_def m_def)
    have q: "2 \<le> q" "q < 32" using 2 by (auto simp: q_def)
    have "utf8_char c = [byte_of (0xC0 + q), byte_of (0x80 + m)]" using 2 by (simp add: utf8_char_def q_def m_def)
    then show ?thesis using q qm by (simp add: continuation_def low6_def)
  next
    case 3
    note e = base64_digits(1)[of c]
    have "c div 4096 < 16" using 3 by simp
    with 3 e assms show ?thesis by (simp add: utf8_char_def unat_byte continuation_def low6_def)
  next
    case 4
    note e = base64_digits(2)[of c]
    have "c div 262144 < 5" using c by simp
    with 4 e assms show ?thesis by (simp add: utf8_char_def unat_byte continuation_def low6_def)
  qed
qed

lemma utf8_char_nonempty [simp]: "utf8_char c \<noteq> []"
  by (simp add: utf8_char_def)

lemma utf8_round_trip: "utf8_encode t = Some bs \<Longrightarrow> utf8_decode bs = Some t"
proof -
  have "utf8_decode (concat (map utf8_char t)) = Some t" if "list_all scalar_value t"
    using that
  proof (induction t)
    case Nil
    then show ?case by (simp add: utf8_decode.simps)
  next
    case (Cons c t)
    then show ?case by (subst utf8_decode.simps) (simp add: utf8_next_char)
  qed
  then show "utf8_encode t = Some bs \<Longrightarrow> utf8_decode bs = Some t"
    by (auto simp: utf8_encode_def split: if_splits)
qed

lemma utf8_next_scalar: "utf8_next s = Some (c, r) \<Longrightarrow> scalar_value c"
proof (cases s)
  case (Cons a t)
  have l: "low6 b < 64" if "continuation b" for b using that unfolding low6_def continuation_def by linarith
  have two: "scalar_value ((n - 192) * 64 + low6 b)" if "n < 224" "continuation b" for n b
    proof -
    have "(n - 192) * 64 + low6 b < 2048 + 64" using that l[OF that(2)] by (intro add_less_mono) simp_all
    then show ?thesis unfolding scalar_value_def by linarith
  qed
  have one: "scalar_value n" if "n < 128" for n using that by (simp add: scalar_value_def)
  assume "utf8_next s = Some (c, r)"
  then show ?thesis using Cons
    by (auto simp: Let_def one two split: if_splits list.splits)
qed simp

lemma utf8_decode_scalar: "utf8_decode s = Some t \<Longrightarrow> list_all scalar_value t"
proof (induction s arbitrary: t rule: utf8_decode.induct)
  case (1 s)
  show ?case
  proof (cases "s = []")
    case True
    then show ?thesis using "1.prems" by (simp add: utf8_decode.simps)
  next
    case False
    then obtain c r where n: "utf8_next s = Some (c, r)"
      using "1.prems" by (cases "utf8_next s") (auto simp: utf8_decode.simps[of s])
    then obtain u where u: "utf8_decode r = Some u" "t = c # u"
      using "1.prems" False by (auto simp: utf8_decode.simps[of s])
    then show ?thesis using "1.IH"[OF False n refl u(1)] utf8_next_scalar[OF n] by simp
  qed
qed

text \<open>Text the application handles as \<open>string\<close> (code points below 256).\<close>

definition to_utext :: "string \<Rightarrow> utext" where
  "to_utext s = map code s"

lemma to_utext_scalar: "list_all scalar_value (to_utext s)"
proof -
  have "code c < 256" for c by (simp add: code_def)
  moreover have "scalar_value n" if "n < 256" for n using that by (simp add: scalar_value_def)
  ultimately have "scalar_value (code c)" for c by blast
  then show ?thesis by (simp add: to_utext_def list_all_iff)
qed

section \<open>Base64\<close>

definition b64_digit :: "nat \<Rightarrow> char" where
  "b64_digit n = (if n < 26 then char_of (65 + n) else if n < 52 then char_of (71 + n)
     else if n < 62 then char_of (n - 4) else if n = 62 then CHR ''-'' else CHR ''_'')"

text \<open>Decoding translates \<open>-\<close> and \<open>_\<close> to \<open>+\<close> and \<open>/\<close>, so it accepts both pairs.\<close>

definition b64_value :: "char \<Rightarrow> nat option" where
  "b64_value c = (if is_upper c then Some (code c - 65) else if is_lower c then Some (code c - 71)
     else if is_digit c then Some (code c + 4)
     else if c = CHR ''-'' \<or> c = CHR ''+'' then Some 62
     else if c = CHR ''_'' \<or> c = CHR ''/'' then Some 63 else None)"

fun b64_encode :: "byte list \<Rightarrow> string" where
  "b64_encode [] = []"
| "b64_encode [a] = [b64_digit (unat a div 4), b64_digit (unat a mod 4 * 16), CHR ''='', CHR ''='']"
| "b64_encode [a, b] = [b64_digit (unat a div 4), b64_digit (unat a mod 4 * 16 + unat b div 16),
     b64_digit (unat b mod 16 * 4), CHR ''='']"
| "b64_encode (a # b # c # s) = [b64_digit (unat a div 4), b64_digit (unat a mod 4 * 16 + unat b div 16),
     b64_digit (unat b mod 16 * 4 + unat c div 64), b64_digit (unat c mod 64)] @ b64_encode s"

definition b64_byte1 :: "nat \<Rightarrow> nat \<Rightarrow> byte" where
  "b64_byte1 w x = byte_of (w * 4 + x div 16)"

definition b64_byte2 :: "nat \<Rightarrow> nat \<Rightarrow> byte" where
  "b64_byte2 x y = byte_of (x mod 16 * 16 + y div 4)"

definition b64_byte3 :: "nat \<Rightarrow> nat \<Rightarrow> byte" where
  "b64_byte3 y z = byte_of (y mod 4 * 64 + z)"

text \<open>
  Groups of four digits; the last may be short with its padding. After a full group surplus padding
  is ignored (as in Python 3.12), at the start it is an error; \<open>started\<close> tells the two apart.
\<close>

fun b64_groups :: "bool \<Rightarrow> string \<Rightarrow> byte list option" where
  "b64_groups started [] = Some []"
| "b64_groups started (p # q # r # s # rest) =
    (if p = CHR ''='' then (if started \<and> set (q # r # s # rest) \<subseteq> {CHR ''=''} then Some [] else None)
     else (case (b64_value p, b64_value q) of
        (Some w, Some x) \<Rightarrow>
          if r = CHR ''='' then (if s = CHR ''='' \<and> rest = [] then Some [b64_byte1 w x] else None)
          else (case b64_value r of
             None \<Rightarrow> None
           | Some y \<Rightarrow>
             if s = CHR ''='' then (if rest = [] then Some [b64_byte1 w x, b64_byte2 x y] else None)
             else (case b64_value s of
                None \<Rightarrow> None
              | Some z \<Rightarrow> map_option (\<lambda>bs. [b64_byte1 w x, b64_byte2 x y, b64_byte3 y z] @ bs) (b64_groups True rest)))
      | _ \<Rightarrow> None))"
| "b64_groups started rest = (if started \<and> set rest \<subseteq> {CHR ''=''} then Some [] else None)"

definition b64_decode :: "string \<Rightarrow> byte list option" where
  "b64_decode s = b64_groups False s"

lemma b64_value_digit: "n < 64 \<Longrightarrow> b64_value (b64_digit n) = Some n"
proof -
  assume n: "n < 64"
  have c: "code (char_of m) = m" if "m < 256" for m :: nat using that by (simp add: code_def)
  consider "n < 26" | "\<not> n < 26" "n < 52" | "\<not> n < 52" "n < 62" "48 \<le> n - 4" "n - 4 \<le> 57" | "n = 62" | "n = 63" using n by linarith
  then show ?thesis
    by cases (simp_all add: b64_digit_def b64_value_def is_upper_def is_lower_def is_digit_def c, simp_all add: code_def)
qed

lemma b64_digit_pad: "n < 64 \<Longrightarrow> b64_digit n \<noteq> CHR ''=''"
proof
  assume n: "n < 64" and e: "b64_digit n = CHR ''=''"
  have "b64_value CHR ''='' = None" by (simp add: b64_value_def is_upper_def is_lower_def is_digit_def code_def)
  then show False using b64_value_digit[OF n, unfolded e] by simp
qed

lemma b64_digit_dot: "n < 64 \<Longrightarrow> b64_digit n \<noteq> CHR ''.''"
proof
  assume n: "n < 64" and e: "b64_digit n = CHR ''.''"
  have "b64_value CHR ''.'' = None" by (simp add: b64_value_def is_upper_def is_lower_def is_digit_def code_def)
  then show False using b64_value_digit[OF n, unfolded e] by simp
qed

lemma unat_byte_less: "unat (b :: byte) < 256"
  using unsigned_less[of b] by simp

lemma digit_bounds:
  fixes x y z :: nat
  assumes "x < 256" "y < 256"
  shows "x div 4 < 64" "x mod 4 * 16 < 64" "x mod 4 * 16 + y div 16 < 64" "x mod 16 * 4 < 64"
    "x mod 16 * 4 + y div 64 < 64" "x mod 64 < 64"
proof -
  have "x mod 4 \<le> 3" "x mod 16 \<le> 15" "y div 16 \<le> 15" "y div 64 \<le> 3" using assms by auto
  then show "x mod 4 * 16 < 64" "x mod 4 * 16 + y div 16 < 64" "x mod 16 * 4 < 64" "x mod 16 * 4 + y div 64 < 64"
    by linarith+
  show "x div 4 < 64" "x mod 64 < 64" using assms by simp_all
qed

lemma digit_join:
  fixes x y z :: nat
  assumes "y < 256" "z < 256"
  shows "x div 4 * 4 + (x mod 4 * 16 + y div 16) div 16 = x"
    "x div 4 * 4 + x mod 4 * 16 div 16 = x"
    "(x mod 4 * 16 + y div 16) mod 16 * 16 + (y mod 16 * 4 + z div 64) div 4 = y"
    "(x mod 4 * 16 + y div 16) mod 16 * 16 + y mod 16 * 4 div 4 = y"
    "(y mod 16 * 4 + z div 64) mod 4 * 64 + z mod 64 = z"
proof -
  have l: "y div 16 < 16" "z div 64 < 4" using assms by auto
  have "(x mod 4 * 16 + y div 16) div 16 = x mod 4" "(x mod 4 * 16 + y div 16) mod 16 = y div 16"
    "(y mod 16 * 4 + z div 64) div 4 = y mod 16" "(y mod 16 * 4 + z div 64) mod 4 = z div 64"
    using l by simp_all
  then show "x div 4 * 4 + (x mod 4 * 16 + y div 16) div 16 = x"
    "x div 4 * 4 + x mod 4 * 16 div 16 = x"
    "(x mod 4 * 16 + y div 16) mod 16 * 16 + (y mod 16 * 4 + z div 64) div 4 = y"
    "(x mod 4 * 16 + y div 16) mod 16 * 16 + y mod 16 * 4 div 4 = y"
    "(y mod 16 * 4 + z div 64) mod 4 * 64 + z mod 64 = z"
    by simp_all
qed

lemma b64_join:
  fixes a b c :: byte
  shows "b64_byte1 (unat a div 4) (unat a mod 4 * 16 + unat b div 16) = a"
    "b64_byte1 (unat a div 4) (unat a mod 4 * 16) = a"
    "b64_byte2 (unat a mod 4 * 16 + unat b div 16) (unat b mod 16 * 4 + unat c div 64) = b"
    "b64_byte2 (unat a mod 4 * 16 + unat b div 16) (unat b mod 16 * 4) = b"
    "b64_byte3 (unat b mod 16 * 4 + unat c div 64) (unat c mod 64) = c"
  by (simp_all only: b64_byte1_def b64_byte2_def b64_byte3_def byte_unat
      digit_join[OF unat_byte_less[of b] unat_byte_less[of c]])

lemmas b64_parts = digit_bounds[OF unat_byte_less unat_byte_less]

lemma b64_groups_encode: "b64_groups started (b64_encode bs) = Some bs"
  by (induction bs arbitrary: started rule: b64_encode.induct)
    (simp_all only: b64_encode.simps append.simps b64_groups.simps b64_value_digit b64_digit_pad b64_parts b64_join
      prod.case option.case if_False simp_thms option.map refl if_True)

lemma b64_round_trip: "b64_decode (b64_encode bs) = Some bs"
  by (simp add: b64_decode_def b64_groups_encode)

lemma b64_encode_dot: "CHR ''.'' \<notin> set (b64_encode bs)"
proof -
  have dot: "CHR ''.'' \<noteq> b64_digit n" if "n < 64" for n using b64_digit_dot[OF that] by metis
  show ?thesis
    by (induction bs rule: b64_encode.induct)
      (simp_all only: b64_encode.simps set_append list.set append.simps Un_iff insert_iff empty_iff dot b64_parts simp_thms, simp_all)
qed

lemma b64_encode_nonempty: "bs \<noteq> [] \<Longrightarrow> b64_encode bs \<noteq> []"
  by (cases bs rule: b64_encode.cases) simp_all

end
