(* ===== verification/FieldCipher.thy ===== *)
theory FieldCipher
  imports Encoding
begin

text \<open>
  Authenticated encryption of credentials with a ring of keys (\<^verbatim>\<open>app/core/crypto.py\<close>).

  Parameters: \<open>aead\<close> is AES-GCM of the cryptography library (\<open>seal\<close> and \<open>open\<close> take key, nonce,
  data and associated data; \<open>None\<close> is \<^verbatim>\<open>InvalidTag\<close>), \<open>derive\<close> the SHA-256 of a secret, and a nonce is an
  argument of every encryption. \<open>aead_laws\<close> states what the library documents.
\<close>

record aead =
  ae_seal :: "byte list \<Rightarrow> byte list \<Rightarrow> byte list \<Rightarrow> byte list \<Rightarrow> byte list"
  ae_open :: "byte list \<Rightarrow> byte list \<Rightarrow> byte list \<Rightarrow> byte list \<Rightarrow> byte list option"

definition aead_laws :: "aead \<Rightarrow> bool" where
  "aead_laws ae = (\<forall>k n p a. ae_open ae k n (ae_seal ae k n p a) a = Some p
     \<and> length (ae_seal ae k n p a) = length p + 16)"

datatype cipher_error = CipherError string | InvalidCiphertext string | UnknownKey | Unencodable

datatype version = V1 | V2

record field_cipher =
  fc_current :: string
  fc_keys :: "(string \<times> byte list) list"
  fc_write :: version

record decrypted_field =
  df_plaintext :: utext
  df_version :: version
  df_key_id :: string
  df_stale :: bool

section \<open>Configuration\<close>

definition key_id_char :: "char \<Rightarrow> bool" where
  "key_id_char c = (is_alnum c \<or> c = CHR ''_'' \<or> c = CHR ''-'')"

definition valid_key_id :: "string \<Rightarrow> bool" where
  "valid_key_id k = (case k of [] \<Rightarrow> False
     | c # cs \<Rightarrow> is_alnum c \<and> length cs \<le> 63 \<and> list_all key_id_char cs)"

fun old_keys_ok :: "(string \<times> string) list \<Rightarrow> cipher_error + unit" where
  "old_keys_ok [] = Inr ()"
| "old_keys_ok ((k, s) # ks) =
     (if \<not> valid_key_id k then Inl (CipherError ''Field-encryption key ID is invalid'')
      else if s = [] then Inl (CipherError ''Old field-encryption key is invalid'')
      else old_keys_ok ks)"

text \<open>\<open>old\<close> is the items of a dict, so its keys are distinct.\<close>

definition make_cipher ::
  "(string \<Rightarrow> byte list) \<Rightarrow> string \<Rightarrow> string \<Rightarrow> (string \<times> string) list \<Rightarrow> version \<Rightarrow> cipher_error + field_cipher" where
  "make_cipher derive secret key_id old write =
    (if secret = [] then Inl (CipherError ''Current field-encryption key is invalid'')
     else if \<not> valid_key_id key_id then Inl (CipherError ''Field-encryption key ID is invalid'')
     else if 16 < length old then Inl (CipherError ''Too many old field-encryption keys are configured'')
     else if key_id \<in> fst ` set old then Inl (CipherError ''Current field-encryption key ID is duplicated'')
     else and_then (old_keys_ok old) (\<lambda>_. Inr \<lparr> fc_current = key_id,
        fc_keys = (key_id, derive secret) # map (\<lambda>(k, s). (k, derive s)) old, fc_write = write \<rparr>))"

section \<open>Envelopes\<close>

definition ascii_bytes :: "string \<Rightarrow> byte list" where
  "ascii_bytes s = map (\<lambda>c. byte_of (code c)) s"

definition v1_aad :: "byte list" where
  "v1_aad = ascii_bytes ''bumpabestie:v1''"

definition v2_aad :: "string \<Rightarrow> byte list" where
  "v2_aad key_id = ascii_bytes (''bumpabestie:v2:'' @ key_id)"

definition the_key :: "field_cipher \<Rightarrow> string \<Rightarrow> byte list" where
  "the_key c k = (case map_of (fc_keys c) k of Some key \<Rightarrow> key | None \<Rightarrow> [])"

definition encrypt :: "aead \<Rightarrow> field_cipher \<Rightarrow> byte list \<Rightarrow> utext \<Rightarrow> cipher_error + string" where
  "encrypt ae c nonce plaintext = (case utf8_encode plaintext of
     None \<Rightarrow> Inl Unencodable
   | Some data \<Rightarrow>
      (let key = the_key c (fc_current c) in
       case fc_write c of
         V1 \<Rightarrow> Inr (''v1.'' @ b64_encode (nonce @ ae_seal ae key nonce data v1_aad))
       | V2 \<Rightarrow> Inr (''v2.'' @ fc_current c @ ''.''
           @ b64_encode (nonce @ ae_seal ae key nonce data (v2_aad (fc_current c))))))"

definition decode_payload :: "string \<Rightarrow> cipher_error + byte list" where
  "decode_payload encoded =
    (if \<not> list_all (\<lambda>c. code c < 128) encoded then Inl (InvalidCiphertext ''Invalid ciphertext encoding'')
     else (case b64_decode encoded of
        None \<Rightarrow> Inl (InvalidCiphertext ''Invalid ciphertext encoding'')
      | Some raw \<Rightarrow> if length raw < 12 + 16 then Inl (InvalidCiphertext ''Invalid ciphertext payload'') else Inr raw))"

definition decode_plaintext :: "byte list \<Rightarrow> cipher_error + utext" where
  "decode_plaintext value = (case utf8_decode value of
     None \<Rightarrow> Inl (InvalidCiphertext ''Invalid ciphertext plaintext'') | Some t \<Rightarrow> Inr t)"

text \<open>The keys of a version 1 envelope are tried in the order of the ring.\<close>

fun try_keys :: "aead \<Rightarrow> field_cipher \<Rightarrow> byte list \<Rightarrow> (string \<times> byte list) list \<Rightarrow> cipher_error + decrypted_field" where
  "try_keys ae c raw [] = Inl (InvalidCiphertext ''Ciphertext authentication failed'')"
| "try_keys ae c raw ((key_id, key) # ks) =
    (case ae_open ae key (take 12 raw) (drop 12 raw) v1_aad of
       None \<Rightarrow> try_keys ae c raw ks
     | Some p \<Rightarrow> and_then (decode_plaintext p) (\<lambda>t. Inr \<lparr> df_plaintext = t, df_version = V1, df_key_id = key_id,
          df_stale = (key_id \<noteq> fc_current c \<or> fc_write c \<noteq> V1) \<rparr>))"

definition decrypt_v1 :: "aead \<Rightarrow> field_cipher \<Rightarrow> string \<Rightarrow> cipher_error + decrypted_field" where
  "decrypt_v1 ae c envelope = (case split_on CHR ''.'' envelope of
     [_, encoded] \<Rightarrow>
       if encoded = [] then Inl (InvalidCiphertext ''Invalid ciphertext envelope'')
       else and_then (decode_payload encoded) (\<lambda>raw. try_keys ae c raw (fc_keys c))
   | _ \<Rightarrow> Inl (InvalidCiphertext ''Invalid ciphertext envelope''))"

definition decrypt_v2 :: "aead \<Rightarrow> field_cipher \<Rightarrow> string \<Rightarrow> cipher_error + decrypted_field" where
  "decrypt_v2 ae c envelope = (case split_on CHR ''.'' envelope of
     [_, key_id, encoded] \<Rightarrow>
       if key_id = [] \<or> encoded = [] then Inl (InvalidCiphertext ''Invalid ciphertext envelope'')
       else if \<not> valid_key_id key_id then Inl (InvalidCiphertext ''Invalid ciphertext key ID'')
       else (case map_of (fc_keys c) key_id of
          None \<Rightarrow> Inl UnknownKey
        | Some key \<Rightarrow> and_then (decode_payload encoded) (\<lambda>raw.
            (case ae_open ae key (take 12 raw) (drop 12 raw) (v2_aad key_id) of
               None \<Rightarrow> Inl (InvalidCiphertext ''Ciphertext authentication failed'')
             | Some p \<Rightarrow> and_then (decode_plaintext p) (\<lambda>t. Inr \<lparr> df_plaintext = t, df_version = V2,
                 df_key_id = key_id, df_stale = (key_id \<noteq> fc_current c \<or> fc_write c \<noteq> V2) \<rparr>))))
   | _ \<Rightarrow> Inl (InvalidCiphertext ''Invalid ciphertext envelope''))"

definition decrypt_with_metadata :: "aead \<Rightarrow> field_cipher \<Rightarrow> string \<Rightarrow> cipher_error + decrypted_field" where
  "decrypt_with_metadata ae c envelope =
    (if envelope = [] then Inl (InvalidCiphertext ''Invalid ciphertext envelope'')
     else (let version = takeWhile (\<lambda>x. x \<noteq> CHR ''.'') envelope in
       if version = ''v1'' then decrypt_v1 ae c envelope
       else if version = ''v2'' then decrypt_v2 ae c envelope
       else Inl (InvalidCiphertext ''Unsupported ciphertext version'')))"

definition decrypt :: "aead \<Rightarrow> field_cipher \<Rightarrow> string \<Rightarrow> cipher_error + utext" where
  "decrypt ae c envelope = and_then (decrypt_with_metadata ae c envelope) (\<lambda>d. Inr (df_plaintext d))"

definition needs_reencryption :: "aead \<Rightarrow> field_cipher \<Rightarrow> string \<Rightarrow> cipher_error + bool" where
  "needs_reencryption ae c envelope = and_then (decrypt_with_metadata ae c envelope) (\<lambda>d. Inr (df_stale d))"

section \<open>What is written can be read back\<close>

lemma alnum_dot: "is_alnum c \<Longrightarrow> c \<noteq> CHR ''.''"
  by (auto simp: is_alnum_def is_digit_def is_upper_def is_lower_def code_def)

lemma key_id_no_dot: "valid_key_id k \<Longrightarrow> CHR ''.'' \<notin> set k"
  by (auto simp: valid_key_id_def key_id_char_def list_all_iff dest: alnum_dot split: list.splits)

lemma valid_key_id_nonempty: "valid_key_id k \<Longrightarrow> k \<noteq> []"
  by (auto simp: valid_key_id_def)

lemma b64_digit_ascii: "n < 64 \<Longrightarrow> code (b64_digit n) < 128"
  by (auto simp: b64_digit_def code_def)

lemma b64_encode_ascii: "list_all (\<lambda>c. code c < 128) (b64_encode bs)"
proof -
  have "code CHR ''='' < 128" by (simp add: code_def)
  then show ?thesis
    by (induction bs rule: b64_encode.induct)
      (simp_all only: b64_encode.simps list_all_append list.pred_inject b64_digit_ascii b64_parts simp_thms)
qed

lemma decode_payload_encode:
  "28 \<le> length raw \<Longrightarrow> decode_payload (b64_encode raw) = Inr raw"
  by (simp add: decode_payload_def b64_encode_ascii b64_round_trip)

definition good_cipher :: "field_cipher \<Rightarrow> bool" where
  "good_cipher c = (valid_key_id (fc_current c) \<and> fc_keys c \<noteq> [] \<and> fst (hd (fc_keys c)) = fc_current c
     \<and> fc_current c \<notin> fst ` set (tl (fc_keys c)))"

lemma make_cipher_good: "make_cipher derive secret key_id old write = Inr c \<Longrightarrow> good_cipher c"
  by (force simp: make_cipher_def and_then_Inr good_cipher_def split: if_splits)

lemma good_cipher_keys:
  "good_cipher c \<Longrightarrow> \<exists>ks. fc_keys c = (fc_current c, the_key c (fc_current c)) # ks"
  by (cases "fc_keys c") (auto simp: good_cipher_def the_key_def)

lemma split3: "CHR ''.'' \<notin> set a \<Longrightarrow> CHR ''.'' \<notin> set b \<Longrightarrow> CHR ''.'' \<notin> set d \<Longrightarrow>
  split_on CHR ''.'' (a @ CHR ''.'' # b @ CHR ''.'' # d) = [a, b, d]"
  by (simp add: split_on_append split_on_no_sep)

lemma split2: "CHR ''.'' \<notin> set a \<Longrightarrow> CHR ''.'' \<notin> set b \<Longrightarrow> split_on CHR ''.'' (a @ CHR ''.'' # b) = [a, b]"
  by (simp add: split_on_append split_on_no_sep)

lemma encrypt_decrypt:
  assumes "aead_laws ae" "good_cipher c" "length nonce = 12" "list_all scalar_value t"
  shows "\<exists>e. encrypt ae c nonce t = Inr e \<and> decrypt_with_metadata ae c e = Inr \<lparr> df_plaintext = t,
     df_version = fc_write c, df_key_id = fc_current c, df_stale = False \<rparr>"
proof -
  obtain data where data: "utf8_encode t = Some data" using assms(4) by (simp add: utf8_encode_def)
  obtain ks where ks: "fc_keys c = (fc_current c, the_key c (fc_current c)) # ks"
    using good_cipher_keys[OF assms(2)] by blast
  have kid: "valid_key_id (fc_current c)" using assms(2) by (simp add: good_cipher_def)
  have law: "ae_open ae k nonce (ae_seal ae k nonce data a) a = Some data"
    "length (ae_seal ae k nonce data a) = length data + 16" for k a
    using assms(1) by (simp_all add: aead_laws_def)
  define raw where "raw a = nonce @ ae_seal ae (the_key c (fc_current c)) nonce data a" for a
  have raw: "decode_payload (b64_encode (raw a)) = Inr (raw a)" "take 12 (raw a) = nonce"
    "drop 12 (raw a) = ae_seal ae (the_key c (fc_current c)) nonce data a" "b64_encode (raw a) \<noteq> []" for a
    using assms(3) law(2) by (auto simp: raw_def intro!: decode_payload_encode b64_encode_nonempty)
  have plain: "decode_plaintext data = Inr t" using utf8_round_trip[OF data] by (simp add: decode_plaintext_def)
  show ?thesis
  proof (cases "fc_write c")
    case V1
    define e where "e = ''v1'' @ CHR ''.'' # b64_encode (raw v1_aad)"
    have "encrypt ae c nonce t = Inr e" by (simp add: encrypt_def data V1 e_def raw_def)
    moreover have "split_on CHR ''.'' e = [''v1'', b64_encode (raw v1_aad)]"
      unfolding e_def by (rule split2) (simp_all add: b64_encode_dot)
    moreover have "takeWhile (\<lambda>x. x \<noteq> CHR ''.'') e = ''v1''" "e \<noteq> []" by (simp_all add: e_def)
    ultimately show ?thesis
      using raw ks by (simp add: decrypt_with_metadata_def decrypt_v1_def law plain V1)
  next
    case V2
    define e where "e = ''v2'' @ CHR ''.'' # fc_current c @ CHR ''.'' # b64_encode (raw (v2_aad (fc_current c)))"
    have "encrypt ae c nonce t = Inr e" by (simp add: encrypt_def data V2 e_def raw_def)
    moreover have "split_on CHR ''.'' e = [''v2'', fc_current c, b64_encode (raw (v2_aad (fc_current c)))]"
      unfolding e_def by (rule split3) (simp_all add: b64_encode_dot key_id_no_dot[OF kid])
    moreover have "takeWhile (\<lambda>x. x \<noteq> CHR ''.'') e = ''v2''" "e \<noteq> []" by (simp_all add: e_def)
    ultimately show ?thesis
      using raw ks kid valid_key_id_nonempty[OF kid]
      by (simp add: decrypt_with_metadata_def decrypt_v2_def law plain V2)
  qed
qed

lemma decrypted_scalar:
  "decrypt_with_metadata ae c e = Inr d \<Longrightarrow> list_all scalar_value (df_plaintext d)"
proof -
  have p: "list_all scalar_value t" if "decode_plaintext v = Inr t" for v t
    using that by (auto simp: decode_plaintext_def dest: utf8_decode_scalar split: option.splits)
  have t: "list_all scalar_value (df_plaintext d)" if "try_keys ae c raw ks = Inr d" for raw ks
    using that by (induction ae c raw ks rule: try_keys.induct)
      (auto simp: and_then_Inr dest: p split: option.splits)
  show "decrypt_with_metadata ae c e = Inr d \<Longrightarrow> list_all scalar_value (df_plaintext d)"
    by (auto simp: decrypt_with_metadata_def decrypt_v1_def decrypt_v2_def and_then_Inr Let_def
        intro: t split: if_splits list.splits option.splits) (use p in blast)
qed

text \<open>C26: a stored credential reads back. For every configuration the constructor accepts, every text without
  surrogates and every fresh nonce, encryption succeeds and decrypting the envelope returns the text,
  the writer's version and the current key's identifier, and does not ask for re-encryption; and a
  text with a surrogate is refused when it is written, not when it is read.\<close>

theorem credential_round_trip:
  assumes "aead_laws ae" "make_cipher derive secret key_id old write = Inr c" "length nonce = 12"
  shows "(list_all scalar_value t \<longrightarrow> (\<exists>e. encrypt ae c nonce t = Inr e
       \<and> decrypt_with_metadata ae c e = Inr \<lparr> df_plaintext = t, df_version = write, df_key_id = key_id, df_stale = False \<rparr>
       \<and> decrypt ae c e = Inr t \<and> needs_reencryption ae c e = Inr False))
    \<and> (\<not> list_all scalar_value t \<longrightarrow> encrypt ae c nonce t = Inl Unencodable)"
proof -
  have c: "fc_current c = key_id" "fc_write c = write"
    using assms(2) by (auto simp: make_cipher_def and_then_Inr split: if_splits)
  show ?thesis
    using encrypt_decrypt[OF assms(1) make_cipher_good[OF assms(2)] assms(3), of t]
    by (auto simp: c decrypt_def needs_reencryption_def encrypt_def utf8_encode_def)
qed

section \<open>A concrete cipher\<close>

text \<open>A stand-in for AES-GCM: the tag is the key and associated data cut to sixteen bytes.\<close>

definition ex_tag :: "byte list \<Rightarrow> byte list \<Rightarrow> byte list" where
  "ex_tag k a = take 16 (k @ a @ replicate 16 0)"

definition ex_aead :: aead where
  "ex_aead = \<lparr> ae_seal = (\<lambda>k n p a. ex_tag k a @ p),
     ae_open = (\<lambda>k n s a. if take 16 s = ex_tag k a then Some (drop 16 s) else None) \<rparr>"

lemma ex_aead_laws: "aead_laws ex_aead"
proof -
  have "length (ex_tag k a) = 16" for k a by (simp add: ex_tag_def del: take_append)
  then show ?thesis by (simp add: aead_laws_def ex_aead_def)
qed

definition ex_derive :: "string \<Rightarrow> byte list" where
  "ex_derive s = ascii_bytes s"

theorem credential_round_trip_witness:
  "\<exists>c e. make_cipher ex_derive ''s3'' ''k2'' [(''k1'', ''old'')] V2 = Inr c
     \<and> encrypt ex_aead c (replicate 12 7) [72, 8364, 128512] = Inr e \<and> decrypt ex_aead c e = Inr [72, 8364, 128512]"
proof -
  define c where "c = \<lparr> fc_current = ''k2'', fc_keys = [(''k2'', ex_derive ''s3''), (''k1'', ex_derive ''old'')], fc_write = V2 \<rparr>"
  have c: "make_cipher ex_derive ''s3'' ''k2'' [(''k1'', ''old'')] V2 = Inr c"
    by (simp add: make_cipher_def c_def valid_key_id_def key_id_char_def is_alnum_def is_digit_def is_upper_def
        is_lower_def code_def)
  have "list_all scalar_value [72, 8364, 128512]" by (simp add: scalar_value_def)
  then show ?thesis
    using credential_round_trip[OF ex_aead_laws c, of "replicate 12 7" "[72, 8364, 128512]"] c by auto
qed

end
