(* ===== verification/KeyRotation.thy ===== *)
theory KeyRotation
  imports FieldCipher AppModel
begin

text \<open>
  Re-encryption of the stored provider credentials under the current key
  (\<^verbatim>\<open>app/services/field_key_rotation.py\<close>). The whole run is one transaction over three tables whose
  rows it locks; a nonce is drawn for every encryption.
\<close>

datatype store_name = SBumpa | SHermes | SMcp

record cred_db =
  cd_bumpa :: "bumpa_connection list"
  cd_hermes :: "hermes_profile list"
  cd_mcp :: "mcp_connection list"

record rotation_counts =
  ct_scanned :: int
  ct_current :: int
  ct_legacy :: int
  ct_old_key :: int
  ct_would_rotate :: int
  ct_rotated :: int

record rotation_result =
  ro_applied :: bool
  ro_key_id :: string
  ro_write :: version
  ro_stores :: "store_name \<Rightarrow> rotation_counts"

definition no_counts :: rotation_counts where
  "no_counts = \<lparr> ct_scanned = 0, ct_current = 0, ct_legacy = 0, ct_old_key = 0, ct_would_rotate = 0, ct_rotated = 0 \<rparr>"

type_synonym pending = "(store_name \<times> ident \<times> utext) list"

text \<open>The credentials in the order of the scan: table by table, by identifier; empty ones are skipped.\<close>

definition credentials :: "cred_db \<Rightarrow> (store_name \<times> ident \<times> string) list" where
  "credentials db =
     map (\<lambda>r. (SBumpa, bc_id r, bc_encrypted_api_key r)) (query_by bc_id (\<lambda>_. True) (cd_bumpa db))
   @ map (\<lambda>r. (SHermes, hp_id r, hp_encrypted_api_key r)) (query_by hp_id (\<lambda>_. True) (cd_hermes db))
   @ concat (map (\<lambda>r. case mc_encrypted_credentials r of None \<Rightarrow> [] | Some e \<Rightarrow> [(SMcp, mc_id r, e)])
       (query_by mc_id (\<lambda>_. True) (cd_mcp db)))"

definition classify :: "decrypted_field \<Rightarrow> rotation_counts \<Rightarrow> rotation_counts" where
  "classify d ct =
    (if df_version d = V1 then ct\<lparr>ct_legacy := ct_legacy ct + 1\<rparr>
     else if df_stale d then ct\<lparr>ct_old_key := ct_old_key ct + 1\<rparr>
     else ct\<lparr>ct_current := ct_current ct + 1\<rparr>)"

definition inspect ::
  "aead \<Rightarrow> field_cipher \<Rightarrow> store_name \<times> ident \<times> string \<Rightarrow> (store_name \<Rightarrow> rotation_counts) \<times> pending \<Rightarrow>
   cipher_error + ((store_name \<Rightarrow> rotation_counts) \<times> pending)" where
  "inspect ae c item acc = (case (item, acc) of ((store, rid, envelope), (stores, pend)) \<Rightarrow>
     and_then (decrypt_with_metadata ae c envelope) (\<lambda>d.
       let ct = classify d ((stores store)\<lparr>ct_scanned := ct_scanned (stores store) + 1\<rparr>) in
       if df_stale d then Inr (stores(store := ct\<lparr>ct_would_rotate := ct_would_rotate ct + 1\<rparr>),
           pend @ [(store, rid, df_plaintext d)])
       else Inr (stores(store := ct), pend)))"

fun inspect_all ::
  "aead \<Rightarrow> field_cipher \<Rightarrow> (store_name \<times> ident \<times> string) list \<Rightarrow> (store_name \<Rightarrow> rotation_counts) \<times> pending \<Rightarrow>
   cipher_error + ((store_name \<Rightarrow> rotation_counts) \<times> pending)" where
  "inspect_all ae c [] acc = Inr acc"
| "inspect_all ae c (x # xs) acc = and_then (inspect ae c x acc) (inspect_all ae c xs)"

definition set_credential :: "store_name \<Rightarrow> ident \<Rightarrow> string \<Rightarrow> cred_db \<Rightarrow> cred_db" where
  "set_credential store rid e db = (case store of
     SBumpa \<Rightarrow> db\<lparr>cd_bumpa := tbl_upd bc_id rid (\<lambda>r. r\<lparr>bc_encrypted_api_key := e\<rparr>) (cd_bumpa db)\<rparr>
   | SHermes \<Rightarrow> db\<lparr>cd_hermes := tbl_upd hp_id rid (\<lambda>r. r\<lparr>hp_encrypted_api_key := e\<rparr>) (cd_hermes db)\<rparr>
   | SMcp \<Rightarrow> db\<lparr>cd_mcp := tbl_upd mc_id rid (\<lambda>r. r\<lparr>mc_encrypted_credentials := Some e\<rparr>) (cd_mcp db)\<rparr>)"

fun apply_pending ::
  "aead \<Rightarrow> field_cipher \<Rightarrow> (nat \<Rightarrow> byte list) \<Rightarrow> nat \<Rightarrow> pending \<Rightarrow> (store_name \<Rightarrow> rotation_counts) \<Rightarrow> cred_db \<Rightarrow>
   cipher_error + ((store_name \<Rightarrow> rotation_counts) \<times> cred_db)" where
  "apply_pending ae c nonces i [] stores db = Inr (stores, db)"
| "apply_pending ae c nonces i ((store, rid, t) # ps) stores db =
     and_then (encrypt ae c (nonces i) t) (\<lambda>e. apply_pending ae c nonces (Suc i) ps
       (stores(store := (stores store)\<lparr>ct_rotated := ct_rotated (stores store) + 1\<rparr>))
       (set_credential store rid e db))"

definition rotate_provider_credentials ::
  "aead \<Rightarrow> field_cipher \<Rightarrow> (nat \<Rightarrow> byte list) \<Rightarrow> bool \<Rightarrow> cred_db \<Rightarrow> cred_db \<times> (cipher_error + rotation_result)" where
  "rotate_provider_credentials ae c nonces apply db =
    (let result = (\<lambda>stores. \<lparr> ro_applied = apply, ro_key_id = fc_current c, ro_write = fc_write c, ro_stores = stores \<rparr>)
     in case inspect_all ae c (credentials db) (\<lambda>_. no_counts, []) of
       Inl e \<Rightarrow> (db, Inl e)
     | Inr (stores, pend) \<Rightarrow>
        if \<not> apply then (db, Inr (result stores))
        else (case apply_pending ae c nonces 0 pend stores db of
           Inl e \<Rightarrow> (db, Inl e)
         | Inr (stores', db') \<Rightarrow> (db', Inr (result stores'))))"

definition total_counts :: "rotation_result \<Rightarrow> (rotation_counts \<Rightarrow> int) \<Rightarrow> int" where
  "total_counts r f = f (ro_stores r SBumpa) + f (ro_stores r SHermes) + f (ro_stores r SMcp)"

section \<open>The stored credentials\<close>

definition stored :: "cred_db \<Rightarrow> store_name \<Rightarrow> ident \<Rightarrow> string option" where
  "stored db store rid = (case store of
     SBumpa \<Rightarrow> map_option bc_encrypted_api_key (tbl_find bc_id rid (cd_bumpa db))
   | SHermes \<Rightarrow> map_option hp_encrypted_api_key (tbl_find hp_id rid (cd_hermes db))
   | SMcp \<Rightarrow> (case tbl_find mc_id rid (cd_mcp db) of None \<Rightarrow> None | Some r \<Rightarrow> mc_encrypted_credentials r))"

definition ids_distinct :: "cred_db \<Rightarrow> bool" where
  "ids_distinct db = (distinct (map bc_id (cd_bumpa db)) \<and> distinct (map hp_id (cd_hermes db))
     \<and> distinct (map mc_id (cd_mcp db)))"

lemma find_iff_in:
  "distinct (map rid rows) \<Longrightarrow> tbl_find rid k rows = Some r \<longleftrightarrow> r \<in> set rows \<and> rid r = k"
  using tbl_find_Some distinct_tbl_find by metis

lemma find_row:
  "distinct (map rid rows) \<Longrightarrow> (\<exists>r \<in> set rows. rid r = k \<and> p r) \<longleftrightarrow> (\<exists>r. tbl_find rid k rows = Some r \<and> p r)"
  by (auto simp: find_iff_in)

lemma credentials_stored:
  assumes "ids_distinct db"
  shows "(store, rid, e) \<in> set (credentials db) \<longleftrightarrow> stored db store rid = Some e"
proof -
  have d: "distinct (map bc_id (cd_bumpa db))" "distinct (map hp_id (cd_hermes db))" "distinct (map mc_id (cd_mcp db))"
    using assms by (simp_all add: ids_distinct_def)
  have m: "(SMcp, rid, e) \<in> set (case mc_encrypted_credentials r of None \<Rightarrow> [] | Some e \<Rightarrow> [(SMcp, mc_id r, e)])
      \<longleftrightarrow> mc_id r = rid \<and> mc_encrypted_credentials r = Some e" for r
    by (auto split: option.splits)
  have oth: "(s, rid, e) \<notin> set (case mc_encrypted_credentials r of None \<Rightarrow> [] | Some e \<Rightarrow> [(SMcp, mc_id r, e)])"
    if "s \<noteq> SMcp" for r s using that by (auto split: option.splits)
  have "(store, rid, e) \<in> set (credentials db) \<longleftrightarrow> (case store of
      SBumpa \<Rightarrow> \<exists>r \<in> set (cd_bumpa db). bc_id r = rid \<and> bc_encrypted_api_key r = e
    | SHermes \<Rightarrow> \<exists>r \<in> set (cd_hermes db). hp_id r = rid \<and> hp_encrypted_api_key r = e
    | SMcp \<Rightarrow> \<exists>r \<in> set (cd_mcp db). mc_id r = rid \<and> mc_encrypted_credentials r = Some e)"
    by (cases store) (auto simp: credentials_def image_iff m oth intro: sym)
  then show ?thesis
    by (cases store) (auto simp: stored_def find_row[OF d(1)] find_row[OF d(2)] find_row[OF d(3)] split: option.splits)
qed

lemma credentials_keys:
  assumes "ids_distinct db"
  shows "distinct (map (\<lambda>(s, i, e). (s, i)) (credentials db))"
proof -
  have d: "distinct (map bc_id (query_by bc_id (\<lambda>_. True) (cd_bumpa db)))"
    "distinct (map hp_id (query_by hp_id (\<lambda>_. True) (cd_hermes db)))"
    "distinct (map mc_id (query_by mc_id (\<lambda>_. True) (cd_mcp db)))"
    using assms by (simp_all add: ids_distinct_def distinct_query)
  have mcp: "distinct (map (\<lambda>(s, i, e). (s, i)) (concat (map (\<lambda>r. case mc_encrypted_credentials r of None \<Rightarrow> []
      | Some e \<Rightarrow> [(SMcp, mc_id r, e)]) rows)))" if "distinct (map mc_id rows)" for rows
    using that by (induction rows) (auto split: option.splits)
  show ?thesis
    using d mcp[OF d(3)]
    by (auto simp: credentials_def distinct_map inj_on_def comp_def split: option.splits)
qed

lemma stored_set:
  assumes "stored db store rid \<noteq> None"
  shows "stored (set_credential store rid e db) s i = (if s = store \<and> i = rid then Some e else stored db s i)"
  using assms by (cases store; cases s)
    (auto simp: stored_def set_credential_def tbl_find_upd split: option.splits)

lemma ids_distinct_set [simp]: "ids_distinct (set_credential store rid e db) = ids_distinct db"
  by (cases store) (simp_all add: ids_distinct_def set_credential_def)

section \<open>Inspection collects exactly the stale credentials\<close>

definition stale_items :: "aead \<Rightarrow> field_cipher \<Rightarrow> (store_name \<times> ident \<times> string) list \<Rightarrow> pending" where
  "stale_items ae c items = concat (map (\<lambda>(s, i, e). case decrypt_with_metadata ae c e of
     Inr d \<Rightarrow> if df_stale d then [(s, i, df_plaintext d)] else [] | Inl _ \<Rightarrow> []) items)"

definition readable :: "aead \<Rightarrow> field_cipher \<Rightarrow> store_name \<times> ident \<times> string \<Rightarrow> bool" where
  "readable ae c item = is_ok (decrypt_with_metadata ae c (snd (snd item)))"

lemma inspect_all_result:
  "(case inspect_all ae c items (stores, pend) of
      Inr (stores', pend') \<Rightarrow> list_all (readable ae c) items \<and> pend' = pend @ stale_items ae c items
        \<and> (stale_items ae c items = [] \<longrightarrow> (\<forall>s. ct_would_rotate (stores' s) = ct_would_rotate (stores s)))
    | Inl _ \<Rightarrow> \<not> list_all (readable ae c) items)"
proof (induction items arbitrary: stores pend)
  case Nil
  then show ?case by (simp add: stale_items_def)
next
  case (Cons x items)
  obtain s i e where x: "x = (s, i, e)" by (metis surj_pair)
  show ?case
  proof (cases "decrypt_with_metadata ae c e")
    case (Inl er)
    then show ?thesis by (simp add: x inspect_def readable_def)
  next
    case (Inr d)
    show ?thesis
    proof (cases "df_stale d")
      case True
      then obtain stores1 where one: "inspect ae c x (stores, pend) = Inr (stores1, pend @ [(s, i, df_plaintext d)])"
        using Inr by (simp add: x inspect_def Let_def)
      then show ?thesis
        using Cons.IH[of "pend @ [(s, i, df_plaintext d)]" stores1] Inr True
        by (auto simp: x stale_items_def readable_def split: sum.splits)
    next
      case False
      define stores1 where "stores1 = stores(s := classify d ((stores s)\<lparr>ct_scanned := ct_scanned (stores s) + 1\<rparr>))"
      have w: "ct_would_rotate (stores1 s') = ct_would_rotate (stores s')" for s'
        by (simp add: stores1_def classify_def)
      have "inspect ae c x (stores, pend) = Inr (stores1, pend)"
        using Inr False by (simp add: x inspect_def Let_def stores1_def)
      then show ?thesis
        using Cons.IH[of pend stores1] Inr False
        by (auto simp: x stale_items_def readable_def w split: sum.splits)
    qed
  qed
qed

lemma stale_items_in:
  "(s, i, t) \<in> set (stale_items ae c items) \<longleftrightarrow>
   (\<exists>e d. (s, i, e) \<in> set items \<and> decrypt_with_metadata ae c e = Inr d \<and> df_stale d \<and> t = df_plaintext d)"
  by (force simp: stale_items_def split: sum.splits if_splits)

lemma stale_items_keys:
  "distinct (map (\<lambda>(s, i, e). (s, i)) items) \<Longrightarrow> distinct (map (\<lambda>(s, i, t). (s, i)) (stale_items ae c items))"
proof (induction items)
  case Nil
  then show ?case by (simp add: stale_items_def)
next
  case (Cons x items)
  obtain s i e where x: "x = (s, i, e)" by (metis surj_pair)
  have "(s, i) \<notin> set (map (\<lambda>(s, i, t). (s, i)) (stale_items ae c items))"
    using Cons.prems stale_items_in[of s i _ ae c items] by (force simp: x)
  then show ?case using Cons
    by (auto simp: x stale_items_def split: sum.splits)
qed

section \<open>Applying the rotation\<close>

lemma apply_pending_effect:
  assumes "aead_laws ae" "good_cipher c" "\<And>i. length (nonces i) = 12"
    and "\<And>s r t. (s, r, t) \<in> set pend \<Longrightarrow> stored db s r \<noteq> None \<and> list_all scalar_value t"
    and "distinct (map (\<lambda>(s, r, t). (s, r)) pend)"
  shows "\<exists>stores' db'. apply_pending ae c nonces k pend stores db = Inr (stores', db') \<and> ids_distinct db' = ids_distinct db
    \<and> (\<forall>s r t. (s, r, t) \<in> set pend \<longrightarrow> (\<exists>e. stored db' s r = Some e \<and> decrypt_with_metadata ae c e =
         Inr \<lparr> df_plaintext = t, df_version = fc_write c, df_key_id = fc_current c, df_stale = False \<rparr>))
    \<and> (\<forall>s r. (s, r) \<notin> set (map (\<lambda>(s, r, t). (s, r)) pend) \<longrightarrow> stored db' s r = stored db s r)"
  using assms(4,5)
proof (induction pend arbitrary: k stores db)
  case Nil
  then show ?case by auto
next
  case (Cons p pend)
  obtain s r t where p: "p = (s, r, t)" by (metis surj_pair)
  have st: "stored db s r \<noteq> None" "list_all scalar_value t" using Cons.prems(1)[of s r t] by (simp_all add: p)
  obtain e where e: "encrypt ae c (nonces k) t = Inr e" "decrypt_with_metadata ae c e =
      Inr \<lparr> df_plaintext = t, df_version = fc_write c, df_key_id = fc_current c, df_stale = False \<rparr>"
    using encrypt_decrypt[OF assms(1,2,3) st(2)] by blast
  define db1 where "db1 = set_credential s r e db"
  define stores1 where "stores1 = stores(s := (stores s)\<lparr>ct_rotated := ct_rotated (stores s) + 1\<rparr>)"
  have sd: "stored db1 s' r' = (if s' = s \<and> r' = r then Some e else stored db s' r')" for s' r'
    unfolding db1_def by (rule stored_set[OF st(1)])
  have "\<And>s' r' t'. (s', r', t') \<in> set pend \<Longrightarrow> stored db1 s' r' \<noteq> None \<and> list_all scalar_value t'"
    using Cons.prems(1) by (auto simp: sd)
  moreover have "distinct (map (\<lambda>(s, r, t). (s, r)) pend)" using Cons.prems(2) by simp
  ultimately obtain stores' db' where IH: "apply_pending ae c nonces (Suc k) pend stores1 db1 = Inr (stores', db')"
    "ids_distinct db' = ids_distinct db1"
    "\<forall>s r t. (s, r, t) \<in> set pend \<longrightarrow> (\<exists>e. stored db' s r = Some e \<and> decrypt_with_metadata ae c e =
         Inr \<lparr> df_plaintext = t, df_version = fc_write c, df_key_id = fc_current c, df_stale = False \<rparr>)"
    "\<forall>s r. (s, r) \<notin> set (map (\<lambda>(s, r, t). (s, r)) pend) \<longrightarrow> stored db' s r = stored db1 s r"
    using Cons.IH[of db1 "Suc k" stores1] by blast
  have new: "(s, r) \<notin> set (map (\<lambda>(s, r, t). (s, r)) pend)" using Cons.prems(2) by (simp add: p)
  have "apply_pending ae c nonces k (p # pend) stores db = Inr (stores', db')"
    using IH(1) by (simp add: p e(1) stores1_def db1_def)
  moreover have "ids_distinct db' = ids_distinct db" using IH(2) by (simp add: db1_def)
  moreover have "\<forall>s' r' t'. (s', r', t') \<in> set (p # pend) \<longrightarrow> (\<exists>e. stored db' s' r' = Some e \<and>
      decrypt_with_metadata ae c e = Inr \<lparr> df_plaintext = t', df_version = fc_write c, df_key_id = fc_current c,
        df_stale = False \<rparr>)"
    using IH(3,4) e(2) new sd by (auto simp: p)
  moreover have "\<forall>s' r'. (s', r') \<notin> set (map (\<lambda>(s, r, t). (s, r)) (p # pend)) \<longrightarrow> stored db' s' r' = stored db s' r'"
    using IH(4) by (auto simp: p sd)
  ultimately show ?case by blast
qed

text \<open>The configuration after the old keys are retired.\<close>

definition retired :: "field_cipher \<Rightarrow> field_cipher" where
  "retired c = c\<lparr>fc_keys := [hd (fc_keys c)]\<rparr>"

lemma decrypt_retired:
  assumes "good_cipher c" "decrypt_with_metadata ae c e = Inr d" "\<not> df_stale d"
  shows "decrypt_with_metadata ae (retired c) e = Inr d"
proof -
  obtain k ks where ks: "fc_keys c = (fc_current c, k) # ks" "fc_current c \<notin> fst ` set ks"
    using assms(1) by (cases "fc_keys c") (auto simp: good_cipher_def)
  have r: "fc_current (retired c) = fc_current c" "fc_write (retired c) = fc_write c"
    "fc_keys (retired c) = [(fc_current c, k)]" by (simp_all add: retired_def ks)
  have other: "df_stale d" if "try_keys ae c raw xs = Inr d" "fc_current c \<notin> fst ` set xs" for raw xs
    using that by (induction ae c raw xs rule: try_keys.induct) (auto simp: and_then_Inr split: option.splits)
  have v1: "try_keys ae (retired c) raw [(fc_current c, k)] = Inr d"
    if "try_keys ae c raw ((fc_current c, k) # ks) = Inr d" for raw
    using that other[OF _ ks(2), of raw] assms(3) by (auto simp: and_then_Inr r split: option.splits)
  show ?thesis
    using assms(2,3) v1
    by (auto simp: decrypt_with_metadata_def decrypt_v1_def decrypt_v2_def and_then_Inr Let_def r ks simp del: try_keys.simps
        split: if_splits list.splits option.splits)
qed

lemma rotate_unreadable:
  assumes "ids_distinct db" "rotate_provider_credentials ae c nonces True db = (db', outcome)"
    and "\<not> list_all (readable ae c) (credentials db)"
  shows "\<not> is_ok outcome \<and> db' = db \<and> (\<exists>s i e. stored db s i = Some e \<and> \<not> is_ok (decrypt_with_metadata ae c e))"
proof -
  obtain er where "inspect_all ae c (credentials db) (\<lambda>_. no_counts, []) = Inl er"
    using inspect_all_result[of ae c "credentials db" "[]" "\<lambda>_. no_counts"] assms(3) by (auto split: sum.splits)
  then have "outcome = Inl er" "db' = db" using assms(2) by (simp_all add: rotate_provider_credentials_def)
  moreover have "\<exists>s i e. stored db s i = Some e \<and> \<not> is_ok (decrypt_with_metadata ae c e)"
    using assms(3) credentials_stored[OF assms(1)] by (force simp: list_all_iff readable_def)
  ultimately show ?thesis by auto
qed

lemma stored_readable:
  assumes "ids_distinct db" "list_all (readable ae c) (credentials db)" "stored db s i = Some e"
  shows "\<exists>d. decrypt_with_metadata ae c e = Inr d"
proof -
  have "readable ae c (s, i, e)" using assms credentials_stored[OF assms(1)] unfolding list_all_iff by blast
  then show ?thesis by (cases "decrypt_with_metadata ae c e") (simp_all add: readable_def)
qed

text \<open>A rotation over readable credentials: what it leaves for a stale credential and for any other.\<close>

lemma rotate_readable:
  assumes "aead_laws ae" "good_cipher c" "ids_distinct db" "\<And>i. length (nonces i) = 12"
    and "rotate_provider_credentials ae c nonces True db = (db', outcome)" "list_all (readable ae c) (credentials db)"
  shows "is_ok outcome" "ids_distinct db'"
    and "\<And>s i e d. stored db s i = Some e \<Longrightarrow> decrypt_with_metadata ae c e = Inr d \<Longrightarrow> df_stale d \<Longrightarrow>
       \<exists>e'. stored db' s i = Some e' \<and> decrypt_with_metadata ae c e' = Inr \<lparr> df_plaintext = df_plaintext d,
         df_version = fc_write c, df_key_id = fc_current c, df_stale = False \<rparr>"
    and "\<And>s i. (\<And>e d. stored db s i = Some e \<Longrightarrow> decrypt_with_metadata ae c e = Inr d \<Longrightarrow> \<not> df_stale d) \<Longrightarrow>
       stored db' s i = stored db s i"
proof -
  let ?pend = "stale_items ae c (credentials db)"
  obtain stores where ins: "inspect_all ae c (credentials db) (\<lambda>_. no_counts, []) = Inr (stores, ?pend)"
    using inspect_all_result[of ae c "credentials db" "[]" "\<lambda>_. no_counts"] assms(6) by (auto split: sum.splits)
  note cs = credentials_stored[OF assms(3)]
  have pre: "stored db s r \<noteq> None \<and> list_all scalar_value t" if "(s, r, t) \<in> set ?pend" for s r t
    using that stale_items_in cs decrypted_scalar by fastforce
  note keys = stale_items_keys[OF credentials_keys[OF assms(3)], of ae c]
  have "\<exists>stores' db2. apply_pending ae c nonces 0 ?pend stores db = Inr (stores', db2)
    \<and> ids_distinct db2 = ids_distinct db
    \<and> (\<forall>s r t. (s, r, t) \<in> set ?pend \<longrightarrow> (\<exists>e. stored db2 s r = Some e \<and> decrypt_with_metadata ae c e =
         Inr \<lparr> df_plaintext = t, df_version = fc_write c, df_key_id = fc_current c, df_stale = False \<rparr>))
    \<and> (\<forall>s r. (s, r) \<notin> set (map (\<lambda>(s, r, t). (s, r)) ?pend) \<longrightarrow> stored db2 s r = stored db s r)"
    by (rule apply_pending_effect[OF assms(1,2,4) _ keys]) (rule pre)
  then obtain stores' db2 where ap: "apply_pending ae c nonces 0 ?pend stores db = Inr (stores', db2)"
    "ids_distinct db2 = ids_distinct db"
    "\<forall>s r t. (s, r, t) \<in> set ?pend \<longrightarrow> (\<exists>e. stored db2 s r = Some e \<and> decrypt_with_metadata ae c e =
         Inr \<lparr> df_plaintext = t, df_version = fc_write c, df_key_id = fc_current c, df_stale = False \<rparr>)"
    "\<forall>s r. (s, r) \<notin> set (map (\<lambda>(s, r, t). (s, r)) ?pend) \<longrightarrow> stored db2 s r = stored db s r" by blast
  have out: "is_ok outcome" "db' = db2"
    using assms(5) ins ap(1) by (auto simp: rotate_provider_credentials_def)
  then show "is_ok outcome" "ids_distinct db'" using ap(2) assms(3) by simp_all
  show "\<exists>e'. stored db' s i = Some e' \<and> decrypt_with_metadata ae c e' = Inr \<lparr> df_plaintext = df_plaintext d,
      df_version = fc_write c, df_key_id = fc_current c, df_stale = False \<rparr>"
    if "stored db s i = Some e" "decrypt_with_metadata ae c e = Inr d" "df_stale d" for s i e d
  proof -
    have "(s, i, df_plaintext d) \<in> set ?pend" using stale_items_in cs that by blast
    then show ?thesis using ap(3) out(2) by blast
  qed
  show "stored db' s i = stored db s i"
    if "\<And>e d. stored db s i = Some e \<Longrightarrow> decrypt_with_metadata ae c e = Inr d \<Longrightarrow> \<not> df_stale d" for s i
  proof -
    have "(s, i) \<notin> set (map (\<lambda>(s, r, t). (s, r)) ?pend)"
      using that stale_items_in[of s i _ ae c "credentials db"] cs by auto
    then show ?thesis using ap(4) out(2) by metis
  qed
qed

text \<open>Nothing is left to do once every credential is current.\<close>

lemma rotate_current:
  assumes "ids_distinct db" "\<And>s i e. stored db s i = Some e \<Longrightarrow> \<exists>d. decrypt_with_metadata ae c e = Inr d \<and> \<not> df_stale d"
  shows "\<exists>r. rotate_provider_credentials ae c nonces b db = (db, Inr r) \<and> (\<forall>s. ct_would_rotate (ro_stores r s) = 0)"
proof -
  have n: "\<exists>d. decrypt_with_metadata ae c e = Inr d \<and> \<not> df_stale d" if "(s, i, e) \<in> set (credentials db)" for s i e
    using that credentials_stored[OF assms(1)] assms(2) by blast
  have "x \<notin> set (stale_items ae c (credentials db))" for x
    using n stale_items_in[of "fst x" "fst (snd x)" "snd (snd x)" ae c "credentials db"] by fastforce
  then have "stale_items ae c (credentials db) = []" by (metis list.set_intros(1) neq_Nil_conv)
  moreover have "list_all (readable ae c) (credentials db)" using n by (fastforce simp: list_all_iff readable_def)
  ultimately show ?thesis
    using inspect_all_result[of ae c "credentials db" "[]" "\<lambda>_. no_counts"]
    by (cases b) (auto simp: rotate_provider_credentials_def no_counts_def split: sum.splits)
qed

text \<open>C16: rotating the keys loses no credential. Over tables with distinct identifiers, an applied rotation succeeds
  exactly when every stored credential can be read; if it fails nothing changes. When it succeeds,
  every credential decrypts to the same text as before, none asks for re-encryption any more, those
  that were current are left byte for byte, no credential appears or disappears, all of them are still
  readable once the old keys are removed from the configuration, and a further run changes nothing and
  finds nothing to rotate.\<close>

theorem rotation_keeps_credentials:
  assumes "aead_laws ae" "make_cipher derive secret key_id old write = Inr c" "ids_distinct db"
    and "\<And>i. length (nonces i) = 12" "rotate_provider_credentials ae c nonces True db = (db', outcome)"
  shows "(is_ok outcome \<longleftrightarrow> (\<forall>s i e. stored db s i = Some e \<longrightarrow> is_ok (decrypt_with_metadata ae c e)))
    \<and> (\<not> is_ok outcome \<longrightarrow> db' = db)
    \<and> (is_ok outcome \<longrightarrow>
        (\<forall>s i. (stored db s i = None \<longrightarrow> stored db' s i = None)
          \<and> (\<forall>e. stored db s i = Some e \<longrightarrow> (\<exists>e' d d'. stored db' s i = Some e' \<and> decrypt_with_metadata ae c e = Inr d
               \<and> decrypt_with_metadata ae c e' = Inr d' \<and> df_plaintext d' = df_plaintext d \<and> \<not> df_stale d'
               \<and> (\<not> df_stale d \<longrightarrow> e' = e) \<and> decrypt ae (retired c) e' = Inr (df_plaintext d))))
        \<and> (\<forall>nonces' b. \<exists>r. rotate_provider_credentials ae c nonces' b db' = (db', Inr r)
               \<and> (\<forall>s. ct_would_rotate (ro_stores r s) = 0)))"
proof (cases "list_all (readable ae c) (credentials db)")
  case False
  from rotate_unreadable[OF assms(3,5) this] show ?thesis by auto
next
  case True
  note good = make_cipher_good[OF assms(2)] and read = stored_readable[OF assms(3) True]
  note rot = rotate_readable[OF assms(1) good assms(3,4,5) True]
  have each: "\<exists>e' d d'. stored db' s i = Some e' \<and> decrypt_with_metadata ae c e = Inr d
      \<and> decrypt_with_metadata ae c e' = Inr d' \<and> df_plaintext d' = df_plaintext d \<and> \<not> df_stale d'
      \<and> (\<not> df_stale d \<longrightarrow> e' = e) \<and> decrypt ae (retired c) e' = Inr (df_plaintext d)"
    if st: "stored db s i = Some e" for s i e
  proof -
    obtain d where d: "decrypt_with_metadata ae c e = Inr d" using read[OF st] by blast
    show ?thesis
    proof (cases "df_stale d")
      case False
      then have "stored db' s i = stored db s i" using st d by (intro rot(4)) simp
      then have "stored db' s i = Some e" using st by simp
      then show ?thesis using d False decrypt_retired[OF good d False] by (auto simp: decrypt_def)
    next
      case True
      from rot(3)[OF st d this] obtain e' where e': "stored db' s i = Some e'" "decrypt_with_metadata ae c e' =
          Inr \<lparr> df_plaintext = df_plaintext d, df_version = fc_write c, df_key_id = fc_current c, df_stale = False \<rparr>"
        by blast
      then show ?thesis using d True decrypt_retired[OF good e'(2)] by (auto simp: decrypt_def)
    qed
  qed
  have none: "stored db' s i = None" if "stored db s i = None" for s i
  proof -
    have "stored db' s i = stored db s i" using that by (intro rot(4)) simp
    with that show ?thesis by simp
  qed
  have "\<exists>d. decrypt_with_metadata ae c e = Inr d \<and> \<not> df_stale d" if "stored db' s i = Some e" for s i e
    using that none each by (cases "stored db s i") (fastforce, fastforce)
  note again = rotate_current[OF rot(2) this]
  have "\<forall>s i e. stored db s i = Some e \<longrightarrow> is_ok (decrypt_with_metadata ae c e)" using read by fastforce
  then show ?thesis using rot(1) none each again by (intro conjI impI iffI allI; simp)
qed

section \<open>A concrete rotation\<close>

definition ex_cipher :: field_cipher where
  "ex_cipher = \<lparr> fc_current = ''k2'', fc_keys = [(''k2'', ex_derive ''s3''), (''k1'', ex_derive ''old'')], fc_write = V2 \<rparr>"

definition ex_old_cipher :: field_cipher where
  "ex_old_cipher = \<lparr> fc_current = ''k1'', fc_keys = [(''k1'', ex_derive ''old'')], fc_write = V1 \<rparr>"

lemma ex_ciphers:
  "make_cipher ex_derive ''s3'' ''k2'' [(''k1'', ''old'')] V2 = Inr ex_cipher"
  "make_cipher ex_derive ''old'' ''k1'' [] V1 = Inr ex_old_cipher"
  by (simp_all add: make_cipher_def ex_cipher_def ex_old_cipher_def valid_key_id_def key_id_char_def is_alnum_def
      is_digit_def is_upper_def is_lower_def code_def)

definition ex_nonces :: "nat \<Rightarrow> byte list" where
  "ex_nonces i = replicate 12 7"

definition ex_creds :: cred_db where
  "ex_creds = \<lparr> cd_bumpa = [], cd_hermes = [], cd_mcp = [\<lparr> mc_id = ''m'', mc_tenant_id = ''t'', mc_created_by = None,
     mc_provider = ''gmail'', mc_status = CActive,
     mc_encrypted_credentials = Some (projr (encrypt ex_aead ex_old_cipher (ex_nonces 0) [72, 8364])),
     mc_scopes = [], mc_allowed_resources = [], mc_read_only = True, mc_admin_approved = True \<rparr>] \<rparr>"

lemma ex_creds_readable: "decrypt_with_metadata ex_aead ex_cipher (projr (encrypt ex_aead ex_old_cipher (ex_nonces 0) [72, 8364]))
   = Inr \<lparr> df_plaintext = [72, 8364], df_version = V1, df_key_id = ''k1'', df_stale = True \<rparr>"
proof -
  obtain data where data: "utf8_encode [72, 8364] = Some data" by (simp add: utf8_encode_def scalar_value_def)
  define raw where "raw = ex_nonces 0 @ ae_seal ex_aead (ex_derive ''old'') (ex_nonces 0) data v1_aad"
  have len: "length (ex_tag k a) = 16" for k a by (simp add: ex_tag_def del: take_append)
  define e where "e = ''v1'' @ CHR ''.'' # b64_encode raw"
  have e: "encrypt ex_aead ex_old_cipher (ex_nonces 0) [72, 8364] = Inr e"
    by (simp add: encrypt_def data ex_old_cipher_def the_key_def raw_def e_def)
  have raw: "decode_payload (b64_encode raw) = Inr raw" "b64_encode raw \<noteq> []"
    by (auto simp: raw_def ex_aead_def len ex_nonces_def intro!: decode_payload_encode b64_encode_nonempty)
  have parts: "take 12 raw = ex_nonces 0" "drop 12 raw = ex_tag (ex_derive ''old'') v1_aad @ data"
    by (simp_all add: raw_def ex_nonces_def ex_aead_def)
  have "hd (ex_tag (ex_derive ''s3'') v1_aad) \<noteq> hd (ex_tag (ex_derive ''old'') v1_aad)"
    by (simp add: ex_tag_def ex_derive_def ascii_bytes_def byte_of_def code_def)
  then have ne: "ex_tag (ex_derive ''s3'') v1_aad \<noteq> ex_tag (ex_derive ''old'') v1_aad" by metis
  have "split_on CHR ''.'' e = [''v1'', b64_encode raw]"
    unfolding e_def by (rule split2) (simp_all add: b64_encode_dot)
  moreover have "takeWhile (\<lambda>x. x \<noteq> CHR ''.'') e = ''v1''" "e \<noteq> []" by (simp_all add: e_def)
  moreover have "decode_plaintext data = Inr [72, 8364]" using utf8_round_trip[OF data] by (simp add: decode_plaintext_def)
  moreover have "ae_open ex_aead k n (ex_tag k' a @ data) a = (if ex_tag k' a = ex_tag k a then Some data else None)"
    for k n k' a by (simp add: ex_aead_def len)
  ultimately show ?thesis
    unfolding e sum.sel using raw ne by (simp add: decrypt_with_metadata_def decrypt_v1_def ex_cipher_def parts)
qed

theorem rotation_keeps_credentials_witness:
  "\<exists>e'. stored (fst (rotate_provider_credentials ex_aead ex_cipher ex_nonces True ex_creds)) SMcp ''m'' = Some e'
     \<and> decrypt ex_aead (retired ex_cipher) e' = Inr [72, 8364]"
proof -
  obtain db' out where r: "rotate_provider_credentials ex_aead ex_cipher ex_nonces True ex_creds = (db', out)" by fastforce
  have ids: "ids_distinct ex_creds" "length (ex_nonces i) = 12" for i
    by (simp_all add: ids_distinct_def ex_creds_def ex_nonces_def)
  note keeps = rotation_keeps_credentials[OF ex_aead_laws ex_ciphers(1) ids(1) ids(2) r]
  let ?e = "projr (encrypt ex_aead ex_old_cipher (ex_nonces 0) [72, 8364])"
  have st: "stored ex_creds s i = (if s = SMcp \<and> i = ''m'' then Some ?e else None)" for s i
    by (cases s) (simp_all add: stored_def ex_creds_def tbl_find_def)
  have "is_ok out" using keeps[THEN conjunct1] ex_creds_readable by (simp add: st)
  with keeps[THEN conjunct2, THEN conjunct2] st[of SMcp "''m''"] ex_creds_readable r show ?thesis by fastforce
qed

end
