(* ===== verification/AgentModel.thy ===== *)
theory AgentModel
  imports JobQueue AppModel
begin

text \<open>
  The tables the agent runtime shares (\<^verbatim>\<open>app/db/models.py\<close>): conversations, messages, generated
  media, actions that await approval, connector permissions, operational events and usage. The
  state \<open>agent_db\<close> extends the job tables, because every write of a worker is fenced by its job row.
\<close>

section \<open>Conversations and messages\<close>

record conversation =
  cv_id :: ident
  cv_tenant_id :: ident
  cv_user_id :: ident
  cv_channel :: string
  cv_status :: string
  cv_session_id :: "string option"
  cv_generation :: int
  cv_waba_id :: string
  cv_receiver_id :: string
  cv_lane :: string
  cv_active_run :: "ident option"
  cv_pending_utterance :: pyval
  cv_updated_at :: time

record agent_message =
  am_id :: ident
  am_tenant_id :: ident
  am_user_id :: "ident option"
  am_profile_id :: "ident option"
  am_conversation_id :: ident
  am_channel :: string
  am_direction :: direction
  am_content :: string
  am_initiating :: "ident option"
  am_metadata :: "(string \<times> pyval) list"
  am_scope :: string
  am_external_id :: "string option"
  am_created_at :: time

datatype media_status = GPending | GDelivered | GFailed

record generated_media =
  gm_id :: ident
  gm_tenant_id :: ident
  gm_user_id :: ident
  gm_conversation_id :: ident
  gm_message_id :: "ident option"
  gm_channel :: string
  gm_status :: media_status
  gm_run_id :: "ident option"
  gm_type :: string
  gm_mime :: string
  gm_filename :: "string option"
  gm_path :: string
  gm_size :: int
  gm_checksum :: string
  gm_delivered_at :: "time option"

section \<open>Actions that await approval\<close>

datatype action_status = APending | AConfirmed | ADenied | AExpired | AExecuting | ASucceeded | AFailed

record pending_action =
  pa_id :: ident
  pa_tenant_id :: ident
  pa_user_id :: ident
  pa_conversation_id :: "ident option"
  pa_connection_id :: "ident option"
  pa_tool :: string
  pa_target :: string
  pa_input :: pyval
  pa_result :: "pyval option"
  pa_status :: action_status
  pa_key :: string
  pa_revision :: "string option"
  pa_binding :: "(string \<times> pyval) list"
  pa_token_hash :: string
  pa_expires_at :: time
  pa_confirmed_at :: "time option"
  pa_executed_at :: "time option"

datatype tool_access = ToolDeny | ToolRead | ToolWrite

record tool_permission =
  tp_id :: ident
  tp_tenant_id :: ident
  tp_connection_id :: ident
  tp_tool :: string
  tp_permission :: tool_access

record business_profile =
  bp_id :: ident
  bp_tenant_id :: ident
  bp_state :: pyval

section \<open>Events\<close>

record agent_event =
  ev_tenant_id :: "ident option"
  ev_user_id :: "ident option"
  ev_conversation_id :: "ident option"
  ev_channel :: string
  ev_type :: string
  ev_status :: string
  ev_tool :: "string option"
  ev_error_code :: "string option"
  ev_metadata :: pyval

record usage_event =
  uv_tenant_id :: "ident option"
  uv_user_id :: "ident option"
  uv_name :: string
  uv_units :: "int option"
  uv_metadata :: pyval

section \<open>The state\<close>

record agent_db = jobdb +
  ag_tenants :: "tenant list"
  ag_users :: "user_row list"
  ag_members :: "membership list"
  ag_phones :: "phone_identity list"
  ag_profiles :: "hermes_profile list"
  ag_conversations :: "conversation list"
  ag_messages :: "agent_message list"
  ag_runs :: "agent_run list"
  ag_media :: "generated_media list"
  ag_whatsapp :: "wa_message list"
  ag_actions :: "pending_action list"
  ag_connections :: "mcp_connection list"
  ag_permissions :: "tool_permission list"
  ag_business :: "business_profile list"
  ag_events :: "agent_event list"
  ag_usage :: "usage_event list"

abbreviation get_run :: "'a agent_db_scheme \<Rightarrow> ident \<Rightarrow> agent_run option" where
  "get_run db i \<equiv> tbl_find ar_id i (ag_runs db)"

abbreviation get_conversation :: "'a agent_db_scheme \<Rightarrow> ident \<Rightarrow> conversation option" where
  "get_conversation db i \<equiv> tbl_find cv_id i (ag_conversations db)"

abbreviation get_message :: "'a agent_db_scheme \<Rightarrow> ident \<Rightarrow> agent_message option" where
  "get_message db i \<equiv> tbl_find am_id i (ag_messages db)"

definition set_run :: "ident \<Rightarrow> (agent_run \<Rightarrow> agent_run) \<Rightarrow> 'a agent_db_scheme \<Rightarrow> 'a agent_db_scheme" where
  "set_run i f db = db\<lparr>ag_runs := tbl_upd ar_id i f (ag_runs db)\<rparr>"

definition set_conversation ::
  "ident \<Rightarrow> (conversation \<Rightarrow> conversation) \<Rightarrow> 'a agent_db_scheme \<Rightarrow> 'a agent_db_scheme" where
  "set_conversation i f db = db\<lparr>ag_conversations := tbl_upd cv_id i f (ag_conversations db)\<rparr>"

definition set_message ::
  "ident \<Rightarrow> (agent_message \<Rightarrow> agent_message) \<Rightarrow> 'a agent_db_scheme \<Rightarrow> 'a agent_db_scheme" where
  "set_message i f db = db\<lparr>ag_messages := tbl_upd am_id i f (ag_messages db)\<rparr>"

definition set_action ::
  "ident \<Rightarrow> (pending_action \<Rightarrow> pending_action) \<Rightarrow> 'a agent_db_scheme \<Rightarrow> 'a agent_db_scheme" where
  "set_action i f db = db\<lparr>ag_actions := tbl_upd pa_id i f (ag_actions db)\<rparr>"

definition set_media ::
  "(generated_media \<Rightarrow> bool) \<Rightarrow> (generated_media \<Rightarrow> generated_media) \<Rightarrow> 'a agent_db_scheme \<Rightarrow> 'a agent_db_scheme" where
  "set_media p f db = db\<lparr>ag_media := map (\<lambda>m. if p m then f m else m) (ag_media db)\<rparr>"

definition add_event :: "agent_event \<Rightarrow> 'a agent_db_scheme \<Rightarrow> 'a agent_db_scheme" where
  "add_event e db = db\<lparr>ag_events := ag_events db @ [e]\<rparr>"

text \<open>Which tables a write leaves alone.\<close>

lemma set_run_frame [row_simps]:
  "ag_runs (set_run i f db) = tbl_upd ar_id i f (ag_runs db)"
  "ag_conversations (set_run i f db) = ag_conversations db"
  "ag_messages (set_run i f db) = ag_messages db"
  "ag_actions (set_run i f db) = ag_actions db"
  by (simp_all add: set_run_def)

lemma set_conversation_frame [row_simps]:
  "ag_conversations (set_conversation i g db) = tbl_upd cv_id i g (ag_conversations db)"
  "ag_runs (set_conversation i g db) = ag_runs db"
  "ag_messages (set_conversation i g db) = ag_messages db"
  "ag_actions (set_conversation i g db) = ag_actions db"
  by (simp_all add: set_conversation_def)

lemma set_message_frame [row_simps]:
  "ag_messages (set_message i h db) = tbl_upd am_id i h (ag_messages db)"
  "ag_runs (set_message i h db) = ag_runs db"
  "ag_conversations (set_message i h db) = ag_conversations db"
  "ag_actions (set_message i h db) = ag_actions db"
  by (simp_all add: set_message_def)

lemma set_action_frame [row_simps]:
  "ag_actions (set_action i k db) = tbl_upd pa_id i k (ag_actions db)"
  "ag_runs (set_action i k db) = ag_runs db"
  "ag_conversations (set_action i k db) = ag_conversations db"
  "ag_messages (set_action i k db) = ag_messages db"
  by (simp_all add: set_action_def)

lemma set_media_frame [row_simps]:
  "ag_runs (set_media p m db) = ag_runs db"
  "ag_conversations (set_media p m db) = ag_conversations db"
  "ag_messages (set_media p m db) = ag_messages db"
  "ag_actions (set_media p m db) = ag_actions db"
  by (simp_all add: set_media_def)

lemma add_event_frame [row_simps]:
  "ag_runs (add_event e db) = ag_runs db"
  "ag_conversations (add_event e db) = ag_conversations db"
  "ag_messages (add_event e db) = ag_messages db"
  "ag_actions (add_event e db) = ag_actions db"
  by (simp_all add: add_event_def)

interpretation runs: table_view ag_runs "\<lambda>rs db. db\<lparr>ag_runs := rs\<rparr>" ar_id
  by unfold_locales simp_all

interpretation actions: table_view ag_actions "\<lambda>rs db. db\<lparr>ag_actions := rs\<rparr>" pa_id
  by unfold_locales simp_all

text \<open>Dictionaries: \<open>dict_set\<close> is the update \<^verbatim>\<open>{**d, k: v}\<close>, which keeps the position of an existing key.\<close>

fun dict_set :: "(string \<times> pyval) list \<Rightarrow> string \<Rightarrow> pyval \<Rightarrow> (string \<times> pyval) list" where
  "dict_set [] k v = [(k, v)]"
| "dict_set ((x, y) # d) k v = (if x = k then (k, v) # d else (x, y) # dict_set d k v)"

lemma map_of_dict_set: "map_of (dict_set d k v) x = (if x = k then Some v else map_of d x)"
  by (induction d k v rule: dict_set.induct) auto

lemma dict_get_set: "dict_get (dict_set d k v) x = (if x = k then v else dict_get d x)"
  by (simp add: dict_get_def map_of_dict_set)

text \<open>A nullable string column as the JSON value it is compared with.\<close>

definition opt_str :: "string option \<Rightarrow> pyval" where
  "opt_str x = (case x of None \<Rightarrow> PNone | Some s \<Rightarrow> PStr s)"

lemma opt_str_inj [simp]: "opt_str x = opt_str y \<longleftrightarrow> x = y"
  by (cases x; cases y) (simp_all add: opt_str_def)

end
