(* ===== verification/AgentExecution.thy ===== *)
theory AgentExecution
  imports AgentModel
begin

text \<open>
  Run fencing (\<^verbatim>\<open>app/services/agent_execution.py\<close>). Every operation is one transaction on the
  current rows: the source locks the conversation and reads with \<^verbatim>\<open>populate_existing\<close>. \<open>Inl\<close> is the
  exception of a transaction that its caller rolls back. Where the source asks for the fence of the
  current job, the fence is an argument and the result carries it back, because a failed check
  invalidates it.
\<close>

datatype exec_error = ExecutionDenied string | RunLeaseLost | RunValueError

definition begin_run ::
  "'a agent_db_scheme \<Rightarrow> time \<Rightarrow> job_fence option \<Rightarrow> ident \<Rightarrow> conversation \<Rightarrow> agent_message \<Rightarrow> rat \<Rightarrow>
   job_fence option \<times> (exec_error + agent_run \<times> 'a agent_db_scheme)" where
  "begin_run db now fence rid conv inbound timeout =
    (case assert_current_job_lease db now fence of
       (fence', Inl _) \<Rightarrow> (fence', Inl RunLeaseLost)
     | (fence', Inr _) \<Rightarrow> (fence',
         if cv_generation conv \<noteq> 1 \<or> am_direction inbound \<noteq> Inbound
         then Inl (ExecutionDenied ''A reviewed conversation and initiating input are required'')
         else
          let run = \<lparr> ar_id = rid, ar_tenant_id = cv_tenant_id conv, ar_user_id = cv_user_id conv,
                ar_conversation_id = cv_id conv, ar_initiating_message_id = am_id inbound,
                ar_actor_identity_id = (case dict_get (am_metadata inbound) ''phone_identity_id'' of
                   PStr i \<Rightarrow> Some i | _ \<Rightarrow> None),
                ar_provider_run_ids = [], ar_context_digest = None, ar_snapshots = None, ar_reconcile_epoch = 0,
                ar_output_message_id = None, ar_effect_keys = [],
                ar_job_id = map_option f_job_id fence', ar_job_claim_epoch = map_option f_claim_epoch fence',
                ar_job_stale_lock = map_option f_stale_lock fence', ar_status = RRunning,
                ar_expires_at = now + float_seconds (timeout + 30), ar_created_at = now \<rparr>;
              free = (\<lambda>c. cv_id c = cv_id conv \<and> cv_tenant_id c = cv_tenant_id conv \<and> cv_active_run c = None)
          in if length (filter free (ag_conversations db)) \<noteq> 1
             then Inl (ExecutionDenied ''An earlier run requires completion or explicit reconciliation'')
             else Inr (run, db\<lparr>ag_runs := ag_runs db @ [run],
               ag_conversations := map (\<lambda>c. if free c then c\<lparr>cv_active_run := Some rid\<rparr> else c)
                 (ag_conversations db)\<rparr>)))"

definition find_run :: "'a agent_db_scheme \<Rightarrow> pyval \<Rightarrow> agent_run option" where
  "find_run db run_id = (case run_id of PStr i \<Rightarrow> get_run db i | _ \<Rightarrow> None)"

text \<open>The lease of the job the run was begun under, when it was begun under one.\<close>

definition origin_lease :: "'a agent_db_scheme \<Rightarrow> time \<Rightarrow> agent_run option \<Rightarrow> job_exn + unit" where
  "origin_lease db now ref = (case ref of
     None \<Rightarrow> Inr ()
   | Some r \<Rightarrow> (case (ar_job_id r, ar_job_claim_epoch r) of
       (Some j, Some e) \<Rightarrow>
         if j = [] then Inr ()
         else assert_job_lease db now j e
           (case ar_job_stale_lock r of None \<Rightarrow> 300 | Some s \<Rightarrow> if s = 0 then 300 else s) None
     | _ \<Rightarrow> Inr ()))"

definition active_member :: "'a agent_db_scheme \<Rightarrow> ident \<Rightarrow> ident \<Rightarrow> bool" where
  "active_member db tenant user = list_ex (\<lambda>m. mb_tenant_id m = tenant \<and> mb_user_id m = user
     \<and> mb_status m = ''active'') (ag_members db)"

definition active_tenant :: "'a agent_db_scheme \<Rightarrow> ident \<Rightarrow> bool" where
  "active_tenant db tenant = (case tbl_find tn_id tenant (ag_tenants db) of
     None \<Rightarrow> False | Some t \<Rightarrow> tn_status t = TActive)"

definition active_user :: "'a agent_db_scheme \<Rightarrow> ident \<Rightarrow> bool" where
  "active_user db user = (case tbl_find us_id user (ag_users db) of
     None \<Rightarrow> False | Some u \<Rightarrow> us_status u = ''active'')"

definition approved_phone :: "'a agent_db_scheme \<Rightarrow> ident \<Rightarrow> ident \<Rightarrow> ident \<Rightarrow> bool" where
  "approved_phone db i tenant user = (case tbl_find ph_id i (ag_phones db) of
     None \<Rightarrow> False
   | Some p \<Rightarrow> ph_status p = ''approved'' \<and> \<not> ph_opt_out p \<and> ph_tenant_id p = tenant \<and> ph_user_id p = user)"

definition actor_authorized :: "'a agent_db_scheme \<Rightarrow> ident \<Rightarrow> ident \<Rightarrow> agent_run option \<Rightarrow> bool" where
  "actor_authorized db tenant user run =
    (active_member db tenant user \<and> active_tenant db tenant \<and> active_user db user
     \<and> (case run of None \<Rightarrow> True | Some r \<Rightarrow>
          (case ar_actor_identity_id r of None \<Rightarrow> True | Some i \<Rightarrow> i = [] \<or> approved_phone db i tenant user)))"

definition scoped_conversation ::
  "'a agent_db_scheme \<Rightarrow> ident \<Rightarrow> ident \<Rightarrow> ident \<Rightarrow> string \<Rightarrow> conversation option" where
  "scoped_conversation db cid tenant user channel = (case get_conversation db cid of
     None \<Rightarrow> None
   | Some c \<Rightarrow> if cv_tenant_id c = tenant \<and> cv_user_id c = user \<and> cv_channel c = channel then Some c else None)"

definition run_active ::
  "time \<Rightarrow> conversation \<Rightarrow> agent_run \<Rightarrow> ident \<Rightarrow> ident \<Rightarrow> ident \<Rightarrow> ident option \<Rightarrow> bool" where
  "run_active now c r tenant user cid inbound =
    (cv_generation c = 1 \<and> cv_status c \<in> {''open'', ''voice''} \<and> cv_active_run c = Some (ar_id r)
     \<and> ar_tenant_id r = tenant \<and> ar_user_id r = user \<and> ar_conversation_id r = cid
     \<and> Some (ar_initiating_message_id r) = inbound \<and> ar_status r = RRunning \<and> now < ar_expires_at r)"

definition require_active_run ::
  "'a agent_db_scheme \<Rightarrow> time \<Rightarrow> job_fence option \<Rightarrow> pyval \<Rightarrow> ident \<Rightarrow> ident \<Rightarrow> ident \<Rightarrow> ident option \<Rightarrow> string \<Rightarrow>
   job_fence option \<times> (exec_error + agent_run)" where
  "require_active_run db now fence run_id tenant user cid inbound channel =
    (case assert_current_job_lease db now fence of
       (fence', Inl _) \<Rightarrow> (fence', Inl RunLeaseLost)
     | (fence', Inr _) \<Rightarrow> (fence',
         let run = find_run db run_id in
         if \<not> is_ok (origin_lease db now run) then Inl RunLeaseLost
         else if \<not> actor_authorized db tenant user run
         then Inl (ExecutionDenied ''The initiating actor is no longer authorized'')
         else (case (scoped_conversation db cid tenant user channel, run) of
            (Some c, Some r) \<Rightarrow>
              if run_active now c r tenant user cid inbound then Inr r
              else Inl (ExecutionDenied ''The initiating run is no longer active'')
          | _ \<Rightarrow> Inl (ExecutionDenied ''The initiating run is no longer active''))))"

definition clear_pointer :: "agent_run \<Rightarrow> 'a agent_db_scheme \<Rightarrow> 'a agent_db_scheme" where
  "clear_pointer r db = db\<lparr>ag_conversations := map (\<lambda>c.
     if cv_id c = ar_conversation_id r \<and> cv_tenant_id c = ar_tenant_id r \<and> cv_active_run c = Some (ar_id r)
     then c\<lparr>cv_active_run := None\<rparr> else c) (ag_conversations db)\<rparr>"

definition fail_media :: "ident \<Rightarrow> 'a agent_db_scheme \<Rightarrow> 'a agent_db_scheme" where
  "fail_media rid = set_media (\<lambda>m. gm_run_id m = Some rid \<and> gm_status m = GPending) (\<lambda>m. m\<lparr>gm_status := GFailed\<rparr>)"

definition finish_run :: "agent_run \<Rightarrow> run_status \<Rightarrow> 'a agent_db_scheme \<Rightarrow> 'a agent_db_scheme" where
  "finish_run r st db =
    (let db1 = set_run (ar_id r) (\<lambda>x. x\<lparr>ar_status := st\<rparr>) (clear_pointer r db)
     in if st \<noteq> RCompleted then fail_media (ar_id r) db1 else db1)"

definition cancel_conversation :: "ident \<Rightarrow> 'a agent_db_scheme \<Rightarrow> 'a agent_db_scheme" where
  "cancel_conversation cid db = (case get_conversation db cid of
     None \<Rightarrow> db
   | Some c \<Rightarrow>
      let db1 = (case cv_active_run c of
             None \<Rightarrow> db
           | Some i \<Rightarrow> if i = [] then db else (case get_run db i of None \<Rightarrow> db | Some r \<Rightarrow> finish_run r RFailed db));
          db2 = set_conversation cid (\<lambda>c. c\<lparr>cv_pending_utterance := PDict [], cv_status := ''closed''\<rparr>) db1
      in db2\<lparr>ag_actions := map (\<lambda>a. if pa_conversation_id a = Some cid \<and> pa_status a = APending
            then a\<lparr>pa_status := AExpired\<rparr> else a) (ag_actions db2)\<rparr>)"

section \<open>What a passed check means\<close>

lemma assert_current_ok:
  "assert_current_job_lease db now fence = (fence', Inr u) \<Longrightarrow> fence' = fence"
  by (cases fence) (auto simp: assert_current_job_lease_def split: if_splits sum.splits)

lemma require_active_run_ok:
  assumes "require_active_run db now fence run_id tenant user cid inbound channel = (fence', Inr r)"
  shows "\<exists>c. run_id = PStr (ar_id r) \<and> get_run db (ar_id r) = Some r \<and> get_conversation db cid = Some c
    \<and> cv_tenant_id c = tenant \<and> cv_user_id c = user \<and> cv_channel c = channel
    \<and> run_active now c r tenant user cid inbound
    \<and> actor_authorized db tenant user (Some r) \<and> is_ok (origin_lease db now (Some r)) \<and> fence' = fence"
proof -
  obtain f1 res where f1: "assert_current_job_lease db now fence = (f1, res)" by fastforce
  have "\<exists>u. res = Inr u"
  proof (cases res)
    case (Inl e)
    then show ?thesis using assms by (simp add: require_active_run_def f1)
  qed simp
  then obtain u where u: "res = Inr u" ..
  have "f1 = fence'" using assms unfolding require_active_run_def f1 u by simp
  then have lease: "assert_current_job_lease db now fence = (fence', Inr u)" using f1 u by simp
  have fence: "fence' = fence" by (rule assert_current_ok[OF lease])
  obtain i where i: "run_id = PStr i" "get_run db i = Some r"
    and c: "scoped_conversation db cid tenant user channel \<noteq> None"
    and guards: "is_ok (origin_lease db now (Some r))" "actor_authorized db tenant user (Some r)"
      "run_active now (the (scoped_conversation db cid tenant user channel)) r tenant user cid inbound"
    using assms
    by (simp_all add: require_active_run_def lease find_run_def Let_def split: if_splits option.splits pyval.splits)
  have "ar_id r = i" using tbl_find_Some[OF i(2)] by simp
  with i c guards fence show ?thesis
    by (auto simp: scoped_conversation_def split: option.splits if_splits)
qed

text \<open>Two calls that pass on the same conversation, at the same state, return the same run.\<close>

lemma require_active_run_unique:
  assumes "require_active_run db now f1 id1 t1 u1 cid m1 ch1 = (f1', Inr r1)"
    and "require_active_run db now' f2 id2 t2 u2 cid m2 ch2 = (f2', Inr r2)"
  shows "r1 = r2"
proof -
  obtain c where c: "get_conversation db cid = Some c" "cv_active_run c = Some (ar_id r1)" "get_run db (ar_id r1) = Some r1"
    using require_active_run_ok[OF assms(1)] unfolding run_active_def by blast
  obtain d where d: "get_conversation db cid = Some d" "cv_active_run d = Some (ar_id r2)" "get_run db (ar_id r2) = Some r2"
    using require_active_run_ok[OF assms(2)] unfolding run_active_def by blast
  have "ar_id r1 = ar_id r2" using c(1,2) d(1,2) by simp
  then have "Some r1 = Some r2" using c(3) d(3) by metis
  then show ?thesis by (rule option.inject[THEN iffD1])
qed

end
