(* ===== verification/AgentActions.thy ===== *)
theory AgentActions
  imports AgentExecution
begin

text \<open>
  External writes that wait for a person's confirmation (\<^verbatim>\<open>app/services/agent_actions.py\<close>), with the
  connector permission gate (\<^verbatim>\<open>app/services/mcp_permissions.py\<close> and the tool registry of
  \<^verbatim>\<open>app/services/mcp_oauth.py\<close>).

  Parameters (\<open>action_ops\<close>): the URL-safe base64 of a dictionary's compact JSON and its inverse reader, the keyed signature
  of a value under a domain, the SHA-256 of a text and of a value's JSON, JSON serialisation with its byte
  length, Python's \<^verbatim>\<open>str\<close> of other JSON values, the access token and host of a connection, and the connector
  itself, which answers a dispatched effect with an error or a result.
\<close>

section \<open>Permission gate\<close>

datatype tool_kind = KRead | KWrite

definition provider_tools :: "string \<Rightarrow> (string \<times> tool_kind) list option" where
  "provider_tools = map_of
    [(''google_drive'', [(''search_files'', KRead), (''read_file'', KRead), (''create_file'', KWrite)]),
     (''google_sheets'', [(''read_sheet'', KRead), (''append_rows'', KWrite)]),
     (''gmail'', [(''search_messages'', KRead), (''read_message'', KRead), (''send_message'', KWrite)]),
     (''calendar'', [(''list_events'', KRead), (''create_event'', KWrite)]),
     (''meta_ads'', [(''read_campaigns'', KRead), (''update_campaign_status'', KWrite)]),
     (''home_assistant'', [(''list_entities'', KRead), (''get_state'', KRead), (''list_services'', KRead),
        (''call_service'', KWrite)])]"

definition valid_tool_permission :: "string \<Rightarrow> string \<Rightarrow> tool_access \<Rightarrow> bool \<Rightarrow> bool" where
  "valid_tool_permission provider tool access read_only =
    (case Option.bind (provider_tools provider) (\<lambda>ts. map_of ts tool) of
       None \<Rightarrow> False
     | Some kind \<Rightarrow> (access = ToolRead \<longrightarrow> kind = KRead) \<and> (access = ToolWrite \<longrightarrow> kind = KWrite \<and> \<not> read_only))"

definition find_permission :: "'a agent_db_scheme \<Rightarrow> ident \<Rightarrow> ident \<Rightarrow> string \<Rightarrow> tool_permission option" where
  "find_permission db tenant conn tool = find (\<lambda>p. tp_tenant_id p = tenant \<and> tp_connection_id p = conn \<and> tp_tool p = tool)
     (ag_permissions db)"

definition authorize_mcp_tool ::
  "'a agent_db_scheme \<Rightarrow> ident \<Rightarrow> ident \<Rightarrow> string \<Rightarrow> bool \<Rightarrow> string + mcp_connection" where
  "authorize_mcp_tool db tenant conn tool confirmed =
    (case find (\<lambda>c. mc_id c = conn \<and> mc_tenant_id c = tenant) (ag_connections db) of
       None \<Rightarrow> Inl ''MCP connection is not active and approved''
     | Some c \<Rightarrow>
        if mc_status c \<noteq> CActive \<or> \<not> mc_admin_approved c \<or> mc_encrypted_credentials c \<in> {None, Some []}
        then Inl ''MCP connection is not active and approved''
        else (case find_permission db tenant (mc_id c) tool of
           None \<Rightarrow> Inl ''MCP tool is denied''
         | Some p \<Rightarrow>
             if tp_permission p = ToolDeny then Inl ''MCP tool is denied''
             else if \<not> valid_tool_permission (mc_provider c) tool (tp_permission p) (mc_read_only c)
             then Inl ''MCP tool permission is invalid''
             else if tp_permission p = ToolWrite \<and> \<not> confirmed then Inl ''MCP write requires fresh user confirmation''
             else Inr c))"

section \<open>Tokens\<close>

text \<open>A write as the connector receives it.\<close>

record effect =
  ef_connection :: ident
  ef_tool :: string
  ef_input :: pyval
  ef_key :: string

text \<open>\<open>ActionError\<close> is what \<^verbatim>\<open>decide_pending_action\<close> records as a failure; the other exceptions escape it.\<close>

datatype action_error = ActionError string | ActionLeaseLost | ActionTypeError | ActionValueError | ActionIntegrityError

record action_ops =
  ao_encode :: "pyval \<Rightarrow> string"
  ao_decode :: "string \<Rightarrow> pyval option"
  ao_sign :: "string \<Rightarrow> string \<Rightarrow> string"
  ao_sha :: "string \<Rightarrow> string"
  ao_digest :: "pyval \<Rightarrow> string"
  ao_serialize :: "pyval \<Rightarrow> (string \<times> nat) option"
  ao_str :: "pyval \<Rightarrow> string"
  ao_acquire :: "mcp_connection \<Rightarrow> string + string \<times> string option"
  ao_connector :: "mcp_connection \<Rightarrow> string \<times> string option \<Rightarrow> effect \<Rightarrow> action_error + pyval"

datatype token_purpose = ForActions | ForBusinessProfile | ForMemory

fun token_domain :: "token_purpose \<Rightarrow> string" where
  "token_domain ForActions = ''context''"
| "token_domain ForBusinessProfile = ''business_profile_context''"
| "token_domain ForMemory = ''memory_context''"

record action_context =
  ac_tenant_id :: ident
  ac_user_id :: ident
  ac_conversation_id :: ident
  ac_channel :: string
  ac_request_id :: string
  ac_initiating :: "ident option"
  ac_expires_at :: int
  ac_run_id :: pyval

text \<open>\<open>unix\<close> is \<^verbatim>\<open>int(utcnow().timestamp())\<close>.\<close>

definition unix :: "time \<Rightarrow> int" where
  "unix now = now div 1000000"

definition sealed :: "action_ops \<Rightarrow> string \<Rightarrow> pyval \<Rightarrow> string" where
  "sealed ops domain v = ao_encode ops v @ ''.'' @ ao_sign ops domain (ao_encode ops v)"

definition context_payload ::
  "ident \<Rightarrow> ident \<Rightarrow> ident \<Rightarrow> string \<Rightarrow> string \<Rightarrow> ident option \<Rightarrow> ident option \<Rightarrow> int \<Rightarrow> (string \<times> pyval) list" where
  "context_payload tenant user cid channel request inbound run expires =
    [(''tenant_id'', PStr tenant), (''user_id'', PStr user), (''conversation_id'', PStr cid), (''channel'', PStr channel),
     (''request_id'', PStr request), (''initiating_message_id'', opt_str inbound), (''execution_run_id'', opt_str run),
     (''expires_at'', PInt expires)]"

definition create_action_context_token ::
  "action_ops \<Rightarrow> time \<Rightarrow> string \<Rightarrow> ident \<Rightarrow> ident \<Rightarrow> ident \<Rightarrow> string \<Rightarrow> ident option \<Rightarrow> ident option \<Rightarrow> token_purpose \<Rightarrow> string" where
  "create_action_context_token ops now request tenant user cid channel inbound run purpose =
    sealed ops (token_domain purpose)
      (PDict (context_payload tenant user cid channel request inbound run (unix now + 7200)))"

definition ascii :: "string \<Rightarrow> bool" where
  "ascii s = list_all (\<lambda>c. code c < 128) s"

text \<open>\<^verbatim>\<open>token.split(".", 1)\<close>; \<open>None\<close> when there is no dot.\<close>

fun split_dot :: "string \<Rightarrow> (string \<times> string) option" where
  "split_dot [] = None"
| "split_dot (c # s) = (if c = CHR ''.'' then Some ([], s) else map_option (\<lambda>(a, b). (c # a, b)) (split_dot s))"

definition py_str :: "action_ops \<Rightarrow> pyval \<Rightarrow> string" where
  "py_str ops v = (case v of PStr s \<Rightarrow> s | _ \<Rightarrow> ao_str ops v)"

definition int_of_json :: "pyval \<Rightarrow> int option" where
  "int_of_json v = (case v of
     PInt n \<Rightarrow> Some n
   | PBool b \<Rightarrow> Some (if b then 1 else 0)
   | PStr s \<Rightarrow> py_int s
   | PFloat (Fin q) \<Rightarrow> Some (if 0 \<le> q then floor q else ceiling q)
   | _ \<Rightarrow> None)"

text \<open>The fields of a payload; \<open>None\<close> is a \<^verbatim>\<open>KeyError\<close>, \<^verbatim>\<open>TypeError\<close> or \<^verbatim>\<open>ValueError\<close>. An infinite expiry is
  \<open>None\<close> as well, where the code's \<^verbatim>\<open>OverflowError\<close> would escape; no signed payload has one.\<close>

definition context_of :: "action_ops \<Rightarrow> string \<Rightarrow> pyval \<Rightarrow> action_context option" where
  "context_of ops encoded v = (case v of
     PDict d \<Rightarrow>
      (case (map_of d ''tenant_id'', map_of d ''user_id'', map_of d ''conversation_id'', map_of d ''channel'', map_of d ''expires_at'') of
         (Some t, Some u, Some c, Some ch, Some e) \<Rightarrow>
           (case int_of_json e of
              None \<Rightarrow> None
            | Some n \<Rightarrow> Some \<lparr> ac_tenant_id = py_str ops t, ac_user_id = py_str ops u, ac_conversation_id = py_str ops c,
                ac_channel = py_str ops ch,
                ac_request_id = (if truthy (dict_get d ''request_id'') then py_str ops (dict_get d ''request_id'')
                   else ao_sha ops encoded),
                ac_initiating = (if truthy (dict_get d ''initiating_message_id'')
                   then Some (py_str ops (dict_get d ''initiating_message_id'')) else None),
                ac_expires_at = n, ac_run_id = dict_get d ''execution_run_id'' \<rparr>)
       | _ \<Rightarrow> None)
   | _ \<Rightarrow> None)"

definition read_context ::
  "action_ops \<Rightarrow> time \<Rightarrow> string \<Rightarrow> ident \<Rightarrow> token_purpose \<Rightarrow> action_context option" where
  "read_context ops now token tenant purpose = (case split_dot token of
     None \<Rightarrow> None
   | Some (encoded, supplied) \<Rightarrow>
       if \<not> ascii supplied \<or> supplied \<noteq> ao_sign ops (token_domain purpose) encoded then None
       else (case Option.bind (ao_decode ops encoded) (context_of ops encoded) of
          None \<Rightarrow> None
        | Some c \<Rightarrow>
            if ac_tenant_id c \<noteq> tenant \<or> ac_expires_at c < unix now \<or> ac_channel c \<notin> {''web'', ''whatsapp''}
               \<or> ac_user_id c = [] \<or> ac_conversation_id c = [] \<or> ac_request_id c = [] then None
            else Some c))"

text \<open>\<open>check\<close> says whether the caller passed a session, so that the initiating run is required as well.\<close>

definition decode_action_context_token ::
  "action_ops \<Rightarrow> bool \<Rightarrow> 'a agent_db_scheme \<Rightarrow> time \<Rightarrow> job_fence option \<Rightarrow> string \<Rightarrow> ident \<Rightarrow> token_purpose \<Rightarrow>
   job_fence option \<times> (action_error + action_context)" where
  "decode_action_context_token ops check db now fence token tenant purpose =
    (case read_context ops now token tenant purpose of
       None \<Rightarrow> (fence, Inl (ActionError ''The action context is invalid or expired.''))
     | Some c \<Rightarrow>
        if \<not> check then (fence, Inr c)
        else (case require_active_run db now fence (ac_run_id c) (ac_tenant_id c) (ac_user_id c) (ac_conversation_id c)
               (ac_initiating c) (ac_channel c) of
           (fence', Inr _) \<Rightarrow> (fence', Inr c)
         | (fence', Inl RunLeaseLost) \<Rightarrow> (fence', Inl ActionLeaseLost)
         | (fence', Inl _) \<Rightarrow> (fence', Inl (ActionError ''The initiating run is no longer active.''))))"

section \<open>Who may write, and with what authorization\<close>

definition write_actor :: "'a agent_db_scheme \<Rightarrow> ident \<Rightarrow> ident \<Rightarrow> bool" where
  "write_actor db tenant user =
    ((case find (\<lambda>m. mb_tenant_id m = tenant \<and> mb_user_id m = user) (ag_members db) of
        None \<Rightarrow> False | Some m \<Rightarrow> mb_status m = ''active'' \<and> mb_role m \<in> {MOwner, MAdmin})
     \<and> active_tenant db tenant \<and> active_user db user)"

definition require_write_actor :: "'a agent_db_scheme \<Rightarrow> ident \<Rightarrow> ident \<Rightarrow> action_error + unit" where
  "require_write_actor db tenant user = (if write_actor db tenant user then Inr ()
     else Inl (ActionError ''An active business owner or admin must authorize external writes.''))"

fun connection_status_value :: "mcp_status \<Rightarrow> string" where
  "connection_status_value CDisabled = ''disabled''"
| "connection_status_value CAdminPending = ''admin_pending''"
| "connection_status_value CApproved = ''approved''"
| "connection_status_value COauthInProgress = ''oauth_in_progress''"
| "connection_status_value CActive = ''active''"
| "connection_status_value CRejected = ''rejected''"
| "connection_status_value CError = ''error''"

fun access_value :: "tool_access \<Rightarrow> string" where
  "access_value ToolDeny = ''deny''"
| "access_value ToolRead = ''read''"
| "access_value ToolWrite = ''write_with_confirmation''"

definition business_state :: "'a agent_db_scheme \<Rightarrow> ident \<Rightarrow> pyval option" where
  "business_state db tenant = map_option bp_state (find (\<lambda>b. bp_tenant_id b = tenant) (ag_business db))"

definition state_revision :: "pyval option \<Rightarrow> pyval" where
  "state_revision s = (case s of Some (PDict d) \<Rightarrow> dict_get d ''revision'' | _ \<Rightarrow> PNone)"

definition authorization_data ::
  "action_ops \<Rightarrow> mcp_connection \<Rightarrow> tool_permission \<Rightarrow> pyval option \<Rightarrow> (string \<times> pyval) list" where
  "authorization_data ops c p s =
    [(''connection'', PStr (mc_id c)), (''provider'', PStr (mc_provider c)),
     (''status'', PStr (connection_status_value (mc_status c))), (''approved'', PBool (mc_admin_approved c)),
     (''read_only'', PBool (mc_read_only c)), (''resources'', PList (map PStr (mc_allowed_resources c))),
     (''credentials_hash'', PStr (ao_sha ops (case mc_encrypted_credentials c of None \<Rightarrow> [] | Some x \<Rightarrow> x))),
     (''permission'', PStr (access_value (tp_permission p))), (''profile_revision'', state_revision s),
     (''profile_state_hash'', PStr (ao_digest ops (case s of None \<Rightarrow> PNone | Some v \<Rightarrow> v)))]"

definition authorization_revision ::
  "action_ops \<Rightarrow> 'a agent_db_scheme \<Rightarrow> ident \<Rightarrow> ident \<Rightarrow> string \<Rightarrow> action_error + string" where
  "authorization_revision ops db tenant conn tool =
    (case (tbl_find mc_id conn (ag_connections db), find_permission db tenant conn tool) of
       (Some c, Some p) \<Rightarrow>
         if mc_tenant_id c \<noteq> tenant then Inl (ActionError ''The connector authorization is no longer available.'')
         else Inr (ao_digest ops (PDict (authorization_data ops c p (business_state db tenant))))
     | _ \<Rightarrow> Inl (ActionError ''The connector authorization is no longer available.''))"

section \<open>The source an approval is bound to\<close>

definition action_binding :: "'a agent_db_scheme \<Rightarrow> action_context \<Rightarrow> (string \<times> pyval) list option" where
  "action_binding db c = (case (get_conversation db (ac_conversation_id c), find_run db (ac_run_id c)) of
     (Some v, Some r) \<Rightarrow> Some [(''conversation_id'', PStr (cv_id v)), (''channel'', PStr (ac_channel c)), (''lane'', PStr (cv_lane v)),
        (''waba'', PStr (cv_waba_id v)), (''receiver'', PStr (cv_receiver_id v)),
        (''actor_identity_id'', opt_str (ar_actor_identity_id r)), (''initiating_message_id'', opt_str (ac_initiating c)),
        (''execution_run_id'', PStr (ar_id r))]
   | _ \<Rightarrow> None)"

definition approval_scope :: "'a agent_db_scheme \<Rightarrow> pending_action \<Rightarrow> ident \<Rightarrow> string \<Rightarrow> ident option \<Rightarrow> bool" where
  "approval_scope db a cid channel actor = (case get_conversation db cid of
     None \<Rightarrow> False
   | Some v \<Rightarrow> cv_tenant_id v = pa_tenant_id a \<and> cv_user_id v = pa_user_id a \<and> cv_channel v = channel
      \<and> cv_generation v = 1 \<and> cv_status v \<in> {''open'', ''voice''}
      \<and> dict_get (pa_binding a) ''conversation_id'' = PStr cid \<and> dict_get (pa_binding a) ''channel'' = PStr channel
      \<and> dict_get (pa_binding a) ''actor_identity_id'' = opt_str actor
      \<and> dict_get (pa_binding a) ''lane'' = PStr (cv_lane v) \<and> dict_get (pa_binding a) ''waba'' = PStr (cv_waba_id v)
      \<and> dict_get (pa_binding a) ''receiver'' = PStr (cv_receiver_id v))"

definition validate_approval_scope ::
  "'a agent_db_scheme \<Rightarrow> pending_action \<Rightarrow> ident \<Rightarrow> string \<Rightarrow> ident option \<Rightarrow> action_error + unit" where
  "validate_approval_scope db a cid channel actor =
    (if \<not> approval_scope db a cid channel actor
     then Inl (ActionError ''This approval is not available in this receiving conversation.'')
     else (case actor of
        Some i \<Rightarrow> if approved_phone db i (pa_tenant_id a) (pa_user_id a) then Inr ()
          else Inl (ActionError ''The initiating phone identity is no longer authorized.'')
      | None \<Rightarrow> if channel = ''whatsapp'' then Inl (ActionError ''The initiating phone identity is unavailable.'') else Inr ()))"

definition source_intact :: "'a agent_db_scheme \<Rightarrow> pending_action \<Rightarrow> ident \<Rightarrow> string \<Rightarrow> ident option \<Rightarrow> ident \<Rightarrow> ident \<Rightarrow> bool" where
  "source_intact db a cid channel actor rid mid = (case (get_run db rid, get_message db mid) of
     (Some r, Some m) \<Rightarrow> ar_tenant_id r = pa_tenant_id a \<and> ar_user_id r = pa_user_id a \<and> ar_conversation_id r = cid
       \<and> ar_initiating_message_id r = mid \<and> ar_actor_identity_id r = actor
       \<and> am_tenant_id m = pa_tenant_id a \<and> am_user_id m = Some (pa_user_id a) \<and> am_conversation_id m = cid
       \<and> am_channel m = channel \<and> am_direction m = Inbound
   | _ \<Rightarrow> False)"

definition actor_of :: "pyval \<Rightarrow> ident option option" where
  "actor_of v = (case v of PNone \<Rightarrow> Some None | PStr i \<Rightarrow> Some (Some i) | _ \<Rightarrow> None)"

definition validate_bound_source :: "'a agent_db_scheme \<Rightarrow> pending_action \<Rightarrow> action_error + unit" where
  "validate_bound_source db a =
    (case (dict_get (pa_binding a) ''conversation_id'', dict_get (pa_binding a) ''channel'',
           actor_of (dict_get (pa_binding a) ''actor_identity_id''), dict_get (pa_binding a) ''execution_run_id'',
           dict_get (pa_binding a) ''initiating_message_id'') of
       (PStr cid, PStr channel, Some actor, PStr rid, PStr mid) \<Rightarrow>
         if pa_conversation_id a \<noteq> Some cid \<or> channel \<notin> {''web'', ''whatsapp''}
         then Inl (ActionError ''The initiating action binding is unavailable; review a fresh preview.'')
         else and_then (validate_approval_scope db a cid channel actor) (\<lambda>_.
           if source_intact db a cid channel actor rid mid then Inr ()
           else Inl (ActionError ''The initiating action source is no longer valid.''))
     | _ \<Rightarrow> Inl (ActionError ''The initiating action binding is unavailable; review a fresh preview.''))"

section \<open>Confirmation tokens\<close>

definition exact_effect :: "pending_action \<Rightarrow> (string \<times> pyval) list" where
  "exact_effect a = [(''input'', pa_input a), (''tool'', PStr (pa_tool a)), (''target'', PStr (pa_target a)),
     (''connection'', opt_str (pa_connection_id a)), (''binding'', PDict (pa_binding a)),
     (''authorization_revision'', PStr (case pa_revision a of None \<Rightarrow> [] | Some r \<Rightarrow> r))]"

definition confirmation_payload :: "action_ops \<Rightarrow> pending_action \<Rightarrow> (string \<times> pyval) list" where
  "confirmation_payload ops a = [(''action_id'', PStr (pa_id a)), (''tenant_id'', PStr (pa_tenant_id a)),
     (''user_id'', PStr (pa_user_id a)), (''expires_at'', PInt (unix (pa_expires_at a))),
     (''exact_effect_hash'', PStr (ao_digest ops (PDict (exact_effect a))))]"

definition confirmation_token :: "action_ops \<Rightarrow> pending_action \<Rightarrow> string" where
  "confirmation_token ops a = sealed ops ''confirmation'' (PDict (confirmation_payload ops a))"

text \<open>\<^verbatim>\<open>hmac.compare_digest\<close> raises on a text that is not ASCII.\<close>

definition verify_confirmation_token :: "action_ops \<Rightarrow> pending_action \<Rightarrow> string \<Rightarrow> action_error + unit" where
  "verify_confirmation_token ops a supplied =
    (if \<not> ascii supplied then Inl ActionTypeError
     else if supplied = confirmation_token ops a \<and> ao_sha ops supplied = pa_token_hash a then Inr ()
     else Inl (ActionError ''The action confirmation is invalid.''))"

section \<open>Preparing an action\<close>

definition action_event :: "pending_action \<Rightarrow> string \<Rightarrow> string option \<Rightarrow> agent_event" where
  "action_event a status err = \<lparr> ev_tenant_id = Some (pa_tenant_id a), ev_user_id = Some (pa_user_id a),
     ev_conversation_id = pa_conversation_id a, ev_channel = ''agent_action'', ev_type = ''action_confirmation'',
     ev_status = status, ev_tool = Some (pa_tool a), ev_error_code = err, ev_metadata = PDict [] \<rparr>"

definition action_key :: "action_ops \<Rightarrow> action_context \<Rightarrow> ident \<Rightarrow> ident \<Rightarrow> string \<Rightarrow> string \<Rightarrow> string" where
  "action_key ops c tenant conn tool serialized = ao_sha ops
    (tenant @ [CHR 0x00] @ ac_user_id c @ [CHR 0x00] @ ac_conversation_id c @ [CHR 0x00] @ ac_request_id c @ [CHR 0x00]
     @ conn @ [CHR 0x00] @ tool @ [CHR 0x00] @ serialized)"

definition expire_superseded :: "ident \<Rightarrow> action_context \<Rightarrow> 'a agent_db_scheme \<Rightarrow> 'a agent_db_scheme" where
  "expire_superseded tenant c db = db\<lparr>ag_actions := map (\<lambda>a.
     if pa_tenant_id a = tenant \<and> pa_user_id a = ac_user_id c \<and> pa_conversation_id a = Some (ac_conversation_id c)
        \<and> pa_status a = APending \<and> dict_get (pa_binding a) ''initiating_message_id'' \<noteq> opt_str (ac_initiating c)
     then a\<lparr>pa_status := AExpired\<rparr> else a) (ag_actions db)\<rparr>"

definition find_by_key :: "'a agent_db_scheme \<Rightarrow> ident \<Rightarrow> string \<Rightarrow> pending_action option" where
  "find_by_key db tenant key = find (\<lambda>a. pa_tenant_id a = tenant \<and> pa_key a = key) (ag_actions db)"

record action_request =
  rq_tenant :: ident
  rq_connection :: ident
  rq_tool :: string
  rq_target :: string
  rq_input :: pyval
  rq_token :: string

definition new_action ::
  "action_ops \<Rightarrow> action_request \<Rightarrow> action_context \<Rightarrow> (string \<times> pyval) list \<Rightarrow> string \<Rightarrow> string \<Rightarrow> ident \<Rightarrow> time \<Rightarrow> pending_action" where
  "new_action ops q c binding revision key i now =
    (let a = \<lparr> pa_id = i, pa_tenant_id = rq_tenant q, pa_user_id = ac_user_id c, pa_conversation_id = Some (ac_conversation_id c),
        pa_connection_id = Some (rq_connection q), pa_tool = rq_tool q, pa_target = strip (rq_target q), pa_input = rq_input q,
        pa_result = None, pa_status = APending, pa_key = key, pa_revision = Some revision, pa_binding = binding,
        pa_token_hash = replicate 64 CHR ''0'', pa_expires_at = now + seconds 900, pa_confirmed_at = None, pa_executed_at = None \<rparr>
     in a\<lparr>pa_token_hash := ao_sha ops (confirmation_token ops a)\<rparr>)"

text \<open>\<open>seen\<close> is what the reads saw, \<open>db\<close> what the commit meets: an action with the same key that a concurrent request
  committed in between makes the insert fail, and that action is returned.\<close>

definition prepare_pending_action ::
  "action_ops \<Rightarrow> bool \<Rightarrow> 'a agent_db_scheme \<Rightarrow> 'a agent_db_scheme \<Rightarrow> time \<Rightarrow> job_fence option \<Rightarrow> ident \<Rightarrow> action_request \<Rightarrow>
   job_fence option \<times> (action_error + pending_action \<times> string \<times> 'a agent_db_scheme)" where
  "prepare_pending_action ops enabled seen db now fence i q =
    (if \<not> enabled then (fence, Inl (ActionError ''External connector actions are disabled.''))
     else (case decode_action_context_token ops True seen now fence (rq_token q) (rq_tenant q) ForActions of
        (fence', Inl e) \<Rightarrow> (fence', Inl e)
      | (fence', Inr c) \<Rightarrow> (fence',
         and_then (require_write_actor seen (rq_tenant q) (ac_user_id c)) (\<lambda>_.
          if strip (rq_target q) = [] \<or> 2000 < length (strip (rq_target q))
          then Inl (ActionError ''The action preview is missing or too long.'')
          else (case ao_serialize ops (rq_input q) of
             None \<Rightarrow> Inl (ActionError ''The action input is invalid.'')
           | Some (serialized, bytes) \<Rightarrow>
              if 64000 < bytes then Inl (ActionError ''The action input exceeds its safe limit.'')
              else if \<not> is_ok (authorize_mcp_tool seen (rq_tenant q) (rq_connection q) (rq_tool q) True)
              then Inl (ActionError ''The requested connector action is not permitted.'')
              else
               let key = action_key ops c (rq_tenant q) (rq_connection q) (rq_tool q) serialized in
               (case find_by_key seen (rq_tenant q) key of
                  Some old \<Rightarrow> Inr (old, confirmation_token ops old, db)
                | None \<Rightarrow>
                   (case action_binding seen c of
                      None \<Rightarrow> Inl (ActionError ''The initiating action is unavailable.'')
                    | Some binding \<Rightarrow>
                       and_then (authorization_revision ops seen (rq_tenant q) (rq_connection q) (rq_tool q)) (\<lambda>revision.
                        let a = new_action ops q c binding revision key i now in
                        (case find_by_key db (rq_tenant q) key of
                           Some late \<Rightarrow> Inr (late, confirmation_token ops late, db)
                         | None \<Rightarrow>
                            let db1 = expire_superseded (rq_tenant q) c db;
                                db2 = db1\<lparr>ag_actions := ag_actions db1 @ [a]\<rparr>
                            in Inr (a, confirmation_token ops a,
                                 add_event ((action_event a ''pending'' None)\<lparr>ev_channel := ac_channel c\<rparr>) db2)))))))))) "

section \<open>Deciding\<close>

datatype 'd decide_outcome = DecideRaise action_error 'd | DecideReturn pending_action 'd | DecideExecuting 'd

definition find_action :: "'a agent_db_scheme \<Rightarrow> ident \<Rightarrow> ident \<Rightarrow> ident \<Rightarrow> pending_action option" where
  "find_action db i tenant user = (case tbl_find pa_id i (ag_actions db) of
     None \<Rightarrow> None | Some a \<Rightarrow> if pa_tenant_id a = tenant \<and> pa_user_id a = user then Some a else None)"

fun action_status_value :: "action_status \<Rightarrow> string" where
  "action_status_value APending = ''pending''"
| "action_status_value AConfirmed = ''confirmed''"
| "action_status_value ADenied = ''denied''"
| "action_status_value AExpired = ''expired''"
| "action_status_value AExecuting = ''executing''"
| "action_status_value ASucceeded = ''succeeded''"
| "action_status_value AFailed = ''failed''"

definition current_authorization :: "action_ops \<Rightarrow> 'a agent_db_scheme \<Rightarrow> pending_action \<Rightarrow> action_error + string" where
  "current_authorization ops db a = authorization_revision ops db (pa_tenant_id a)
     (case pa_connection_id a of None \<Rightarrow> [] | Some i \<Rightarrow> i) (pa_tool a)"

text \<open>The first transaction: up to the commit that marks the action as executing.\<close>

definition decide_pending_action ::
  "action_ops \<Rightarrow> 'a agent_db_scheme \<Rightarrow> time \<Rightarrow> ident \<Rightarrow> ident \<Rightarrow> ident \<Rightarrow> string \<Rightarrow> string \<Rightarrow> 'a agent_db_scheme decide_outcome" where
  "decide_pending_action ops db now i tenant user supplied choice =
    (case find_action db i tenant user of
       None \<Rightarrow> DecideRaise (ActionError ''The pending action was not found.'') db
     | Some a \<Rightarrow> (case verify_confirmation_token ops a supplied of
         Inl e \<Rightarrow> DecideRaise e db
       | Inr _ \<Rightarrow>
          if pa_status a = ASucceeded then DecideReturn a db
          else if pa_status a \<noteq> APending
          then DecideRaise (ActionError (''The action is already '' @ action_status_value (pa_status a) @ ''.'')) db
          else if pa_expires_at a \<le> now
          then DecideRaise (ActionError ''The action confirmation has expired.'') (set_action i (\<lambda>x. x\<lparr>pa_status := AExpired\<rparr>) db)
          else if choice = ''deny''
          then DecideReturn (a\<lparr>pa_status := ADenied\<rparr>)
             (add_event (action_event a ''denied'' None) (set_action i (\<lambda>x. x\<lparr>pa_status := ADenied\<rparr>) db))
          else if choice \<noteq> ''confirm'' then DecideRaise (ActionError ''The action decision is invalid.'') db
          else (case and_then (validate_bound_source db a) (\<lambda>_. and_then (require_write_actor db tenant user) (\<lambda>_.
                  if pa_revision a \<in> {None, Some []} then Inl (ActionError
                    ''Connector permissions, credentials or business facts changed; review a fresh preview.'')
                  else and_then (current_authorization ops db a) (\<lambda>revision.
                    if pa_revision a = Some revision then Inr () else Inl (ActionError
                    ''Connector permissions, credentials or business facts changed; review a fresh preview.'')))) of
             Inl e \<Rightarrow> DecideRaise e db
           | Inr _ \<Rightarrow> DecideExecuting (add_event (action_event a ''confirmed'' None)
               (set_action i (\<lambda>x. x\<lparr>pa_status := AExecuting, pa_confirmed_at := Some now\<rparr>) db)))))"

definition before_dispatch ::
  "action_ops \<Rightarrow> 'a agent_db_scheme \<Rightarrow> time \<Rightarrow> job_fence option \<Rightarrow> ident \<Rightarrow> ident \<Rightarrow> ident \<Rightarrow> string \<Rightarrow>
   job_fence option \<times> (action_error + pending_action)" where
  "before_dispatch ops db now fence i tenant user supplied =
    (case find_action db i tenant user of
       None \<Rightarrow> (fence, Inl (ActionError ''The exact action approval is no longer active.''))
     | Some a \<Rightarrow>
        if pa_status a \<noteq> AExecuting \<or> pa_expires_at a \<le> now
        then (fence, Inl (ActionError ''The exact action approval is no longer active.''))
        else (case and_then (verify_confirmation_token ops a supplied) (\<lambda>_. and_then (validate_bound_source db a) (\<lambda>_.
                require_write_actor db tenant user)) of
           Inl e \<Rightarrow> (fence, Inl e)
         | Inr _ \<Rightarrow> (case assert_current_job_lease db now fence of
             (fence', Inl _) \<Rightarrow> (fence', Inl ActionLeaseLost)
           | (fence', Inr _) \<Rightarrow> (fence', and_then (current_authorization ops db a) (\<lambda>revision.
               if pa_revision a = Some revision then Inr a
               else Inl (ActionError ''Connector authorization changed; review a fresh preview.''))))))"

definition effect_of :: "pending_action \<Rightarrow> effect" where
  "effect_of a = \<lparr> ef_connection = (case pa_connection_id a of None \<Rightarrow> [] | Some i \<Rightarrow> i), ef_tool = pa_tool a,
     ef_input = pa_input a, ef_key = pa_key a \<rparr>"

text \<open>The connector call: authorised, credentials acquired, the approval checked once more at a later clock reading,
  the tool authorised again with unchanged credentials, and only then dispatched. The result carries the effect that left the application, if one did.\<close>

definition connector_write ::
  "action_ops \<Rightarrow> 'a agent_db_scheme \<Rightarrow> time \<Rightarrow> job_fence option \<Rightarrow> ident \<Rightarrow> ident \<Rightarrow> ident \<Rightarrow> string \<Rightarrow> pending_action \<Rightarrow>
   job_fence option \<times> effect option \<times> (action_error + pyval)" where
  "connector_write ops db now fence i tenant user supplied a =
    (case authorize_mcp_tool db tenant (ef_connection (effect_of a)) (pa_tool a) True of
       Inl msg \<Rightarrow> (fence, None, Inl (ActionError msg))
     | Inr c \<Rightarrow>
        (case ao_acquire ops c of
           Inl msg \<Rightarrow> (fence, None, Inl (ActionError msg))
         | Inr token \<Rightarrow> (case before_dispatch ops db now fence i tenant user supplied of
             (fence', Inl e) \<Rightarrow> (fence', None, Inl e)
           | (fence', Inr b) \<Rightarrow> (case authorize_mcp_tool db tenant (ef_connection (effect_of a)) (pa_tool a) True of
               Inl msg \<Rightarrow> (fence', None, Inl (ActionError msg))
             | Inr c' \<Rightarrow>
                 if mc_provider c' \<noteq> mc_provider c \<or> mc_encrypted_credentials c' \<noteq> mc_encrypted_credentials c
                 then (fence', None, Inl (ActionError ''Connector authorization changed; review a fresh preview.''))
                 else (fence', Some (effect_of b),
                   ao_connector ops c' token (effect_of b))))))"

definition finish_action ::
  "time \<Rightarrow> ident \<Rightarrow> pending_action \<Rightarrow> 'a agent_db_scheme \<Rightarrow> action_error + pyval \<Rightarrow> 'a agent_db_scheme decide_outcome" where
  "finish_action now i a db res = (case res of
     Inl (ActionError msg) \<Rightarrow> DecideRaise (ActionError msg)
       (add_event (action_event a ''failed'' (Some ''connector_write_failed''))
         (set_action i (\<lambda>x. x\<lparr>pa_status := AFailed, pa_result := Some (PDict [(''error'', PStr msg)]), pa_executed_at := Some now\<rparr>) db))
   | Inl e \<Rightarrow> DecideRaise e db
   | Inr v \<Rightarrow> DecideReturn (a\<lparr>pa_status := ASucceeded, pa_result := Some v, pa_executed_at := Some now\<rparr>)
       (add_event (action_event a ''succeeded'' None)
         (set_action i (\<lambda>x. x\<lparr>pa_status := ASucceeded, pa_result := Some v, pa_executed_at := Some now\<rparr>) db)))"

text \<open>The second transaction, from the commit of the confirmation to the recorded result.\<close>

definition dispatch_action ::
  "action_ops \<Rightarrow> 'a agent_db_scheme \<Rightarrow> time \<Rightarrow> time \<Rightarrow> time \<Rightarrow> job_fence option \<Rightarrow> ident \<Rightarrow> ident \<Rightarrow> ident \<Rightarrow> string \<Rightarrow>
   job_fence option \<times> effect option \<times> 'a agent_db_scheme decide_outcome" where
  "dispatch_action ops db now1 now2 now3 fence i tenant user supplied =
    (case find_action db i tenant user of
       None \<Rightarrow> (fence, None, DecideRaise (ActionError ''The exact action approval is no longer active.'') db)
     | Some a \<Rightarrow>
        if pa_connection_id a \<in> {None, Some []}
        then (fence, None, finish_action now3 i a db (Inl (ActionError ''The connector action has no active connection.'')))
        else (case before_dispatch ops db now1 fence i tenant user supplied of
           (f1, Inl e) \<Rightarrow> (f1, None, finish_action now3 i a db (Inl e))
         | (f1, Inr b) \<Rightarrow> (case connector_write ops db now2 f1 i tenant user supplied b of
             (f2, sent, res) \<Rightarrow> (f2, sent, finish_action now3 i a db res))))"

end
