(* ===== verification/Connectors.thy ===== *)
theory Connectors
  imports AgentExecution Encoding AuthRoutes
begin

text \<open>
  The connector executor (\<^verbatim>\<open>app/services/connector_executor.py\<close>): the tools of the six providers as programs
  over a trace of HTTP requests, and the credentials of Home Assistant (\<^verbatim>\<open>app/services/home_assistant.py\<close>).

  Parameters (\<open>conn_ops\<close>): the network, which answers a request given the requests before it; JSON reading and
  writing; Python's \<^verbatim>\<open>str\<close> of other values, \<^verbatim>\<open>str.casefold\<close>, UTF-8 decoding with replacement, lenient base64
  of a text part (\<open>None\<close> is a \<^verbatim>\<open>ValueError\<close>), text redaction, the bytes of an e-mail with given headers and
  body (\<open>None\<close> when a header is refused), \<^verbatim>\<open>urlsplit\<close> and the recognition of IP addresses.
\<close>

section \<open>Requests\<close>

datatype verb = GetReq | PostReq

record upload =
  up_metadata :: string
  up_name :: string
  up_content :: string
  up_mime :: string

record http_call =
  hc_verb :: verb
  hc_url :: string
  hc_token :: string
  hc_params :: "(string \<times> string) list"
  hc_json :: "pyval option"
  hc_files :: "upload option"

text \<open>\<open>Broken\<close> is an \<^verbatim>\<open>httpx.HTTPError\<close>; a reply is its status and its whole body.\<close>

datatype reply = Broken | Reply int "byte list"

record conn_ops =
  cn_send :: "http_call list \<Rightarrow> http_call \<Rightarrow> reply"
  cn_loads :: "byte list \<Rightarrow> pyval option"
  cn_dumps :: "pyval \<Rightarrow> string"
  cn_str :: "pyval \<Rightarrow> string"
  cn_casefold :: "string \<Rightarrow> string"
  cn_text :: "byte list \<Rightarrow> string"
  cn_part :: "string \<Rightarrow> string option"
  cn_redact :: "string \<Rightarrow> string"
  cn_mail :: "string \<Rightarrow> string \<Rightarrow> string \<Rightarrow> string \<Rightarrow> byte list option"

text \<open>\<open>ConnError\<close> is a \<^verbatim>\<open>ConnectorExecutionError\<close>; the other exceptions are not caught by the executor.\<close>

datatype conn_error = ConnError string | ConnTypeError | ConnValueError

text \<open>A program reads the requests made so far and adds its own.\<close>

type_synonym 'a io = "http_call list \<Rightarrow> http_call list \<times> (conn_error + 'a)"

definition ret :: "'a \<Rightarrow> 'a io" where
  "ret x h = (h, Inr x)"

definition fail :: "string \<Rightarrow> 'a io" where
  "fail msg h = (h, Inl (ConnError msg))"

definition pure :: "conn_error + 'a \<Rightarrow> 'a io" where
  "pure r h = (h, r)"

definition bind_io :: "'a io \<Rightarrow> ('a \<Rightarrow> 'b io) \<Rightarrow> 'b io" where
  "bind_io m k h = (case m h of (h', Inl e) \<Rightarrow> (h', Inl e) | (h', Inr x) \<Rightarrow> k x h')"

definition request :: "conn_ops \<Rightarrow> http_call \<Rightarrow> byte list io" where
  "request ops q h = (h @ [q], (case cn_send ops h q of
     Broken \<Rightarrow> Inl (ConnError ''The connector is temporarily unavailable.'')
   | Reply status content \<Rightarrow>
       if 1048576 < length content then Inl (ConnError ''The connector response exceeded its safe limit.'')
       else if status \<in> {401, 403} then Inl (ConnError ''The connector authorization is no longer valid.'')
       else if status = 429 then Inl (ConnError ''The connector is temporarily rate limited.'')
       else if 500 \<le> status then Inl (ConnError ''The connector is temporarily unavailable.'')
       else if status < 200 \<or> 300 \<le> status then Inl (ConnError ''The connector rejected the requested operation.'')
       else Inr content))"

definition json_value :: "conn_ops \<Rightarrow> http_call \<Rightarrow> pyval io" where
  "json_value ops q = bind_io (request ops q) (\<lambda>raw. pure (case cn_loads ops raw of
     None \<Rightarrow> Inl (ConnError ''The connector returned invalid data.'') | Some v \<Rightarrow> Inr v))"

definition json_dict :: "conn_ops \<Rightarrow> http_call \<Rightarrow> (string \<times> pyval) list io" where
  "json_dict ops q = bind_io (request ops q) (\<lambda>raw. pure (case cn_loads ops raw of
     Some (PDict d) \<Rightarrow> Inr d | _ \<Rightarrow> Inl (ConnError ''The connector returned invalid data.'')))"

definition get_call :: "string \<Rightarrow> string \<Rightarrow> (string \<times> string) list \<Rightarrow> http_call" where
  "get_call token u params = \<lparr> hc_verb = GetReq, hc_url = u, hc_token = token, hc_params = params, hc_json = None, hc_files = None \<rparr>"

definition post_call :: "string \<Rightarrow> string \<Rightarrow> (string \<times> string) list \<Rightarrow> pyval \<Rightarrow> http_call" where
  "post_call token u params body =
    \<lparr> hc_verb = PostReq, hc_url = u, hc_token = token, hc_params = params, hc_json = Some body, hc_files = None \<rparr>"

section \<open>Text\<close>

text \<open>\<^verbatim>\<open>urllib.parse.quote\<close>: the unreserved characters and those of \<open>safe\<close> stay, the others become the percent
  escapes of their UTF-8 bytes.\<close>

definition hex_upper :: "nat \<Rightarrow> char" where
  "hex_upper n = (if n < 10 then char_of (48 + n) else char_of (55 + n))"

definition quote_char :: "string \<Rightarrow> char \<Rightarrow> string" where
  "quote_char safe c = (if is_alnum c \<or> c \<in> set ''_.-~'' \<or> c \<in> set safe then [c]
     else concat (map (\<lambda>b. [CHR ''%'', hex_upper (unat b div 16), hex_upper (unat b mod 16)]) (utf8_char (code c))))"

definition quote :: "string \<Rightarrow> string \<Rightarrow> string" where
  "quote safe s = concat (map (quote_char safe) s)"

definition remove_prefix :: "string \<Rightarrow> string \<Rightarrow> string" where
  "remove_prefix p s = (if starts_with s p then drop (length p) s else s)"

text \<open>The resources of a kind, in order: \<^verbatim>\<open>sorted(...)\<close> of the suffixes of a set.\<close>

definition resources_of :: "string \<Rightarrow> string list \<Rightarrow> string list" where
  "resources_of p resources = sort (map (drop (length p)) (filter (\<lambda>r. starts_with r p) (remdups resources)))"

definition string_arg :: "(string \<times> pyval) list \<Rightarrow> string \<Rightarrow> nat \<Rightarrow> conn_error + string" where
  "string_arg values key maximum = (case dict_get values key of
     PStr s \<Rightarrow> if strip s = [] \<or> maximum < length (strip s)
       then Inl (ConnError (''Connector input '' @ key @ '' is missing or invalid.'')) else Inr (strip s)
   | _ \<Rightarrow> Inl (ConnError (''Connector input '' @ key @ '' is missing or invalid.'')))"

definition require_resource :: "string list \<Rightarrow> string \<Rightarrow> conn_error + unit" where
  "require_resource resources expected = (if expected \<in> set resources then Inr ()
     else Inl (ConnError ''The requested resource is outside the tenant allowlist.''))"

definition str_of :: "conn_ops \<Rightarrow> pyval \<Rightarrow> string" where
  "str_of ops v = (case v of PStr s \<Rightarrow> s | _ \<Rightarrow> cn_str ops v)"

definition get_default :: "(string \<times> pyval) list \<Rightarrow> string \<Rightarrow> pyval \<Rightarrow> pyval" where
  "get_default d k v = (case map_of d k of None \<Rightarrow> v | Some x \<Rightarrow> x)"

text \<open>What a \<^verbatim>\<open>for\<close> loop over a value visits; \<open>None\<close> is a \<^verbatim>\<open>TypeError\<close>.\<close>

definition items_of :: "pyval \<Rightarrow> pyval list option" where
  "items_of v = (case v of PList xs \<Rightarrow> Some xs | PStr s \<Rightarrow> Some (map (\<lambda>c. PStr [c]) s)
     | PDict d \<Rightarrow> Some (map (\<lambda>kv. PStr (fst kv)) d) | _ \<Rightarrow> None)"

definition dict_or_empty :: "pyval \<Rightarrow> (string \<times> pyval) list" where
  "dict_or_empty v = (case v of PDict d \<Rightarrow> d | _ \<Rightarrow> [])"

definition list_or_empty :: "pyval \<Rightarrow> pyval list" where
  "list_or_empty v = (case v of PList xs \<Rightarrow> xs | _ \<Rightarrow> [])"

definition bounded_optional :: "nat \<Rightarrow> pyval \<Rightarrow> pyval" where
  "bounded_optional n v = (case v of PStr s \<Rightarrow> PStr (take n s) | _ \<Rightarrow> PNone)"

fun map_io :: "('a \<Rightarrow> 'b io) \<Rightarrow> 'a list \<Rightarrow> 'b list io" where
  "map_io f [] = ret []"
| "map_io f (x # xs) = bind_io (f x) (\<lambda>y. bind_io (map_io f xs) (\<lambda>ys. ret (y # ys)))"

section \<open>Home Assistant\<close>

definition lower_digit :: "char \<Rightarrow> bool" where
  "lower_digit c = (is_lower c \<or> is_digit c \<or> c = CHR ''_'')"

definition ha_identifier :: "string \<Rightarrow> bool" where
  "ha_identifier v = (case split_on CHR ''.'' v of
     [a, b] \<Rightarrow> a \<noteq> [] \<and> is_lower (hd a) \<and> list_all lower_digit a \<and> b \<noteq> [] \<and> list_all lower_digit b
   | _ \<Rightarrow> False)"

definition ha_identifier_arg :: "(string \<times> pyval) list \<Rightarrow> string \<Rightarrow> string \<Rightarrow> conn_error + string" where
  "ha_identifier_arg values key label = and_then (string_arg values key 200) (\<lambda>v.
     if ha_identifier v then Inr v else Inl (ConnError (''Home Assistant '' @ label @ '' is invalid.'')))"

definition ha_state :: "(string \<times> pyval) list \<Rightarrow> conn_error + pyval" where
  "ha_state payload = (case (dict_get payload ''entity_id'', dict_get payload ''state'') of
     (PStr e, PStr st) \<Rightarrow> Inr (PDict [(''entity_id'', PStr (take 200 e)), (''state'', PStr (take 500 st)),
        (''friendly_name'', (case dict_get (dict_or_empty (dict_get payload ''attributes'')) ''friendly_name'' of
            PStr f \<Rightarrow> if f = [] then PNone else PStr (take 200 f) | _ \<Rightarrow> PNone)),
        (''last_changed'', bounded_optional 80 (dict_get payload ''last_changed'')),
        (''last_updated'', bounded_optional 80 (dict_get payload ''last_updated''))])
   | _ \<Rightarrow> Inl (ConnError ''Home Assistant returned invalid entity data.''))"

definition ha_get_state :: "conn_ops \<Rightarrow> string \<Rightarrow> string \<Rightarrow> string \<Rightarrow> pyval io" where
  "ha_get_state ops token base e =
    bind_io (json_dict ops (get_call token (base @ ''/api/states/'' @ quote [] e) [])) (\<lambda>payload. pure (ha_state payload))"

fun available_services :: "pyval list \<Rightarrow> string list" where
  "available_services [] = []"
| "available_services (g # gs) = (case g of
     PDict d \<Rightarrow> (case (dict_get d ''domain'', dict_get d ''services'') of
        (PStr domain, PDict services) \<Rightarrow> map (\<lambda>kv. domain @ ''.'' @ fst kv) (take 200 services)
      | _ \<Rightarrow> [])
   | _ \<Rightarrow> []) @ available_services gs"

definition service_key :: "string \<Rightarrow> bool" where
  "service_key k = (k \<noteq> [] \<and> is_lower (hd k) \<and> length k \<le> 80 \<and> list_all lower_digit k)"

definition service_field_ok :: "conn_ops \<Rightarrow> string \<times> pyval \<Rightarrow> bool" where
  "service_field_ok ops kv = (fst kv \<noteq> ''entity_id'' \<and> service_key (fst kv)
     \<and> (case snd kv of PDict _ \<Rightarrow> False | PList _ \<Rightarrow> False | v \<Rightarrow> length (str_of ops v) \<le> 500))"

definition service_data :: "conn_ops \<Rightarrow> (string \<times> pyval) list \<Rightarrow> string \<Rightarrow> conn_error + pyval" where
  "service_data ops values e = (case get_default values ''data'' (PDict []) of
     PDict d \<Rightarrow> if 50 < length d \<or> \<not> list_all (service_field_ok ops) d
       then Inl (ConnError ''Home Assistant service data is invalid.'')
       else Inr (PDict ((''entity_id'', PStr e) # d))
   | _ \<Rightarrow> Inl (ConnError ''Home Assistant service data is invalid.''))"

definition home_assistant ::
  "conn_ops \<Rightarrow> string \<Rightarrow> string \<Rightarrow> string list \<Rightarrow> string \<Rightarrow> (string \<times> pyval) list \<Rightarrow> pyval io" where
  "home_assistant ops token base resources tool values =
    (if tool = ''list_entities'' then
       (let everything = resources_of ''home_assistant:entity:'' resources; approved = take 100 everything in
        bind_io (map_io (ha_get_state ops token base) approved) (\<lambda>entities.
          ret (PDict [(''entities'', PList entities), (''count'', PInt (int (length entities))),
            (''truncated'', PBool (length approved < length everything)), (''untrusted_content'', PBool True)])))
     else if tool = ''get_state'' then
       bind_io (pure (ha_identifier_arg values ''entity_id'' ''entity'')) (\<lambda>e.
       bind_io (pure (require_resource resources (''home_assistant:entity:'' @ e))) (\<lambda>_.
       bind_io (ha_get_state ops token base e) (\<lambda>st. ret (PDict [(''entity'', st), (''untrusted_content'', PBool True)]))))
     else if tool = ''list_services'' then
       bind_io (json_value ops (get_call token (base @ ''/api/services'') [])) (\<lambda>raw.
         case raw of PList groups \<Rightarrow>
           (let approved = filter (\<lambda>s. s \<in> set (available_services (take 200 groups)))
              (resources_of ''home_assistant:service:'' resources) in
            ret (PDict [(''services'', PList (map PStr (take 200 approved))), (''count'', PInt (int (min (length approved) 200))),
              (''truncated'', PBool (200 < length approved))]))
         | _ \<Rightarrow> fail ''Home Assistant returned invalid service data.'')
     else if tool = ''call_service'' then
       bind_io (pure (ha_identifier_arg values ''service'' ''service'')) (\<lambda>service.
       bind_io (pure (ha_identifier_arg values ''entity_id'' ''entity'')) (\<lambda>e.
       bind_io (pure (require_resource resources (''home_assistant:service:'' @ service))) (\<lambda>_.
       bind_io (pure (require_resource resources (''home_assistant:entity:'' @ e))) (\<lambda>_.
       bind_io (pure (service_data ops values e)) (\<lambda>data.
       bind_io (json_value ops (post_call token (base @ ''/api/services/'' @ quote [] (hd (split_on CHR ''.'' service)) @ ''/''
           @ quote [] (last (split_on CHR ''.'' service))) [] data)) (\<lambda>result.
         ret (PDict [(''called'', PBool True), (''service'', PStr service), (''entity_id'', PStr e),
           (''result_count'', PInt (int (length (list_or_empty result))))])))))))
     else fail ''This Home Assistant tool is not supported.'')"

section \<open>Google Drive\<close>

definition google_apis :: string where
  "google_apis = ''https://www.googleapis.com''"

definition drive_file_url :: "string \<Rightarrow> string" where
  "drive_file_url i = google_apis @ ''/drive/v3/files/'' @ quote [] i"

definition drive_fields :: "(string \<times> string) list" where
  "drive_fields = [(''fields'', ''id,name,mimeType,modifiedTime,size,trashed'')]"

definition drive_row :: "conn_ops \<Rightarrow> (string \<times> pyval) list \<Rightarrow> pyval" where
  "drive_row ops payload = PDict [(''id'', PStr (take 200 (str_of ops (get_default payload ''id'' (PStr []))))),
     (''name'', PStr (take 500 (str_of ops (get_default payload ''name'' (PStr []))))),
     (''mime_type'', PStr (take 160 (str_of ops (get_default payload ''mimeType'' (PStr []))))),
     (''modified_at'', dict_get payload ''modifiedTime''), (''size'', dict_get payload ''size'')]"

text \<open>\<^verbatim>\<open>needle in haystack\<close>.\<close>

fun contains :: "string \<Rightarrow> string \<Rightarrow> bool" where
  "contains needle [] = (needle = [])"
| "contains needle (c # s) = (starts_with (c # s) needle \<or> contains needle s)"

text \<open>The file identifiers still to look at, and the rows found, which stop the search at twenty.\<close>

fun drive_search :: "conn_ops \<Rightarrow> string \<Rightarrow> string \<Rightarrow> string list \<Rightarrow> pyval list \<Rightarrow> pyval list io" where
  "drive_search ops token query [] rows = ret rows"
| "drive_search ops token query (i # ids) rows =
    bind_io (json_dict ops (get_call token (drive_file_url i) drive_fields)) (\<lambda>payload.
      if dict_get payload ''trashed'' = PBool True then drive_search ops token query ids rows
      else let rows' = (if contains query (cn_casefold ops (str_of ops (get_default payload ''name'' (PStr []))))
             then rows @ [drive_row ops payload] else rows)
           in if 20 \<le> length rows' then ret rows' else drive_search ops token query ids rows')"

definition drive_read :: "conn_ops \<Rightarrow> string \<Rightarrow> string list \<Rightarrow> (string \<times> pyval) list \<Rightarrow> pyval io" where
  "drive_read ops token resources values =
    bind_io (pure (string_arg values ''file_id'' 200)) (\<lambda>i.
    bind_io (pure (require_resource resources (''drive:file:'' @ i))) (\<lambda>_.
    bind_io (json_dict ops (get_call token (drive_file_url i) drive_fields)) (\<lambda>metadata.
      let mime = str_of ops (get_default metadata ''mimeType'' (PStr [])) in
      bind_io (request ops (if starts_with mime ''application/vnd.google-apps.''
           then get_call token (drive_file_url i @ ''/export'') [(''mimeType'', ''text/plain'')]
           else get_call token (drive_file_url i) [(''alt'', ''media'')])) (\<lambda>content.
        ret (PDict [(''file'', PDict [(''id'', PStr i), (''name'', PStr (take 500 (str_of ops (get_default metadata ''name'' (PStr []))))),
            (''mime_type'', PStr (take 160 mime)), (''modified_at'', dict_get metadata ''modifiedTime''),
            (''text'', PStr (take 20000 (cn_text ops content)))]),
          (''untrusted_content'', PBool True)])))))"

definition drive_marker_query :: "string \<Rightarrow> string" where
  "drive_marker_query marker = ''appProperties has { key='' @ [CHR 0x27] @ ''bumpa_action'' @ [CHR 0x27] @ '' and value='' @ [CHR 0x27] @ marker
     @ [CHR 0x27] @ '' } and trashed=false''"

definition drive_create ::
  "conn_ops \<Rightarrow> string \<Rightarrow> string list \<Rightarrow> (string \<times> pyval) list \<Rightarrow> string option \<Rightarrow> pyval io" where
  "drive_create ops token resources values key =
    bind_io (pure (string_arg values ''folder_id'' 200)) (\<lambda>folder.
    bind_io (pure (require_resource resources (''drive:folder:'' @ folder))) (\<lambda>_.
    bind_io (pure (string_arg values ''name'' 240)) (\<lambda>name.
    bind_io (pure (string_arg values ''content'' 100000)) (\<lambda>content.
      let mime = take 160 (str_of ops (if truthy (dict_get values ''mime_type'') then dict_get values ''mime_type'' else PStr ''text/plain''));
          marker = take 120 (case key of None \<Rightarrow> [] | Some k \<Rightarrow> k) in
      bind_io (json_dict ops (get_call token (google_apis @ ''/drive/v3/files'') [(''q'', drive_marker_query marker),
          (''fields'', ''files(id,name,mimeType)''), (''pageSize'', ''2'')])) (\<lambda>existing.
        case dict_get existing ''files'' of
          PList (f # fs) \<Rightarrow> ret (PDict [(''created'', PBool False), (''idempotent_replay'', PBool True), (''file'', f)])
        | _ \<Rightarrow> bind_io (json_dict ops \<lparr> hc_verb = PostReq, hc_url = google_apis @ ''/upload/drive/v3/files'', hc_token = token,
              hc_params = [(''uploadType'', ''multipart''), (''fields'', ''id,name,mimeType,webViewLink'')], hc_json = None,
              hc_files = Some \<lparr> up_metadata = cn_dumps ops (PDict [(''name'', PStr name), (''parents'', PList [PStr folder]),
                  (''appProperties'', PDict [(''bumpa_action'', PStr marker)])]),
                up_name = name, up_content = content, up_mime = mime \<rparr> \<rparr>) (\<lambda>response.
            ret (PDict [(''created'', PBool True), (''file'', PDict response)])))))))"

definition drive ::
  "conn_ops \<Rightarrow> string \<Rightarrow> string list \<Rightarrow> string \<Rightarrow> (string \<times> pyval) list \<Rightarrow> string option \<Rightarrow> pyval io" where
  "drive ops token resources tool values key =
    (if tool = ''search_files'' then
       bind_io (pure (string_arg values ''query'' 200)) (\<lambda>query.
       bind_io (drive_search ops token (cn_casefold ops query) (resources_of ''drive:file:'' resources) []) (\<lambda>rows.
         ret (PDict [(''files'', PList rows), (''count'', PInt (int (length rows))), (''coverage_warning'', PNone)])))
     else if tool = ''read_file'' then drive_read ops token resources values
     else if tool = ''create_file'' then drive_create ops token resources values key
     else fail ''This Google Drive tool is not supported.'')"

section \<open>Google Sheets\<close>

definition sheets_url :: "string \<Rightarrow> string \<Rightarrow> string" where
  "sheets_url i cells = ''https://sheets.googleapis.com/v4/spreadsheets/'' @ quote [] i @ ''/values/'' @ quote ''!:$'' cells"

definition cell_text :: "conn_ops \<Rightarrow> pyval \<Rightarrow> pyval" where
  "cell_text ops v = PStr (take 1000 (str_of ops v))"

definition bounded_rows :: "conn_ops \<Rightarrow> pyval list \<Rightarrow> pyval list" where
  "bounded_rows ops rows = List.map_filter (\<lambda>row. case row of
     PList cells \<Rightarrow> Some (PList (map (cell_text ops) (take 50 cells))) | _ \<Rightarrow> None) (take 200 rows)"

definition rows_ok :: "pyval \<Rightarrow> bool" where
  "rows_ok v = (case v of
     PList rows \<Rightarrow> rows \<noteq> [] \<and> length rows \<le> 100
       \<and> list_all (\<lambda>row. case row of PList cells \<Rightarrow> length cells \<le> 50 | _ \<Rightarrow> False) rows
   | _ \<Rightarrow> False)"

definition sheets :: "conn_ops \<Rightarrow> string \<Rightarrow> string list \<Rightarrow> string \<Rightarrow> (string \<times> pyval) list \<Rightarrow> pyval io" where
  "sheets ops token resources tool values =
    bind_io (pure (string_arg values ''spreadsheet_id'' 200)) (\<lambda>i.
    bind_io (pure (require_resource resources (''sheets:spreadsheet:'' @ i))) (\<lambda>_.
    bind_io (pure (string_arg values ''range'' 300)) (\<lambda>cells.
      if tool = ''read_sheet'' then
        bind_io (json_dict ops (get_call token (sheets_url i cells) [])) (\<lambda>response.
          let rows = dict_get response ''values''; bounded = bounded_rows ops (list_or_empty rows) in
          ret (PDict [(''spreadsheet_id'', PStr i),
            (''range'', if truthy (dict_get response ''range'') then dict_get response ''range'' else PStr cells),
            (''rows'', PList bounded), (''truncated'', PBool (length bounded < length (list_or_empty rows))),
            (''untrusted_content'', PBool True)]))
      else if tool = ''append_rows'' then
        (if \<not> rows_ok (dict_get values ''rows'') then fail ''Spreadsheet rows are missing or exceed safe limits.''
         else bind_io (json_dict ops (post_call token (sheets_url i cells @ '':append'')
             [(''valueInputOption'', ''USER_ENTERED''), (''insertDataOption'', ''INSERT_ROWS'')]
             (PDict [(''majorDimension'', PStr ''ROWS''),
                (''values'', PList (map (\<lambda>row. PList (map (cell_text ops) (list_or_empty row))) (list_or_empty (dict_get values ''rows''))))])))
           (\<lambda>response. let updates = dict_or_empty (dict_get response ''updates'') in
             ret (PDict [(''updated_range'', dict_get updates ''updatedRange''), (''updated_rows'', dict_get updates ''updatedRows''),
               (''updated_cells'', dict_get updates ''updatedCells'')])))
      else fail ''This Google Sheets tool is not supported.'')))"

section \<open>Gmail\<close>

definition gmail_messages :: string where
  "gmail_messages = ''https://gmail.googleapis.com/gmail/v1/users/me/messages''"

text \<open>One label's answer: rows are taken until twenty messages are held; the check comes after each new one.\<close>

fun take_messages :: "string \<Rightarrow> pyval list \<Rightarrow> (string \<times> pyval) list \<Rightarrow> (string \<times> pyval) list" where
  "take_messages label [] found = found"
| "take_messages label (row # rows) found = (case row of
     PDict d \<Rightarrow> (case dict_get d ''id'' of
        PStr i \<Rightarrow> if i \<in> fst ` set found then take_messages label rows found
          else let found' = found @ [(i, PDict [(''id'', PStr i), (''thread_id'', dict_get d ''threadId''), (''label'', PStr label)])]
               in if 20 \<le> length found' then found' else take_messages label rows found'
      | _ \<Rightarrow> take_messages label rows found)
   | _ \<Rightarrow> take_messages label rows found)"

fun gmail_search :: "conn_ops \<Rightarrow> string \<Rightarrow> string \<Rightarrow> string list \<Rightarrow> (string \<times> pyval) list \<Rightarrow> (string \<times> pyval) list io" where
  "gmail_search ops token query [] found = ret found"
| "gmail_search ops token query (label # labels) found =
    bind_io (json_dict ops (get_call token gmail_messages [(''q'', query), (''labelIds'', label), (''maxResults'', ''10'')])) (\<lambda>response.
      case items_of (get_default response ''messages'' (PList [])) of
        None \<Rightarrow> pure (Inl ConnTypeError)
      | Some rows \<Rightarrow> gmail_search ops token query labels (take_messages label rows found))"

fun is_dict :: "pyval \<Rightarrow> bool" where
  "is_dict (PDict _) = True"
| "is_dict _ = False"

lemma size_dict_get:
  assumes "v \<in> set (list_or_empty (dict_get d k))"
  shows "size v < Suc (size_list (size_prod (\<lambda>_. 0) size) d)"
proof -
  obtain xs where xs: "map_of d k = Some (PList xs)" "v \<in> set xs"
    using assms by (auto simp: dict_get_def list_or_empty_def split: option.splits pyval.splits)
  have "size v \<le> size (PList xs)" using size_list_estimation'[OF xs(2), of "size v" size] by simp
  moreover have "size (PList xs) \<le> size_list (size_prod (\<lambda>_. 0) size) d"
    using size_list_estimation'[OF map_of_SomeD[OF xs(1)], of "size (PList xs)" "size_prod (\<lambda>_. 0) size"] by simp
  ultimately show ?thesis by simp
qed

text \<open>The text of a MIME part: its own when plain, else that of its parts, one per line.\<close>

function (sequential) gmail_text :: "conn_ops \<Rightarrow> pyval \<Rightarrow> string" where
  "gmail_text ops (PDict payload) = (case (dict_get payload ''mimeType'', dict_get (dict_or_empty (dict_get payload ''body'')) ''data'') of
     (PStr mime, PStr data) \<Rightarrow>
       if mime = ''text/plain'' then (case cn_part ops data of None \<Rightarrow> [] | Some t \<Rightarrow> t)
       else join_on (CHR 0x0A) (map (\<lambda>part. gmail_text ops part) (filter (\<lambda>part. is_dict part) (list_or_empty (dict_get payload ''parts''))))
   | _ \<Rightarrow> join_on (CHR 0x0A) (map (\<lambda>part. gmail_text ops part) (filter (\<lambda>part. is_dict part) (list_or_empty (dict_get payload ''parts'')))))"
| "gmail_text ops _ = []"
  by pat_completeness auto
termination
  by (relation "measure (\<lambda>(ops, v). size v)") (auto intro: size_dict_get)

text \<open>\<^verbatim>\<open>str.lower\<close> on code points below 256.\<close>

definition latin_lower :: "string \<Rightarrow> string" where
  "latin_lower s = map (\<lambda>c. if is_upper c \<or> 192 \<le> code c \<and> code c \<le> 222 \<and> code c \<noteq> 215 then char_of (code c + 32) else c) s"

definition gmail_labels :: "string list \<Rightarrow> string list" where
  "gmail_labels resources = resources_of ''gmail:label:'' resources"

text \<open>The headers as a dictionary: a later header of the same name wins.\<close>

definition mail_headers :: "conn_ops \<Rightarrow> pyval list \<Rightarrow> (string \<times> string) list" where
  "mail_headers ops items = rev (List.map_filter (\<lambda>item. case item of
     PDict d \<Rightarrow> Some (latin_lower (str_of ops (get_default d ''name'' (PStr []))), str_of ops (get_default d ''value'' (PStr [])))
   | _ \<Rightarrow> None) items)"

definition header_of :: "(string \<times> string) list \<Rightarrow> string \<Rightarrow> string" where
  "header_of hs k = (case map_of hs k of None \<Rightarrow> [] | Some v \<Rightarrow> v)"

definition mail_view :: "conn_ops \<Rightarrow> string list \<Rightarrow> string \<Rightarrow> (string \<times> pyval) list \<Rightarrow> conn_error + pyval" where
  "mail_view ops resources i response = (case items_of (get_default response ''labelIds'' (PList [])) of
     None \<Rightarrow> Inl ConnTypeError
   | Some ls \<Rightarrow>
      if list_all (\<lambda>l. str_of ops l \<notin> set (gmail_labels resources)) ls
      then Inl (ConnError ''The Gmail message is outside the tenant allowlist.'')
      else let payload = dict_or_empty (dict_get response ''payload'') in
       (case items_of (get_default payload ''headers'' (PList [])) of
          None \<Rightarrow> Inl ConnTypeError
        | Some items \<Rightarrow> let hs = mail_headers ops items in
           Inr (PDict [(''message'', PDict [(''id'', PStr i), (''thread_id'', dict_get response ''threadId''),
               (''subject'', PStr (take 500 (cn_redact ops (header_of hs ''subject'')))),
               (''from'', PStr (take 500 (cn_redact ops (header_of hs ''from'')))),
               (''date'', PStr (take 200 (header_of hs ''date''))),
               (''body'', PStr (take 20000 (cn_redact ops (gmail_text ops (PDict payload)))))]),
             (''untrusted_content'', PBool True)])))"

definition recipient_domain :: "string \<Rightarrow> string" where
  "recipient_domain recipient = (if CHR ''@'' \<in> set recipient then latin_lower (last (split_on (CHR ''@'') recipient)) else [])"

definition message_id :: "string option \<Rightarrow> string" where
  "message_id key = ''<'' @ (case key of None \<Rightarrow> ''None'' | Some k \<Rightarrow> k) @ ''@actions.bumpabestie.internal>''"

definition strip_padding :: "string \<Rightarrow> string" where
  "strip_padding s = rev (dropWhile (\<lambda>c. c = CHR ''='') (rev s))"

definition gmail_send ::
  "conn_ops \<Rightarrow> string \<Rightarrow> string list \<Rightarrow> (string \<times> pyval) list \<Rightarrow> string option \<Rightarrow> pyval io" where
  "gmail_send ops token resources values key =
    bind_io (pure (string_arg values ''to'' 320)) (\<lambda>recipient.
    bind_io (pure (require_resource resources (''gmail:recipient-domain:'' @ recipient_domain recipient))) (\<lambda>_.
    bind_io (pure (string_arg values ''subject'' 500)) (\<lambda>subject.
    bind_io (pure (string_arg values ''body'' 50000)) (\<lambda>body.
      case cn_mail ops recipient subject (message_id key) body of
        None \<Rightarrow> pure (Inl ConnValueError)
      | Some bytes \<Rightarrow>
         bind_io (json_dict ops (post_call token (gmail_messages @ ''/send'') []
             (PDict [(''raw'', PStr (strip_padding (b64_encode bytes)))]))) (\<lambda>response.
           ret (PDict [(''sent'', PBool True), (''message_id'', dict_get response ''id''), (''thread_id'', dict_get response ''threadId'')]))))))"

definition gmail ::
  "conn_ops \<Rightarrow> string \<Rightarrow> string list \<Rightarrow> string \<Rightarrow> (string \<times> pyval) list \<Rightarrow> string option \<Rightarrow> pyval io" where
  "gmail ops token resources tool values key =
    (if tool = ''search_messages'' then
       (if gmail_labels resources = [] then fail ''No Gmail labels are allowlisted.''
        else bind_io (pure (string_arg values ''query'' 200)) (\<lambda>query.
          bind_io (gmail_search ops token query (gmail_labels resources) []) (\<lambda>found.
            ret (PDict [(''messages'', PList (map snd found)), (''count'', PInt (int (length found))), (''content_included'', PBool False)]))))
     else if tool = ''read_message'' then
       bind_io (pure (string_arg values ''message_id'' 200)) (\<lambda>i.
       bind_io (json_dict ops (get_call token (gmail_messages @ ''/'' @ quote [] i) [(''format'', ''full'')])) (\<lambda>response.
         pure (mail_view ops resources i response)))
     else if tool = ''send_message'' then gmail_send ops token resources values key
     else fail ''This Gmail tool is not supported.'')"

section \<open>Google Calendar\<close>

definition date_time_object :: "pyval \<Rightarrow> string \<Rightarrow> conn_error + pyval" where
  "date_time_object v label = (case v of
     PDict d \<Rightarrow> (case dict_get d ''dateTime'' of
        PStr t \<Rightarrow> Inr (PDict ((''dateTime'', PStr (take 50 t)) # (case dict_get d ''timeZone'' of
            PStr z \<Rightarrow> [(''timeZone'', PStr (take 80 z))] | _ \<Rightarrow> [])))
      | _ \<Rightarrow> (case dict_get d ''date'' of
          PStr x \<Rightarrow> Inr (PDict [(''date'', PStr (take 20 x))])
        | _ \<Rightarrow> Inl (ConnError (''Calendar '' @ label @ '' is invalid.''))))
   | _ \<Rightarrow> Inl (ConnError (''Calendar '' @ label @ '' is missing.'')))"

definition calendar_url :: "string \<Rightarrow> string" where
  "calendar_url i = google_apis @ ''/calendar/v3/calendars/'' @ quote [] i @ ''/events''"

definition event_view :: "conn_ops \<Rightarrow> pyval \<Rightarrow> pyval option" where
  "event_view ops item = (case item of
     PDict d \<Rightarrow> Some (PDict [(''id'', PStr (take 200 (str_of ops (get_default d ''id'' (PStr []))))),
        (''summary'', PStr (take 500 (str_of ops (get_default d ''summary'' (PStr []))))), (''start'', dict_get d ''start''),
        (''end'', dict_get d ''end''), (''status'', dict_get d ''status'')])
   | _ \<Rightarrow> None)"

definition event_id :: "string option \<Rightarrow> string" where
  "event_id key = take 64 (filter (\<lambda>c. 97 \<le> code c \<and> code c \<le> 118 \<or> is_digit c) (latin_lower (case key of None \<Rightarrow> [] | Some k \<Rightarrow> k)))"

definition calendar_create :: "conn_ops \<Rightarrow> string \<Rightarrow> string \<Rightarrow> (string \<times> pyval) list \<Rightarrow> string option \<Rightarrow> pyval io" where
  "calendar_create ops token i values key =
    bind_io (pure (string_arg values ''summary'' 500)) (\<lambda>summary.
    bind_io (pure (date_time_object (dict_get values ''start'') ''start'')) (\<lambda>start.
    bind_io (pure (date_time_object (dict_get values ''end'') ''end'')) (\<lambda>ending.
    bind_io (json_dict ops (post_call token (calendar_url i) []
        (PDict ([(''id'', PStr (event_id key)), (''summary'', PStr summary), (''start'', start), (''end'', ending)]
          @ (case dict_get values ''description'' of
               PStr t \<Rightarrow> if strip t = [] then [] else [(''description'', PStr (take 10000 (strip t)))]
             | _ \<Rightarrow> []))))) (\<lambda>response.
      ret (PDict [(''created'', PBool True), (''event_id'', dict_get response ''id''), (''html_link'', dict_get response ''htmlLink''),
        (''status'', dict_get response ''status'')])))))"

definition calendar ::
  "conn_ops \<Rightarrow> string \<Rightarrow> string list \<Rightarrow> string \<Rightarrow> (string \<times> pyval) list \<Rightarrow> string option \<Rightarrow> pyval io" where
  "calendar ops token resources tool values key =
    bind_io (pure (string_arg values ''calendar_id'' 200)) (\<lambda>i.
    bind_io (pure (require_resource resources (''calendar:calendar:'' @ i))) (\<lambda>_.
      if tool = ''list_events'' then
        bind_io (pure (string_arg values ''time_min'' 50)) (\<lambda>time_min.
        bind_io (pure (string_arg values ''time_max'' 50)) (\<lambda>time_max.
        bind_io (json_dict ops (get_call token (calendar_url i) [(''timeMin'', time_min), (''timeMax'', time_max),
            (''singleEvents'', ''true''), (''orderBy'', ''startTime''), (''maxResults'', ''50'')])) (\<lambda>response.
          ret (PDict [(''events'', PList (List.map_filter (event_view ops) (take 50 (list_or_empty (dict_get response ''items''))))),
            (''untrusted_content'', PBool True)]))))
      else if tool = ''create_event'' then calendar_create ops token i values key
      else fail ''This Google Calendar tool is not supported.''))"

section \<open>Meta Ads\<close>

definition meta_campaign_url :: "string \<Rightarrow> string \<Rightarrow> string" where
  "meta_campaign_url version i = ''https://graph.facebook.com/'' @ version @ ''/'' @ quote [] i"

definition same_account :: "string \<Rightarrow> string \<Rightarrow> bool" where
  "same_account account actual = (remove_prefix ''act_'' account = remove_prefix ''act_'' actual)"

definition meta_update :: "conn_ops \<Rightarrow> string \<Rightarrow> string \<Rightarrow> string \<Rightarrow> (string \<times> pyval) list \<Rightarrow> pyval io" where
  "meta_update ops version token account values =
    bind_io (pure (string_arg values ''campaign_id'' 80)) (\<lambda>campaign.
    bind_io (pure (string_arg values ''status'' 20)) (\<lambda>status.
      if upper status \<notin> {''ACTIVE'', ''PAUSED''} then fail ''Campaign status must be ACTIVE or PAUSED.''
      else bind_io (json_dict ops (get_call token (meta_campaign_url version campaign) [(''fields'', ''id,account_id,status'')])) (\<lambda>metadata.
        let actual = str_of ops (get_default metadata ''account_id'' (PStr [])) in
        if actual \<noteq> [] \<and> \<not> same_account account actual then fail ''The campaign is outside the allowlisted ad account.''
        else bind_io (json_dict ops (post_call token (meta_campaign_url version campaign) [] (PDict [(''status'', PStr (upper status))])))
          (\<lambda>response. ret (PDict [(''updated'', PBool (dict_get response ''success'' = PBool True)), (''campaign_id'', PStr campaign),
             (''status'', PStr (upper status))])))))"

definition meta_ads ::
  "conn_ops \<Rightarrow> string \<Rightarrow> string \<Rightarrow> string list \<Rightarrow> string \<Rightarrow> (string \<times> pyval) list \<Rightarrow> pyval io" where
  "meta_ads ops version token resources tool values =
    bind_io (pure (string_arg values ''ad_account_id'' 80)) (\<lambda>account.
    bind_io (pure (require_resource resources (''meta_ads:account:'' @ account))) (\<lambda>_.
      if tool = ''read_campaigns'' then
        bind_io (json_dict ops (get_call token (meta_campaign_url version account @ ''/campaigns'')
            [(''fields'', ''id,name,status,effective_status,objective,updated_time''), (''limit'', ''50'')])) (\<lambda>response.
          let rows = take 50 (list_or_empty (dict_get response ''data'')) in
          ret (PDict [(''campaigns'', PList rows), (''count'', PInt (int (length rows))), (''untrusted_content'', PBool True)]))
      else if tool = ''update_campaign_status'' then meta_update ops version token account values
      else fail ''This Meta Ads tool is not supported.''))"

end
