(* ===== verification/ConnectorOAuth.thy ===== *)
theory ConnectorOAuth
  imports AgentActions Connectors FieldCipher
begin

text \<open>
  Authorization of connectors (\<^verbatim>\<open>app/services/mcp_oauth.py\<close>): the provider registry with its scopes and default
  permissions, the encrypted OAuth state that carries a connection through the provider's consent page, the
  code exchange, the refresh of an access token and its revocation.

  Parameters (\<open>oauth_ops\<close>): the network towards the token hosts, JSON reading and writing, SHA-256, AES-GCM and
  Python's \<^verbatim>\<open>str\<close> of other values.
\<close>

section \<open>Registry\<close>

record oauth_settings =
  os_google_enabled :: bool
  os_google_id :: "string option"
  os_google_secret :: "string option"
  os_meta_enabled :: bool
  os_meta_id :: "string option"
  os_meta_secret :: "string option"
  os_graph_version :: string
  os_callback_url :: string
  os_state_ttl :: int
  os_max_response :: nat

record oauth_client =
  ol_authorization_url :: string
  ol_exchange_url :: string
  ol_pkce :: bool
  ol_id :: string
  ol_secret :: string

definition text_or_empty :: "string option \<Rightarrow> string" where
  "text_or_empty x = (case x of None \<Rightarrow> [] | Some s \<Rightarrow> s)"

definition make_client :: "string \<Rightarrow> string \<Rightarrow> bool \<Rightarrow> string \<Rightarrow> string \<Rightarrow> oauth_client option" where
  "make_client auth exchange pkce i secret = (if i = [] \<or> secret = [] then None
     else Some \<lparr> ol_authorization_url = auth, ol_exchange_url = exchange, ol_pkce = pkce, ol_id = i, ol_secret = secret \<rparr>)"

definition oauth_client_of :: "oauth_settings \<Rightarrow> string \<Rightarrow> oauth_client option" where
  "oauth_client_of st provider =
    (if provider = ''home_assistant'' then None
     else if provider = ''meta_ads'' then
       (if \<not> os_meta_enabled st then None
        else make_client (''https://www.facebook.com/'' @ os_graph_version st @ ''/dialog/oauth'')
          (''https://graph.facebook.com/'' @ os_graph_version st @ ''/oauth/access_token'') False
          (text_or_empty (os_meta_id st)) (text_or_empty (os_meta_secret st)))
     else if \<not> os_google_enabled st then None
     else make_client ''https://accounts.google.com/o/oauth2/v2/auth'' ''https://oauth2.googleapis.com/token'' True
       (text_or_empty (os_google_id st)) (text_or_empty (os_google_secret st)))"

definition provider_scopes :: "string \<Rightarrow> (string list \<times> string list) option" where
  "provider_scopes = map_of
    [(''google_drive'', ([''https://www.googleapis.com/auth/drive.readonly''], [''https://www.googleapis.com/auth/drive.file''])),
     (''google_sheets'', ([''https://www.googleapis.com/auth/spreadsheets.readonly''], [''https://www.googleapis.com/auth/spreadsheets''])),
     (''gmail'', ([''https://www.googleapis.com/auth/gmail.readonly''], [''https://www.googleapis.com/auth/gmail.send''])),
     (''calendar'', ([''https://www.googleapis.com/auth/calendar.readonly''], [''https://www.googleapis.com/auth/calendar.events''])),
     (''meta_ads'', ([''ads_read''], [''ads_management''])),
     (''home_assistant'', ([], []))]"

definition connection_scopes :: "string \<Rightarrow> bool \<Rightarrow> string list option" where
  "connection_scopes provider read_only = map_option (\<lambda>(r, w). r @ (if read_only then [] else w)) (provider_scopes provider)"

definition default_permissions :: "string \<Rightarrow> bool \<Rightarrow> (string \<times> tool_access) list option" where
  "default_permissions provider read_only = map_option (\<lambda>ts.
     map (\<lambda>(name, kind). (name, if kind = KRead then ToolRead else ToolDeny))
       (filter (\<lambda>(name, kind). \<not> read_only \<or> kind = KRead) ts)) (provider_tools provider)"

section \<open>Requests to a token host\<close>

record form_call =
  fm_url :: string
  fm_data :: "(string \<times> string) list"
  fm_bearer :: "string option"

text \<open>A reply has the declared content length, the status and the whole body.\<close>

datatype form_reply = FormBroken | FormReply "string option" int "byte list"

record oauth_ops =
  oo_send :: "form_call \<Rightarrow> form_reply"
  oo_loads :: "byte list \<Rightarrow> pyval option"
  oo_read :: "utext \<Rightarrow> pyval option"
  oo_dumps :: "pyval \<Rightarrow> string"
  oo_sha :: "string \<Rightarrow> byte list"
  oo_aead :: aead
  oo_str :: "pyval \<Rightarrow> string"

definition oauth_str :: "oauth_ops \<Rightarrow> pyval \<Rightarrow> string" where
  "oauth_str ops v = (case v of PStr s \<Rightarrow> s | _ \<Rightarrow> oo_str ops v)"

text \<open>\<^verbatim>\<open>isinstance(v, int)\<close>, which holds of the booleans too.\<close>

fun int_like :: "pyval \<Rightarrow> int option" where
  "int_like (PInt n) = Some n"
| "int_like (PBool b) = Some (if b then 1 else 0)"
| "int_like _ = None"

definition token_text_ok :: "pyval \<Rightarrow> bool" where
  "token_text_ok v = (case v of PStr s \<Rightarrow> 8 \<le> length s \<and> length s \<le> 16384 | _ \<Rightarrow> False)"

definition short_text :: "(string \<times> pyval) list \<Rightarrow> string \<Rightarrow> (string \<times> pyval) list" where
  "short_text payload key = (case dict_get payload key of
     PStr s \<Rightarrow> if length s \<le> 16384 then [(key, PStr s)] else [] | _ \<Rightarrow> [])"

definition lifetime_ok :: "pyval \<Rightarrow> bool" where
  "lifetime_ok v = (case int_like v of None \<Rightarrow> False | Some n \<Rightarrow> 0 \<le> n \<and> n \<le> 31536000)"

section \<open>State\<close>

record oauth_state =
  st_connection_id :: string
  st_tenant_id :: string
  st_user_id :: string
  st_provider :: string
  st_verifier :: string
  st_expires_at :: int

definition state_payload :: "oauth_state \<Rightarrow> (string \<times> pyval) list" where
  "state_payload s = [(''connection_id'', PStr (st_connection_id s)), (''tenant_id'', PStr (st_tenant_id s)),
     (''user_id'', PStr (st_user_id s)), (''provider'', PStr (st_provider s)), (''verifier'', PStr (st_verifier s)),
     (''expires_at'', PInt (st_expires_at s))]"

text \<open>\<^verbatim>\<open>urlencode\<close> quotes with plus signs for blanks.\<close>

definition quote_plus :: "string \<Rightarrow> string" where
  "quote_plus s = map (\<lambda>c. if c = CHR '' '' then CHR ''+'' else c) (quote '' '' s)"

definition urlencode :: "(string \<times> string) list \<Rightarrow> string" where
  "urlencode kvs = join_on (CHR ''&'') (map (\<lambda>(k, v). quote_plus k @ ''='' @ quote_plus v) kvs)"

definition authorization_parameters ::
  "oauth_ops \<Rightarrow> oauth_settings \<Rightarrow> oauth_client \<Rightarrow> string list \<Rightarrow> string \<Rightarrow> string \<Rightarrow> (string \<times> string) list" where
  "authorization_parameters ops st client scopes verifier state =
    [(''client_id'', ol_id client), (''redirect_uri'', os_callback_url st), (''response_type'', ''code''),
     (''scope'', join_on (CHR '' '') scopes), (''state'', state)]
    @ (if ol_pkce client then [(''code_challenge'', strip_padding (b64_encode (oo_sha ops verifier))),
         (''code_challenge_method'', ''S256''), (''access_type'', ''offline''), (''include_granted_scopes'', ''true''),
         (''prompt'', ''consent'')] else [])"

datatype oauth_error = OAuthError string | OAuthCipher cipher_error

text \<open>\<open>verifier\<close> is the fresh \<^verbatim>\<open>secrets.token_urlsafe(64)\<close>, \<open>nonce\<close> the fresh nonce of the encryption.\<close>

definition build_authorization_url ::
  "oauth_ops \<Rightarrow> oauth_settings \<Rightarrow> field_cipher \<Rightarrow> time \<Rightarrow> string \<Rightarrow> byte list \<Rightarrow> string \<Rightarrow> string \<Rightarrow> string \<Rightarrow> string \<Rightarrow> bool \<Rightarrow>
   oauth_error + (string \<times> int)" where
  "build_authorization_url ops st cipher now verifier nonce connection tenant user provider read_only =
    (case oauth_client_of st provider of
       None \<Rightarrow> Inl (OAuthError ''OAuth is not configured for this connector'')
     | Some client \<Rightarrow>
        let expires = unix (now + seconds (os_state_ttl st));
            state = \<lparr> st_connection_id = connection, st_tenant_id = tenant, st_user_id = user, st_provider = provider,
              st_verifier = verifier, st_expires_at = expires \<rparr>
        in (case encrypt (oo_aead ops) cipher nonce (to_utext (oo_dumps ops (PDict (state_payload state)))) of
              Inl e \<Rightarrow> Inl (OAuthCipher e)
            | Inr sealed_state \<Rightarrow> Inr (ol_authorization_url client @ ''?'' @ urlencode (authorization_parameters ops st client
                (case connection_scopes provider read_only of None \<Rightarrow> [] | Some ss \<Rightarrow> ss) verifier sealed_state), expires)))"

text \<open>\<open>None\<close> is a \<^verbatim>\<open>KeyError\<close>, \<^verbatim>\<open>TypeError\<close> or \<^verbatim>\<open>ValueError\<close>. A provider that is no text is no provider of the registry.\<close>

definition state_of :: "oauth_ops \<Rightarrow> pyval \<Rightarrow> oauth_state option" where
  "state_of ops v = (case v of
     PDict d \<Rightarrow> (case (map_of d ''connection_id'', map_of d ''tenant_id'', map_of d ''user_id'', map_of d ''provider'',
         map_of d ''verifier'', map_of d ''expires_at'') of
       (Some c, Some t, Some u, Some p, Some w, Some e) \<Rightarrow> (case int_of_json e of
          None \<Rightarrow> None
        | Some n \<Rightarrow> Some \<lparr> st_connection_id = oauth_str ops c, st_tenant_id = oauth_str ops t, st_user_id = oauth_str ops u,
            st_provider = (case p of PStr s \<Rightarrow> s | _ \<Rightarrow> []), st_verifier = oauth_str ops w, st_expires_at = n \<rparr>)
     | _ \<Rightarrow> None)
   | _ \<Rightarrow> None)"

definition decode_oauth_state :: "oauth_ops \<Rightarrow> field_cipher \<Rightarrow> time \<Rightarrow> string \<Rightarrow> oauth_error + oauth_state" where
  "decode_oauth_state ops cipher now value =
    (let bad = Inl (OAuthError ''OAuth state is invalid or expired'') in
     if value = [] \<or> 8192 < length value then bad
     else (case decrypt (oo_aead ops) cipher value of
        Inl _ \<Rightarrow> bad
      | Inr text \<Rightarrow> (case Option.bind (oo_read ops text) (state_of ops) of
          None \<Rightarrow> bad
        | Some s \<Rightarrow>
           if provider_tools (st_provider s) = None \<or> st_expires_at s < unix now then bad
           else if st_connection_id s = [] \<or> st_tenant_id s = [] \<or> st_user_id s = [] then bad
           else if length (st_verifier s) < 43 \<or> 128 < length (st_verifier s) then bad
           else Inr s)))"

section \<open>Code exchange\<close>

definition granted_bundle :: "time \<Rightarrow> (string \<times> pyval) list \<Rightarrow> (string \<times> pyval) list" where
  "granted_bundle now payload = [(''access_token'', dict_get payload ''access_token'')]
     @ short_text payload ''refresh_token'' @ short_text payload ''token_type'' @ short_text payload ''scope''
     @ (if lifetime_ok (dict_get payload ''expires_in'')
        then [(''expires_in'', dict_get payload ''expires_in''), (''obtained_at'', PInt (unix now))] else [])"

text \<open>\<open>declared\<close> is the content length a reply announces, checked before its status and body.\<close>

definition declared_ok :: "oauth_settings \<Rightarrow> string option \<Rightarrow> bool" where
  "declared_ok st declared = (case declared of None \<Rightarrow> True | Some [] \<Rightarrow> True
     | Some s \<Rightarrow> (case py_int s of None \<Rightarrow> False | Some n \<Rightarrow> n \<le> int (os_max_response st)))"

definition exchange_authorization_code ::
  "oauth_ops \<Rightarrow> oauth_settings \<Rightarrow> time \<Rightarrow> string \<Rightarrow> string \<Rightarrow> string \<Rightarrow> string + (string \<times> pyval) list" where
  "exchange_authorization_code ops st now provider auth_code verifier =
    (if auth_code = [] \<or> 4096 < length auth_code then Inl ''The OAuth provider returned an invalid authorization code''
     else (case oauth_client_of st provider of
       None \<Rightarrow> Inl ''OAuth is not configured for this connector''
     | Some client \<Rightarrow> (case oo_send ops \<lparr> fm_url = ol_exchange_url client,
           fm_data = [(''client_id'', ol_id client), (''client_secret'', ol_secret client), (''code'', auth_code),
             (''grant_type'', ''authorization_code''), (''redirect_uri'', os_callback_url st)]
             @ (if ol_pkce client then [(''code_verifier'', verifier)] else []),
           fm_bearer = None \<rparr> of
         FormBroken \<Rightarrow> Inl ''The OAuth provider is temporarily unavailable''
       | FormReply declared status content \<Rightarrow>
           if \<not> declared_ok st declared then Inl ''The OAuth provider returned an invalid response''
           else if status < 200 \<or> 300 \<le> status then Inl ''The OAuth provider rejected the connection''
           else if os_max_response st < length content then Inl ''The OAuth provider returned an invalid response''
           else (case oo_loads ops content of
              Some (PDict payload) \<Rightarrow>
                if token_text_ok (dict_get payload ''access_token'') then Inr (granted_bundle now payload)
                else Inl ''The OAuth provider returned an invalid response''
            | _ \<Rightarrow> Inl ''The OAuth provider returned an invalid response''))))"

section \<open>Refresh\<close>

definition refreshed_bundle :: "time \<Rightarrow> (string \<times> pyval) list \<Rightarrow> (string \<times> pyval) list \<Rightarrow> (string \<times> pyval) list" where
  "refreshed_bundle now bundle payload =
    (let b1 = dict_set (dict_set (dict_set bundle ''access_token'' (dict_get payload ''access_token''))
           ''refresh_token'' (dict_get bundle ''refresh_token'')) ''obtained_at'' (PInt (unix now));
         b2 = (if lifetime_ok (dict_get payload ''expires_in'') then dict_set b1 ''expires_in'' (dict_get payload ''expires_in'') else b1)
     in fold (\<lambda>(k, v) d. dict_set d k v) (short_text payload ''token_type'' @ short_text payload ''scope'') b2)"

definition refresh_access_token ::
  "oauth_ops \<Rightarrow> oauth_settings \<Rightarrow> time \<Rightarrow> string \<Rightarrow> (string \<times> pyval) list \<Rightarrow> string + (string \<times> pyval) list" where
  "refresh_access_token ops st now provider bundle =
    (case (oauth_client_of st provider, dict_get bundle ''refresh_token'') of
       (Some client, PStr refresh) \<Rightarrow>
         if provider = ''meta_ads'' \<or> \<not> token_text_ok (PStr refresh) then Inl ''The connector authorization has expired; reconnect it.''
         else (case oo_send ops \<lparr> fm_url = ol_exchange_url client, fm_data = [(''client_id'', ol_id client),
               (''client_secret'', ol_secret client), (''refresh_token'', refresh), (''grant_type'', ''refresh_token'')],
               fm_bearer = None \<rparr> of
             FormBroken \<Rightarrow> Inl ''The connector authorization service is unavailable.''
           | FormReply declared status content \<Rightarrow>
               if status < 200 \<or> 300 \<le> status \<or> os_max_response st < length content
               then Inl ''The connector authorization has expired; reconnect it.''
               else (case oo_loads ops content of
                  Some (PDict payload) \<Rightarrow>
                    if token_text_ok (dict_get payload ''access_token'') then Inr (refreshed_bundle now bundle payload)
                    else Inl ''The connector authorization returned an invalid response.''
                | _ \<Rightarrow> Inl ''The connector authorization returned an invalid response.''))
     | _ \<Rightarrow> Inl ''The connector authorization has expired; reconnect it.'')"

section \<open>Revocation\<close>

definition stored_bundle :: "oauth_ops \<Rightarrow> field_cipher \<Rightarrow> string option \<Rightarrow> (string \<times> pyval) list option" where
  "stored_bundle ops cipher credentials = (case decrypt (oo_aead ops) cipher (text_or_empty credentials) of
     Inl _ \<Rightarrow> None
   | Inr text \<Rightarrow> (case oo_read ops text of
       Some (PDict d) \<Rightarrow> if token_text_ok (dict_get d ''access_token'') then Some d else None
     | _ \<Rightarrow> None))"

definition revoke_oauth_token ::
  "oauth_ops \<Rightarrow> oauth_settings \<Rightarrow> field_cipher \<Rightarrow> string \<Rightarrow> string option \<Rightarrow> bool" where
  "revoke_oauth_token ops st cipher provider credentials =
    (if text_or_empty credentials = [] \<or> provider = ''home_assistant'' then True
     else (case stored_bundle ops cipher credentials of
        None \<Rightarrow> False
      | Some d \<Rightarrow> (case dict_get d ''access_token'' of
          PStr token \<Rightarrow> (case oo_send ops (if provider = ''meta_ads''
               then \<lparr> fm_url = ''https://graph.facebook.com/'' @ os_graph_version st @ ''/me/permissions'', fm_data = [], fm_bearer = Some token \<rparr>
               else \<lparr> fm_url = ''https://oauth2.googleapis.com/revoke'', fm_data = [(''token'', token)], fm_bearer = None \<rparr>) of
             FormBroken \<Rightarrow> False
           | FormReply _ status _ \<Rightarrow> 200 \<le> status \<and> status < 300)
        | _ \<Rightarrow> False)))"

end
