(* ===== verification/ConnectorRun.thy ===== *)
theory ConnectorRun
  imports ConnectorOAuth
begin

text \<open>
  A connector call from authorization to the last request (\<^verbatim>\<open>_execute\<close> and \<^verbatim>\<open>_access_token\<close> of
  \<^verbatim>\<open>app/services/connector_executor.py\<close>), and the credentials of Home Assistant
  (\<^verbatim>\<open>app/services/home_assistant.py\<close>).
\<close>

section \<open>Home Assistant credentials\<close>

record site_url = url +
  su_path :: string
  su_query :: string
  su_fragment :: string

datatype ha_error = HaError string | HaValueError

definition rstrip_set :: "string \<Rightarrow> string \<Rightarrow> string" where
  "rstrip_set cs s = rev (dropWhile (\<lambda>c. c \<in> set cs) (rev s))"

definition host_char :: "char \<Rightarrow> bool" where
  "host_char c = (is_lower c \<or> is_upper c \<or> is_digit c)"

definition host_label :: "string \<Rightarrow> bool" where
  "host_label l = (l \<noteq> [] \<and> length l \<le> 63 \<and> host_char (hd l) \<and> host_char (last l)
     \<and> list_all (\<lambda>c. host_char c \<or> c = CHR ''-'') l)"

text \<open>\<^verbatim>\<open>HOST_RE\<close>: two or more labels, the last beginning with a letter.\<close>

definition host_ok :: "string \<Rightarrow> bool" where
  "host_ok h = (let ls = split_on (CHR ''.'') h in 2 \<le> length ls \<and> list_all host_label ls \<and> \<not> is_digit (hd (last ls)))"

definition blocked_suffixes :: "string list" where
  "blocked_suffixes = [''.internal'', ''.lan'', ''.local'', ''.localhost'', ''.home'', ''.arpa'']"

text \<open>\<open>split\<close> is \<^verbatim>\<open>urlsplit\<close> (\<open>None\<close>: \<^verbatim>\<open>ValueError\<close>), \<open>is_ip\<close> whether \<^verbatim>\<open>ip_address\<close> accepts the text.\<close>

definition validate_base_url :: "(string \<Rightarrow> site_url option) \<Rightarrow> (string \<Rightarrow> bool) \<Rightarrow> string \<Rightarrow> ha_error + string" where
  "validate_base_url split is_ip value =
    (let normalized = rstrip_set ''/'' (strip value) in
     if normalized = [] \<or> 500 < length normalized then Inl (HaError ''Home Assistant URL is invalid.'')
     else (case split normalized of
       None \<Rightarrow> Inl HaValueError
     | Some p \<Rightarrow> let host = rstrip_set ''.'' (latin_lower (text_or_empty (url_hostname p))) in
        (case url_port p of
           None \<Rightarrow> Inl (HaError ''Home Assistant URL is invalid.'')
         | Some port \<Rightarrow>
            if url_scheme p \<noteq> ''https'' \<or> host = [] \<or> url_username p \<noteq> None \<or> url_password p \<noteq> None
              \<or> rstrip_set ''/'' (su_path p) \<notin> {[], ''/''} \<or> su_query p \<noteq> [] \<or> su_fragment p \<noteq> []
              \<or> port \<notin> {None, Some 443} \<or> \<not> host_ok host \<or> host = ''localhost'' \<or> list_ex (ends_with host) blocked_suffixes
            then Inl (HaError ''Home Assistant must use an explicit public HTTPS hostname on port 443.'')
            else if is_ip host
            then Inl (HaError ''Home Assistant IP addresses and private-network discovery are not permitted.'')
            else Inr (''https://'' @ host))))"

record ha_credentials =
  hk_base_url :: string
  hk_token :: string

definition ha_payload :: "string \<Rightarrow> string \<Rightarrow> (string \<times> pyval) list" where
  "ha_payload token base = [(''access_token'', PStr token), (''base_url'', PStr base),
     (''credential_type'', PStr ''home_assistant_long_lived_token'')]"

definition ha_token_ok :: "string \<Rightarrow> bool" where
  "ha_token_ok t = (20 \<le> length t \<and> length t \<le> 16384 \<and> list_all (\<lambda>c. \<not> is_space c) t)"

definition encrypt_ha_credentials ::
  "oauth_ops \<Rightarrow> field_cipher \<Rightarrow> (string \<Rightarrow> site_url option) \<Rightarrow> (string \<Rightarrow> bool) \<Rightarrow> byte list \<Rightarrow> string \<Rightarrow> string \<Rightarrow>
   (ha_error + cipher_error) + string" where
  "encrypt_ha_credentials ops cipher split is_ip nonce base token =
    (case validate_base_url split is_ip base of
       Inl e \<Rightarrow> Inl (Inl e)
     | Inr u \<Rightarrow>
        if \<not> ha_token_ok (strip token) \<or> CHR 0x00 \<in> set (strip token)
        then Inl (Inl (HaError ''Home Assistant access token is invalid.''))
        else (case encrypt (oo_aead ops) cipher nonce (to_utext (oo_dumps ops (PDict (ha_payload (strip token) u)))) of
            Inl e \<Rightarrow> Inl (Inr e) | Inr c \<Rightarrow> Inr c))"

definition decrypt_ha_credentials ::
  "oauth_ops \<Rightarrow> field_cipher \<Rightarrow> (string \<Rightarrow> site_url option) \<Rightarrow> (string \<Rightarrow> bool) \<Rightarrow> string option \<Rightarrow> string + ha_credentials" where
  "decrypt_ha_credentials ops cipher split is_ip credentials =
    (let bad = Inl ''Home Assistant credentials are unavailable.'' in
     case decrypt (oo_aead ops) cipher (text_or_empty credentials) of
       Inl _ \<Rightarrow> bad
     | Inr text \<Rightarrow> (case oo_read ops text of
         Some (PDict d) \<Rightarrow> (case (map_of d ''base_url'', map_of d ''access_token'') of
            (Some b, Some t) \<Rightarrow> (case validate_base_url split is_ip (oauth_str ops b) of
               Inl _ \<Rightarrow> bad
             | Inr u \<Rightarrow>
                if dict_get d ''credential_type'' \<noteq> PStr ''home_assistant_long_lived_token'' \<or> \<not> ha_token_ok (oauth_str ops t)
                then bad else Inr \<lparr> hk_base_url = u, hk_token = oauth_str ops t \<rparr>)
          | _ \<Rightarrow> bad)
       | _ \<Rightarrow> bad))"

section \<open>Access tokens\<close>

definition set_mcp :: "ident \<Rightarrow> (mcp_connection \<Rightarrow> mcp_connection) \<Rightarrow> 'a agent_db_scheme \<Rightarrow> 'a agent_db_scheme" where
  "set_mcp i f db = db\<lparr>ag_connections := tbl_upd mc_id i f (ag_connections db)\<rparr>"

definition token_due :: "time \<Rightarrow> (string \<times> pyval) list \<Rightarrow> bool" where
  "token_due now bundle = (case (int_like (dict_get bundle ''expires_in''), int_like (dict_get bundle ''obtained_at'')) of
     (Some e, Some t) \<Rightarrow> t + e \<le> unix now + 60 | _ \<Rightarrow> False)"

text \<open>The token and the database, which a refresh changes: a refused refresh marks the connection.\<close>

definition access_token ::
  "oauth_ops \<Rightarrow> oauth_settings \<Rightarrow> field_cipher \<Rightarrow> time \<Rightarrow> byte list \<Rightarrow> bool \<Rightarrow> mcp_connection \<Rightarrow> 'a agent_db_scheme \<Rightarrow>
   'a agent_db_scheme \<times> (string + string)" where
  "access_token ops st cipher now nonce allow_refresh c db =
    (case stored_bundle ops cipher (mc_encrypted_credentials c) of
       None \<Rightarrow> (db, Inl ''The connector credentials are unavailable.'')
     | Some bundle \<Rightarrow>
        if \<not> token_due now bundle then (db, Inr (oauth_str ops (dict_get bundle ''access_token'')))
        else if \<not> allow_refresh
        then (db, Inl ''Connector authorization needs renewal; reconnect and review a fresh preview.'')
        else (case refresh_access_token ops st now (mc_provider c) bundle of
            Inl msg \<Rightarrow> (set_mcp (mc_id c) (\<lambda>x. x\<lparr>mc_status := CError\<rparr>) db, Inl msg)
          | Inr fresh \<Rightarrow> (case encrypt (oo_aead ops) cipher nonce (to_utext (oo_dumps ops (PDict fresh))) of
              Inl _ \<Rightarrow> (db, Inl ''The connector credentials are unavailable.'')
            | Inr sealed_bundle \<Rightarrow> (set_mcp (mc_id c) (\<lambda>x. x\<lparr>mc_encrypted_credentials := Some sealed_bundle, mc_status := CActive\<rparr>) db,
                Inr (oauth_str ops (dict_get fresh ''access_token''))))))"

section \<open>The call\<close>

datatype run_fault = FaultConn conn_error | FaultDenied string | FaultBefore string

record connector_env =
  ce_conn :: conn_ops
  ce_oauth :: oauth_ops
  ce_settings :: oauth_settings
  ce_cipher :: field_cipher
  ce_split :: "string \<Rightarrow> site_url option"
  ce_is_ip :: "string \<Rightarrow> bool"

record connector_call =
  cl_tenant :: ident
  cl_connection :: ident
  cl_tool :: string
  cl_values :: "(string \<times> pyval) list"
  cl_write :: bool
  cl_key :: "string option"

text \<open>Where the token goes: the base URL of a Home Assistant, \<open>None\<close> for the providers with fixed hosts.\<close>

definition acquire ::
  "connector_env \<Rightarrow> time \<Rightarrow> byte list \<Rightarrow> bool \<Rightarrow> mcp_connection \<Rightarrow> 'a agent_db_scheme \<Rightarrow>
   'a agent_db_scheme \<times> (string + (string \<times> string option))" where
  "acquire env now nonce write c db =
    (if mc_provider c = ''home_assistant''
     then (db, (case decrypt_ha_credentials (ce_oauth env) (ce_cipher env) (ce_split env) (ce_is_ip env) (mc_encrypted_credentials c) of
        Inl msg \<Rightarrow> Inl msg | Inr k \<Rightarrow> Inr (hk_token k, Some (hk_base_url k))))
     else (case access_token (ce_oauth env) (ce_settings env) (ce_cipher env) now nonce (\<not> write) c db of
        (db', Inl msg) \<Rightarrow> (db', Inl msg) | (db', Inr token) \<Rightarrow> (db', Inr (token, None))))"

definition run_tool ::
  "connector_env \<Rightarrow> mcp_connection \<Rightarrow> string \<Rightarrow> string option \<Rightarrow> connector_call \<Rightarrow> pyval io" where
  "run_tool env c token base q =
    (let ops = ce_conn env; rs = mc_allowed_resources c; tool = cl_tool q; values = cl_values q in
     if mc_provider c = ''home_assistant'' then home_assistant ops token (text_or_empty base) rs tool values
     else if mc_provider c = ''google_drive'' then drive ops token rs tool values (cl_key q)
     else if mc_provider c = ''google_sheets'' then sheets ops token rs tool values
     else if mc_provider c = ''gmail'' then gmail ops token rs tool values (cl_key q)
     else if mc_provider c = ''calendar'' then calendar ops token rs tool values (cl_key q)
     else if mc_provider c = ''meta_ads'' then meta_ads ops (os_graph_version (ce_settings env)) token rs tool values
     else fail (if cl_write q then ''The configured connector does not support this write.''
       else ''The configured connector does not support this read.''))"

text \<open>The committed credentials of the connection, as the code rereads them once they were acquired.\<close>

definition stored_credentials :: "'a agent_db_scheme \<Rightarrow> ident \<Rightarrow> string option" where
  "stored_credentials db i = Option.bind (tbl_find mc_id i (ag_connections db)) mc_encrypted_credentials"

text \<open>\<open>others\<close> is what other transactions do between the two authorizations, \<open>guard\<close> the caller's check in
  the state it meets; the result carries the requests made and the database.\<close>

definition execute_connector ::
  "connector_env \<Rightarrow> time \<Rightarrow> byte list \<Rightarrow> ('a agent_db_scheme \<Rightarrow> 'a agent_db_scheme) \<Rightarrow> ('a agent_db_scheme \<Rightarrow> string option) \<Rightarrow>
   connector_call \<Rightarrow> 'a agent_db_scheme \<Rightarrow> http_call list \<times> 'a agent_db_scheme \<times> (run_fault + pyval)" where
  "execute_connector env now nonce others guard q db =
    (case authorize_mcp_tool db (cl_tenant q) (cl_connection q) (cl_tool q) (cl_write q) of
       Inl msg \<Rightarrow> ([], db, Inl (FaultDenied msg))
     | Inr c \<Rightarrow> (case acquire env now nonce (cl_write q) c db of
         (db1, Inl msg) \<Rightarrow> ([], db1, Inl (FaultConn (ConnError msg)))
       | (db1, Inr (token, base)) \<Rightarrow>
          let db2 = others db1 in
          (case guard db2 of
             Some msg \<Rightarrow> ([], db2, Inl (FaultBefore msg))
           | None \<Rightarrow> (case authorize_mcp_tool db2 (cl_tenant q) (cl_connection q) (cl_tool q) (cl_write q) of
               Inl msg \<Rightarrow> ([], db2, Inl (FaultDenied msg))
             | Inr c' \<Rightarrow>
                if mc_provider c' \<noteq> mc_provider c \<or> mc_encrypted_credentials c' \<noteq> stored_credentials db1 (mc_id c)
                then ([], db2, Inl (FaultConn (ConnError ''Connector authorization changed; review a fresh preview.'')))
                else (case run_tool env c' token base q [] of
                    (calls, Inl e) \<Rightarrow> (calls, db2, Inl (FaultConn e))
                  | (calls, Inr v) \<Rightarrow> (calls, db2, Inr v))))))"

end
