(* ===== verification/ConnectorSafety.thy ===== *)
theory ConnectorSafety
  imports ConnectorRun
begin

text \<open>
  Connector calls stay inside what the tenant allowed: hosts, resources, methods and tokens of every request a tool
  makes, and one write request at most.
\<close>

section \<open>Traces of programs\<close>

text \<open>\<open>reads R m\<close>: every request of \<open>m\<close> satisfies \<open>R\<close>. \<open>writes R W m\<close>: requests that satisfy \<open>R\<close>, then at most
  one that satisfies \<open>W\<close>.\<close>

definition reads :: "(http_call \<Rightarrow> bool) \<Rightarrow> 'a io \<Rightarrow> bool" where
  "reads R m = (\<forall>h. \<exists>new. fst (m h) = h @ new \<and> list_all R new)"

definition writes :: "(http_call \<Rightarrow> bool) \<Rightarrow> (http_call \<Rightarrow> bool) \<Rightarrow> 'a io \<Rightarrow> bool" where
  "writes R W m = (\<forall>h. \<exists>new post. fst (m h) = h @ new @ post \<and> list_all R new \<and> list_all W post \<and> length post \<le> 1)"

named_theorems trace_rules \<open>requests of composed programs\<close>

lemma reads_simps [trace_rules]: "reads R (ret x)" "reads R (fail msg)" "reads R (pure r)"
  by (auto simp: reads_def ret_def fail_def pure_def)

lemma reads_request: "R q \<Longrightarrow> reads R (request ops q)"
  by (auto simp: reads_def request_def)

lemma reads_bind: "reads R m \<Longrightarrow> (\<And>x. reads R (k x)) \<Longrightarrow> reads R (bind_io m k)"
proof -
  assume m: "reads R m" and k: "\<And>x. reads R (k x)"
  show ?thesis unfolding reads_def
  proof
    fix h
    obtain new r where m': "m h = (h @ new, r)" "list_all R new" using m unfolding reads_def by (metis prod.collapse)
    show "\<exists>new. fst (bind_io m k h) = h @ new \<and> list_all R new"
    proof (cases r)
      case (Inl e)
      then show ?thesis using m' by (auto simp: bind_io_def)
    next
      case (Inr x)
      obtain more where "fst (k x (h @ new)) = (h @ new) @ more" "list_all R more" using k unfolding reads_def by blast
      then show ?thesis using m' Inr by (intro exI[of _ "new @ more"]) (simp add: bind_io_def)
    qed
  qed
qed

lemma bind_pure: "bind_io (pure r) k = (case r of Inl e \<Rightarrow> pure (Inl e) | Inr x \<Rightarrow> k x)"
  by (auto simp: bind_io_def pure_def fun_eq_iff split: sum.split)

lemma reads_bind_pure [trace_rules]: "(\<And>x. r = Inr x \<Longrightarrow> reads R (k x)) \<Longrightarrow> reads R (bind_io (pure r) k)"
  by (cases r) (auto simp: bind_pure reads_simps)

lemma reads_json [trace_rules]: "R q \<Longrightarrow> reads R (json_dict ops q)" "R q \<Longrightarrow> reads R (json_value ops q)"
  by (auto simp: json_dict_def json_value_def intro!: reads_bind reads_request reads_simps)

lemma writes_reads: "reads R m \<Longrightarrow> writes R W m"
  unfolding reads_def writes_def by (metis append_Nil2 list.pred_inject(1) list.size(3) zero_le)

lemma writes_bind: "reads R m \<Longrightarrow> (\<And>x. writes R W (k x)) \<Longrightarrow> writes R W (bind_io m k)"
proof -
  assume m: "reads R m" and k: "\<And>x. writes R W (k x)"
  show ?thesis unfolding writes_def
  proof
    fix h
    obtain new r where m': "m h = (h @ new, r)" "list_all R new" using m unfolding reads_def by (metis prod.collapse)
    show "\<exists>new post. fst (bind_io m k h) = h @ new @ post \<and> list_all R new \<and> list_all W post \<and> length post \<le> 1"
    proof (cases r)
      case (Inl e)
      then show ?thesis using m' by (intro exI[of _ new] exI[of _ "[]"]) (simp add: bind_io_def)
    next
      case (Inr x)
      obtain more post where "fst (k x (h @ new)) = (h @ new) @ more @ post" "list_all R more" "list_all W post" "length post \<le> 1"
        using k unfolding writes_def by blast
      then show ?thesis using m' Inr by (intro exI[of _ "new @ more"] exI[of _ post]) (simp add: bind_io_def)
    qed
  qed
qed

lemma writes_bind_pure [trace_rules]: "(\<And>x. r = Inr x \<Longrightarrow> writes R W (k x)) \<Longrightarrow> writes R W (bind_io (pure r) k)"
  by (cases r) (auto simp: bind_pure intro: writes_reads reads_simps)

lemma writes_simps [trace_rules]: "writes R W (ret x)" "writes R W (fail msg)" "writes R W (pure r)"
  by (auto intro: writes_reads reads_simps)

text \<open>A write request, after which only its answer is read.\<close>

definition quiet :: "('b \<Rightarrow> 'a io) \<Rightarrow> bool" where
  "quiet k = (\<forall>x h. fst (k x h) = h)"

lemma writes_last [trace_rules]:
  assumes "W q" "quiet k"
  shows "writes R W (bind_io (json_dict ops q) k)"
proof -
  have "fst (json_dict ops q h) = h @ [q]" for h
    by (auto simp: json_dict_def bind_io_def request_def pure_def split: prod.splits sum.splits)
  then have "fst (bind_io (json_dict ops q) k h) = h @ [] @ [q]" for h
    using assms(2) by (auto simp: bind_io_def quiet_def split: prod.splits sum.splits) (metis fst_conv)+
  then show ?thesis using assms(1) unfolding writes_def by fastforce
qed

lemma writes_last_value [trace_rules]:
  assumes "W q" "quiet k"
  shows "writes R W (bind_io (json_value ops q) k)"
proof -
  have "fst (json_value ops q h) = h @ [q]" for h
    by (auto simp: json_value_def bind_io_def request_def pure_def split: prod.splits sum.splits)
  then have "fst (bind_io (json_value ops q) k h) = h @ [] @ [q]" for h
    using assms(2) by (auto simp: bind_io_def quiet_def split: prod.splits sum.splits) (metis fst_conv)+
  then show ?thesis using assms(1) unfolding writes_def by fastforce
qed

lemma quiet_ret [trace_rules]: "quiet (\<lambda>x. ret (f x))"
  by (simp add: quiet_def ret_def)

lemma writes_get:
  "R (get_call t u ps) \<Longrightarrow> (\<And>x. writes R W (k x)) \<Longrightarrow> writes R W (bind_io (json_dict ops (get_call t u ps)) k)"
  by (intro writes_bind reads_json)

lemma writes_post: "W (post_call t u ps b) \<Longrightarrow> quiet k \<Longrightarrow> writes R W (bind_io (json_dict ops (post_call t u ps b)) k)"
  by (rule writes_last)

section \<open>What a connection allows\<close>

text \<open>\<open>names resources kind f\<close>: some allowed resource of the kind satisfies \<open>f\<close>.\<close>

definition names :: "string list \<Rightarrow> string \<Rightarrow> (string \<Rightarrow> bool) \<Rightarrow> bool" where
  "names resources kind f = list_ex (\<lambda>r. starts_with r kind \<and> f (drop (length kind) r)) resources"

text \<open>The read requests of a provider under a base URL, all with the connection's token.\<close>

definition campaign_url :: "string \<Rightarrow> connector_call \<Rightarrow> http_call \<Rightarrow> bool" where
  "campaign_url version q x = (case string_arg (cl_values q) ''campaign_id'' 80 of
     Inr i \<Rightarrow> hc_url x = meta_campaign_url version i | Inl _ \<Rightarrow> False)"

definition read_allowed :: "string \<Rightarrow> string \<Rightarrow> string \<Rightarrow> string \<Rightarrow> string list \<Rightarrow> connector_call \<Rightarrow> http_call \<Rightarrow> bool" where
  "read_allowed version token provider base resources q x =
    (hc_verb x = GetReq \<and> hc_token x = token \<and> hc_json x = None \<and> hc_files x = None \<and>
     (if provider = ''home_assistant'' then hc_url x = base @ ''/api/services''
        \<or> names resources ''home_assistant:entity:'' (\<lambda>e. hc_url x = base @ ''/api/states/'' @ quote [] e)
      else if provider = ''google_drive'' then
        names resources ''drive:file:'' (\<lambda>i. hc_url x \<in> {drive_file_url i, drive_file_url i @ ''/export''})
        \<or> hc_url x = google_apis @ ''/drive/v3/files'' \<and> dict_get (map (map_prod id PStr) (hc_params x)) ''q''
            = PStr (drive_marker_query (take 120 (text_or_empty (cl_key q))))
      else if provider = ''google_sheets'' then
        names resources ''sheets:spreadsheet:'' (\<lambda>i. starts_with (hc_url x) (sheets_url i []))
      else if provider = ''gmail'' then
        hc_url x = gmail_messages \<and> names resources ''gmail:label:'' (\<lambda>l. map_of (hc_params x) ''labelIds'' = Some l)
        \<or> cl_tool q = ''read_message'' \<and> (case string_arg (cl_values q) ''message_id'' 200 of
              Inr i \<Rightarrow> hc_url x = gmail_messages @ ''/'' @ quote [] i | Inl _ \<Rightarrow> False)
      else if provider = ''calendar'' then names resources ''calendar:calendar:'' (\<lambda>i. hc_url x = calendar_url i)
      else if provider = ''meta_ads'' then
        names resources ''meta_ads:account:'' (\<lambda>i. hc_url x = meta_campaign_url version i @ ''/campaigns'')
        \<or> cl_tool q = ''update_campaign_status'' \<and> campaign_url version q x
      else False))"

definition metadata_in_folder :: "conn_ops \<Rightarrow> connector_call \<Rightarrow> string \<Rightarrow> upload \<Rightarrow> bool" where
  "metadata_in_folder ops q folder u = (up_metadata u = cn_dumps ops (PDict [(''name'', PStr (up_name u)), (''parents'', PList [PStr folder]),
     (''appProperties'', PDict [(''bumpa_action'', PStr (take 120 (text_or_empty (cl_key q))))])]))"

text \<open>The message of the raw body was composed for the recipient of the input.\<close>

definition mail_of :: "conn_ops \<Rightarrow> connector_call \<Rightarrow> string \<Rightarrow> pyval \<Rightarrow> bool" where
  "mail_of ops q domain body = (case (string_arg (cl_values q) ''to'' 320, string_arg (cl_values q) ''subject'' 500,
       string_arg (cl_values q) ''body'' 50000) of
     (Inr recipient, Inr subject, Inr text) \<Rightarrow> recipient_domain recipient = domain
       \<and> (case cn_mail ops recipient subject (message_id (cl_key q)) text of None \<Rightarrow> False
          | Some bytes \<Rightarrow> body = PDict [(''raw'', PStr (strip_padding (b64_encode bytes)))])
   | _ \<Rightarrow> False)"

text \<open>The write request of a provider, and the tool that makes it.\<close>

definition write_allowed ::
  "conn_ops \<Rightarrow> string \<Rightarrow> string \<Rightarrow> string \<Rightarrow> string \<Rightarrow> string list \<Rightarrow> connector_call \<Rightarrow> http_call \<Rightarrow> bool" where
  "write_allowed ops version token provider base resources q x =
    (hc_verb x = PostReq \<and> hc_token x = token \<and>
     (if provider = ''home_assistant'' then cl_tool q = ''call_service'' \<and>
        names resources ''home_assistant:service:'' (\<lambda>s. hc_url x = base @ ''/api/services/'' @ quote [] (hd (split_on CHR ''.'' s)) @ ''/''
           @ quote [] (last (split_on CHR ''.'' s)))
        \<and> names resources ''home_assistant:entity:'' (\<lambda>e. dict_get (dict_or_empty (the (hc_json x))) ''entity_id'' = PStr e)
      else if provider = ''google_drive'' then cl_tool q = ''create_file'' \<and> hc_url x = google_apis @ ''/upload/drive/v3/files'' \<and>
        names resources ''drive:folder:'' (\<lambda>f. case hc_files x of None \<Rightarrow> False | Some u \<Rightarrow> metadata_in_folder ops q f u)
      else if provider = ''google_sheets'' then cl_tool q = ''append_rows'' \<and>
        names resources ''sheets:spreadsheet:'' (\<lambda>i. starts_with (hc_url x) (sheets_url i []) \<and> ends_with (hc_url x) '':append'')
      else if provider = ''gmail'' then cl_tool q = ''send_message'' \<and> hc_url x = gmail_messages @ ''/send''
        \<and> names resources ''gmail:recipient-domain:'' (\<lambda>d. mail_of ops q d (the (hc_json x)))
      else if provider = ''calendar'' then cl_tool q = ''create_event'' \<and> names resources ''calendar:calendar:'' (\<lambda>i. hc_url x = calendar_url i)
      else if provider = ''meta_ads'' then cl_tool q = ''update_campaign_status''
        \<and> names resources ''meta_ads:account:'' (\<lambda>a. string_arg (cl_values q) ''ad_account_id'' 80 = Inr a) \<and> campaign_url version q x
      else False))"

section \<open>Each provider\<close>

lemma namesI: "kind @ x \<in> set resources \<Longrightarrow> f x \<Longrightarrow> names resources kind f"
  by (auto simp: names_def list_ex_iff starts_with_def intro!: bexI[of _ "kind @ x"])

lemma in_resources_of: "x \<in> set (resources_of kind resources) \<Longrightarrow> kind @ x \<in> set resources"
proof -
  assume "x \<in> set (resources_of kind resources)"
  then obtain r where "r \<in> set resources" "take (length kind) r = kind" "x = drop (length kind) r"
    by (auto simp: resources_of_def starts_with_def)
  then show ?thesis by (metis append_take_drop_id)
qed

lemma require_resource_ok: "require_resource resources r = Inr u \<Longrightarrow> r \<in> set resources"
  by (simp add: require_resource_def split: if_splits)

lemma starts_with_append [simp]: "starts_with (p @ x) p"
  by (simp add: starts_with_def)

lemma ends_with_append [simp]: "ends_with (x @ p) p" "ends_with (x @ y @ p) p"
  by (simp_all add: ends_with_def)

lemma reads_map [trace_rules]: "(\<And>x. x \<in> set xs \<Longrightarrow> reads R (f x)) \<Longrightarrow> reads R (map_io f xs)"
  by (induction xs) (auto intro!: reads_bind reads_simps)

lemma reads_let: "(\<And>x. x = v \<Longrightarrow> reads R (k x)) \<Longrightarrow> reads R (let x = v in k x)"
  by simp

lemma drive_search_reads:
  "(\<And>i. i \<in> set ids \<Longrightarrow> R (get_call token (drive_file_url i) drive_fields)) \<Longrightarrow> reads R (drive_search ops token query ids rows)"
proof (induction ids arbitrary: rows)
  case (Cons i ids)
  have "reads R (drive_search ops token query ids r)" for r using Cons by auto
  then show ?case using Cons.prems[of i] by (auto simp: Let_def intro!: reads_bind reads_json reads_simps)
qed (simp add: reads_simps)

lemma gmail_search_reads:
  "(\<And>l. l \<in> set ls \<Longrightarrow> R (get_call token gmail_messages [(''q'', query), (''labelIds'', l), (''maxResults'', ''10'')])) \<Longrightarrow>
   reads R (gmail_search ops token query ls found)"
proof (induction ls arbitrary: found)
  case (Cons l ls)
  have "reads R (gmail_search ops token query ls f)" for f using Cons by auto
  then show ?case using Cons.prems[of l] by (auto intro!: reads_bind reads_json reads_simps split: option.split)
qed (simp add: reads_simps)

lemmas get_fields = get_call_def post_call_def read_allowed_def write_allowed_def

lemma drive_trace:
  "writes (read_allowed version token ''google_drive'' base rs q) (write_allowed ops version token ''google_drive'' base rs q)
     (drive ops token rs (cl_tool q) (cl_values q) (cl_key q))"
proof -
  let ?R = "read_allowed version token ''google_drive'' base rs q" and ?W = "write_allowed ops version token ''google_drive'' base rs q"
  have afile: "?R (get_call token (drive_file_url i) ps)" "?R (get_call token (drive_file_url i @ ''/export'') ps)"
    if "''drive:file:'' @ i \<in> set rs" for i ps
    using that by (auto simp: get_fields intro!: namesI[of _ i])
  have read: "reads ?R (drive_read ops token rs (cl_values q))"
    unfolding drive_read_def Let_def
    by (intro trace_rules reads_bind reads_request) (auto dest!: require_resource_ok intro: afile)
  have search: "reads ?R (drive_search ops token query (resources_of ''drive:file:'' rs) [])" for query
    by (rule drive_search_reads) (auto dest: in_resources_of intro: afile)
  have create: "writes ?R ?W (drive_create ops token rs (cl_values q) (cl_key q))" if "cl_tool q = ''create_file''"
  proof -
    have "?W \<lparr> hc_verb = PostReq, hc_url = google_apis @ ''/upload/drive/v3/files'', hc_token = token, hc_params = ps, hc_json = None,
        hc_files = Some \<lparr> up_metadata = cn_dumps ops (PDict [(''name'', PStr name), (''parents'', PList [PStr folder]),
          (''appProperties'', PDict [(''bumpa_action'', PStr (take 120 (text_or_empty (cl_key q))))])]),
          up_name = name, up_content = content, up_mime = mime \<rparr> \<rparr>"
      if "''drive:folder:'' @ folder \<in> set rs" for folder name content mime ps
      using that \<open>cl_tool q = ''create_file''\<close> by (auto simp: get_fields metadata_in_folder_def intro!: namesI[of _ folder])
    moreover have "?R (get_call token (google_apis @ ''/drive/v3/files'')
        ((''q'', drive_marker_query (take 120 (text_or_empty (cl_key q)))) # ps))" for ps
      by (simp add: get_fields dict_get_def)
    ultimately show ?thesis
      unfolding drive_create_def Let_def text_or_empty_def[symmetric]
      by (intro writes_bind_pure writes_bind reads_json(1))
        (auto intro!: trace_rules dest!: require_resource_ok split: pyval.split list.split)
  qed
  show ?thesis
    unfolding drive_def using read search create
    by (auto intro!: trace_rules reads_bind writes_reads[where R = ?R])
qed

lemma ha_state_reads:
  "R (get_call token (base @ ''/api/states/'' @ quote [] e) []) \<Longrightarrow> reads R (ha_get_state ops token base e)"
  by (auto simp: ha_get_state_def intro!: trace_rules reads_bind)

lemma home_assistant_trace:
  "writes (read_allowed version token ''home_assistant'' base rs q) (write_allowed ops version token ''home_assistant'' base rs q)
     (home_assistant ops token base rs (cl_tool q) (cl_values q))"
proof -
  let ?R = "read_allowed version token ''home_assistant'' base rs q" and ?W = "write_allowed ops version token ''home_assistant'' base rs q"
  have entity: "reads ?R (ha_get_state ops token base e)" if "''home_assistant:entity:'' @ e \<in> set rs" for e
    using that by (intro ha_state_reads) (auto simp: get_fields intro!: namesI[of _ e])
  have services: "?R (get_call token (base @ ''/api/services'') [])" by (simp add: get_fields)
  have call: "?W (post_call token u [] body)"
    if "u = base @ ''/api/services/'' @ quote [] (hd (split_on CHR ''.'' s)) @ ''/'' @ quote [] (last (split_on CHR ''.'' s))"
      "''home_assistant:service:'' @ s \<in> set rs" "''home_assistant:entity:'' @ e \<in> set rs" "cl_tool q = ''call_service''"
      "service_data ops (cl_values q) e = Inr body" for u s e body
  proof -
    have "dict_get (dict_or_empty body) ''entity_id'' = PStr e"
      using that(5) by (auto simp: service_data_def dict_or_empty_def dict_get_def split: pyval.splits if_splits)
    then show ?thesis using that(1,4) namesI[OF that(2)] namesI[OF that(3)] by (simp add: get_fields)
  qed
  have list: "reads ?R (map_io (ha_get_state ops token base) (take 100 (resources_of ''home_assistant:entity:'' rs)))"
    by (intro reads_map entity) (meson in_resources_of in_set_takeD)
  have all: "writes ?R ?W (bind_io (json_value ops (get_call token (base @ ''/api/services'') [])) k)" if "\<And>x. writes ?R ?W (k x)" for k
    using that services by (intro writes_bind reads_json)
  show ?thesis
    unfolding home_assistant_def Let_def
    by (auto intro!: writes_bind_pure writes_bind[OF list] writes_bind[OF entity] all writes_last_value call quiet_ret writes_simps
      dest!: require_resource_ok split: pyval.split)
qed

lemma sheets_prefix: "sheets_url i cells = sheets_url i [] @ quote ''!:$'' cells"
  by (simp add: sheets_url_def quote_def)

lemma sheets_trace:
  "writes (read_allowed version token ''google_sheets'' base rs q) (write_allowed ops version token ''google_sheets'' base rs q)
     (sheets ops token rs (cl_tool q) (cl_values q))"
proof -
  let ?R = "read_allowed version token ''google_sheets'' base rs q" and ?W = "write_allowed ops version token ''google_sheets'' base rs q"
  have "?R (get_call token (sheets_url i cells) [])" if "''sheets:spreadsheet:'' @ i \<in> set rs" for i cells
    using that by (subst sheets_prefix) (auto simp: get_fields intro!: namesI[of _ i])
  moreover have "?W (post_call token (sheets_url i cells @ '':append'') ps body)"
    if "''sheets:spreadsheet:'' @ i \<in> set rs" "cl_tool q = ''append_rows''" for i cells ps body
    using that by (subst sheets_prefix) (auto simp: get_fields intro!: namesI[of _ i])
  ultimately show ?thesis
    unfolding sheets_def Let_def
    by (auto intro!: writes_bind_pure writes_get writes_post quiet_ret writes_simps dest!: require_resource_ok)
qed

lemma gmail_trace:
  "writes (read_allowed version token ''gmail'' base rs q) (write_allowed ops version token ''gmail'' base rs q)
     (gmail ops token rs (cl_tool q) (cl_values q) (cl_key q))"
proof -
  let ?R = "read_allowed version token ''gmail'' base rs q" and ?W = "write_allowed ops version token ''gmail'' base rs q"
  have search: "reads ?R (gmail_search ops token query (gmail_labels rs) [])" for query
  proof (rule gmail_search_reads)
    fix l assume "l \<in> set (gmail_labels rs)"
    then have "''gmail:label:'' @ l \<in> set rs" unfolding gmail_labels_def by (rule in_resources_of)
    then show "?R (get_call token gmail_messages [(''q'', query), (''labelIds'', l), (''maxResults'', ''10'')])"
      by (auto simp: get_fields intro!: namesI[of _ l])
  qed
  have one: "?R (get_call token (gmail_messages @ CHR ''/'' # quote [] i) ps)"
    if "string_arg (cl_values q) ''message_id'' 200 = Inr i" "cl_tool q = ''read_message''" for i ps
    using that by (simp add: get_fields)
  have send: "writes ?R ?W (gmail_send ops token rs (cl_values q) (cl_key q))" if "cl_tool q = ''send_message''"
  proof -
    have "?W (post_call token (gmail_messages @ ''/send'') [] (PDict [(''raw'', PStr (strip_padding (b64_encode bytes)))]))"
      if "string_arg (cl_values q) ''to'' 320 = Inr recipient" "string_arg (cl_values q) ''subject'' 500 = Inr subject"
        "string_arg (cl_values q) ''body'' 50000 = Inr mail" "''gmail:recipient-domain:'' @ recipient_domain recipient \<in> set rs"
        "cn_mail ops recipient subject (message_id (cl_key q)) mail = Some bytes" for recipient subject mail bytes
      using that \<open>cl_tool q = ''send_message''\<close>
      by (auto simp: get_fields mail_of_def intro!: namesI[of _ "recipient_domain recipient"])
    then show ?thesis
      unfolding gmail_send_def
      by (auto intro!: writes_bind_pure writes_post quiet_ret writes_simps dest!: require_resource_ok split: option.split)
  qed
  show ?thesis
    unfolding gmail_def
    by (auto intro!: writes_bind_pure writes_bind[OF search] writes_get one send writes_simps)
qed

lemma calendar_trace:
  "writes (read_allowed version token ''calendar'' base rs q) (write_allowed ops version token ''calendar'' base rs q)
     (calendar ops token rs (cl_tool q) (cl_values q) (cl_key q))"
proof -
  let ?R = "read_allowed version token ''calendar'' base rs q" and ?W = "write_allowed ops version token ''calendar'' base rs q"
  have "?R (get_call token (calendar_url i) ps)" if "''calendar:calendar:'' @ i \<in> set rs" for i ps
    using that by (auto simp: get_fields intro!: namesI[of _ i])
  moreover have "writes ?R ?W (calendar_create ops token i (cl_values q) (cl_key q))"
    if "''calendar:calendar:'' @ i \<in> set rs" "cl_tool q = ''create_event''" for i
  proof -
    have "?W (post_call token (calendar_url i) ps body)" for ps body
      using that by (auto simp: get_fields intro!: namesI[of _ i])
    then show ?thesis
      unfolding calendar_create_def by (auto intro!: writes_bind_pure writes_post quiet_ret writes_simps)
  qed
  ultimately show ?thesis
    unfolding calendar_def
    by (auto intro!: writes_bind_pure writes_get writes_simps dest!: require_resource_ok)
qed

lemma meta_trace:
  "writes (read_allowed version token ''meta_ads'' base rs q) (write_allowed ops version token ''meta_ads'' base rs q)
     (meta_ads ops version token rs (cl_tool q) (cl_values q))"
proof -
  let ?R = "read_allowed version token ''meta_ads'' base rs q" and ?W = "write_allowed ops version token ''meta_ads'' base rs q"
  have "?R (get_call token (meta_campaign_url version a @ ''/campaigns'') ps)" if "''meta_ads:account:'' @ a \<in> set rs" for a ps
    using that by (auto simp: get_fields intro!: namesI[of _ a])
  moreover have "writes ?R ?W (meta_update ops version token a (cl_values q))"
    if "''meta_ads:account:'' @ a \<in> set rs" "string_arg (cl_values q) ''ad_account_id'' 80 = Inr a" "cl_tool q = ''update_campaign_status''" for a
  proof -
    have "?W (post_call token (meta_campaign_url version i) ps body)" "?R (get_call token (meta_campaign_url version i) ps)"
      if "string_arg (cl_values q) ''campaign_id'' 80 = Inr i" for i ps body
      using that \<open>string_arg (cl_values q) ''ad_account_id'' 80 = Inr a\<close> \<open>cl_tool q = ''update_campaign_status''\<close>
        \<open>''meta_ads:account:'' @ a \<in> set rs\<close>
      by (auto simp: get_fields campaign_url_def intro!: namesI[of _ a])
    then show ?thesis
      unfolding meta_update_def Let_def
      by (auto intro!: writes_bind_pure writes_get writes_post quiet_ret writes_simps)
  qed
  ultimately show ?thesis
    unfolding meta_ads_def Let_def
    by (auto intro!: writes_bind_pure writes_get writes_simps dest!: require_resource_ok)
qed

text \<open>A campaign is changed only after it was looked up and no other account was named as its own.\<close>

definition account_not_foreign :: "conn_ops \<Rightarrow> connector_call \<Rightarrow> http_call list \<Rightarrow> bool" where
  "account_not_foreign ops q gets = (case gets of
     [g] \<Rightarrow> (case cn_send ops [] g of
        Reply status content \<Rightarrow> (case (cn_loads ops content, string_arg (cl_values q) ''ad_account_id'' 80) of
           (Some (PDict d), Inr account) \<Rightarrow> let actual = str_of ops (get_default d ''account_id'' (PStr [])) in
             actual = [] \<or> same_account account actual
         | _ \<Rightarrow> False)
      | Broken \<Rightarrow> False)
   | _ \<Rightarrow> False)"

lemma json_dict_run:
  "json_dict ops g h = (h @ [g], r) \<Longrightarrow> r = Inr d \<Longrightarrow>
   \<exists>status content. cn_send ops h g = Reply status content \<and> cn_loads ops content = Some (PDict d)"
  by (auto simp: json_dict_def bind_io_def request_def pure_def split: reply.splits if_splits option.splits pyval.splits)

lemma json_dict_trace: "fst (json_dict ops g h) = h @ [g]"
  by (auto simp: json_dict_def bind_io_def request_def pure_def split: prod.splits sum.splits)

lemma json_then_quiet: "quiet k \<Longrightarrow> fst (bind_io (json_dict ops w) k h) = h @ [w]"
  using json_dict_trace[of ops w h] by (auto simp: bind_io_def quiet_def split: prod.split sum.split)

lemma meta_checked:
  assumes "fst (meta_ads ops version token rs (cl_tool q) (cl_values q) []) = gets @ [p]" "hc_verb p = PostReq"
  shows "account_not_foreign ops q gets"
proof -
  obtain a where a: "string_arg (cl_values q) ''ad_account_id'' 80 = Inr a"
    using assms(1) by (cases "string_arg (cl_values q) ''ad_account_id'' 80") (simp_all add: meta_ads_def bind_pure pure_def)
  have r: "is_ok (require_resource rs (''meta_ads:account:'' @ a))"
    using assms(1) by (cases "require_resource rs (''meta_ads:account:'' @ a)") (simp_all add: meta_ads_def bind_pure a pure_def)
  have m: "meta_ads ops version token rs (cl_tool q) (cl_values q) = (if cl_tool q = ''read_campaigns'' then
      bind_io (json_dict ops (get_call token (meta_campaign_url version a @ ''/campaigns'')
            [(''fields'', ''id,name,status,effective_status,objective,updated_time''), (''limit'', ''50'')])) (\<lambda>response.
          let rows = take 50 (list_or_empty (dict_get response ''data'')) in
          ret (PDict [(''campaigns'', PList rows), (''count'', PInt (int (length rows))), (''untrusted_content'', PBool True)]))
      else if cl_tool q = ''update_campaign_status'' then meta_update ops version token a (cl_values q)
      else fail ''This Meta Ads tool is not supported.'')"
    using r by (simp add: meta_ads_def bind_pure a is_ok_def split: sum.splits)
  have quiet_get: False if "fst (bind_io (json_dict ops (get_call t u ps)) k []) = gets @ [p]" "quiet k" for t u ps k
    using that(1) assms(2) json_then_quiet[OF that(2), of ops "get_call t u ps" "[]"] by (auto simp: get_call_def)
  have tool: "cl_tool q = ''update_campaign_status''"
    using assms(1) quiet_get[of _ _ _ "\<lambda>x. ret (f x)" for f] unfolding m
    by (auto simp: quiet_ret Let_def fail_def split: if_splits)
  have u: "fst (meta_update ops version token a (cl_values q) []) = gets @ [p]" using assms(1) unfolding m by (simp add: tool)
  obtain i where i: "string_arg (cl_values q) ''campaign_id'' 80 = Inr i"
    using u by (cases "string_arg (cl_values q) ''campaign_id'' 80") (simp_all add: meta_update_def bind_pure pure_def)
  obtain st where st: "string_arg (cl_values q) ''status'' 20 = Inr st"
    using u by (cases "string_arg (cl_values q) ''status'' 20") (simp_all add: meta_update_def bind_pure i pure_def)
  have ok: "upper st \<in> {''ACTIVE'', ''PAUSED''}"
    using u by (rule_tac ccontr) (simp add: meta_update_def bind_pure i st fail_def)
  let ?g = "get_call token (meta_campaign_url version i) [(''fields'', ''id,account_id,status'')]"
  obtain r where r: "json_dict ops ?g [] = ([?g], r)" using json_dict_trace[of ops ?g "[]"] by (metis append_Nil prod.collapse)
  have get: "hc_verb ?g = GetReq" by (simp add: get_call_def)
  obtain d where d: "r = Inr d" using u ok get assms(2)
    by (cases r) (auto simp: meta_update_def bind_pure i st bind_io_def r)
  let ?actual = "str_of ops (get_default d ''account_id'' (PStr []))"
  have ac: "?actual = [] \<or> same_account a ?actual"
    using u ok get assms(2) by (rule_tac ccontr) (auto simp: meta_update_def bind_pure i st bind_io_def r d Let_def fail_def)
  have "gets = [?g]"
  proof -
    have "fst (meta_update ops version token a (cl_values q) []) = [?g, post_call token (meta_campaign_url version i) []
        (PDict [(''status'', PStr (upper st))])]"
      using ok ac by (simp add: meta_update_def bind_pure i st Let_def) (auto simp: bind_io_def[of "json_dict ops ?g"] r d json_then_quiet quiet_ret)
    then show ?thesis using u by simp
  qed
  then show ?thesis using json_dict_run[of ops ?g "[]" r d] r d a ac by (auto simp: account_not_foreign_def Let_def)
qed

section \<open>A whole call\<close>

definition run_split :: "connector_env \<Rightarrow> mcp_connection \<Rightarrow> string \<Rightarrow> string \<Rightarrow> connector_call \<Rightarrow> http_call list \<Rightarrow> http_call list \<Rightarrow> bool" where
  "run_split env c token base q gets posts =
    (list_all (read_allowed (os_graph_version (ce_settings env)) token (mc_provider c) base (mc_allowed_resources c) q) gets
     \<and> list_all (write_allowed (ce_conn env) (os_graph_version (ce_settings env)) token (mc_provider c) base (mc_allowed_resources c) q) posts
     \<and> length posts \<le> 1)"

lemma run_tool_split: "\<exists>gets posts. fst (run_tool env c token base q []) = gets @ posts
  \<and> run_split env c token (text_or_empty base) q gets posts"
proof -
  let ?v = "os_graph_version (ce_settings env)" and ?rs = "mc_allowed_resources c" and ?ops = "ce_conn env"
  have "writes (read_allowed ?v token (mc_provider c) (text_or_empty base) ?rs q)
      (write_allowed ?ops ?v token (mc_provider c) (text_or_empty base) ?rs q) (run_tool env c token base q)"
    using home_assistant_trace drive_trace sheets_trace gmail_trace calendar_trace meta_trace
    by (auto simp: run_tool_def Let_def writes_simps)
  then show ?thesis unfolding writes_def run_split_def by (metis append_Nil)
qed

lemma write_tool_kind:
  assumes "write_allowed ops version token provider base rs q x"
  shows "Option.bind (provider_tools provider) (\<lambda>ts. map_of ts (cl_tool q)) = Some KWrite"
  using assms by (auto simp: write_allowed_def provider_tools_def split: if_splits)

lemma authorize_kind:
  assumes "authorize_mcp_tool db tenant i tool confirmed = Inr c"
    "Option.bind (provider_tools (mc_provider c)) (\<lambda>ts. map_of ts tool) = Some KWrite"
  shows "confirmed \<and> \<not> mc_read_only c \<and> (\<exists>p. find_permission db tenant (mc_id c) tool = Some p \<and> tp_permission p = ToolWrite)"
proof -
  obtain c0 where c0: "find (\<lambda>c. mc_id c = i \<and> mc_tenant_id c = tenant) (ag_connections db) = Some c0"
    using assms(1) by (auto simp: authorize_mcp_tool_def split: option.splits)
  obtain p where p: "find_permission db tenant (mc_id c0) tool = Some p"
    using assms(1) by (auto simp: authorize_mcp_tool_def c0 split: option.splits if_splits)
  have c: "c = c0" using assms(1) by (auto simp: authorize_mcp_tool_def c0 p split: if_splits)
  show ?thesis using assms p unfolding c
    by (cases "tp_permission p") (auto simp: authorize_mcp_tool_def c0 valid_tool_permission_def split: if_splits)
qed

lemma acquire_base:
  assumes "acquire env now nonce wr c db = (db1, Inr (token, base))"
  shows "if mc_provider c = ''home_assistant'' then \<exists>h. base = Some (''https://'' @ h) \<and> host_ok h
      \<and> \<not> list_ex (ends_with h) blocked_suffixes \<and> \<not> ce_is_ip env h else base = None"
  using assms
  by (auto simp: acquire_def decrypt_ha_credentials_def validate_base_url_def Let_def
      split: if_splits prod.splits sum.splits option.splits pyval.splits)


section \<open>Recipients of a mail\<close>

text \<open>The addresses a mail system reads in a \<^verbatim>\<open>To\<close> header of plain addresses: they are separated by commas.\<close>

definition mail_recipients :: "string \<Rightarrow> string list" where
  "mail_recipients header = map strip (split_on (CHR '','') header)"

lemma split_on_two: "c \<in> set y \<Longrightarrow> \<exists>f g gs. split_on c y = f # g # gs"
proof (induction y)
  case (Cons a y)
  show ?case
  proof (cases "a = c")
    case True
    then show ?thesis using split_on_nonempty[of c y] by (cases "split_on c y") auto
  next
    case False
    then show ?thesis using Cons by auto
  qed
qed simp

lemma last_split_append: "c \<in> set y \<Longrightarrow> last (split_on c (x @ y)) = last (split_on c y)"
proof (induction x)
  case (Cons a x)
  have two: "\<exists>f g gs. split_on c (x @ y) = f # g # gs" using Cons.prems by (intro split_on_two) simp
  show ?case using Cons two by (auto split: list.split)
qed simp

lemma split_on_last: "c \<notin> set y \<Longrightarrow> split_on c (x @ c # y) = split_on c x @ [y]"
  by (induction x) (auto simp: split_on_no_sep split: list.split)

text \<open>C30: the recipient allowlist does not confine a mail. Let one domain be allowed. For every address \<open>victim\<close> of
  any other domain, the tool that sends mail accepts the recipients "victim,friend" with a friend of the allowed
  domain, because only what follows the last at-sign is compared; the mail is composed and sent to both.\<close>

theorem recipient_allowlist_bypass:
  assumes "''gmail:recipient-domain:'' @ recipient_domain friend \<in> set resources" "CHR ''@'' \<in> set friend" "CHR '','' \<notin> set friend"
    and "dict_get values ''to'' = PStr (victim @ '','' @ friend)" "strip (victim @ '','' @ friend) = victim @ '','' @ friend"
      "length (victim @ '','' @ friend) \<le> 320" "strip victim = victim" "CHR '','' \<notin> set victim" "strip friend = friend"
    and "string_arg values ''subject'' 500 = Inr subject" "string_arg values ''body'' 50000 = Inr mail"
    and "cn_mail ops (victim @ '','' @ friend) subject (message_id key) mail = Some bytes"
  shows "fst (gmail ops token resources ''send_message'' values key [])
      = [post_call token (gmail_messages @ ''/send'') [] (PDict [(''raw'', PStr (strip_padding (b64_encode bytes)))])]
    \<and> mail_recipients (victim @ '','' @ friend) = [victim, friend]"
proof -
  let ?to = "victim @ '','' @ friend"
  have "string_arg values ''to'' 320 = Inr ?to"
    using assms(4-6) by (simp add: string_arg_def)
  moreover have "recipient_domain ?to = recipient_domain friend"
    using assms(2) last_split_append[of "CHR ''@''" friend "victim @ '',''"] by (simp add: recipient_domain_def)
  ultimately have "fst (gmail ops token resources ''send_message'' values key [])
      = [post_call token (gmail_messages @ ''/send'') [] (PDict [(''raw'', PStr (strip_padding (b64_encode bytes)))])]"
    using assms(1,10-12) by (simp add: gmail_def gmail_send_def bind_pure require_resource_def json_then_quiet quiet_ret)
  moreover have "mail_recipients ?to = [victim, friend]"
    using assms(3,7-9) split_on_last[of "CHR '',''" friend victim] by (simp add: mail_recipients_def split_on_no_sep)
  ultimately show ?thesis ..
qed

section \<open>The OAuth state\<close>

text \<open>JSON round trips of flat dictionaries, up to the order of keys.\<close>

definition json_laws :: "oauth_ops \<Rightarrow> bool" where
  "json_laws ops = (\<forall>d. distinct (map fst d) \<and> list_all (\<lambda>kv. case snd kv of PStr _ \<Rightarrow> True | PInt _ \<Rightarrow> True | _ \<Rightarrow> False) d \<longrightarrow>
     (\<exists>d'. oo_read ops (to_utext (oo_dumps ops (PDict d))) = Some (PDict d') \<and> map_of d' = map_of d))"

lemma decrypt_empty: "\<not> is_ok (decrypt ae c [])"
  by (simp add: decrypt_def decrypt_with_metadata_def and_then_def starts_with_def)

text \<open>The state that travels through a provider's consent page comes back as it left. The address of the consent
  page carries a sealed state; presented before the announced expiry it opens to exactly the connection, tenant, user,
  provider and code verifier it was made for, and later it is refused. A read-only connection asks for read scopes.\<close>

theorem oauth_state_round_trip:
  assumes "aead_laws (oo_aead ops)" "make_cipher derive secret key_id old version = Inr cipher" "length nonce = 12" "json_laws ops"
    and "connection \<noteq> []" "tenant \<noteq> []" "user \<noteq> []" "43 \<le> length verifier" "length verifier \<le> 128" "provider_tools provider \<noteq> None"
    and "build_authorization_url ops st cipher now verifier nonce connection tenant user provider read_only = Inr (u, expires)"
  shows "\<exists>client state scopes. oauth_client_of st provider = Some client \<and> connection_scopes provider read_only = Some scopes
    \<and> u = ol_authorization_url client @ ''?'' @ urlencode (authorization_parameters ops st client scopes verifier state)
    \<and> (read_only \<longrightarrow> map_option fst (provider_scopes provider) = Some scopes)
    \<and> expires = unix (now + seconds (os_state_ttl st))
    \<and> (length state \<le> 8192 \<longrightarrow> (\<forall>now'. decode_oauth_state ops cipher now' state = (if unix now' \<le> expires
        then Inr \<lparr> st_connection_id = connection, st_tenant_id = tenant, st_user_id = user, st_provider = provider,
          st_verifier = verifier, st_expires_at = expires \<rparr>
        else Inl (OAuthError ''OAuth state is invalid or expired''))))"
proof -
  obtain client where cl: "oauth_client_of st provider = Some client"
    using assms(11) by (cases "oauth_client_of st provider") (simp_all add: build_authorization_url_def)
  define s where "s = \<lparr> st_connection_id = connection, st_tenant_id = tenant, st_user_id = user, st_provider = provider,
          st_verifier = verifier, st_expires_at = unix (now + seconds (os_state_ttl st)) \<rparr>"
  let ?t = "to_utext (oo_dumps ops (PDict (state_payload s)))"
  obtain e where e: "encrypt (oo_aead ops) cipher nonce ?t = Inr e" "decrypt (oo_aead ops) cipher e = Inr ?t"
    using encrypt_decrypt[OF assms(1) make_cipher_good[OF assms(2)] assms(3) to_utext_scalar, of "oo_dumps ops (PDict (state_payload s))"]
    by (auto simp: decrypt_def)
  obtain scopes where sc: "connection_scopes provider read_only = Some scopes"
    "read_only \<longrightarrow> map_option fst (provider_scopes provider) = Some scopes"
    using assms(10) by (auto simp: connection_scopes_def provider_scopes_def provider_tools_def split: if_splits)
  have u: "u = ol_authorization_url client @ ''?'' @ urlencode (authorization_parameters ops st client scopes verifier e)"
    "expires = unix (now + seconds (os_state_ttl st))"
    using assms(11) by (auto simp: build_authorization_url_def cl Let_def s_def[symmetric] e(1) sc(1))
  have "distinct (map fst (state_payload s))"
    "list_all (\<lambda>kv. case snd kv of PStr _ \<Rightarrow> True | PInt _ \<Rightarrow> True | _ \<Rightarrow> False) (state_payload s)"
    by (simp_all add: state_payload_def)
  then obtain d' where d': "oo_read ops ?t = Some (PDict d')" "map_of d' = map_of (state_payload s)"
    using assms(4) unfolding json_laws_def by blast
  have "state_of ops (PDict d') = Some s"
    by (simp add: state_of_def d'(2) state_payload_def oauth_str_def int_of_json_def s_def)
  moreover have "e \<noteq> []" using e(2) decrypt_empty[of "oo_aead ops" cipher] by auto
  moreover have "st_connection_id s = connection" "st_tenant_id s = tenant" "st_user_id s = user" "st_provider s = provider"
    "st_verifier s = verifier" "st_expires_at s = expires"
    by (simp_all add: s_def u(2))
  ultimately have "length e \<le> 8192 \<longrightarrow> (\<forall>now'. decode_oauth_state ops cipher now' e = (if unix now' \<le> expires then Inr s
      else Inl (OAuthError ''OAuth state is invalid or expired'')))"
    using assms(5-10) by (auto simp: decode_oauth_state_def e(2) d'(1) Let_def)
  then show ?thesis using cl sc u by (auto simp: s_def)
qed

end
