(* ===== verification/ActionSafety.thy ===== *)
theory ActionSafety
  imports AgentActions
begin

text \<open>
  Properties of confirmed external writes: an action's effect leaves the application at most once, and only
  the effect that was previewed and confirmed, by someone who may still write. Context tokens open exactly
  for their tenant, purpose and lifetime.
\<close>

section \<open>The documented behaviour of the parameters\<close>

text \<open>JSON round trips of flat dictionaries up to key order, base64 has no dot, signatures are ASCII and differ between
  domains. A dictionary's digest determines the digests of its entries, and a text's digest the text:
  SHA-256 is taken to be free of collisions.\<close>

fun flat :: "pyval \<Rightarrow> bool" where
  "flat PNone = True"
| "flat (PInt _) = True"
| "flat (PStr _) = True"
| "flat _ = False"

definition token_laws :: "action_ops \<Rightarrow> bool" where
  "token_laws ops = ((\<forall>d. distinct (map fst d) \<and> list_all (\<lambda>kv. flat (snd kv)) d \<longrightarrow>
       (\<exists>d'. ao_decode ops (ao_encode ops (PDict d)) = Some (PDict d') \<and> map_of d' = map_of d))
     \<and> (\<forall>v. CHR ''.'' \<notin> set (ao_encode ops v))
     \<and> (\<forall>x y. ascii (ao_sign ops x y))
     \<and> (\<forall>x y v. ao_sign ops x v = ao_sign ops y v \<longrightarrow> x = y))"

definition digest_laws :: "action_ops \<Rightarrow> bool" where
  "digest_laws ops = ((\<forall>d d'. ao_digest ops (PDict d) = ao_digest ops (PDict d') \<and> map fst d = map fst d' \<longrightarrow>
       (\<forall>k. ao_digest ops (dict_get d k) = ao_digest ops (dict_get d' k)))
     \<and> (\<forall>x y. ao_digest ops (opt_str x) = ao_digest ops (opt_str y) \<longrightarrow> x = y))"

section \<open>Context tokens\<close>

lemma split_dot_sealed: "CHR ''.'' \<notin> set a \<Longrightarrow> split_dot (a @ ''.'' @ b) = Some (a, b)"
  by (induction a) auto

lemma truthy_opt: "truthy (opt_str x) \<longleftrightarrow> x \<notin> {None, Some []}"
  by (cases x) (auto simp: opt_str_def)

lemma flat_opt [simp]: "flat (opt_str x)"
  by (cases x) (simp_all add: opt_str_def)

lemma token_domain_inj: "token_domain p = token_domain q \<Longrightarrow> p = q"
  by (cases p; cases q) simp_all

text \<open>A context token opens exactly for its tenant, its purpose and its two hours. Read under any tenant, purpose and
  clock, a token gives back the context it was made for if the tenant and the purpose are its own and it
  has not expired, and is refused otherwise; so a token for memory or profile updates never authorises an action.\<close>

theorem context_token_round_trip:
  assumes "token_laws ops" "channel \<in> {''web'', ''whatsapp''}" "user \<noteq> []" "cid \<noteq> []" "request \<noteq> []" "inbound \<noteq> Some []"
  shows "read_context ops now' (create_action_context_token ops now request tenant user cid channel inbound run purpose) tenant' purpose'
    = (if tenant' = tenant \<and> purpose' = purpose \<and> unix now' \<le> unix now + 7200
       then Some \<lparr> ac_tenant_id = tenant, ac_user_id = user, ac_conversation_id = cid, ac_channel = channel,
          ac_request_id = request, ac_initiating = inbound, ac_expires_at = unix now + 7200, ac_run_id = opt_str run \<rparr>
       else None)"
proof -
  define d where "d = context_payload tenant user cid channel request inbound run (unix now + 7200)"
  define e where "e = ao_encode ops (PDict d)"
  have "distinct (map fst d)" "list_all (\<lambda>kv. flat (snd kv)) d" by (simp_all add: d_def context_payload_def)
  then obtain d' where d': "ao_decode ops e = Some (PDict d')" "map_of d' = map_of d"
    using assms(1) unfolding token_laws_def e_def by blast
  have get: "dict_get d' k = dict_get d k" for k by (simp add: dict_get_def d'(2))
  have tok: "split_dot (create_action_context_token ops now request tenant user cid channel inbound run purpose)
      = Some (e, ao_sign ops (token_domain purpose) e)"
    using assms(1) split_dot_sealed[of e]
    by (simp add: create_action_context_token_def sealed_def d_def[symmetric] e_def[symmetric] token_laws_def) (simp add: e_def)
  have sig: "ascii (ao_sign ops x y)" "ao_sign ops (token_domain purpose) e = ao_sign ops (token_domain purpose') e \<longleftrightarrow> purpose' = purpose" for x y
    using assms(1) token_domain_inj unfolding token_laws_def by blast+
  have inb: "(if truthy (opt_str inbound) then Some (py_str ops (opt_str inbound)) else None) = inbound"
    using assms(6) by (cases inbound) (auto simp: opt_str_def py_str_def)
  have entries: "dict_get d' ''request_id'' = PStr request" "dict_get d' ''initiating_message_id'' = opt_str inbound"
    "dict_get d' ''execution_run_id'' = opt_str run" "map_of d' ''tenant_id'' = Some (PStr tenant)"
    "map_of d' ''user_id'' = Some (PStr user)" "map_of d' ''conversation_id'' = Some (PStr cid)"
    "map_of d' ''channel'' = Some (PStr channel)" "map_of d' ''expires_at'' = Some (PInt (unix now + 7200))"
    by (simp_all add: get d'(2)) (simp_all add: d_def context_payload_def dict_get_def)
  have ctx: "context_of ops e (PDict d') = Some \<lparr> ac_tenant_id = tenant, ac_user_id = user, ac_conversation_id = cid,
      ac_channel = channel, ac_request_id = request, ac_initiating = inbound, ac_expires_at = unix now + 7200, ac_run_id = opt_str run \<rparr>"
    unfolding context_of_def pyval.case entries inb using assms(5) by (simp add: py_str_def int_of_json_def)
  show ?thesis
    using assms(2-5) by (auto simp: read_context_def tok sig d'(1) ctx)
qed

section \<open>The exact confirmed effect\<close>

lemma and_then_is_Inr: "and_then m k = Inr y \<Longrightarrow> \<exists>x. m = Inr x \<and> k x = Inr y"
  by (simp add: and_then_Inr)

lemma find_action_Some:
  "find_action db i tenant user = Some a \<Longrightarrow>
   tbl_find pa_id i (ag_actions db) = Some a \<and> pa_id a = i \<and> pa_tenant_id a = tenant \<and> pa_user_id a = user"
  by (auto simp: find_action_def dest: tbl_find_Some split: option.splits if_splits)

lemma before_dispatch_ok:
  assumes "before_dispatch ops db now f i tenant user supplied = (f', Inr a)"
  shows "find_action db i tenant user = Some a \<and> pa_status a = AExecuting \<and> now < pa_expires_at a
    \<and> verify_confirmation_token ops a supplied = Inr () \<and> validate_bound_source db a = Inr ()
    \<and> write_actor db tenant user
    \<and> (\<exists>r. current_authorization ops db a = Inr r \<and> pa_revision a = Some r)"
proof -
  obtain b where b: "find_action db i tenant user = Some b"
    using assms by (cases "find_action db i tenant user") (simp_all add: before_dispatch_def)
  have live: "pa_status b = AExecuting" "now < pa_expires_at b"
    using assms by (simp_all add: before_dispatch_def b split: if_splits)
  let ?m = "and_then (verify_confirmation_token ops b supplied) (\<lambda>_. and_then (validate_bound_source db b) (\<lambda>_.
                require_write_actor db tenant user))"
  obtain u where u: "?m = Inr u" using assms live by (cases ?m) (simp_all add: before_dispatch_def b)
  obtain f1 res where l: "assert_current_job_lease db now f = (f1, res)" by fastforce
  obtain w where w: "res = Inr w" using assms live u by (cases res) (simp_all add: before_dispatch_def b l)
  obtain r where r: "current_authorization ops db b = Inr r"
    using assms live u w by (cases "current_authorization ops db b") (simp_all add: before_dispatch_def b l)
  have "a = b \<and> pa_revision b = Some r" using assms live u w r by (auto simp: before_dispatch_def b l split: if_splits)
  moreover have "verify_confirmation_token ops b supplied = Inr ()" "validate_bound_source db b = Inr ()"
    "write_actor db tenant user"
    using u by (auto simp: and_then_Inr require_write_actor_def split: if_splits)
  ultimately show ?thesis using b live r by auto
qed

lemma connector_write_sent:
  assumes "connector_write ops db now f i tenant user supplied a = (f', Some e, res)"
  shows "\<exists>f1 b c. before_dispatch ops db now f i tenant user supplied = (f1, Inr b) \<and> e = effect_of b
    \<and> authorize_mcp_tool db tenant (ef_connection (effect_of a)) (pa_tool a) True = Inr c"
proof -
  obtain c where c: "authorize_mcp_tool db tenant (ef_connection (effect_of a)) (pa_tool a) True = Inr c"
    using assms by (cases "authorize_mcp_tool db tenant (ef_connection (effect_of a)) (pa_tool a) True")
      (simp_all add: connector_write_def)
  obtain token where acq: "ao_acquire ops c = Inr token" using assms by (cases "ao_acquire ops c") (simp_all add: connector_write_def c)
  obtain f1 r where b: "before_dispatch ops db now f i tenant user supplied = (f1, r)" by fastforce
  then show ?thesis using assms c acq by (cases r) (simp_all add: connector_write_def)
qed

lemma dispatch_sent:
  assumes "dispatch_action ops db n1 n2 n3 f i tenant user supplied = (f', Some e, out)"
  shows "\<exists>f1 f2 a c. before_dispatch ops db n2 f1 i tenant user supplied = (f2, Inr a) \<and> e = effect_of a
    \<and> authorize_mcp_tool db tenant (ef_connection e) (ef_tool e) True = Inr c \<and> pa_connection_id a \<notin> {None, Some []}"
proof -
  obtain a where a: "find_action db i tenant user = Some a"
    using assms by (cases "find_action db i tenant user") (simp_all add: dispatch_action_def)
  have conn: "pa_connection_id a \<notin> {None, Some []}"
    using assms by (rule_tac ccontr) (simp add: dispatch_action_def a Let_def)
  obtain f1 r where b: "before_dispatch ops db n1 f i tenant user supplied = (f1, r)" by fastforce
  obtain b where rb: "r = Inr b" using assms conn by (cases r) (auto simp: dispatch_action_def a b Let_def)
  obtain f2 sent res where w: "connector_write ops db n2 f1 i tenant user supplied b = (f2, sent, res)"
    by (metis prod_cases3)
  have "sent = Some e" using assms conn by (auto simp: dispatch_action_def a b rb w Let_def)
  from connector_write_sent[OF w[unfolded this]] obtain f3 b' c where
    s: "before_dispatch ops db n2 f1 i tenant user supplied = (f3, Inr b')" "e = effect_of b'"
      "authorize_mcp_tool db tenant (ef_connection (effect_of b)) (pa_tool b) True = Inr c" by blast
  have "b = a" "b' = a" using before_dispatch_ok[OF b[unfolded rb]] before_dispatch_ok[OF s(1)] a by simp_all
  then show ?thesis using s conn by (auto simp: effect_of_def)
qed

text \<open>Two actions with the same confirmation token have the same exact effect.\<close>

lemma confirmation_token_inj:
  assumes "token_laws ops" "digest_laws ops" "confirmation_token ops a = confirmation_token ops b"
  shows "pa_id a = pa_id b \<and> pa_tenant_id a = pa_tenant_id b \<and> pa_user_id a = pa_user_id b \<and> pa_tool a = pa_tool b
    \<and> pa_target a = pa_target b \<and> pa_connection_id a = pa_connection_id b
    \<and> ao_digest ops (pa_input a) = ao_digest ops (pa_input b)
    \<and> ao_digest ops (PDict (pa_binding a)) = ao_digest ops (PDict (pa_binding b))
    \<and> (pa_revision a \<notin> {None, Some []} \<longrightarrow> pa_revision b = pa_revision a)"
proof -
  have "distinct (map fst (confirmation_payload ops x))" "list_all (\<lambda>kv. flat (snd kv)) (confirmation_payload ops x)" for x
    by (simp_all add: confirmation_payload_def)
  then have laws: "\<exists>d'. ao_decode ops (ao_encode ops (PDict (confirmation_payload ops x))) = Some (PDict d')
      \<and> map_of d' = map_of (confirmation_payload ops x)"
    and dot: "CHR ''.'' \<notin> set (ao_encode ops v)" for x v
    using assms(1) unfolding token_laws_def by blast+
  have "Some (ao_encode ops (PDict (confirmation_payload ops a))) = Some (ao_encode ops (PDict (confirmation_payload ops b)))"
    using arg_cong[OF assms(3), of "\<lambda>t. map_option fst (split_dot t)"] split_dot_sealed[OF dot]
    by (simp add: confirmation_token_def sealed_def)
  then have same: "map_of (confirmation_payload ops a) = map_of (confirmation_payload ops b)"
    using laws[of a] laws[of b] by auto
  have ids: "pa_id a = pa_id b" "pa_tenant_id a = pa_tenant_id b" "pa_user_id a = pa_user_id b"
    "ao_digest ops (PDict (exact_effect a)) = ao_digest ops (PDict (exact_effect b))"
    using fun_cong[OF same, of "''action_id''"] fun_cong[OF same, of "''tenant_id''"] fun_cong[OF same, of "''user_id''"]
      fun_cong[OF same, of "''exact_effect_hash''"] by (simp_all add: confirmation_payload_def)
  have "map fst (exact_effect a) = map fst (exact_effect b)" by (simp add: exact_effect_def)
  then have entry: "ao_digest ops (dict_get (exact_effect a) k) = ao_digest ops (dict_get (exact_effect b) k)" for k
    using assms(2) ids(4) unfolding digest_laws_def by blast
  have str: "ao_digest ops (opt_str x) = ao_digest ops (opt_str y) \<Longrightarrow> x = y" for x y
    using assms(2) unfolding digest_laws_def by blast
  have strs: "ao_digest ops (PStr x) = ao_digest ops (PStr y) \<Longrightarrow> x = y" for x y
    using str[of "Some x" "Some y"] by (simp add: opt_str_def)
  have "pa_tool a = pa_tool b" using entry[of "''tool''"] strs by (simp add: exact_effect_def dict_get_def)
  moreover have "pa_target a = pa_target b" using entry[of "''target''"] strs by (simp add: exact_effect_def dict_get_def)
  moreover have "pa_connection_id a = pa_connection_id b"
    using entry[of "''connection''"] str by (simp add: exact_effect_def dict_get_def)
  moreover have "ao_digest ops (pa_input a) = ao_digest ops (pa_input b)"
    using entry[of "''input''"] by (simp add: exact_effect_def dict_get_def)
  moreover have "ao_digest ops (PDict (pa_binding a)) = ao_digest ops (PDict (pa_binding b))"
    using entry[of "''binding''"] by (simp add: exact_effect_def dict_get_def)
  moreover have "(case pa_revision a of None \<Rightarrow> [] | Some r \<Rightarrow> r) = (case pa_revision b of None \<Rightarrow> [] | Some r \<Rightarrow> r)"
    using entry[of "''authorization_revision''"] strs by (simp add: exact_effect_def dict_get_def)
  then have "pa_revision a \<notin> {None, Some []} \<longrightarrow> pa_revision b = pa_revision a"
    by (auto split: option.splits)
  ultimately show ?thesis using ids by blast
qed

text \<open>C11: only the previewed write is ever executed. Suppose a person was shown an action with its confirmation token, and
  presents that token. Whatever happened to the database since, if an effect then leaves the application it
  is to the shown connection and tool with input of the shown JSON, the stored action is not expired and still carries the hash of that token, the
  person is an active owner or admin of an active business at that moment, the source of the approval is
  intact, and the connector's permissions, credentials and business facts are those of the preview.\<close>

theorem confirmed_effect_is_exact:
  assumes "token_laws ops" "digest_laws ops" "pa_revision shown \<notin> {None, Some []}"
    and "dispatch_action ops db n1 n2 n3 f i tenant user (confirmation_token ops shown) = (f', Some e, out)"
  shows "\<exists>a. find_action db i tenant user = Some a \<and> i = pa_id shown \<and> tenant = pa_tenant_id shown \<and> user = pa_user_id shown
    \<and> pa_connection_id shown = Some (ef_connection e) \<and> ef_tool e = pa_tool shown
    \<and> ao_digest ops (ef_input e) = ao_digest ops (pa_input shown)
    \<and> pa_token_hash a = ao_sha ops (confirmation_token ops shown) \<and> n2 < pa_expires_at a \<and> pa_status a = AExecuting
    \<and> write_actor db tenant user \<and> validate_bound_source db a = Inr ()
    \<and> Some (ef_connection e) = pa_connection_id a
    \<and> authorization_revision ops db tenant (ef_connection e) (ef_tool e) = Inr (the (pa_revision shown))
    \<and> is_ok (authorize_mcp_tool db tenant (ef_connection e) (ef_tool e) True)"
proof -
  obtain f1 f2 a c where a: "before_dispatch ops db n2 f1 i tenant user (confirmation_token ops shown) = (f2, Inr a)"
      "e = effect_of a" "authorize_mcp_tool db tenant (ef_connection e) (ef_tool e) True = Inr c"
      "pa_connection_id a \<notin> {None, Some []}"
    using dispatch_sent[OF assms(4)] by blast
  have ok: "find_action db i tenant user = Some a" "pa_status a = AExecuting" "n2 < pa_expires_at a"
    "verify_confirmation_token ops a (confirmation_token ops shown) = Inr ()" "validate_bound_source db a = Inr ()"
    "write_actor db tenant user"
    using before_dispatch_ok[OF a(1)] by blast+
  obtain r where r: "current_authorization ops db a = Inr r" "pa_revision a = Some r"
    using before_dispatch_ok[OF a(1)] by blast
  have tok: "confirmation_token ops shown = confirmation_token ops a" "ao_sha ops (confirmation_token ops shown) = pa_token_hash a"
    using ok(4) by (auto simp: verify_confirmation_token_def split: if_splits)
  note inj = confirmation_token_inj[OF assms(1,2) tok(1)]
  have key: "pa_id a = i" "pa_tenant_id a = tenant" "pa_user_id a = user" using find_action_Some[OF ok(1)] by simp_all
  obtain conn where conn: "pa_connection_id a = Some conn" using a(4) by (cases "pa_connection_id a") auto
  have e: "ef_connection e = conn" "ef_tool e = pa_tool a" "ef_input e = pa_input a" by (simp_all add: a(2) effect_of_def conn)
  have rev: "pa_revision a = pa_revision shown" using inj assms(3) by simp
  have "authorization_revision ops db tenant (ef_connection e) (ef_tool e) = Inr r"
    using r(1) key(2) conn e by (simp add: current_authorization_def)
  moreover have "r = the (pa_revision shown)" using rev r(2) by (metis option.sel)
  ultimately show ?thesis using ok inj key conn e tok(2) rev a(3) by (intro exI[of _ a]) auto
qed

section \<open>At most once\<close>

text \<open>The system: the database, the confirmations whose worker has not dispatched yet, and every effect that left the
  application with the action it was for. A worker may die before it dispatches, or after the effect left
  and before its result was committed. Nothing is assumed about who decides, when, or how often.\<close>

record action_sys =
  as_db :: agent_db
  as_open :: "ident list"
  as_sent :: "(ident \<times> effect) list"

definition outcome_db :: "'d decide_outcome \<Rightarrow> 'd" where
  "outcome_db out = (case out of DecideRaise _ d \<Rightarrow> d | DecideReturn _ d \<Rightarrow> d | DecideExecuting d \<Rightarrow> d)"

definition sent_list :: "ident \<Rightarrow> effect option \<Rightarrow> (ident \<times> effect) list" where
  "sent_list i sent = (case sent of None \<Rightarrow> [] | Some e \<Rightarrow> [(i, e)])"

inductive action_step :: "action_sys \<Rightarrow> action_sys \<Rightarrow> bool" where
  a_prepare: "snd (prepare_pending_action ops enabled seen (as_db s) now f i q) = Inr (a, tok, db') \<Longrightarrow>
     tbl_find pa_id i (ag_actions (as_db s)) = None \<Longrightarrow> action_step s (s\<lparr>as_db := db'\<rparr>)"
| a_confirm: "decide_pending_action ops (as_db s) now i tenant user supplied choice = DecideExecuting db' \<Longrightarrow>
     action_step s (s\<lparr>as_db := db', as_open := as_open s @ [i]\<rparr>)"
| a_decide: "decide_pending_action ops (as_db s) now i tenant user supplied choice \<in> {DecideRaise e db', DecideReturn a db'} \<Longrightarrow>
     action_step s (s\<lparr>as_db := db'\<rparr>)"
| a_dispatch: "i \<in> set (as_open s) \<Longrightarrow>
     dispatch_action ops (as_db s) n1 n2 n3 f i tenant user supplied = (f', sent, out) \<Longrightarrow>
     action_step s (s\<lparr>as_db := outcome_db out, as_open := remove1 i (as_open s), as_sent := as_sent s @ sent_list i sent\<rparr>)"
| a_died: "i \<in> set (as_open s) \<Longrightarrow>
     dispatch_action ops (as_db s) n1 n2 n3 f i tenant user supplied = (f', sent, out) \<Longrightarrow>
     action_step s (s\<lparr>as_open := remove1 i (as_open s), as_sent := as_sent s @ sent_list i sent\<rparr>)"
| a_lost: "action_step s (s\<lparr>as_open := remove1 i (as_open s)\<rparr>)"
| a_cancel: "action_step s (s\<lparr>as_db := cancel_conversation cid (as_db s)\<rparr>)"
| a_other: "ag_actions db' = ag_actions (as_db s) \<Longrightarrow> action_step s (s\<lparr>as_db := db'\<rparr>)"

definition action_init :: "action_sys \<Rightarrow> bool" where
  "action_init s = (as_open s = [] \<and> as_sent s = [])"

text \<open>The states an action can be in once it was confirmed.\<close>

definition taken :: "action_status \<Rightarrow> bool" where
  "taken st = (st \<in> {AExecuting, ASucceeded, AFailed})"

definition action_taken :: "ident \<Rightarrow> 'a agent_db_scheme \<Rightarrow> bool" where
  "action_taken i db = (case tbl_find pa_id i (ag_actions db) of None \<Rightarrow> False | Some a \<Rightarrow> taken (pa_status a))"

definition action_inv :: "action_sys \<Rightarrow> bool" where
  "action_inv s = (distinct (as_open s @ map fst (as_sent s))
     \<and> (\<forall>i \<in> set (as_open s @ map fst (as_sent s)). action_taken i (as_db s)))"

lemma tbl_find_map: "(\<And>r. rid (g r) = rid r) \<Longrightarrow> tbl_find rid k (map g rows) = map_option g (tbl_find rid k rows)"
  by (induction rows) (auto simp: tbl_find_def)

lemma taken_set_action:
  assumes "\<And>a. pa_id (g a) = pa_id a" "\<And>a. tbl_find pa_id i (ag_actions db) = Some a \<Longrightarrow> taken (pa_status a) \<Longrightarrow> taken (pa_status (g a))"
    and "action_taken j db"
  shows "action_taken j (set_action i g db)"
  using assms(2,3) by (auto simp: action_taken_def row_simps tbl_find_upd[of pa_id g, OF assms(1)] split: option.splits if_splits)

lemma taken_event [simp]: "action_taken j (add_event e db) = action_taken j db"
  by (simp add: action_taken_def row_simps)

lemma taken_map:
  assumes "ag_actions db' = map g (ag_actions db) @ new" "\<And>a. pa_id (g a) = pa_id a"
    "\<And>a. taken (pa_status a) \<Longrightarrow> taken (pa_status (g a))" "action_taken j db"
  shows "action_taken j db'"
  using assms(3,4) by (auto simp: action_taken_def assms(1) tbl_find_append tbl_find_map[of pa_id g, OF assms(2)] split: option.splits)

lemma cancel_taken: "action_taken j db \<Longrightarrow> action_taken j (cancel_conversation cid db)"
proof (cases "get_conversation db cid")
  case None
  then show "action_taken j db \<Longrightarrow> ?thesis" by (simp add: cancel_conversation_def)
next
  case (Some c)
  have f: "ag_actions (finish_run r st d) = ag_actions d" for r st and d :: "'a agent_db_scheme"
    by (simp add: finish_run_def Let_def fail_media_def clear_pointer_def row_simps)
  have "ag_actions (cancel_conversation cid db) = map (\<lambda>a. if pa_conversation_id a = Some cid \<and> pa_status a = APending
            then a\<lparr>pa_status := AExpired\<rparr> else a) (ag_actions db) @ []"
    by (simp add: cancel_conversation_def Some Let_def row_simps f split: option.split)
  then show "action_taken j db \<Longrightarrow> ?thesis" by (rule taken_map) (auto simp: taken_def)
qed

lemma prepare_taken:
  assumes "snd (prepare_pending_action ops enabled seen db now f i q) = Inr (a, tok, db')" "action_taken j db"
  shows "action_taken j db'"
proof -
  consider "db' = db" | c x e where "db' = add_event e ((expire_superseded (rq_tenant q) c db)
      \<lparr>ag_actions := ag_actions (expire_superseded (rq_tenant q) c db) @ [x]\<rparr>)"
    using assms(1) by (auto simp: prepare_pending_action_def and_then_Inr Let_def split: if_splits prod.splits sum.splits option.splits)
  then show ?thesis
  proof cases
    case 1
    then show ?thesis using assms(2) by simp
  next
    case (2 c x e)
    then have "ag_actions db' = map (\<lambda>a.
     if pa_tenant_id a = rq_tenant q \<and> pa_user_id a = ac_user_id c \<and> pa_conversation_id a = Some (ac_conversation_id c)
        \<and> pa_status a = APending \<and> dict_get (pa_binding a) ''initiating_message_id'' \<noteq> opt_str (ac_initiating c)
     then a\<lparr>pa_status := AExpired\<rparr> else a) (ag_actions db) @ [x]"
      by (simp add: row_simps expire_superseded_def)
    then show ?thesis by (rule taken_map) (use assms(2) in \<open>auto simp: taken_def\<close>)
  qed
qed

lemma decide_executing:
  assumes "decide_pending_action ops db now i tenant user supplied choice = DecideExecuting db'"
  shows "\<exists>a. tbl_find pa_id i (ag_actions db) = Some a \<and> pa_status a = APending \<and> now < pa_expires_at a
    \<and> db' = add_event (action_event a ''confirmed'' None) (set_action i (\<lambda>x. x\<lparr>pa_status := AExecuting, pa_confirmed_at := Some now\<rparr>) db)"
proof -
  obtain a where a: "find_action db i tenant user = Some a"
    using assms by (cases "find_action db i tenant user") (simp_all add: decide_pending_action_def)
  obtain u where v: "verify_confirmation_token ops a supplied = Inr u"
    using assms by (cases "verify_confirmation_token ops a supplied") (simp_all add: decide_pending_action_def a)
  have p: "pa_status a = APending" "now < pa_expires_at a"
    using assms by (simp_all add: decide_pending_action_def a v split: if_splits)
  have "db' = add_event (action_event a ''confirmed'' None) (set_action i (\<lambda>x. x\<lparr>pa_status := AExecuting, pa_confirmed_at := Some now\<rparr>) db)"
    using assms p by (simp add: decide_pending_action_def a v split: if_splits sum.splits)
  then show ?thesis using p find_action_Some[OF a] by blast
qed

lemma decide_taken:
  assumes "decide_pending_action ops db now i tenant user supplied choice \<in> {DecideRaise e db', DecideReturn a db'}"
    "action_taken j db"
  shows "action_taken j db'"
proof -
  have "db' = db \<or> (\<exists>a st ev. tbl_find pa_id i (ag_actions db) = Some a \<and> pa_status a = APending \<and>
      (db' = set_action i (\<lambda>x. x\<lparr>pa_status := st\<rparr>) db \<or> db' = add_event ev (set_action i (\<lambda>x. x\<lparr>pa_status := st\<rparr>) db)))"
  proof (cases "find_action db i tenant user")
    case None
    then show ?thesis using assms(1) by (simp add: decide_pending_action_def)
  next
    case (Some b)
    note b = find_action_Some[OF Some]
    show ?thesis
    proof (cases "verify_confirmation_token ops b supplied")
      case (Inl x)
      then show ?thesis using assms(1) by (simp add: decide_pending_action_def Some)
    next
      case (Inr u)
      show ?thesis
      proof (cases "pa_status b = APending")
        case False
        then show ?thesis using assms(1) by (auto simp: decide_pending_action_def Some Inr split: if_splits)
      next
        case True
        have "db' = db \<or> (\<exists>st ev. db' = set_action i (\<lambda>x. x\<lparr>pa_status := st\<rparr>) db
            \<or> db' = add_event ev (set_action i (\<lambda>x. x\<lparr>pa_status := st\<rparr>) db))"
          using assms(1) True by (auto simp: decide_pending_action_def Some Inr split: if_splits sum.splits)
        with b True show ?thesis by blast
      qed
    qed
  qed
  then show ?thesis
  proof (elim disjE exE conjE)
    fix a st assume "tbl_find pa_id i (ag_actions db) = Some a" "pa_status a = APending"
      "db' = set_action i (\<lambda>x. x\<lparr>pa_status := st\<rparr>) db"
    then show ?thesis using assms(2) by (auto simp: taken_def intro!: taken_set_action)
  next
    fix a st ev assume "tbl_find pa_id i (ag_actions db) = Some a" "pa_status a = APending"
      "db' = add_event ev (set_action i (\<lambda>x. x\<lparr>pa_status := st\<rparr>) db)"
    then show ?thesis using assms(2) by (auto simp: taken_def intro!: taken_set_action)
  qed (use assms(2) in simp)
qed

lemma dispatch_taken:
  assumes "dispatch_action ops db n1 n2 n3 f i tenant user supplied = (f', sent, out)" "action_taken j db"
  shows "action_taken j (outcome_db out)"
proof -
  have "outcome_db out = db \<or> (\<exists>g ev. outcome_db out = add_event ev (set_action i g db)
      \<and> (\<forall>a. pa_id (g a) = pa_id a \<and> taken (pa_status (g a))))"
  proof (cases "find_action db i tenant user")
    case None
    then show ?thesis using assms(1) by (auto simp: dispatch_action_def outcome_db_def)
  next
    case (Some a)
    obtain f1 r where bd: "before_dispatch ops db n1 f i tenant user supplied = (f1, r)" by fastforce
    have "\<exists>res. out = finish_action n3 i a db res"
    proof (cases "pa_connection_id a \<in> {None, Some []}")
      case True
      then show ?thesis using assms(1) by (auto simp: dispatch_action_def Some)
    next
      case False
      show ?thesis
      proof (cases r)
        case (Inl e)
        then show ?thesis using assms(1) False by (auto simp: dispatch_action_def Some bd)
      next
        case (Inr b)
        obtain f2 s2 res where "connector_write ops db n2 f1 i tenant user supplied b = (f2, s2, res)" by (metis prod_cases3)
        then show ?thesis using assms(1) False by (auto simp: dispatch_action_def Some bd Inr)
      qed
    qed
    then obtain res where out: "out = finish_action n3 i a db res" ..
    show ?thesis
      unfolding out finish_action_def
      by (cases res; cases "projl res") (auto simp: outcome_db_def taken_def intro!: exI)
  qed
  then show ?thesis
  proof (elim disjE exE conjE)
    fix g ev assume "outcome_db out = add_event ev (set_action i g db)" "\<forall>a. pa_id (g a) = pa_id a \<and> taken (pa_status (g a))"
    then show ?thesis using assms(2) by (auto intro!: taken_set_action)
  qed (use assms(2) in simp)
qed

lemma moved_distinct:
  assumes "distinct (xs @ ys)" "i \<in> set xs"
  shows "distinct (remove1 i xs @ ys @ [i])" "set (remove1 i xs @ ys @ [i]) = set (xs @ ys)"
  using assms by (auto simp: set_remove1_eq)

lemma sent_list_fst: "map fst (sent_list i sent) = (case sent of None \<Rightarrow> [] | Some _ \<Rightarrow> [i])"
  by (simp add: sent_list_def split: option.split)

text \<open>Taking a confirmed action out of the open ones, with or without its effect, keeps the bookkeeping.\<close>

lemma closed_inv:
  assumes "distinct (xs @ ys)" "\<forall>j \<in> set (xs @ ys). P j" "i \<in> set xs"
  shows "distinct (remove1 i xs @ ys @ map fst (sent_list i sent))"
    and "\<forall>j \<in> set (remove1 i xs @ ys @ map fst (sent_list i sent)). P j"
proof -
  have both: "distinct (remove1 i xs @ ys @ zs) \<and> (\<forall>j \<in> set (remove1 i xs @ ys @ zs). P j)" if "zs \<in> {[], [i]}" for zs
  proof (cases "zs = []")
    case True
    have "set (remove1 i xs) \<subseteq> set xs" by (rule set_remove1_subset)
    then show ?thesis using True assms(1,2) by (auto simp: distinct_remove1)
  next
    case False
    then have zs: "zs = [i]" using that by simp
    show ?thesis unfolding zs moved_distinct(2)[OF assms(1,3)] using moved_distinct(1)[OF assms(1,3)] assms(2) by blast
  qed
  have z: "map fst (sent_list i sent) \<in> {[], [i]}" by (cases sent) (simp_all add: sent_list_fst)
  show "distinct (remove1 i xs @ ys @ map fst (sent_list i sent))" using both[OF z] by blast
  show "\<forall>j \<in> set (remove1 i xs @ ys @ map fst (sent_list i sent)). P j" using both[OF z] by blast
qed

lemma action_step_inv:
  assumes "action_step s t" "action_inv s"
  shows "action_inv t"
  using assms(1)
proof (cases rule: action_step.cases)
  case (a_prepare ops enabled seen now f i q a tok db')
  then show ?thesis using assms(2) prepare_taken[OF a_prepare(2)] by (auto simp: action_inv_def)
next
  case (a_confirm ops now i tenant user supplied choice db')
  obtain a where a: "tbl_find pa_id i (ag_actions (as_db s)) = Some a" "pa_status a = APending"
    and db': "db' = add_event (action_event a ''confirmed'' None)
      (set_action i (\<lambda>x. x\<lparr>pa_status := AExecuting, pa_confirmed_at := Some now\<rparr>) (as_db s))"
    using decide_executing[OF a_confirm(2)] by blast
  have new: "\<not> action_taken i (as_db s)" using a by (simp add: action_taken_def taken_def)
  have kept: "action_taken j db'" if "action_taken j (as_db s)" for j
    using that unfolding db' by (auto simp: taken_def intro!: taken_set_action)
  have "action_taken i db'" unfolding db' using a by (simp add: action_taken_def row_simps tbl_find_upd taken_def)
  with new kept show ?thesis using assms(2) a_confirm(1) by (auto simp: action_inv_def)
next
  case (a_decide ops now i tenant user supplied choice e db' a)
  then show ?thesis using assms(2) decide_taken[OF a_decide(2)] by (auto simp: action_inv_def)
next
  case (a_dispatch i ops n1 n2 n3 f tenant user supplied f' sent out)
  have d: "distinct (as_open s @ map fst (as_sent s))" and
    k: "\<forall>j \<in> set (as_open s @ map fst (as_sent s)). action_taken j (outcome_db out)"
    using assms(2) dispatch_taken[OF a_dispatch(3)] unfolding action_inv_def by blast+
  have e: "as_open t @ map fst (as_sent t) = remove1 i (as_open s) @ map fst (as_sent s) @ map fst (sent_list i sent)"
    "as_db t = outcome_db out" by (simp_all add: a_dispatch(1))
  show ?thesis unfolding action_inv_def e using closed_inv[OF d k a_dispatch(2)] by blast
next
  case (a_died i ops n1 n2 n3 f tenant user supplied f' sent out)
  have d: "distinct (as_open s @ map fst (as_sent s))" and
    k: "\<forall>j \<in> set (as_open s @ map fst (as_sent s)). action_taken j (as_db s)"
    using assms(2) unfolding action_inv_def by blast+
  have e: "as_open t @ map fst (as_sent t) = remove1 i (as_open s) @ map fst (as_sent s) @ map fst (sent_list i sent)"
    "as_db t = as_db s" by (simp_all add: a_died(1))
  show ?thesis unfolding action_inv_def e using closed_inv[OF d k a_died(2)] by blast
next
  case (a_lost i)
  have "set (remove1 i (as_open s)) \<subseteq> set (as_open s)" by (rule set_remove1_subset)
  then show ?thesis using assms(2) a_lost by (auto simp: action_inv_def distinct_remove1)
next
  case (a_cancel cid)
  then show ?thesis using assms(2) by (auto simp: action_inv_def intro: cancel_taken)
next
  case (a_other db')
  then show ?thesis using assms(2) by (simp add: action_inv_def action_taken_def)
qed

interpretation writes: inv_system action_init action_step action_inv
proof unfold_locales
  show "action_inv s" if "action_init s" for s using that by (simp add: action_init_def action_inv_def)
  show "action_inv t" if "action_inv s" "action_step s t" for s t by (rule action_step_inv[OF that(2,1)])
qed

text \<open>C4: a confirmed write leaves the application at most once. In every state reachable by any interleaving of previews,
  decisions (repeated and concurrent ones included), dispatches, cancellations and worker deaths, before or
  after the effect left, each action has at most one effect that left, and an action whose effect
  left was confirmed: it is executing, succeeded or failed, never pending, denied or expired.\<close>

theorem executed_at_most_once:
  assumes "reach action_init action_step s"
  shows "length (filter (\<lambda>x. fst x = i) (as_sent s)) \<le> 1
    \<and> ((\<exists>e. (i, e) \<in> set (as_sent s)) \<longrightarrow>
        (\<exists>a. tbl_find pa_id i (ag_actions (as_db s)) = Some a \<and> pa_status a \<in> {AExecuting, ASucceeded, AFailed}))"
proof -
  have inv: "action_inv s" by (rule writes.reach_inv[OF assms])
  have d: "distinct (map fst (as_sent s))" using inv by (simp add: action_inv_def)
  have "length (filter (\<lambda>x. fst x = i) xs) \<le> 1" if "distinct (map fst xs)" for xs :: "(ident \<times> effect) list"
    using that
  proof (induction xs)
    case (Cons x xs)
    have "filter (\<lambda>y. fst y = fst x) xs = []" using Cons.prems by (auto simp: filter_empty_conv image_iff)
    then show ?case using Cons by auto
  qed simp
  moreover have "\<exists>a. tbl_find pa_id i (ag_actions (as_db s)) = Some a \<and> pa_status a \<in> {AExecuting, ASucceeded, AFailed}"
    if "(i, e) \<in> set (as_sent s)" for e
  proof -
    have "i \<in> fst ` set (as_sent s)" using that by force
    then have "action_taken i (as_db s)" using inv by (auto simp: action_inv_def)
    then show ?thesis by (auto simp: action_taken_def taken_def split: option.splits)
  qed
  ultimately show ?thesis using d by blast
qed

end
