(* ===== verification/Reconciliation.thy ===== *)
theory Reconciliation
  imports PyText
begin

text \<open>
  What to do with an interrupted agent run (\<^verbatim>\<open>app/services/run_reconciliation.py\<close>): a decision is
  computed from a snapshot of the run and from read-only lookups of the recorded provider runs.

  Parameters: \<open>poll\<close> is the lookup (\<open>Inl\<close> when it raises), \<open>json_ops\<close> the JSON reader and canonical
  writer (\<open>None\<close> when they raise) and the hexadecimal SHA-256 of a text.
\<close>

datatype model_outcome = MPending | MCompleted | MFailed | MUnknown

datatype delivery_outcome = DNotRequired | DPending | DCompleted | DFailed | DUnknown

datatype reconcile_action = RAWait | RAPollLater | RAPersistOutput | RAResumeDelivery | RAComplete | RAFail | RAReview

record json_ops =
  jo_loads :: "string \<Rightarrow> pyval option"
  jo_dumps :: "pyval \<Rightarrow> string option"
  jo_sha :: "string \<Rightarrow> string"

record frozen_request =
  fq_payload :: string
  fq_sha :: string

definition hex_digit :: "char \<Rightarrow> bool" where
  "hex_digit c = (is_digit c \<or> 97 \<le> code c \<and> code c \<le> 102)"

definition frozen_valid :: "json_ops \<Rightarrow> frozen_request \<Rightarrow> bool" where
  "frozen_valid jo fq =
    (length (fq_sha fq) = 64 \<and> list_all hex_digit (fq_sha fq)
     \<and> (case jo_loads jo (fq_payload fq) of
          Some (PDict d) \<Rightarrow>
            (case jo_dumps jo (PDict d) of
               None \<Rightarrow> False
             | Some canonical \<Rightarrow> canonical = fq_payload fq \<and> jo_sha jo canonical = fq_sha fq)
        | _ \<Rightarrow> False))"

definition freeze_request :: "json_ops \<Rightarrow> pyval \<Rightarrow> frozen_request option" where
  "freeze_request jo payload = map_option (\<lambda>c. \<lparr> fq_payload = c, fq_sha = jo_sha jo c \<rparr>) (jo_dumps jo payload)"

record durable_output =
  do_message_id :: string
  do_run_id :: string
  do_initiating :: string
  do_content :: string

record delivery_receipt =
  dr_key :: string
  dr_status :: string
  dr_provider_id :: "string option"

record run_snapshot =
  rn_run_id :: string
  rn_initiating :: string
  rn_status :: string
  rn_expires_at :: time
  rn_provider_ids :: "string list"
  rn_request :: "frozen_request option"
  rn_durable :: "durable_output option"
  rn_delivery_required :: bool
  rn_effect_keys :: "string list option"
  rn_deliveries :: "delivery_receipt list"
  rn_minimum_citations :: int

record recovered_output =
  ro_provider_id :: string
  ro_content :: string
  ro_input :: int
  ro_output :: int
  ro_total :: int
  ro_session :: "string option"

record observation =
  ob_provider_id :: string
  ob_outcome :: model_outcome
  ob_reason :: string

record decision =
  dc_action :: reconcile_action
  dc_model :: model_outcome
  dc_delivery :: delivery_outcome
  dc_reason :: string
  dc_output :: "recovered_output option"
  dc_observations :: "observation list"

section \<open>Delivery\<close>

fun collect_receipts ::
  "string list \<Rightarrow> delivery_receipt list \<Rightarrow> (string \<rightharpoonup> delivery_receipt) \<Rightarrow> (string \<rightharpoonup> delivery_receipt) option" where
  "collect_receipts keys [] seen = Some seen"
| "collect_receipts keys (r # rs) seen =
     (if dr_key r \<notin> set keys \<or> seen (dr_key r) \<noteq> None then None
      else collect_receipts keys rs (seen(dr_key r \<mapsto> r)))"

definition has_id :: "delivery_receipt \<Rightarrow> bool" where
  "has_id r = (case dr_provider_id r of None \<Rightarrow> False | Some i \<Rightarrow> i \<noteq> [])"

definition receipt_outcome :: "delivery_receipt option \<Rightarrow> delivery_outcome" where
  "receipt_outcome x = (case x of
     None \<Rightarrow> DPending
   | Some r \<Rightarrow>
      if dr_status r \<in> {''sent'', ''delivered'', ''read''} then (if has_id r then DCompleted else DUnknown)
      else if has_id r then DUnknown
      else if dr_status r \<in> {''prepared'', ''failed''} then DPending
      else if dr_status r = ''rejected'' then DFailed
      else DUnknown)"

definition delivery_of :: "run_snapshot \<Rightarrow> delivery_outcome" where
  "delivery_of s =
    (let receipts = rn_deliveries s in
     if \<not> rn_delivery_required s then
       (if receipts \<noteq> [] \<or> (case rn_effect_keys s of None \<Rightarrow> False | Some ks \<Rightarrow> ks \<noteq> []) then DUnknown else DNotRequired)
     else (case rn_effect_keys s of
        None \<Rightarrow> if receipts \<noteq> [] then DUnknown else DPending
      | Some keys \<Rightarrow>
          if keys = [] \<or> \<not> distinct keys \<or> list_ex (\<lambda>k. k = []) keys then DUnknown
          else (case collect_receipts keys receipts Map.empty of
             None \<Rightarrow> DUnknown
           | Some seen \<Rightarrow>
              let outcomes = map (\<lambda>k. receipt_outcome (seen k)) keys in
              if DUnknown \<in> set outcomes then DUnknown
              else if DFailed \<in> set outcomes then DFailed
              else if DPending \<in> set outcomes then DPending
              else DCompleted)))"

section \<open>Observing a provider run\<close>

definition safe_token_count :: "pyval \<Rightarrow> int" where
  "safe_token_count v = (case v of PInt n \<Rightarrow> if 0 \<le> n \<and> n \<le> 1000000000 then n else 0 | _ \<Rightarrow> 0)"

definition get_or :: "(string \<times> pyval) list \<Rightarrow> string \<Rightarrow> string \<Rightarrow> pyval" where
  "get_or d a b = (if truthy (dict_get d a) then dict_get d a else dict_get d b)"

definition url_end :: "char \<Rightarrow> bool" where
  "url_end c = (is_space c \<or> c = CHR '')'' \<or> c = CHR ''>'' \<or> c = CHR '']'')"

text \<open>\<^verbatim>\<open>findall\<close> of \<^verbatim>\<open>https://\<close> followed by at least one character that ends no link.\<close>

function find_urls :: "string \<Rightarrow> string list" where
  "find_urls [] = []"
| "find_urls (c # s) = (let link = takeWhile (\<lambda>x. \<not> url_end x) (drop 7 s) in
     if starts_with (c # s) ''https://'' \<and> link \<noteq> [] then (''https://'' @ link) # find_urls (drop (7 + length link) s)
     else find_urls s)"
  by pat_completeness auto
termination by (relation "measure length") auto

definition rstrip_chars :: "string \<Rightarrow> string \<Rightarrow> string" where
  "rstrip_chars cs s = rev (dropWhile (\<lambda>c. c \<in> set cs) (rev s))"

definition citation_count :: "string \<Rightarrow> int" where
  "citation_count content = int (length (remdups (map (rstrip_chars [CHR ''.'', CHR '','', CHR '';'', CHR '':'', CHR 0x27, CHR 0x22])
     (find_urls content))))"

definition observe :: "string \<Rightarrow> pyval \<Rightarrow> observation \<times> recovered_output option" where
  "observe run_id payload =
    (let seen = (\<lambda>outcome reason out. (\<lparr> ob_provider_id = run_id, ob_outcome = outcome, ob_reason = reason \<rparr>, out)) in
     case payload of
       PDict d \<Rightarrow>
        if dict_get d ''run_id'' \<noteq> PStr run_id then seen MUnknown ''provider_identity_mismatch'' None
        else (case dict_get d ''status'' of
           PStr status \<Rightarrow>
             if status \<in> {''queued'', ''running''} then seen MPending ''provider_still_running'' None
             else if status \<in> {''failed'', ''cancelled''} then seen MFailed ''provider_failed'' None
             else if status \<noteq> ''completed'' then seen MUnknown ''provider_status_unknown'' None
             else (let usage = (case map_of d ''usage'' of None \<Rightarrow> PDict [] | Some u \<Rightarrow> u);
                       session = dict_get d ''session_id'' in
               case (dict_get d ''output'', usage) of
                 (PStr content, PDict u) \<Rightarrow>
                   if strip content = [] \<or> 131072 < length content
                      \<or> (session \<noteq> PNone \<and> (case session of PStr x \<Rightarrow> 160 < length x | _ \<Rightarrow> True))
                   then seen MUnknown ''provider_output_invalid'' None
                   else (let inp = safe_token_count (get_or u ''input_tokens'' ''prompt_tokens'');
                             outp = safe_token_count (get_or u ''output_tokens'' ''completion_tokens'');
                             t = safe_token_count (dict_get u ''total_tokens'')
                     in seen MCompleted ''provider_completed'' (Some \<lparr> ro_provider_id = run_id, ro_content = strip content,
                          ro_input = inp, ro_output = outp, ro_total = (if t \<noteq> 0 then t else inp + outp),
                          ro_session = (case session of PStr x \<Rightarrow> Some x | _ \<Rightarrow> None) \<rparr>))
               | _ \<Rightarrow> seen MUnknown ''provider_output_invalid'' None)
         | _ \<Rightarrow> seen MUnknown ''provider_status_unknown'' None)
     | _ \<Rightarrow> seen MUnknown ''provider_response_invalid'' None)"

definition poll_one :: "(string \<Rightarrow> unit + pyval) \<Rightarrow> string \<Rightarrow> observation \<times> recovered_output option" where
  "poll_one poll run_id = (case poll run_id of
     Inl _ \<Rightarrow> (\<lparr> ob_provider_id = run_id, ob_outcome = MUnknown, ob_reason = ''poll_unavailable'' \<rparr>, None)
   | Inr payload \<Rightarrow> observe run_id payload)"

section \<open>The decision\<close>

definition provider_id_char :: "char \<Rightarrow> bool" where
  "provider_id_char c = (is_alnum c \<or> c = CHR ''_'' \<or> c = CHR ''-'')"

definition provider_id_ok :: "string \<Rightarrow> bool" where
  "provider_id_ok s = (s \<noteq> [] \<and> length s \<le> 160 \<and> list_all provider_id_char s)"

definition decide ::
  "run_snapshot \<Rightarrow> reconcile_action \<Rightarrow> model_outcome \<Rightarrow> string \<Rightarrow> recovered_output option \<Rightarrow> observation list \<Rightarrow> decision" where
  "decide s action model reason out obs = \<lparr> dc_action = action, dc_model = model, dc_delivery = delivery_of s,
     dc_reason = reason, dc_output = out, dc_observations = obs \<rparr>"

definition snapshot_ok :: "run_snapshot \<Rightarrow> bool" where
  "snapshot_ok s = (rn_run_id s \<noteq> [] \<and> rn_initiating s \<noteq> []
     \<and> rn_status s \<in> {''running'', ''reconciling'', ''completed'', ''failed'', ''expired''}
     \<and> 0 \<le> rn_minimum_citations s \<and> rn_minimum_citations s \<le> 10)"

definition durable_ok :: "run_snapshot \<Rightarrow> durable_output \<Rightarrow> bool" where
  "durable_ok s d = (do_message_id d \<noteq> [] \<and> do_run_id d = rn_run_id s \<and> do_initiating d = rn_initiating s
     \<and> strip (do_content d) \<noteq> [])"

definition decide_durable :: "run_snapshot \<Rightarrow> durable_output \<Rightarrow> decision" where
  "decide_durable s d =
    (if \<not> durable_ok s d then decide s RAReview MUnknown ''durable_output_binding_invalid'' None []
     else if delivery_of s \<in> {DCompleted, DNotRequired} then
       decide s RAComplete MCompleted ''durable_output_and_delivery'' None []
     else if delivery_of s = DPending then decide s RAResumeDelivery MCompleted ''durable_output_only'' None []
     else decide s RAReview MCompleted
       (if delivery_of s = DFailed then ''delivery_failed'' else ''delivery_outcome_unknown'') None [])"

text \<open>After polling: \<open>polled\<close> pairs every recorded run with its observation and output, in order.\<close>

definition total_output :: "recovered_output list \<Rightarrow> recovered_output \<Rightarrow> recovered_output" where
  "total_output outs r = r\<lparr>ro_input := sum_list (map ro_input outs), ro_output := sum_list (map ro_output outs),
     ro_total := sum_list (map ro_total outs)\<rparr>"

definition decide_polled ::
  "json_ops \<Rightarrow> run_snapshot \<Rightarrow> (observation \<times> recovered_output option) list \<Rightarrow> decision" where
  "decide_polled jo s polled =
    (let observed = map fst polled; final = last observed; final_output = snd (last polled) in
     if list_ex (\<lambda>x. ob_outcome x \<noteq> MCompleted) (butlast observed)
     then decide s RAReview MUnknown ''preceding_provider_outcome_unresolved'' None observed
     else if ob_outcome final = MUnknown
     then decide s (if ob_reason final = ''poll_unavailable'' then RAPollLater else RAReview) MUnknown
       (ob_reason final) None observed
     else if ob_outcome final = MPending then decide s RAPollLater MPending ''provider_still_running'' None observed
     else if ob_outcome final = MFailed
     then decide s (if delivery_of s = DUnknown then RAReview else RAFail) MFailed ''provider_failed'' None observed
     else if (case rn_request s of None \<Rightarrow> True | Some fq \<Rightarrow> \<not> frozen_valid jo fq)
     then decide s RAReview MCompleted ''frozen_request_missing_or_invalid'' None observed
     else (case final_output of
        None \<Rightarrow> decide s RAReview MCompleted ''output_validation_failed'' None observed
      | Some r \<Rightarrow>
          if citation_count (ro_content r) < rn_minimum_citations s
          then decide s RAReview MCompleted ''output_validation_failed'' None observed
          else decide s RAPersistOutput MCompleted ''provider_output_recovered''
            (Some (total_output (List.map_filter snd polled) r)) observed))"

definition reconcile_run ::
  "json_ops \<Rightarrow> (string \<Rightarrow> unit + pyval) \<Rightarrow> time \<Rightarrow> run_snapshot \<Rightarrow> decision" where
  "reconcile_run jo poll now s =
    (if \<not> snapshot_ok s then decide s RAReview MUnknown ''invalid_run_snapshot'' None []
     else if rn_status s = ''running'' \<and> now < rn_expires_at s
     then decide s RAWait MPending ''active_run_not_expired'' None []
     else (case rn_durable s of
        Some d \<Rightarrow> decide_durable s d
      | None \<Rightarrow>
          if rn_provider_ids s = [] then decide s RAReview MUnknown ''provider_admission_unknown'' None []
          else if list_ex (\<lambda>i. \<not> provider_id_ok i) (rn_provider_ids s)
          then decide s RAReview MUnknown ''provider_identity_invalid'' None []
          else if \<not> distinct (rn_provider_ids s)
          then decide s RAReview MUnknown ''provider_admission_duplicate'' None []
          else decide_polled jo s (map (poll_one poll) (rn_provider_ids s))))"

section \<open>Delivery is the worst outcome of the manifest\<close>

text \<open>Outcomes ordered by how much they forbid.\<close>

fun severity :: "delivery_outcome \<Rightarrow> nat" where
  "severity DNotRequired = 0"
| "severity DCompleted = 1"
| "severity DPending = 2"
| "severity DFailed = 3"
| "severity DUnknown = 4"

lemma severity_inj: "severity a = severity b \<Longrightarrow> a = b"
  by (cases a; cases b) simp_all

instantiation delivery_outcome :: linorder
begin

definition less_eq_delivery_outcome :: "delivery_outcome \<Rightarrow> delivery_outcome \<Rightarrow> bool" where
  "less_eq_delivery_outcome a b = (severity a \<le> severity b)"

definition less_delivery_outcome :: "delivery_outcome \<Rightarrow> delivery_outcome \<Rightarrow> bool" where
  "less_delivery_outcome a b = (severity a < severity b)"

instance
  by intro_classes (auto simp: less_eq_delivery_outcome_def less_delivery_outcome_def intro: severity_inj)

end

lemmas severity_defs = less_eq_delivery_outcome_def less_delivery_outcome_def

text \<open>The reference: a manifest is in order when it names distinct effects and every receipt answers one of them.\<close>

definition manifest_ok :: "run_snapshot \<Rightarrow> string list \<Rightarrow> bool" where
  "manifest_ok s keys = (keys \<noteq> [] \<and> distinct keys \<and> [] \<notin> set keys
     \<and> distinct (map dr_key (rn_deliveries s)) \<and> set (map dr_key (rn_deliveries s)) \<subseteq> set keys)"

definition receipt_for :: "run_snapshot \<Rightarrow> string \<Rightarrow> delivery_receipt option" where
  "receipt_for s k = find (\<lambda>r. dr_key r = k) (rn_deliveries s)"

definition delivery_spec :: "run_snapshot \<Rightarrow> delivery_outcome" where
  "delivery_spec s = (case (rn_delivery_required s, rn_effect_keys s) of
     (False, ks) \<Rightarrow> if rn_deliveries s = [] \<and> ks \<in> {None, Some []} then DNotRequired else DUnknown
   | (True, None) \<Rightarrow> if rn_deliveries s = [] then DPending else DUnknown
   | (True, Some keys) \<Rightarrow>
       if manifest_ok s keys then Max ((\<lambda>k. receipt_outcome (receipt_for s k)) ` set keys) else DUnknown)"

lemma collect_receipts_Some:
  "collect_receipts keys rs seen =
    (if distinct (map dr_key rs) \<and> set (map dr_key rs) \<subseteq> set keys \<and> (\<forall>r \<in> set rs. seen (dr_key r) = None)
     then Some (\<lambda>k. case find (\<lambda>r. dr_key r = k) rs of Some r \<Rightarrow> Some r | None \<Rightarrow> seen k) else None)"
proof (induction rs arbitrary: seen)
  case Nil
  then show ?case by simp
next
  case (Cons r rs)
  have "find (\<lambda>x. dr_key x = dr_key r) rs = None" if "dr_key r \<notin> dr_key ` set rs"
    using that by (auto simp: find_None_iff) (metis imageI)
  with Cons show ?case by (auto simp: fun_eq_iff split: option.split) (metis image_eqI)+
qed

lemma Max_receipts:
  assumes "A \<noteq> {}" "finite A" "A \<subseteq> {DPending, DCompleted, DFailed, DUnknown}"
  shows "Max A = (if DUnknown \<in> A then DUnknown else if DFailed \<in> A then DFailed
    else if DPending \<in> A then DPending else DCompleted)"
  using assms by (intro Max_eqI) (auto simp: less_eq_delivery_outcome_def)

lemma receipt_outcome_range: "receipt_outcome x \<in> {DPending, DCompleted, DFailed, DUnknown}"
  by (auto simp: receipt_outcome_def split: option.split)

text \<open>The delivery state of a run is the worst state of its manifest. Whatever the snapshot, the
  classification equals the reference: with a manifest of distinct effects all of whose receipts
  answer one of them and no two the same, the maximum over its effects in the order completed, pending,
  failed, unknown; unknown for any other manifest; pending before a manifest exists; and not required
  only when there is neither a manifest nor a receipt.\<close>

theorem delivery_is_worst_outcome: "delivery_of s = delivery_spec s"
proof (cases "rn_delivery_required s")
  case False
  then show ?thesis by (auto simp: delivery_of_def delivery_spec_def Let_def split: option.split)
next
  case req: True
  show ?thesis
  proof (cases "rn_effect_keys s")
    case None
    with req show ?thesis by (simp add: delivery_of_def delivery_spec_def)
  next
    case (Some keys)
    have e: "list_ex (\<lambda>k. k = []) keys \<longleftrightarrow> [] \<in> set keys" by (auto simp: list_ex_iff)
    show ?thesis
    proof (cases "manifest_ok s keys")
      case False
      with req Some e show ?thesis
        by (auto simp: delivery_of_def delivery_spec_def manifest_ok_def collect_receipts_Some Let_def)
    next
      case True
      have "Max ((\<lambda>k. receipt_outcome (receipt_for s k)) ` set keys) =
          (let A = (\<lambda>k. receipt_outcome (receipt_for s k)) ` set keys in if DUnknown \<in> A then DUnknown
            else if DFailed \<in> A then DFailed else if DPending \<in> A then DPending else DCompleted)"
        unfolding Let_def by (rule Max_receipts) (use True receipt_outcome_range in \<open>auto simp: manifest_ok_def\<close>)
      moreover have "collect_receipts keys (rn_deliveries s) Map.empty = Some (receipt_for s)"
        using True by (auto simp: collect_receipts_Some manifest_ok_def receipt_for_def fun_eq_iff split: option.split)
      ultimately show ?thesis
        using req Some e True by (simp add: delivery_of_def delivery_spec_def manifest_ok_def Let_def)
    qed
  qed
qed

section \<open>What each decision rests on\<close>

text \<open>A completed observation in full.\<close>

lemma observe_output:
  assumes "observe i p = (ob, Some r)"
  shows "\<exists>d c. p = PDict d \<and> dict_get d ''run_id'' = PStr i \<and> dict_get d ''status'' = PStr ''completed''
      \<and> dict_get d ''output'' = PStr c \<and> strip c \<noteq> [] \<and> length c \<le> 131072 \<and> ob_outcome ob = MCompleted
      \<and> ro_provider_id r = i \<and> ro_content r = strip c \<and> 0 \<le> ro_input r \<and> 0 \<le> ro_output r \<and> 0 \<le> ro_total r"
proof -
  have t: "0 \<le> safe_token_count v" for v by (cases v) (auto simp: safe_token_count_def)
  obtain d where d: "p = PDict d" using assms by (cases p) (simp_all add: observe_def)
  have i: "dict_get d ''run_id'' = PStr i"
    using assms by (rule_tac ccontr) (simp add: observe_def d)
  obtain st where st: "dict_get d ''status'' = PStr st"
    using assms by (cases "dict_get d ''status''") (simp_all add: observe_def d i)
  have completed: "st = ''completed''"
    using assms by (rule_tac ccontr) (simp add: observe_def d i st Let_def split: if_splits)
  obtain c where c: "dict_get d ''output'' = PStr c"
    using assms by (cases "dict_get d ''output''") (simp_all add: observe_def d i st completed Let_def)
  define usage where "usage = (case map_of d ''usage'' of None \<Rightarrow> PDict [] | Some u \<Rightarrow> u)"
  obtain u where u: "usage = PDict u"
    using assms by (cases usage) (simp_all add: observe_def d i st completed c usage_def[symmetric] Let_def)
  show ?thesis
    using assms t by (simp add: observe_def d i st completed c usage_def[symmetric] u Let_def split: if_splits) auto
qed

lemma observe_id: "observe i p = (ob, out) \<Longrightarrow> ob_provider_id ob = i"
  by (cases p) (auto simp: observe_def Let_def split: pyval.splits if_splits)

lemma observe_none: "observe i p = (ob, None) \<Longrightarrow> ob_outcome ob \<noteq> MCompleted"
  by (cases p) (auto simp: observe_def Let_def split: pyval.splits if_splits)

lemma poll_one_parts:
  assumes "poll_one poll i = (ob, out)"
  shows "ob_provider_id ob = i" "ob_outcome ob = MCompleted \<Longrightarrow> \<exists>r. out = Some r"
    and "out = Some r \<Longrightarrow> \<exists>p. poll i = Inr p \<and> observe i p = (ob, Some r)"
proof -
  show "ob_provider_id ob = i"
    using assms observe_id by (cases "poll i") (auto simp: poll_one_def)
  show "\<exists>p. poll i = Inr p \<and> observe i p = (ob, Some r)" if "out = Some r"
    using assms that by (cases "poll i") (auto simp: poll_one_def)
  show "\<exists>r. out = Some r" if "ob_outcome ob = MCompleted"
    using assms that observe_none by (cases "poll i"; cases out) (auto simp: poll_one_def)
qed

lemmas decision_simps = reconcile_run_def decide_durable_def decide_polled_def decide_def

text \<open>The answer of a recorded run, read from what its lookup returned.\<close>

definition answered :: "(string \<Rightarrow> unit + pyval) \<Rightarrow> string \<Rightarrow> string \<Rightarrow> bool" where
  "answered poll i text = (\<exists>d c. poll i = Inr (PDict d) \<and> dict_get d ''run_id'' = PStr i
     \<and> dict_get d ''status'' = PStr ''completed'' \<and> dict_get d ''output'' = PStr c \<and> text = strip c
     \<and> text \<noteq> [] \<and> length c \<le> 131072)"

lemma decide_polled_persists:
  assumes "dc_action (decide_polled jo s (map (poll_one poll) ids)) = RAPersistOutput" "ids \<noteq> []"
  shows "\<exists>out fq. dc_output (decide_polled jo s (map (poll_one poll) ids)) = Some out
    \<and> rn_request s = Some fq \<and> frozen_valid jo fq \<and> ro_provider_id out = last ids
    \<and> answered poll (last ids) (ro_content out) \<and> rn_minimum_citations s \<le> citation_count (ro_content out)
    \<and> (\<forall>i \<in> set ids. \<exists>text. answered poll i text)"
proof -
  define polled where "polled = map (poll_one poll) ids"
  obtain ob fo where lst: "poll_one poll (last ids) = (ob, fo)" by fastforce
  have last: "last polled = (ob, fo)" "last (map fst polled) = ob"
    using assms(2) lst by (simp_all add: polled_def last_map)
  note act = assms(1)[folded polled_def]
  have before: "\<not> list_ex (\<lambda>x. ob_outcome x \<noteq> MCompleted) (butlast (map fst polled))"
    using act by (auto simp: decide_polled_def decide_def Let_def split: if_splits)
  have comp: "ob_outcome ob = MCompleted"
    using act before by (cases "ob_outcome ob") (simp_all add: decide_polled_def decide_def Let_def last split: if_splits)
  then obtain r where r: "fo = Some r" using poll_one_parts(2)[OF lst] by blast
  obtain fq where fq: "rn_request s = Some fq" "frozen_valid jo fq"
    using act before comp by (auto simp: decide_polled_def decide_def Let_def last split: if_splits option.splits)
  have cit: "rn_minimum_citations s \<le> citation_count (ro_content r)"
    and out: "dc_output (decide_polled jo s polled) = Some (total_output (List.map_filter snd polled) r)"
    using act before comp fq r by (auto simp: decide_polled_def decide_def Let_def last split: if_splits)
  have ans: "\<exists>r. snd (poll_one poll i) = Some r \<and> ro_provider_id r = i \<and> answered poll i (ro_content r)"
    if "ob_outcome (fst (poll_one poll i)) = MCompleted" for i
  proof -
    obtain ob out where o1: "poll_one poll i = (ob, out)" by fastforce
    have "ob_outcome ob = MCompleted" using that o1 by simp
    then obtain r where o2: "out = Some r" using poll_one_parts(2)[OF o1] by blast
    obtain p where p: "poll i = Inr p" "observe i p = (ob, Some r)" using poll_one_parts(3)[OF o1 o2] by blast
    show ?thesis using observe_output[OF p(2)] p(1) o1 o2 by (auto simp: answered_def)
  qed
  have all: "ob_outcome (fst (poll_one poll i)) = MCompleted" if "i \<in> set ids" for i
  proof (cases "i = last ids")
    case True
    then show ?thesis using lst comp by simp
  next
    case False
    have "ids = butlast ids @ [last ids]" using assms(2) by simp
    then have "i \<in> set (butlast ids)" using that False by (metis Un_iff empty_iff insert_iff list.set set_append)
    then show ?thesis using before by (auto simp: polled_def list_ex_iff map_butlast[symmetric])
  qed
  have "answered poll (last ids) (ro_content r)" "ro_provider_id r = last ids"
    using ans[OF all[of "last ids"]] assms(2) lst r by auto
  then show ?thesis unfolding polled_def[symmetric] using out fq cit ans all by (auto simp: total_output_def)
qed

text \<open>Only the polling branch persists.\<close>

lemma persist_polled:
  assumes "dc_action (reconcile_run jo poll now s) = RAPersistOutput"
  shows "rn_durable s = None \<and> distinct (rn_provider_ids s) \<and> rn_provider_ids s \<noteq> []
    \<and> list_all provider_id_ok (rn_provider_ids s)
    \<and> reconcile_run jo poll now s = decide_polled jo s (map (poll_one poll) (rn_provider_ids s))"
  using assms by (auto simp: reconcile_run_def decide_def decide_durable_def list_ex_iff list_all_iff
      split: if_splits option.splits)


section \<open>A concrete run\<close>

definition ex_json :: json_ops where
  "ex_json = \<lparr> jo_loads = (\<lambda>s. if s = ''{}'' then Some (PDict []) else None),
     jo_dumps = (\<lambda>v. if v = PDict [] then Some ''{}'' else None), jo_sha = (\<lambda>s. replicate 64 CHR ''0'') \<rparr>"

definition ex_snapshot :: run_snapshot where
  "ex_snapshot = \<lparr> rn_run_id = ''r'', rn_initiating = ''m'', rn_status = ''reconciling'', rn_expires_at = 0,
     rn_provider_ids = [''p1''], rn_request = Some \<lparr> fq_payload = ''{}'', fq_sha = replicate 64 CHR ''0'' \<rparr>,
     rn_durable = None, rn_delivery_required = True, rn_effect_keys = None, rn_deliveries = [],
     rn_minimum_citations = 1 \<rparr>"

definition ex_poll :: "string \<Rightarrow> unit + pyval" where
  "ex_poll i = Inr (PDict [(''run_id'', PStr i), (''status'', PStr ''completed''),
     (''output'', PStr '' see https://a.b/c. ''), (''usage'', PDict [(''input_tokens'', PInt 5)])])"

lemma ex_strip: "strip '' see https://a.b/c. '' = ''see https://a.b/c.''"
  by (simp add: strip_def lstrip_def is_space_def code_def)

lemma ex_poll_one: "poll_one ex_poll ''p1'' =
  (\<lparr> ob_provider_id = ''p1'', ob_outcome = MCompleted, ob_reason = ''provider_completed'' \<rparr>,
   Some \<lparr> ro_provider_id = ''p1'', ro_content = ''see https://a.b/c.'', ro_input = 5, ro_output = 0, ro_total = 5,
     ro_session = None \<rparr>)"
  by (simp add: poll_one_def ex_poll_def observe_def dict_get_def ex_strip get_or_def
      safe_token_count_def)

lemma ex_citations: "citation_count ''see https://a.b/c.'' = 1"
  by (simp add: citation_count_def starts_with_def url_end_def is_space_def code_def rstrip_chars_def)

lemma ex_provider_id: "provider_id_ok ''p1''"
  by code_simp

lemma ex_frozen: "frozen_valid ex_json \<lparr> fq_payload = ''{}'', fq_sha = replicate 64 CHR ''0'' \<rparr>"
  by code_simp

lemma ex_reconcile: "dc_action (reconcile_run ex_json ex_poll 9 ex_snapshot) = RAPersistOutput"
  by (simp add: reconcile_run_def snapshot_ok_def ex_snapshot_def ex_provider_id decide_polled_def ex_poll_one
      ex_frozen ex_citations decide_def)


end
