(* ===== verification/AgentTurns.thy ===== *)
theory AgentTurns
  imports AgentExecution Reconciliation
begin

text \<open>
  The writes of one agent turn: the provider request and admission records, the accepted reply and
  the failure path of \<^verbatim>\<open>app/services/chat.py\<close>, and the control replies of
  \<^verbatim>\<open>app/services/control_transcript.py\<close>. Each definition is one transaction of the source, between two
  commits.

  Parameters: the JSON functions, the default \<^verbatim>\<open>json.dumps\<close> of a list of retained requests, the credential
  cipher's \<^verbatim>\<open>encrypt\<close> and \<^verbatim>\<open>decrypt\<close> (\<open>None\<close> when it raises; theory FieldCipher models it), and fresh row
  identifiers. Columns that hold redacted copies and analytics rows are left out.
\<close>

record turn_ops =
  to_json :: json_ops
  to_dump :: "pyval \<Rightarrow> string"
  to_seal :: "string \<Rightarrow> string"
  to_open :: "string \<Rightarrow> string option"

fun contains_text :: "string \<Rightarrow> string \<Rightarrow> bool" where
  "contains_text [] t = (t = [])"
| "contains_text (c # s) t = (starts_with (c # s) t \<or> contains_text s t)"

section \<open>Provider requests and admissions\<close>

definition require_same_run ::
  "'a agent_db_scheme \<Rightarrow> time \<Rightarrow> job_fence option \<Rightarrow> agent_run \<Rightarrow> job_fence option \<times> (exec_error + agent_run)" where
  "require_same_run db now fence r = (case get_conversation db (ar_conversation_id r) of
     None \<Rightarrow> (fence, Inl (ExecutionDenied ''Run conversation is unavailable''))
   | Some c \<Rightarrow> require_active_run db now fence (PStr (ar_id r)) (ar_tenant_id r) (ar_user_id r)
       (ar_conversation_id r) (Some (ar_initiating_message_id r)) (cv_channel c))"

definition retained_requests :: "turn_ops \<Rightarrow> agent_run \<Rightarrow> pyval list option" where
  "retained_requests ops run = (case ar_snapshots run of
     None \<Rightarrow> Some []
   | Some sealed \<Rightarrow> if sealed = [] then Some []
       else (case to_open ops sealed of
          None \<Rightarrow> None
        | Some text \<Rightarrow> (case jo_loads (to_json ops) text of Some (PList xs) \<Rightarrow> Some xs | _ \<Rightarrow> None)))"

definition retained_record :: "frozen_request \<Rightarrow> pyval" where
  "retained_record fq =
    (if contains_text (fq_payload fq) ''data:image/'' \<or> 512000 < length (fq_payload fq)
     then PDict [(''sha256'', PStr (fq_sha fq)), (''recoverable'', PBool False),
            (''reason'', PStr ''binary_or_oversized_input_not_retained'')]
     else PDict [(''payload_json'', PStr (fq_payload fq)), (''sha256'', PStr (fq_sha fq)), (''recoverable'', PBool True)])"

definition record_provider_request ::
  "turn_ops \<Rightarrow> 'a agent_db_scheme \<Rightarrow> time \<Rightarrow> job_fence option \<Rightarrow> agent_run \<Rightarrow> pyval \<Rightarrow>
   job_fence option \<times> (exec_error + 'a agent_db_scheme)" where
  "record_provider_request ops db now fence r request =
    (case require_same_run db now fence r of
       (fence', Inl e) \<Rightarrow> (fence', Inl e)
     | (fence', Inr run) \<Rightarrow> (fence',
         case (freeze_request (to_json ops) request, retained_requests ops run) of
           (Some fq, Some xs) \<Rightarrow> Inr (set_run (ar_id run)
             (\<lambda>x. x\<lparr>ar_snapshots := Some (to_seal ops (to_dump ops (PList (xs @ [retained_record fq]))))\<rparr>) db)
         | _ \<Rightarrow> Inl RunValueError))"

definition record_provider_admission ::
  "'a agent_db_scheme \<Rightarrow> time \<Rightarrow> job_fence option \<Rightarrow> agent_run \<Rightarrow> string \<Rightarrow>
   job_fence option \<times> (exec_error + 'a agent_db_scheme)" where
  "record_provider_admission db now fence r provider_id =
    (case require_same_run db now fence r of
       (fence', Inl e) \<Rightarrow> (fence', Inl e)
     | (fence', Inr run) \<Rightarrow> (fence', Inr (set_run (ar_id run)
         (\<lambda>x. x\<lparr>ar_provider_run_ids := ar_provider_run_ids run @ [provider_id]\<rparr>) db)))"

section \<open>The accepted reply\<close>

definition is_reply_to :: "ident \<Rightarrow> agent_message \<Rightarrow> bool" where
  "is_reply_to inbound m = (am_direction m = Outbound \<and> am_initiating m = Some inbound
     \<and> dict_get (am_metadata m) ''event_kind'' = PStr ''reply'')"

definition reply_for_input :: "'a agent_db_scheme \<Rightarrow> ident \<Rightarrow> ident \<Rightarrow> ident \<Rightarrow> agent_message option" where
  "reply_for_input db tenant user inbound =
    first_by (\<lambda>m. (am_created_at m, am_id m))
      (\<lambda>m. am_tenant_id m = tenant \<and> am_user_id m = Some user \<and> is_reply_to inbound m) (ag_messages db)"

text \<open>What a turn has produced when its answer is ready: the new row's identifier and the answer, whether the
  provider failed, whether the turn is a voice call, the provider's session and the usage counters.\<close>

record turn_answer =
  ta_id :: ident
  ta_text :: string
  ta_failed :: bool
  ta_voice :: bool
  ta_session :: "string option"
  ta_total_tokens :: "int option"
  ta_usage :: "(string \<times> pyval) list"
  ta_error_code :: "string option"

definition reply_row ::
  "turn_answer \<Rightarrow> time \<Rightarrow> ident \<Rightarrow> ident \<Rightarrow> ident \<Rightarrow> string \<Rightarrow> agent_run \<Rightarrow> agent_message" where
  "reply_row a now tenant user profile channel r =
    \<lparr> am_id = ta_id a, am_tenant_id = tenant, am_user_id = Some user, am_profile_id = Some profile,
      am_conversation_id = ar_conversation_id r, am_channel = channel, am_direction = Outbound,
      am_content = ta_text a, am_initiating = Some (ar_initiating_message_id r),
      am_metadata = [(''event_kind'', PStr ''reply''), (''execution_run_id'', PStr (ar_id r)),
         (''model_outcome'', PStr (if ta_failed a then ''failed'' else ''completed''))]
         @ (if ta_voice a then [(''type'', PStr ''voice_call''), (''voice_playback_state'', PStr ''generated'')] else []),
      am_scope = [], am_external_id = None, am_created_at = now \<rparr>"

definition adopt_media :: "string \<Rightarrow> agent_run \<Rightarrow> ident \<Rightarrow> 'a agent_db_scheme \<Rightarrow> 'a agent_db_scheme" where
  "adopt_media channel r out = set_media
     (\<lambda>m. gm_tenant_id m = ar_tenant_id r \<and> gm_user_id m = ar_user_id r \<and> gm_conversation_id m = ar_conversation_id r
        \<and> gm_channel m = channel \<and> gm_message_id m = Some (ar_initiating_message_id r) \<and> gm_run_id m = Some (ar_id r))
     (\<lambda>m. m\<lparr>gm_message_id := Some out\<rparr>)"

definition record_usage :: "usage_event \<Rightarrow> 'a agent_db_scheme \<Rightarrow> 'a agent_db_scheme" where
  "record_usage u db = db\<lparr>ag_usage := ag_usage db @ [u]\<rparr>"

definition accept_reply ::
  "'a agent_db_scheme \<Rightarrow> time \<Rightarrow> job_fence option \<Rightarrow> agent_run \<Rightarrow> ident \<Rightarrow> ident \<Rightarrow> ident \<Rightarrow> ident \<Rightarrow> ident \<Rightarrow> string \<Rightarrow>
   turn_answer \<Rightarrow> job_fence option \<times> (exec_error + 'a agent_db_scheme)" where
  "accept_reply db now fence r tenant user profile cid inbound channel a =
    (case require_active_run db now fence (PStr (ar_id r)) tenant user cid (Some inbound) channel of
       (fence', Inl e) \<Rightarrow> (fence', Inl e)
     | (fence', Inr run) \<Rightarrow> (fence',
         if ar_output_message_id run \<notin> {None, Some []} \<or> reply_for_input db tenant user inbound \<noteq> None
         then Inl (ExecutionDenied ''This input already has an accepted reply'')
         else
          let db1 = db\<lparr>ag_messages := ag_messages db @ [reply_row a now tenant user profile channel run]\<rparr>;
              db2 = adopt_media channel run (ta_id a) db1;
              db3 = set_run (ar_id run) (\<lambda>x. x\<lparr>ar_output_message_id := Some (ta_id a)\<rparr>) db2;
              db4 = finish_run run (if ta_failed a then RFailed else RCompleted) db3;
              db5 = set_conversation cid (\<lambda>c. c\<lparr>cv_updated_at := now, cv_session_id :=
                 (case ta_session a of None \<Rightarrow> cv_session_id c
                  | Some s \<Rightarrow> if s = [] then cv_session_id c else Some (take 160 s))\<rparr>) db4;
              db6 = record_usage \<lparr> uv_tenant_id = Some tenant, uv_user_id = Some user, uv_name = ''chat.response'',
                 uv_units = ta_total_tokens a, uv_metadata = PDict (ta_usage a) \<rparr> db5
          in Inr (add_event \<lparr> ev_tenant_id = Some tenant, ev_user_id = Some user, ev_conversation_id = Some cid,
                ev_channel = channel, ev_type = ''assistant_response'',
                ev_status = (if ta_failed a then ''degraded'' else ''succeeded''), ev_tool = None,
                ev_error_code = ta_error_code a, ev_metadata = PDict [] \<rparr> db6)))"

text \<open>The handler of an exception after the run began: the rolled back state is read again.\<close>

definition fail_turn :: "'a agent_db_scheme \<Rightarrow> time \<Rightarrow> agent_run \<Rightarrow> ident \<Rightarrow> 'a agent_db_scheme" where
  "fail_turn db now r cid = (case (get_run db (ar_id r), get_conversation db cid) of
     (Some run, Some c) \<Rightarrow>
       if ar_status run = RRunning \<and> cv_active_run c = Some (ar_id run)
       then (if ar_snapshots run \<notin> {None, Some []}
             then set_run (ar_id run) (\<lambda>x. x\<lparr>ar_status := RExpired, ar_expires_at := now\<rparr>) db
             else finish_run run RFailed db)
       else db
   | _ \<Rightarrow> db)"

section \<open>Control replies\<close>

definition receiver_scope :: "(string \<Rightarrow> string) \<Rightarrow> string \<Rightarrow> (string \<times> string) option \<Rightarrow> string" where
  "receiver_scope sha lane sender = (case (case sender of None \<Rightarrow> (''mock'', ''mock'') | Some s \<Rightarrow> s) of
     (waba, phone) \<Rightarrow> sha (''v1'' @ [CHR 0x00] @ lane @ [CHR 0x00] @ waba @ [CHR 0x00] @ phone))"

record control_request =
  cr_tenant_id :: "ident option"
  cr_user_id :: "ident option"
  cr_source_id :: string
  cr_source_text :: string
  cr_body :: string
  cr_purpose :: string
  cr_key :: string
  cr_sender :: "(string \<times> string) option"

definition present :: "string option \<Rightarrow> bool" where
  "present x = (x \<notin> {None, Some []})"

definition control_row ::
  "control_request \<Rightarrow> time \<Rightarrow> ident \<Rightarrow> ident \<Rightarrow> ident \<Rightarrow> ident \<Rightarrow> ident \<Rightarrow> agent_message" where
  "control_row q now i tenant user cid inbound =
    \<lparr> am_id = i, am_tenant_id = tenant, am_user_id = Some user, am_profile_id = None, am_conversation_id = cid,
      am_channel = ''whatsapp'', am_direction = Outbound, am_content = cr_body q, am_initiating = Some inbound,
      am_metadata = [(''event_kind'', PStr ''control''), (''control_purpose'', PStr (cr_purpose q)),
         (''transport_key'', PStr (cr_key q)), (''delivery_status'', PStr ''prepared'')],
      am_scope = [], am_external_id = None, am_created_at = now \<rparr>"

definition control_conversation :: "string \<Rightarrow> time \<Rightarrow> ident \<Rightarrow> ident \<Rightarrow> ident \<Rightarrow> string \<times> string \<Rightarrow> conversation" where
  "control_conversation lane now i tenant user sender =
    \<lparr> cv_id = i, cv_tenant_id = tenant, cv_user_id = user, cv_channel = ''whatsapp'', cv_status = ''open'',
      cv_session_id = None, cv_generation = 1, cv_waba_id = fst sender, cv_receiver_id = snd sender, cv_lane = lane,
      cv_active_run = None, cv_pending_utterance = PDict [], cv_updated_at = now \<rparr>"

definition control_input ::
  "control_request \<Rightarrow> string \<Rightarrow> time \<Rightarrow> ident \<Rightarrow> ident \<Rightarrow> ident \<Rightarrow> ident \<Rightarrow> agent_message" where
  "control_input q scope now i tenant user cid =
    \<lparr> am_id = i, am_tenant_id = tenant, am_user_id = Some user, am_profile_id = None, am_conversation_id = cid,
      am_channel = ''whatsapp'', am_direction = Inbound,
      am_content = (if cr_source_text q = [] then ''[Transport control event]'' else cr_source_text q),
      am_initiating = None, am_metadata = [], am_scope = scope, am_external_id = Some (cr_source_id q), am_created_at = now \<rparr>"

definition find_control_input ::
  "'a agent_db_scheme \<Rightarrow> control_request \<Rightarrow> ident \<Rightarrow> ident \<Rightarrow> string \<Rightarrow> agent_message option" where
  "find_control_input db q tenant user scope =
    find (\<lambda>m. am_tenant_id m = tenant \<and> am_user_id m = Some user \<and> am_channel m = ''whatsapp''
      \<and> am_direction m = Inbound \<and> am_scope m = scope \<and> am_external_id m = Some (cr_source_id q)) (ag_messages db)"

text \<open>\<open>lane\<close> is \<^verbatim>\<open>settings.app_env\<close>; \<open>ids\<close> are the identifiers of the rows it may insert: conversation, input, reply.\<close>

definition record_control_reply ::
  "(string \<Rightarrow> string) \<Rightarrow> string \<Rightarrow> time \<Rightarrow> ident \<times> ident \<times> ident \<Rightarrow> control_request \<Rightarrow> 'a agent_db_scheme \<Rightarrow>
   agent_message option \<times> 'a agent_db_scheme" where
  "record_control_reply sha lane now ids q db =
    (case (cr_tenant_id q, cr_user_id q) of
       (Some tenant, Some user) \<Rightarrow>
        if tenant = [] \<or> user = [] \<or> tbl_find tn_id tenant (ag_tenants db) = None
           \<or> tbl_find us_id user (ag_users db) = None then (None, db)
        else if starts_with (cr_purpose q) ''agent-reply'' \<or> starts_with (cr_purpose q) ''agent-progress'' then (None, db)
        else (case find (\<lambda>m. am_tenant_id m = tenant \<and> am_user_id m = Some user
                  \<and> dict_get (am_metadata m) ''transport_key'' = PStr (cr_key q)) (ag_messages db) of
          Some prior \<Rightarrow> (Some prior, db)
        | None \<Rightarrow>
           let sender = (case cr_sender q of None \<Rightarrow> (''mock'', ''mock'') | Some s \<Rightarrow> s);
               scope = receiver_scope sha lane (Some sender);
               inbound = find_control_input db q tenant user scope;
               conv = (case inbound of
                   Some m \<Rightarrow> get_conversation db (am_conversation_id m)
                 | None \<Rightarrow> first_by (\<lambda>c. - cv_updated_at c)
                     (\<lambda>c. cv_tenant_id c = tenant \<and> cv_user_id c = user \<and> cv_channel c = ''whatsapp'' \<and> cv_generation c = 1
                        \<and> cv_status c = ''open'' \<and> cv_lane c = lane \<and> cv_waba_id c = fst sender
                        \<and> cv_receiver_id c = snd sender)
                     (ag_conversations db));
               cid = (case conv of Some c \<Rightarrow> cv_id c | None \<Rightarrow> fst ids);
               db1 = (case conv of Some c \<Rightarrow> db
                 | None \<Rightarrow> db\<lparr>ag_conversations := ag_conversations db @
                     [control_conversation lane now (fst ids) tenant user sender]\<rparr>);
               iid = (case inbound of Some m \<Rightarrow> am_id m | None \<Rightarrow> fst (snd ids));
               db2 = (case inbound of Some m \<Rightarrow> db1
                 | None \<Rightarrow> db1\<lparr>ag_messages := ag_messages db1 @
                     [control_input q scope now (fst (snd ids)) tenant user cid]\<rparr>);
               reply = control_row q now (snd (snd ids)) tenant user cid iid
           in (Some reply, db2\<lparr>ag_messages := ag_messages db2 @ [reply]\<rparr>))
     | _ \<Rightarrow> (None, db))"

end
