(* ===== verification/RunRecovery.thy ===== *)
theory RunRecovery
  imports AgentTurns
begin

text \<open>
  Applying a reconciliation decision to the database (\<^verbatim>\<open>app/services/run_recovery.py\<close>): a first transaction
  claims the run under a new epoch, the provider is polled with no transaction open, and a second
  transaction applies the decision if the claim still holds.

  Parameters: those of the turn, the redaction of a text, the policy texts of \<^verbatim>\<open>app/providers/hermes.py\<close>,
  whether a profile's endpoint passes its validation, the lookup, and fresh identifiers. \<open>moment\<close> is the
  start of the recovery, later readings are passed as the moments they stand for.
\<close>

section \<open>Citations a message asks for\<close>

definition word_char :: "char \<Rightarrow> bool" where
  "word_char c = (is_alnum c \<or> c = CHR ''_'' \<or> code c \<in> {170, 178, 179, 181, 185, 186, 188, 189, 190}
     \<or> 192 \<le> code c \<and> code c \<noteq> 215 \<and> code c \<noteq> 247)"

text \<open>A pattern is a word, optionally followed by white space and a second word. \<open>eat\<close> returns what follows it.\<close>

definition eat :: "string \<Rightarrow> string \<Rightarrow> string option" where
  "eat w s = (if starts_with s w then Some (drop (length w) s) else None)"

definition match_at :: "string \<times> string option \<Rightarrow> string \<Rightarrow> bool" where
  "match_at pat s = (case eat (fst pat) s of
     None \<Rightarrow> False
   | Some rest \<Rightarrow> (case snd pat of
       None \<Rightarrow> rest = [] \<or> \<not> word_char (hd rest)
     | Some w2 \<Rightarrow> rest \<noteq> [] \<and> is_space (hd rest) \<and>
         (case eat w2 (lstrip rest) of None \<Rightarrow> False | Some end_ \<Rightarrow> end_ = [] \<or> \<not> word_char (hd end_))))"

fun search_words :: "(string \<times> string option) list \<Rightarrow> bool \<Rightarrow> string \<Rightarrow> bool" where
  "search_words pats after_word [] = False"
| "search_words pats after_word (c # s) =
     (\<not> after_word \<and> list_ex (\<lambda>p. match_at p (c # s)) pats \<or> search_words pats (word_char c) s)"

definition two_citation_words :: "(string \<times> string option) list" where
  "two_citation_words =
    map (\<lambda>w. (w, None)) [''authoritative'', ''citation'', ''citations'', ''cite'', ''expand'', ''expansion'',
       ''market research'', ''regulator'', ''regulators'', ''web research'']
    @ [(a, Some b). a \<leftarrow> [''current'', ''external'', ''official'', ''provide'', ''with''], b \<leftarrow> [''source'', ''sources'']]"

definition one_citation_words :: "(string \<times> string option) list" where
  "one_citation_words = map (\<lambda>w. (w, None)) [''current market'', ''external evidence'', ''latest news'', ''law'', ''laws'',
     ''news'', ''regulation'', ''regulations'']"

definition required_citation_count :: "string \<Rightarrow> int" where
  "required_citation_count message =
    (if search_words two_citation_words False (lower message) then 2
     else if search_words one_citation_words False (lower message) then 1 else 0)"

section \<open>Context\<close>

record recovery_ops = turn_ops +
  ry_redact :: "string \<Rightarrow> string"
  ry_policy :: string
  ry_repair_prompt :: "int \<Rightarrow> string"
  ry_endpoint_ok :: "hermes_profile \<Rightarrow> bool"

record recovery_settings =
  rs_env :: string
  rs_meta_backend :: bool
  rs_senders :: "(string \<times> string) list"
  rs_read_timeout :: rat

definition lock_run :: "'a agent_db_scheme \<Rightarrow> ident \<Rightarrow> agent_run option \<times> conversation option" where
  "lock_run db rid = (case get_run db rid of
     None \<Rightarrow> (None, None)
   | Some r \<Rightarrow> (Some r, find (\<lambda>c. cv_id c = ar_conversation_id r \<and> cv_tenant_id c = ar_tenant_id r) (ag_conversations db)))"

definition review :: "string \<Rightarrow> decision" where
  "review reason = \<lparr> dc_action = RAReview, dc_model = MUnknown, dc_delivery = DUnknown, dc_reason = reason,
     dc_output = None, dc_observations = [] \<rparr>"

definition member_active :: "'a agent_db_scheme \<Rightarrow> ident \<Rightarrow> ident \<Rightarrow> bool" where
  "member_active db tenant user = (case find (\<lambda>m. mb_tenant_id m = tenant \<and> mb_user_id m = user) (ag_members db) of
     None \<Rightarrow> False | Some m \<Rightarrow> mb_status m = ''active'')"

definition conversation_in_scope :: "recovery_settings \<Rightarrow> agent_run \<Rightarrow> conversation \<Rightarrow> bool" where
  "conversation_in_scope st r c = (cv_tenant_id c = ar_tenant_id r \<and> cv_user_id c = ar_user_id r \<and> cv_generation c = 1
     \<and> cv_status c \<in> {''open'', ''voice''} \<and> cv_lane c = rs_env st)"

definition inbound_in_scope :: "recovery_ops \<Rightarrow> agent_run \<Rightarrow> conversation \<Rightarrow> agent_message \<Rightarrow> bool" where
  "inbound_in_scope ops r c m = (am_direction m = Inbound \<and> am_tenant_id m = ar_tenant_id r
     \<and> am_user_id m = Some (ar_user_id r) \<and> am_conversation_id m = ar_conversation_id r \<and> am_channel m = cv_channel c
     \<and> am_scope m = receiver_scope (jo_sha (to_json ops)) (cv_lane c) (Some (cv_waba_id c, cv_receiver_id c)))"

text \<open>\<open>Inl\<close> is the reason of \<^verbatim>\<open>_UnsafeRecovery\<close>.\<close>

definition authorized_context ::
  "recovery_ops \<Rightarrow> recovery_settings \<Rightarrow> 'a agent_db_scheme \<Rightarrow> agent_run \<Rightarrow> conversation option \<Rightarrow>
   string + agent_message \<times> hermes_profile" where
  "authorized_context ops st db r co =
    (case co of None \<Rightarrow> Inl ''conversation_scope_inactive''
     | Some c \<Rightarrow>
       if \<not> conversation_in_scope st r c then Inl ''conversation_scope_inactive''
       else if cv_active_run c \<notin> {None, Some (ar_id r)} then Inl ''replacement_run_active''
       else if \<not> (active_tenant db (ar_tenant_id r) \<and> active_user db (ar_user_id r)
              \<and> member_active db (ar_tenant_id r) (ar_user_id r)) then Inl ''initiating_actor_revoked''
       else (case get_message db (ar_initiating_message_id r) of
          None \<Rightarrow> Inl ''initiating_message_scope_invalid''
        | Some m \<Rightarrow>
          if \<not> inbound_in_scope ops r c m then Inl ''initiating_message_scope_invalid''
          else if dict_get (am_metadata m) ''phone_identity_id'' \<noteq> opt_str (ar_actor_identity_id r)
          then Inl ''initiating_identity_binding_invalid''
          else if (case ar_actor_identity_id r of None \<Rightarrow> False
                   | Some i \<Rightarrow> i \<noteq> [] \<and> \<not> approved_phone db i (ar_tenant_id r) (ar_user_id r))
          then Inl ''initiating_actor_revoked''
          else if ar_actor_identity_id r \<in> {None, Some []} \<and> am_channel m = ''whatsapp'' then Inl ''initiating_identity_missing''
          else if am_channel m = ''whatsapp'' \<and> rs_meta_backend st
             \<and> (cv_waba_id c, cv_receiver_id c) \<notin> set (rs_senders st) then Inl ''receiver_scope_revoked''
          else (case find (\<lambda>p. hp_tenant_id p = ar_tenant_id r) (ag_profiles db) of
             None \<Rightarrow> Inl ''provider_profile_inactive''
           | Some p \<Rightarrow>
             if hp_status p = ''active'' \<and> hp_provider p = ''hermes'' \<and> am_profile_id m = Some (hp_id p)
             then Inr (m, p) else Inl ''provider_profile_inactive'')))"

definition durable_rows :: "'a agent_db_scheme \<Rightarrow> agent_run \<Rightarrow> agent_message \<Rightarrow> agent_message option list" where
  "durable_rows db r inbound =
    (if present (ar_output_message_id r) then [get_message db (the (ar_output_message_id r))]
     else map Some (filter (\<lambda>m. am_initiating m = Some (am_id inbound) \<and> am_direction m = Outbound) (ag_messages db)))"

definition bound_output :: "agent_run \<Rightarrow> agent_message \<Rightarrow> hermes_profile \<Rightarrow> agent_message \<Rightarrow> bool" where
  "bound_output r inbound p m = (am_tenant_id m = ar_tenant_id r \<and> am_user_id m = Some (ar_user_id r)
     \<and> am_conversation_id m = ar_conversation_id r \<and> am_initiating m = Some (am_id inbound)
     \<and> am_profile_id m = Some (hp_id p) \<and> am_direction m = Outbound \<and> am_channel m = am_channel inbound
     \<and> dict_get (am_metadata m) ''event_kind'' = PStr ''reply'' \<and> strip (am_content m) \<noteq> []
     \<and> (case map_of (am_metadata m) ''execution_run_id'' of None \<Rightarrow> True | Some v \<Rightarrow> v = PStr (ar_id r)))"

definition durable_of ::
  "'a agent_db_scheme \<Rightarrow> agent_run \<Rightarrow> agent_message \<Rightarrow> hermes_profile \<Rightarrow> string + durable_output option" where
  "durable_of db r inbound p = (case durable_rows db r inbound of
     [] \<Rightarrow> Inr None
   | [Some m] \<Rightarrow> if bound_output r inbound p m
       then Inr (Some \<lparr> do_message_id = am_id m, do_run_id = ar_id r, do_initiating = am_id inbound, do_content = am_content m \<rparr>)
       else Inl ''durable_output_binding_invalid''
   | [None] \<Rightarrow> Inl ''durable_output_binding_invalid''
   | _ \<Rightarrow> Inl ''durable_output_duplicate'')"

definition receipts_of :: "'a agent_db_scheme \<Rightarrow> string list \<Rightarrow> wa_message list" where
  "receipts_of db keys = filter (\<lambda>w. case wm_idempotency_key w of None \<Rightarrow> False | Some k \<Rightarrow> k \<in> set keys) (ag_whatsapp db)"

definition run_snapshot_of ::
  "'a agent_db_scheme \<Rightarrow> agent_run \<Rightarrow> conversation option \<Rightarrow> agent_message \<Rightarrow> durable_output option \<Rightarrow> string + run_snapshot" where
  "run_snapshot_of db r co inbound durable =
    (let keys = ar_effect_keys r; receipts = receipts_of db keys in
     if 100 < length keys \<or> [] \<in> set keys then Inl ''delivery_manifest_invalid''
     else if list_ex (\<lambda>w. co = None \<or> wm_tenant_id w \<noteq> Some (ar_tenant_id r) \<or> wm_user_id w \<noteq> Some (ar_user_id r)
            \<or> wm_direction w \<noteq> Outbound \<or> wm_receiver_scope w \<noteq> am_scope inbound) receipts
     then Inl ''delivery_receipt_scope_invalid''
     else Inr \<lparr> rn_run_id = ar_id r, rn_initiating = am_id inbound, rn_status = ''reconciling'',
        rn_expires_at = ar_expires_at r, rn_provider_ids = ar_provider_run_ids r, rn_request = None, rn_durable = durable,
        rn_delivery_required = (am_channel inbound = ''whatsapp''),
        rn_effect_keys = (if keys = [] then None else Some keys),
        rn_deliveries = map (\<lambda>w. \<lparr> dr_key = (case wm_idempotency_key w of None \<Rightarrow> [] | Some k \<Rightarrow> k),
           dr_status = wm_status w, dr_provider_id = wm_meta_message_id w \<rparr>) receipts,
        rn_minimum_citations = required_citation_count (am_content inbound) \<rparr>)"

definition durable_model_failed :: "'a agent_db_scheme \<Rightarrow> durable_output \<Rightarrow> run_status \<Rightarrow> bool" where
  "durable_model_failed db d status = (status = RFailed
     \<or> (case get_message db (do_message_id d) of None \<Rightarrow> False
        | Some m \<Rightarrow> dict_get (am_metadata m) ''model_outcome'' = PStr ''failed''))"

section \<open>The retained requests\<close>

text \<open>The checks of one retained request. \<open>first\<close> is the payload of the request before it, when there is one;
  a failed check and an exception of the JSON reader both give the reason code.\<close>

definition sub_dict :: "pyval \<Rightarrow> (string \<times> pyval) list option" where
  "sub_dict v = (case v of PDict d \<Rightarrow> Some d | _ \<Rightarrow> None)"

definition input_bound :: "recovery_ops \<Rightarrow> agent_message \<Rightarrow> pyval \<Rightarrow> bool" where
  "input_bound ops inbound v = (case v of
     PStr s \<Rightarrow> s = ry_redact ops (am_content inbound)
   | PList (PDict d # _) \<Rightarrow> dict_get d ''type'' = PStr ''text''
       \<and> dict_get d ''text'' \<in> {PStr (am_content inbound), PStr (ry_redact ops (am_content inbound))}
   | _ \<Rightarrow> False)"

definition repair_ok ::
  "recovery_ops \<Rightarrow> agent_message \<Rightarrow> (string \<times> pyval) list \<Rightarrow> (string \<times> pyval) list \<Rightarrow> string \<Rightarrow> bool" where
  "repair_ok ops inbound first payload instructions =
    (let required = required_citation_count (am_content inbound);
         prefix = (case dict_get first ''instructions'' of PStr t \<Rightarrow> t | _ \<Rightarrow> [])
            @ [CHR 0x0A] @ ''Internal citation repair; the draft was never shown to the merchant.'' @ [CHR 0x0A]
            @ ry_repair_prompt ops required
            @ [CHR 0x0A] @ ''Unverified candidate answer to repair:'' @ [CHR 0x0A]
     in required \<noteq> 0 \<and> starts_with instructions prefix
        \<and> dict_get payload ''input'' = dict_get first ''input''
        \<and> dict_get payload ''conversation_history'' = dict_get first ''conversation_history'')"

definition request_key :: "recovery_ops \<Rightarrow> agent_message \<Rightarrow> bool \<Rightarrow> string" where
  "request_key ops inbound repair = ''bb_'' @ jo_sha (to_json ops) (am_id inbound) @ (if repair then ''_citation'' else [])"

text \<open>The payload of a request whose envelope passes, or the reason it fails.\<close>

definition check_payload ::
  "recovery_ops \<Rightarrow> agent_message \<Rightarrow> hermes_profile \<Rightarrow> bool \<Rightarrow> (string \<times> pyval) list \<Rightarrow> string + (string \<times> pyval) list \<times> string" where
  "check_payload ops inbound p repair envelope =
    (if dict_get envelope ''endpoint'' \<noteq> PStr (rstrip_chars ''/'' (hp_api_url p)) then Inl ''provider_endpoint_changed''
     else (case dict_get envelope ''payload'' of
        PDict payload \<Rightarrow>
          if dict_get payload ''model'' \<noteq> PStr (hp_profile_name p) then Inl ''provider_profile_changed''
          else if dict_get envelope ''headers'' \<noteq> PDict [(''Idempotency-Key'', PStr (request_key ops inbound repair))]
          then Inl ''provider_request_identity_invalid''
          else (case dict_get payload ''instructions'' of
             PStr t \<Rightarrow>
               if starts_with t (ry_policy ops @ [CHR 0x0A, CHR 0x0A] @ ''Current application context:'' @ [CHR 0x0A])
               then Inr (payload, t) else Inl ''frozen_output_policy_unknown''
           | _ \<Rightarrow> Inl ''frozen_output_policy_unknown'')
      | _ \<Rightarrow> Inl ''provider_profile_changed''))"

definition check_input ::
  "recovery_ops \<Rightarrow> agent_message \<Rightarrow> (string \<times> pyval) list \<Rightarrow> string + unit" where
  "check_input ops inbound payload = (case (dict_get payload ''input'', dict_get payload ''conversation_history'') of
     (PList inputs, PList _) \<Rightarrow> (case inputs of
        [PDict d] \<Rightarrow> if dict_get d ''role'' = PStr ''user'' \<and> input_bound ops inbound (dict_get d ''content'') then Inr ()
          else Inl ''frozen_input_binding_invalid''
      | _ \<Rightarrow> Inl ''frozen_input_binding_invalid'')
   | _ \<Rightarrow> Inl ''frozen_request_invalid'')"

definition check_request ::
  "recovery_ops \<Rightarrow> agent_message \<Rightarrow> hermes_profile \<Rightarrow> (string \<times> pyval) list option \<Rightarrow> pyval \<Rightarrow>
   string + frozen_request \<times> (string \<times> pyval) list" where
  "check_request ops inbound p first v = (case v of
     PDict d \<Rightarrow>
       if dict_get d ''recoverable'' \<noteq> PBool True then Inl ''frozen_request_not_retained''
       else (case (dict_get d ''payload_json'', dict_get d ''sha256'') of
          (PStr serialized, PStr digest) \<Rightarrow>
            let fq = \<lparr> fq_payload = serialized, fq_sha = digest \<rparr> in
            if \<not> frozen_valid (to_json ops) fq then Inl ''frozen_request_integrity_invalid''
            else (case jo_loads (to_json ops) serialized of
               Some (PDict envelope) \<Rightarrow>
                 and_then (check_payload ops inbound p (first \<noteq> None) envelope) (\<lambda>(payload, t).
                 and_then (check_input ops inbound payload) (\<lambda>_.
                  if map_of payload ''session_id'' \<noteq> None \<or> map_of payload ''previous_response_id'' \<noteq> None
                  then Inl ''frozen_context_contract_unknown''
                  else (case first of
                     Some f \<Rightarrow> if repair_ok ops inbound f payload t then Inr (fq, payload) else Inl ''frozen_repair_policy_unknown''
                   | None \<Rightarrow> Inr (fq, payload))))
             | _ \<Rightarrow> Inl ''frozen_request_invalid'')
        | _ \<Rightarrow> Inl ''frozen_request_integrity_invalid'')
   | _ \<Rightarrow> Inl ''frozen_request_not_retained'')"

fun check_requests ::
  "recovery_ops \<Rightarrow> agent_message \<Rightarrow> hermes_profile \<Rightarrow> (string \<times> pyval) list option \<Rightarrow> pyval list \<Rightarrow> string + frozen_request option" where
  "check_requests ops inbound p first [] = Inr None"
| "check_requests ops inbound p first (v # vs) =
     and_then (check_request ops inbound p first v) (\<lambda>(fq, payload).
     and_then (check_requests ops inbound p (Some (case first of None \<Rightarrow> payload | Some f \<Rightarrow> f)) vs) (\<lambda>rest.
       Inr (Some (case rest of None \<Rightarrow> fq | Some final \<Rightarrow> final))))"

definition validated_requests ::
  "recovery_ops \<Rightarrow> agent_run \<Rightarrow> agent_message \<Rightarrow> hermes_profile \<Rightarrow> string + frozen_request" where
  "validated_requests ops r inbound p =
    (if \<not> present (ar_snapshots r) then Inl ''frozen_request_missing''
     else (case map_option (jo_loads (to_json ops)) (to_open ops (the (ar_snapshots r))) of
        Some (Some (PList xs)) \<Rightarrow>
          if length xs \<notin> {1, 2} then Inl ''frozen_request_invalid''
          else if length xs \<noteq> length (ar_provider_run_ids r) then Inl ''provider_admission_snapshot_mismatch''
          else and_then (check_requests ops inbound p None xs) (\<lambda>final.
            case final of None \<Rightarrow> Inl ''frozen_request_invalid'' | Some fq \<Rightarrow> Inr fq)
      | _ \<Rightarrow> Inl ''frozen_request_invalid''))"

section \<open>Retiring a run\<close>

fun model_value :: "model_outcome \<Rightarrow> string" where
  "model_value MPending = ''pending''"
| "model_value MCompleted = ''completed''"
| "model_value MFailed = ''failed''"
| "model_value MUnknown = ''unknown''"

fun delivery_value :: "delivery_outcome \<Rightarrow> string" where
  "delivery_value DNotRequired = ''not_required''"
| "delivery_value DPending = ''pending''"
| "delivery_value DCompleted = ''completed''"
| "delivery_value DFailed = ''failed''"
| "delivery_value DUnknown = ''unknown''"

fun action_value :: "reconcile_action \<Rightarrow> string" where
  "action_value RAWait = ''wait''"
| "action_value RAPollLater = ''poll_later''"
| "action_value RAPersistOutput = ''persist_output''"
| "action_value RAResumeDelivery = ''resume_delivery''"
| "action_value RAComplete = ''complete''"
| "action_value RAFail = ''fail''"
| "action_value RAReview = ''review''"

fun run_status_value :: "run_status \<Rightarrow> string" where
  "run_status_value RRunning = ''running''"
| "run_status_value RCompleted = ''completed''"
| "run_status_value RFailed = ''failed''"
| "run_status_value RExpired = ''expired''"
| "run_status_value RReconciling = ''reconciling''"
| "run_status_value RUnknown = ''unknown''"

definition retired_status :: "decision \<Rightarrow> run_status" where
  "retired_status d = (if dc_action d = RAPollLater then RExpired
     else if dc_action d = RAReview then RUnknown
     else if dc_action d = RAFail \<or> dc_model d = MFailed then RFailed else RCompleted)"

definition retire :: "agent_run \<Rightarrow> conversation option \<Rightarrow> decision \<Rightarrow> time \<Rightarrow> 'a agent_db_scheme \<Rightarrow> 'a agent_db_scheme" where
  "retire r co d moment db =
    (let st = retired_status d;
         db1 = (if dc_action d = RAPollLater
                then set_run (ar_id r) (\<lambda>x. x\<lparr>ar_status := st, ar_expires_at := moment + seconds 30\<rparr>) db
                else clear_pointer r (set_run (ar_id r) (\<lambda>x. x\<lparr>ar_status := st, ar_expires_at := moment\<rparr>) db));
         db2 = (if dc_action d \<in> {RAReview, RAFail} then fail_media (ar_id r) db1 else db1)
     in add_event \<lparr> ev_tenant_id = Some (ar_tenant_id r), ev_user_id = Some (ar_user_id r),
          ev_conversation_id = Some (ar_conversation_id r),
          ev_channel = (case co of None \<Rightarrow> ''system'' | Some c \<Rightarrow> cv_channel c), ev_type = ''run_reconciliation'',
          ev_status = run_status_value st, ev_tool = None, ev_error_code = Some (take 80 (dc_reason d)),
          ev_metadata = PDict [(''execution_run_id'', PStr (ar_id r)), (''reconcile_epoch'', PInt (ar_reconcile_epoch r)),
            (''model_outcome'', PStr (model_value (dc_model d))), (''delivery_outcome'', PStr (delivery_value (dc_delivery d))),
            (''action'', PStr (action_value (dc_action d)))] \<rparr> db2)"

section \<open>Claim\<close>

record claim =
  cl_run_id :: ident
  cl_epoch :: int
  cl_expires_at :: time
  cl_active_run :: "ident option"
  cl_requests :: "string option"
  cl_snapshot :: run_snapshot
  cl_profile_id :: ident
  cl_has_endpoint :: bool
  cl_model_failed :: bool

text \<open>How a transaction of the recovery ends: the lease was lost (rolled back), a decision was reached, or the
  run is claimed.\<close>

datatype 'a claim_outcome = CLeaseLost | CDecided decision 'a | CClaimed claim 'a

text \<open>What the first transaction establishes under the lock: the snapshot, the profile and the durable output. A
  run without durable output must still own its conversation and have its request intact.\<close>

definition claim_checks ::
  "recovery_ops \<Rightarrow> recovery_settings \<Rightarrow> 'a agent_db_scheme \<Rightarrow> agent_run \<Rightarrow> conversation option \<Rightarrow>
   string + run_snapshot \<times> hermes_profile \<times> durable_output option \<times> conversation" where
  "claim_checks ops st db r co =
    and_then (authorized_context ops st db r co) (\<lambda>(inbound, p).
    and_then (durable_of db r inbound p) (\<lambda>durable.
      if durable = None \<and> (case co of None \<Rightarrow> True | Some c \<Rightarrow> cv_active_run c \<noteq> Some (ar_id r))
      then Inl ''active_run_binding_invalid''
      else and_then (run_snapshot_of db r co inbound durable) (\<lambda>s.
        and_then (if durable = None
            then and_then (validated_requests ops r inbound p) (\<lambda>fq.
                   if ry_endpoint_ok ops p then Inr (s\<lparr>rn_request := Some fq\<rparr>) else Inl ''recovery_snapshot_invalid'')
            else Inr s) (\<lambda>snapshot.
          (case co of None \<Rightarrow> Inl ''conversation_missing'' | Some c \<Rightarrow> Inr (snapshot, p, durable, c))))))"

definition lease_seconds :: "recovery_settings \<Rightarrow> rat" where
  "lease_seconds st = min 3600 (max 60 (rs_read_timeout st * 2 + 30))"

definition claim_run ::
  "recovery_ops \<Rightarrow> recovery_settings \<Rightarrow> 'a agent_db_scheme \<Rightarrow> time \<Rightarrow> job_fence option \<Rightarrow> time \<Rightarrow> time \<Rightarrow> ident \<Rightarrow>
   job_fence option \<times> 'a agent_db_scheme claim_outcome" where
  "claim_run ops st db wall fence moment later rid =
    (case assert_current_job_lease db wall fence of
       (fence', Inl _) \<Rightarrow> (fence', CLeaseLost)
     | (fence', Inr _) \<Rightarrow> (fence',
        case lock_run db rid of
          (None, _) \<Rightarrow> CDecided (review ''application_run_missing'') db
        | (Some r, co) \<Rightarrow>
           if ar_status r \<in> {RRunning, RReconciling} \<and> moment < ar_expires_at r
           then CDecided \<lparr> dc_action = RAWait, dc_model = MPending, dc_delivery = DUnknown,
              dc_reason = ''active_run_not_expired'', dc_output = None, dc_observations = [] \<rparr> db
           else (case claim_checks ops st db r co of
              Inl reason \<Rightarrow> CDecided (review reason) (retire r co (review reason) later db)
            | Inr (snapshot, p, durable, c) \<Rightarrow>
                let expires = later + float_seconds (lease_seconds st) in
                CClaimed \<lparr> cl_run_id = rid, cl_epoch = ar_reconcile_epoch r + 1, cl_expires_at = expires,
                    cl_active_run = cv_active_run c, cl_requests = ar_snapshots r, cl_snapshot = snapshot,
                    cl_profile_id = hp_id p, cl_has_endpoint = (durable = None),
                    cl_model_failed = (case durable of None \<Rightarrow> False | Some d \<Rightarrow> durable_model_failed db d (ar_status r)) \<rparr>
                  (set_run rid (\<lambda>x. x\<lparr>ar_reconcile_epoch := ar_reconcile_epoch r + 1, ar_status := RReconciling,
                     ar_expires_at := expires\<rparr>) db))))"

section \<open>Apply\<close>

definition claim_holds :: "claim \<Rightarrow> agent_run \<Rightarrow> conversation \<Rightarrow> bool" where
  "claim_holds cl r c = (ar_reconcile_epoch r = cl_epoch cl \<and> ar_status r = RReconciling
     \<and> cv_active_run c = cl_active_run cl \<and> ar_provider_run_ids r = rn_provider_ids (cl_snapshot cl)
     \<and> ar_snapshots r = cl_requests cl)"

definition claim_expired :: "claim \<Rightarrow> agent_run \<Rightarrow> time \<Rightarrow> bool" where
  "claim_expired cl r moment = (cl_expires_at cl \<le> moment \<or> ar_expires_at r \<le> moment)"

definition recovered_row ::
  "recovered_output \<Rightarrow> time \<Rightarrow> ident \<Rightarrow> agent_run \<Rightarrow> agent_message \<Rightarrow> hermes_profile \<Rightarrow> agent_message" where
  "recovered_row out now i r inbound p =
    \<lparr> am_id = i, am_tenant_id = ar_tenant_id r, am_user_id = Some (ar_user_id r), am_profile_id = Some (hp_id p),
      am_conversation_id = ar_conversation_id r, am_channel = am_channel inbound, am_direction = Outbound,
      am_content = ro_content out, am_initiating = Some (am_id inbound),
      am_metadata = [(''event_kind'', PStr ''reply''), (''execution_run_id'', PStr (ar_id r)), (''recovered'', PBool True),
         (''model_outcome'', PStr ''completed''), (''provider_run_id'', PStr (ro_provider_id out)),
         (''input_tokens'', PInt (ro_input out)), (''output_tokens'', PInt (ro_output out)), (''total_tokens'', PInt (ro_total out))]
         @ (if dict_get (am_metadata inbound) ''type'' = PStr ''voice_call''
            then [(''type'', PStr ''voice_call''), (''voice_playback_state'', PStr ''generated'')] else []),
      am_scope = am_scope inbound, am_external_id = None, am_created_at = now \<rparr>"

definition persist_output ::
  "recovered_output \<Rightarrow> time \<Rightarrow> ident \<Rightarrow> agent_run \<Rightarrow> agent_message \<Rightarrow> hermes_profile \<Rightarrow> 'a agent_db_scheme \<Rightarrow> 'a agent_db_scheme" where
  "persist_output out now i r inbound p db =
    (let db1 = db\<lparr>ag_messages := ag_messages db @ [recovered_row out now i r inbound p]\<rparr>;
         db2 = set_run (ar_id r) (\<lambda>x. x\<lparr>ar_output_message_id := Some i\<rparr>) db1;
         db3 = set_media (\<lambda>m. gm_run_id m = Some (ar_id r) \<and> gm_message_id m = Some (am_id inbound)
                 \<and> gm_tenant_id m = ar_tenant_id r \<and> gm_user_id m = ar_user_id r
                 \<and> gm_conversation_id m = ar_conversation_id r \<and> gm_channel m = am_channel inbound
                 \<and> gm_status m = GPending) (\<lambda>m. m\<lparr>gm_message_id := Some i\<rparr>) db2;
         db4 = record_usage \<lparr> uv_tenant_id = Some (ar_tenant_id r), uv_user_id = Some (ar_user_id r),
                 uv_name = ''chat.response'', uv_units = Some (ro_total out),
                 uv_metadata = PDict [(''provider'', PStr ''hermes''), (''execution_run_id'', PStr (ar_id r)),
                   (''recovered'', PBool True), (''input_tokens'', PInt (ro_input out)),
                   (''output_tokens'', PInt (ro_output out)), (''total_tokens'', PInt (ro_total out))] \<rparr> db3
     in set_conversation (ar_conversation_id r) (\<lambda>c. c\<lparr>cv_updated_at := now\<rparr>) db4)"

definition link_output :: "durable_output \<Rightarrow> decision \<Rightarrow> agent_run \<Rightarrow> 'a agent_db_scheme \<Rightarrow> 'a agent_db_scheme" where
  "link_output out d r db =
    set_message (do_message_id out)
      (\<lambda>m. m\<lparr>am_metadata := dict_set (am_metadata m) ''model_outcome'' (PStr (model_value (dc_model d)))\<rparr>)
      (set_run (ar_id r) (\<lambda>x. x\<lparr>ar_output_message_id := Some (do_message_id out)\<rparr>) db)"

text \<open>What the decision becomes under the second lock, and the writes before the run is retired.\<close>

definition apply_decision ::
  "recovery_ops \<Rightarrow> recovery_settings \<Rightarrow> 'a agent_db_scheme \<Rightarrow> time \<Rightarrow> ident \<Rightarrow> claim \<Rightarrow> decision \<Rightarrow> agent_run \<Rightarrow>
   conversation \<Rightarrow> string + decision \<times> 'a agent_db_scheme" where
  "apply_decision ops st db applied_at i cl d r c =
    and_then (authorized_context ops st db r (Some c)) (\<lambda>(inbound, p).
      if hp_id p \<noteq> cl_profile_id cl then Inl ''provider_profile_changed''
      else and_then (durable_of db r inbound p) (\<lambda>durable.
        and_then (if rn_durable (cl_snapshot cl) = None
                  then and_then (validated_requests ops r inbound p) (\<lambda>_. Inr ()) else Inr ()) (\<lambda>_.
        and_then (run_snapshot_of db r (Some c) inbound durable) (\<lambda>current.
          (case durable of
             Some out \<Rightarrow>
               let d1 = reconcile_run (to_json ops) (\<lambda>_. Inl ()) applied_at current;
                   d2 = (if cl_model_failed cl \<or> durable_model_failed db out (ar_status r) then d1\<lparr>dc_model := MFailed\<rparr> else d1)
               in Inr (d2, link_output out d2 r db)
           | None \<Rightarrow>
               (case (dc_action d, dc_output d) of
                  (RAPersistOutput, Some out) \<Rightarrow>
                    Inr (d\<lparr>dc_delivery := delivery_of current\<rparr>, persist_output out applied_at i r inbound p db)
                | _ \<Rightarrow> if present (ar_output_message_id r) then Inl ''durable_output_binding_invalid'' else Inr (d, db)))))))"

definition apply_run ::
  "recovery_ops \<Rightarrow> recovery_settings \<Rightarrow> 'a agent_db_scheme \<Rightarrow> time \<Rightarrow> job_fence option \<Rightarrow> time \<Rightarrow> time \<Rightarrow> ident \<Rightarrow> claim \<Rightarrow>
   decision \<Rightarrow> job_fence option \<times> 'a agent_db_scheme claim_outcome" where
  "apply_run ops st db wall fence applied_at retired_at i cl d =
    (case assert_current_job_lease db wall fence of
       (fence', Inl _) \<Rightarrow> (fence', CLeaseLost)
     | (fence', Inr _) \<Rightarrow> (fence',
        case lock_run db (cl_run_id cl) of
          (Some r, Some c) \<Rightarrow>
           if \<not> claim_holds cl r c then CDecided (review ''reconciliation_claim_lost'') db
           else if claim_expired cl r applied_at then CDecided (review ''reconciliation_claim_expired'') db
           else (case apply_decision ops st db applied_at i cl d r c of
              Inl reason \<Rightarrow>
                if claim_expired cl r retired_at then CDecided (review ''reconciliation_claim_expired'') db
                else CDecided (review reason) (retire r (Some c) (review reason) retired_at db)
            | Inr (d', db') \<Rightarrow>
                if claim_expired cl r retired_at then CDecided (review ''reconciliation_claim_expired'') db
                else CDecided d' (retire r (Some c) d' retired_at db'))
        | _ \<Rightarrow> CDecided (review ''reconciliation_claim_lost'') db))"

section \<open>Recovering runs\<close>

text \<open>The clock readings of one recovery: its start, the claim, the application, the end, and the wall clock of
  the two lease checks.\<close>

record recovery_clock =
  rk_moment :: time
  rk_claimed :: time
  rk_applied :: time
  rk_retired :: time
  rk_wall1 :: time
  rk_wall2 :: time

text \<open>\<open>Inl\<close> the lost lease; otherwise the decision and the committed state. \<open>between\<close> is what other transactions
  did while the provider was polled.\<close>

definition reconcile_application_run ::
  "recovery_ops \<Rightarrow> recovery_settings \<Rightarrow> (string \<Rightarrow> unit + pyval) \<Rightarrow> ('a agent_db_scheme \<Rightarrow> 'a agent_db_scheme) \<Rightarrow>
   recovery_clock \<Rightarrow> job_fence option \<Rightarrow> ident \<Rightarrow> ident \<Rightarrow> 'a agent_db_scheme \<Rightarrow>
   job_fence option \<times> (decision option \<times> 'a agent_db_scheme)" where
  "reconcile_application_run ops st poll between k fence i rid db =
    (case claim_run ops st db (rk_wall1 k) fence (rk_moment k) (rk_claimed k) rid of
       (f1, CLeaseLost) \<Rightarrow> (f1, None, db)
     | (f1, CDecided d db1) \<Rightarrow> (f1, Some d, db1)
     | (f1, CClaimed cl db1) \<Rightarrow>
        let asked = (\<lambda>j. if cl_has_endpoint cl then poll j else Inl ());
            d = reconcile_run (to_json ops) asked (rk_moment k) (cl_snapshot cl); db2 = between db1 in
        (case apply_run ops st db2 (rk_wall2 k) f1 (rk_applied k) (rk_retired k) i cl d of
           (f2, CLeaseLost) \<Rightarrow> (f2, None, db2)
         | (f2, CDecided d' db3) \<Rightarrow> (f2, Some d', db3)
         | (f2, CClaimed _ db3) \<Rightarrow> (f2, None, db3)))"

definition expired_run_ids :: "time \<Rightarrow> nat \<Rightarrow> 'a agent_db_scheme \<Rightarrow> ident list" where
  "expired_run_ids moment limit db = map ar_id (take limit (query_by (\<lambda>r. (ar_expires_at r, ar_id r))
     (\<lambda>r. ar_status r \<in> {RRunning, RExpired, RReconciling} \<and> ar_expires_at r \<le> moment) (ag_runs db)))"

text \<open>The batch; \<open>jobs\<close> gives each selected run its clock readings and fresh identifier. A lost lease ends it.\<close>

fun reconcile_ids ::
  "recovery_ops \<Rightarrow> recovery_settings \<Rightarrow> (string \<Rightarrow> unit + pyval) \<Rightarrow> (ident \<Rightarrow> recovery_clock \<times> ident) \<Rightarrow> job_fence option \<Rightarrow>
   ident list \<Rightarrow> 'a agent_db_scheme \<Rightarrow> decision list \<times> bool \<times> 'a agent_db_scheme" where
  "reconcile_ids ops st poll jobs fence [] db = ([], True, db)"
| "reconcile_ids ops st poll jobs fence (i # is) db =
    (case reconcile_application_run ops st poll id (fst (jobs i)) fence (snd (jobs i)) i db of
       (fence', None, db') \<Rightarrow> ([], False, db')
     | (fence', Some d, db') \<Rightarrow>
        (case reconcile_ids ops st poll jobs fence' is db' of (ds, ok, db'') \<Rightarrow> (d # ds, ok, db'')))"

definition reconcile_expired_runs ::
  "recovery_ops \<Rightarrow> recovery_settings \<Rightarrow> (string \<Rightarrow> unit + pyval) \<Rightarrow> (ident \<Rightarrow> recovery_clock \<times> ident) \<Rightarrow> job_fence option \<Rightarrow>
   time \<Rightarrow> int \<Rightarrow> 'a agent_db_scheme \<Rightarrow> string + decision list \<times> bool \<times> 'a agent_db_scheme" where
  "reconcile_expired_runs ops st poll jobs fence moment limit db =
    (if \<not> (1 \<le> limit \<and> limit \<le> 100) then Inl ''Run recovery batch limit must be between one and one hundred''
     else Inr (reconcile_ids ops st poll jobs fence (expired_run_ids moment (nat limit) db) db))"

end
