(* ===== verification/TurnSafety.thy ===== *)
theory TurnSafety
  imports RunRecovery
begin

text \<open>
  What holds over every interleaving of live turns, control replies, cancellations and recoveries.
  A step is one committed transaction. The recovery's second transaction is allowed with any claim
  and any decision, so nothing rests on who computed them or on how long ago.
\<close>

section \<open>Steps\<close>

text \<open>What the writes of a turn may do to messages: \<open>reply_to\<close> is the input a message is the accepted reply of.\<close>

definition reply_to :: "agent_message \<Rightarrow> ident option" where
  "reply_to m = (if am_direction m = Outbound \<and> dict_get (am_metadata m) ''event_kind'' = PStr ''reply''
     then am_initiating m else None)"

definition msg_view :: "'a agent_db_scheme \<Rightarrow> (ident \<times> (ident \<times> ident option) \<times> ident option) list" where
  "msg_view db = map (\<lambda>m. (am_id m, (am_tenant_id m, am_user_id m), reply_to m)) (ag_messages db)"

definition run_view :: "'a agent_db_scheme \<Rightarrow> (ident \<times> (ident \<times> ident option) \<times> ident) list" where
  "run_view db = map (\<lambda>r. (ar_id r, (ar_tenant_id r, Some (ar_user_id r)), ar_initiating_message_id r)) (ag_runs db)"

definition fresh_message :: "ident \<Rightarrow> 'a agent_db_scheme \<Rightarrow> bool" where
  "fresh_message i db = (i \<notin> am_id ` set (ag_messages db))"

inductive turn_step :: "agent_db \<Rightarrow> agent_db \<Rightarrow> bool" where
  t_begin: "snd (begin_run db now f rid conv m timeout) = Inr (r, db') \<Longrightarrow> get_run db rid = None \<Longrightarrow>
     m \<in> set (ag_messages db) \<Longrightarrow> am_tenant_id m = cv_tenant_id conv \<Longrightarrow> am_user_id m = Some (cv_user_id conv) \<Longrightarrow>
     turn_step db db'"
| t_request: "snd (record_provider_request ops db now f r v) = Inr db' \<Longrightarrow> turn_step db db'"
| t_admission: "snd (record_provider_admission db now f r p) = Inr db' \<Longrightarrow> turn_step db db'"
| t_accept: "snd (accept_reply db now f r tenant user profile cid inbound channel a) = Inr db' \<Longrightarrow>
     fresh_message (ta_id a) db \<Longrightarrow> turn_step db db'"
| t_fail: "turn_step db (fail_turn db now r cid)"
| t_cancel: "turn_step db (cancel_conversation cid db)"
| t_claim: "snd (claim_run ops st db wall f moment later rid) \<in> {CClaimed cl db', CDecided d db'} \<Longrightarrow> turn_step db db'"
| t_apply: "snd (apply_run ops st db wall f applied retired i cl d) = CDecided d' db' \<Longrightarrow> fresh_message i db \<Longrightarrow>
     turn_step db db'"
| t_control: "fresh_message i db \<Longrightarrow> fresh_message j db \<Longrightarrow> i \<noteq> j \<Longrightarrow>
     turn_step db (snd (record_control_reply sha lane now (cid, i, j) q db))"
| t_message: "reply_to m = None \<Longrightarrow> fresh_message (am_id m) db \<Longrightarrow>
     turn_step db (db\<lparr>ag_messages := ag_messages db @ [m]\<rparr>)"
| t_other: "ag_runs db' = ag_runs db \<Longrightarrow> msg_view db' = msg_view db \<Longrightarrow> turn_step db db'"

text \<open>\<open>t_other\<close> is any other service: it may change every other table, conversations included, and what a message
  holds besides its owner and the input it replies to.\<close>

definition turn_init :: "agent_db \<Rightarrow> bool" where
  "turn_init db = (ag_runs db = [] \<and> ag_messages db = [])"

section \<open>Frames\<close>

lemma view_frames [row_simps]:
  "msg_view (set_run i f db) = msg_view db"
  "msg_view (set_conversation i g db) = msg_view db"
  "msg_view (set_media p h db) = msg_view db"
  "msg_view (add_event e db) = msg_view db"
  "msg_view (record_usage u db) = msg_view db"
  "run_view (set_conversation i g db) = run_view db"
  "run_view (set_message j k db) = run_view db"
  "run_view (set_media p h db) = run_view db"
  "run_view (add_event e db) = run_view db"
  "run_view (record_usage u db) = run_view db"
  by (simp_all add: msg_view_def run_view_def row_simps record_usage_def)

lemma ag_runs_usage [row_simps]:
  "ag_runs (record_usage u db) = ag_runs db" "ag_conversations (record_usage u db) = ag_conversations db"
  "ag_messages (record_usage u db) = ag_messages db"
  by (simp_all add: record_usage_def)

lemma run_view_set:
  assumes "\<And>r. ar_id (f r) = ar_id r" "\<And>r. ar_tenant_id (f r) = ar_tenant_id r"
    "\<And>r. ar_user_id (f r) = ar_user_id r" "\<And>r. ar_initiating_message_id (f r) = ar_initiating_message_id r"
  shows "run_view (set_run i f db) = run_view db"
  using assms by (simp add: run_view_def row_simps tbl_upd_def)

lemma clear_pointer_frame [row_simps]:
  "ag_runs (clear_pointer r db) = ag_runs db" "ag_messages (clear_pointer r db) = ag_messages db"
  "msg_view (clear_pointer r db) = msg_view db" "run_view (clear_pointer r db) = run_view db"
  by (simp_all add: clear_pointer_def msg_view_def run_view_def)

lemma fail_media_frame [row_simps]:
  "ag_runs (fail_media i db) = ag_runs db" "ag_messages (fail_media i db) = ag_messages db"
  "msg_view (fail_media i db) = msg_view db" "run_view (fail_media i db) = run_view db"
  by (simp_all add: fail_media_def row_simps)

lemma finish_run_frame [row_simps]:
  "msg_view (finish_run r st db) = msg_view db" "run_view (finish_run r st db) = run_view db"
  "ag_messages (finish_run r st db) = ag_messages db"
  "ag_runs (finish_run r st db) = tbl_upd ar_id (ar_id r) (\<lambda>x. x\<lparr>ar_status := st\<rparr>) (ag_runs db)"
  by (simp_all add: finish_run_def Let_def row_simps run_view_set)

lemma adopt_media_frame [row_simps]:
  "ag_runs (adopt_media ch r i db) = ag_runs db" "msg_view (adopt_media ch r i db) = msg_view db"
  "run_view (adopt_media ch r i db) = run_view db" "ag_messages (adopt_media ch r i db) = ag_messages db"
  by (simp_all add: adopt_media_def row_simps)

text \<open>A run only moves forward: its row stays, it never becomes running again, its recovery epoch never falls.\<close>

definition run_forward :: "agent_run \<Rightarrow> agent_run \<Rightarrow> bool" where
  "run_forward r r' = ((ar_status r \<noteq> RRunning \<longrightarrow> ar_status r' \<noteq> RRunning) \<and> ar_reconcile_epoch r \<le> ar_reconcile_epoch r')"

definition runs_forward :: "'a agent_db_scheme \<Rightarrow> 'a agent_db_scheme \<Rightarrow> bool" where
  "runs_forward db db' = (\<forall>i r. get_run db i = Some r \<longrightarrow> (\<exists>r'. get_run db' i = Some r' \<and> run_forward r r'))"

lemma run_forward_refl [simp]: "run_forward r r"
  by (simp add: run_forward_def)

lemma run_forward_trans: "run_forward a b \<Longrightarrow> run_forward b c \<Longrightarrow> run_forward a c"
  by (auto simp: run_forward_def)

lemma runs_forward_same: "ag_runs db' = ag_runs db \<Longrightarrow> runs_forward db db'"
  by (simp add: runs_forward_def)

lemma runs_forward_trans: "runs_forward a b \<Longrightarrow> runs_forward b c \<Longrightarrow> runs_forward a c"
  unfolding runs_forward_def by (meson run_forward_trans)

lemma runs_forward_upd:
  assumes "ag_runs db' = tbl_upd ar_id i f (ag_runs db)" "\<And>r. ar_id (f r) = ar_id r"
    and "\<And>r. get_run db i = Some r \<Longrightarrow> run_forward r (f r)"
  shows "runs_forward db db'"
  unfolding runs_forward_def assms(1) using assms(2,3) by (auto simp: tbl_find_upd[of ar_id f, OF assms(2)])

lemma runs_forward_set:
  assumes "\<And>r. ar_id (f r) = ar_id r" "\<And>r. get_run db i = Some r \<Longrightarrow> run_forward r (f r)"
  shows "runs_forward db (set_run i f db)"
  by (rule runs_forward_upd[of _ i f]) (simp_all add: row_simps assms)

lemma runs_forward_append: "ag_runs db' = ag_runs db @ rs \<Longrightarrow> runs_forward db db'"
  by (simp add: runs_forward_def tbl_find_append)

lemma finish_forward: "st \<noteq> RRunning \<Longrightarrow> runs_forward db (finish_run r st db)"
  by (rule runs_forward_upd[of _ "ar_id r" "\<lambda>x. x\<lparr>ar_status := st\<rparr>"]) (simp_all add: row_simps run_forward_def)

lemma retire_forward: "runs_forward db (retire r co d moment db)"
  by (rule runs_forward_upd[of _ "ar_id r" "\<lambda>x. x\<lparr>ar_status := retired_status d,
       ar_expires_at := (if dc_action d = RAPollLater then moment + seconds 30 else moment)\<rparr>"])
    (simp_all add: retire_def Let_def row_simps run_forward_def retired_status_def)

lemma retire_views [row_simps]:
  "msg_view (retire r co d moment db) = msg_view db" "run_view (retire r co d moment db) = run_view db"
  by (simp_all add: retire_def Let_def row_simps run_view_set)

section \<open>What each step does to runs and messages\<close>

lemma require_same_run_ok:
  assumes "require_same_run db now f r = (f', Inr run)"
  shows "get_run db (ar_id run) = Some run" "ar_id run = ar_id r"
proof -
  obtain c where c: "get_conversation db (ar_conversation_id r) = Some c"
    using assms by (cases "get_conversation db (ar_conversation_id r)") (simp_all add: require_same_run_def)
  note ok = require_active_run_ok[OF assms[unfolded require_same_run_def c, simplified]]
  show "get_run db (ar_id run) = Some run" using ok by blast
  show "ar_id run = ar_id r" using ok by (metis pyval.inject(4))
qed

lemma request_effect:
  assumes "snd (record_provider_request ops db now f r v) = Inr db'"
  shows "msg_view db' = msg_view db \<and> run_view db' = run_view db \<and> runs_forward db db'"
proof -
  obtain f' res where q: "require_same_run db now f r = (f', res)" by fastforce
  obtain run where res: "res = Inr run" using assms by (cases res) (simp_all add: record_provider_request_def q)
  obtain fq xs where x: "freeze_request (to_json ops) v = Some fq" "retained_requests ops run = Some xs"
    using assms by (cases "freeze_request (to_json ops) v"; cases "retained_requests ops run")
      (simp_all add: record_provider_request_def q res)
  have db': "db' = set_run (ar_id run)
      (\<lambda>x. x\<lparr>ar_snapshots := Some (to_seal ops (to_dump ops (PList (xs @ [retained_record fq]))))\<rparr>) db"
    using assms by (simp add: record_provider_request_def q res x)
  have "runs_forward db db'"
    unfolding db' by (rule runs_forward_set) (simp_all add: run_forward_def)
  then show ?thesis by (simp add: db' row_simps run_view_set)
qed

lemma admission_effect:
  assumes "snd (record_provider_admission db now f r p) = Inr db'"
  shows "msg_view db' = msg_view db \<and> run_view db' = run_view db \<and> runs_forward db db'"
proof -
  obtain f' res where q: "require_same_run db now f r = (f', res)" by fastforce
  obtain run where res: "res = Inr run" using assms by (cases res) (simp_all add: record_provider_admission_def q)
  have db': "db' = set_run (ar_id run) (\<lambda>x. x\<lparr>ar_provider_run_ids := ar_provider_run_ids run @ [p]\<rparr>) db"
    using assms by (simp add: record_provider_admission_def q res)
  have "runs_forward db db'"
    unfolding db' by (rule runs_forward_set) (simp_all add: run_forward_def)
  then show ?thesis by (simp add: db' row_simps run_view_set)
qed

lemma begin_effect:
  assumes "snd (begin_run db now f rid conv m timeout) = Inr (r, db')"
  shows "msg_view db' = msg_view db \<and> runs_forward db db'
    \<and> run_view db' = run_view db @ [(rid, (cv_tenant_id conv, Some (cv_user_id conv)), am_id m)]"
proof -
  obtain f' res where q: "assert_current_job_lease db now f = (f', res)" by fastforce
  have "\<exists>u. res = Inr u"
  proof (cases res)
    case (Inl e)
    then show ?thesis using assms by (simp add: begin_run_def q)
  qed simp
  then obtain u where res: "res = Inr u" ..
  have v: "ag_runs db' = ag_runs db @ [r]" "ag_messages db' = ag_messages db" "ar_id r = rid"
    "ar_tenant_id r = cv_tenant_id conv" "ar_user_id r = cv_user_id conv" "ar_initiating_message_id r = am_id m"
    using assms unfolding begin_run_def q res by (simp_all add: Let_def split: if_splits) auto
  show ?thesis using v runs_forward_append[OF v(1)] by (simp add: msg_view_def run_view_def)
qed

lemma reply_row_view [simp]:
  "reply_to (reply_row a now tenant user profile channel r) = Some (ar_initiating_message_id r)"
  by (simp add: reply_to_def reply_row_def dict_get_def)

lemma reply_row_fields [simp]:
  "am_id (reply_row a now tenant user profile channel r) = ta_id a"
  "am_tenant_id (reply_row a now tenant user profile channel r) = tenant"
  "am_user_id (reply_row a now tenant user profile channel r) = Some user"
  by (simp_all add: reply_row_def)

lemma accept_effect:
  assumes "snd (accept_reply db now f r tenant user profile cid inbound channel a) = Inr db'"
  shows "\<exists>run. get_run db (ar_id r) = Some run \<and> ar_id run = ar_id r \<and> ar_tenant_id run = tenant \<and> ar_user_id run = user
      \<and> ar_initiating_message_id run = inbound \<and> ar_status run = RRunning \<and> reply_for_input db tenant user inbound = None
      \<and> msg_view db' = msg_view db @ [(ta_id a, (tenant, Some user), Some inbound)]
      \<and> run_view db' = run_view db \<and> runs_forward db db'"
proof -
  obtain f' res where q: "require_active_run db now f (PStr (ar_id r)) tenant user cid (Some inbound) channel = (f', res)"
    by fastforce
  obtain run where res: "res = Inr run" using assms by (cases res) (simp_all add: accept_reply_def q)
  note ok = require_active_run_ok[OF q[unfolded res]]
  have run: "ar_id run = ar_id r" "get_run db (ar_id run) = Some run" "ar_tenant_id run = tenant" "ar_user_id run = user"
    "ar_initiating_message_id run = inbound" "ar_status run = RRunning"
    using ok by (auto simp: run_active_def)
  have free: "ar_output_message_id run \<in> {None, Some []}" "reply_for_input db tenant user inbound = None"
    using assms unfolding accept_reply_def q res by (auto split: if_splits)
  let ?st = "if ta_failed a then RFailed else RCompleted"
  let ?db1 = "db\<lparr>ag_messages := ag_messages db @ [reply_row a now tenant user profile channel run]\<rparr>"
  let ?db3 = "set_run (ar_id run) (\<lambda>x. x\<lparr>ar_output_message_id := Some (ta_id a)\<rparr>) (adopt_media channel run (ta_id a) ?db1)"
  have views: "msg_view db' = msg_view ?db1" "run_view db' = run_view ?db3" "ag_runs db' = ag_runs (finish_run run ?st ?db3)"
    using assms free unfolding accept_reply_def q res by (auto simp: Let_def row_simps)
  have b: "run_view ?db3 = run_view db" by (simp add: run_view_set row_simps) (simp add: run_view_def)
  have s1: "runs_forward db (adopt_media channel run (ta_id a) ?db1)"
    by (rule runs_forward_same) (simp add: row_simps)
  have s2: "runs_forward (adopt_media channel run (ta_id a) ?db1) ?db3"
    by (rule runs_forward_set) (simp_all add: run_forward_def)
  have "runs_forward db ?db3" by (rule runs_forward_trans[OF s1 s2])
  moreover have "runs_forward ?db3 db'"
    by (rule runs_forward_trans[OF finish_forward[of ?st ?db3 run] runs_forward_same[OF views(3)]]) simp
  ultimately have fw: "runs_forward db db'" by (rule runs_forward_trans)
  show ?thesis
    using run free(2) views(1,2) b fw by (auto simp: msg_view_def)
qed

lemma fail_effect:
  "msg_view (fail_turn db now r cid) = msg_view db \<and> run_view (fail_turn db now r cid) = run_view db
    \<and> runs_forward db (fail_turn db now r cid)"
proof -
  have a: "runs_forward db (set_run i (\<lambda>x. x\<lparr>ar_status := RExpired, ar_expires_at := now\<rparr>) db)" for i
    by (rule runs_forward_set) (simp_all add: run_forward_def)
  show ?thesis
    by (auto simp: fail_turn_def row_simps run_view_set a finish_forward runs_forward_same split: option.split)
qed

lemma cancel_effect:
  "msg_view (cancel_conversation cid db) = msg_view db \<and> run_view (cancel_conversation cid db) = run_view db
    \<and> runs_forward db (cancel_conversation cid db)"
proof (cases "get_conversation db cid")
  case None
  then show ?thesis by (simp add: cancel_conversation_def runs_forward_same)
next
  case (Some c)
  define db1 where "db1 = (case cv_active_run c of
             None \<Rightarrow> db
           | Some i \<Rightarrow> if i = [] then db else (case get_run db i of None \<Rightarrow> db | Some r \<Rightarrow> finish_run r RFailed db))"
  have e: "ag_runs (cancel_conversation cid db) = ag_runs db1" "ag_messages (cancel_conversation cid db) = ag_messages db1"
    by (simp_all add: cancel_conversation_def Some db1_def Let_def row_simps)
  have "msg_view db1 = msg_view db \<and> run_view db1 = run_view db \<and> runs_forward db db1"
    by (auto simp: db1_def row_simps finish_forward runs_forward_same split: option.split)
  then show ?thesis using e runs_forward_trans[OF _ runs_forward_same[OF e(1)]]
    by (simp add: msg_view_def run_view_def)
qed

lemma claim_effect:
  assumes "snd (claim_run ops st db wall f moment later rid) \<in> {CClaimed cl db', CDecided d db'}"
  shows "msg_view db' = msg_view db \<and> run_view db' = run_view db \<and> runs_forward db db'"
proof -
  obtain f' res where q: "assert_current_job_lease db wall f = (f', res)" by fastforce
  have "\<exists>u. res = Inr u"
  proof (cases res)
    case (Inl e)
    then show ?thesis using assms by (simp add: claim_run_def q)
  qed simp
  then obtain u where res: "res = Inr u" ..
  note run = assms[unfolded claim_run_def q res, simplified]
  show ?thesis
  proof (cases "get_run db rid")
    case None
    then show ?thesis using run by (simp add: lock_run_def runs_forward_same)
  next
    case (Some r)
    obtain co where l: "lock_run db rid = (Some r, co)" by (simp add: lock_run_def Some)
    show ?thesis
    proof (cases "ar_status r \<in> {RRunning, RReconciling} \<and> moment < ar_expires_at r")
      case True
      then show ?thesis using run l by (auto simp: runs_forward_same)
    next
      case open_: False
      show ?thesis
      proof (cases "claim_checks ops st db r co")
        case (Inl reason)
        then have "db' = retire r co (review reason) later db" using run l open_ by auto
        then show ?thesis by (simp add: row_simps retire_forward)
      next
        case (Inr x)
        obtain snapshot p durable c where x: "x = (snapshot, p, durable, c)" by (metis prod_cases4)
        obtain e where db': "db' = set_run rid (\<lambda>x. x\<lparr>ar_reconcile_epoch := ar_reconcile_epoch r + 1,
            ar_status := RReconciling, ar_expires_at := e\<rparr>) db"
          using run l open_ Inr x by (auto simp: Let_def)
        have "runs_forward db db'"
          unfolding db' by (rule runs_forward_set) (simp_all add: run_forward_def Some)
        then show ?thesis by (simp add: db' row_simps run_view_set)
      qed
    qed
  qed
qed

lemma recovered_row_view [simp]:
  "reply_to (recovered_row out now i r inbound p) = Some (am_id inbound)"
  "am_id (recovered_row out now i r inbound p) = i"
  "am_tenant_id (recovered_row out now i r inbound p) = ar_tenant_id r"
  "am_user_id (recovered_row out now i r inbound p) = Some (ar_user_id r)"
  by (simp_all add: reply_to_def recovered_row_def dict_get_def)

lemma persist_effect:
  "msg_view (persist_output out now i r inbound p db)
     = msg_view db @ [(i, (ar_tenant_id r, Some (ar_user_id r)), Some (am_id inbound))]"
  "run_view (persist_output out now i r inbound p db) = run_view db"
  "runs_forward db (persist_output out now i r inbound p db)"
proof -
  let ?db1 = "db\<lparr>ag_messages := ag_messages db @ [recovered_row out now i r inbound p]\<rparr>"
  let ?f = "\<lambda>x. x\<lparr>ar_output_message_id := Some i\<rparr>"
  have v: "msg_view (persist_output out now i r inbound p db) = msg_view ?db1"
    "run_view (persist_output out now i r inbound p db) = run_view ?db1"
    "ag_runs (persist_output out now i r inbound p db) = tbl_upd ar_id (ar_id r) ?f (ag_runs db)"
    by (simp_all add: persist_output_def Let_def row_simps run_view_set)
  show "msg_view (persist_output out now i r inbound p db)
     = msg_view db @ [(i, (ar_tenant_id r, Some (ar_user_id r)), Some (am_id inbound))]"
    unfolding v(1) by (simp add: msg_view_def)
  show "run_view (persist_output out now i r inbound p db) = run_view db"
    unfolding v(2) by (simp add: run_view_def)
  show "runs_forward db (persist_output out now i r inbound p db)"
    by (rule runs_forward_upd[OF v(3)]) (simp_all add: run_forward_def)
qed

lemma link_effect:
  "msg_view (link_output out d r db) = msg_view db" "run_view (link_output out d r db) = run_view db"
  "runs_forward db (link_output out d r db)"
proof -
  show "msg_view (link_output out d r db) = msg_view db"
    by (auto simp: link_output_def msg_view_def row_simps tbl_upd_def reply_to_def dict_get_set)
  show "run_view (link_output out d r db) = run_view db"
    by (simp add: link_output_def row_simps run_view_set)
  have "ag_runs (link_output out d r db)
      = tbl_upd ar_id (ar_id r) (\<lambda>x. x\<lparr>ar_output_message_id := Some (do_message_id out)\<rparr>) (ag_runs db)"
    by (simp add: link_output_def row_simps)
  then show "runs_forward db (link_output out d r db)"
    by (rule runs_forward_upd) (simp_all add: run_forward_def)
qed

lemma context_inbound:
  assumes "authorized_context ops st db r co = Inr (inbound, p)"
  shows "get_message db (ar_initiating_message_id r) = Some inbound" "am_tenant_id inbound = ar_tenant_id r"
    "am_user_id inbound = Some (ar_user_id r)"
proof -
  obtain c where c: "co = Some c" using assms by (cases co) (simp_all add: authorized_context_def)
  obtain m where m: "get_message db (ar_initiating_message_id r) = Some m" "inbound_in_scope ops r c m" "inbound = m"
    using assms unfolding authorized_context_def c by (auto split: if_splits option.splits)
  show "get_message db (ar_initiating_message_id r) = Some inbound" "am_tenant_id inbound = ar_tenant_id r"
    "am_user_id inbound = Some (ar_user_id r)"
    using m by (simp_all add: inbound_in_scope_def)
qed

lemma durable_none:
  assumes "durable_of db r inbound p = Inr None" "m \<in> set (ag_messages db)" "am_direction m = Outbound"
  shows "am_initiating m \<noteq> Some (am_id inbound)"
proof -
  have "durable_rows db r inbound = []"
    using assms(1) by (auto simp: durable_of_def split: list.splits option.splits if_splits)
  then show ?thesis using assms(2,3) by (auto simp: durable_rows_def filter_empty_conv split: if_splits)
qed

lemma apply_decision_ok:
  assumes "apply_decision ops st db now i cl d r c = Inr (d', db')"
  shows "\<exists>inbound p. authorized_context ops st db r (Some c) = Inr (inbound, p) \<and> hp_id p = cl_profile_id cl
    \<and> ((\<exists>out. durable_of db r inbound p = Inr (Some out) \<and> (\<exists>e. db' = link_output out e r db))
       \<or> durable_of db r inbound p = Inr None \<and> db' = db
       \<or> durable_of db r inbound p = Inr None \<and> (\<exists>out. dc_action d = RAPersistOutput \<and> dc_output d = Some out
            \<and> db' = persist_output out now i r inbound p db))"
proof -
  obtain inbound p where ctx: "authorized_context ops st db r (Some c) = Inr (inbound, p)"
    using assms by (auto simp: apply_decision_def and_then_Inr)
  have pid: "hp_id p = cl_profile_id cl" using assms ctx by (auto simp: apply_decision_def split: if_splits)
  obtain durable where dur: "durable_of db r inbound p = Inr durable"
    using assms ctx pid by (auto simp: apply_decision_def and_then_Inr)
  show ?thesis
  proof (cases durable)
    case None
    have "db' = db \<or> (\<exists>out. dc_action d = RAPersistOutput \<and> dc_output d = Some out
        \<and> db' = persist_output out now i r inbound p db)"
      using assms None
      by (cases "dc_action d"; cases "dc_output d") (auto simp: apply_decision_def ctx pid dur and_then_Inr split: if_splits)
    with None ctx pid dur show ?thesis by blast
  next
    case (Some out)
    have "\<exists>e. db' = link_output out e r db"
      using assms Some by (simp add: apply_decision_def ctx pid dur and_then_Inr Let_def) blast
    with Some ctx pid dur show ?thesis by blast
  qed
qed

lemma apply_run_cases:
  assumes "snd (apply_run ops st db wall f applied retired i cl d) = CDecided d' db'"
  obtains (kept) "db' = db"
    | (refused) r c reason where "lock_run db (cl_run_id cl) = (Some r, Some c)" "claim_holds cl r c"
        "db' = retire r (Some c) (review reason) retired db"
    | (applied) r c db1 where "lock_run db (cl_run_id cl) = (Some r, Some c)" "claim_holds cl r c"
        "\<not> claim_expired cl r retired" "apply_decision ops st db applied i cl d r c = Inr (d', db1)"
        "db' = retire r (Some c) d' retired db1"
proof -
  obtain f' res where q: "assert_current_job_lease db wall f = (f', res)" by fastforce
  have "\<exists>u. res = Inr u"
  proof (cases res)
    case (Inl e)
    then show ?thesis using assms by (simp add: apply_run_def q)
  qed simp
  then obtain u where res: "res = Inr u" ..
  note run = assms[unfolded apply_run_def q res, simplified]
  obtain ro co where l: "lock_run db (cl_run_id cl) = (ro, co)" by fastforce
  consider "ro = None" | "co = None" | r c where "ro = Some r" "co = Some c" by (cases ro; cases co) auto
  then show thesis
  proof cases
    case 1
    then show ?thesis using run l kept by simp
  next
    case 2
    then show ?thesis using run l kept by (cases ro) simp_all
  next
    case 3
    note run = run[unfolded l 3, simplified]
    show ?thesis
    proof (cases "claim_holds cl r c \<and> \<not> claim_expired cl r applied \<and> \<not> claim_expired cl r retired")
      case False
      then show ?thesis using run kept by (auto split: if_splits sum.splits prod.splits)
    next
      case ok: True
      show ?thesis
      proof (cases "apply_decision ops st db applied i cl d r c")
        case (Inl reason)
        then have "db' = retire r (Some c) (review reason) retired db" using run ok by auto
        with ok l 3 show ?thesis by (intro refused[of r c reason]) simp_all
      next
        case (Inr x)
        obtain d1 db1 where x: "x = (d1, db1)" by fastforce
        then have "d1 = d'" "db' = retire r (Some c) d' retired db1" using run ok Inr by auto
        with ok l 3 Inr x show ?thesis by (intro applied[of r c db1]) simp_all
      qed
    qed
  qed
qed

lemma apply_effect:
  assumes "snd (apply_run ops st db wall f applied retired i cl d) = CDecided d' db'"
  shows "run_view db' = run_view db \<and> runs_forward db db'
    \<and> (msg_view db' = msg_view db \<or> (\<exists>m \<in> set (ag_messages db).
         msg_view db' = msg_view db @ [(i, (am_tenant_id m, am_user_id m), Some (am_id m))]
         \<and> (\<forall>x \<in> set (ag_messages db). am_direction x = Outbound \<longrightarrow> am_initiating x \<noteq> Some (am_id m))))"
  using assms
proof (cases rule: apply_run_cases)
  case kept
  then show ?thesis by (simp add: runs_forward_same)
next
  case (refused r c reason)
  then show ?thesis by (simp add: row_simps retire_forward)
next
  case (applied r c db1)
  obtain inbound p where ctx: "authorized_context ops st db r (Some c) = Inr (inbound, p)"
    and alt: "(\<exists>out e. db1 = link_output out e r db) \<or> db1 = db
      \<or> durable_of db r inbound p = Inr None \<and> (\<exists>out. db1 = persist_output out applied i r inbound p db)"
    using apply_decision_ok[OF applied(4)] by blast
  have fw: "runs_forward db1 db'" unfolding applied(5) by (rule retire_forward)
  have v: "msg_view db' = msg_view db1" "run_view db' = run_view db1" unfolding applied(5) by (simp_all add: row_simps)
  note inb = context_inbound[OF ctx]
  from alt consider (link) out e where "db1 = link_output out e r db" | (same) "db1 = db"
    | (persist) out where "durable_of db r inbound p = Inr None" "db1 = persist_output out applied i r inbound p db" by blast
  then show ?thesis
  proof cases
    case link
    then show ?thesis using v runs_forward_trans[OF _ fw] by (simp add: link_effect)
  next
    case same
    then show ?thesis using v fw by simp
  next
    case persist
    have "inbound \<in> set (ag_messages db)" using tbl_find_Some[OF inb(1)] by simp
    moreover have "msg_view db' = msg_view db @ [(i, (am_tenant_id inbound, am_user_id inbound), Some (am_id inbound))]"
      using v(1) persist inb by (simp add: persist_effect)
    moreover have "run_view db' = run_view db" using v(2) persist by (simp add: persist_effect)
    moreover have "runs_forward db db'"
      using runs_forward_trans[OF _ fw] persist by (simp add: persist_effect)
    ultimately show ?thesis using durable_none[OF persist(1)] by blast
  qed
qed

text \<open>A control reply appends a control message, after the input it answers where that is new too.\<close>

lemma control_row_view [simp]:
  "reply_to (control_row q now i tenant user cid inbound) = None" "am_id (control_row q now i tenant user cid inbound) = i"
  by (simp_all add: reply_to_def control_row_def dict_get_def)

lemma control_input_view [simp]:
  "reply_to (control_input q scope now i tenant user cid) = None" "am_id (control_input q scope now i tenant user cid) = i"
  by (simp_all add: reply_to_def control_input_def)

definition grows :: "ident \<Rightarrow> ident \<Rightarrow> 'a agent_db_scheme \<Rightarrow> 'a agent_db_scheme \<Rightarrow> bool" where
  "grows i j db db' = (ag_runs db' = ag_runs db \<and> (\<exists>new. ag_messages db' = ag_messages db @ new
    \<and> map am_id new \<in> {[], [j], [i, j]} \<and> (\<forall>m \<in> set new. reply_to m = None)))"

lemma growsI:
  "ag_runs db' = ag_runs db \<Longrightarrow> ag_messages db' = ag_messages db @ new \<Longrightarrow> map am_id new \<in> {[], [j], [i, j]} \<Longrightarrow>
   (\<forall>m \<in> set new. reply_to m = None) \<Longrightarrow> grows i j db db'"
  by (simp add: grows_def)

lemma grows_simps [simp]:
  "grows i j db db"
  "grows i j db (db\<lparr>ag_messages := ag_messages db @ [control_row q now j t u c k]\<rparr>)"
  "grows i j db (db\<lparr>ag_conversations := cs, ag_messages := ag_messages db @ [control_row q now j t u c k]\<rparr>)"
  "grows i j db (db\<lparr>ag_messages := ag_messages db @ [control_input q s now i t u c, control_row q now j t u c k]\<rparr>)"
  "grows i j db (db\<lparr>ag_conversations := cs,
     ag_messages := ag_messages db @ [control_input q s now i t u c, control_row q now j t u c k]\<rparr>)"
  by (rule growsI[of _ _ "[]"], simp_all)
    (rule growsI[of _ _ "[control_row q now j t u c k]"], simp_all,
     rule growsI[of _ _ "[control_row q now j t u c k]"], simp_all,
     rule growsI[of _ _ "[control_input q s now i t u c, control_row q now j t u c k]"], simp_all,
     rule growsI[of _ _ "[control_input q s now i t u c, control_row q now j t u c k]"], simp_all)

lemma control_effect: "grows i j db (snd (record_control_reply sha lane now (cid, i, j) q db))"
  by (simp add: record_control_reply_def Let_def split: option.split)

section \<open>The invariant\<close>

text \<open>Identifiers are unique, every run and every reply belong to the owner of the input they answer, and no input
  has two accepted replies.\<close>

definition views_ok ::
  "(ident \<times> (ident \<times> ident option) \<times> ident option) list \<Rightarrow> (ident \<times> (ident \<times> ident option) \<times> ident) list \<Rightarrow> bool" where
  "views_ok ms rs = (distinct (map fst ms)
     \<and> (\<forall>i w j. (i, w, j) \<in> set rs \<longrightarrow> (\<exists>x. (j, w, x) \<in> set ms))
     \<and> (\<forall>i w j. (i, w, Some j) \<in> set ms \<longrightarrow> (\<exists>x. (j, w, x) \<in> set ms))
     \<and> distinct (List.map_filter (snd \<circ> snd) ms))"

definition turn_inv :: "'a agent_db_scheme \<Rightarrow> bool" where
  "turn_inv db = views_ok (msg_view db) (run_view db)"

lemma map_filter_append: "List.map_filter f (xs @ ys) = List.map_filter f xs @ List.map_filter f ys"
  by (simp add: List.map_filter_def)

lemma set_map_filter: "set (List.map_filter f xs) = {y. \<exists>x \<in> set xs. f x = Some y}"
  by (force simp: List.map_filter_def)

lemma ok_run: "views_ok ms rs \<Longrightarrow> (j, w, x) \<in> set ms \<Longrightarrow> views_ok ms (rs @ [(i, w, j)])"
  by (auto simp: views_ok_def)

lemma ok_plain:
  "views_ok ms rs \<Longrightarrow> distinct (map fst (ms @ new)) \<Longrightarrow> (\<forall>x \<in> set new. snd (snd x) = None) \<Longrightarrow> views_ok (ms @ new) rs"
proof -
  assume ok: "views_ok ms rs" "distinct (map fst (ms @ new))" and none: "\<forall>x \<in> set new. snd (snd x) = None"
  have "List.map_filter (snd \<circ> snd) new = []" using none by (simp add: List.map_filter_def filter_empty_conv)
  then have "distinct (List.map_filter (snd \<circ> snd) (ms @ new))" using ok(1) by (simp add: views_ok_def map_filter_append)
  moreover have "(i, w, Some j) \<notin> set new" for i w j using none by force
  ultimately show "views_ok (ms @ new) rs" using ok unfolding views_ok_def set_append by blast
qed

lemma ok_reply:
  "views_ok ms rs \<Longrightarrow> i \<notin> fst ` set ms \<Longrightarrow> (j, w, x) \<in> set ms \<Longrightarrow> (\<forall>y \<in> set ms. snd (snd y) \<noteq> Some j) \<Longrightarrow>
   views_ok (ms @ [(i, w, Some j)]) rs"
proof -
  assume ok: "views_ok ms rs" "i \<notin> fst ` set ms" "(j, w, x) \<in> set ms" and none: "\<forall>y \<in> set ms. snd (snd y) \<noteq> Some j"
  have "j \<notin> set (List.map_filter (snd \<circ> snd) ms)" using none by (auto simp: set_map_filter)
  then have "distinct (List.map_filter (snd \<circ> snd) (ms @ [(i, w, Some j)]))"
    using ok(1) by (simp add: views_ok_def map_filter_append List.map_filter_simps)
  moreover have "distinct (map fst (ms @ [(i, w, Some j)]))" using ok(1,2) by (simp add: views_ok_def)
  moreover have "\<exists>z. (c, b, z) \<in> set (ms @ [(i, w, Some j)])" if "(a, b, c) \<in> set rs" for a b c
  proof -
    have "\<exists>z. (c, b, z) \<in> set ms" using ok(1) that unfolding views_ok_def by blast
    then show ?thesis by auto
  qed
  moreover have "\<exists>z. (c, b, z) \<in> set (ms @ [(i, w, Some j)])" if "(a, b, Some c) \<in> set (ms @ [(i, w, Some j)])" for a b c
  proof (cases "(a, b, Some c) \<in> set ms")
    case True
    then have "\<exists>z. (c, b, z) \<in> set ms" using ok(1) unfolding views_ok_def by blast
    then show ?thesis by auto
  next
    case False
    then show ?thesis using that ok(3) by auto
  qed
  ultimately show "views_ok (ms @ [(i, w, Some j)]) rs" unfolding views_ok_def by simp
qed

lemma fresh_view: "fresh_message i db \<Longrightarrow> i \<notin> fst ` set (msg_view db)"
  by (auto simp: fresh_message_def msg_view_def)

lemma in_msg_view: "m \<in> set (ag_messages db) \<Longrightarrow> (am_id m, (am_tenant_id m, am_user_id m), reply_to m) \<in> set (msg_view db)"
  by (force simp: msg_view_def)

lemma in_run_view:
  "r \<in> set (ag_runs db) \<Longrightarrow> (ar_id r, (ar_tenant_id r, Some (ar_user_id r)), ar_initiating_message_id r) \<in> set (run_view db)"
  by (force simp: run_view_def)

text \<open>The guard of the live turn looks for a reply of the same owner; the invariant makes that every reply.\<close>

lemma no_reply_of_owner:
  assumes "turn_inv db" "(j, (t, Some u), x) \<in> set (msg_view db)" "reply_for_input db t u j = None"
  shows "\<forall>y \<in> set (msg_view db). snd (snd y) \<noteq> Some j"
proof
  fix y assume y: "y \<in> set (msg_view db)"
  show "snd (snd y) \<noteq> Some j"
  proof
    assume r: "snd (snd y) = Some j"
    obtain m where m: "m \<in> set (ag_messages db)" "y = (am_id m, (am_tenant_id m, am_user_id m), reply_to m)"
      using y by (auto simp: msg_view_def)
    have "\<exists>z. (j, (am_tenant_id m, am_user_id m), z) \<in> set (msg_view db)"
      using assms(1) y[unfolded m(2)] r m(2) unfolding turn_inv_def views_ok_def by (metis snd_conv)
    moreover have "distinct (map fst (msg_view db))" using assms(1) by (simp add: turn_inv_def views_ok_def)
    ultimately have "(am_tenant_id m, am_user_id m) = (t, Some u)"
      using assms(2) by (metis eq_key_imp_eq_value prod.inject)
    moreover have "is_reply_to j m" using r m(2) by (auto simp: reply_to_def is_reply_to_def split: if_splits)
    ultimately show False using assms(3) m(1) by (auto simp: reply_for_input_def first_by_None)
  qed
qed

lemma step_inv:
  assumes "turn_step db db'" "turn_inv db"
  shows "turn_inv db'"
  using assms
proof (cases rule: turn_step.cases)
  case (t_begin now f rid conv m timeout r)
  have "(am_id m, (cv_tenant_id conv, Some (cv_user_id conv)), reply_to m) \<in> set (msg_view db)"
    using in_msg_view[OF t_begin(3)] t_begin(4,5) by simp
  then show ?thesis using assms(2) begin_effect[OF t_begin(1)] by (simp add: turn_inv_def ok_run)
next
  case (t_request ops now f r v)
  then show ?thesis using assms(2) request_effect by (metis turn_inv_def)
next
  case (t_admission now f r p)
  then show ?thesis using assms(2) admission_effect by (metis turn_inv_def)
next
  case (t_accept now f r tenant user profile cid inbound channel a)
  obtain run where run: "get_run db (ar_id r) = Some run" "ar_tenant_id run = tenant" "ar_user_id run = user"
    "ar_initiating_message_id run = inbound" "reply_for_input db tenant user inbound = None"
    and v: "msg_view db' = msg_view db @ [(ta_id a, (tenant, Some user), Some inbound)]" "run_view db' = run_view db"
    using accept_effect[OF t_accept(1)] by blast
  have "(ar_id run, (tenant, Some user), inbound) \<in> set (run_view db)"
    using in_run_view[of run db] tbl_find_Some[OF run(1)] run(2-4) by simp
  then obtain x where x: "(inbound, (tenant, Some user), x) \<in> set (msg_view db)"
    using assms(2) unfolding turn_inv_def views_ok_def by blast
  show ?thesis
    using assms(2) x no_reply_of_owner[OF assms(2) x run(5)] fresh_view[OF t_accept(2)]
    unfolding turn_inv_def v by (intro ok_reply)
next
  case (t_fail now r cid)
  then show ?thesis using assms(2) fail_effect by (metis turn_inv_def)
next
  case (t_cancel cid)
  then show ?thesis using assms(2) cancel_effect by (metis turn_inv_def)
next
  case (t_claim ops st wall f moment later rid cl d)
  then show ?thesis using assms(2) claim_effect by (metis turn_inv_def)
next
  case (t_apply ops st wall f applied retired i cl d d')
  note e = apply_effect[OF t_apply(1)]
  show ?thesis
  proof (cases "msg_view db' = msg_view db")
    case True
    then show ?thesis using assms(2) e by (simp add: turn_inv_def)
  next
    case False
    then obtain m where m: "m \<in> set (ag_messages db)"
      and v: "msg_view db' = msg_view db @ [(i, (am_tenant_id m, am_user_id m), Some (am_id m))]" "run_view db' = run_view db"
      and free: "\<forall>x \<in> set (ag_messages db). am_direction x = Outbound \<longrightarrow> am_initiating x \<noteq> Some (am_id m)"
      using e by blast
    have "\<forall>y \<in> set (msg_view db). snd (snd y) \<noteq> Some (am_id m)"
      using free by (auto simp: msg_view_def reply_to_def)
    then show ?thesis
      using assms(2) in_msg_view[OF m] fresh_view[OF t_apply(2)] unfolding turn_inv_def v by (intro ok_reply)
  qed
next
  case (t_control i j sha lane now cid q)
  obtain new where new: "ag_messages db' = ag_messages db @ new" "map am_id new \<in> {[], [j], [i, j]}"
    "\<forall>m \<in> set new. reply_to m = None" and runs: "ag_runs db' = ag_runs db"
    using control_effect[of i j db sha lane now cid q] unfolding t_control(1)[symmetric] grows_def by metis
  let ?new = "map (\<lambda>m. (am_id m, (am_tenant_id m, am_user_id m), reply_to m)) new"
  have ids: "map fst ?new = map am_id new" by simp
  have "set (map am_id new) \<subseteq> {i, j}" "distinct (map am_id new)" using new(2) t_control(4) by auto
  then have "distinct (map fst ?new)" "fst ` set (msg_view db) \<inter> set (map fst ?new) = {}"
    using fresh_view[OF t_control(2)] fresh_view[OF t_control(3)] unfolding ids by blast+
  then have "distinct (map fst (msg_view db @ ?new))"
    using assms(2) unfolding turn_inv_def views_ok_def map_append distinct_append set_map by blast
  moreover have "msg_view db' = msg_view db @ ?new" "run_view db' = run_view db"
    using new(1) runs by (simp_all add: msg_view_def run_view_def)
  moreover have "\<forall>x \<in> set ?new. snd (snd x) = None" using new(3) by simp
  ultimately show ?thesis using assms(2) ok_plain[of "msg_view db" "run_view db" ?new] by (simp add: turn_inv_def)
next
  case (t_message m)
  have v: "msg_view db' = msg_view db @ [(am_id m, (am_tenant_id m, am_user_id m), None)]" "run_view db' = run_view db"
    using t_message(1,2) by (simp_all add: msg_view_def run_view_def)
  show ?thesis
    using assms(2) fresh_view[OF t_message(3)] unfolding turn_inv_def v
    by (intro ok_plain) (auto simp: views_ok_def)
next
  case t_other
  then show ?thesis using assms(2) by (simp add: turn_inv_def run_view_def)
qed

lemma step_forward:
  assumes "turn_step db db'"
  shows "runs_forward db db'"
  using assms
proof (cases rule: turn_step.cases)
  case t_begin
  then show ?thesis using begin_effect by blast
next
  case t_request
  then show ?thesis using request_effect by blast
next
  case t_admission
  then show ?thesis using admission_effect by blast
next
  case t_accept
  then show ?thesis using accept_effect by blast
next
  case t_claim
  then show ?thesis using claim_effect by blast
next
  case (t_apply ops st wall f applied retired i cl d d')
  then show ?thesis using apply_effect by blast
next
  case (t_control i j sha lane now cid q)
  then show ?thesis using control_effect[of i j db sha lane now cid q] by (simp add: grows_def runs_forward_same)
qed (simp_all add: fail_effect cancel_effect runs_forward_same)

end
