(* ===== verification/TurnClaims.thy ===== *)
theory TurnClaims
  imports TurnSafety
begin

text \<open>
  Properties of agent turns and their recovery: one accepted reply for each input, no effect in the name of a
  run that ended, no effect of a superseded recovery, and the origin of a recovered answer.
\<close>

interpretation turns: inv_system turn_init turn_step turn_inv
proof unfold_locales
  show "turn_inv db" if "turn_init db" for db
    using that by (simp add: turn_init_def turn_inv_def views_ok_def msg_view_def run_view_def List.map_filter_def)
  show "turn_inv db'" if "turn_inv db" "turn_step db db'" for db db'
    by (rule step_inv[OF that(2,1)])
qed

lemma steps_forward: "turn_step\<^sup>*\<^sup>* db db' \<Longrightarrow> runs_forward db db'"
  by (induction rule: rtranclp_induct) (auto intro: runs_forward_same runs_forward_trans step_forward)

lemma is_reply_to_iff: "is_reply_to i = (\<lambda>m. reply_to m = Some i)"
  by (auto simp: is_reply_to_def reply_to_def fun_eq_iff)

lemma filter_key_le_1: "distinct (List.map_filter f xs) \<Longrightarrow> length (filter (\<lambda>x. f x = Some i) xs) \<le> 1"
proof (induction xs)
  case (Cons x xs)
  show ?case
  proof (cases "f x = Some i")
    case True
    then have "i \<notin> set (List.map_filter f xs)" using Cons.prems by (simp add: List.map_filter_simps)
    then have "filter (\<lambda>x. f x = Some i) xs = []" by (auto simp: set_map_filter filter_empty_conv)
    with True show ?thesis by simp
  next
    case False
    then show ?thesis using Cons by (auto simp: List.map_filter_simps split: option.splits)
  qed
qed simp

text \<open>C1: an input gets at most one accepted reply. In every state reachable by any interleaving of live turns,
  failures, cancellations, control replies and recoveries, with any claims and decisions however stale,
  message identifiers are unique and no input has two messages that are its accepted reply.\<close>

theorem one_reply_per_input:
  assumes "reach turn_init turn_step db"
  shows "distinct (map am_id (ag_messages db)) \<and> length (filter (is_reply_to i) (ag_messages db)) \<le> 1"
proof -
  have inv: "turn_inv db" by (rule turns.reach_inv[OF assms])
  have "map fst (msg_view db) = map am_id (ag_messages db)" by (simp add: msg_view_def)
  moreover have "List.map_filter (snd \<circ> snd) (msg_view db) = List.map_filter reply_to (ag_messages db)"
    by (simp add: msg_view_def List.map_filter_def filter_map comp_def)
  ultimately have d: "distinct (map am_id (ag_messages db))" "distinct (List.map_filter reply_to (ag_messages db))"
    using inv by (simp_all add: turn_inv_def views_ok_def)
  show ?thesis using d(1) filter_key_le_1[OF d(2), of i] by (simp add: is_reply_to_iff)
qed

text \<open>C14: a run that ended is powerless for ever. Once a run is no longer running, then after any sequence of
  further transactions every check of its token is refused, and so is every provider request, admission and
  reply in its name, whatever actor, channel, job and clock they come with.\<close>

theorem ended_run_is_powerless:
  assumes "get_run db rid = Some r" "ar_status r \<noteq> RRunning" "turn_step\<^sup>*\<^sup>* db db'" "ar_id x = rid"
  shows "\<not> is_ok (snd (require_active_run db' now f (PStr rid) tenant user cid inbound channel))
    \<and> \<not> is_ok (snd (record_provider_request ops db' now f x v))
    \<and> \<not> is_ok (snd (record_provider_admission db' now f x provider))
    \<and> \<not> is_ok (snd (accept_reply db' now f x tenant user profile cid input channel a))"
proof -
  obtain r' where r': "get_run db' rid = Some r'" "ar_status r' \<noteq> RRunning"
    using steps_forward[OF assms(3)] assms(1,2) unfolding runs_forward_def run_forward_def by blast
  have no: "\<not> is_ok (snd (require_active_run db' now f (PStr rid) tenant user cid inbound channel))"
    for now f tenant user cid inbound channel
  proof
    assume "is_ok (snd (require_active_run db' now f (PStr rid) tenant user cid inbound channel))"
    then obtain f' y where "require_active_run db' now f (PStr rid) tenant user cid inbound channel = (f', Inr y)"
      by (cases "require_active_run db' now f (PStr rid) tenant user cid inbound channel") (auto simp: is_ok_def split: sum.splits)
    from require_active_run_ok[OF this] have "get_run db' rid = Some y" "ar_status y = RRunning"
      by (auto simp: run_active_def)
    with r' show False by simp
  qed
  have same: "\<not> is_ok (snd (require_same_run db' now f x))"
    using no by (simp add: require_same_run_def assms(4) split: option.split)
  show ?thesis
    using no[of now f tenant user cid inbound channel] no[of now f tenant user cid "Some input" channel] same
    by (auto simp: record_provider_request_def record_provider_admission_def accept_reply_def assms(4) is_ok_def
        split: prod.splits sum.splits)
qed

lemma claim_run_claimed:
  assumes "snd (claim_run ops st db wall f moment later rid) = CClaimed cl db'"
  shows "\<exists>r co snapshot p durable c. get_run db rid = Some r \<and> lock_run db rid = (Some r, co)
    \<and> claim_checks ops st db r co = Inr (snapshot, p, durable, c)
    \<and> cl_run_id cl = rid \<and> cl_epoch cl = ar_reconcile_epoch r + 1 \<and> cl_snapshot cl = snapshot
    \<and> cl_has_endpoint cl = (durable = None) \<and> cl_requests cl = ar_snapshots r
    \<and> get_run db' rid = Some (r\<lparr>ar_reconcile_epoch := ar_reconcile_epoch r + 1, ar_status := RReconciling,
         ar_expires_at := cl_expires_at cl\<rparr>) \<and> ag_messages db' = ag_messages db"
proof -
  obtain f' res where q: "assert_current_job_lease db wall f = (f', res)" by fastforce
  have "\<exists>u. res = Inr u"
  proof (cases res)
    case (Inl e)
    then show ?thesis using assms by (simp add: claim_run_def q)
  qed simp
  then obtain u where res: "res = Inr u" ..
  note run = assms[unfolded claim_run_def q res, simplified]
  obtain r where r: "get_run db rid = Some r" using run by (cases "get_run db rid") (simp_all add: lock_run_def)
  obtain co where l: "lock_run db rid = (Some r, co)" by (simp add: lock_run_def r)
  have open_: "\<not> (ar_status r \<in> {RRunning, RReconciling} \<and> moment < ar_expires_at r)" using run l by auto
  obtain x where x: "claim_checks ops st db r co = Inr x"
    using run l open_ by (cases "claim_checks ops st db r co") auto
  obtain snapshot p durable c where y: "x = (snapshot, p, durable, c)" by (metis prod_cases4)
  have "cl_run_id cl = rid \<and> cl_epoch cl = ar_reconcile_epoch r + 1 \<and> cl_snapshot cl = snapshot
    \<and> cl_has_endpoint cl = (durable = None) \<and> cl_requests cl = ar_snapshots r
    \<and> db' = set_run rid (\<lambda>x. x\<lparr>ar_reconcile_epoch := ar_reconcile_epoch r + 1, ar_status := RReconciling,
         ar_expires_at := cl_expires_at cl\<rparr>) db"
    using run l open_ x y by (auto simp: Let_def)
  then show ?thesis using r l x y by (auto simp: row_simps tbl_find_upd)
qed

text \<open>A superseded recovery changes nothing. When a second recovery claims the run after a first one did, then
  at any later time the first one's application ends with the run's lease lost or with the claim lost, and in
  either case the database is as it found it.\<close>

theorem superseded_recovery_is_powerless:
  assumes "snd (claim_run ops st db w1 f1 m1 l1 rid) = CClaimed cl1 db1" "turn_step\<^sup>*\<^sup>* db1 db2"
    and "snd (claim_run ops2 st2 db2 w2 f2 m2 l2 rid) = CClaimed cl2 db3" "turn_step\<^sup>*\<^sup>* db3 db4"
  shows "snd (apply_run ops st db4 w3 f3 applied retired i cl1 d)
    \<in> {CLeaseLost, CDecided (review ''reconciliation_claim_lost'') db4}"
proof -
  obtain r1 where r1: "get_run db1 rid = Some r1" "ar_reconcile_epoch r1 = cl_epoch cl1" and rid: "cl_run_id cl1 = rid"
    using claim_run_claimed[OF assms(1)] by auto
  obtain r2 where r2: "get_run db2 rid = Some r2" "cl_epoch cl1 \<le> ar_reconcile_epoch r2"
    using steps_forward[OF assms(2)] r1 unfolding runs_forward_def run_forward_def by fastforce
  obtain r3 where r3: "get_run db3 rid = Some r3" "ar_reconcile_epoch r3 = ar_reconcile_epoch r2 + 1"
    using claim_run_claimed[OF assms(3)] r2(1) by fastforce
  obtain r4 where r4: "get_run db4 rid = Some r4" "ar_reconcile_epoch r3 \<le> ar_reconcile_epoch r4"
    using steps_forward[OF assms(4)] r3(1) unfolding runs_forward_def run_forward_def by blast
  have stale: "\<not> claim_holds cl1 r4 c" for c using r2(2) r3(2) r4(2) by (simp add: claim_holds_def)
  obtain co where l: "lock_run db4 rid = (Some r4, co)" by (simp add: lock_run_def r4(1))
  obtain f' res where q: "assert_current_job_lease db4 w3 f3 = (f', res)" by fastforce
  show ?thesis
    by (cases res; cases co) (simp_all add: apply_run_def q rid l stale)
qed

section \<open>Where a recovered answer comes from\<close>

lemma claim_checks_ok:
  assumes "claim_checks ops st db r co = Inr (snapshot, p, durable, c)"
  shows "co = Some c" and "\<exists>inbound. authorized_context ops st db r co = Inr (inbound, p)
      \<and> durable_of db r inbound p = Inr durable
      \<and> rn_provider_ids snapshot = ar_provider_run_ids r
      \<and> rn_minimum_citations snapshot = required_citation_count (am_content inbound)
      \<and> (durable = None \<longrightarrow> cv_active_run c = Some (ar_id r)
           \<and> (\<exists>fq. validated_requests ops r inbound p = Inr fq \<and> rn_request snapshot = Some fq))"
proof -
  show c: "co = Some c"
    using assms by (cases co) (auto simp: claim_checks_def authorized_context_def and_then_Inr split: if_splits)
  obtain inbound p' where ctx: "authorized_context ops st db r (Some c) = Inr (inbound, p')"
    using assms[unfolded c] by (auto simp: claim_checks_def and_then_Inr)
  obtain dur where dur: "durable_of db r inbound p' = Inr dur"
    using assms[unfolded c] by (auto simp: claim_checks_def ctx and_then_Inr)
  obtain s where s: "run_snapshot_of db r (Some c) inbound dur = Inr s"
    using assms[unfolded c] by (auto simp: claim_checks_def ctx dur and_then_Inr split: if_splits)
  have sf: "rn_provider_ids s = ar_provider_run_ids r" "rn_minimum_citations s = required_citation_count (am_content inbound)"
    using s by (auto simp: run_snapshot_of_def Let_def split: if_splits)
  have "p' = p \<and> dur = durable \<and> rn_provider_ids snapshot = rn_provider_ids s
      \<and> rn_minimum_citations snapshot = rn_minimum_citations s
      \<and> (durable = None \<longrightarrow> cv_active_run c = Some (ar_id r)
           \<and> (\<exists>fq. validated_requests ops r inbound p = Inr fq \<and> rn_request snapshot = Some fq))"
    using assms[unfolded c] by (auto simp: claim_checks_def ctx dur s and_then_Inr split: if_splits)
  with ctx dur sf c show "\<exists>inbound. authorized_context ops st db r co = Inr (inbound, p)
      \<and> durable_of db r inbound p = Inr durable
      \<and> rn_provider_ids snapshot = ar_provider_run_ids r
      \<and> rn_minimum_citations snapshot = required_citation_count (am_content inbound)
      \<and> (durable = None \<longrightarrow> cv_active_run c = Some (ar_id r)
           \<and> (\<exists>fq. validated_requests ops r inbound p = Inr fq \<and> rn_request snapshot = Some fq))"
    by (intro exI[of _ inbound]) simp
qed

lemma fresh_same: "ag_messages db' = ag_messages db \<Longrightarrow> fresh_message i db' = fresh_message i db"
  by (simp add: fresh_message_def)

lemma retire_messages [simp]: "ag_messages (retire r co d moment db) = ag_messages db"
  by (simp add: retire_def Let_def row_simps)

lemma link_message_ids: "am_id ` set (ag_messages (link_output out d r db)) = am_id ` set (ag_messages db)"
proof -
  have "map am_id (ag_messages (link_output out d r db)) = map am_id (ag_messages db)"
    by (simp add: link_output_def row_simps)
  then show ?thesis by (metis list.set_map)
qed

lemma persist_messages:
  "ag_messages (persist_output out now i r inbound p db) = ag_messages db @ [recovered_row out now i r inbound p]"
  by (simp add: persist_output_def Let_def row_simps)

text \<open>The application that inserts message \<open>i\<close> persisted the decision's output.\<close>

lemma apply_inserts:
  assumes "snd (apply_run ops st db wall f applied retired i cl d) = CDecided d' db'" "fresh_message i db"
    and "m \<in> set (ag_messages db')" "am_id m = i"
  shows "\<exists>r c inbound p out. get_run db (cl_run_id cl) = Some r \<and> claim_holds cl r c
    \<and> authorized_context ops st db r (Some c) = Inr (inbound, p) \<and> durable_of db r inbound p = Inr None
    \<and> dc_action d = RAPersistOutput \<and> dc_output d = Some out \<and> m = recovered_row out applied i r inbound p
    \<and> \<not> claim_expired cl r retired"
  using assms(1)
proof (cases rule: apply_run_cases)
  case kept
  then show ?thesis using assms(2-4) by (force simp: fresh_message_def)
next
  case refused
  then show ?thesis using assms(2-4) by (force simp: fresh_message_def)
next
  case (applied r c db1)
  have m: "m \<in> set (ag_messages db1)" using assms(3) applied(5) by simp
  have r: "get_run db (cl_run_id cl) = Some r"
    using applied(1) by (auto simp: lock_run_def split: option.splits)
  from apply_decision_ok[OF applied(4)] obtain inbound p where
    ctx: "authorized_context ops st db r (Some c) = Inr (inbound, p)"
    and alt: "(\<exists>out e. db1 = link_output out e r db) \<or> db1 = db
      \<or> durable_of db r inbound p = Inr None \<and> (\<exists>out. dc_action d = RAPersistOutput \<and> dc_output d = Some out
            \<and> db1 = persist_output out applied i r inbound p db)" by blast
  have "i \<in> am_id ` set (ag_messages db1)" using m assms(4) by force
  then have "\<not> (\<exists>out e. db1 = link_output out e r db)" "db1 \<noteq> db"
    using assms(2) link_message_ids unfolding fresh_message_def by metis+
  then obtain out where out: "durable_of db r inbound p = Inr None" "dc_action d = RAPersistOutput"
    "dc_output d = Some out" "db1 = persist_output out applied i r inbound p db" using alt by blast
  have "m = recovered_row out applied i r inbound p"
    using m assms(2,4) unfolding out(4) persist_messages by (force simp: fresh_message_def)
  with r ctx out applied(2,3) show ?thesis by blast
qed

text \<open>C27: a recovered answer is the provider's own. If a recovery inserts a message, whatever other services did while
  the provider was asked, then the run still owned its conversation, its frozen requests were intact, no
  reply existed when it was inserted, the lookup answered completed for every recorded admission, and
  the message is the trimmed text of the last of them, bound to the run's input and
  owner and carrying the citations that input asked for.\<close>

theorem recovered_answer_is_the_providers:
  assumes "reconcile_application_run ops st poll between k fence i rid db = (f', Some d', db')"
    and "fresh_message i db" "\<And>x. fresh_message i x \<Longrightarrow> fresh_message i (between x)"
    and "m \<in> set (ag_messages db')" "am_id m = i"
  shows "\<exists>r c inbound p cl db1 r2. get_run db rid = Some r \<and> authorized_context ops st db r (Some c) = Inr (inbound, p)
    \<and> cv_active_run c = Some (ar_id r) \<and> (\<exists>fq. validated_requests ops r inbound p = Inr fq)
    \<and> (\<forall>j \<in> set (ar_provider_run_ids r). provider_id_ok j \<and> (\<exists>text. answered poll j text))
    \<and> ar_provider_run_ids r \<noteq> [] \<and> answered poll (last (ar_provider_run_ids r)) (am_content m)
    \<and> required_citation_count (am_content inbound) \<le> citation_count (am_content m)
    \<and> snd (claim_run ops st db (rk_wall1 k) fence (rk_moment k) (rk_claimed k) rid) = CClaimed cl db1
    \<and> get_run (between db1) rid = Some r2 \<and> ar_provider_run_ids r2 = ar_provider_run_ids r \<and> ar_snapshots r2 = ar_snapshots r
    \<and> (\<forall>x \<in> set (ag_messages (between db1)). am_direction x = Outbound \<longrightarrow> am_initiating x \<noteq> Some (ar_initiating_message_id r2))
    \<and> is_reply_to (ar_initiating_message_id r2) m
    \<and> am_tenant_id m = ar_tenant_id r2 \<and> am_user_id m = Some (ar_user_id r2) \<and> am_conversation_id m = ar_conversation_id r2"
proof -
  obtain g1 out1 where c1: "claim_run ops st db (rk_wall1 k) fence (rk_moment k) (rk_claimed k) rid = (g1, out1)" by fastforce
  have old: "\<not> fresh_message i db'" using assms(4,5) by (auto simp: fresh_message_def)
  have "out1 \<noteq> CDecided e x" for e x
  proof
    assume out1: "out1 = CDecided e x"
    then have "snd (claim_run ops st db (rk_wall1 k) fence (rk_moment k) (rk_claimed k) rid)
        \<in> {CClaimed undefined x, CDecided e x}" using c1 by simp
    then have "msg_view x = msg_view db" using claim_effect by blast
    moreover have "x = db'" using assms(1) by (simp add: reconcile_application_run_def c1 out1)
    ultimately have "am_id ` set (ag_messages db') = am_id ` set (ag_messages db)"
      unfolding msg_view_def by (metis (no_types, lifting) fst_conv image_cong image_image list.set_map)
    then show False using old assms(2) by (simp add: fresh_message_def)
  qed
  moreover have "out1 \<noteq> CLeaseLost" using assms(1) by (auto simp: reconcile_application_run_def c1)
  ultimately obtain cl db1 where out1: "out1 = CClaimed cl db1" by (cases out1) auto
  obtain r co snapshot p durable c where r: "get_run db rid = Some r"
    and checks: "claim_checks ops st db r co = Inr (snapshot, p, durable, c)"
    and cl: "cl_run_id cl = rid" "cl_snapshot cl = snapshot" "cl_has_endpoint cl = (durable = None)"
      "cl_requests cl = ar_snapshots r" "ag_messages db1 = ag_messages db"
    using claim_run_claimed[of ops st db "rk_wall1 k" fence "rk_moment k" "rk_claimed k" rid cl db1] c1 out1 by auto
  define asked where "asked = (\<lambda>j. if cl_has_endpoint cl then poll j else Inl ())"
  define d where "d = reconcile_run (to_json ops) asked (rk_moment k) snapshot"
  obtain g2 out2 where c2: "apply_run ops st (between db1) (rk_wall2 k) g1 (rk_applied k) (rk_retired k) i cl d = (g2, out2)"
    by fastforce
  have app: "out2 = CDecided d' db'"
    using assms(1) by (cases out2) (simp_all add: reconcile_application_run_def c1 out1 cl(2) asked_def[symmetric]
        d_def[symmetric] c2 Let_def)
  have fr: "fresh_message i (between db1)" using assms(2,3) fresh_same[OF cl(5)] by blast
  obtain r2 c2' inbound2 p2 out where a: "get_run (between db1) rid = Some r2" "claim_holds cl r2 c2'"
    "authorized_context ops st (between db1) r2 (Some c2') = Inr (inbound2, p2)"
    "durable_of (between db1) r2 inbound2 p2 = Inr None"
    "dc_action d = RAPersistOutput" "dc_output d = Some out" "m = recovered_row out (rk_applied k) i r2 inbound2 p2"
    using apply_inserts[of ops st "between db1" "rk_wall2 k" g1 "rk_applied k" "rk_retired k" i cl d d' db' m]
      c2 app fr assms(4,5) cl(1) by auto
  note pp = persist_polled[OF a(5)[unfolded d_def], folded d_def]
  have pers: "dc_action (decide_polled (to_json ops) snapshot (map (poll_one asked) (rn_provider_ids snapshot))) = RAPersistOutput"
    "rn_provider_ids snapshot \<noteq> []" using pp a(5) by simp_all
  obtain out' where o': "dc_output d = Some out'"
    and ans: "ro_provider_id out' = last (rn_provider_ids snapshot)"
      "answered asked (last (rn_provider_ids snapshot)) (ro_content out')"
      "rn_minimum_citations snapshot \<le> citation_count (ro_content out')"
      "\<forall>j \<in> set (rn_provider_ids snapshot). \<exists>text. answered asked j text"
    using decide_polled_persists[OF pers] pp by metis
  have out: "out' = out" using o' a(6) by simp
  have endpoint: "cl_has_endpoint cl" using ans(2) by (auto simp: answered_def asked_def split: if_splits)
  then have asked: "asked = poll" and dur: "durable = None" using cl(3) by (auto simp: asked_def)
  obtain inbound where ctx: "authorized_context ops st db r co = Inr (inbound, p)"
    and sn: "rn_provider_ids snapshot = ar_provider_run_ids r"
      "rn_minimum_citations snapshot = required_citation_count (am_content inbound)"
      "cv_active_run c = Some (ar_id r)" "\<exists>fq. validated_requests ops r inbound p = Inr fq"
    using claim_checks_ok(2)[OF checks] dur by blast
  have ids2: "ar_provider_run_ids r2 = ar_provider_run_ids r" "ar_snapshots r2 = ar_snapshots r"
    using a(2) cl(2,4) sn(1) by (simp_all add: claim_holds_def)
  have inb2: "am_id inbound2 = ar_initiating_message_id r2"
    using tbl_find_Some[OF context_inbound(1)[OF a(3)]] by simp
  have none: "\<forall>x \<in> set (ag_messages (between db1)). am_direction x = Outbound \<longrightarrow>
      am_initiating x \<noteq> Some (ar_initiating_message_id r2)"
    using durable_none[OF a(4)] inb2 by simp
  have mf: "is_reply_to (ar_initiating_message_id r2) m" "am_tenant_id m = ar_tenant_id r2"
    "am_user_id m = Some (ar_user_id r2)" "am_conversation_id m = ar_conversation_id r2" "am_content m = ro_content out"
    by (simp_all add: a(7) is_reply_to_iff inb2) (simp_all add: recovered_row_def)
  have oks: "\<forall>j \<in> set (ar_provider_run_ids r). provider_id_ok j" using pp sn(1) by (simp add: list_all_iff)
  show ?thesis
    by (rule exI[of _ r], rule exI[of _ c], rule exI[of _ inbound], rule exI[of _ p], rule exI[of _ cl],
        rule exI[of _ db1], rule exI[of _ r2])
      (use r c1 out1 ctx claim_checks_ok(1)[OF checks] sn a(1) ids2 none mf oks ans[unfolded asked out] pers(2) in simp)
qed

section \<open>A progress notice makes a turn unrecoverable\<close>

lemma find_Some_in: "find P xs = Some x \<Longrightarrow> x \<in> set xs \<and> P x"
  by (induction xs) (auto split: if_splits)

lemma lease_messages: "assert_current_job_lease (db\<lparr>ag_messages := ms\<rparr>) = assert_current_job_lease db"
  by (simp add: fun_eq_iff assert_current_job_lease_def assert_job_lease_def get_job_def split: option.split)

lemma context_messages:
  assumes "get_message db (ar_initiating_message_id r) = Some m"
  shows "authorized_context ops st (db\<lparr>ag_messages := ag_messages db @ ms\<rparr>) r co = authorized_context ops st db r co"
proof -
  let ?db = "db\<lparr>ag_messages := ag_messages db @ ms\<rparr>"
  have m: "get_message ?db (ar_initiating_message_id r) = Some m" using assms by (simp add: tbl_find_append)
  have e: "active_tenant ?db = active_tenant db" "active_user ?db = active_user db" "member_active ?db = member_active db"
    "approved_phone ?db = approved_phone db" "ag_profiles ?db = ag_profiles db"
    by (simp_all add: fun_eq_iff active_tenant_def active_user_def member_active_def approved_phone_def)
  show ?thesis unfolding authorized_context_def e m assms ..
qed

lemma control_reply_appends:
  assumes "cr_tenant_id q = Some t" "cr_user_id q = Some u" "t \<noteq> []" "u \<noteq> []" "active_tenant db t" "active_user db u"
    and "\<not> starts_with (cr_purpose q) ''agent-reply''" "\<not> starts_with (cr_purpose q) ''agent-progress''"
    and "\<And>m. m \<in> set (ag_messages db) \<Longrightarrow> dict_get (am_metadata m) ''transport_key'' \<noteq> PStr (cr_key q)"
    and "find_control_input db q t u (receiver_scope sha lane (Some (case cr_sender q of None \<Rightarrow> (''mock'', ''mock'') | Some s \<Rightarrow> s)))
       = Some inbound" "get_conversation db (am_conversation_id inbound) = Some c"
  shows "snd (record_control_reply sha lane now (cid, i, j) q db)
    = db\<lparr>ag_messages := ag_messages db @ [control_row q now j t u (cv_id c) (am_id inbound)]\<rparr>"
proof -
  obtain tn us where ex: "tbl_find tn_id t (ag_tenants db) = Some tn" "tbl_find us_id u (ag_users db) = Some us"
    using assms(5,6) by (auto simp: active_tenant_def active_user_def split: option.splits)
  have new: "find (\<lambda>m. am_tenant_id m = t \<and> am_user_id m = Some u
      \<and> dict_get (am_metadata m) ''transport_key'' = PStr (cr_key q)) (ag_messages db) = None"
    using assms(9) by (auto simp: find_None_iff)
  show ?thesis
    by (simp add: record_control_reply_def assms(1-4,7,8,10,11) new ex Let_def)
qed

text \<open>C28: a progress notice makes an interrupted turn unrecoverable. Let a run be due for recovery, its context
  authorised, and no reply to its input exist, so that nothing yet stands against recovering it. Once the
  transport records a tool progress notice for that same input (purpose \<^verbatim>\<open>tool-progress:\<close>, which the
  exemption for progress notices does not cover), the next recovery reviews the run as an invalid
  output binding and retires it for good, without asking the provider.\<close>

theorem progress_notice_blocks_recovery:
  assumes run: "lock_run db rid = (Some r, Some c)" "\<not> (ar_status r \<in> {RRunning, RReconciling} \<and> moment < ar_expires_at r)"
    and ctx: "authorized_context ops st db r (Some c) = Inr (inbound, p)" "ar_output_message_id r = None"
    and none: "\<And>m. m \<in> set (ag_messages db) \<Longrightarrow> am_initiating m = Some (am_id inbound) \<Longrightarrow> am_direction m \<noteq> Outbound"
    and q: "cr_tenant_id q = Some (ar_tenant_id r)" "cr_user_id q = Some (ar_user_id r)" "ar_tenant_id r \<noteq> []"
      "ar_user_id r \<noteq> []" "starts_with (cr_purpose q) ''tool-progress:''"
      "cr_sender q = Some (cv_waba_id c, cv_receiver_id c)"
      "find_control_input db q (ar_tenant_id r) (ar_user_id r) (am_scope inbound) = Some inbound"
      "\<And>m. m \<in> set (ag_messages db) \<Longrightarrow> dict_get (am_metadata m) ''transport_key'' \<noteq> PStr (cr_key q)"
    and lease: "snd (assert_current_job_lease db wall f) = Inr ()"
    and db': "db' = snd (record_control_reply (jo_sha (to_json ops)) (rs_env st) now (cid, i, j) q db)"
  shows "durable_of db r inbound p = Inr None \<and>
    snd (claim_run ops st db' wall f moment later rid) = CDecided (review ''durable_output_binding_invalid'')
      (retire r (Some c) (review ''durable_output_binding_invalid'') later db')"
proof -
  let ?why = "''durable_output_binding_invalid''"
  note inb = context_inbound[OF ctx(1)]
  have scope: "am_scope inbound = receiver_scope (jo_sha (to_json ops)) (rs_env st) (Some (cv_waba_id c, cv_receiver_id c))"
    "am_conversation_id inbound = ar_conversation_id r" "active_tenant db (ar_tenant_id r)" "active_user db (ar_user_id r)"
    using ctx(1) inb by (auto simp: authorized_context_def conversation_in_scope_def inbound_in_scope_def split: if_splits)
  have gr: "get_run db rid = Some r" and fc: "find (\<lambda>c. cv_id c = ar_conversation_id r \<and> cv_tenant_id c = ar_tenant_id r)
      (ag_conversations db) = Some c"
    using run(1) by (auto simp: lock_run_def split: option.splits)
  have "get_conversation db (ar_conversation_id r) \<noteq> None"
    using find_Some_in[OF fc] by (auto simp: tbl_find_def find_None_iff)
  then obtain c' where c': "get_conversation db (am_conversation_id inbound) = Some c'" using scope(2) by auto
  have prefix: "starts_with x ''tool-progress:'' \<Longrightarrow> \<not> starts_with x ''agent-reply''"
    "starts_with x ''tool-progress:'' \<Longrightarrow> \<not> starts_with x ''agent-progress''" for x
    by (cases x; simp add: starts_with_def)+
  let ?row = "control_row q now j (ar_tenant_id r) (ar_user_id r) (cv_id c') (am_id inbound)"
  have d: "db' = db\<lparr>ag_messages := ag_messages db @ [?row]\<rparr>"
    unfolding db' using control_reply_appends[OF q(1-4) scope(3,4) prefix(1)[OF q(5)] prefix(2)[OF q(5)], of "jo_sha (to_json ops)" "rs_env st" inbound c']
      q(6-8) scope(1) c' by simp
  have no: "durable_of db r inbound p = Inr None"
  proof -
    have "durable_rows db r inbound = []"
      using none by (auto simp: durable_rows_def present_def ctx(2) filter_empty_conv)
    then show ?thesis by (simp add: durable_of_def)
  qed
  have "filter (\<lambda>m. am_initiating m = Some (am_id inbound) \<and> am_direction m = Outbound) (ag_messages db) = []"
    using none by (auto simp: filter_empty_conv)
  then have "durable_rows db' r inbound = [Some ?row]"
    by (simp add: d durable_rows_def present_def ctx(2)) (simp add: control_row_def)
  moreover have "\<not> bound_output r inbound p ?row" by (simp add: bound_output_def control_row_def dict_get_def)
  ultimately have dur: "durable_of db' r inbound p = Inl ?why" by (simp add: durable_of_def)
  have ctx': "authorized_context ops st db' r (Some c) = Inr (inbound, p)"
    unfolding d using context_messages[OF inb(1)] ctx(1) by simp
  have checks: "claim_checks ops st db' r (Some c) = Inl ?why"
    by (simp add: claim_checks_def ctx' dur)
  obtain f' where l: "assert_current_job_lease db' wall f = (f', Inr ())"
    using lease unfolding d lease_messages by (metis prod.collapse)
  have lk: "lock_run db' rid = (Some r, Some c)" using gr fc by (simp add: d lock_run_def)
  have "snd (claim_run ops st db' wall f moment later rid) = CDecided (review ?why) (retire r (Some c) (review ?why) later db')"
    using run(2) by (auto simp: claim_run_def l lk checks)
  with no show ?thesis ..
qed

end
