(* ===== verification/TurnExamples.thy ===== *)
theory TurnExamples
  imports TurnClaims
begin

text \<open>Concrete turns: the witnesses of the properties of theory TurnClaims.\<close>

section \<open>A shop with one conversation\<close>

definition ex_scope :: string where
  "ex_scope = replicate 64 CHR ''0''"

definition ex_conv :: conversation where
  "ex_conv = \<lparr> cv_id = ''c'', cv_tenant_id = ''t'', cv_user_id = ''u'', cv_channel = ''whatsapp'', cv_status = ''open'',
     cv_session_id = None, cv_generation = 1, cv_waba_id = ''w'', cv_receiver_id = ''p'', cv_lane = ''local'',
     cv_active_run = None, cv_pending_utterance = PDict [], cv_updated_at = 0 \<rparr>"

definition ex_in :: agent_message where
  "ex_in = \<lparr> am_id = ''m'', am_tenant_id = ''t'', am_user_id = Some ''u'', am_profile_id = Some ''h'', am_conversation_id = ''c'',
     am_channel = ''whatsapp'', am_direction = Inbound, am_content = ''hi'', am_initiating = None,
     am_metadata = [(''phone_identity_id'', PStr ''i'')], am_scope = ex_scope, am_external_id = Some ''x'', am_created_at = 0 \<rparr>"

definition ex_shop :: agent_db where
  "ex_shop = \<lparr> job_rows = [], outbox_rows = [], error_rows = [],
     ag_tenants = [\<lparr> tn_id = ''t'', tn_slug = ''t'', tn_name = ''t'', tn_status = TActive, tn_timezone = ''UTC'', tn_consent = ''pending'' \<rparr>],
     ag_users = [\<lparr> us_id = ''u'', us_name = None, us_email = None, us_phone = ''1'', us_status = ''active'' \<rparr>],
     ag_members = [\<lparr> mb_id = ''b'', mb_tenant_id = ''t'', mb_user_id = ''u'', mb_role = MOwner, mb_status = ''active'',
        mb_created_at = 0 \<rparr>],
     ag_phones = [\<lparr> ph_id = ''i'', ph_tenant_id = ''t'', ph_user_id = ''u'', ph_phone = ''1'', ph_wa_id = None,
        ph_status = ''approved'', ph_opt_out = False \<rparr>],
     ag_profiles = [\<lparr> hp_id = ''h'', hp_tenant_id = ''t'', hp_profile_name = ''n'', hp_provider = ''hermes'', hp_api_url = ''e'',
        hp_encrypted_api_key = ''k'', hp_status = ''active'' \<rparr>],
     ag_conversations = [ex_conv], ag_messages = [], ag_runs = [], ag_media = [], ag_whatsapp = [], ag_actions = [],
     ag_connections = [], ag_permissions = [], ag_business = [], ag_events = [], ag_usage = [] \<rparr>"

definition ex_run :: agent_run where
  "ex_run = \<lparr> ar_id = ''r'', ar_tenant_id = ''t'', ar_user_id = ''u'', ar_conversation_id = ''c'', ar_initiating_message_id = ''m'',
     ar_actor_identity_id = Some ''i'', ar_provider_run_ids = [], ar_context_digest = None, ar_snapshots = None,
     ar_reconcile_epoch = 0, ar_output_message_id = None, ar_effect_keys = [], ar_job_id = None, ar_job_claim_epoch = None,
     ar_job_stale_lock = None, ar_status = RRunning, ar_expires_at = 40000000, ar_created_at = 0 \<rparr>"

definition ex_begun :: agent_db where
  "ex_begun = ex_shop\<lparr>ag_messages := [ex_in], ag_runs := [ex_run], ag_conversations := [ex_conv\<lparr>cv_active_run := Some ''r''\<rparr>]\<rparr>"

definition ex_answer :: turn_answer where
  "ex_answer = \<lparr> ta_id = ''o'', ta_text = ''hello'', ta_failed = False, ta_voice = False, ta_session = None,
     ta_total_tokens = None, ta_usage = [], ta_error_code = None \<rparr>"

lemma ex_lease [simp]: "assert_current_job_lease db now None = (None, Inr ())"
  by (simp add: assert_current_job_lease_def)

lemma ex_seconds: "float_seconds 40 = 40000000"
  by (simp add: float_seconds_def round_half_even_def Let_def)

lemma ex_begin:
  "snd (begin_run (ex_shop\<lparr>ag_messages := [ex_in]\<rparr>) 0 None ''r'' ex_conv ex_in 10) = Inr (ex_run, ex_begun)"
  by (simp add: begin_run_def ex_shop_def ex_conv_def ex_in_def ex_run_def ex_begun_def dict_get_def Let_def ex_seconds)

definition ex_replied :: agent_db where
  "ex_replied = (case snd (accept_reply ex_begun 1 None ex_run ''t'' ''u'' ''h'' ''c'' ''m'' ''whatsapp'' ex_answer) of
     Inr db \<Rightarrow> db | Inl _ \<Rightarrow> ex_shop)"

lemma ex_active:
  "require_active_run ex_begun 1 None (PStr ''r'') ''t'' ''u'' ''c'' (Some ''m'') ''whatsapp'' = (None, Inr ex_run)"
  by (simp add: require_active_run_def find_run_def tbl_find_def origin_lease_def actor_authorized_def active_member_def
      active_tenant_def active_user_def approved_phone_def scoped_conversation_def run_active_def Let_def
      ex_begun_def ex_shop_def ex_run_def ex_conv_def)

lemma ex_accept:
  "snd (accept_reply ex_begun 1 None ex_run ''t'' ''u'' ''h'' ''c'' ''m'' ''whatsapp'' ex_answer) = Inr ex_replied"
  "ag_messages ex_replied = [ex_in, reply_row ex_answer 1 ''t'' ''u'' ''h'' ''whatsapp'' ex_run]"
proof -
  have n: "reply_for_input ex_begun ''t'' ''u'' ''m'' = None"
    by (simp add: reply_for_input_def first_by_None ex_begun_def is_reply_to_def ex_in_def)
  have id: "ar_id ex_run = ''r''" "ar_output_message_id ex_run = None" by (simp_all add: ex_run_def)
  have "is_ok (snd (accept_reply ex_begun 1 None ex_run ''t'' ''u'' ''h'' ''c'' ''m'' ''whatsapp'' ex_answer))"
    by (simp add: accept_reply_def id ex_active n Let_def)
  then show a: "snd (accept_reply ex_begun 1 None ex_run ''t'' ''u'' ''h'' ''c'' ''m'' ''whatsapp'' ex_answer) = Inr ex_replied"
    by (auto simp: ex_replied_def is_ok_def split: sum.splits)
  show "ag_messages ex_replied = [ex_in, reply_row ex_answer 1 ''t'' ''u'' ''h'' ''whatsapp'' ex_run]"
    using arg_cong[OF a, of "\<lambda>x. ag_messages (projr x)"]
    by (simp add: accept_reply_def id ex_active n Let_def row_simps) (simp add: ex_begun_def)
qed

lemma ex_reached: "reach turn_init turn_step ex_replied"
proof -
  have "reach turn_init turn_step ex_shop" by (rule reach_init) (simp add: turn_init_def ex_shop_def)
  moreover have "turn_step ex_shop (ex_shop\<lparr>ag_messages := [ex_in]\<rparr>)"
    using t_message[of ex_in ex_shop] by (simp add: reply_to_def ex_in_def fresh_message_def ex_shop_def)
  moreover have "turn_step (ex_shop\<lparr>ag_messages := [ex_in]\<rparr>) ex_begun"
    by (rule t_begin[OF ex_begin, of]) (simp_all add: ex_shop_def tbl_find_def ex_in_def ex_conv_def)
  moreover have "turn_step ex_begun ex_replied"
    by (rule t_accept[OF ex_accept(1)]) (simp add: fresh_message_def ex_begun_def ex_answer_def ex_in_def)
  ultimately show ?thesis by (meson reach_step)
qed

theorem one_reply_per_input_witness:
  "length (filter (is_reply_to ''m'') (ag_messages ex_replied)) \<le> 1 \<and> is_reply_to ''m'' (last (ag_messages ex_replied))"
  using one_reply_per_input[OF ex_reached, of "''m''"]
  by (simp add: ex_accept(2) is_reply_to_iff) (simp add: ex_run_def)

theorem ended_run_is_powerless_witness:
  "\<not> is_ok (snd (require_active_run (ex_begun\<lparr>ag_runs := [ex_run\<lparr>ar_status := RFailed\<rparr>]\<rparr>) 1 None (PStr ''r'') ''t'' ''u'' ''c''
     (Some ''m'') ''whatsapp''))"
  using ended_run_is_powerless[of "''r''" "ex_begun\<lparr>ag_runs := [ex_run\<lparr>ar_status := RFailed\<rparr>]\<rparr>" "ex_run\<lparr>ar_status := RFailed\<rparr>"
    "ex_begun\<lparr>ag_runs := [ex_run\<lparr>ar_status := RFailed\<rparr>]\<rparr>" ex_run]
  by (simp add: tbl_find_def ex_run_def)

section \<open>Recoveries of that shop's run\<close>

text \<open>A JSON reader and writer that know the documents of the example: a retained request and the list that holds it.\<close>

definition ex_payload :: "(string \<times> pyval) list" where
  "ex_payload = [(''model'', PStr ''n''), (''instructions'', PStr ([CHR ''P'', CHR 0x0A, CHR 0x0A] @ ''Current application context:'' @ [CHR 0x0A])),
     (''input'', PList [PDict [(''role'', PStr ''user''), (''content'', PStr ''hi'')]]), (''conversation_history'', PList [])]"

definition ex_envelope :: "(string \<times> pyval) list" where
  "ex_envelope = [(''endpoint'', PStr ''e''), (''payload'', PDict ex_payload),
     (''headers'', PDict [(''Idempotency-Key'', PStr (''bb_'' @ ex_scope))])]"

definition ex_retained :: pyval where
  "ex_retained = PList [PDict [(''payload_json'', PStr ''v''), (''sha256'', PStr ex_scope), (''recoverable'', PBool True)]]"

definition ex_ops :: recovery_ops where
  "ex_ops = \<lparr> to_json = \<lparr> jo_loads = (\<lambda>s. if s = ''v'' then Some (PDict ex_envelope) else if s = ''s'' then Some ex_retained else None),
       jo_dumps = (\<lambda>_. Some ''v''), jo_sha = (\<lambda>_. ex_scope) \<rparr>,
     to_dump = (\<lambda>_. ''s''), to_seal = (\<lambda>s. s), to_open = Some, ry_redact = (\<lambda>s. s), ry_policy = ''P'',
     ry_repair_prompt = (\<lambda>_. []), ry_endpoint_ok = (\<lambda>_. True) \<rparr>"

definition ex_recovery :: recovery_settings where
  "ex_recovery = \<lparr> rs_env = ''local'', rs_meta_backend = False, rs_senders = [], rs_read_timeout = 15 \<rparr>"

lemma ex_lease_seconds: "float_seconds (lease_seconds ex_recovery) = 60000000"
  by (simp add: lease_seconds_def ex_recovery_def float_seconds_def round_half_even_def Let_def)

lemma ex_context:
  assumes "ag_tenants db = ag_tenants ex_shop" "ag_users db = ag_users ex_shop" "ag_members db = ag_members ex_shop"
    "ag_phones db = ag_phones ex_shop" "ag_profiles db = ag_profiles ex_shop" "get_message db ''m'' = Some ex_in"
    and "ar_id r = ''r''" "ar_tenant_id r = ''t''" "ar_user_id r = ''u''" "ar_conversation_id r = ''c''"
    "ar_initiating_message_id r = ''m''" "ar_actor_identity_id r = Some ''i''"
  shows "authorized_context ex_ops ex_recovery db r (Some (ex_conv\<lparr>cv_active_run := Some ''r''\<rparr>))
    = Inr (ex_in, hd (ag_profiles ex_shop))"
proof -
  have "conversation_in_scope ex_recovery r (ex_conv\<lparr>cv_active_run := Some ''r''\<rparr>)"
    using assms by (simp add: conversation_in_scope_def ex_conv_def ex_recovery_def)
  moreover have "active_tenant db ''t''" "active_user db ''u''" "member_active db ''t'' ''u''" "approved_phone db ''i'' ''t'' ''u''"
    using assms by (simp_all add: active_tenant_def active_user_def member_active_def approved_phone_def ex_shop_def tbl_find_def)
  moreover have "inbound_in_scope ex_ops r (ex_conv\<lparr>cv_active_run := Some ''r''\<rparr>) ex_in"
    using assms by (simp add: inbound_in_scope_def ex_in_def ex_conv_def ex_ops_def receiver_scope_def)
  moreover have "dict_get (am_metadata ex_in) ''phone_identity_id'' = opt_str (Some ''i'')" "am_channel ex_in = ''whatsapp''"
    by (simp_all add: ex_in_def dict_get_def opt_str_def)
  moreover have "find (\<lambda>p. hp_tenant_id p = ''t'') (ag_profiles db) = Some (hd (ag_profiles ex_shop))"
    using assms by (simp add: ex_shop_def)
  moreover have "hp_status (hd (ag_profiles ex_shop)) = ''active''" "hp_provider (hd (ag_profiles ex_shop)) = ''hermes''"
    "am_profile_id ex_in = Some (hp_id (hd (ag_profiles ex_shop)))" by (simp_all add: ex_shop_def ex_in_def)
  ultimately show ?thesis using assms by (simp add: authorized_context_def) (simp add: ex_recovery_def)
qed

lemma ex_lock:
  assumes "ag_runs db = [r]" "ag_conversations db = [ex_conv\<lparr>cv_active_run := Some ''r''\<rparr>]"
    "ar_id r = ''r''" "ar_tenant_id r = ''t''" "ar_conversation_id r = ''c''"
  shows "lock_run db ''r'' = (Some r, Some (ex_conv\<lparr>cv_active_run := Some ''r''\<rparr>))"
  using assms by (simp add: lock_run_def tbl_find_def ex_conv_def)

text \<open>The run with its accepted reply, due for recovery.\<close>

definition ex_due :: "int \<Rightarrow> time \<Rightarrow> run_status \<Rightarrow> agent_db" where
  "ex_due k e st = ex_begun\<lparr>ag_messages := [ex_in, reply_row ex_answer 1 ''t'' ''u'' ''h'' ''whatsapp'' ex_run],
     ag_runs := [ex_run\<lparr>ar_reconcile_epoch := k, ar_expires_at := e, ar_status := st, ar_output_message_id := Some ''o''\<rparr>]\<rparr>"

lemma ex_claim_due:
  assumes "e \<le> moment"
  shows "\<exists>cl. snd (claim_run ex_ops ex_recovery (ex_due k e st) 0 None moment moment ''r'')
    = CClaimed cl (ex_due (k + 1) (moment + 60000000) RReconciling)"
proof -
  let ?r = "ex_run\<lparr>ar_reconcile_epoch := k, ar_expires_at := e, ar_status := st, ar_output_message_id := Some ''o''\<rparr>"
  let ?c = "ex_conv\<lparr>cv_active_run := Some ''r''\<rparr>" and ?p = "hd (ag_profiles ex_shop)"
  have l: "lock_run (ex_due k e st) ''r'' = (Some ?r, Some ?c)"
    by (rule ex_lock) (simp_all add: ex_due_def ex_begun_def ex_run_def)
  have c: "authorized_context ex_ops ex_recovery (ex_due k e st) ?r (Some ?c) = Inr (ex_in, ?p)"
    by (rule ex_context) (simp_all add: ex_due_def ex_begun_def ex_run_def tbl_find_def ex_in_def)
  have "durable_rows (ex_due k e st) ?r ex_in = [Some (reply_row ex_answer 1 ''t'' ''u'' ''h'' ''whatsapp'' ex_run)]"
    by (simp add: durable_rows_def present_def ex_due_def tbl_find_def ex_in_def ex_answer_def)
  moreover have "bound_output ?r ex_in ?p (reply_row ex_answer 1 ''t'' ''u'' ''h'' ''whatsapp'' ex_run)"
    by (simp add: bound_output_def reply_row_def ex_run_def ex_in_def ex_shop_def ex_answer_def dict_get_def strip_def
        lstrip_def is_space_def code_def)
  ultimately obtain d where d: "durable_of (ex_due k e st) ?r ex_in ?p = Inr (Some d)" by (simp add: durable_of_def)
  obtain s where s: "run_snapshot_of (ex_due k e st) ?r (Some ?c) ex_in (Some d) = Inr s"
    by (simp add: run_snapshot_of_def receipts_of_def ex_due_def ex_begun_def ex_shop_def ex_run_def Let_def)
  have k: "claim_checks ex_ops ex_recovery (ex_due k e st) ?r (Some ?c) = Inr (s, ?p, Some d, ?c)"
    by (simp add: claim_checks_def c d s)
  show ?thesis using assms
    by (simp add: claim_run_def l k ex_lease_seconds Let_def)
      (simp add: ex_due_def set_run_def tbl_upd_def ex_run_def)
qed

theorem superseded_recovery_is_powerless_witness:
  "\<exists>cl. snd (apply_run ex_ops ex_recovery (ex_due 2 130000000 RReconciling) 0 None 80000000 80000000 ''z'' cl (review ''x''))
     \<in> {CLeaseLost, CDecided (review ''reconciliation_claim_lost'') (ex_due 2 130000000 RReconciling)} \<and> cl_epoch cl = 1"
proof -
  obtain cl1 where c1: "snd (claim_run ex_ops ex_recovery (ex_due 0 5 RExpired) 0 None 10000000 10000000 ''r'')
      = CClaimed cl1 (ex_due 1 70000000 RReconciling)"
    using ex_claim_due[of 5 10000000 0 RExpired] by auto
  obtain cl2 where c2: "snd (claim_run ex_ops ex_recovery (ex_due 1 70000000 RReconciling) 0 None 70000000 70000000 ''r'')
      = CClaimed cl2 (ex_due 2 130000000 RReconciling)"
    using ex_claim_due[of 70000000 70000000 1 RReconciling] by auto
  have "cl_epoch cl1 = 1" using claim_run_claimed[OF c1] by (auto simp: ex_due_def tbl_find_def ex_run_def)
  then show ?thesis
    using superseded_recovery_is_powerless[OF c1 rtranclp.rtrancl_refl c2 rtranclp.rtrancl_refl] by blast
qed

text \<open>The run with no reply yet, and a progress notice for its input.\<close>

definition ex_stuck :: agent_db where
  "ex_stuck = ex_begun\<lparr>ag_runs := [ex_run\<lparr>ar_status := RExpired, ar_expires_at := 5, ar_provider_run_ids := [''p1''],
     ar_snapshots := Some ''s''\<rparr>]\<rparr>"

definition ex_notice :: control_request where
  "ex_notice = \<lparr> cr_tenant_id = Some ''t'', cr_user_id = Some ''u'', cr_source_id = ''x'', cr_source_text = ''hi'',
     cr_body = ''checking'', cr_purpose = ''tool-progress:1'', cr_key = ''k'', cr_sender = Some (''w'', ''p'') \<rparr>"

lemma ex_stuck_lock: "lock_run ex_stuck ''r'' = (Some (hd (ag_runs ex_stuck)), Some (ex_conv\<lparr>cv_active_run := Some ''r''\<rparr>))"
  by (rule ex_lock) (simp_all add: ex_stuck_def ex_begun_def ex_run_def)

lemma ex_stuck_context:
  "authorized_context ex_ops ex_recovery ex_stuck (hd (ag_runs ex_stuck)) (Some (ex_conv\<lparr>cv_active_run := Some ''r''\<rparr>))
    = Inr (ex_in, hd (ag_profiles ex_shop))"
  by (rule ex_context) (simp_all add: ex_stuck_def ex_begun_def ex_run_def tbl_find_def ex_in_def)

theorem progress_notice_blocks_recovery_witness:
  "\<exists>db'. snd (claim_run ex_ops ex_recovery (snd (record_control_reply (jo_sha (to_json ex_ops)) ''local'' 6 (''c2'', ''m2'', ''o2'') ex_notice ex_stuck))
      0 None 10 10 ''r'') = CDecided (review ''durable_output_binding_invalid'') db'"
proof -
  have q: "cr_tenant_id ex_notice = Some (ar_tenant_id (hd (ag_runs ex_stuck)))"
    "cr_user_id ex_notice = Some (ar_user_id (hd (ag_runs ex_stuck)))" "ar_tenant_id (hd (ag_runs ex_stuck)) \<noteq> []"
    "ar_user_id (hd (ag_runs ex_stuck)) \<noteq> []" "starts_with (cr_purpose ex_notice) ''tool-progress:''"
    "cr_sender ex_notice = Some (cv_waba_id (ex_conv\<lparr>cv_active_run := Some ''r''\<rparr>), cv_receiver_id (ex_conv\<lparr>cv_active_run := Some ''r''\<rparr>))"
    "find_control_input ex_stuck ex_notice (ar_tenant_id (hd (ag_runs ex_stuck))) (ar_user_id (hd (ag_runs ex_stuck))) (am_scope ex_in) = Some ex_in"
    by (simp_all add: ex_notice_def ex_stuck_def ex_run_def starts_with_def ex_conv_def find_control_input_def ex_begun_def ex_in_def)
  have env: "rs_env ex_recovery = ''local''" by (simp add: ex_recovery_def)
  show ?thesis
    using progress_notice_blocks_recovery[OF ex_stuck_lock _ ex_stuck_context _ _ q, of 10 0 None _ 6 "''c2''" "''m2''" "''o2''" 10]
    unfolding env by (simp add: ex_stuck_def ex_begun_def ex_run_def ex_in_def dict_get_def)
qed

text \<open>The same run recovered in time: its retained request is intact and the provider answers.\<close>

lemma ex_required: "required_citation_count ''hi'' = 0"
  by (simp add: required_citation_count_def two_citation_words_def one_citation_words_def match_at_def eat_def
      starts_with_def word_char_def lower_def lower_char_def is_upper_def is_alnum_def is_digit_def is_lower_def code_def)

lemma ex_kept_requests:
  assumes "ar_snapshots r = Some ''s''" "ar_provider_run_ids r = [''p1'']"
  shows "validated_requests ex_ops r ex_in (hd (ag_profiles ex_shop)) = Inr \<lparr> fq_payload = ''v'', fq_sha = ex_scope \<rparr>"
proof -
  have j: "jo_loads (to_json ex_ops) ''v'' = Some (PDict ex_envelope)" "jo_loads (to_json ex_ops) ''s'' = Some ex_retained"
    "jo_dumps (to_json ex_ops) x = Some ''v''" "jo_sha (to_json ex_ops) y = ex_scope" "to_open ex_ops z = Some z" for x y z
    by (simp_all add: ex_ops_def)
  have "list_all hex_digit ex_scope" by (simp add: ex_scope_def list_all_iff hex_digit_def is_digit_def code_def)
  then have v: "frozen_valid (to_json ex_ops) \<lparr> fq_payload = ''v'', fq_sha = ex_scope \<rparr>"
    by (simp add: frozen_valid_def j) (simp add: ex_scope_def)
  have e: "check_payload ex_ops ex_in (hd (ag_profiles ex_shop)) False ex_envelope
      = Inr (ex_payload, [CHR ''P'', CHR 0x0A, CHR 0x0A] @ ''Current application context:'' @ [CHR 0x0A])"
    by (simp add: check_payload_def ex_envelope_def dict_get_def ex_shop_def rstrip_chars_def request_key_def j)
      (simp add: ex_payload_def starts_with_def ex_ops_def)
  have i: "check_input ex_ops ex_in ex_payload = Inr ()"
    by (simp add: check_input_def ex_payload_def dict_get_def input_bound_def ex_ops_def ex_in_def)
  have "map_of ex_payload ''session_id'' = None" "map_of ex_payload ''previous_response_id'' = None"
    by (simp_all add: ex_payload_def)
  then have "check_request ex_ops ex_in (hd (ag_profiles ex_shop)) None (PDict [(''payload_json'', PStr ''v''),
      (''sha256'', PStr ex_scope), (''recoverable'', PBool True)]) = Inr (\<lparr> fq_payload = ''v'', fq_sha = ex_scope \<rparr>, ex_payload)"
    by (simp add: check_request_def dict_get_def v j e i Let_def)
  then show ?thesis by (simp add: validated_requests_def present_def assms j ex_retained_def)
qed

definition ex_snap :: run_snapshot where
  "ex_snap = \<lparr> rn_run_id = ''r'', rn_initiating = ''m'', rn_status = ''reconciling'', rn_expires_at = 5, rn_provider_ids = [''p1''],
     rn_request = Some \<lparr> fq_payload = ''v'', fq_sha = ex_scope \<rparr>, rn_durable = None, rn_delivery_required = True,
     rn_effect_keys = None, rn_deliveries = [], rn_minimum_citations = 0 \<rparr>"

definition ex_found :: recovered_output where
  "ex_found = \<lparr> ro_provider_id = ''p1'', ro_content = ''see https://a.b/c.'', ro_input = 5, ro_output = 0, ro_total = 5,
     ro_session = None \<rparr>"

lemma ex_decision:
  "dc_action (reconcile_run (to_json ex_ops) ex_poll 10 ex_snap) = RAPersistOutput"
  "dc_output (reconcile_run (to_json ex_ops) ex_poll 10 ex_snap) = Some ex_found"
proof -
  have "list_all hex_digit ex_scope" by (simp add: ex_scope_def list_all_iff hex_digit_def is_digit_def code_def)
  then have v: "frozen_valid (to_json ex_ops) \<lparr> fq_payload = ''v'', fq_sha = ex_scope \<rparr>"
    by (simp add: frozen_valid_def ex_ops_def) (simp add: ex_scope_def)
  show "dc_action (reconcile_run (to_json ex_ops) ex_poll 10 ex_snap) = RAPersistOutput"
    "dc_output (reconcile_run (to_json ex_ops) ex_poll 10 ex_snap) = Some ex_found"
    by (simp_all add: reconcile_run_def snapshot_ok_def ex_snap_def ex_provider_id decide_polled_def ex_poll_one
      v ex_citations decide_def total_output_def ex_found_def List.map_filter_simps)
qed

definition ex_clock :: recovery_clock where
  "ex_clock = \<lparr> rk_moment = 10, rk_claimed = 10, rk_applied = 20, rk_retired = 30, rk_wall1 = 0, rk_wall2 = 0 \<rparr>"

definition ex_taken :: agent_db where
  "ex_taken = ex_begun\<lparr>ag_runs := [ex_run\<lparr>ar_status := RReconciling, ar_expires_at := 60000010, ar_reconcile_epoch := 1,
     ar_provider_run_ids := [''p1''], ar_snapshots := Some ''s''\<rparr>]\<rparr>"

definition ex_held :: claim where
  "ex_held = \<lparr> cl_run_id = ''r'', cl_epoch = 1, cl_expires_at = 60000010, cl_active_run = Some ''r'', cl_requests = Some ''s'',
     cl_snapshot = ex_snap, cl_profile_id = ''h'', cl_has_endpoint = True, cl_model_failed = False \<rparr>"

lemma ex_open:
  assumes "ag_messages db = [ex_in]" "ag_whatsapp db = []" "ar_output_message_id r = None" "ar_effect_keys r = []"
    "ar_id r = ''r''" "ar_provider_run_ids r = [''p1'']"
  shows "durable_of db r ex_in p = Inr None"
    and "run_snapshot_of db r co ex_in None = Inr (ex_snap\<lparr>rn_expires_at := ar_expires_at r, rn_request := None\<rparr>)"
proof -
  have "durable_rows db r ex_in = []" using assms by (simp add: durable_rows_def present_def ex_in_def)
  then show "durable_of db r ex_in p = Inr None" by (simp add: durable_of_def)
  have "am_content ex_in = ''hi''" "am_channel ex_in = ''whatsapp''" "am_id ex_in = ''m''" by (simp_all add: ex_in_def)
  then show "run_snapshot_of db r co ex_in None = Inr (ex_snap\<lparr>rn_expires_at := ar_expires_at r, rn_request := None\<rparr>)"
    using assms by (simp add: run_snapshot_of_def receipts_of_def Let_def ex_required ex_snap_def)
qed

lemma ex_stuck_claim: "claim_run ex_ops ex_recovery ex_stuck 0 None 10 10 ''r'' = (None, CClaimed ex_held ex_taken)"
proof -
  let ?r = "hd (ag_runs ex_stuck)" and ?c = "ex_conv\<lparr>cv_active_run := Some ''r''\<rparr>" and ?p = "hd (ag_profiles ex_shop)"
  have f: "ag_messages ex_stuck = [ex_in]" "ag_whatsapp ex_stuck = []" "ar_output_message_id ?r = None" "ar_effect_keys ?r = []"
    "ar_id ?r = ''r''" "ar_provider_run_ids ?r = [''p1'']" "ar_snapshots ?r = Some ''s''" "ar_expires_at ?r = 5"
    "ar_status ?r = RExpired" "ar_reconcile_epoch ?r = 0"
    by (simp_all add: ex_stuck_def ex_begun_def ex_shop_def ex_run_def)
  have "claim_checks ex_ops ex_recovery ex_stuck ?r (Some ?c) = Inr (ex_snap, ?p, None, ?c)"
    by (simp add: claim_checks_def ex_stuck_context ex_open[OF f(1-6)] ex_kept_requests f)
      (simp add: ex_ops_def ex_snap_def)
  then show ?thesis
    by (simp add: claim_run_def ex_stuck_lock f ex_lease_seconds ex_held_def Let_def)
      (simp add: ex_shop_def ex_taken_def ex_stuck_def set_run_def tbl_upd_def ex_run_def)
qed

lemma ex_taken_apply:
  "\<exists>d' db'. apply_run ex_ops ex_recovery ex_taken 0 None 20 30 ''o'' ex_held
     (reconcile_run (to_json ex_ops) ex_poll 10 ex_snap) = (None, CDecided d' db')
    \<and> recovered_row ex_found 20 ''o'' (hd (ag_runs ex_taken)) ex_in (hd (ag_profiles ex_shop)) \<in> set (ag_messages db')"
proof -
  let ?r = "hd (ag_runs ex_taken)" and ?c = "ex_conv\<lparr>cv_active_run := Some ''r''\<rparr>" and ?p = "hd (ag_profiles ex_shop)"
  have f: "ag_messages ex_taken = [ex_in]" "ag_whatsapp ex_taken = []" "ar_output_message_id ?r = None" "ar_effect_keys ?r = []"
    "ar_id ?r = ''r''" "ar_provider_run_ids ?r = [''p1'']" "ar_snapshots ?r = Some ''s''" "ar_expires_at ?r = 60000010"
    "ar_status ?r = RReconciling" "ar_reconcile_epoch ?r = 1"
    by (simp_all add: ex_taken_def ex_begun_def ex_shop_def ex_run_def)
  have l: "lock_run ex_taken ''r'' = (Some ?r, Some ?c)"
    by (rule ex_lock) (simp_all add: ex_taken_def ex_begun_def ex_run_def)
  have c: "authorized_context ex_ops ex_recovery ex_taken ?r (Some ?c) = Inr (ex_in, ?p)"
    by (rule ex_context) (simp_all add: ex_taken_def ex_begun_def ex_run_def tbl_find_def ex_in_def)
  have h: "claim_holds ex_held ?r ?c" by (simp add: claim_holds_def ex_held_def f) (simp add: ex_snap_def ex_conv_def)
  have e: "\<not> claim_expired ex_held ?r 20" "\<not> claim_expired ex_held ?r 30" by (simp_all add: claim_expired_def ex_held_def f)
  have p: "hp_id ?p = cl_profile_id ex_held" by (simp add: ex_held_def ex_shop_def)
  have nd: "rn_durable (cl_snapshot ex_held) = None" by (simp add: ex_held_def ex_snap_def)
  note vr = ex_kept_requests[OF f(7,6)]
  obtain d' where a: "apply_decision ex_ops ex_recovery ex_taken 20 ''o'' ex_held (reconcile_run (to_json ex_ops) ex_poll 10 ex_snap) ?r ?c
      = Inr (d', persist_output ex_found 20 ''o'' ?r ex_in ?p ex_taken)"
    by (simp add: apply_decision_def c p ex_open[OF f(1-6)] vr nd ex_decision)
  have rid: "cl_run_id ex_held = ''r''" by (simp add: ex_held_def)
  show ?thesis by (simp add: apply_run_def rid l h e a persist_messages)
qed

theorem recovered_answer_is_the_providers_witness:
  "\<exists>f' d' db'. reconcile_application_run ex_ops ex_recovery ex_poll id ex_clock None ''o'' ''r'' ex_stuck = (f', Some d', db')
     \<and> (\<exists>m \<in> set (ag_messages db'). am_id m = ''o'' \<and> (\<exists>i. answered ex_poll i (am_content m)))"
proof -
  obtain d' db' where ap: "apply_run ex_ops ex_recovery ex_taken 0 None 20 30 ''o'' ex_held
     (reconcile_run (to_json ex_ops) ex_poll 10 ex_snap) = (None, CDecided d' db')"
    and m: "recovered_row ex_found 20 ''o'' (hd (ag_runs ex_taken)) ex_in (hd (ag_profiles ex_shop)) \<in> set (ag_messages db')"
    using ex_taken_apply by blast
  have k: "rk_moment ex_clock = 10" "rk_claimed ex_clock = 10" "rk_applied ex_clock = 20" "rk_retired ex_clock = 30"
    "rk_wall1 ex_clock = 0" "rk_wall2 ex_clock = 0" by (simp_all add: ex_clock_def)
  have h: "cl_has_endpoint ex_held" "cl_snapshot ex_held = ex_snap" by (simp_all add: ex_held_def)
  have run: "reconcile_application_run ex_ops ex_recovery ex_poll id ex_clock None ''o'' ''r'' ex_stuck = (None, Some d', db')"
    by (simp add: reconcile_application_run_def k ex_stuck_claim h ap Let_def)
  have fr: "fresh_message ''o'' ex_stuck" by (simp add: fresh_message_def ex_stuck_def ex_begun_def ex_in_def)
  show ?thesis
    using recovered_answer_is_the_providers[OF run fr _ m] run m recovered_row_view(2) by (metis id_apply)
qed

end
