(* ===== verification/ActionExamples.thy ===== *)
theory ActionExamples
  imports ActionSafety TurnExamples
begin

text \<open>A concrete instance of the parameters of AgentActions that has their documented laws, and a concrete confirmed
  write: the witnesses of theory ActionSafety.\<close>

section \<open>A self-delimiting code of JSON values\<close>

definition nibble :: "nat \<Rightarrow> char" where
  "nibble n = char_of (n + 65)"

fun esc :: "string \<Rightarrow> string" where
  "esc [] = ''!''"
| "esc (c # s) = nibble (code c div 16) # nibble (code c mod 16) # esc s"

fun unesc :: "string \<Rightarrow> (string \<times> string) option" where
  "unesc (a # r) = (if a = CHR ''!'' then Some ([], r) else (case r of
     [] \<Rightarrow> None
   | b # r' \<Rightarrow> (case unesc r' of None \<Rightarrow> None
      | Some (s, t) \<Rightarrow> Some (char_of ((code a - 65) * 16 + (code b - 65)) # s, t))))"
| "unesc [] = None"

lemma code_nibble: "n < 16 \<Longrightarrow> code (nibble n) = n + 65"
  by (simp add: nibble_def code_def of_char_of)

lemma nibble_not: "n < 16 \<Longrightarrow> code c < 65 \<or> 81 \<le> code c \<Longrightarrow> nibble n \<noteq> c"
  using code_nibble[of n] by auto

lemma code_byte: "code c < 256"
  by (simp add: code_def)

lemma unesc_esc: "unesc (esc s @ r) = Some (s, r)"
proof (induction s)
  case Nil
  then show ?case by simp
next
  case (Cons c s)
  have b: "code c div 16 < 16" "code c mod 16 < 16" using code_byte[of c] by auto
  have "char_of ((code c div 16) * 16 + code c mod 16) = c" by (simp add: code_def)
  moreover have "nibble (code c div 16) \<noteq> CHR ''!''" by (rule nibble_not[OF b(1)]) (simp add: code_def)
  ultimately show ?case using Cons b by (simp add: code_nibble)
qed

lemma esc_inj: "esc s @ r = esc t @ r' \<Longrightarrow> s = t \<and> r = r'"
  by (metis unesc_esc option.inject prod.inject)

lemma esc_chars: "c \<in> set (esc s) \<Longrightarrow> c = CHR ''!'' \<or> (65 \<le> code c \<and> code c < 81)"
proof (induction s)
  case (Cons x s)
  have b: "code x div 16 < 16" "code x mod 16 < 16" using code_byte[of x] by auto
  show ?case using Cons.prems Cons.IH code_nibble[OF b(1)] code_nibble[OF b(2)] b by auto
qed simp

fun code_of :: "pyval \<Rightarrow> string" where
  "code_of PNone = ''n''"
| "code_of (PInt i) = ''i'' @ esc (show_int i)"
| "code_of (PStr s) = ''s'' @ esc s"
| "code_of (PDict d) = ''d'' @ concat (map (\<lambda>(k, v). esc k @ code_of v) d) @ ''}''"
| "code_of (PBool _) = ''z''"
| "code_of (PFloat _) = ''z''"
| "code_of (PList _) = ''z''"

abbreviation body :: "(string \<times> pyval) list \<Rightarrow> string" where
  "body d \<equiv> concat (map (\<lambda>(k, v). esc k @ code_of v) d)"

lemma esc_hd: "esc k @ r \<noteq> CHR ''}'' # s"
  using esc_chars[of "hd (esc k)" k] by (cases k) (auto simp: code_def)

lemma body_inj:
  assumes "\<forall>kv \<in> set d. \<forall>w r r'. code_of (snd kv) @ r = code_of w @ r' \<longrightarrow> code_of (snd kv) = code_of w \<and> r = r'"
    "body d @ ''}'' @ r = body d' @ ''}'' @ r'"
  shows "map (map_prod id code_of) d = map (map_prod id code_of) d' \<and> r = r'"
  using assms
proof (induction d arbitrary: d')
  case Nil
  then show ?case by (cases d') (auto simp: esc_hd dest: sym[THEN notE[OF esc_hd]])
next
  case (Cons kv d)
  obtain k v where kv: "kv = (k, v)" by (cases kv)
  obtain k' v' e where d': "d' = (k', v') # e"
  proof (cases d')
    case Nil
    then show ?thesis using Cons.prems(2) kv by (simp add: esc_hd)
  qed auto
  have 1: "k = k'" "code_of v @ body d @ ''}'' @ r = code_of v' @ body e @ ''}'' @ r'"
    using esc_inj[of k "code_of v @ body d @ ''}'' @ r" k' "code_of v' @ body e @ ''}'' @ r'"] Cons.prems(2)
    by (simp_all add: kv d')
  moreover have "\<forall>w r r'. code_of v @ r = code_of w @ r' \<longrightarrow> code_of v = code_of w \<and> r = r'"
    using Cons.prems(1) unfolding kv by (metis list.set_intros(1) snd_conv)
  ultimately have 2: "code_of v = code_of v'" "body d @ ''}'' @ r = body e @ ''}'' @ r'" by blast+
  have "map (map_prod id code_of) d = map (map_prod id code_of) e \<and> r = r'"
    by (rule Cons.IH[OF _ 2(2)]) (use Cons.prems(1) in \<open>meson list.set_intros(2)\<close>)
  then show ?case using 1(1) 2(1) by (metis kv d' list.simps(9) map_prod_simp)
qed

lemma code_of_prefix: "code_of v @ r = code_of w @ r' \<Longrightarrow> code_of v = code_of w \<and> r = r'"
proof (induction v arbitrary: w r r' rule: code_of.induct)
  case (4 d)
  then obtain d' where w: "w = PDict d'" by (cases w) auto
  have "map (map_prod id code_of) d = map (map_prod id code_of) d' \<and> r = r'"
  proof (rule body_inj)
    show "\<forall>kv \<in> set d. \<forall>w r r'. code_of (snd kv) @ r = code_of w @ r' \<longrightarrow> code_of (snd kv) = code_of w \<and> r = r'"
      using "4.IH" by (metis prod.collapse)
    show "body d @ ''}'' @ r = body d' @ ''}'' @ r'" using "4.prems" w by simp
  qed
  moreover have "body d = body d'" if "map (map_prod id code_of) d = map (map_prod id code_of) d'"
    using arg_cong[OF that, of "\<lambda>x. concat (map (\<lambda>(k, c). esc k @ c) x)"] by (simp add: comp_def case_prod_unfold)
  ultimately show ?case using w by simp
next
  case (2 i)
  then obtain j where "w = PInt j" by (cases w) auto
  then show ?case using 2 esc_inj[of "show_int i" r "show_int j" r'] by auto
next
  case (3 s)
  then obtain t where "w = PStr t" by (cases w) auto
  then show ?case using 3 esc_inj[of s r t r'] by auto
next
  case 1
  then show ?case by (cases w) simp_all
next
  case (5 v)
  then show ?case by (cases w) simp_all
next
  case (6 v)
  then show ?case by (cases w) simp_all
next
  case (7 v)
  then show ?case by (cases w) simp_all
qed


lemma code_of_dict:
  assumes "code_of (PDict d) = code_of (PDict d')"
  shows "code_of (dict_get d k) = code_of (dict_get d' k)"
proof -
  have m: "map (map_prod id code_of) d = map (map_prod id code_of) d'"
    using body_inj[of d "[]" d' "[]"] code_of_prefix assms by simp
  have "map_of (map (map_prod id code_of) x) k = map_option code_of (map_of x k)" for x :: "(string \<times> pyval) list"
    by (induction x) auto
  then have e: "map_option code_of (map_of d k) = map_option code_of (map_of d' k)" using m by metis
  then show ?thesis by (cases "map_of d k"; cases "map_of d' k") (simp_all add: dict_get_def)
qed

lemma code_of_dot: "CHR ''.'' \<notin> set (code_of v)"
proof -
  have "CHR ''.'' \<notin> set (esc s)" for s using esc_chars[of "CHR ''.''" s] by (auto simp: code_def)
  then show ?thesis by (induction v rule: code_of.induct) auto
qed

section \<open>Its reader on flat dictionaries\<close>

fun read_value :: "string \<Rightarrow> (pyval \<times> string) option" where
  "read_value [] = None"
| "read_value (c # r) = (if c = CHR ''n'' then Some (PNone, r) else (case unesc r of
     None \<Rightarrow> None
   | Some (s, t) \<Rightarrow> if c = CHR ''s'' then Some (PStr s, t)
       else if c = CHR ''i'' then map_option (\<lambda>i. (PInt i, t)) (py_int s) else None))"

fun read_body :: "nat \<Rightarrow> string \<Rightarrow> (string \<times> pyval) list option" where
  "read_body 0 _ = None"
| "read_body (Suc n) s = (if take 1 s = ''}'' then Some [] else (case unesc s of
     None \<Rightarrow> None
   | Some (k, r) \<Rightarrow> (case read_value r of
       None \<Rightarrow> None
     | Some (v, t) \<Rightarrow> map_option (Cons (k, v)) (read_body n t))))"

definition read_code :: "string \<Rightarrow> pyval option" where
  "read_code s = (case s of [] \<Rightarrow> None | c # r \<Rightarrow> if c = CHR ''d'' then map_option PDict (read_body (length r) r) else None)"

lemma read_value_code: "flat v \<Longrightarrow> read_value (code_of v @ r) = Some (v, r)"
  by (cases v) (simp_all add: unesc_esc py_int_show_int)

lemma read_body_code:
  assumes "list_all (\<lambda>kv. flat (snd kv)) d" "length d < n"
  shows "read_body n (body d @ ''}'') = Some d"
  using assms
proof (induction d arbitrary: n)
  case Nil
  then show ?case by (cases n) simp_all
next
  case (Cons kv d)
  obtain k v where kv: "kv = (k, v)" by (cases kv)
  obtain m where n: "n = Suc m" using Cons.prems(2) by (cases n) auto
  have "take 1 (esc k @ x) \<noteq> ''}''" for x using esc_hd[of k x] by (cases "esc k @ x") auto
  then show ?case using Cons kv n by (simp add: unesc_esc read_value_code del: take_append)
qed

lemma length_body: "length d \<le> length (body d)"
proof (induction d)
  case (Cons kv d)
  have "0 < length (esc k)" for k by (cases k) simp_all
  then show ?case using Cons by (cases kv) (simp add: Suc_le_eq add_strict_increasing)
qed simp

lemma read_code_of: "list_all (\<lambda>kv. flat (snd kv)) d \<Longrightarrow> read_code (code_of (PDict d)) = Some (PDict d)"
  using read_body_code[of d "Suc (length (body d))"] length_body[of d] by (simp add: read_code_def le_imp_less_Suc)

section \<open>The parameters\<close>

text \<open>Signatures and digests are the code itself: they have the laws and hide nothing.\<close>

definition ex_action_ops :: action_ops where
  "ex_action_ops = \<lparr> ao_encode = code_of, ao_decode = read_code, ao_sign = (\<lambda>d _. esc d), ao_sha = (\<lambda>s. s), ao_digest = code_of,
     ao_serialize = (\<lambda>v. Some (code_of v, length (code_of v))), ao_str = code_of, ao_acquire = (\<lambda>_. Inr (''token'', None)),
     ao_connector = (\<lambda>_ _ _. Inr (PStr ''sent'')) \<rparr>"

lemma esc_ascii: "ascii (esc s)"
  using esc_chars by (fastforce simp: ascii_def list_all_iff code_def)

lemma esc_eq: "esc s = esc t \<Longrightarrow> s = t"
  using esc_inj[of s "[]" t "[]"] by simp

lemma ex_token_laws: "token_laws ex_action_ops"
  unfolding token_laws_def ex_action_ops_def action_ops.simps
  using read_code_of code_of_dot esc_ascii esc_eq by blast

lemma code_of_opt: "code_of (opt_str x) = code_of (opt_str y) \<Longrightarrow> x = y"
  by (cases x; cases y) (auto simp: opt_str_def dest: esc_eq)

lemma ex_digest_laws: "digest_laws ex_action_ops"
  unfolding digest_laws_def ex_action_ops_def action_ops.simps using code_of_dict code_of_opt by blast

theorem context_token_round_trip_witness:
  "read_context ex_action_ops 7200000000
      (create_action_context_token ex_action_ops 0 ''q'' ''t'' ''u'' ''c'' ''web'' (Some ''m'') (Some ''r'') ForMemory) ''t'' ForMemory \<noteq> None
   \<and> read_context ex_action_ops 0
      (create_action_context_token ex_action_ops 0 ''q'' ''t'' ''u'' ''c'' ''web'' (Some ''m'') (Some ''r'') ForMemory) ''t'' ForActions = None"
  by (simp add: context_token_round_trip[OF ex_token_laws] unix_def)

section \<open>A confirmed mail\<close>

lemma code_of_ascii: "ascii (code_of v)"
proof -
  have "\<forall>c \<in> set (esc s). code c < 128" for s using esc_ascii[of s] by (simp add: ascii_def list_all_iff)
  then show ?thesis by (induction v rule: code_of.induct) (auto simp: ascii_def list_all_iff code_def)
qed

definition ex_mail :: mcp_connection where
  "ex_mail = \<lparr> mc_id = ''g'', mc_tenant_id = ''t'', mc_created_by = None, mc_provider = ''gmail'', mc_status = CActive,
     mc_encrypted_credentials = Some ''k'', mc_scopes = [], mc_allowed_resources = [], mc_read_only = False, mc_admin_approved = True \<rparr>"

definition ex_sending :: tool_permission where
  "ex_sending = \<lparr> tp_id = ''p1'', tp_tenant_id = ''t'', tp_connection_id = ''g'', tp_tool = ''send_message'', tp_permission = ToolWrite \<rparr>"

definition ex_revision :: string where
  "ex_revision = ao_digest ex_action_ops (PDict (authorization_data ex_action_ops ex_mail ex_sending None))"

definition ex_binding :: "(string \<times> pyval) list" where
  "ex_binding = [(''conversation_id'', PStr ''c''), (''channel'', PStr ''whatsapp''), (''lane'', PStr ''local''), (''waba'', PStr ''w''),
     (''receiver'', PStr ''p''), (''actor_identity_id'', PStr ''i''), (''initiating_message_id'', PStr ''m''),
     (''execution_run_id'', PStr ''r'')]"

definition ex_preview :: pending_action where
  "ex_preview = \<lparr> pa_id = ''a'', pa_tenant_id = ''t'', pa_user_id = ''u'', pa_conversation_id = Some ''c'', pa_connection_id = Some ''g'',
     pa_tool = ''send_message'', pa_target = ''mail'', pa_input = PDict [(''to'', PStr ''x@y.z'')], pa_result = None, pa_status = APending,
     pa_key = ''k'', pa_revision = Some ex_revision, pa_binding = ex_binding, pa_token_hash = [], pa_expires_at = 900, pa_confirmed_at = None,
     pa_executed_at = None \<rparr>"

abbreviation ex_token :: string where
  "ex_token \<equiv> confirmation_token ex_action_ops ex_preview"

definition ex_action :: "action_status \<Rightarrow> time option \<Rightarrow> pending_action" where
  "ex_action st c = ex_preview\<lparr>pa_status := st, pa_token_hash := ex_token, pa_confirmed_at := c\<rparr>"

definition ex_pending :: agent_db where
  "ex_pending = ex_begun\<lparr>ag_connections := [ex_mail], ag_permissions := [ex_sending], ag_actions := [ex_action APending None]\<rparr>"

definition ex_confirmed :: agent_db where
  "ex_confirmed = add_event (action_event (ex_action APending None) ''confirmed'' None)
     (ex_pending\<lparr>ag_actions := [ex_action AExecuting (Some 5)]\<rparr>)"

lemma ex_token_ascii: "ascii ex_token"
proof -
  have "ao_encode ex_action_ops = code_of" "ao_sign ex_action_ops d x = esc d" for d x by (simp_all add: ex_action_ops_def)
  moreover have "ascii (x @ ''.'' @ y) \<longleftrightarrow> ascii x \<and> ascii y" for x y by (simp add: ascii_def code_def)
  ultimately show ?thesis unfolding confirmation_token_def sealed_def using code_of_ascii esc_ascii by metis
qed

lemma ex_verify: "verify_confirmation_token ex_action_ops (ex_action st c) ex_token = Inr ()"
proof -
  have "confirmation_token ex_action_ops (ex_action st c) = ex_token" "pa_token_hash (ex_action st c) = ex_token"
    by (simp_all add: confirmation_token_def confirmation_payload_def exact_effect_def ex_action_def)
  moreover have "ao_sha ex_action_ops x = x" for x by (simp add: ex_action_ops_def)
  ultimately show ?thesis by (simp add: verify_confirmation_token_def ex_token_ascii)
qed

lemma ex_frame:
  assumes "db = ex_pending \<or> db = ex_confirmed"
  shows "ag_tenants db = ag_tenants ex_shop" "ag_users db = ag_users ex_shop" "ag_members db = ag_members ex_shop"
    "ag_phones db = ag_phones ex_shop" "ag_messages db = [ex_in]" "ag_runs db = [ex_run]" "ag_business db = []"
    "ag_conversations db = [ex_conv\<lparr>cv_active_run := Some ''r''\<rparr>]" "ag_connections db = [ex_mail]" "ag_permissions db = [ex_sending]"
  using assms by (auto simp: ex_confirmed_def ex_pending_def ex_begun_def ex_shop_def add_event_def)

lemma ex_source:
  assumes "db = ex_pending \<or> db = ex_confirmed"
  shows "validate_bound_source db (ex_action st c) = Inr ()"
proof -
  note f = ex_frame[OF assms]
  have b: "pa_binding (ex_action st c) = ex_binding" "pa_tenant_id (ex_action st c) = ''t''" "pa_user_id (ex_action st c) = ''u''"
    "pa_conversation_id (ex_action st c) = Some ''c''" by (simp_all add: ex_action_def ex_preview_def)
  have s: "approval_scope db (ex_action st c) ''c'' ''whatsapp'' (Some ''i'')"
    by (simp add: approval_scope_def b f tbl_find_def) (simp add: ex_binding_def ex_conv_def dict_get_def opt_str_def)
  have "approved_phone db ''i'' ''t'' ''u''" by (simp add: approved_phone_def f tbl_find_def) (simp add: ex_shop_def)
  then have v: "validate_approval_scope db (ex_action st c) ''c'' ''whatsapp'' (Some ''i'') = Inr ()"
    by (simp add: validate_approval_scope_def s b)
  have i: "source_intact db (ex_action st c) ''c'' ''whatsapp'' (Some ''i'') ''r'' ''m''"
    by (simp add: source_intact_def b f tbl_find_def) (simp add: ex_run_def ex_in_def)
  show ?thesis by (simp add: validate_bound_source_def b ex_binding_def dict_get_def actor_of_def v i)
qed

lemma ex_writer: "db = ex_pending \<or> db = ex_confirmed \<Longrightarrow> write_actor db ''t'' ''u''"
  by (simp add: write_actor_def ex_frame active_tenant_def active_user_def tbl_find_def) (simp add: ex_shop_def)

lemma ex_current:
  assumes "db = ex_pending \<or> db = ex_confirmed"
  shows "current_authorization ex_action_ops db (ex_action st c) = Inr ex_revision"
    and "authorize_mcp_tool db ''t'' ''g'' ''send_message'' True = Inr ex_mail"
  by (simp_all add: current_authorization_def authorization_revision_def authorize_mcp_tool_def find_permission_def ex_frame[OF assms]
      tbl_find_def business_state_def ex_action_def ex_preview_def ex_mail_def ex_sending_def ex_revision_def
      valid_tool_permission_def provider_tools_def)

definition ex_effect :: effect where
  "ex_effect = effect_of ex_preview"

lemma ex_found_action:
  "find_action ex_pending ''a'' ''t'' ''u'' = Some (ex_action APending None)"
  "find_action ex_confirmed ''a'' ''t'' ''u'' = Some (ex_action AExecuting (Some 5))"
  by (simp_all add: find_action_def tbl_find_def ex_pending_def ex_confirmed_def ex_action_def ex_preview_def row_simps)

lemma ex_revision_some: "pa_revision (ex_action st c) = Some ex_revision" "ex_revision \<noteq> []"
  by (simp_all add: ex_action_def ex_preview_def) (simp add: ex_revision_def ex_action_ops_def)

lemma ex_decide:
  "decide_pending_action ex_action_ops ex_pending 5 ''a'' ''t'' ''u'' ex_token ''confirm'' = DecideExecuting ex_confirmed"
proof -
  have "set_action ''a'' (\<lambda>x. x\<lparr>pa_status := AExecuting, pa_confirmed_at := Some 5\<rparr>) ex_pending
      = ex_pending\<lparr>ag_actions := [ex_action AExecuting (Some 5)]\<rparr>"
    by (simp add: set_action_def ex_pending_def tbl_upd_def ex_action_def ex_preview_def)
  moreover have "pa_status (ex_action APending None) = APending" "pa_expires_at (ex_action APending None) = 900"
    by (simp_all add: ex_action_def ex_preview_def)
  ultimately show ?thesis
    by (simp add: decide_pending_action_def ex_found_action ex_verify ex_source require_write_actor_def ex_writer
        ex_current ex_revision_some and_then_def ex_confirmed_def)
qed

lemma ex_before:
  "n < 900 \<Longrightarrow> before_dispatch ex_action_ops ex_confirmed n None ''a'' ''t'' ''u'' ex_token = (None, Inr (ex_action AExecuting (Some 5)))"
proof -
  assume "n < 900"
  moreover have "pa_status (ex_action AExecuting (Some 5)) = AExecuting" "pa_expires_at (ex_action AExecuting (Some 5)) = 900"
    by (simp_all add: ex_action_def ex_preview_def)
  ultimately show ?thesis
    by (simp add: before_dispatch_def ex_found_action ex_verify ex_source require_write_actor_def ex_writer
        ex_current ex_revision_some and_then_def)
qed

lemma ex_dispatch:
  "\<exists>out. dispatch_action ex_action_ops ex_confirmed 6 7 8 None ''a'' ''t'' ''u'' ex_token = (None, Some ex_effect, out)"
proof -
  have e: "effect_of (ex_action st c) = ex_effect" "pa_connection_id (ex_action st c) = Some ''g''"
    "pa_tool (ex_action st c) = ''send_message''" "ef_connection ex_effect = ''g''" for st c
    by (simp_all add: effect_of_def ex_action_def ex_effect_def ex_preview_def)
  have o: "ao_acquire ex_action_ops x = Inr (''token'', None)" "ao_connector ex_action_ops x w y = Inr (PStr ''sent'')" for x w y by (simp_all add: ex_action_ops_def)
  show ?thesis
    by (simp add: dispatch_action_def ex_found_action e ex_before connector_write_def ex_current o)
qed

theorem confirmed_effect_is_exact_witness:
  "authorization_revision ex_action_ops ex_confirmed ''t'' ''g'' ''send_message'' = Inr ex_revision
   \<and> (\<exists>out. dispatch_action ex_action_ops ex_confirmed 6 7 8 None ''a'' ''t'' ''u'' ex_token = (None, Some ex_effect, out))"
proof -
  obtain out where d: "dispatch_action ex_action_ops ex_confirmed 6 7 8 None ''a'' ''t'' ''u'' ex_token = (None, Some ex_effect, out)"
    using ex_dispatch by blast
  have r: "pa_revision ex_preview = Some ex_revision" by (simp add: ex_preview_def)
  have e: "ef_connection ex_effect = ''g''" "ef_tool ex_effect = ''send_message''"
    by (simp_all add: ex_effect_def effect_of_def ex_preview_def)
  show ?thesis
    using confirmed_effect_is_exact[OF ex_token_laws ex_digest_laws _ d] ex_revision_some(2) d by (auto simp: r e)
qed

theorem executed_at_most_once_witness:
  "\<exists>s. reach action_init action_step s \<and> (''a'', ex_effect) \<in> set (as_sent s)
     \<and> length (filter (\<lambda>x. fst x = ''a'') (as_sent s)) \<le> 1"
proof -
  let ?s = "\<lparr>as_db = ex_pending, as_open = [], as_sent = []\<rparr>"
  obtain out where d: "dispatch_action ex_action_ops ex_confirmed 6 7 8 None ''a'' ''t'' ''u'' ex_token = (None, Some ex_effect, out)"
    using ex_dispatch by blast
  have "reach action_init action_step ?s" by (rule reach_init) (simp add: action_init_def)
  moreover have "action_step ?s \<lparr>as_db = ex_confirmed, as_open = [''a''], as_sent = []\<rparr>"
    using a_confirm[of ex_action_ops ?s] ex_decide by simp
  moreover have "action_step \<lparr>as_db = ex_confirmed, as_open = [''a''], as_sent = []\<rparr>
      \<lparr>as_db = outcome_db out, as_open = [], as_sent = [(''a'', ex_effect)]\<rparr>"
    using a_dispatch[of "''a''" "\<lparr>as_db = ex_confirmed, as_open = [''a''], as_sent = []\<rparr>" ex_action_ops 6 7 8 None "''t''" "''u''"
      ex_token None "Some ex_effect" out] d by (simp add: sent_list_def)
  ultimately have r: "reach action_init action_step \<lparr>as_db = outcome_db out, as_open = [], as_sent = [(''a'', ex_effect)]\<rparr>"
    by (meson reach_step)
  show ?thesis
    using executed_at_most_once[OF r, of "''a''"] r by (intro exI[of _ "\<lparr>as_db = outcome_db out, as_open = [], as_sent = [(''a'', ex_effect)]\<rparr>"]) simp
qed

end
