(* ===== verification/ConnectorExamples.thy ===== *)
theory ConnectorExamples
  imports ConnectorSafety ActionExamples
begin

text \<open>Concrete connector calls: the witnesses of theory ConnectorSafety.\<close>

definition ex_http :: conn_ops where
  "ex_http = \<lparr> cn_send = (\<lambda>_ _. Reply 200 []), cn_loads = (\<lambda>_. Some (PDict [])), cn_dumps = code_of, cn_str = code_of,
     cn_casefold = lower, cn_text = (\<lambda>_. []), cn_part = Some, cn_redact = (\<lambda>s. s), cn_mail = (\<lambda>_ _ _ _. Some [1]) \<rparr>"

definition ex_oauth :: oauth_ops where
  "ex_oauth = \<lparr> oo_send = (\<lambda>_. FormBroken), oo_loads = (\<lambda>_. None), oo_read = (\<lambda>t. read_code (map char_of t)), oo_dumps = code_of,
     oo_sha = ex_derive, oo_aead = ex_aead, oo_str = code_of \<rparr>"

lemma ex_oauth_ops: "oo_aead ex_oauth = ex_aead" "oo_read ex_oauth (to_utext s) = read_code s" "oo_dumps ex_oauth = code_of"
  by (simp_all add: ex_oauth_def to_utext_def code_def comp_def)

lemma ex_json_laws: "json_laws ex_oauth"
proof -
  have flat: "list_all (\<lambda>kv. flat (snd kv)) d"
    if "list_all (\<lambda>kv. case snd kv of PStr _ \<Rightarrow> True | PInt _ \<Rightarrow> True | _ \<Rightarrow> False) d" for d :: "(string \<times> pyval) list"
    using that by (rule list.pred_mono_strong) (simp split: pyval.splits)
  show ?thesis unfolding json_laws_def ex_oauth_ops using read_code_of flat by blast
qed

definition ex_ring :: field_cipher where
  "ex_ring = \<lparr> fc_current = ''k2'', fc_keys = [(''k2'', ex_derive ''s3'')], fc_write = V2 \<rparr>"

lemma ex_ring_made: "make_cipher ex_derive ''s3'' ''k2'' [] V2 = Inr ex_ring"
  by (simp add: make_cipher_def ex_ring_def valid_key_id_def key_id_char_def is_alnum_def is_digit_def is_upper_def is_lower_def code_def)

definition ex_oauth_settings :: oauth_settings where
  "ex_oauth_settings = \<lparr> os_google_enabled = True, os_google_id = Some ''id'', os_google_secret = Some ''secret'', os_meta_enabled = False,
     os_meta_id = None, os_meta_secret = None, os_graph_version = ''v23.0'', os_callback_url = ''https://a.b/c'', os_state_ttl = 600,
     os_max_response = 65536 \<rparr>"

definition ex_verifier :: string where
  "ex_verifier = replicate 43 CHR ''v''"

theorem oauth_state_round_trip_witness:
  "\<exists>u state. build_authorization_url ex_oauth ex_oauth_settings ex_ring 0 ex_verifier (replicate 12 7) ''g'' ''t'' ''u'' ''gmail'' True = Inr (u, 600)
     \<and> (length state \<le> 8192 \<longrightarrow> is_ok (decode_oauth_state ex_oauth ex_ring 600000000 state) \<and> \<not> is_ok (decode_oauth_state ex_oauth ex_ring 601000000 state))"
proof -
  have a: "aead_laws (oo_aead ex_oauth)" by (simp add: ex_oauth_ops ex_aead_laws)
  obtain client where cl: "oauth_client_of ex_oauth_settings ''gmail'' = Some client"
    by (simp add: oauth_client_of_def ex_oauth_settings_def make_client_def text_or_empty_def)
  have ttl: "unix (0 + seconds (os_state_ttl ex_oauth_settings)) = 600" by (simp add: unix_def seconds_def ex_oauth_settings_def)
  obtain u where u: "build_authorization_url ex_oauth ex_oauth_settings ex_ring 0 ex_verifier (replicate 12 7) ''g'' ''t'' ''u'' ''gmail'' True
      = Inr (u, 600)"
  proof -
    let ?s = "\<lparr> st_connection_id = ''g'', st_tenant_id = ''t'', st_user_id = ''u'', st_provider = ''gmail'', st_verifier = ex_verifier,
      st_expires_at = 600 \<rparr>"
    obtain e where "encrypt (oo_aead ex_oauth) ex_ring (replicate 12 7) (to_utext (oo_dumps ex_oauth (PDict (state_payload ?s)))) = Inr e"
      using encrypt_decrypt[OF a make_cipher_good[OF ex_ring_made] _ to_utext_scalar, of "replicate 12 7"] by auto
    then show ?thesis by (intro that) (simp only: build_authorization_url_def cl ttl Let_def option.case sum.case)
  qed
  have v: "43 \<le> length ex_verifier" "length ex_verifier \<le> 128" by (simp_all add: ex_verifier_def)
  have p: "provider_tools ''gmail'' \<noteq> None" by (simp add: provider_tools_def)
  obtain state where "length state \<le> 8192 \<longrightarrow> (\<forall>now'. decode_oauth_state ex_oauth ex_ring now' state = (if unix now' \<le> 600
      then Inr \<lparr> st_connection_id = ''g'', st_tenant_id = ''t'', st_user_id = ''u'', st_provider = ''gmail'',
        st_verifier = ex_verifier, st_expires_at = 600 \<rparr> else Inl (OAuthError ''OAuth state is invalid or expired'')))"
    using oauth_state_round_trip[OF a ex_ring_made _ ex_json_laws _ _ _ v p u] by auto
  then show ?thesis using u by (intro exI[of _ u] exI[of _ state]) (simp add: unix_def)
qed

section \<open>A mail to an allowed domain\<close>

definition ex_env :: connector_env where
  "ex_env = \<lparr> ce_conn = ex_http, ce_oauth = ex_oauth\<lparr>oo_read := (\<lambda>_. Some (PDict [(''access_token'', PStr ''12345678'')]))\<rparr>,
     ce_settings = ex_oauth_settings, ce_cipher = ex_ring, ce_split = (\<lambda>_. None), ce_is_ip = (\<lambda>_. False) \<rparr>"

definition ex_values :: "string \<Rightarrow> (string \<times> pyval) list" where
  "ex_values recipient = [(''to'', PStr recipient), (''subject'', PStr ''s''), (''body'', PStr ''b'')]"

definition ex_call :: connector_call where
  "ex_call = \<lparr> cl_tenant = ''t'', cl_connection = ''g'', cl_tool = ''send_message'', cl_values = ex_values ''a@b'', cl_write = True,
     cl_key = Some ''k'' \<rparr>"

lemma ex_arg: "strip s = s \<Longrightarrow> s \<noteq> [] \<Longrightarrow> length s \<le> n \<Longrightarrow> map_of d k = Some (PStr s) \<Longrightarrow> string_arg d k n = Inr s"
  by (simp add: string_arg_def dict_get_def)

lemma ex_strips: "strip ''a@b'' = ''a@b''" "strip ''s'' = ''s''" "strip ''b'' = ''b''" "strip ''x@y'' = ''x@y''" "strip ''x@y,a@b'' = ''x@y,a@b''"
  by (simp_all add: strip_def lstrip_def is_space_def code_def)

lemma ex_domain: "recipient_domain ''a@b'' = ''b''"
  by (simp add: recipient_domain_def latin_lower_def is_upper_def code_def)

theorem recipient_allowlist_bypass_witness:
  "\<exists>raw. fst (gmail ex_http ''token'' [''gmail:recipient-domain:b''] ''send_message'' (ex_values ''x@y,a@b'') (Some ''k'') [])
      = [post_call ''token'' (gmail_messages @ ''/send'') [] raw] \<and> mail_recipients ''x@y,a@b'' = [''x@y'', ''a@b'']"
proof -
  have s: "string_arg (ex_values ''x@y,a@b'') ''subject'' 500 = Inr ''s''" "string_arg (ex_values ''x@y,a@b'') ''body'' 50000 = Inr ''b''"
    by (rule ex_arg; simp add: ex_strips ex_values_def)+
  have "''gmail:recipient-domain:'' @ recipient_domain ''a@b'' \<in> set [''gmail:recipient-domain:b'']" by (simp add: ex_domain)
  moreover have "dict_get (ex_values ''x@y,a@b'') ''to'' = PStr (''x@y'' @ '','' @ ''a@b'')" by (simp add: ex_values_def dict_get_def)
  moreover have "cn_mail ex_http (''x@y'' @ '','' @ ''a@b'') ''s'' (message_id (Some ''k'')) ''b'' = Some [1]" by (simp add: ex_http_def)
  ultimately show ?thesis
    using recipient_allowlist_bypass[of "''a@b''" "[''gmail:recipient-domain:b'']" "ex_values ''x@y,a@b''" "''x@y''" "''s''" "''b''" ex_http
      "Some ''k''" "[1]" "''token''", OF _ _ _ _ _ _ _ _ _ s] by (auto simp: ex_strips)
qed

definition ex_mailbox :: "string \<Rightarrow> agent_db" where
  "ex_mailbox e = ex_shop\<lparr>ag_connections := [ex_mail\<lparr>mc_encrypted_credentials := Some e, mc_allowed_resources := [''gmail:recipient-domain:b'']\<rparr>],
     ag_permissions := [ex_sending]\<rparr>"

lemma ex_executed:
  assumes "decrypt ex_aead ex_ring e = Inr t" "e \<noteq> []"
  shows "fst (execute_connector ex_env 0 [] id (\<lambda>_. None) ex_call (ex_mailbox e))
    = [post_call ''12345678'' (gmail_messages @ ''/send'') [] (PDict [(''raw'', PStr (strip_padding (b64_encode [1])))])]"
proof -
  let ?c = "ex_mail\<lparr>mc_encrypted_credentials := Some e, mc_allowed_resources := [''gmail:recipient-domain:b'']\<rparr>"
  have au: "authorize_mcp_tool (ex_mailbox e) ''t'' ''g'' ''send_message'' True = Inr ?c"
    using assms(2) by (simp add: authorize_mcp_tool_def ex_mailbox_def ex_mail_def ex_sending_def find_permission_def
      valid_tool_permission_def provider_tools_def)
  have st: "stored_bundle (ce_oauth ex_env) ex_ring (Some e) = Some [(''access_token'', PStr ''12345678'')]"
    by (simp add: stored_bundle_def ex_env_def ex_oauth_def assms(1) text_or_empty_def token_text_ok_def dict_get_def)
  have "\<not> token_due 0 [(''access_token'', PStr ''12345678'')]" by (simp add: token_due_def dict_get_def)
  moreover have "mc_provider ?c = ''gmail''" "mc_encrypted_credentials ?c = Some e" "ce_cipher ex_env = ex_ring"
    by (simp_all add: ex_mail_def ex_env_def)
  moreover have "oauth_str (ce_oauth ex_env) (dict_get [(''access_token'', PStr ''12345678'')] ''access_token'') = ''12345678''"
    by (simp add: dict_get_def oauth_str_def)
  ultimately have ac: "acquire ex_env 0 [] True ?c (ex_mailbox e) = (ex_mailbox e, Inr (''12345678'', None))"
    by (simp add: acquire_def access_token_def st)
  have cr: "stored_credentials (ex_mailbox e) ''g'' = Some e"
    by (simp add: stored_credentials_def ex_mailbox_def ex_mail_def tbl_find_def)
  have ar: "string_arg (ex_values ''a@b'') ''to'' 320 = Inr ''a@b''" "string_arg (ex_values ''a@b'') ''subject'' 500 = Inr ''s''"
    "string_arg (ex_values ''a@b'') ''body'' 50000 = Inr ''b''"
    by (rule ex_arg; simp add: ex_strips ex_values_def)+
  have q: "cl_tenant ex_call = ''t''" "cl_connection ex_call = ''g''" "cl_tool ex_call = ''send_message''" "cl_write ex_call = True"
    "cl_values ex_call = ex_values ''a@b''" "cl_key ex_call = Some ''k''" by (simp_all add: ex_call_def)
  have m: "mc_provider ?c = ''gmail''" "mc_id ?c = ''g''" by (simp_all add: ex_mail_def)
  have "fst (run_tool ex_env ?c ''12345678'' None ex_call []) = [post_call ''12345678'' (gmail_messages @ ''/send'') []
      (PDict [(''raw'', PStr (strip_padding (b64_encode [1])))])]"
    by (simp add: run_tool_def m q gmail_def gmail_send_def bind_pure ar require_resource_def ex_domain json_then_quiet quiet_ret
        del: b64_encode.simps) (simp add: ex_env_def ex_http_def json_then_quiet quiet_ret del: b64_encode.simps)
  then show ?thesis by (simp add: execute_connector_def q au ac Let_def cr m split: prod.split sum.split) auto
qed


end
