(* ===== verification/Ingress.thy ===== *)
theory Ingress
  imports AgentTurns JobAdmission Encoding
begin

text \<open>
  Durable ingress of WhatsApp webhooks: reading a provider envelope (\<^verbatim>\<open>app/services/whatsapp.py\<close>), the order of
  arrival of each participant's messages (\<^verbatim>\<open>app/services/ingress_ordering.py\<close>), the atomic claim of a
  batch with its jobs (\<^verbatim>\<open>app/services/whatsapp_webhook_ingress.py\<close>), the removal of call events
  (\<^verbatim>\<open>app/services/whatsapp_calls.py\<close>) and the webhook route (\<^verbatim>\<open>app/routes/whatsapp.py\<close>).

  Parameters (\<open>ingress_ops\<close>): SHA-256 of bytes as hexadecimal text, and \<^verbatim>\<open>str\<close> of JSON values that are no text.
  A payload is the dictionary that \<^verbatim>\<open>json.loads\<close> returned.
\<close>

section \<open>The tables\<close>

record webhook_event =
  wh_id :: ident
  wh_scope :: "string option"
  wh_sequence :: "int option"
  wh_provider :: string
  wh_external_id :: string
  wh_payload :: "(string \<times> pyval) list"
  wh_status :: string

record ingress_stream =
  is_scope :: string
  is_next :: int

record consent_row =
  cn_tenant_id :: ident
  cn_status :: string
  cn_policy :: string
  cn_actor :: "ident option"

record wa_db = agent_db +
  wd_webhooks :: "webhook_event list"
  wd_streams :: "ingress_stream list"
  wd_receipts :: "wa_event list"
  wd_consents :: "consent_row list"

lemma find_snoc: "find P (xs @ [e]) = (case find P xs of Some y \<Rightarrow> Some y | None \<Rightarrow> if P e then Some e else None)"
  by (induction xs) auto

definition terminal_receipts :: "string list" where
  "terminal_receipts = [''processed'', ''ignored'']"

record ingress_ops =
  io_sha :: "byte list \<Rightarrow> string"
  io_str :: "pyval \<Rightarrow> string"

definition utf8 :: "string \<Rightarrow> byte list" where
  "utf8 s = concat (map utf8_char (to_utext s))"

definition sha_text :: "ingress_ops \<Rightarrow> string \<Rightarrow> string" where
  "sha_text ops s = io_sha ops (utf8 s)"

definition to_text :: "ingress_ops \<Rightarrow> pyval \<Rightarrow> string" where
  "to_text ops v = (case v of PStr s \<Rightarrow> s | _ \<Rightarrow> io_str ops v)"

definition dict_or :: "(string \<times> pyval) list \<Rightarrow> string \<Rightarrow> pyval \<Rightarrow> pyval" where
  "dict_or d k v = (case map_of d k of None \<Rightarrow> v | Some x \<Rightarrow> x)"

section \<open>Reading an envelope\<close>

text \<open>\<^verbatim>\<open>v[k]\<close> and \<^verbatim>\<open>v[0]\<close>; \<open>None\<close> is a \<^verbatim>\<open>KeyError\<close>, \<^verbatim>\<open>IndexError\<close> or \<^verbatim>\<open>TypeError\<close>.\<close>

definition item :: "string \<Rightarrow> pyval \<Rightarrow> pyval option" where
  "item k v = (case v of PDict d \<Rightarrow> map_of d k | _ \<Rightarrow> None)"

definition item0 :: "pyval \<Rightarrow> pyval option" where
  "item0 v = (case v of PList (x # _) \<Rightarrow> Some x | PStr (c # _) \<Rightarrow> Some (PStr [c]) | _ \<Rightarrow> None)"

definition first_entry :: "(string \<times> pyval) list \<Rightarrow> pyval option" where
  "first_entry payload = Option.bind (map_of payload ''entry'') item0"

definition first_value :: "(string \<times> pyval) list \<Rightarrow> pyval option" where
  "first_value payload = Option.bind (first_entry payload) (\<lambda>entry. Option.bind (item ''changes'' entry) (\<lambda>cs.
     Option.bind (item0 cs) (item ''value'')))"

text \<open>What \<^verbatim>\<open>extract_message\<close> and \<^verbatim>\<open>extract_delivery_status\<close> return. \<open>None\<close> is the \<^verbatim>\<open>AttributeError\<close> they do not catch: the
  value of the first change is no dictionary.\<close>

definition extract_first :: "string \<Rightarrow> (string \<times> pyval) list \<Rightarrow> pyval option" where
  "extract_first key payload = (case first_value payload of
     None \<Rightarrow> Some PNone
   | Some (PDict d) \<Rightarrow> (let xs = dict_or d key (PList []) in
       if truthy xs then (case item0 xs of None \<Rightarrow> Some PNone | Some x \<Rightarrow> Some x) else Some PNone)
   | Some _ \<Rightarrow> None)"

definition extract_message :: "(string \<times> pyval) list \<Rightarrow> pyval option" where
  "extract_message = extract_first ''messages''"

definition extract_delivery_status :: "(string \<times> pyval) list \<Rightarrow> pyval option" where
  "extract_delivery_status = extract_first ''statuses''"

definition extract_inbound_sender :: "(string \<times> pyval) list \<Rightarrow> (string \<times> string) option" where
  "extract_inbound_sender payload =
    (case (Option.bind (first_entry payload) (item ''id''),
           Option.bind (Option.bind (first_value payload) (item ''metadata'')) (item ''phone_number_id'')) of
       (Some (PStr w), Some (PStr p)) \<Rightarrow> if str_isdigit w \<and> str_isdigit p then Some (w, p) else None
     | _ \<Rightarrow> None)"

section \<open>One payload per message or status\<close>

definition without :: "string list \<Rightarrow> (string \<times> pyval) list \<Rightarrow> (string \<times> pyval) list" where
  "without ks d = filter (\<lambda>kv. fst kv \<notin> set ks) d"

definition item_payload ::
  "(string \<times> pyval) list \<Rightarrow> (string \<times> pyval) list \<Rightarrow> (string \<times> pyval) list \<Rightarrow> (string \<times> pyval) list \<Rightarrow> string \<Rightarrow> pyval \<Rightarrow>
   (string \<times> pyval) list" where
  "item_payload payload entry change v kind x =
    (let item_value = without [''messages'', ''statuses''] v @ [(kind, PList [x])];
         item_change = dict_set change ''value'' (PDict item_value);
         item_entry = dict_set entry ''changes'' (PList [PDict item_change])
     in dict_set payload ''entry'' (PList [PDict item_entry]))"

definition fallback_key :: "nat \<Rightarrow> nat \<Rightarrow> string \<Rightarrow> nat \<Rightarrow> string" where
  "fallback_key i j kind k = show_nat i @ '':'' @ show_nat j @ '':'' @ kind @ '':'' @ show_nat k"

definition dict_value :: "pyval \<Rightarrow> bool" where
  "dict_value v = (case v of PDict _ \<Rightarrow> True | _ \<Rightarrow> False)"

definition dict_items :: "pyval \<Rightarrow> (nat \<times> (string \<times> pyval) list) list" where
  "dict_items v = (case v of PList xs \<Rightarrow> concat (map (\<lambda>(n, x). case x of PDict d \<Rightarrow> [(n, d)] | _ \<Rightarrow> []) (enumerate 0 xs))
     | _ \<Rightarrow> [])"

definition kind_items ::
  "(string \<times> pyval) list \<Rightarrow> nat \<times> (string \<times> pyval) list \<Rightarrow> nat \<times> (string \<times> pyval) list \<Rightarrow> (string \<times> pyval) list \<Rightarrow> string \<Rightarrow>
   ((string \<times> pyval) list \<times> string) list" where
  "kind_items payload e c v kind = map (\<lambda>(k, d). (item_payload payload (snd e) (snd c) v kind (PDict d),
       fallback_key (fst e) (fst c) kind k)) (dict_items (dict_get v kind))"

definition change_items ::
  "(string \<times> pyval) list \<Rightarrow> nat \<times> (string \<times> pyval) list \<Rightarrow> nat \<times> (string \<times> pyval) list \<Rightarrow>
   ((string \<times> pyval) list \<times> string) list" where
  "change_items payload e c = (case dict_get (snd c) ''value'' of
     PDict v \<Rightarrow> kind_items payload e c v ''messages'' @ kind_items payload e c v ''statuses''
   | _ \<Rightarrow> [])"

definition split_inbox_events :: "(string \<times> pyval) list \<Rightarrow> ((string \<times> pyval) list \<times> string) list" where
  "split_inbox_events payload =
    (let items = concat (map (\<lambda>e. concat (map (change_items payload e) (dict_items (dict_get (snd e) ''changes''))))
           (dict_items (dict_get payload ''entry'')))
     in if items = [] then [(payload, ''root'')] else items)"

section \<open>Identity of an event\<close>

text \<open>\<open>None\<close> is an \<^verbatim>\<open>AttributeError\<close>: a first message that is neither empty nor a dictionary.\<close>

definition field_if_true :: "pyval \<Rightarrow> string \<Rightarrow> pyval option" where
  "field_if_true v k = (if \<not> truthy v then Some PNone else (case v of PDict d \<Rightarrow> Some (dict_get d k) | _ \<Rightarrow> None))"

definition webhook_event_id :: "ingress_ops \<Rightarrow> byte list \<Rightarrow> pyval \<Rightarrow> pyval \<Rightarrow> string \<Rightarrow> string option" where
  "webhook_event_id ops raw message delivery fallback = (case field_if_true message ''id'' of
     None \<Rightarrow> None
   | Some i \<Rightarrow> if truthy i then Some (to_text ops i) else (case field_if_true delivery ''id'' of
        None \<Rightarrow> None
      | Some j \<Rightarrow>
          if truthy j then (case delivery of
             PDict d \<Rightarrow> Some (to_text ops j @ '':'' @ to_text ops (dict_or d ''status'' (PStr ''unknown''))
                @ '':'' @ to_text ops (dict_or d ''timestamp'' (PStr ''unknown'')))
           | _ \<Rightarrow> None)
          else if fallback = ''root'' then Some (io_sha ops raw)
          else Some (io_sha ops (raw @ [0] @ utf8 fallback))))"

definition payload_event_id :: "ingress_ops \<Rightarrow> (string \<times> pyval) list \<Rightarrow> byte list \<Rightarrow> string \<Rightarrow> string option" where
  "payload_event_id ops payload raw fallback = (case (extract_message payload, extract_delivery_status payload) of
     (Some m, Some d) \<Rightarrow> webhook_event_id ops raw m d fallback | _ \<Rightarrow> None)"

definition scoped_event_id ::
  "ingress_ops \<Rightarrow> (string \<times> pyval) list \<Rightarrow> string \<Rightarrow> byte list \<Rightarrow> string \<Rightarrow> string option" where
  "scoped_event_id ops payload lane raw fallback = map_option
     (\<lambda>external. ''wa1_'' @ sha_text ops (receiver_scope (sha_text ops) lane (extract_inbound_sender payload)
        @ [CHR 0x00] @ external))
     (payload_event_id ops payload raw fallback)"

section \<open>Order of arrival\<close>

definition lstrip_char :: "char \<Rightarrow> string \<Rightarrow> string" where
  "lstrip_char c s = dropWhile (\<lambda>x. x = c) s"

definition ordering_receiver :: "string \<Rightarrow> pyval \<Rightarrow> pyval \<Rightarrow> (string \<times> string) option" where
  "ordering_receiver lane waba phone = (case (waba, phone) of
     (PStr w, PStr p) \<Rightarrow> if str_isdigit w \<and> str_isdigit p then Some (w, p)
       else if lane \<in> {''local'', ''test'', ''development''} then Some (''mock'', ''mock'') else None
   | _ \<Rightarrow> if lane \<in> {''local'', ''test'', ''development''} then Some (''mock'', ''mock'') else None)"

definition ordering_scope :: "ingress_ops \<Rightarrow> string \<Rightarrow> (string \<times> pyval) list \<Rightarrow> string option" where
  "ordering_scope ops lane payload = (case (first_entry payload, first_value payload) of
     (Some (PDict entry), Some (PDict v)) \<Rightarrow>
       (case item0 (dict_or v ''messages'' (PList [])) of
          Some (PDict m) \<Rightarrow> (case dict_get m ''from'' of
             PStr a \<Rightarrow>
               if \<not> str_isdigit (lstrip_char CHR ''+'' a) then None
               else (case ordering_receiver lane (dict_get entry ''id'')
                       (case dict_get v ''metadata'' of PDict md \<Rightarrow> dict_get md ''phone_number_id'' | _ \<Rightarrow> PNone) of
                  None \<Rightarrow> None
                | Some (w, p) \<Rightarrow> Some (sha_text ops (''wa-arrival-v1'' @ [CHR 0x00] @ lane @ [CHR 0x00] @ w @ [CHR 0x00]
                     @ p @ [CHR 0x00] @ lstrip_char CHR ''+'' a)))
           | _ \<Rightarrow> None)
        | _ \<Rightarrow> None)
   | _ \<Rightarrow> None)"

datatype ingress_error = IngressPermanent string | IngressRuntime string | IngressDeferred string
  | ClaimConflict string | ClaimAttributeError | ClaimEnqueue enqueue_error

definition ensure_stream :: "string \<Rightarrow> 'a wa_db_scheme \<Rightarrow> 'a wa_db_scheme" where
  "ensure_stream scope db = (case tbl_find is_scope scope (wd_streams db) of
     Some _ \<Rightarrow> db | None \<Rightarrow> db\<lparr>wd_streams := wd_streams db @ [\<lparr> is_scope = scope, is_next = 1 \<rparr>]\<rparr>)"

definition take_ticket ::
  "string \<Rightarrow> webhook_event \<Rightarrow> 'a wa_db_scheme \<Rightarrow> ingress_error + ('a wa_db_scheme \<times> webhook_event)" where
  "take_ticket scope ev db = (case tbl_find is_scope scope (wd_streams db) of
     None \<Rightarrow> Inl (IngressRuntime ''Ingress ordering stream is unavailable'')
   | Some s \<Rightarrow> if is_next s < 1 then Inl (IngressRuntime ''Ingress ordering stream is unavailable'')
       else Inr (db\<lparr>wd_streams := tbl_upd is_scope scope (\<lambda>x. x\<lparr>is_next := is_next s + 1\<rparr>) (wd_streams db)\<rparr>,
         ev\<lparr>wh_scope := Some scope, wh_sequence := Some (is_next s)\<rparr>))"

definition allocate_arrival ::
  "ingress_ops \<Rightarrow> string \<Rightarrow> (string \<times> pyval) list \<Rightarrow> webhook_event \<Rightarrow> 'a wa_db_scheme \<Rightarrow>
   ingress_error + ('a wa_db_scheme \<times> webhook_event)" where
  "allocate_arrival ops lane payload ev db =
    (if wh_scope ev \<noteq> None \<or> wh_sequence ev \<noteq> None
     then (if wh_scope ev \<in> {None, Some []} \<or> (case wh_sequence ev of None \<Rightarrow> True | Some n \<Rightarrow> n < 1)
           then Inl (IngressPermanent ''Ingress ordering receipt is incomplete'') else Inr (db, ev))
     else (case ordering_scope ops lane payload of
        None \<Rightarrow> Inr (db, ev)
      | Some scope \<Rightarrow> take_ticket scope ev (ensure_stream scope db)))"

definition unresolved_before :: "string \<Rightarrow> int \<Rightarrow> 'a wa_db_scheme \<Rightarrow> bool" where
  "unresolved_before scope n db = list_ex (\<lambda>e. wh_scope e = Some scope
     \<and> (case wh_sequence e of None \<Rightarrow> False | Some k \<Rightarrow> k < n) \<and> wh_status e \<notin> set terminal_receipts) (wd_webhooks db)"

definition require_head :: "'a wa_db_scheme \<Rightarrow> webhook_event \<Rightarrow> ingress_error + unit" where
  "require_head db ev = (case (wh_scope ev, wh_sequence ev) of
     (Some scope, Some n) \<Rightarrow>
       if scope = [] \<or> n < 1 then Inl (IngressPermanent ''Inbound receipt has no durable arrival order'')
       else (case tbl_find is_scope scope (wd_streams db) of
          None \<Rightarrow> Inl (IngressPermanent ''Inbound receipt has an invalid arrival order'')
        | Some s \<Rightarrow>
            if is_next s \<le> n then Inl (IngressPermanent ''Inbound receipt has an invalid arrival order'')
            else if unresolved_before scope n db
            then Inl (IngressDeferred ''An earlier ingress receipt remains unresolved'') else Inr ())
   | _ \<Rightarrow> Inl (IngressPermanent ''Inbound receipt has no durable arrival order''))"

section \<open>Claiming a batch\<close>

record claimed_event =
  ce_id :: ident
  ce_job_created :: bool
  ce_duplicate :: bool

text \<open>A receipt of an earlier version is stored under the unscoped identifier; \<open>legacy_claim\<close> settles the claim with
  \<open>Inr (Some c)\<close>.\<close>

definition find_webhook :: "'a wa_db_scheme \<Rightarrow> string \<Rightarrow> webhook_event option" where
  "find_webhook db external = find (\<lambda>e. wh_provider e = ''whatsapp'' \<and> wh_external_id e = external) (wd_webhooks db)"

definition legacy_claim ::
  "(string \<times> pyval) list \<Rightarrow> webhook_event option \<Rightarrow> ingress_error + claimed_event option" where
  "legacy_claim payload old = (case old of
     None \<Rightarrow> Inr None
   | Some e \<Rightarrow> (case (extract_message (wh_payload e), extract_message payload) of
       (Some m, Some m') \<Rightarrow>
         let other = (if extract_inbound_sender (wh_payload e) = None
               then Inl (ClaimConflict ''Legacy receiver provenance is unavailable'') else Inr None)
         in if extract_inbound_sender (wh_payload e) \<noteq> extract_inbound_sender payload then other
            else (case (field_if_true m ''from'', field_if_true m' ''from'') of
               (Some a, Some b) \<Rightarrow>
                 if a \<noteq> b then other
                 else if wh_status e \<in> set terminal_receipts
                 then Inr (Some \<lparr> ce_id = wh_id e, ce_job_created = False, ce_duplicate = True \<rparr>)
                 else Inl (ClaimConflict ''Legacy unresolved receipt requires reconciliation'')
             | _ \<Rightarrow> Inl ClaimAttributeError)
     | _ \<Rightarrow> Inl ClaimAttributeError))"

definition new_webhook :: "ident \<Rightarrow> string \<Rightarrow> (string \<times> pyval) list \<Rightarrow> webhook_event" where
  "new_webhook i external payload = \<lparr> wh_id = i, wh_scope = None, wh_sequence = None, wh_provider = ''whatsapp'',
     wh_external_id = external, wh_payload = payload, wh_status = ''received'' \<rparr>"

text \<open>The savepoint: a concurrent claim of the same event that committed first makes the insert fail, and its row is read.\<close>

definition insert_webhook ::
  "ingress_ops \<Rightarrow> string \<Rightarrow> ident \<Rightarrow> string \<Rightarrow> (string \<times> pyval) list \<Rightarrow> 'a wa_db_scheme \<Rightarrow>
   ingress_error + ('a wa_db_scheme \<times> webhook_event)" where
  "insert_webhook ops lane i external payload db =
    and_then (allocate_arrival ops lane payload (new_webhook i external payload) db) (\<lambda>(db', ev).
      case find_webhook db external of
        Some old \<Rightarrow> Inr (db, old)
      | None \<Rightarrow> Inr (db'\<lparr>wd_webhooks := wd_webhooks db' @ [ev]\<rparr>, ev))"

definition event_job_key :: "string \<Rightarrow> string" where
  "event_job_key external = ''meta:'' @ external"

definition enqueue_event ::
  "ident \<Rightarrow> time \<Rightarrow> string \<Rightarrow> webhook_event \<Rightarrow> 'a wa_db_scheme \<Rightarrow> ingress_error + ('a wa_db_scheme \<times> claimed_event)" where
  "enqueue_event jid now external ev db =
    (if wh_status ev \<in> set terminal_receipts
     then Inr (db, \<lparr> ce_id = wh_id ev, ce_job_created = False, ce_duplicate = True \<rparr>)
     else (case enqueue_job db db jid True now ''whatsapp.process_webhook'' (PDict [(''event_id'', PStr (wh_id ev))])
             (event_job_key external) None ''default'' 5 None of
        Inl e \<Rightarrow> Inl (ClaimEnqueue e)
      | Inr (db', j, created) \<Rightarrow>
          Inr (db', \<lparr> ce_id = wh_id ev, ce_job_created = created, ce_duplicate = False \<rparr>)))"

text \<open>\<open>seen\<close> is what the first reads saw, \<open>db\<close> what the insert meets; \<open>ids\<close> are the new event and the new job.\<close>

definition claim_event ::
  "ingress_ops \<Rightarrow> string \<Rightarrow> byte list \<Rightarrow> time \<Rightarrow> ident \<times> ident \<Rightarrow> (string \<times> pyval) list \<times> string \<Rightarrow>
   'a wa_db_scheme \<Rightarrow> 'a wa_db_scheme \<Rightarrow> ingress_error + ('a wa_db_scheme \<times> claimed_event)" where
  "claim_event ops lane raw now ids it seen db =
    (case (scoped_event_id ops (fst it) lane raw (snd it), payload_event_id ops (fst it) raw (snd it)) of
       (Some external, Some raw_id) \<Rightarrow>
         (case find_webhook seen external of
            Some ev \<Rightarrow> enqueue_event (snd ids) now external ev db
          | None \<Rightarrow> and_then (legacy_claim (fst it) (find_webhook seen raw_id)) (\<lambda>settled. case settled of
              Some c \<Rightarrow> Inr (db, c)
            | None \<Rightarrow> and_then (insert_webhook ops lane (fst ids) external (fst it) db) (\<lambda>(db', ev).
                enqueue_event (snd ids) now external ev db')))
     | _ \<Rightarrow> Inl ClaimAttributeError)"

fun claim_items ::
  "ingress_ops \<Rightarrow> string \<Rightarrow> byte list \<Rightarrow> time \<Rightarrow> (nat \<Rightarrow> ident \<times> ident) \<Rightarrow> nat \<Rightarrow> ((string \<times> pyval) list \<times> string) list \<Rightarrow>
   'a wa_db_scheme \<Rightarrow> ingress_error + ('a wa_db_scheme \<times> claimed_event list)" where
  "claim_items ops lane raw now fresh n [] db = Inr (db, [])"
| "claim_items ops lane raw now fresh n (it # its) db =
    and_then (claim_event ops lane raw now (fresh n) it db db) (\<lambda>(db1, c).
    and_then (claim_items ops lane raw now fresh (Suc n) its db1) (\<lambda>(db2, cs). Inr (db2, c # cs)))"

text \<open>One transaction: an exception rolls the whole batch back.\<close>

definition claim_webhook_events ::
  "ingress_ops \<Rightarrow> string \<Rightarrow> byte list \<Rightarrow> time \<Rightarrow> (nat \<Rightarrow> ident \<times> ident) \<Rightarrow> (string \<times> pyval) list \<Rightarrow> 'a wa_db_scheme \<Rightarrow>
   'a wa_db_scheme \<times> (ingress_error + claimed_event list)" where
  "claim_webhook_events ops lane raw now fresh payload db =
    (case claim_items ops lane raw now fresh 0 (split_inbox_events payload) db of
       Inl e \<Rightarrow> (db, Inl e) | Inr (db', cs) \<Rightarrow> (db', Inr cs))"

section \<open>Call events\<close>

text \<open>\<^verbatim>\<open>in\<close> on a JSON value, and \<^verbatim>\<open>.get\<close>; \<open>None\<close> is a \<^verbatim>\<open>TypeError\<close> or an \<^verbatim>\<open>AttributeError\<close>.\<close>

definition contains_calls :: "pyval \<Rightarrow> bool option" where
  "contains_calls v = (case v of
     PDict d \<Rightarrow> Some (map_of d ''calls'' \<noteq> None) | PList xs \<Rightarrow> Some (PStr ''calls'' \<in> set xs)
   | PStr s \<Rightarrow> Some (contains_text s ''calls'') | _ \<Rightarrow> None)"

definition strip_change :: "pyval \<Rightarrow> (bool \<times> pyval list) option" where
  "strip_change change = (case change of
     PDict c \<Rightarrow>
       (let v = dict_or c ''value'' (PDict []) in
        case (if dict_get c ''field'' = PStr ''calls'' then Some True else contains_calls v) of
          None \<Rightarrow> None
        | Some False \<Rightarrow> Some (False, [change])
        | Some True \<Rightarrow> (case v of
            PDict d \<Rightarrow> (let r = without [''calls''] d in
              Some (True, if truthy (dict_get r ''messages'') \<or> truthy (dict_get r ''statuses'')
                then [PDict (dict_set (dict_set c ''field'' (PStr ''messages'')) ''value'' (PDict r))] else []))
          | _ \<Rightarrow> None))
   | _ \<Rightarrow> None)"

definition py_iter :: "pyval \<Rightarrow> pyval list option" where
  "py_iter v = (case v of PList xs \<Rightarrow> Some xs | PStr s \<Rightarrow> Some (map (\<lambda>c. PStr [c]) s)
     | PDict d \<Rightarrow> Some (map (\<lambda>kv. PStr (fst kv)) d) | _ \<Rightarrow> None)"

fun gather :: "('a \<Rightarrow> (bool \<times> 'b list) option) \<Rightarrow> 'a list \<Rightarrow> (bool \<times> 'b list) option" where
  "gather f [] = Some (False, [])"
| "gather f (x # xs) = (case f x of
     None \<Rightarrow> None
   | Some (a, ys) \<Rightarrow> (case gather f xs of None \<Rightarrow> None | Some (b, zs) \<Rightarrow> Some (a \<or> b, ys @ zs)))"

definition strip_entry :: "pyval \<Rightarrow> (bool \<times> pyval list) option" where
  "strip_entry entry = (case entry of
     PDict e \<Rightarrow> Option.bind (py_iter (dict_or e ''changes'' (PList []))) (\<lambda>cs.
       map_option (\<lambda>(calls, changes). (calls,
         if changes = [] then [] else [PDict (dict_set e ''changes'' (PList changes))])) (gather strip_change cs))
   | _ \<Rightarrow> None)"

definition split_call_changes :: "(string \<times> pyval) list \<Rightarrow> (bool \<times> (string \<times> pyval) list) option" where
  "split_call_changes payload = Option.bind (py_iter (dict_or payload ''entry'' (PList []))) (\<lambda>es.
     map_option (\<lambda>(calls, entries). (calls, dict_set payload ''entry'' (PList entries))) (gather strip_entry es))"

section \<open>The webhook route\<close>

datatype webhook_answer = WebhookRefused int string | WebhookTypeError | WebhookCrash ingress_error
  | CallsAccepted | EventsClaimed "claimed_event list"

record webhook_ops =
  wo_hmac :: "string \<Rightarrow> byte list \<Rightarrow> string"
  wo_json :: "byte list \<Rightarrow> pyval option"
  wo_dump :: "pyval \<Rightarrow> byte list"

definition ascii_text :: "string \<Rightarrow> bool" where
  "ascii_text s = list_all (\<lambda>c. code c < 128) s"

text \<open>\<open>None\<close> is the \<^verbatim>\<open>TypeError\<close> of \<^verbatim>\<open>hmac.compare_digest\<close> on a header that is not ASCII.\<close>

definition valid_signature :: "webhook_ops \<Rightarrow> byte list \<Rightarrow> string option \<Rightarrow> string \<Rightarrow> bool option" where
  "valid_signature wo raw signature secret = (case signature of
     None \<Rightarrow> Some False
   | Some s \<Rightarrow> if \<not> starts_with s ''sha256='' then Some False
       else if \<not> ascii_text s then None
       else Some (s = ''sha256='' @ wo_hmac wo secret raw))"

definition verify_webhook ::
  "string \<Rightarrow> string \<Rightarrow> string option \<Rightarrow> string option \<Rightarrow> string option \<Rightarrow> (webhook_answer + string)" where
  "verify_webhook backend expected mode token challenge =
    (if backend = ''disabled'' then Inl (WebhookRefused 503 ''WhatsApp webhook is disabled'')
     else if mode = Some ''subscribe'' \<and> \<not> (ascii_text (case token of None \<Rightarrow> [] | Some t \<Rightarrow> t) \<and> ascii_text expected)
     then Inl WebhookTypeError
     else if mode = Some ''subscribe'' \<and> (case token of None \<Rightarrow> [] | Some t \<Rightarrow> t) = expected
     then Inr (case challenge of None \<Rightarrow> [] | Some c \<Rightarrow> c)
     else Inl (WebhookRefused 403 ''Invalid webhook verification''))"

definition declared_size :: "string option \<Rightarrow> int" where
  "declared_size content_length = (case content_length of
     None \<Rightarrow> 0 | Some s \<Rightarrow> (case py_int s of None \<Rightarrow> 0 | Some n \<Rightarrow> n))"

definition webhook_too_large :: "string option \<Rightarrow> byte list \<Rightarrow> bool" where
  "webhook_too_large content_length body = (1048576 < declared_size content_length \<or> 1048576 < length body)"

text \<open>The route outside local mode: \<open>gateway\<close> says whether the call gateway answered (or is off).\<close>

definition receive_webhook ::
  "webhook_ops \<Rightarrow> ingress_ops \<Rightarrow> string \<Rightarrow> string \<Rightarrow> string \<Rightarrow> time \<Rightarrow> (nat \<Rightarrow> ident \<times> ident) \<Rightarrow> bool \<Rightarrow>
   string option \<Rightarrow> string option \<Rightarrow> byte list \<Rightarrow> 'a wa_db_scheme \<Rightarrow> 'a wa_db_scheme \<times> webhook_answer" where
  "receive_webhook wo ops backend secret lane now fresh gateway content_length signature raw db =
    (if backend = ''disabled'' then (db, WebhookRefused 503 ''WhatsApp webhook is disabled'')
     else if webhook_too_large content_length raw then (db, WebhookRefused 413 ''Webhook payload too large'')
     else (case valid_signature wo raw signature secret of
       None \<Rightarrow> (db, WebhookTypeError)
     | Some False \<Rightarrow> (db, WebhookRefused 403 ''Invalid signature'')
     | Some True \<Rightarrow> (case wo_json wo raw of
         None \<Rightarrow> (db, WebhookRefused 400 ''Invalid JSON'')
       | Some (PDict payload) \<Rightarrow> (case split_call_changes payload of
           None \<Rightarrow> (db, WebhookRefused 400 ''Invalid webhook payload'')
         | Some (calls, rest) \<Rightarrow>
             if calls \<and> \<not> gateway then (db, WebhookRefused 503 ''Call gateway unavailable; retry is safe'')
             else if calls \<and> \<not> truthy (dict_get rest ''entry'') then (db, CallsAccepted)
             else (case claim_webhook_events ops lane (if calls then wo_dump wo (PDict rest) else raw) now fresh
                     (if calls then rest else payload) db of
                (db', Inl (ClaimConflict msg)) \<Rightarrow> (db', WebhookRefused 409 ''Webhook event could not be claimed'')
              | (db', Inl e) \<Rightarrow> (db', WebhookCrash e)
              | (db', Inr cs) \<Rightarrow> (db', EventsClaimed cs)))
       | Some _ \<Rightarrow> (db, WebhookRefused 400 ''Invalid webhook payload''))))"

end
