(* ===== verification/MetaClient.thy ===== *)
theory MetaClient
  imports AuthRoutes Encoding
begin

text \<open>
  The WhatsApp provider (\<^verbatim>\<open>app/providers/meta.py\<close>) and the sanitised diagnostics of its failures
  (\<^verbatim>\<open>app/providers/diagnostics.py\<close>): validation of what is sent, the requests, and the reading of replies.

  Parameters (\<open>meta_ops\<close>): the network, which answers a request given the requests before it; \<^verbatim>\<open>json.loads\<close> of bytes
  (\<open>None\<close> when it raises), SHA-256 and \<^verbatim>\<open>urlsplit\<close>.
\<close>

section \<open>Regular expressions\<close>

text \<open>\<open>spans lo hi ok s\<close> is \<^verbatim>\<open>re.fullmatch(r"[...]{lo,hi}", s)\<close> for the character class \<open>ok\<close>.\<close>

definition spans :: "nat \<Rightarrow> nat \<Rightarrow> (char \<Rightarrow> bool) \<Rightarrow> string \<Rightarrow> bool" where
  "spans lo hi ok s = (lo \<le> length s \<and> length s \<le> hi \<and> list_all ok s)"

definition alnum_or :: "string \<Rightarrow> char \<Rightarrow> bool" where
  "alnum_or extra c = (is_alnum c \<or> c \<in> set extra)"

definition phone_ok :: "string \<Rightarrow> bool" where
  "phone_ok p = (case p of a # b # r \<Rightarrow> a = CHR ''+'' \<and> is_digit b \<and> b \<noteq> CHR ''0'' \<and> spans 7 14 is_digit r | _ \<Rightarrow> False)"

definition graph_version_ok :: "string \<Rightarrow> bool" where
  "graph_version_ok v = (case v of
     c # r \<Rightarrow> c = CHR ''v'' \<and> (case split_on CHR ''.'' r of
        [a, b] \<Rightarrow> a \<noteq> [] \<and> list_all is_digit a \<and> b \<noteq> [] \<and> list_all is_digit b | _ \<Rightarrow> False)
   | [] \<Rightarrow> False)"

definition template_name_ok :: "string \<Rightarrow> bool" where
  "template_name_ok = spans 1 512 (\<lambda>c. is_lower c \<or> is_digit c \<or> c = CHR ''_'')"

definition language_code_ok :: "string \<Rightarrow> bool" where
  "language_code_ok s = (case split_on CHR ''_'' s of
     [a] \<Rightarrow> spans 2 3 is_lower a
   | [a, b] \<Rightarrow> spans 2 3 is_lower a \<and> spans 2 2 is_upper b
   | _ \<Rightarrow> False)"

definition wa_message_id_ok :: "string \<Rightarrow> bool" where
  "wa_message_id_ok = spans 5 256 (alnum_or ''._:+/=-'')"

definition media_id_ok :: "string \<Rightarrow> bool" where
  "media_id_ok = spans 5 256 (alnum_or ''._:-'')"

definition mime_ok :: "string \<Rightarrow> bool" where
  "mime_ok s = (case split_on CHR ''/'' s of
     [a, b] \<Rightarrow> spans 1 80 (alnum_or ''.+-'') a \<and> spans 1 80 (alnum_or ''.+-'') b | _ \<Rightarrow> False)"

section \<open>Diagnostics\<close>

fun digit_run :: "nat \<Rightarrow> string \<Rightarrow> bool" where
  "digit_run n [] = (n = 0)"
| "digit_run n (c # s) = (n = 0 \<or> (list_all is_digit (take n (c # s)) \<and> n \<le> length (c # s)) \<or> digit_run n s)"

definition provider_request_id_hash :: "(byte list \<Rightarrow> string) \<Rightarrow> string option \<Rightarrow> string option" where
  "provider_request_id_hash sha value = (case value of
     None \<Rightarrow> None
   | Some s \<Rightarrow> (case s of
       [] \<Rightarrow> None
     | c # r \<Rightarrow>
        if \<not> is_alnum c \<or> \<not> spans 7 255 (alnum_or ''._:/=+-'') r then None
        else let encoded = concat (map utf8_char (to_utext s)) in
          if 512 < length encoded then None
          else if \<not> list_ex (\<lambda>c. is_upper c \<or> is_lower c) s then None
          else if digit_run 6 s then None
          else Some (sha encoded)))"

definition normalise_provider_code :: "pyval \<Rightarrow> string option" where
  "normalise_provider_code v =
    (case (case v of
        PInt n \<Rightarrow> Some n
      | PStr s \<Rightarrow> if spans 1 10 is_digit s then py_int s else None
      | _ \<Rightarrow> None) of
      None \<Rightarrow> None
    | Some n \<Rightarrow> if 0 \<le> n \<and> n \<le> 2147483647 then Some (show_int n) else None)"

section \<open>Failures\<close>

record meta_failure =
  mf_category :: string
  mf_retryable :: bool
  mf_status :: "int option"
  mf_code :: "string option"
  mf_request :: "string option"
  mf_retry_after :: "int option"

text \<open>\<open>MetaValueError\<close> is raised before anything is sent, except where the code reads a URL.\<close>

datatype meta_exn = MetaValueError string | MetaProviderError meta_failure

definition failure :: "string \<Rightarrow> bool \<Rightarrow> meta_exn" where
  "failure category retryable = MetaProviderError \<lparr> mf_category = category, mf_retryable = retryable, mf_status = None,
     mf_code = None, mf_request = None, mf_retry_after = None \<rparr>"

definition transient_status :: "int \<Rightarrow> bool" where
  "transient_status n = (n \<in> {408, 425, 429} \<or> 500 \<le> n)"

section \<open>Client\<close>

record wa_settings =
  ms_env :: string
  ms_backend :: string
  ms_graph_version :: string
  ms_waba_id :: "string option"
  ms_phone_number_id :: "string option"
  ms_token :: string
  ms_primary :: bool
  ms_test_replies :: bool
  ms_test_waba_id :: "string option"
  ms_test_phone_number_id :: "string option"
  ms_otp_template :: string
  ms_language :: string
  ms_timeout :: rat
  ms_max_response :: int
  ms_progress :: bool
  ms_speech :: bool
  ms_pilot :: bool
  ms_policy :: string
  ms_message_limit :: int
  ms_message_window :: int

record meta_client =
  mt_phone_number_id :: string
  mt_version :: string
  mt_token :: string
  mt_otp_template :: "string option"
  mt_language :: string
  mt_max_response :: int

definition new_client :: "string \<Rightarrow> string \<Rightarrow> string \<Rightarrow> string option \<Rightarrow> string \<Rightarrow> rat \<Rightarrow> int \<Rightarrow> meta_exn + meta_client" where
  "new_client version phone token template language timeout max_response =
    (if \<not> graph_version_ok version then Inl (MetaValueError ''Invalid Meta Graph version'')
     else if \<not> spans 5 64 is_digit phone then Inl (MetaValueError ''Invalid Meta phone number ID'')
     else if length token < 16 then Inl (MetaValueError ''Meta access token is missing or too short'')
     else if (case template of None \<Rightarrow> False | Some t \<Rightarrow> \<not> template_name_ok t)
       then Inl (MetaValueError ''Invalid Meta OTP template name'')
     else if \<not> language_code_ok language then Inl (MetaValueError ''Invalid Meta template language code'')
     else if \<not> (1 \<le> timeout \<and> timeout \<le> 60) then Inl (MetaValueError ''Meta timeout must be between 1 and 60 seconds'')
     else if \<not> (4096 \<le> max_response \<and> max_response \<le> 1048576)
       then Inl (MetaValueError ''Meta response limit is outside the supported range'')
     else Inr \<lparr> mt_phone_number_id = phone, mt_version = version, mt_token = token, mt_otp_template = template,
       mt_language = language, mt_max_response = max_response \<rparr>)"

definition client_from_settings :: "wa_settings \<Rightarrow> meta_exn + meta_client" where
  "client_from_settings st = (case ms_phone_number_id st of
     None \<Rightarrow> Inl (MetaValueError ''Meta phone number ID is not configured'')
   | Some p \<Rightarrow> if p = [] then Inl (MetaValueError ''Meta phone number ID is not configured'')
       else new_client (ms_graph_version st) p (ms_token st) (Some (ms_otp_template st)) (ms_language st)
         (ms_timeout st) (ms_max_response st))"

text \<open>\<^verbatim>\<open>Settings.allowed_meta_inbound_reply_senders\<close>.\<close>

definition sender_pair :: "string option \<Rightarrow> string option \<Rightarrow> (string \<times> string) list" where
  "sender_pair waba phone = (case (waba, phone) of
     (Some w, Some p) \<Rightarrow> if w = [] \<or> p = [] then [] else [(w, p)] | _ \<Rightarrow> [])"

definition allowed_senders :: "wa_settings \<Rightarrow> (string \<times> string) list" where
  "allowed_senders st =
    (if ms_primary st then sender_pair (ms_waba_id st) (ms_phone_number_id st) else [])
    @ (if ms_test_replies st then sender_pair (ms_test_waba_id st) (ms_test_phone_number_id st) else [])"

definition client_for_reply :: "wa_settings \<Rightarrow> string \<times> string \<Rightarrow> meta_exn + meta_client" where
  "client_for_reply st sender =
    (if sender \<notin> set (allowed_senders st) then Inl (MetaValueError ''Meta reply sender is not configured'')
     else if (Some (fst sender), Some (snd sender)) = (ms_waba_id st, ms_phone_number_id st) then client_from_settings st
     else new_client (ms_graph_version st) (snd sender) (ms_token st) None (ms_language st)
       (ms_timeout st) (ms_max_response st))"

section \<open>Requests and replies\<close>

record meta_file =
  fl_name :: string
  fl_content :: "byte list"
  fl_mime :: string

record meta_call =
  mq_post :: bool
  mq_url :: string
  mq_token :: string
  mq_json :: "pyval option"
  mq_file :: "meta_file option"

text \<open>\<open>NoAnswer\<close> is an \<^verbatim>\<open>httpx.TimeoutException\<close>, \<open>LinkBroken\<close> another \<^verbatim>\<open>httpx.RequestError\<close>. An answer is its status, its
  headers by lower-case name, and its body.\<close>

datatype meta_reply = NoAnswer | LinkBroken | Answer int "string \<Rightarrow> string option" "byte list"

record meta_ops =
  mo_net :: "meta_call list \<Rightarrow> meta_call \<Rightarrow> meta_reply"
  mo_loads :: "byte list \<Rightarrow> pyval option"
  mo_sha :: "byte list \<Rightarrow> string"
  mo_split :: "string \<Rightarrow> url option"

text \<open>A program reads the requests made so far and adds its own.\<close>

type_synonym 'a meta_io = "meta_call list \<Rightarrow> meta_call list \<times> (meta_exn + 'a)"

definition graph_url :: "meta_client \<Rightarrow> string \<Rightarrow> string" where
  "graph_url c path = ''https://graph.facebook.com/'' @ mt_version c @ ''/'' @ path"

definition messages_url :: "meta_client \<Rightarrow> string" where
  "messages_url c = graph_url c (mt_phone_number_id c @ ''/messages'')"

definition post_json :: "meta_client \<Rightarrow> pyval \<Rightarrow> meta_call" where
  "post_json c body = \<lparr> mq_post = True, mq_url = messages_url c, mq_token = mt_token c, mq_json = Some body, mq_file = None \<rparr>"

definition read_bounded :: "meta_client \<Rightarrow> (string \<Rightarrow> string option) \<Rightarrow> byte list \<Rightarrow> meta_exn + byte list" where
  "read_bounded c headers body =
    (if (case headers ''content-length'' of
           None \<Rightarrow> False
         | Some l \<Rightarrow> (case py_int l of None \<Rightarrow> False | Some n \<Rightarrow> mt_max_response c < n))
        \<or> mt_max_response c < int (length body)
     then Inl (failure ''invalid_response'' False) else Inr body)"

definition decode_json :: "meta_ops \<Rightarrow> byte list \<Rightarrow> meta_exn + pyval" where
  "decode_json ops raw = (case mo_loads ops raw of None \<Rightarrow> Inl (failure ''invalid_response'' False) | Some v \<Rightarrow> Inr v)"

definition retry_after :: "string option \<Rightarrow> int option" where
  "retry_after value = (case value of
     None \<Rightarrow> None
   | Some s \<Rightarrow> (case py_int s of None \<Rightarrow> None | Some n \<Rightarrow> if 0 \<le> n \<and> n \<le> 86400 then Some n else None))"

definition recipient_digits :: "string \<Rightarrow> meta_exn + string" where
  "recipient_digits p = (if phone_ok p then Inr (tl p) else Inl (MetaValueError ''WhatsApp recipient must use E.164 format''))"

definition get_field :: "pyval \<Rightarrow> string \<Rightarrow> pyval" where
  "get_field v k = (case v of PDict d \<Rightarrow> dict_get d k | _ \<Rightarrow> PNone)"

definition first_field :: "pyval \<Rightarrow> string \<Rightarrow> pyval" where
  "first_field v k = (case v of PList (x # xs) \<Rightarrow> get_field x k | _ \<Rightarrow> PNone)"

definition provider_failure :: "meta_ops \<Rightarrow> int \<Rightarrow> (string \<Rightarrow> string option) \<Rightarrow> meta_exn" where
  "provider_failure ops status headers = MetaProviderError \<lparr> mf_category = ''provider'', mf_retryable = transient_status status,
     mf_status = Some status, mf_code = None,
     mf_request = provider_request_id_hash (mo_sha ops) (headers ''x-fb-request-id''), mf_retry_after = None \<rparr>"

definition success :: "int \<Rightarrow> bool" where
  "success n = (200 \<le> n \<and> n \<le> 299)"

section \<open>Sending a message\<close>

definition no_reply :: "meta_reply \<Rightarrow> meta_exn" where
  "no_reply r = (case r of NoAnswer \<Rightarrow> failure ''timeout'' True | _ \<Rightarrow> failure ''transport'' True)"

definition message_of :: "meta_ops \<Rightarrow> pyval \<Rightarrow> (string \<Rightarrow> string option) \<Rightarrow> meta_exn + string" where
  "message_of ops v headers =
    (let bad = Inl (MetaProviderError \<lparr> mf_category = ''invalid_response'', mf_retryable = False, mf_status = None, mf_code = None,
         mf_request = provider_request_id_hash (mo_sha ops) (headers ''x-fb-request-id''), mf_retry_after = None \<rparr>) in
     case v of
       PDict d \<Rightarrow> (case first_field (dict_get d ''messages'') ''id'' of
          PStr s \<Rightarrow> if s = [] \<or> 160 < length s then bad else Inr s
        | _ \<Rightarrow> bad)
     | _ \<Rightarrow> bad)"

definition read_send :: "meta_ops \<Rightarrow> meta_client \<Rightarrow> meta_reply \<Rightarrow> meta_exn + string" where
  "read_send ops c r = (case r of
     Answer status headers body \<Rightarrow>
       and_then (read_bounded c headers body) (\<lambda>raw.
       and_then (decode_json ops raw) (\<lambda>v.
         if success status then message_of ops v headers
         else Inl (MetaProviderError \<lparr>
           mf_category = (if status = 429 then ''rate_limited'' else ''provider''),
           mf_retryable = transient_status status, mf_status = Some status,
           mf_code = normalise_provider_code (get_field (get_field v ''error'') ''code''),
           mf_request = provider_request_id_hash (mo_sha ops) (headers ''x-fb-request-id''),
           mf_retry_after = retry_after (headers ''retry-after'') \<rparr>)))
   | _ \<Rightarrow> Inl (no_reply r))"

definition meta_send :: "meta_ops \<Rightarrow> meta_client \<Rightarrow> string \<Rightarrow> (string \<times> pyval) list \<Rightarrow> string meta_io" where
  "meta_send ops c phone payload h = (case recipient_digits phone of
     Inl e \<Rightarrow> (h, Inl e)
   | Inr recipient \<Rightarrow> (let q = post_json c (PDict (payload @ [(''to'', PStr recipient)]))
       in (h @ [q], read_send ops c (mo_net ops h q))))"

definition reply_context :: "string option \<Rightarrow> meta_exn + (string \<times> pyval) list" where
  "reply_context reply_to = (case reply_to of
     None \<Rightarrow> Inr []
   | Some i \<Rightarrow> if wa_message_id_ok i then Inr [(''context'', PDict [(''message_id'', PStr i)])]
       else Inl (MetaValueError ''Invalid Meta reply message identifier''))"

definition individual :: "string \<Rightarrow> pyval \<Rightarrow> (string \<times> pyval) list" where
  "individual kind v = [(''messaging_product'', PStr ''whatsapp''), (''recipient_type'', PStr ''individual''),
     (''type'', PStr kind), (kind, v)]"

definition max_text :: nat where
  "max_text = 4000"

definition send_text :: "meta_ops \<Rightarrow> meta_client \<Rightarrow> string \<Rightarrow> string \<Rightarrow> string option \<Rightarrow> string meta_io" where
  "send_text ops c phone body reply_to h =
    (if strip body = [] then (h, Inl (MetaValueError ''WhatsApp text body must not be empty''))
     else if max_text < length body then (h, Inl (MetaValueError ''WhatsApp text body exceeds 4000 characters''))
     else (case reply_context reply_to of
        Inl e \<Rightarrow> (h, Inl e)
      | Inr ctx \<Rightarrow> meta_send ops c phone
          (individual ''text'' (PDict [(''preview_url'', PBool False), (''body'', PStr body)]) @ ctx) h))"

definition send_template ::
  "meta_ops \<Rightarrow> meta_client \<Rightarrow> string \<Rightarrow> string \<Rightarrow> string \<Rightarrow> pyval list \<Rightarrow> string meta_io" where
  "send_template ops c phone name language components h =
    (if \<not> template_name_ok name then (h, Inl (MetaValueError ''Invalid Meta template name''))
     else if \<not> language_code_ok language then (h, Inl (MetaValueError ''Invalid Meta template language code''))
     else meta_send ops c phone (individual ''template'' (PDict ([(''name'', PStr name),
        (''language'', PDict [(''code'', PStr language)])]
        @ (if components = [] then [] else [(''components'', PList components)])))) h)"

fun render_buttons :: "(string \<times> string) list \<Rightarrow> meta_exn + pyval list" where
  "render_buttons [] = Inr []"
| "render_buttons ((i, title) # bs) =
    (if \<not> spans 1 256 (alnum_or ''._:-'') i then Inl (MetaValueError ''Interactive button identifier is invalid'')
     else if strip title = [] \<or> 20 < length title then Inl (MetaValueError ''Interactive button title is invalid'')
     else and_then (render_buttons bs) (\<lambda>vs. Inr (PDict [(''type'', PStr ''reply''),
       (''reply'', PDict [(''id'', PStr i), (''title'', PStr (strip title))])] # vs)))"

definition send_buttons ::
  "meta_ops \<Rightarrow> meta_client \<Rightarrow> string \<Rightarrow> string \<Rightarrow> (string \<times> string) list \<Rightarrow> string option \<Rightarrow> string meta_io" where
  "send_buttons ops c phone body buttons reply_to h =
    (if strip body = [] \<or> 1024 < length body then (h, Inl (MetaValueError ''Interactive message body is invalid''))
     else if \<not> (1 \<le> length buttons \<and> length buttons \<le> 3)
       then (h, Inl (MetaValueError ''Interactive messages require one to three buttons''))
     else (case and_then (render_buttons buttons) (\<lambda>vs. and_then (reply_context reply_to) (\<lambda>ctx. Inr (vs, ctx))) of
        Inl e \<Rightarrow> (h, Inl e)
      | Inr (vs, ctx) \<Rightarrow> meta_send ops c phone (individual ''interactive'' (PDict [(''type'', PStr ''button''),
          (''body'', PDict [(''text'', PStr (strip body))]), (''action'', PDict [(''buttons'', PList vs)])]) @ ctx) h))"

definition send_otp :: "meta_ops \<Rightarrow> meta_client \<Rightarrow> string \<Rightarrow> string \<Rightarrow> string meta_io" where
  "send_otp ops c phone otp h = (case mt_otp_template c of
     None \<Rightarrow> (h, Inl (MetaValueError ''Meta sender has no approved AUTHENTICATION template for OTP delivery''))
   | Some name \<Rightarrow>
      if \<not> spans 6 10 is_digit otp then (h, Inl (MetaValueError ''OTP code must contain 6 to 10 digits''))
      else let v = PList [PDict [(''type'', PStr ''text''), (''text'', PStr otp)]] in
        send_template ops c phone name (mt_language c)
          [PDict [(''type'', PStr ''body''), (''parameters'', v)],
           PDict [(''type'', PStr ''button''), (''sub_type'', PStr ''url''), (''index'', PStr ''0''), (''parameters'', v)]] h)"

section \<open>Read receipts\<close>

definition read_control :: "meta_ops \<Rightarrow> meta_client \<Rightarrow> meta_reply \<Rightarrow> meta_exn + unit" where
  "read_control ops c r = (case r of
     Answer status headers body \<Rightarrow>
       and_then (read_bounded c headers body) (\<lambda>raw.
         if \<not> success status then Inl (provider_failure ops status headers)
         else and_then (decode_json ops raw) (\<lambda>v.
           if get_field v ''success'' = PBool True then Inr () else Inl (failure ''invalid_response'' False)))
   | _ \<Rightarrow> Inl (no_reply r))"

definition mark_read :: "meta_ops \<Rightarrow> meta_client \<Rightarrow> string \<Rightarrow> bool \<Rightarrow> unit meta_io" where
  "mark_read ops c i typing h =
    (if \<not> wa_message_id_ok i then (h, Inl (MetaValueError ''Invalid Meta message identifier''))
     else let q = post_json c (PDict ([(''messaging_product'', PStr ''whatsapp''), (''status'', PStr ''read''),
         (''message_id'', PStr i)] @ (if typing then [(''typing_indicator'', PDict [(''type'', PStr ''text'')])] else [])))
       in (h @ [q], read_control ops c (mo_net ops h q)))"

section \<open>Media\<close>

definition safe_char :: "char \<Rightarrow> char" where
  "safe_char c = (if alnum_or ''._-'' c then c else CHR ''_'')"

definition safe_filename :: "string \<Rightarrow> string" where
  "safe_filename s = take 200 (map safe_char s)"

definition read_upload :: "meta_ops \<Rightarrow> meta_client \<Rightarrow> meta_reply \<Rightarrow> meta_exn + string" where
  "read_upload ops c r = (case r of
     Answer status headers body \<Rightarrow>
       and_then (read_bounded c headers body) (\<lambda>raw.
         if \<not> success status then Inl (provider_failure ops status headers)
         else and_then (decode_json ops raw) (\<lambda>v. case get_field v ''id'' of
             PStr s \<Rightarrow> if media_id_ok s then Inr s else Inl (failure ''invalid_response'' False)
           | _ \<Rightarrow> Inl (failure ''invalid_response'' False)))
   | _ \<Rightarrow> Inl (no_reply r))"

definition upload_media :: "meta_ops \<Rightarrow> meta_client \<Rightarrow> byte list \<Rightarrow> string \<Rightarrow> string \<Rightarrow> string meta_io" where
  "upload_media ops c content mime name h =
    (if content = [] \<or> 67108864 < length content
     then (h, Inl (MetaValueError ''Outbound media is empty or exceeds its safe limit''))
     else if \<not> mime_ok mime then (h, Inl (MetaValueError ''Outbound media MIME type is invalid''))
     else let q = \<lparr> mq_post = True, mq_url = graph_url c (mt_phone_number_id c @ ''/media''), mq_token = mt_token c,
           mq_json = None, mq_file = Some \<lparr> fl_name = (if safe_filename name = [] then ''attachment'' else safe_filename name),
             fl_content = content, fl_mime = mime \<rparr> \<rparr>
       in (h @ [q], read_upload ops c (mo_net ops h q)))"

definition send_media ::
  "meta_ops \<Rightarrow> meta_client \<Rightarrow> string \<Rightarrow> string \<Rightarrow> string \<Rightarrow> string option \<Rightarrow> string option \<Rightarrow> bool \<Rightarrow> string option \<Rightarrow>
   string meta_io" where
  "send_media ops c phone kind i caption filename voice reply_to h =
    (let cap = (case caption of None \<Rightarrow> [] | Some s \<Rightarrow> s); name = (case filename of None \<Rightarrow> [] | Some s \<Rightarrow> s) in
     if kind \<notin> {''audio'', ''document'', ''image'', ''video''}
     then (h, Inl (MetaValueError ''Outbound WhatsApp media type is invalid''))
     else if \<not> media_id_ok i then (h, Inl (MetaValueError ''Outbound WhatsApp media identifier is invalid''))
     else if cap \<noteq> [] \<and> (kind = ''audio'' \<or> 1024 < length cap)
     then (h, Inl (MetaValueError ''Outbound WhatsApp media caption is invalid''))
     else if name \<noteq> [] \<and> kind \<noteq> ''document'' then (h, Inl (MetaValueError ''Only documents support outbound filenames''))
     else if voice \<and> kind \<noteq> ''audio'' then (h, Inl (MetaValueError ''Only audio can be sent as a native voice note''))
     else (case reply_context reply_to of
        Inl e \<Rightarrow> (h, Inl e)
      | Inr ctx \<Rightarrow> meta_send ops c phone (individual kind (PDict ([(''id'', PStr i)]
          @ (if cap = [] then [] else [(''caption'', PStr cap)])
          @ (if name = [] then [] else [(''filename'', PStr (safe_filename name))])
          @ (if voice then [(''voice'', PBool True)] else []))) @ ctx) h))"

definition safe_media_url :: "meta_ops \<Rightarrow> string \<Rightarrow> bool option" where
  "safe_media_url ops value = map_option (\<lambda>u.
     let host = lower (case url_hostname u of None \<Rightarrow> [] | Some h \<Rightarrow> h) in
     url_scheme u = ''https'' \<and> host \<noteq> []
     \<and> (host = ''lookaside.fbsbx.com'' \<or> ends_with host ''.facebook.com'' \<or> ends_with host ''.fbcdn.net'' \<or> ends_with host ''.fbsbx.com'')
     \<and> url_username u = None \<and> url_password u = None) (mo_split ops value)"

record downloaded =
  dl_content :: "byte list"
  dl_mime :: string
  dl_sha :: string

definition hex_char :: "char \<Rightarrow> bool" where
  "hex_char c = (is_digit c \<or> (97 \<le> code c \<and> code c \<le> 102) \<or> (65 \<le> code c \<and> code c \<le> 70))"

definition get_media :: "meta_client \<Rightarrow> string \<Rightarrow> meta_call" where
  "get_media c u = \<lparr> mq_post = False, mq_url = u, mq_token = mt_token c, mq_json = None, mq_file = None \<rparr>"

definition media_failure :: "meta_ops \<Rightarrow> int \<Rightarrow> (string \<Rightarrow> string option) \<Rightarrow> meta_exn" where
  "media_failure ops status headers = MetaProviderError \<lparr> mf_category = ''provider'', mf_retryable = 500 \<le> status,
     mf_status = Some status, mf_code = None,
     mf_request = provider_request_id_hash (mo_sha ops) (headers ''x-fb-request-id''), mf_retry_after = None \<rparr>"

definition media_location :: "meta_ops \<Rightarrow> meta_client \<Rightarrow> meta_reply \<Rightarrow> meta_exn + (pyval \<times> string)" where
  "media_location ops c r = (case r of
     Answer status headers body \<Rightarrow>
       and_then (read_bounded c headers body) (\<lambda>raw.
         if \<not> success status then Inl (media_failure ops status headers)
         else and_then (decode_json ops raw) (\<lambda>v. case get_field v ''url'' of
             PStr u \<Rightarrow> (case safe_media_url ops u of
                 None \<Rightarrow> Inl (MetaValueError ''Invalid URL'')
               | Some safe \<Rightarrow> if safe then Inr (v, u) else Inl (failure ''invalid_response'' False))
           | _ \<Rightarrow> Inl (failure ''invalid_response'' False)))
   | _ \<Rightarrow> Inl (no_reply r))"

definition read_media :: "meta_ops \<Rightarrow> int \<Rightarrow> pyval \<Rightarrow> meta_reply \<Rightarrow> meta_exn + downloaded" where
  "read_media ops max_bytes v r = (case r of
     Answer status headers body \<Rightarrow>
       if \<not> success status then Inl (media_failure ops status headers)
       else if max_bytes < int (length body) then Inl (failure ''invalid_response'' False)
       else let actual = mo_sha ops body in
         and_then (case get_field v ''sha256'' of
            PStr e \<Rightarrow> if spans 64 64 hex_char e \<and> lower e \<noteq> actual then Inl (failure ''invalid_response'' False) else Inr ()
          | _ \<Rightarrow> Inr ()) (\<lambda>_. Inr \<lparr> dl_content = body,
             dl_mime = take 160 (case get_field v ''mime_type'' of PStr s \<Rightarrow> s | _ \<Rightarrow> ''application/octet-stream''),
             dl_sha = actual \<rparr>)
   | _ \<Rightarrow> Inl (no_reply r))"

definition download_media :: "meta_ops \<Rightarrow> meta_client \<Rightarrow> string \<Rightarrow> int \<Rightarrow> downloaded meta_io" where
  "download_media ops c i max_bytes h =
    (if \<not> media_id_ok i then (h, Inl (MetaValueError ''Invalid Meta media identifier''))
     else if \<not> (65536 \<le> max_bytes \<and> max_bytes \<le> 67108864)
     then (h, Inl (MetaValueError ''Media limit is outside the supported range''))
     else let q = get_media c (graph_url c i) in
      (case media_location ops c (mo_net ops h q) of
         Inl e \<Rightarrow> (h @ [q], Inl e)
       | Inr (v, u) \<Rightarrow> (let q2 = get_media c u in (h @ [q, q2], read_media ops max_bytes v (mo_net ops (h @ [q]) q2)))))"

end
