(* ===== verification/Delivery.thy ===== *)
theory Delivery
  imports Ingress MetaClient
begin

text \<open>
  Outbound WhatsApp messages (\<^verbatim>\<open>app/services/whatsapp.py\<close>): the partition of a long text, the keys of its parts,
  the delivery of one message at most once, and the delivery statuses the provider reports later.

  A delivery is four transactions: the row is prepared, claimed as \<^verbatim>\<open>sending\<close>, submitted to the provider, and settled.
  Each is a definition of its own, so that theory DeliverySafety can interleave them with other work and
  with crashes; \<open>deliver_once\<close> and \<open>deliver_media_once\<close> compose them as the code does.

  Two concurrent workers with the same message are not modelled: the job claim admits one at a time.
\<close>

record delivery_ops =
  dv_meta :: meta_ops
  dv_text :: ingress_ops

section \<open>Parts of a text\<close>

text \<open>\<^verbatim>\<open>s.rfind(c)\<close>.\<close>

definition rfind :: "char \<Rightarrow> string \<Rightarrow> int" where
  "rfind c s = int (length (dropWhile (\<lambda>x. x \<noteq> c) (rev s))) - 1"

definition split_at :: "nat \<Rightarrow> string \<Rightarrow> nat" where
  "split_at m s = (let boundary = max (rfind CHR 0x0A (take m s)) (rfind CHR '' '' (take m s))
     in if int (m div 2) \<le> boundary then nat (boundary + 1) else m)"

lemma split_at_pos: "0 < m \<Longrightarrow> 0 < split_at m s"
  by (auto simp: split_at_def Let_def)

function split_loop :: "nat \<Rightarrow> string \<Rightarrow> string list" where
  "split_loop m s = (if m = 0 \<or> length s \<le> m then [s]
     else take (split_at m s) s # split_loop m (drop (split_at m s) s))"
  by pat_completeness auto
termination
proof (relation "measure (\<lambda>(m, s). length s)")
  fix m :: nat and s :: string
  assume "\<not> (m = 0 \<or> length s \<le> m)"
  then have "0 < split_at m s" "0 < length s" using split_at_pos by auto
  then show "((m, drop (split_at m s) s), m, s) \<in> measure (\<lambda>(m, s). length s)" by simp
qed simp

declare split_loop.simps [simp del]

text \<open>\<open>None\<close> is the \<^verbatim>\<open>ValueError\<close> of a maximum below one.\<close>

definition split_text :: "nat \<Rightarrow> string \<Rightarrow> string list option" where
  "split_text m body = (if m < 1 then None else Some (split_loop m body))"

definition chunks_of :: "string \<Rightarrow> string list" where
  "chunks_of body = split_loop max_text body"

definition idempotency_key :: "delivery_ops \<Rightarrow> ident \<Rightarrow> string \<Rightarrow> string" where
  "idempotency_key ops event purpose = ''whatsapp:'' @ sha_text (dv_text ops) (event @ [CHR 0x00] @ purpose)"

definition pad4 :: "nat \<Rightarrow> string" where
  "pad4 n = replicate (4 - length (show_nat n)) CHR ''0'' @ show_nat n"

text \<open>The purpose of part \<open>i\<close> (counted from one) of \<open>n\<close>.\<close>

definition part_purpose :: "string \<Rightarrow> nat \<Rightarrow> nat \<Rightarrow> string" where
  "part_purpose purpose n i = (if 1 < n then purpose @ '':chunk:'' @ pad4 i else purpose)"

definition text_effect_keys :: "delivery_ops \<Rightarrow> ident \<Rightarrow> string \<Rightarrow> string \<Rightarrow> string list" where
  "text_effect_keys ops event purpose body =
    (let n = length (chunks_of body) in map (\<lambda>i. idempotency_key ops event (part_purpose purpose n i)) [1..<n + 1])"

section \<open>What a message says\<close>

definition text_field :: "ingress_ops \<Rightarrow> pyval \<Rightarrow> string \<Rightarrow> string" where
  "text_field ops v k = (case v of PDict d \<Rightarrow> strip (to_text ops (dict_or d k (PStr []))) | _ \<Rightarrow> [])"

definition reply_title :: "ingress_ops \<Rightarrow> (string \<times> pyval) list \<Rightarrow> string" where
  "reply_title ops r = strip (if truthy (dict_get r ''title'') then to_text ops (dict_get r ''title'')
     else if truthy (dict_get r ''id'') then to_text ops (dict_get r ''id'') else [])"

definition message_text :: "ingress_ops \<Rightarrow> (string \<times> pyval) list \<Rightarrow> string" where
  "message_text ops m =
    (let kind = to_text ops (dict_or m ''type'' (PStr ''unknown'')) in
     if kind = ''text'' then text_field ops (dict_get m ''text'') ''body''
     else if kind \<in> {''image'', ''video'', ''document''} then text_field ops (dict_get m kind) ''caption''
     else if kind = ''button'' then text_field ops (dict_get m ''button'') ''text''
     else if kind = ''interactive'' then (case dict_get m ''interactive'' of
        PDict v \<Rightarrow> (case dict_get v ''button_reply'' of
            PDict r \<Rightarrow> reply_title ops r
          | _ \<Rightarrow> (case dict_get v ''list_reply'' of PDict r \<Rightarrow> reply_title ops r | _ \<Rightarrow> []))
      | _ \<Rightarrow> [])
     else [])"

text \<open>The inbound message of an event: \<^verbatim>\<open>extract_message(event.payload) or {}\<close>. An event that reaches delivery has one.\<close>

definition source_message :: "webhook_event \<Rightarrow> (string \<times> pyval) list" where
  "source_message ev = (case extract_message (wh_payload ev) of Some (PDict d) \<Rightarrow> d | _ \<Rightarrow> [])"

section \<open>Who may receive\<close>

definition receiving_identity :: "'a agent_db_scheme \<Rightarrow> ident \<Rightarrow> ident \<Rightarrow> string \<Rightarrow> phone_identity option" where
  "receiving_identity db tenant user phone = find (\<lambda>p. ph_tenant_id p = tenant \<and> ph_user_id p = user \<and> ph_phone p = phone) (ag_phones db)"

definition delivery_actor :: "'a agent_db_scheme \<Rightarrow> ident option \<Rightarrow> ident option \<Rightarrow> string \<Rightarrow> bool" where
  "delivery_actor db tenant user phone = (if \<not> present tenant \<or> \<not> present user then True
     else (case (receiving_identity db (the tenant) (the user) phone) of
        None \<Rightarrow> False
      | Some p \<Rightarrow> ph_status p = ''approved'' \<and> \<not> ph_opt_out p \<and> active_user db (the user)
          \<and> active_tenant db (the tenant) \<and> active_member db (the tenant) (the user)))"

section \<open>One message\<close>

record text_delivery =
  dc_event :: webhook_event
  dc_purpose :: string
  dc_phone :: string
  dc_body :: string
  dc_tenant :: "ident option"
  dc_user :: "ident option"
  dc_sender :: "(string \<times> string) option"
  dc_reply_to :: "string option"
  dc_buttons :: "(string \<times> string) list"

datatype delivery_error = DeliveryPermanent string | DeliveryLeaseLost | DeliveryMeta meta_failure | DeliveryValueError string
  | DeliveryIntegrity

definition delivery_key :: "delivery_ops \<Rightarrow> text_delivery \<Rightarrow> string" where
  "delivery_key ops c = idempotency_key ops (wh_id (dc_event c)) (dc_purpose c)"

definition delivery_scope :: "delivery_ops \<Rightarrow> wa_settings \<Rightarrow> (string \<times> string) option \<Rightarrow> string" where
  "delivery_scope ops st sender = receiver_scope (sha_text (dv_text ops)) (ms_env st) sender"

definition find_out :: "'a agent_db_scheme \<Rightarrow> string \<Rightarrow> wa_message option" where
  "find_out db key = find (\<lambda>m. wm_idempotency_key m = Some key) (ag_whatsapp db)"

definition set_out :: "string \<Rightarrow> (wa_message \<Rightarrow> wa_message) \<Rightarrow> 'a agent_db_scheme \<Rightarrow> 'a agent_db_scheme" where
  "set_out key f db = db\<lparr>ag_whatsapp := map (\<lambda>m. if wm_idempotency_key m = Some key then f m else m) (ag_whatsapp db)\<rparr>"

definition is_sent :: "wa_message \<Rightarrow> bool" where
  "is_sent m = (3 \<le> wm_status_rank m \<and> present (wm_meta_message_id m))"

definition unresolved_status :: "string \<Rightarrow> bool" where
  "unresolved_status s = (s \<in> {''sending'', ''ambiguous'', ''rejected''})"

definition differs :: "'b option \<Rightarrow> 'b \<Rightarrow> bool" where
  "differs x y = (case x of None \<Rightarrow> False | Some z \<Rightarrow> z \<noteq> y)"

datatype check_result = Refuse delivery_error | AlreadySent string | Proceed

definition deliver_check :: "delivery_ops \<Rightarrow> wa_settings \<Rightarrow> text_delivery \<Rightarrow> 'a agent_db_scheme \<Rightarrow> check_result" where
  "deliver_check ops st c db = (case find_out db (delivery_key ops c) of
     None \<Rightarrow> Proceed
   | Some m \<Rightarrow>
       if differs (wm_text m) (dc_body c) \<or> differs (wm_phone m) (dc_phone c)
          \<or> (wm_receiver_scope m \<noteq> [] \<and> wm_receiver_scope m \<noteq> delivery_scope ops st (dc_sender c))
       then Refuse (DeliveryPermanent ''WhatsApp replay differs from its prepared effect'')
       else if is_sent m then AlreadySent (the (wm_meta_message_id m))
       else if unresolved_status (wm_status m)
       then Refuse (DeliveryPermanent ''WhatsApp delivery outcome requires reconciliation'')
       else Proceed)"

definition sender_payload :: "(string \<times> string) option \<Rightarrow> (string \<times> pyval) list" where
  "sender_payload sender = (case sender of None \<Rightarrow> []
     | Some s \<Rightarrow> [(''sender_waba_id'', PStr (fst s)), (''sender_phone_number_id'', PStr (snd s))])"

definition outbound_row :: "delivery_ops \<Rightarrow> wa_settings \<Rightarrow> text_delivery \<Rightarrow> ident \<Rightarrow> time \<Rightarrow> wa_message" where
  "outbound_row ops st c i now = \<lparr> wm_id = i, wm_tenant_id = dc_tenant c, wm_user_id = dc_user c,
     wm_idempotency_key = Some (delivery_key ops c), wm_meta_message_id = None,
     wm_receiver_scope = delivery_scope ops st (dc_sender c), wm_wa_id = None, wm_phone = Some (dc_phone c),
     wm_direction = Outbound, wm_type = Some (if dc_buttons c = [] then ''text'' else ''interactive''),
     wm_text = Some (dc_body c), wm_reply_to = None, wm_media = [],
     wm_payload = [(''provider'', PStr (ms_backend st)), (''purpose'', PStr (dc_purpose c))] @ sender_payload (dc_sender c),
     wm_status = ''prepared'', wm_status_rank = 1, wm_created_at = now \<rparr>"

definition delivery_control :: "delivery_ops \<Rightarrow> text_delivery \<Rightarrow> control_request" where
  "delivery_control ops c = (let src = source_message (dc_event c); i = dict_get src ''id'' in
     \<lparr> cr_tenant_id = dc_tenant c, cr_user_id = dc_user c,
       cr_source_id = (if truthy i then to_text (dv_text ops) i else wh_id (dc_event c)),
       cr_source_text = message_text (dv_text ops) src, cr_body = dc_body c, cr_purpose = dc_purpose c,
       cr_key = delivery_key ops c, cr_sender = dc_sender c \<rparr>)"

text \<open>Fresh identifiers and clock readings of one attempt.\<close>

record attempt =
  at_ids :: "ident \<times> ident \<times> ident"
  at_row :: ident
  at_prepare :: time
  at_claim :: time
  at_submit :: time

text \<open>Prepare: the state the worker goes on with, and the committed one. Without a new row nothing is committed yet.\<close>

definition deliver_prepare ::
  "delivery_ops \<Rightarrow> wa_settings \<Rightarrow> text_delivery \<Rightarrow> attempt \<Rightarrow> 'a agent_db_scheme \<Rightarrow>
   agent_message option \<times> 'a agent_db_scheme \<times> 'a agent_db_scheme" where
  "deliver_prepare ops st c a db =
    (case record_control_reply (sha_text (dv_text ops)) (ms_env st) (at_prepare a) (at_ids a) (delivery_control ops c) db of
       (reply, db1) \<Rightarrow> (case find_out db (delivery_key ops c) of
          None \<Rightarrow> (let db2 = db1\<lparr>ag_whatsapp := ag_whatsapp db1 @ [outbound_row ops st c (at_row a) (at_prepare a)]\<rparr>
            in (reply, db2, db2))
        | Some _ \<Rightarrow> (reply, db1, db)))"

definition mark_sending :: "string \<Rightarrow> 'a agent_db_scheme \<Rightarrow> 'a agent_db_scheme" where
  "mark_sending key db = set_out key (\<lambda>m. m\<lparr>wm_status := ''sending'', wm_status_rank := 2\<rparr>) db"

text \<open>Submission: what came of it, and the requests made.\<close>

datatype outcome = Escaped delivery_error | Invalid string | ProviderFailed meta_failure | Accepted string

definition outcome_of :: "meta_exn + string \<Rightarrow> outcome" where
  "outcome_of r = (case r of Inl (MetaValueError msg) \<Rightarrow> Invalid msg | Inl (MetaProviderError f) \<Rightarrow> ProviderFailed f | Inr i \<Rightarrow> Accepted i)"

definition local_send :: "ingress_ops \<Rightarrow> string \<Rightarrow> string \<Rightarrow> string" where
  "local_send ops phone body = ''local-msg-'' @ take 20 (sha_text ops (phone @ '':'' @ body))"

definition messaging_client :: "wa_settings \<Rightarrow> (string \<times> string) option \<Rightarrow> meta_exn + meta_client" where
  "messaging_client st sender = (case sender of None \<Rightarrow> client_from_settings st | Some s \<Rightarrow> client_for_reply st s)"

definition transmit ::
  "delivery_ops \<Rightarrow> wa_settings \<Rightarrow> text_delivery \<Rightarrow> meta_call list \<Rightarrow> meta_call list \<times> outcome" where
  "transmit ops st c h =
    (if ms_backend st = ''mock'' then (h, Accepted (local_send (dv_text ops) (dc_phone c) (dc_body c)))
     else if ms_backend st = ''meta'' then (case messaging_client st (dc_sender c) of
        Inl e \<Rightarrow> (h, outcome_of (Inl e))
      | Inr cl \<Rightarrow> (case (if dc_buttons c = [] then send_text (dv_meta ops) cl (dc_phone c) (dc_body c) (dc_reply_to c) h
            else send_buttons (dv_meta ops) cl (dc_phone c) (dc_body c) (dc_buttons c) (dc_reply_to c) h) of
          (h', r) \<Rightarrow> (h', outcome_of r)))
     else (h, Escaped (DeliveryPermanent ''WhatsApp delivery is disabled'')))"

definition deliver_submit ::
  "delivery_ops \<Rightarrow> wa_settings \<Rightarrow> text_delivery \<Rightarrow> time \<Rightarrow> 'a agent_db_scheme \<Rightarrow> job_fence option \<Rightarrow> meta_call list \<Rightarrow>
   job_fence option \<times> meta_call list \<times> outcome" where
  "deliver_submit ops st c now db fence h = (case assert_current_job_lease db now fence of
     (fence', Inl _) \<Rightarrow> (fence', h, Escaped DeliveryLeaseLost)
   | (fence', Inr _) \<Rightarrow>
       if \<not> delivery_actor db (dc_tenant c) (dc_user c) (dc_phone c)
       then (fence', h, Escaped (DeliveryPermanent ''The receiving account is no longer authorized''))
       else (fence', transmit ops st c h))"

definition int_field :: "string \<Rightarrow> int option \<Rightarrow> (string \<times> pyval) list" where
  "int_field k x = (case x of None \<Rightarrow> [] | Some n \<Rightarrow> [(k, PInt n)])"

definition text_entry :: "string \<Rightarrow> string option \<Rightarrow> (string \<times> pyval) list" where
  "text_entry k x = (case x of None \<Rightarrow> [] | Some s \<Rightarrow> [(k, PStr s)])"

definition provider_error_payload :: "meta_failure \<Rightarrow> pyval" where
  "provider_error_payload f = PDict ([(''category'', PStr (mf_category f)), (''retryable'', PBool (mf_retryable f))]
     @ int_field ''http_status'' (mf_status f) @ text_entry ''provider_code'' (mf_code f)
     @ text_entry ''request_id_hash'' (mf_request f) @ int_field ''retry_after_seconds'' (mf_retry_after f))"

definition ambiguous_failure :: "meta_failure \<Rightarrow> bool" where
  "ambiguous_failure f = (mf_category f \<in> {''timeout'', ''transport''}
     \<or> (mf_category f = ''provider'' \<and> (case mf_status f of None \<Rightarrow> False | Some n \<Rightarrow> 500 \<le> n)))"

definition failed_status :: "meta_failure \<Rightarrow> string" where
  "failed_status f = (if ambiguous_failure f then ''ambiguous'' else if \<not> mf_retryable f then ''rejected'' else ''failed'')"

text \<open>The part after the last colon of a key; \<open>key.rsplit(":", 1)[-1][:16]\<close>.\<close>

definition after_colon :: "string \<Rightarrow> string" where
  "after_colon s = last (split_on CHR '':'' s)"

definition record_failure :: "meta_failure \<Rightarrow> wa_message \<Rightarrow> wa_message" where
  "record_failure f m = m\<lparr>wm_status := failed_status f,
     wm_payload := dict_set (wm_payload m) ''provider_error'' (provider_error_payload f)\<rparr>"

definition record_sent :: "string \<Rightarrow> wa_message \<Rightarrow> wa_message" where
  "record_sent i m = m\<lparr>wm_meta_message_id := Some i, wm_status := ''sent'', wm_status_rank := 3\<rparr>"

definition id_taken :: "string \<Rightarrow> string \<Rightarrow> string \<Rightarrow> 'a agent_db_scheme \<Rightarrow> bool" where
  "id_taken key scope i db = list_ex (\<lambda>m. wm_idempotency_key m \<noteq> Some key \<and> wm_receiver_scope m = scope
     \<and> wm_meta_message_id m = Some i) (ag_whatsapp db)"

definition transport_id :: "wa_settings \<Rightarrow> string \<Rightarrow> string \<Rightarrow> string" where
  "transport_id st key i = (if ms_backend st = ''mock'' then i @ '':'' @ take 16 (after_colon key) else i)"

definition mark_control :: "agent_message option \<Rightarrow> 'a agent_db_scheme \<Rightarrow> 'a agent_db_scheme" where
  "mark_control reply db = (case reply of None \<Rightarrow> db
     | Some r \<Rightarrow> set_message (am_id r) (\<lambda>m. m\<lparr>am_metadata := dict_set (am_metadata m) ''delivery_status'' (PStr ''sent'')\<rparr>) db)"

definition deliver_settle ::
  "delivery_ops \<Rightarrow> wa_settings \<Rightarrow> text_delivery \<Rightarrow> agent_message option \<Rightarrow> outcome \<Rightarrow> 'a agent_db_scheme \<Rightarrow>
   'a agent_db_scheme \<times> (delivery_error + string)" where
  "deliver_settle ops st c reply out db =
    (let key = delivery_key ops c in case out of
       Escaped e \<Rightarrow> (db, Inl e)
     | Invalid msg \<Rightarrow> (set_out key (\<lambda>m. m\<lparr>wm_status := ''rejected''\<rparr>) db,
         Inl (DeliveryPermanent ''WhatsApp delivery request is invalid''))
     | ProviderFailed f \<Rightarrow> (set_out key (record_failure f) db,
         Inl (if failed_status f = ''failed'' then DeliveryMeta f
              else DeliveryPermanent ''WhatsApp delivery cannot be retried safely''))
     | Accepted i \<Rightarrow>
         if id_taken key (delivery_scope ops st (dc_sender c)) (transport_id st key i) db then (db, Inl DeliveryIntegrity)
         else (mark_control reply (set_out key (\<lambda>m. record_sent (transport_id st key i)
            (if ms_backend st = ''mock'' then m\<lparr>wm_payload := dict_set (wm_payload m) ''provider_message_id'' (PStr i)\<rparr> else m)) db),
           Inr i))"

text \<open>The world of a delivery: the database, the fence of the job, and the requests made so far.\<close>

record 'd world =
  ww_db :: 'd
  ww_fence :: "job_fence option"
  ww_net :: "meta_call list"

definition deliver_once ::
  "delivery_ops \<Rightarrow> wa_settings \<Rightarrow> attempt \<Rightarrow> text_delivery \<Rightarrow> 'a agent_db_scheme world \<Rightarrow>
   'a agent_db_scheme world \<times> (delivery_error + string)" where
  "deliver_once ops st a c w =
    (let db = ww_db w; key = delivery_key ops c in
     case deliver_check ops st c db of
       Refuse e \<Rightarrow> (w, Inl e)
     | AlreadySent i \<Rightarrow> (w, Inr i)
     | Proceed \<Rightarrow> (case deliver_prepare ops st c a db of (reply, db1, committed) \<Rightarrow>
        (case assert_current_job_lease db1 (at_claim a) (ww_fence w) of
           (f1, Inl _) \<Rightarrow> (w\<lparr>ww_db := committed, ww_fence := f1\<rparr>, Inl DeliveryLeaseLost)
         | (f1, Inr _) \<Rightarrow>
            let db2 = mark_sending key db1 in
            (case deliver_submit ops st c (at_submit a) db2 f1 (ww_net w) of (f2, h, out) \<Rightarrow>
              (case deliver_settle ops st c reply out db2 of (db3, r) \<Rightarrow>
                (w\<lparr>ww_db := db3, ww_fence := f2, ww_net := h\<rparr>, r))))))"

section \<open>The parts of a text\<close>

text \<open>\<open>fresh\<close> gives the attempt of each part; the first failure ends the delivery.\<close>

fun deliver_parts ::
  "delivery_ops \<Rightarrow> wa_settings \<Rightarrow> (nat \<Rightarrow> attempt) \<Rightarrow> text_delivery \<Rightarrow> nat \<Rightarrow> nat \<Rightarrow> string list \<Rightarrow> 'a agent_db_scheme world \<Rightarrow>
   'a agent_db_scheme world \<times> (delivery_error + string list)" where
  "deliver_parts ops st fresh c n i [] w = (w, Inr [])"
| "deliver_parts ops st fresh c n i (s # ss) w =
    (case deliver_once ops st (fresh i) (c\<lparr>dc_purpose := part_purpose (dc_purpose c) n i, dc_body := s\<rparr>) w of
       (w1, Inl e) \<Rightarrow> (w1, Inl e)
     | (w1, Inr x) \<Rightarrow> (case deliver_parts ops st fresh c n (Suc i) ss w1 of
         (w2, Inl e) \<Rightarrow> (w2, Inl e) | (w2, Inr xs) \<Rightarrow> (w2, Inr (x # xs))))"

definition deliver_text_chunks ::
  "delivery_ops \<Rightarrow> wa_settings \<Rightarrow> (nat \<Rightarrow> attempt) \<Rightarrow> text_delivery \<Rightarrow> 'a agent_db_scheme world \<Rightarrow>
   'a agent_db_scheme world \<times> (delivery_error + string list)" where
  "deliver_text_chunks ops st fresh c w =
    deliver_parts ops st fresh c (length (chunks_of (dc_body c))) 1 (chunks_of (dc_body c)) w"

section \<open>Media\<close>

record media_delivery =
  dm_event :: webhook_event
  dm_purpose :: string
  dm_phone :: string
  dm_content :: "byte list"
  dm_mime :: string
  dm_filename :: string
  dm_kind :: string
  dm_voice :: bool
  dm_tenant :: ident
  dm_user :: ident
  dm_sender :: "(string \<times> string) option"
  dm_reply_to :: "string option"

definition media_key :: "delivery_ops \<Rightarrow> media_delivery \<Rightarrow> string" where
  "media_key ops c = idempotency_key ops (wh_id (dm_event c)) (dm_purpose c)"

definition media_check :: "delivery_ops \<Rightarrow> wa_settings \<Rightarrow> media_delivery \<Rightarrow> 'a agent_db_scheme \<Rightarrow> check_result" where
  "media_check ops st c db = (case find_out db (media_key ops c) of
     None \<Rightarrow> Proceed
   | Some m \<Rightarrow>
       if (truthy (dict_get (wm_payload m) ''sha256'')
            \<and> dict_get (wm_payload m) ''sha256'' \<noteq> PStr (io_sha (dv_text ops) (dm_content c)))
          \<or> differs (wm_phone m) (dm_phone c)
          \<or> (wm_receiver_scope m \<noteq> [] \<and> wm_receiver_scope m \<noteq> delivery_scope ops st (dm_sender c))
       then Refuse (DeliveryPermanent ''WhatsApp media replay differs from its prepared effect'')
       else if is_sent m then AlreadySent (the (wm_meta_message_id m))
       else if unresolved_status (wm_status m)
       then Refuse (DeliveryPermanent ''WhatsApp media delivery outcome requires reconciliation'')
       else Proceed)"

definition media_row :: "delivery_ops \<Rightarrow> wa_settings \<Rightarrow> media_delivery \<Rightarrow> ident \<Rightarrow> time \<Rightarrow> wa_message" where
  "media_row ops st c i now = \<lparr> wm_id = i, wm_tenant_id = Some (dm_tenant c), wm_user_id = Some (dm_user c),
     wm_idempotency_key = Some (media_key ops c), wm_meta_message_id = None,
     wm_receiver_scope = delivery_scope ops st (dm_sender c), wm_wa_id = None, wm_phone = Some (dm_phone c),
     wm_direction = Outbound, wm_type = Some (dm_kind c), wm_text = None, wm_reply_to = None, wm_media = [],
     wm_payload = [(''provider'', PStr (ms_backend st)), (''purpose'', PStr (dm_purpose c)), (''mime_type'', PStr (dm_mime c)),
       (''filename'', PStr (dm_filename c)), (''size_bytes'', PInt (int (length (dm_content c)))),
       (''sha256'', PStr (io_sha (dv_text ops) (dm_content c)))],
     wm_status = ''prepared'', wm_status_rank = 1, wm_created_at = now \<rparr>"

definition media_prepare ::
  "delivery_ops \<Rightarrow> wa_settings \<Rightarrow> media_delivery \<Rightarrow> ident \<Rightarrow> time \<Rightarrow> 'a agent_db_scheme \<Rightarrow> 'a agent_db_scheme" where
  "media_prepare ops st c i now db = (case find_out db (media_key ops c) of
     None \<Rightarrow> db\<lparr>ag_whatsapp := ag_whatsapp db @ [media_row ops st c i now]\<rparr> | Some _ \<Rightarrow> db)"

text \<open>Who may go on: the job lease, then the receiving account.\<close>

definition may_send :: "'a agent_db_scheme \<Rightarrow> time \<Rightarrow> job_fence option \<Rightarrow> ident option \<Rightarrow> ident option \<Rightarrow> string \<Rightarrow>
  job_fence option \<times> (delivery_error + unit)" where
  "may_send db now fence tenant user phone = (case assert_current_job_lease db now fence of
     (fence', Inl _) \<Rightarrow> (fence', Inl DeliveryLeaseLost)
   | (fence', Inr _) \<Rightarrow> (fence', if delivery_actor db tenant user phone then Inr ()
       else Inl (DeliveryPermanent ''The receiving account is no longer authorized'')))"

text \<open>The identifier of the uploaded content, uploading it once: with the state after that commit.\<close>

definition upload_once ::
  "delivery_ops \<Rightarrow> meta_client \<Rightarrow> media_delivery \<Rightarrow> 'a agent_db_scheme \<Rightarrow> meta_call list \<Rightarrow>
   'a agent_db_scheme \<times> meta_call list \<times> (meta_exn + string)" where
  "upload_once ops cl c db h =
    (case find_out db (media_key ops c) of
       None \<Rightarrow> (db, h, Inl (MetaValueError ''row is gone''))
     | Some m \<Rightarrow> (case dict_get (wm_payload m) ''uploaded_media_id'' of
         PStr i \<Rightarrow> (db, h, Inr i)
       | _ \<Rightarrow> (case upload_media (dv_meta ops) cl (dm_content c) (dm_mime c) (dm_filename c) h of
           (h', Inl e) \<Rightarrow> (db, h', Inl e)
         | (h', Inr i) \<Rightarrow> (set_out (media_key ops c)
             (\<lambda>m. m\<lparr>wm_payload := dict_set (wm_payload m) ''uploaded_media_id'' (PStr i)\<rparr>) db, h', Inr i))))"

text \<open>Settling: a \<^verbatim>\<open>ValueError\<close> escapes, unlike in \<open>deliver_settle\<close>.\<close>

definition media_settle ::
  "delivery_ops \<Rightarrow> wa_settings \<Rightarrow> media_delivery \<Rightarrow> outcome \<Rightarrow> 'a agent_db_scheme \<Rightarrow>
   'a agent_db_scheme \<times> (delivery_error + string)" where
  "media_settle ops st c out db = (let key = media_key ops c in case out of
     Escaped e \<Rightarrow> (db, Inl e)
   | Invalid msg \<Rightarrow> (db, Inl (DeliveryValueError msg))
   | ProviderFailed f \<Rightarrow> (set_out key (record_failure f) db,
       Inl (if failed_status f = ''failed'' then DeliveryMeta f
            else DeliveryPermanent ''WhatsApp media delivery cannot be retried safely''))
   | Accepted i \<Rightarrow> if id_taken key (delivery_scope ops st (dm_sender c)) i db then (db, Inl DeliveryIntegrity)
       else (set_out key (record_sent i) db, Inr i))"

text \<open>Between the commit that marks the row as sending and the settling commit.\<close>

definition media_submit ::
  "delivery_ops \<Rightarrow> wa_settings \<Rightarrow> media_delivery \<Rightarrow> string \<times> string \<Rightarrow> time \<Rightarrow> 'a agent_db_scheme \<Rightarrow> job_fence option \<Rightarrow>
   meta_call list \<Rightarrow> job_fence option \<times> 'a agent_db_scheme \<times> meta_call list \<times> outcome" where
  "media_submit ops st c sender now db fence h =
    (case may_send db now fence (Some (dm_tenant c)) (Some (dm_user c)) (dm_phone c) of
       (f1, Inl e) \<Rightarrow> (f1, db, h, Escaped e)
     | (f1, Inr _) \<Rightarrow> (case client_for_reply st sender of
         Inl e \<Rightarrow> (f1, db, h, outcome_of (Inl e))
       | Inr cl \<Rightarrow> (case upload_once ops cl c db h of
           (db1, h1, Inl e) \<Rightarrow> (f1, db1, h1, outcome_of (Inl e))
         | (db1, h1, Inr i) \<Rightarrow> (case may_send db1 now f1 (Some (dm_tenant c)) (Some (dm_user c)) (dm_phone c) of
             (f2, Inl e) \<Rightarrow> (f2, db1, h1, Escaped e)
           | (f2, Inr _) \<Rightarrow> (case send_media (dv_meta ops) cl (dm_phone c) (dm_kind c) i None None (dm_voice c) (dm_reply_to c) h1 of
               (h2, r) \<Rightarrow> (f2, db1, h2, outcome_of r))))))"

definition deliver_media_once ::
  "delivery_ops \<Rightarrow> wa_settings \<Rightarrow> attempt \<Rightarrow> media_delivery \<Rightarrow> 'a agent_db_scheme world \<Rightarrow>
   'a agent_db_scheme world \<times> (delivery_error + string)" where
  "deliver_media_once ops st a c w =
    (case media_check ops st c (ww_db w) of
       Refuse e \<Rightarrow> (w, Inl e)
     | AlreadySent i \<Rightarrow> (w, Inr i)
     | Proceed \<Rightarrow>
        let db1 = media_prepare ops st c (at_row a) (at_prepare a) (ww_db w) in
        (case dm_sender c of
           None \<Rightarrow> (w\<lparr>ww_db := db1\<rparr>, Inl (DeliveryPermanent ''WhatsApp media delivery requires the configured Meta sender''))
         | Some sender \<Rightarrow>
             if ms_backend st \<noteq> ''meta''
             then (w\<lparr>ww_db := db1\<rparr>, Inl (DeliveryPermanent ''WhatsApp media delivery requires the configured Meta sender''))
             else (case assert_current_job_lease db1 (at_claim a) (ww_fence w) of
               (f1, Inl _) \<Rightarrow> (w\<lparr>ww_db := db1, ww_fence := f1\<rparr>, Inl DeliveryLeaseLost)
             | (f1, Inr _) \<Rightarrow>
                 (case media_submit ops st c sender (at_submit a) (mark_sending (media_key ops c) db1) f1 (ww_net w) of
                    (f2, db2, h, out) \<Rightarrow> (case media_settle ops st c out db2 of
                       (db3, r) \<Rightarrow> (w\<lparr>ww_db := db3, ww_fence := f2, ww_net := h\<rparr>, r))))))"

section \<open>Statuses the provider reports\<close>

definition delivery_rank :: "string \<Rightarrow> int option" where
  "delivery_rank = map_of [(''received'', 0), (''prepared'', 1), (''sending'', 2), (''sent'', 3), (''delivered'', 4), (''read'', 5)]"

definition apply_status :: "string \<Rightarrow> string \<Rightarrow> wa_message \<Rightarrow> wa_message" where
  "apply_status status stamp m = (case delivery_rank status of
     Some r \<Rightarrow> if wm_status_rank m \<le> r then m\<lparr>wm_status := status, wm_status_rank := r\<rparr> else m
   | None \<Rightarrow> if status = ''failed'' then m\<lparr>wm_payload := dict_set (wm_payload m) ''delivery_failure''
       (PDict [(''status'', PStr ''failed''), (''timestamp'', PStr stamp)])\<rparr> else m)"

definition set_webhook :: "ident \<Rightarrow> (webhook_event \<Rightarrow> webhook_event) \<Rightarrow> 'a wa_db_scheme \<Rightarrow> 'a wa_db_scheme" where
  "set_webhook i f db = db\<lparr>wd_webhooks := tbl_upd wh_id i f (wd_webhooks db)\<rparr>"

definition webhook_done :: "string \<Rightarrow> webhook_event \<Rightarrow> 'a wa_db_scheme \<Rightarrow> 'a wa_db_scheme" where
  "webhook_done s ev db = set_webhook (wh_id ev) (\<lambda>e. e\<lparr>wh_status := s\<rparr>) db"

text \<open>Which message a report is about, and what it says.\<close>

definition report_scope :: "ingress_ops \<Rightarrow> wa_settings \<Rightarrow> webhook_event \<Rightarrow> string" where
  "report_scope ops st ev = receiver_scope (sha_text ops) (ms_env st)
     (if ms_backend st = ''meta'' then extract_inbound_sender (wh_payload ev) else None)"

definition report_of :: "ingress_ops \<Rightarrow> (string \<times> pyval) list \<Rightarrow> string \<times> string \<times> string" where
  "report_of ops d = (to_text ops (dict_or d ''id'' (PStr [])), to_text ops (dict_or d ''status'' (PStr ''unknown'')),
     to_text ops (dict_or d ''timestamp'' (PStr ''unknown'')))"

definition reported_on :: "string \<Rightarrow> string \<Rightarrow> wa_message \<Rightarrow> bool" where
  "reported_on scope mid m = (wm_meta_message_id m = Some mid \<and> wm_receiver_scope m = scope)"

definition file_report ::
  "ident \<Rightarrow> time \<Rightarrow> string \<Rightarrow> string \<times> string \<times> string \<Rightarrow> (string \<times> pyval) list \<Rightarrow> 'a wa_db_scheme \<Rightarrow> 'a wa_db_scheme" where
  "file_report i now scope rep d db = (case rep of (mid, status, stamp) \<Rightarrow>
     if list_ex (\<lambda>e. we_meta_message_id e = mid \<and> we_receiver_scope e = scope \<and> we_status e = status
           \<and> we_event_timestamp e = stamp) (wd_receipts db) then db
     else db\<lparr>wd_receipts := wd_receipts db @
       [\<lparr> we_id = i, we_message_id = map_option wm_id (find (reported_on scope mid) (ag_whatsapp db)), we_receiver_scope = scope,
          we_meta_message_id = mid, we_status = status, we_event_timestamp = stamp, we_payload = d, we_created_at = now \<rparr>]\<rparr>)"

definition apply_report :: "string \<Rightarrow> string \<times> string \<times> string \<Rightarrow> 'a wa_db_scheme \<Rightarrow> 'a wa_db_scheme" where
  "apply_report scope rep db = (case rep of (mid, status, stamp) \<Rightarrow>
     db\<lparr>ag_whatsapp := map (\<lambda>m. if reported_on scope mid m then apply_status status stamp m else m) (ag_whatsapp db)\<rparr>)"

definition process_delivery ::
  "ingress_ops \<Rightarrow> wa_settings \<Rightarrow> ident \<Rightarrow> time \<Rightarrow> webhook_event \<Rightarrow> (string \<times> pyval) list \<Rightarrow> 'a wa_db_scheme \<Rightarrow> 'a wa_db_scheme" where
  "process_delivery ops st i now ev d db =
    webhook_done ''processed'' ev (apply_report (report_scope ops st ev) (report_of ops d)
      (file_report i now (report_scope ops st ev) (report_of ops d) d db))"

end
