(* ===== verification/Inbound.thy ===== *)
theory Inbound
  imports Delivery AgentActions
begin

text \<open>
  Processing of one inbound WhatsApp event (\<^verbatim>\<open>process_inbox_event\<close> and \<^verbatim>\<open>_process_message\<close> of
  \<^verbatim>\<open>app/services/whatsapp.py\<close>) up to the agent's turn: who the sender is, opt-out and opt-in, conversation reset, the
  message budget, the decision on a pending action and research consent. A message for the agent ends in \<open>NeedsTurn\<close>;
  theory ReplyDelivery takes up when the turn has produced a reply.

  Research events and the columns of attempt counters are left out. An error result carries the state that is
  committed when it is raised.
\<close>

record 's inbound_ops =
  ib_delivery :: delivery_ops
  ib_actions :: action_ops
  ib_hash :: "string \<Rightarrow> string"
  ib_redis :: "'s redis_ops"
  ib_rate :: rate_settings

record inbound_input =
  ii_row :: ident
  ii_now :: time
  ii_attempt :: attempt
  ii_link :: link
  ii_limit_at :: time
  ii_decide_at :: "time \<times> time \<times> time \<times> time"

datatype inbound_error = InPermanent string | InRuntime string | InDelivery delivery_error | InAction action_error
  | InIngress ingress_error | InAttributeError | InLeaseLost | InValueError

record turn_request =
  tr_tenant :: ident
  tr_user :: ident
  tr_identity :: ident
  tr_conversation :: "ident option"
  tr_sender :: "(string \<times> string) option"
  tr_external :: string
  tr_phone :: string
  tr_inbound :: ident
  tr_reply_to :: "string option"

datatype inbound_answer = Answered string | NeedsTurn turn_request

text \<open>The world of an inbound event: that of a delivery, the budgets, and the effects sent to connectors.\<close>

record ('d, 's) inbound_world =
  iw_world :: "'d world"
  iw_redis :: 's
  iw_effects :: "effect list"

abbreviation iw_db :: "('d, 's) inbound_world \<Rightarrow> 'd" where
  "iw_db w \<equiv> ww_db (iw_world w)"

definition with_db :: "('d \<Rightarrow> 'd) \<Rightarrow> ('d, 's) inbound_world \<Rightarrow> ('d, 's) inbound_world" where
  "with_db f w = w\<lparr>iw_world := (iw_world w)\<lparr>ww_db := f (ww_db (iw_world w))\<rparr>\<rparr>"

section \<open>Reading the message\<close>

definition split_prefix :: "string \<Rightarrow> string \<Rightarrow> string option" where
  "split_prefix p s = (if starts_with s p then Some (drop (length p) s) else None)"

definition button_id :: "(string \<times> pyval) list \<Rightarrow> string option" where
  "button_id m = (case dict_get m ''interactive'' of
     PDict v \<Rightarrow> (case dict_get v ''button_reply'' of
        PDict b \<Rightarrow> (case dict_get b ''id'' of PStr i \<Rightarrow> Some i | _ \<Rightarrow> None) | _ \<Rightarrow> None)
   | _ \<Rightarrow> None)"

definition uuid_text :: "string \<Rightarrow> bool" where
  "uuid_text s = spans 36 36 (\<lambda>c. hex_char c \<or> c = CHR ''-'') s"

definition interactive_action :: "(string \<times> pyval) list \<Rightarrow> (string \<times> ident) option" where
  "interactive_action m = (case button_id m of
     None \<Rightarrow> None
   | Some i \<Rightarrow> (case split_prefix ''agent_action:confirm:'' i of
       Some r \<Rightarrow> if uuid_text r then Some (''confirm'', r) else None
     | None \<Rightarrow> (case split_prefix ''agent_action:deny:'' i of
         Some r \<Rightarrow> if uuid_text r then Some (''deny'', r) else None
       | None \<Rightarrow> None)))"

definition policy_text :: "string \<Rightarrow> bool" where
  "policy_text s = (case s of [] \<Rightarrow> False | c # r \<Rightarrow> is_alnum c \<and> spans 0 31 (alnum_or ''._-'') r)"

definition interactive_consent :: "wa_settings \<Rightarrow> (string \<times> pyval) list \<Rightarrow> string option" where
  "interactive_consent st m =
    (let accept = (\<lambda>r. policy_text r \<and> r = ms_policy st) in
     case button_id m of
       None \<Rightarrow> None
     | Some i \<Rightarrow> (case split_prefix ''research_consent:grant:'' i of
         Some r \<Rightarrow> if accept r then Some ''grant'' else None
       | None \<Rightarrow> (case split_prefix ''research_consent:decline:'' i of
           Some r \<Rightarrow> if accept r then Some ''decline'' else None
         | None \<Rightarrow> None)))"

definition sender_phone :: "ingress_ops \<Rightarrow> (string \<times> pyval) list \<Rightarrow> string" where
  "sender_phone ops m = CHR ''+'' # lstrip_char CHR ''+'' (to_text ops (dict_or m ''from'' (PStr [])))"

definition reply_target :: "ingress_ops \<Rightarrow> (string \<times> pyval) list \<Rightarrow> string option" where
  "reply_target ops m = (case dict_get m ''context'' of
     PDict c \<Rightarrow> if truthy (dict_get c ''id'') then Some (to_text ops (dict_get c ''id'')) else None
   | _ \<Rightarrow> None)"

section \<open>The inbound row\<close>

definition inbound_row ::
  "delivery_ops \<Rightarrow> ident \<Rightarrow> time \<Rightarrow> webhook_event \<Rightarrow> (string \<times> pyval) list \<Rightarrow> string \<Rightarrow> phone_identity option \<Rightarrow> wa_message" where
  "inbound_row ops i now ev m scope p = (let t = dv_text ops in
     \<lparr> wm_id = i, wm_tenant_id = map_option ph_tenant_id p, wm_user_id = map_option ph_user_id p,
       wm_idempotency_key = Some (idempotency_key ops (wh_id ev) ''inbound''),
       wm_meta_message_id = Some (to_text t (dict_or m ''id'' (PStr []))), wm_receiver_scope = scope,
       wm_wa_id = Some (to_text t (dict_or m ''from'' (PStr []))), wm_phone = Some (sender_phone t m), wm_direction = Inbound,
       wm_type = Some (to_text t (dict_or m ''type'' (PStr ''unknown''))), wm_text = Some (message_text t m),
       wm_reply_to = reply_target t m, wm_media = [], wm_payload = m, wm_status = ''received'', wm_status_rank = 0,
       wm_created_at = now \<rparr>)"

definition find_inbound :: "'a agent_db_scheme \<Rightarrow> string \<Rightarrow> string \<Rightarrow> wa_message option" where
  "find_inbound db external scope = find (\<lambda>m. wm_meta_message_id m = Some external \<and> wm_receiver_scope m = scope) (ag_whatsapp db)"

definition set_inbound :: "ident \<Rightarrow> string \<Rightarrow> 'a agent_db_scheme \<Rightarrow> 'a agent_db_scheme" where
  "set_inbound i s db = db\<lparr>ag_whatsapp := tbl_upd wm_id i (\<lambda>m. m\<lparr>wm_status := s\<rparr>) (ag_whatsapp db)\<rparr>"

text \<open>The last transaction of a branch: the row and the event get their final status.\<close>

definition close_event :: "ident \<Rightarrow> string \<Rightarrow> webhook_event \<Rightarrow> 'a wa_db_scheme \<Rightarrow> 'a wa_db_scheme" where
  "close_event i s ev db = webhook_done ''processed'' ev (set_inbound i s db)"

section \<open>The sender\<close>

definition find_identity :: "'a agent_db_scheme \<Rightarrow> string \<Rightarrow> phone_identity option" where
  "find_identity db phone = find (\<lambda>p. ph_phone p = phone) (ag_phones db)"

definition set_opt_out :: "ident \<Rightarrow> bool \<Rightarrow> 'a agent_db_scheme \<Rightarrow> 'a agent_db_scheme" where
  "set_opt_out i b db = db\<lparr>ag_phones := tbl_upd ph_id i (\<lambda>p. p\<lparr>ph_opt_out := b\<rparr>) (ag_phones db)\<rparr>"

definition sender_authorized :: "'a agent_db_scheme \<Rightarrow> phone_identity \<Rightarrow> bool" where
  "sender_authorized db p = (ph_status p = ''approved'' \<and> active_member db (ph_tenant_id p) (ph_user_id p)
     \<and> active_user db (ph_user_id p) \<and> active_tenant db (ph_tenant_id p))"

text \<open>\<^verbatim>\<open>_bind_inbound_job_tenant\<close>.\<close>

definition bind_inbound_job_tenant ::
  "time \<Rightarrow> webhook_event \<Rightarrow> ident \<Rightarrow> 'a agent_db_scheme \<Rightarrow> job_fence option \<Rightarrow>
   job_fence option \<times> (inbound_error + 'a agent_db_scheme)" where
  "bind_inbound_job_tenant now ev tenant db fence = (case fence of
     None \<Rightarrow> (None, Inr db)
   | Some f \<Rightarrow> (case assert_current_job_lease db now fence of
       (f', Inl _) \<Rightarrow> (f', Inl InLeaseLost)
     | (f', Inr _) \<Rightarrow> (f', (case get_job db (f_job_id f) of
          None \<Rightarrow> Inl (InPermanent ''Verified ingress job scope does not match its claim'')
        | Some j \<Rightarrow>
            if j_kind j \<noteq> ''whatsapp.process_webhook'' \<or> get_field (j_payload j) ''event_id'' \<noteq> PStr (wh_id ev)
               \<or> (j_tenant_id j \<noteq> None \<and> j_tenant_id j \<noteq> Some tenant)
            then Inl (InPermanent ''Verified ingress job scope does not match its claim'')
            else Inr (set_job (f_job_id f) (\<lambda>x. x\<lparr>j_tenant_id := Some tenant\<rparr>) db)))))"

definition receiver_pair :: "(string \<times> string) option \<Rightarrow> string \<times> string" where
  "receiver_pair sender = (case sender of None \<Rightarrow> (''mock'', ''mock'') | Some s \<Rightarrow> s)"

definition active_conversation ::
  "wa_settings \<Rightarrow> 'a agent_db_scheme \<Rightarrow> ident \<Rightarrow> ident \<Rightarrow> (string \<times> string) option \<Rightarrow> conversation option" where
  "active_conversation st db tenant user sender =
    (let cs = filter (\<lambda>c. cv_tenant_id c = tenant \<and> cv_user_id c = user \<and> cv_channel c = ''whatsapp'' \<and> cv_status c = ''open''
          \<and> cv_generation c = 1 \<and> cv_waba_id c = fst (receiver_pair sender) \<and> cv_receiver_id c = snd (receiver_pair sender)
          \<and> cv_lane c = ms_env st) (ag_conversations db)
     in if cs = [] then None else Some (last (sort_key (\<lambda>c. (cv_updated_at c, cv_id c)) cs)))"

section \<open>Replies of the branches\<close>

text \<open>What a branch needs to know of the message.\<close>

record inbound_context =
  ix_event :: webhook_event
  ix_inbound :: ident
  ix_phone :: string
  ix_external :: string
  ix_sender :: "(string \<times> string) option"
  ix_tenant :: ident
  ix_user :: ident
  ix_identity :: ident

definition branch_message :: "inbound_context \<Rightarrow> string \<Rightarrow> string \<Rightarrow> bool \<Rightarrow> text_delivery" where
  "branch_message x purpose body quote_it = \<lparr> dc_event = ix_event x, dc_purpose = purpose, dc_phone = ix_phone x, dc_body = body,
     dc_tenant = Some (ix_tenant x), dc_user = Some (ix_user x), dc_sender = ix_sender x,
     dc_reply_to = (if quote_it then Some (ix_external x) else None), dc_buttons = [] \<rparr>"

definition say ::
  "delivery_ops \<Rightarrow> wa_settings \<Rightarrow> attempt \<Rightarrow> text_delivery \<Rightarrow> ('a agent_db_scheme, 's) inbound_world \<Rightarrow>
   ('a agent_db_scheme, 's) inbound_world \<times> (delivery_error + string)" where
  "say ops st a c w = (case deliver_once ops st a c (iw_world w) of (w', r) \<Rightarrow> (w\<lparr>iw_world := w'\<rparr>, r))"

text \<open>Deliver, then run the closing transaction.\<close>

definition say_and_close ::
  "delivery_ops \<Rightarrow> wa_settings \<Rightarrow> attempt \<Rightarrow> inbound_context \<Rightarrow> text_delivery \<Rightarrow> string \<Rightarrow> ('a wa_db_scheme, 's) inbound_world \<Rightarrow>
   ('a wa_db_scheme, 's) inbound_world \<times> (inbound_error + inbound_answer)" where
  "say_and_close ops st a x c answer w = (case say ops st a c w of
     (w', Inl e) \<Rightarrow> (w', Inl (InDelivery e))
   | (w', Inr _) \<Rightarrow> (with_db (close_event (ix_inbound x) ''processed'' (ix_event x)) w', Inr (Answered answer)))"

definition opt_in_branch ::
  "delivery_ops \<Rightarrow> wa_settings \<Rightarrow> attempt \<Rightarrow> inbound_context \<Rightarrow> ('a wa_db_scheme, 's) inbound_world \<Rightarrow>
   ('a wa_db_scheme, 's) inbound_world \<times> (inbound_error + inbound_answer)" where
  "opt_in_branch ops st a x w = say_and_close ops st a x
     (branch_message x ''opt-in'' ''You are opted back in to Bumpa Bestie.'' False) ''opted_in''
     (with_db (set_opt_out (ix_identity x) False) w)"

definition reset_branch ::
  "delivery_ops \<Rightarrow> wa_settings \<Rightarrow> attempt \<Rightarrow> inbound_context \<Rightarrow> conversation option \<Rightarrow> ('a wa_db_scheme, 's) inbound_world \<Rightarrow>
   ('a wa_db_scheme, 's) inbound_world \<times> (inbound_error + inbound_answer)" where
  "reset_branch ops st a x conv w =
    (let w1 = with_db (\<lambda>db. close_event (ix_inbound x) ''processed'' (ix_event x)
           (case conv of None \<Rightarrow> db | Some c \<Rightarrow> cancel_conversation (cv_id c) db)) w
     in case say ops st a (branch_message x ''conversation-reset''
            ''Started a fresh conversation. What would you like to work on?'' False) w1 of
          (w2, Inl e) \<Rightarrow> (w2, Inl (InDelivery e))
        | (w2, Inr _) \<Rightarrow> (w2, Inr (Answered ''conversation_reset'')))"

section \<open>Deciding on an action\<close>

text \<open>Both transactions of \<^verbatim>\<open>decide_pending_action\<close>.\<close>

definition decide_now ::
  "action_ops \<Rightarrow> time \<times> time \<times> time \<times> time \<Rightarrow> ident \<Rightarrow> ident \<Rightarrow> ident \<Rightarrow> string \<Rightarrow> string \<Rightarrow> 'a agent_db_scheme \<Rightarrow> job_fence option \<Rightarrow>
   job_fence option \<times> effect option \<times> 'a agent_db_scheme decide_outcome" where
  "decide_now ops ts i tenant user supplied choice db fence = (case ts of (now, now1, now2, now3) \<Rightarrow>
     (case decide_pending_action ops db now i tenant user supplied choice of
        DecideExecuting d \<Rightarrow> dispatch_action ops d now1 now2 now3 fence i tenant user supplied
      | out \<Rightarrow> (fence, None, out)))"

definition decided_body :: "action_status \<Rightarrow> string" where
  "decided_body s = (if s = ASucceeded then ''Done. The confirmed action was completed.'' else ''Cancelled. Nothing was changed.'')"

definition failed_body :: string where
  "failed_body = ''I could not complete that action safely. Please review it and try again.''"

text \<open>The text and the status of the answer, or the exception that escapes.\<close>

definition decide_action ::
  "action_ops \<Rightarrow> time \<times> time \<times> time \<times> time \<Rightarrow> inbound_context \<Rightarrow> ident option \<Rightarrow> string \<Rightarrow> ident \<Rightarrow>
   ('a agent_db_scheme, 's) inbound_world \<Rightarrow> ('a agent_db_scheme, 's) inbound_world \<times> (action_error + string \<times> string)" where
  "decide_action ops ts x cid choice i w =
    (case find_action (iw_db w) i (ix_tenant x) (ix_user x) of
       None \<Rightarrow> (w, Inr (''That action is no longer available.'', ''action_not_found''))
     | Some act \<Rightarrow>
        (case validate_approval_scope (iw_db w) act (case cid of None \<Rightarrow> [] | Some c \<Rightarrow> c) ''whatsapp'' (Some (ix_identity x)) of
           Inl (ActionError msg) \<Rightarrow> (w, Inr (failed_body, ''action_failed''))
         | Inl e \<Rightarrow> (w, Inl e)
         | Inr _ \<Rightarrow>
            (case decide_now ops ts i (ix_tenant x) (ix_user x) (confirmation_token ops act) choice (iw_db w) (ww_fence (iw_world w)) of
               (f, sent, out) \<Rightarrow>
                 (let w1 = w\<lparr>iw_effects := iw_effects w @ (case sent of None \<Rightarrow> [] | Some e \<Rightarrow> [e])\<rparr>;
                      put = (\<lambda>d. w1\<lparr>iw_world := (iw_world w)\<lparr>ww_db := d, ww_fence := f\<rparr>\<rparr>)
                  in case out of
                       DecideReturn a d \<Rightarrow> (put d, Inr (decided_body (pa_status a), ''action_'' @ action_status_value (pa_status a)))
                     | DecideRaise (ActionError msg) d \<Rightarrow> (put d, Inr (failed_body, ''action_failed''))
                     | DecideRaise e d \<Rightarrow> (put d, Inl e)
                     | DecideExecuting d \<Rightarrow> (put d, Inl ActionValueError)))))"

definition action_branch ::
  "'s inbound_ops \<Rightarrow> wa_settings \<Rightarrow> inbound_input \<Rightarrow> inbound_context \<Rightarrow> ident option \<Rightarrow> string \<Rightarrow> ident \<Rightarrow>
   ('a wa_db_scheme, 's) inbound_world \<Rightarrow> ('a wa_db_scheme, 's) inbound_world \<times> (inbound_error + inbound_answer)" where
  "action_branch ops st inp x cid choice i w =
    (case decide_action (ib_actions ops) (ii_decide_at inp) x cid choice i w of
       (w1, Inl e) \<Rightarrow> (w1, Inl (InAction e))
     | (w1, Inr (body, answer)) \<Rightarrow> say_and_close (ib_delivery ops) st (ii_attempt inp) x
         (branch_message x (''action-decision:'' @ i) body True) answer w1)"

section \<open>Research consent\<close>

definition consent_body :: "string \<Rightarrow> string" where
  "consent_body d = (if d = ''grant'' then ''Thank you. Your conversation data can now be included in the RCT research.''
     else ''Understood. Research collection stays off; every product feature still works.'')"

definition record_consent :: "wa_settings \<Rightarrow> ident \<Rightarrow> ident \<Rightarrow> string \<Rightarrow> 'a wa_db_scheme \<Rightarrow> 'a wa_db_scheme" where
  "record_consent st tenant user d db = (let s = (if d = ''grant'' then ''granted'' else ''withdrawn'') in
     db\<lparr>ag_tenants := tbl_upd tn_id tenant (\<lambda>t. t\<lparr>tn_consent := s\<rparr>) (ag_tenants db),
        wd_consents := wd_consents db @ [\<lparr> cn_tenant_id = tenant, cn_status = s, cn_policy = ms_policy st, cn_actor = Some user \<rparr>]\<rparr>)"

text \<open>Whether a delivery that fails has committed the work before it.\<close>

definition delivery_commits :: "delivery_ops \<Rightarrow> wa_settings \<Rightarrow> attempt \<Rightarrow> text_delivery \<Rightarrow> 'a agent_db_scheme world \<Rightarrow> bool" where
  "delivery_commits ops st a c w = (case deliver_check ops st c (ww_db w) of
     Proceed \<Rightarrow> find_out (ww_db w) (delivery_key ops c) = None
       \<or> is_ok (snd (assert_current_job_lease (fst (snd (deliver_prepare ops st c a (ww_db w)))) (at_claim a) (ww_fence w)))
   | _ \<Rightarrow> False)"

definition consent_branch ::
  "'s inbound_ops \<Rightarrow> wa_settings \<Rightarrow> inbound_input \<Rightarrow> inbound_context \<Rightarrow> string \<Rightarrow> ('a wa_db_scheme, 's) inbound_world \<Rightarrow>
   ('a wa_db_scheme, 's) inbound_world \<times> (inbound_error + inbound_answer)" where
  "consent_branch ops st inp x d w =
    (let c = branch_message x (''research-consent:'' @ d) (consent_body d) True;
         w1 = with_db (record_consent st (ix_tenant x) (ix_user x) d) w
     in case say_and_close (ib_delivery ops) st (ii_attempt inp) x c (''research_consent_'' @ d) w1 of
          (w2, Inl e) \<Rightarrow> (if delivery_commits (ib_delivery ops) st (ii_attempt inp) c (iw_world w1) then w2
             else with_db (\<lambda>_. iw_db w) w2, Inl e)
        | (w2, Inr y) \<Rightarrow> (w2, Inr y))"

section \<open>A known and active sender\<close>

definition limit_notice :: string where
  "limit_notice = ''You have reached the current message limit. Please try again shortly.''"

definition take_budget ::
  "'s inbound_ops \<Rightarrow> wa_settings \<Rightarrow> inbound_input \<Rightarrow> inbound_context \<Rightarrow> 's \<Rightarrow> 's \<times> (rate_error + unit)" where
  "take_budget ops st inp x s = consume_operation_rate_limit (ib_hash ops) (ib_redis ops) (ii_link inp) (ii_limit_at inp) (ib_rate ops)
     ''whatsapp-chat'' [(''phone'', ix_phone x), (''tenant'', ix_tenant x)] (ms_message_limit st) (ms_message_window st) s"

definition after_budget ::
  "'s inbound_ops \<Rightarrow> wa_settings \<Rightarrow> inbound_input \<Rightarrow> inbound_context \<Rightarrow> (string \<times> pyval) list \<Rightarrow> conversation option \<Rightarrow>
   ('a wa_db_scheme, 's) inbound_world \<Rightarrow> ('a wa_db_scheme, 's) inbound_world \<times> (inbound_error + inbound_answer)" where
  "after_budget ops st inp x m conv w = (case interactive_action m of
     Some (choice, i) \<Rightarrow> action_branch ops st inp x (map_option cv_id conv) choice i w
   | None \<Rightarrow> (case interactive_consent st m of
       Some d \<Rightarrow> consent_branch ops st inp x d w
     | None \<Rightarrow> (w, Inr (NeedsTurn \<lparr> tr_tenant = ix_tenant x, tr_user = ix_user x, tr_identity = ix_identity x,
         tr_conversation = map_option cv_id conv, tr_sender = ix_sender x, tr_external = ix_external x, tr_phone = ix_phone x,
         tr_inbound = ix_inbound x, tr_reply_to = reply_target (dv_text (ib_delivery ops)) m \<rparr>))))"

definition budget_branch ::
  "'s inbound_ops \<Rightarrow> wa_settings \<Rightarrow> inbound_input \<Rightarrow> inbound_context \<Rightarrow> (string \<times> pyval) list \<Rightarrow> conversation option \<Rightarrow>
   ('a wa_db_scheme, 's) inbound_world \<Rightarrow> ('a wa_db_scheme, 's) inbound_world \<times> (inbound_error + inbound_answer)" where
  "budget_branch ops st inp x m conv w = (case take_budget ops st inp x (iw_redis w) of
     (s, Inr _) \<Rightarrow> after_budget ops st inp x m conv (w\<lparr>iw_redis := s\<rparr>)
   | (s, Inl RateUnavailable) \<Rightarrow> (w\<lparr>iw_redis := s\<rparr>, Inl (InRuntime ''Messaging budget is temporarily unavailable''))
   | (s, Inl RateMisuse) \<Rightarrow> (w\<lparr>iw_redis := s\<rparr>, Inl InValueError)
   | (s, Inl (RateExceeded n)) \<Rightarrow> say_and_close (ib_delivery ops) st (ii_attempt inp) x
       (branch_message x ''rate-limit'' limit_notice False) ''rate_limited'' (w\<lparr>iw_redis := s\<rparr>))"

definition authorized_branch ::
  "'s inbound_ops \<Rightarrow> wa_settings \<Rightarrow> inbound_input \<Rightarrow> inbound_context \<Rightarrow> (string \<times> pyval) list \<Rightarrow> string \<Rightarrow> bool \<Rightarrow>
   ('a wa_db_scheme, 's) inbound_world \<Rightarrow> ('a wa_db_scheme, 's) inbound_world \<times> (inbound_error + inbound_answer)" where
  "authorized_branch ops st inp x m text out_flag w =
    (if upper text = ''START'' then opt_in_branch (ib_delivery ops) st (ii_attempt inp) x w
     else if out_flag then (with_db (close_event (ix_inbound x) ''rejected'' (ix_event x)) w, Inr (Answered ''opted_out''))
     else (let conv = active_conversation st (iw_db w) (ix_tenant x) (ix_user x) (ix_sender x) in
       if lower text \<in> {''/new'', ''/reset''} then reset_branch (ib_delivery ops) st (ii_attempt inp) x conv w
       else budget_branch ops st inp x m conv w))"

section \<open>The message\<close>

definition unknown_notice :: string where
  "unknown_notice = ''This number is not approved for Bumpa Bestie. Ask your store owner to add it.''"

definition unknown_message :: "webhook_event \<Rightarrow> string \<Rightarrow> (string \<times> string) option \<Rightarrow> text_delivery" where
  "unknown_message ev phone sender = \<lparr> dc_event = ev, dc_purpose = ''unknown-sender'', dc_phone = phone, dc_body = unknown_notice,
     dc_tenant = None, dc_user = None, dc_sender = sender, dc_reply_to = None, dc_buttons = [] \<rparr>"

definition refuse_sender ::
  "delivery_ops \<Rightarrow> wa_settings \<Rightarrow> attempt \<Rightarrow> webhook_event \<Rightarrow> string \<Rightarrow> (string \<times> string) option \<Rightarrow> ident \<Rightarrow> bool \<Rightarrow>
   ('a wa_db_scheme, 's) inbound_world \<Rightarrow> ('a wa_db_scheme, 's) inbound_world \<times> (inbound_error + inbound_answer)" where
  "refuse_sender ops st a ev phone sender i known w =
    (case (if known then (w, Inr []) else say ops st a (unknown_message ev phone sender) w) of
       (w1, Inl e) \<Rightarrow> (w1, Inl (InDelivery e))
     | (w1, Inr _) \<Rightarrow> (with_db (close_event i ''rejected'' ev) w1, Inr (Answered ''rejected_unknown_sender'')))"

text \<open>The read receipt and typing mark before the work; its failures are ignored.\<close>

definition show_typing ::
  "delivery_ops \<Rightarrow> wa_settings \<Rightarrow> (string \<times> string) option \<Rightarrow> string \<Rightarrow> ('d, 's) inbound_world \<Rightarrow> ('d, 's) inbound_world" where
  "show_typing ops st sender external w = (case sender of
     None \<Rightarrow> w
   | Some s \<Rightarrow> if ms_backend st = ''meta'' \<and> ms_progress st then (case client_for_reply st s of
        Inl e \<Rightarrow> w
      | Inr cl \<Rightarrow> w\<lparr>iw_world := (iw_world w)\<lparr>ww_net := fst (mark_read (dv_meta ops) cl external True (ww_net (iw_world w)))\<rparr>\<rparr>)
     else w)"

definition ensure_inbound ::
  "delivery_ops \<Rightarrow> ident \<Rightarrow> time \<Rightarrow> webhook_event \<Rightarrow> (string \<times> pyval) list \<Rightarrow> string \<Rightarrow> string \<Rightarrow> phone_identity option \<Rightarrow>
   'a agent_db_scheme \<Rightarrow> ident \<times> 'a agent_db_scheme" where
  "ensure_inbound ops i now ev m external scope p db = (case find_inbound db external scope of
     Some r \<Rightarrow> (wm_id r, db)
   | None \<Rightarrow> (i, db\<lparr>ag_whatsapp := ag_whatsapp db @ [inbound_row ops i now ev m scope p]\<rparr>))"

definition route_sender ::
  "'s inbound_ops \<Rightarrow> wa_settings \<Rightarrow> inbound_input \<Rightarrow> webhook_event \<Rightarrow> (string \<times> pyval) list \<Rightarrow> string \<Rightarrow> (string \<times> string) option \<Rightarrow>
   ident \<Rightarrow> phone_identity option \<Rightarrow> ('a wa_db_scheme, 's) inbound_world \<Rightarrow>
   ('a wa_db_scheme, 's) inbound_world \<times> (inbound_error + inbound_answer)" where
  "route_sender ops st inp ev m external sender i po w =
    (let t = dv_text (ib_delivery ops); phone = sender_phone t m; text = message_text t m in case po of
       None \<Rightarrow> refuse_sender (ib_delivery ops) st (ii_attempt inp) ev phone sender i False w
     | Some p \<Rightarrow>
        if ph_status p = ''approved'' \<and> upper text = ''STOP''
        then (with_db (\<lambda>db. close_event i ''processed'' ev (set_opt_out (ph_id p) True db)) w, Inr (Answered ''opted_out''))
        else if \<not> sender_authorized (iw_db w) p
        then refuse_sender (ib_delivery ops) st (ii_attempt inp) ev phone sender i True w
        else (case bind_inbound_job_tenant (ii_now inp) ev (ph_tenant_id p) (iw_db w) (ww_fence (iw_world w)) of
           (f, Inl e) \<Rightarrow> (w\<lparr>iw_world := (iw_world w)\<lparr>ww_fence := f\<rparr>\<rparr>, Inl e)
         | (f, Inr db) \<Rightarrow> authorized_branch ops st inp \<lparr> ix_event = ev, ix_inbound = i, ix_phone = phone, ix_external = external,
               ix_sender = sender, ix_tenant = ph_tenant_id p, ix_user = ph_user_id p, ix_identity = ph_id p \<rparr> m text (ph_opt_out p)
             (w\<lparr>iw_world := (iw_world w)\<lparr>ww_db := db, ww_fence := f\<rparr>\<rparr>)))"

text \<open>The receiver the event names, its message's identifier, and whether the receiver is not one of ours.\<close>

definition inbound_sender :: "wa_settings \<Rightarrow> webhook_event \<Rightarrow> (string \<times> string) option" where
  "inbound_sender st ev = (if ms_backend st = ''meta'' then extract_inbound_sender (wh_payload ev) else None)"

definition unconfigured :: "wa_settings \<Rightarrow> webhook_event \<Rightarrow> bool" where
  "unconfigured st ev \<longleftrightarrow> ms_backend st = ''meta''
     \<and> (case inbound_sender st ev of None \<Rightarrow> True | Some s \<Rightarrow> s \<notin> set (allowed_senders st))"

definition external_id :: "'s inbound_ops \<Rightarrow> (string \<times> pyval) list \<Rightarrow> string" where
  "external_id ops m = to_text (dv_text (ib_delivery ops)) (dict_or m ''id'' (PStr []))"

definition process_message ::
  "'s inbound_ops \<Rightarrow> wa_settings \<Rightarrow> inbound_input \<Rightarrow> webhook_event \<Rightarrow> (string \<times> pyval) list \<Rightarrow>
   ('a wa_db_scheme, 's) inbound_world \<Rightarrow> ('a wa_db_scheme, 's) inbound_world \<times> (inbound_error + inbound_answer)" where
  "process_message ops st inp ev m w =
    (let external = external_id ops m; sender = inbound_sender st ev in
     if external = [] then (w, Inl (InPermanent ''WhatsApp message is missing an external identifier''))
     else if unconfigured st ev
     then (with_db (webhook_done ''ignored'' ev) w, Inr (Answered ''rejected_unconfigured_sender''))
     else
      let w1 = show_typing (ib_delivery ops) st sender external w;
          po = find_identity (iw_db w1) (sender_phone (dv_text (ib_delivery ops)) m) in
      (case ensure_inbound (ib_delivery ops) (ii_row inp) (ii_now inp) ev m external
              (delivery_scope (ib_delivery ops) st sender) po (iw_db w1) of
         (i, db) \<Rightarrow> route_sender ops st inp ev m external sender i po (with_db (\<lambda>_. db) w1)))"

section \<open>The event\<close>

text \<open>Whether the event may be processed now; \<open>Inr None\<close> when it was before.\<close>

definition admit_event ::
  "wa_settings \<Rightarrow> 'a wa_db_scheme \<Rightarrow> ident \<Rightarrow> inbound_error + (webhook_event \<times> pyval \<times> pyval) option" where
  "admit_event st db i = (case tbl_find wh_id i (wd_webhooks db) of
     None \<Rightarrow> Inl (InPermanent ''Webhook inbox event does not exist'')
   | Some ev \<Rightarrow>
       if wh_status ev \<in> set terminal_receipts then Inr None
       else (case (extract_message (wh_payload ev), extract_delivery_status (wh_payload ev)) of
          (Some m, Some d) \<Rightarrow>
            if \<not> truthy m then Inr (Some (ev, m, d))
            else if wh_sequence ev \<noteq> None then (case require_head db ev of
               Inl e \<Rightarrow> Inl (InIngress e) | Inr _ \<Rightarrow> Inr (Some (ev, m, d)))
            else if ms_env st \<in> {''local'', ''test''} then Inr (Some (ev, m, d))
            else Inl (InPermanent ''Legacy unordered receipt requires explicit reconciliation'')
        | _ \<Rightarrow> Inl InAttributeError))"

definition process_claimed_event ::
  "'s inbound_ops \<Rightarrow> wa_settings \<Rightarrow> inbound_input \<Rightarrow> webhook_event \<Rightarrow> pyval \<Rightarrow> pyval \<Rightarrow> ('a wa_db_scheme, 's) inbound_world \<Rightarrow>
   ('a wa_db_scheme, 's) inbound_world \<times> (inbound_error + inbound_answer)" where
  "process_claimed_event ops st inp ev m d w =
    (if truthy d then (case d of
       PDict r \<Rightarrow> (with_db (process_delivery (dv_text (ib_delivery ops)) st (ii_row inp) (ii_now inp) ev r) w, Inr (Answered ''accepted''))
     | _ \<Rightarrow> (w, Inl InAttributeError))
     else if truthy m then (case m of
       PDict r \<Rightarrow> process_message ops st inp ev r w
     | _ \<Rightarrow> (w, Inl InAttributeError))
     else (with_db (webhook_done ''ignored'' ev) w, Inr (Answered ''accepted'')))"

definition process_inbox_event ::
  "'s inbound_ops \<Rightarrow> wa_settings \<Rightarrow> inbound_input \<Rightarrow> ident \<Rightarrow> ('a wa_db_scheme, 's) inbound_world \<Rightarrow>
   ('a wa_db_scheme, 's) inbound_world \<times> (inbound_error + inbound_answer)" where
  "process_inbox_event ops st inp i w = (case admit_event st (iw_db w) i of
     Inl e \<Rightarrow> (w, Inl e)
   | Inr None \<Rightarrow> (w, Inr (Answered ''duplicate''))
   | Inr (Some (ev, m, d)) \<Rightarrow> process_claimed_event ops st inp ev m d w)"

end
