(* ===== verification/DeliverySafety.thy ===== *)
theory DeliverySafety
  imports Delivery
begin

text \<open>
  What delivery promises: a text is partitioned without loss into bounded parts, a message whose outcome is not a
  plain refusal is never sent again whatever crashes and retries occur, the reported status never goes back,
  and nothing leaves for a person who opted out or lost access.
\<close>

section \<open>Parts of a text\<close>

lemma rfind_less: "rfind c s < int (length s)"
  using length_dropWhile_le[of "\<lambda>x. x \<noteq> c" "rev s"] by (simp add: rfind_def)

lemma split_at_bounds:
  assumes "0 < m"
  shows "m div 2 < split_at m s" "split_at m s \<le> m"
proof -
  have "rfind CHR 0x0A (take m s) < int m" "rfind CHR '' '' (take m s) < int m"
    using rfind_less[of _ "take m s"] by (force intro: less_le_trans)+
  then show "split_at m s \<le> m" by (auto simp: split_at_def Let_def)
  show "m div 2 < split_at m s" using assms by (auto simp: split_at_def Let_def)
qed

lemma split_loop_concat: "concat (split_loop m s) = s"
  by (induction m s rule: split_loop.induct) (subst split_loop.simps, simp)

lemma split_loop_bounded: "0 < m \<Longrightarrow> c \<in> set (split_loop m s) \<Longrightarrow> length c \<le> m"
proof (induction m s rule: split_loop.induct)
  case (1 m s)
  show ?case
  proof (cases "length s \<le> m")
    case True
    with 1 show ?thesis by (subst (asm) split_loop.simps) simp
  next
    case False
    with 1 split_at_bounds(2)[of m s] show ?thesis by (subst (asm) (2) split_loop.simps) auto
  qed
qed

lemma split_loop_nonempty: "0 < m \<Longrightarrow> s \<noteq> [] \<Longrightarrow> [] \<notin> set (split_loop m s)"
proof (induction m s rule: split_loop.induct)
  case (1 m s)
  show ?case
  proof (cases "length s \<le> m")
    case True
    with 1 show ?thesis by (subst split_loop.simps) simp
  next
    case False
    with 1 split_at_bounds[of m s] show ?thesis by (subst split_loop.simps) auto
  qed
qed

lemma split_loop_count: "0 < m \<Longrightarrow> (length (split_loop m s) - 1) * (m div 2 + 1) \<le> length s"
proof (induction m s rule: split_loop.induct)
  case (1 m s)
  show ?case
  proof (cases "length s \<le> m")
    case True
    with 1 show ?thesis by (subst split_loop.simps) simp
  next
    case False
    let ?r = "split_loop m (drop (split_at m s) s)"
    have "?r \<noteq> []" by (subst split_loop.simps) simp
    then have l: "length ?r = Suc (length ?r - 1)" by (cases ?r) simp_all
    have "(length ?r - 1) * (m div 2 + 1) \<le> length s - split_at m s" using 1 False by simp
    moreover have "m div 2 + 1 \<le> split_at m s" "split_at m s \<le> length s"
      using split_at_bounds[OF 1(2), of s] False by simp_all
    ultimately have "(m div 2 + 1) + (length ?r - 1) * (m div 2 + 1) \<le> length s"
      using add_mono[of "m div 2 + 1" "split_at m s" "(length ?r - 1) * (m div 2 + 1)" "length s - split_at m s"] by simp
    then have "length ?r * (m div 2 + 1) \<le> length s" by (subst l) (simp only: mult_Suc)
    moreover have "length (split_loop m s) - 1 = length ?r" using 1 False by (subst split_loop.simps) simp
    ultimately show ?thesis by (simp only:)
  qed
qed

text \<open>C34: A reply of any length is sent whole: its parts, put together, are the text; each fits the provider's limit of
  4000 characters and none is empty (but for the empty text itself); and their number is at most one per 2001 characters, plus one.\<close>

theorem text_parts_are_a_partition:
  "concat (chunks_of body) = body \<and> list_all (\<lambda>c. length c \<le> 4000) (chunks_of body)
   \<and> ([] \<in> set (chunks_of body)) = (body = []) \<and> (length (chunks_of body) - 1) * 2001 \<le> length body"
proof (intro conjI)
  have m: "0 < max_text" by (simp add: max_text_def)
  show "concat (chunks_of body) = body" unfolding chunks_of_def by (rule split_loop_concat)
  show "(length (chunks_of body) - 1) * 2001 \<le> length body"
    using split_loop_count[OF m, of body] by (simp add: chunks_of_def max_text_def)
  show "list_all (\<lambda>c. length c \<le> 4000) (chunks_of body)"
    using split_loop_bounded[OF m] by (simp add: chunks_of_def max_text_def list_all_iff)
  have "chunks_of [] = [[]]" by (simp add: chunks_of_def split_loop.simps)
  then show "([] \<in> set (chunks_of body)) = (body = [])" using split_loop_nonempty[OF m, of body] unfolding chunks_of_def by auto
qed

section \<open>Answers that refuse a message\<close>

text \<open>The only answers after which the code sends the same message again.\<close>

definition refused :: "meta_reply \<Rightarrow> bool" where
  "refused r = (case r of Answer status _ _ \<Rightarrow> status \<in> {408, 425, 429} | _ \<Rightarrow> False)"

lemma failed_is_refused:
  assumes "read_send ops cl r = Inl (MetaProviderError f)" "failed_status f = ''failed''"
  shows "refused r"
proof (cases r)
  case (Answer status headers body)
  have f: "\<not> ambiguous_failure f" "mf_retryable f" using assms(2) by (auto simp: failed_status_def split: if_splits)
  with assms(1) Answer show ?thesis
    by (auto simp: read_send_def refused_def and_then_def failure_def message_of_def read_bounded_def decode_json_def Let_def
        ambiguous_failure_def transient_status_def split: if_splits option.splits pyval.splits sum.splits)
qed (use assms in \<open>auto simp: read_send_def no_reply_def failure_def failed_status_def ambiguous_failure_def\<close>)

lemma sent_id_nonempty: "read_send ops cl r = Inr i \<Longrightarrow> i \<noteq> []"
  by (auto simp: read_send_def and_then_def message_of_def Let_def split: meta_reply.splits sum.splits pyval.splits if_splits)

text \<open>A program that sends: it makes no request, or one, whose answer decides the result.\<close>

definition sends_once :: "meta_ops \<Rightarrow> string meta_io \<Rightarrow> bool" where
  "sends_once ops m \<longleftrightarrow> (\<forall>h h' r. m h = (h', r) \<longrightarrow>
     (h' = h \<and> (\<exists>e. r = Inl (MetaValueError e)))
   \<or> (\<exists>q cl. h' = h @ [q] \<and> r = read_send ops cl (mo_net ops h q)))"

lemma meta_send_once: "sends_once ops (meta_send ops cl phone payload)"
  by (auto simp: sends_once_def meta_send_def recipient_digits_def Let_def split: if_splits)

lemma reply_context_value: "reply_context x = Inl e \<Longrightarrow> \<exists>msg. e = MetaValueError msg"
  by (auto simp: reply_context_def split: option.splits if_splits)

lemma render_value: "render_buttons bs = Inl e \<Longrightarrow> \<exists>msg. e = MetaValueError msg"
  by (induction bs arbitrary: e) (auto simp: and_then_def split: if_splits sum.splits)

lemma send_text_once: "sends_once ops (send_text ops cl phone body reply)"
  using meta_send_once[of ops cl phone]
  by (auto simp: sends_once_def send_text_def split: if_splits sum.splits dest!: reply_context_value)

lemma send_buttons_once: "sends_once ops (send_buttons ops cl phone body buttons reply)"
  using meta_send_once[of ops cl phone]
  by (auto simp: sends_once_def send_buttons_def and_then_def split: if_splits sum.splits dest!: reply_context_value render_value)

lemma send_media_once: "sends_once ops (send_media ops cl phone kind i caption nm voice reply)"
  using meta_send_once[of ops cl phone]
  by (auto simp: sends_once_def send_media_def Let_def split: if_splits sum.splits dest!: reply_context_value)

section \<open>At most once\<close>

text \<open>
  The life of one message, seen from the outside. A worker is between two transactions (\<open>phase\<close>); it can crash at
  any point; other transactions and provider statuses come in between. \<open>log\<close> lists the answers of all submissions.
  The relations say what the transactions may do to the state; they are instantiated with the model's definitions below.
\<close>

datatype phase = Idle | Ready | Claimed | Submitted outcome

record 'd life =
  lf_db :: 'd
  lf_phase :: phase
  lf_log :: "meta_reply list"

inductive life_step ::
  "('d \<Rightarrow> wa_message option) \<Rightarrow> ('d \<Rightarrow> 'd \<Rightarrow> bool) \<Rightarrow> ('d \<Rightarrow> 'd \<Rightarrow> bool) \<Rightarrow> ('d \<Rightarrow> meta_reply list \<Rightarrow> outcome \<Rightarrow> 'd \<Rightarrow> bool) \<Rightarrow>
   (outcome \<Rightarrow> 'd \<Rightarrow> 'd \<Rightarrow> bool) \<Rightarrow> 'd life \<Rightarrow> 'd life \<Rightarrow> bool"
  for row start claim submit settle where
  begin_step: "lf_phase s = Idle \<Longrightarrow> start (lf_db s) d \<Longrightarrow>
     life_step row start claim submit settle s (s\<lparr>lf_db := d, lf_phase := Ready\<rparr>)"
| claim_step: "lf_phase s = Ready \<Longrightarrow> claim (lf_db s) d \<Longrightarrow>
     life_step row start claim submit settle s (s\<lparr>lf_db := d, lf_phase := Claimed\<rparr>)"
| submit_step: "lf_phase s = Claimed \<Longrightarrow> submit (lf_db s) rs out d \<Longrightarrow>
     life_step row start claim submit settle s (s\<lparr>lf_db := d, lf_phase := Submitted out, lf_log := lf_log s @ rs\<rparr>)"
| settle_step: "lf_phase s = Submitted out \<Longrightarrow> settle out (lf_db s) d \<Longrightarrow>
     life_step row start claim submit settle s (s\<lparr>lf_db := d, lf_phase := Idle\<rparr>)"
| crash_step: "life_step row start claim submit settle s (s\<lparr>lf_phase := Idle\<rparr>)"
| other_step: "row d = row (lf_db s) \<Longrightarrow> life_step row start claim submit settle s (s\<lparr>lf_db := d\<rparr>)"
| report_step: "row (lf_db s) = Some m \<Longrightarrow> wm_meta_message_id m \<noteq> None \<Longrightarrow> row d = Some (apply_status st stamp m) \<Longrightarrow>
     life_step row start claim submit settle s (s\<lparr>lf_db := d\<rparr>)"

definition life_start :: "('d \<Rightarrow> wa_message option) \<Rightarrow> 'd life \<Rightarrow> bool" where
  "life_start row s \<longleftrightarrow> row (lf_db s) = None \<and> lf_phase s = Idle \<and> lf_log s = []"

text \<open>A message whose last submission may have reached the person: it is final or waits for a person's decision.\<close>

definition closed_row :: "wa_message option \<Rightarrow> bool" where
  "closed_row x \<longleftrightarrow> (\<exists>m. x = Some m \<and> (is_sent m \<or> unresolved_status (wm_status m)))"

definition open_row :: "wa_message \<Rightarrow> bool" where
  "open_row m \<longleftrightarrow> \<not> is_sent m \<and> \<not> unresolved_status (wm_status m)"

definition row_ok :: "wa_message \<Rightarrow> bool" where
  "row_ok m \<longleftrightarrow> (wm_meta_message_id m \<noteq> None \<longrightarrow> is_sent m)"

lemma apply_status_closed:
  assumes "wm_meta_message_id m \<noteq> None" "row_ok m"
  shows "is_sent (apply_status s t m)" "row_ok (apply_status s t m)"
  using assms by (auto simp: apply_status_def row_ok_def is_sent_def split: option.splits)

locale once_only =
  fixes row :: "'d \<Rightarrow> wa_message option"
    and start :: "'d \<Rightarrow> 'd \<Rightarrow> bool"
    and claim :: "'d \<Rightarrow> 'd \<Rightarrow> bool"
    and submit :: "'d \<Rightarrow> meta_reply list \<Rightarrow> outcome \<Rightarrow> 'd \<Rightarrow> bool"
    and settle :: "outcome \<Rightarrow> 'd \<Rightarrow> 'd \<Rightarrow> bool"
  assumes start_law: "start d d' \<Longrightarrow> (\<forall>m. row d = Some m \<longrightarrow> open_row m)
      \<and> (\<exists>m. row d' = Some m \<and> open_row m \<and> ((\<forall>m0. row d = Some m0 \<longrightarrow> row_ok m0) \<longrightarrow> row_ok m))"
    and claim_law: "claim d d' \<Longrightarrow> row d = Some m \<Longrightarrow>
      \<exists>m'. row d' = Some m' \<and> wm_status m' = ''sending'' \<and> wm_meta_message_id m' = wm_meta_message_id m"
    and submit_law: "submit d rs out d' \<Longrightarrow> row d = Some m \<Longrightarrow>
      \<exists>m'. row d' = Some m' \<and> wm_status m' = wm_status m \<and> wm_meta_message_id m' = wm_meta_message_id m
        \<and> wm_status_rank m' = wm_status_rank m"
    and answer_law: "submit d rs out d' \<Longrightarrow> row d = Some m \<Longrightarrow> (case out of
        Escaped e \<Rightarrow> rs = []
      | Invalid msg \<Rightarrow> rs = []
      | ProviderFailed f \<Rightarrow> length rs \<le> 1 \<and> (failed_status f = ''failed'' \<longrightarrow> list_all refused rs)
      | Accepted i \<Rightarrow> length rs \<le> 1 \<and> i \<noteq> [])"
    and settle_law: "settle out d d' \<Longrightarrow> row d = Some m \<Longrightarrow> wm_status m = ''sending'' \<Longrightarrow> wm_meta_message_id m = None \<Longrightarrow>
      \<exists>m'. row d' = Some m' \<and> (case out of
        ProviderFailed f \<Rightarrow> wm_status m' = failed_status f \<and> wm_meta_message_id m' = None
      | Accepted i \<Rightarrow> i \<noteq> [] \<longrightarrow> row_ok m' \<and> (is_sent m' \<or> unresolved_status (wm_status m'))
      | _ \<Rightarrow> row_ok m')"
begin

abbreviation "step \<equiv> life_step row start claim submit settle"

definition all_refused :: "'d life \<Rightarrow> bool" where
  "all_refused s \<longleftrightarrow> list_all refused (lf_log s)"

definition pending_row :: "'d \<Rightarrow> bool" where
  "pending_row d \<longleftrightarrow> (\<exists>m. row d = Some m \<and> wm_status m = ''sending'' \<and> wm_meta_message_id m = None)"

text \<open>What an outcome says of the answers that led to it.\<close>

definition outcome_ok :: "'d life \<Rightarrow> outcome \<Rightarrow> bool" where
  "outcome_ok s out \<longleftrightarrow> list_all refused (butlast (lf_log s)) \<and> (case out of
     Escaped e \<Rightarrow> all_refused s
   | Invalid msg \<Rightarrow> all_refused s
   | ProviderFailed f \<Rightarrow> failed_status f = ''failed'' \<longrightarrow> all_refused s
   | Accepted i \<Rightarrow> i \<noteq> [])"

definition inv :: "'d life \<Rightarrow> bool" where
  "inv s \<longleftrightarrow> (\<forall>m. row (lf_db s) = Some m \<longrightarrow> row_ok m) \<and> (case lf_phase s of
     Idle \<Rightarrow> all_refused s \<or> (list_all refused (butlast (lf_log s)) \<and> closed_row (row (lf_db s)))
   | Ready \<Rightarrow> all_refused s \<and> (\<exists>m. row (lf_db s) = Some m \<and> open_row m)
   | Claimed \<Rightarrow> all_refused s \<and> pending_row (lf_db s)
   | Submitted out \<Rightarrow> outcome_ok s out \<and> pending_row (lf_db s))"

lemma open_no_id: "open_row m \<Longrightarrow> row_ok m \<Longrightarrow> wm_meta_message_id m = None"
  by (auto simp: open_row_def row_ok_def)

lemma sending_closed: "pending_row d \<Longrightarrow> closed_row (row d)"
  by (auto simp: pending_row_def closed_row_def unresolved_status_def)

lemma refused_butlast: "list_all refused xs \<Longrightarrow> list_all refused (butlast xs)"
  by (auto simp: list_all_iff dest: in_set_butlastD)

lemma outcome_butlast: "outcome_ok s out \<Longrightarrow> list_all refused (butlast (lf_log s))"
  by (simp add: outcome_ok_def)

lemma inv_crash: "inv s \<Longrightarrow> inv (s\<lparr>lf_phase := Idle\<rparr>)"
  by (cases "lf_phase s") (auto simp: inv_def all_refused_def outcome_ok_def sending_closed refused_butlast split: outcome.splits)

lemma inv_submit:
  assumes i: "inv s" "lf_phase s = Claimed" and sub: "submit (lf_db s) rs out d"
  shows "inv (s\<lparr>lf_db := d, lf_phase := Submitted out, lf_log := lf_log s @ rs\<rparr>)"
proof -
  from i obtain m where m: "row (lf_db s) = Some m" "wm_status m = ''sending''" "wm_meta_message_id m = None" "row_ok m"
    and r: "list_all refused (lf_log s)"
    by (auto simp: inv_def pending_row_def all_refused_def)
  from submit_law[OF sub m(1)] m have p: "pending_row d" and ok: "\<forall>m. row d = Some m \<longrightarrow> row_ok m"
    by (auto simp: pending_row_def row_ok_def)
  have b: "list_all refused (butlast (lf_log s @ rs))" if "length rs \<le> 1"
    using that r refused_butlast by (cases rs) (auto simp: butlast_append)
  have "outcome_ok (s\<lparr>lf_db := d, lf_phase := Submitted out, lf_log := lf_log s @ rs\<rparr>) out"
    using answer_law[OF sub m(1)] r b by (cases out) (auto simp: outcome_ok_def all_refused_def refused_butlast)
  with p ok show ?thesis by (simp add: inv_def)
qed

lemma inv_settle:
  assumes i: "inv s" "lf_phase s = Submitted out" and st: "settle out (lf_db s) d"
  shows "inv (s\<lparr>lf_db := d, lf_phase := Idle\<rparr>)"
proof -
  from i obtain m where m: "row (lf_db s) = Some m" "wm_status m = ''sending''" "wm_meta_message_id m = None"
    and o': "outcome_ok s out"
    by (auto simp: inv_def pending_row_def)
  from settle_law[OF st m] obtain m' where m': "row d = Some m'"
    and c: "case out of ProviderFailed f \<Rightarrow> wm_status m' = failed_status f \<and> wm_meta_message_id m' = None
      | Accepted i \<Rightarrow> i \<noteq> [] \<longrightarrow> row_ok m' \<and> (is_sent m' \<or> unresolved_status (wm_status m')) | _ \<Rightarrow> row_ok m'" by blast
  show ?thesis
  proof (cases out)
    case (ProviderFailed f)
    with c m' o' show ?thesis
      by (auto simp: inv_def outcome_ok_def all_refused_def row_ok_def closed_row_def failed_status_def unresolved_status_def)
  next
    case (Accepted i)
    with c m' o' show ?thesis by (auto simp: inv_def outcome_ok_def closed_row_def)
  qed (use c m' o' in \<open>simp_all add: inv_def outcome_ok_def all_refused_def\<close>)
qed

lemma inv_other:
  assumes "inv s" "row d = row (lf_db s)"
  shows "inv (s\<lparr>lf_db := d\<rparr>)"
  using assms by (auto simp: inv_def all_refused_def outcome_ok_def pending_row_def split: phase.splits outcome.splits)

lemma inv_report:
  assumes i: "inv s" and m: "row (lf_db s) = Some m" "wm_meta_message_id m \<noteq> None" "row d = Some (apply_status st stamp m)"
  shows "inv (s\<lparr>lf_db := d\<rparr>)"
proof -
  have ok: "row_ok m" using i m(1) by (simp add: inv_def)
  have a: "is_sent (apply_status st stamp m)" "row_ok (apply_status st stamp m)"
    using apply_status_closed[OF m(2) ok] by blast+
  have "lf_phase s = Idle"
    using i m ok by (cases "lf_phase s") (auto simp: inv_def pending_row_def open_row_def row_ok_def)
  with i m(3) a show ?thesis by (auto simp: inv_def all_refused_def closed_row_def)
qed

lemma inv_step:
  assumes "inv s" "step s t"
  shows "inv t"
  using assms(2)
proof (cases rule: life_step.cases)
  case (begin_step d)
  from start_law[OF begin_step(3)] assms(1) begin_step(2)
  have "all_refused s" by (auto simp: inv_def closed_row_def open_row_def)
  moreover from start_law[OF begin_step(3)] assms(1) obtain m where "row d = Some m" "open_row m" "row_ok m"
    by (auto simp: inv_def)
  ultimately show ?thesis using begin_step(1) by (simp add: inv_def all_refused_def)
next
  case (claim_step d)
  from assms(1) claim_step(2) obtain m where m: "row (lf_db s) = Some m" "open_row m" "row_ok m" "all_refused s"
    by (auto simp: inv_def)
  from claim_law[OF claim_step(3) m(1)] open_no_id[OF m(2,3)] m(4) claim_step(1)
  show ?thesis by (auto simp: inv_def pending_row_def all_refused_def row_ok_def)
next
  case (submit_step rs out d)
  with inv_submit assms(1) show ?thesis by simp
next
  case (settle_step out d)
  with inv_settle assms(1) show ?thesis by simp
next
  case crash_step
  with inv_crash assms(1) show ?thesis by simp
next
  case (other_step d)
  with inv_other assms(1) show ?thesis by simp
next
  case (report_step m d s' t')
  with inv_report[OF assms(1) report_step(2,3,4)] show ?thesis by simp
qed

lemma inv_start: "life_start row s \<Longrightarrow> inv s"
  by (simp add: life_start_def inv_def all_refused_def)

sublocale lives: inv_system "life_start row" step inv
  by unfold_locales (fact inv_start, fact inv_step)

lemma once:
  assumes "reach (life_start row) step t"
  shows "list_all refused (butlast (lf_log t))
    \<and> (lf_phase t = Idle \<and> \<not> list_all refused (lf_log t) \<longrightarrow> closed_row (row (lf_db t)))"
proof -
  from lives.reach_inv[OF assms] have i: "inv t" .
  have "list_all refused (butlast (lf_log t))"
    using i by (cases "lf_phase t") (auto simp: inv_def all_refused_def outcome_ok_def refused_butlast)
  moreover have "lf_phase t = Idle \<and> \<not> list_all refused (lf_log t) \<longrightarrow> closed_row (row (lf_db t))"
    using i by (auto simp: inv_def all_refused_def)
  ultimately show ?thesis by blast
qed

end

section \<open>The model's deliveries\<close>

lemma find_map_if: "(\<And>x. P (f x) = P x) \<Longrightarrow> find P (map (\<lambda>x. if P x then f x else x) xs) = map_option f (find P xs)"
  by (induction xs) auto

lemma find_out_set_out:
  assumes "\<And>m. wm_idempotency_key (f m) = wm_idempotency_key m"
  shows "find_out (set_out key f db) key = map_option f (find_out db key)"
  using find_map_if[of "\<lambda>m. wm_idempotency_key m = Some key" f] assms by (simp add: find_out_def set_out_def)

lemma record_failure_key [simp]: "wm_idempotency_key (record_failure f m) = wm_idempotency_key m"
  "wm_meta_message_id (record_failure f m) = wm_meta_message_id m" "wm_status (record_failure f m) = failed_status f"
  by (simp_all add: record_failure_def)

lemma record_sent_key [simp]: "wm_idempotency_key (record_sent i m) = wm_idempotency_key m"
  "wm_meta_message_id (record_sent i m) = Some i" "wm_status_rank (record_sent i m) = 3"
  by (simp_all add: record_sent_def)

lemma control_reply_whatsapp: "record_control_reply sha lane now ids q db = (reply, db') \<Longrightarrow> ag_whatsapp db' = ag_whatsapp db"
  by (auto simp: record_control_reply_def Let_def split: option.splits if_splits)

lemma mark_control_whatsapp [simp]: "ag_whatsapp (mark_control reply db) = ag_whatsapp db"
  by (cases reply) (simp_all add: mark_control_def set_message_def)

lemma find_out_frame: "ag_whatsapp db' = ag_whatsapp db \<Longrightarrow> find_out db' key = find_out db key"
  by (simp add: find_out_def)

text \<open>The answers to the message requests made between two histories; an upload is no message.\<close>

definition message_answers :: "meta_ops \<Rightarrow> meta_call list \<Rightarrow> meta_call list \<Rightarrow> meta_reply list" where
  "message_answers ops h h' = map (\<lambda>i. mo_net ops (take i h') (h' ! i))
     (filter (\<lambda>i. mq_json (h' ! i) \<noteq> None) [length h..<length h'])"

lemma message_answers_none [simp]: "message_answers ops h h = []"
  by (simp add: message_answers_def)

lemma message_answers_snoc: "length h \<le> length h1 \<Longrightarrow> message_answers ops h (h1 @ [q])
  = message_answers ops h h1 @ (if mq_json q \<noteq> None then [mo_net ops h1 q] else [])"
proof -
  assume le: "length h \<le> length h1"
  have "filter (\<lambda>i. mq_json ((h1 @ [q]) ! i) \<noteq> None) [length h..<length h1] = filter (\<lambda>i. mq_json (h1 ! i) \<noteq> None) [length h..<length h1]"
    by (rule filter_cong) (simp_all add: nth_append)
  then show ?thesis using le by (auto simp: message_answers_def nth_append)
qed

text \<open>A send that reports \<open>out\<close> after the answers \<open>rs\<close>.\<close>

definition answers_fit :: "meta_reply list \<Rightarrow> outcome \<Rightarrow> bool" where
  "answers_fit rs out \<longleftrightarrow> (case out of
     Escaped e \<Rightarrow> rs = [] | Invalid msg \<Rightarrow> rs = []
   | ProviderFailed f \<Rightarrow> length rs \<le> 1 \<and> (failed_status f = ''failed'' \<longrightarrow> list_all refused rs)
   | Accepted i \<Rightarrow> length rs \<le> 1 \<and> i \<noteq> [])"

lemma read_send_fit: "answers_fit [a] (outcome_of (read_send ops cl a)) \<or> (\<exists>msg. read_send ops cl a = Inl (MetaValueError msg))"
proof (cases "read_send ops cl a")
  case (Inl e)
  then show ?thesis by (cases e) (auto simp: answers_fit_def outcome_of_def dest: failed_is_refused)
next
  case (Inr i)
  then show ?thesis using sent_id_nonempty by (auto simp: answers_fit_def outcome_of_def)
qed

lemma read_send_value: "read_send ops cl a \<noteq> Inl (MetaValueError msg)"
  by (auto simp: read_send_def and_then_def read_bounded_def decode_json_def message_of_def failure_def no_reply_def Let_def
      split: meta_reply.splits sum.splits if_splits option.splits pyval.splits)

definition posts_json :: "string meta_io \<Rightarrow> bool" where
  "posts_json m \<longleftrightarrow> (\<forall>h q r. m h = (h @ [q], r) \<longrightarrow> mq_json q \<noteq> None)"

lemma sends_fit:
  assumes "sends_once ops m" "posts_json m" "m h = (h', r)" "length h0 \<le> length h"
  shows "message_answers ops h0 h' = message_answers ops h0 h @ (if h' = h then [] else [mo_net ops h (last h')])
    \<and> answers_fit (if h' = h then [] else [mo_net ops h (last h')]) (outcome_of r)"
proof -
  from assms(1,3) consider (none) e where "h' = h" "r = Inl (MetaValueError e)"
    | (one) q cl where "h' = h @ [q]" "r = read_send ops cl (mo_net ops h q)"
    unfolding sends_once_def by metis
  then show ?thesis
  proof cases
    case none
    then show ?thesis by (simp add: answers_fit_def outcome_of_def)
  next
    case one
    with assms(2,3) have "mq_json q \<noteq> None" unfolding posts_json_def by metis
    with one assms(4) read_send_fit[of "mo_net ops h q" ops cl] read_send_value[of ops cl]
    show ?thesis by (simp add: message_answers_snoc)
  qed
qed

lemma meta_send_posts: "posts_json (meta_send ops cl phone payload)"
  by (auto simp: posts_json_def meta_send_def post_json_def Let_def split: sum.splits)

lemma send_posts:
  "posts_json (send_text ops cl phone body reply)" "posts_json (send_buttons ops cl phone body buttons reply)"
  "posts_json (send_media ops cl phone kind i caption nm voice reply)"
  using meta_send_posts[of ops cl phone]
  by (auto simp: posts_json_def send_text_def send_buttons_def send_media_def Let_def split: if_splits sum.splits prod.splits)

section \<open>Text messages\<close>

definition text_start :: "delivery_ops \<Rightarrow> wa_settings \<Rightarrow> text_delivery \<Rightarrow> 'a agent_db_scheme \<Rightarrow> 'a agent_db_scheme \<Rightarrow> bool" where
  "text_start ops st c d d' \<longleftrightarrow> deliver_check ops st c d = Proceed \<and> (\<exists>a reply com. deliver_prepare ops st c a d = (reply, d', com))"

definition claim_row :: "string \<Rightarrow> 'a agent_db_scheme \<Rightarrow> 'a agent_db_scheme \<Rightarrow> bool" where
  "claim_row key d d' \<longleftrightarrow> d' = mark_sending key d"

definition text_submit ::
  "delivery_ops \<Rightarrow> wa_settings \<Rightarrow> text_delivery \<Rightarrow> 'a agent_db_scheme \<Rightarrow> meta_reply list \<Rightarrow> outcome \<Rightarrow> 'a agent_db_scheme \<Rightarrow> bool" where
  "text_submit ops st c d rs out d' \<longleftrightarrow> d' = d \<and> (\<exists>now f f' h h'. deliver_submit ops st c now d f h = (f', h', out)
     \<and> rs = message_answers (dv_meta ops) h h')"

definition text_settle ::
  "delivery_ops \<Rightarrow> wa_settings \<Rightarrow> text_delivery \<Rightarrow> outcome \<Rightarrow> 'a agent_db_scheme \<Rightarrow> 'a agent_db_scheme \<Rightarrow> bool" where
  "text_settle ops st c out d d' \<longleftrightarrow> (\<exists>reply r. deliver_settle ops st c reply out d = (d', r))"

lemma transmit_fit:
  assumes "transmit ops st c h = (h', out)"
  shows "answers_fit (message_answers (dv_meta ops) h h') out"
proof (cases "ms_backend st = ''mock'' \<or> ms_backend st \<noteq> ''meta''")
  case True
  with assms show ?thesis by (auto simp: transmit_def answers_fit_def local_send_def split: if_splits)
next
  case False
  show ?thesis
  proof (cases "messaging_client st (dc_sender c)")
    case (Inl e)
    have "\<exists>msg. e = MetaValueError msg" using Inl
      by (auto simp: messaging_client_def client_from_settings_def client_for_reply_def new_client_def
          split: option.splits if_splits)
    with Inl False assms show ?thesis by (auto simp: transmit_def answers_fit_def outcome_of_def)
  next
    case (Inr cl)
    define m where "m = (if dc_buttons c = [] then send_text (dv_meta ops) cl (dc_phone c) (dc_body c) (dc_reply_to c)
       else send_buttons (dv_meta ops) cl (dc_phone c) (dc_body c) (dc_buttons c) (dc_reply_to c))"
    have ms: "sends_once (dv_meta ops) m" "posts_json m"
      by (simp_all add: m_def send_text_once send_buttons_once send_posts)
    obtain r where r: "m h = (h', r)" "out = outcome_of r"
      using assms False Inr by (cases "m h") (auto simp: transmit_def m_def split: if_splits)
    from sends_fit[OF ms r(1) order_refl] r(2) show ?thesis by simp
  qed
qed

lemma prepare_row:
  assumes "deliver_prepare ops st c a d = (reply, d', com)"
  shows "find_out d' (delivery_key ops c) = (case find_out d (delivery_key ops c) of
     Some m \<Rightarrow> Some m | None \<Rightarrow> Some (outbound_row ops st c (at_row a) (at_prepare a)))"
proof -
  obtain r d1 where r: "record_control_reply (sha_text (dv_text ops)) (ms_env st) (at_prepare a) (at_ids a) (delivery_control ops c) d = (r, d1)"
    by (cases "record_control_reply (sha_text (dv_text ops)) (ms_env st) (at_prepare a) (at_ids a) (delivery_control ops c) d")
  have w: "ag_whatsapp d1 = ag_whatsapp d" by (rule control_reply_whatsapp[OF r])
  show ?thesis
  proof (cases "find_out d (delivery_key ops c)")
    case None
    with assms r have "d' = d1\<lparr>ag_whatsapp := ag_whatsapp d1 @ [outbound_row ops st c (at_row a) (at_prepare a)]\<rparr>"
      by (simp add: deliver_prepare_def Let_def)
    with None w show ?thesis by (simp add: find_out_def find_snoc outbound_row_def)
  next
    case (Some m)
    with assms r w show ?thesis by (simp add: deliver_prepare_def find_out_def)
  qed
qed

lemma check_open: "deliver_check ops st c d = Proceed \<Longrightarrow> find_out d (delivery_key ops c) = Some m \<Longrightarrow> open_row m"
  by (auto simp: deliver_check_def open_row_def split: if_splits)

lemma fresh_row_open: "open_row (outbound_row ops st c i now)" "row_ok (outbound_row ops st c i now)"
  by (simp_all add: outbound_row_def open_row_def row_ok_def is_sent_def unresolved_status_def)

lemma claim_row_law:
  assumes "claim_row key d d'" "find_out d key = Some m"
  shows "\<exists>m'. find_out d' key = Some m' \<and> wm_status m' = ''sending'' \<and> wm_meta_message_id m' = wm_meta_message_id m"
  using assms by (simp add: claim_row_def mark_sending_def find_out_set_out)

lemma transport_id_nonempty: "i \<noteq> [] \<Longrightarrow> transport_id st key i \<noteq> []"
  by (simp add: transport_id_def)

lemma sent_ok: "i \<noteq> [] \<Longrightarrow> is_sent (record_sent i m)" "i \<noteq> [] \<Longrightarrow> row_ok (record_sent i m)"
  by (simp_all add: row_ok_def is_sent_def present_def)

lemma submit_fit: "deliver_submit ops st c now d f h = (f', h', out) \<Longrightarrow> answers_fit (message_answers (dv_meta ops) h h') out"
  by (auto simp: deliver_submit_def answers_fit_def[of "[]"] split: prod.splits sum.splits if_splits dest: transmit_fit)

lemma settle_law:
  assumes "deliver_settle ops st c reply out d = (d', r)" "find_out d (delivery_key ops c) = Some m"
    and m: "wm_status m = ''sending''" "wm_meta_message_id m = None"
  shows "\<exists>m'. find_out d' (delivery_key ops c) = Some m' \<and> (case out of
        ProviderFailed f \<Rightarrow> wm_status m' = failed_status f \<and> wm_meta_message_id m' = None
      | Accepted i \<Rightarrow> i \<noteq> [] \<longrightarrow> row_ok m' \<and> (is_sent m' \<or> unresolved_status (wm_status m'))
      | _ \<Rightarrow> row_ok m')"
proof (cases out)
  case (Escaped e)
  with assms show ?thesis by (simp add: deliver_settle_def Let_def row_ok_def)
next
  case (Invalid msg)
  with assms(1) have "d' = set_out (delivery_key ops c) (\<lambda>m. m\<lparr>wm_status := ''rejected''\<rparr>) d" by (simp add: deliver_settle_def Let_def)
  with assms Invalid show ?thesis by (simp add: find_out_set_out row_ok_def)
next
  case (ProviderFailed f)
  with assms(1) have "d' = set_out (delivery_key ops c) (record_failure f) d" by (simp add: deliver_settle_def Let_def)
  with assms ProviderFailed show ?thesis by (simp add: find_out_set_out)
next
  case (Accepted i)
  show ?thesis
  proof (cases "id_taken (delivery_key ops c) (delivery_scope ops st (dc_sender c)) (transport_id st (delivery_key ops c) i) d")
    case True
    with assms Accepted have "d' = d" by (simp add: deliver_settle_def Let_def)
    with assms Accepted m show ?thesis by (simp add: row_ok_def unresolved_status_def)
  next
    case False
    let ?f = "\<lambda>m. record_sent (transport_id st (delivery_key ops c) i)
        (if ms_backend st = ''mock'' then m\<lparr>wm_payload := dict_set (wm_payload m) ''provider_message_id'' (PStr i)\<rparr> else m)"
    from False assms(1) Accepted have "d' = mark_control reply (set_out (delivery_key ops c) ?f d)"
      by (simp add: deliver_settle_def Let_def)
    then have "find_out d' (delivery_key ops c) = map_option ?f (find_out d (delivery_key ops c))"
      by (simp add: find_out_frame[OF mark_control_whatsapp] find_out_set_out)
    with assms(2) have "find_out d' (delivery_key ops c) = Some (?f m)" by simp
    moreover have "row_ok (?f m) \<and> is_sent (?f m)" if "i \<noteq> []"
      using sent_ok[OF transport_id_nonempty[OF that]] by (cases "ms_backend st = ''mock''") auto
    ultimately show ?thesis using Accepted by auto
  qed
qed

interpretation texts: once_only "\<lambda>d. find_out d (delivery_key ops c)" "text_start ops st c" "claim_row (delivery_key ops c)"
    "text_submit ops st c" "text_settle ops st c"
  for ops st c
proof unfold_locales
  fix d d' :: "'a agent_db_scheme" and m rs out
  let ?row = "\<lambda>d. find_out d (delivery_key ops c)"
  show "text_start ops st c d d' \<Longrightarrow> (\<forall>m. ?row d = Some m \<longrightarrow> open_row m)
      \<and> (\<exists>m. ?row d' = Some m \<and> open_row m \<and> ((\<forall>m0. ?row d = Some m0 \<longrightarrow> row_ok m0) \<longrightarrow> row_ok m))"
    unfolding text_start_def
    by (cases "?row d") (auto simp: prepare_row check_open fresh_row_open)
  show "claim_row (delivery_key ops c) d d' \<Longrightarrow> ?row d = Some m \<Longrightarrow>
      \<exists>m'. ?row d' = Some m' \<and> wm_status m' = ''sending'' \<and> wm_meta_message_id m' = wm_meta_message_id m"
    by (rule claim_row_law)
  show "text_submit ops st c d rs out d' \<Longrightarrow> ?row d = Some m \<Longrightarrow>
      \<exists>m'. ?row d' = Some m' \<and> wm_status m' = wm_status m \<and> wm_meta_message_id m' = wm_meta_message_id m
        \<and> wm_status_rank m' = wm_status_rank m"
    by (simp add: text_submit_def)
  show "text_submit ops st c d rs out d' \<Longrightarrow> ?row d = Some m \<Longrightarrow> (case out of
        Escaped e \<Rightarrow> rs = [] | Invalid msg \<Rightarrow> rs = []
      | ProviderFailed f \<Rightarrow> length rs \<le> 1 \<and> (failed_status f = ''failed'' \<longrightarrow> list_all refused rs)
      | Accepted i \<Rightarrow> length rs \<le> 1 \<and> i \<noteq> [])"
    by (auto simp: text_submit_def answers_fit_def[symmetric] dest: submit_fit)
  show "text_settle ops st c out d d' \<Longrightarrow> ?row d = Some m \<Longrightarrow> wm_status m = ''sending'' \<Longrightarrow> wm_meta_message_id m = None \<Longrightarrow>
      \<exists>m'. ?row d' = Some m' \<and> (case out of
        ProviderFailed f \<Rightarrow> wm_status m' = failed_status f \<and> wm_meta_message_id m' = None
      | Accepted i \<Rightarrow> i \<noteq> [] \<longrightarrow> row_ok m' \<and> (is_sent m' \<or> unresolved_status (wm_status m'))
      | _ \<Rightarrow> row_ok m')"
    unfolding text_settle_def using settle_law by blast
qed

section \<open>Media messages\<close>

definition media_start :: "delivery_ops \<Rightarrow> wa_settings \<Rightarrow> media_delivery \<Rightarrow> 'a agent_db_scheme \<Rightarrow> 'a agent_db_scheme \<Rightarrow> bool" where
  "media_start ops st c d d' \<longleftrightarrow> media_check ops st c d = Proceed \<and> (\<exists>i now. d' = media_prepare ops st c i now d)"

definition media_sent ::
  "delivery_ops \<Rightarrow> wa_settings \<Rightarrow> media_delivery \<Rightarrow> 'a agent_db_scheme \<Rightarrow> meta_reply list \<Rightarrow> outcome \<Rightarrow> 'a agent_db_scheme \<Rightarrow> bool" where
  "media_sent ops st c d rs out d' \<longleftrightarrow> (\<exists>sender now f f' h h'. media_submit ops st c sender now d f h = (f', d', h', out)
     \<and> rs = message_answers (dv_meta ops) h h')"

definition media_settled ::
  "delivery_ops \<Rightarrow> wa_settings \<Rightarrow> media_delivery \<Rightarrow> outcome \<Rightarrow> 'a agent_db_scheme \<Rightarrow> 'a agent_db_scheme \<Rightarrow> bool" where
  "media_settled ops st c out d d' \<longleftrightarrow> (\<exists>r. media_settle ops st c out d = (d', r))"

lemma upload_shape:
  assumes "upload_media mo cl content mime name h = (h', r)"
  shows "h' = h \<or> (\<exists>q. h' = h @ [q] \<and> mq_json q = None)"
  using assms by (auto simp: upload_media_def Let_def split: if_splits)

lemma upload_once_shape:
  assumes "upload_once ops cl c d h = (d', h', r)" "find_out d (media_key ops c) = Some m"
  shows "(h' = h \<or> (\<exists>q. h' = h @ [q] \<and> mq_json q = None))
    \<and> (\<exists>m'. find_out d' (media_key ops c) = Some m' \<and> wm_status m' = wm_status m
        \<and> wm_meta_message_id m' = wm_meta_message_id m \<and> wm_status_rank m' = wm_status_rank m)"
  using assms
  by (auto simp: upload_once_def find_out_set_out split: pyval.splits prod.splits sum.splits dest!: upload_shape)

lemma message_answers_upload:
  assumes "h' = h \<or> (\<exists>q. h' = h @ [q] \<and> mq_json q = None)"
  shows "message_answers mo h h' = []" "length h \<le> length h'"
  using assms message_answers_snoc[of h h] by auto

lemma media_submit_cases:
  assumes "media_submit ops st c sender now d f h = (f', d', h', out)" "find_out d (media_key ops c) = Some m"
  shows "answers_fit (message_answers (dv_meta ops) h h') out
    \<and> (\<exists>m'. find_out d' (media_key ops c) = Some m' \<and> wm_status m' = wm_status m
        \<and> wm_meta_message_id m' = wm_meta_message_id m \<and> wm_status_rank m' = wm_status_rank m)"
proof -
  obtain f1 r1 where s1: "may_send d now f (Some (dm_tenant c)) (Some (dm_user c)) (dm_phone c) = (f1, r1)"
    by (cases "may_send d now f (Some (dm_tenant c)) (Some (dm_user c)) (dm_phone c)")
  show ?thesis
  proof (cases r1)
    case (Inl e)
    with assms s1 show ?thesis by (auto simp: media_submit_def answers_fit_def)
  next
    case (Inr u)
    show ?thesis
    proof (cases "client_for_reply st sender")
      case (Inl e)
      then obtain msg where "e = MetaValueError msg"
        by (auto simp: client_from_settings_def client_for_reply_def new_client_def split: option.splits if_splits)
      with Inl Inr assms s1 show ?thesis by (auto simp: media_submit_def answers_fit_def outcome_of_def)
    next
      case cl: (Inr cl)
      obtain d1 h1 r2 where up: "upload_once ops cl c d h = (d1, h1, r2)" by (cases "upload_once ops cl c d h") auto
      from upload_once_shape[OF up assms(2)] have sh: "h1 = h \<or> (\<exists>q. h1 = h @ [q] \<and> mq_json q = None)"
        and row: "\<exists>m'. find_out d1 (media_key ops c) = Some m' \<and> wm_status m' = wm_status m
        \<and> wm_meta_message_id m' = wm_meta_message_id m \<and> wm_status_rank m' = wm_status_rank m" by blast+
      show ?thesis
      proof (cases r2)
        case (Inl e)
        with Inr cl s1 up assms(1) have o': "out = outcome_of (Inl e)" "d' = d1" "h' = h1"
          by (simp_all add: media_submit_def)
        have "answers_fit [] (outcome_of (Inl e))"
          by (cases e) (simp_all add: answers_fit_def outcome_of_def)
        with o' row message_answers_upload[OF sh] show ?thesis by simp
      next
        case r2: (Inr i)
        obtain f2 r3 where s2: "may_send d1 now f1 (Some (dm_tenant c)) (Some (dm_user c)) (dm_phone c) = (f2, r3)"
          by (cases "may_send d1 now f1 (Some (dm_tenant c)) (Some (dm_user c)) (dm_phone c)")
        show ?thesis
        proof (cases r3)
          case (Inl e)
          with r2 Inr cl s1 s2 up assms(1) have "out = Escaped e" "d' = d1" "h' = h1" by (simp_all add: media_submit_def)
          with row message_answers_upload[OF sh] show ?thesis by (simp add: answers_fit_def)
        next
          case r3: (Inr u2)
          let ?m = "send_media (dv_meta ops) cl (dm_phone c) (dm_kind c) i None None (dm_voice c) (dm_reply_to c)"
          obtain r where s: "?m h1 = (h', r)" and o': "d' = d1" "out = outcome_of r"
            using r3 r2 Inr cl s1 s2 up assms(1) by (cases "?m h1") (auto simp: media_submit_def)
          from sends_fit[OF send_media_once send_posts(3) s message_answers_upload(2)[OF sh]] o' row message_answers_upload(1)[OF sh]
          show ?thesis by simp
        qed
      qed
    qed
  qed
qed

interpretation medias: once_only "\<lambda>d. find_out d (media_key ops c)" "media_start ops st c" "claim_row (media_key ops c)"
    "media_sent ops st c" "media_settled ops st c"
  for ops st c
proof unfold_locales
  fix d d' :: "'a agent_db_scheme" and m rs out
  let ?row = "\<lambda>d. find_out d (media_key ops c)"
  show "media_start ops st c d d' \<Longrightarrow> (\<forall>m. ?row d = Some m \<longrightarrow> open_row m)
      \<and> (\<exists>m. ?row d' = Some m \<and> open_row m \<and> ((\<forall>m0. ?row d = Some m0 \<longrightarrow> row_ok m0) \<longrightarrow> row_ok m))"
    by (cases "?row d")
      (auto simp: media_start_def media_check_def media_prepare_def find_out_def find_snoc media_row_def open_row_def row_ok_def
        is_sent_def unresolved_status_def split: if_splits)
  show "claim_row (media_key ops c) d d' \<Longrightarrow> ?row d = Some m \<Longrightarrow>
      \<exists>m'. ?row d' = Some m' \<and> wm_status m' = ''sending'' \<and> wm_meta_message_id m' = wm_meta_message_id m"
    by (rule claim_row_law)
  show "media_sent ops st c d rs out d' \<Longrightarrow> ?row d = Some m \<Longrightarrow>
      \<exists>m'. ?row d' = Some m' \<and> wm_status m' = wm_status m \<and> wm_meta_message_id m' = wm_meta_message_id m
        \<and> wm_status_rank m' = wm_status_rank m"
    unfolding media_sent_def using media_submit_cases by blast
  show "media_sent ops st c d rs out d' \<Longrightarrow> ?row d = Some m \<Longrightarrow> (case out of
        Escaped e \<Rightarrow> rs = [] | Invalid msg \<Rightarrow> rs = []
      | ProviderFailed f \<Rightarrow> length rs \<le> 1 \<and> (failed_status f = ''failed'' \<longrightarrow> list_all refused rs)
      | Accepted i \<Rightarrow> length rs \<le> 1 \<and> i \<noteq> [])"
    unfolding media_sent_def answers_fit_def[symmetric] using media_submit_cases by blast
  show "media_settled ops st c out d d' \<Longrightarrow> ?row d = Some m \<Longrightarrow> wm_status m = ''sending'' \<Longrightarrow> wm_meta_message_id m = None \<Longrightarrow>
      \<exists>m'. ?row d' = Some m' \<and> (case out of
        ProviderFailed f \<Rightarrow> wm_status m' = failed_status f \<and> wm_meta_message_id m' = None
      | Accepted i \<Rightarrow> i \<noteq> [] \<longrightarrow> row_ok m' \<and> (is_sent m' \<or> unresolved_status (wm_status m'))
      | _ \<Rightarrow> row_ok m')"
    by (cases out) (auto simp: media_settled_def media_settle_def Let_def find_out_set_out row_ok_def sent_ok unresolved_status_def
        split: if_splits)
qed

text \<open>The life of a text message and of a media message: the steps of the worker with the transactions above, crashes, other
  work, and reported statuses.\<close>

abbreviation text_life :: "delivery_ops \<Rightarrow> wa_settings \<Rightarrow> text_delivery \<Rightarrow> 'a agent_db_scheme life \<Rightarrow> 'a agent_db_scheme life \<Rightarrow> bool" where
  "text_life ops st c \<equiv> life_step (\<lambda>d. find_out d (delivery_key ops c)) (text_start ops st c) (claim_row (delivery_key ops c))
     (text_submit ops st c) (text_settle ops st c)"

abbreviation media_life :: "delivery_ops \<Rightarrow> wa_settings \<Rightarrow> media_delivery \<Rightarrow> 'a agent_db_scheme life \<Rightarrow> 'a agent_db_scheme life \<Rightarrow> bool" where
  "media_life ops st c \<equiv> life_step (\<lambda>d. find_out d (media_key ops c)) (media_start ops st c) (claim_row (media_key ops c))
     (media_sent ops st c) (media_settled ops st c)"

text \<open>C5: A WhatsApp message is never sent a second time unless the provider refused it. Over any history of attempts at a text
  message, with crashes between any two transactions, retries, other work and late delivery reports, every submission
  but the last was answered 408, 425 or 429; once a submission may have reached the person, the row is final or
  waits for reconciliation whenever no worker is inside the delivery.\<close>

theorem message_submitted_at_most_once:
  assumes "reach (life_start (\<lambda>d. find_out d (delivery_key ops c))) (text_life ops st c) t"
  shows "list_all refused (butlast (lf_log t))
    \<and> (lf_phase t = Idle \<and> \<not> list_all refused (lf_log t) \<longrightarrow> closed_row (find_out (lf_db t) (delivery_key ops c)))"
  by (rule texts.once[OF assms])

text \<open>The same for images, documents and voice notes, whose upload is a request of its own.\<close>

theorem media_submitted_at_most_once:
  assumes "reach (life_start (\<lambda>d. find_out d (media_key ops c))) (media_life ops st c) t"
  shows "list_all refused (butlast (lf_log t))
    \<and> (lf_phase t = Idle \<and> \<not> list_all refused (lf_log t) \<longrightarrow> closed_row (find_out (lf_db t) (media_key ops c)))"
  by (rule medias.once[OF assms])

section \<open>The code's deliveries are such lives\<close>

lemma reach_steps: "step\<^sup>*\<^sup>* s t \<Longrightarrow> reach init step s \<Longrightarrow> reach init step t"
  by (induction rule: rtranclp_induct) (auto intro: reach_step)

lemma life_run3:
  assumes "start d d1" "claim d1 d2" "submit d2 rs out d3" "settle out d3 d4"
  shows "(life_step row start claim submit settle)\<^sup>*\<^sup>* \<lparr> lf_db = d, lf_phase = Idle, lf_log = l \<rparr>
    \<lparr> lf_db = d4, lf_phase = Idle, lf_log = l @ rs \<rparr>"
proof -
  let ?st = "life_step row start claim submit settle"
  have 1: "?st \<lparr> lf_db = d, lf_phase = Idle, lf_log = l \<rparr> \<lparr> lf_db = d1, lf_phase = Ready, lf_log = l \<rparr>"
    using begin_step[of "\<lparr> lf_db = d, lf_phase = Idle, lf_log = l \<rparr>" start d1] assms(1) by simp
  have 2: "?st \<lparr> lf_db = d1, lf_phase = Ready, lf_log = l \<rparr> \<lparr> lf_db = d2, lf_phase = Claimed, lf_log = l \<rparr>"
    using claim_step[of "\<lparr> lf_db = d1, lf_phase = Ready, lf_log = l \<rparr>" claim d2] assms(2) by simp
  have 3: "?st \<lparr> lf_db = d2, lf_phase = Claimed, lf_log = l \<rparr> \<lparr> lf_db = d3, lf_phase = Submitted out, lf_log = l @ rs \<rparr>"
    using submit_step[of "\<lparr> lf_db = d2, lf_phase = Claimed, lf_log = l \<rparr>" submit rs out d3] assms(3) by simp
  have 4: "?st \<lparr> lf_db = d3, lf_phase = Submitted out, lf_log = l @ rs \<rparr> \<lparr> lf_db = d4, lf_phase = Idle, lf_log = l @ rs \<rparr>"
    using settle_step[of "\<lparr> lf_db = d3, lf_phase = Submitted out, lf_log = l @ rs \<rparr>" out settle d4] assms(4) by simp
  from 1 2 3 4 show ?thesis by (meson converse_rtranclp_into_rtranclp rtranclp.rtrancl_refl)
qed

lemma life_run1:
  assumes "start d d1" "row d2 = row d1"
  shows "(life_step row start claim submit settle)\<^sup>*\<^sup>* \<lparr> lf_db = d, lf_phase = Idle, lf_log = l \<rparr>
    \<lparr> lf_db = d2, lf_phase = Idle, lf_log = l \<rparr>"
proof -
  let ?st = "life_step row start claim submit settle"
  have 1: "?st \<lparr> lf_db = d, lf_phase = Idle, lf_log = l \<rparr> \<lparr> lf_db = d1, lf_phase = Ready, lf_log = l \<rparr>"
    using begin_step[of "\<lparr> lf_db = d, lf_phase = Idle, lf_log = l \<rparr>" start d1] assms(1) by simp
  have 2: "?st \<lparr> lf_db = d1, lf_phase = Ready, lf_log = l \<rparr> \<lparr> lf_db = d1, lf_phase = Idle, lf_log = l \<rparr>"
    using crash_step[of row start claim submit settle "\<lparr> lf_db = d1, lf_phase = Ready, lf_log = l \<rparr>"] by simp
  have 3: "?st \<lparr> lf_db = d1, lf_phase = Idle, lf_log = l \<rparr> \<lparr> lf_db = d2, lf_phase = Idle, lf_log = l \<rparr>"
    using other_step[of row d2 "\<lparr> lf_db = d1, lf_phase = Idle, lf_log = l \<rparr>"] assms(2) by simp
  from 1 2 3 show ?thesis by (meson converse_rtranclp_into_rtranclp rtranclp.rtrancl_refl)
qed

lemma deliver_once_run:
  assumes "deliver_once ops st a c w = (w', r)"
  shows "(text_life ops st c)\<^sup>*\<^sup>* \<lparr> lf_db = ww_db w, lf_phase = Idle, lf_log = l \<rparr>
    \<lparr> lf_db = ww_db w', lf_phase = Idle, lf_log = l @ message_answers (dv_meta ops) (ww_net w) (ww_net w') \<rparr>"
proof (cases "deliver_check ops st c (ww_db w)")
  case Proceed
  let ?key = "delivery_key ops c"
  obtain reply d1 com where p: "deliver_prepare ops st c a (ww_db w) = (reply, d1, com)"
    by (cases "deliver_prepare ops st c a (ww_db w)") auto
  have start: "text_start ops st c (ww_db w) d1" using Proceed p by (auto simp: text_start_def)
  obtain f1 ok where l1: "assert_current_job_lease d1 (at_claim a) (ww_fence w) = (f1, ok)"
    by (cases "assert_current_job_lease d1 (at_claim a) (ww_fence w)")
  show ?thesis
  proof (cases ok)
    case (Inl e)
    with assms Proceed p l1 have w: "w' = w\<lparr>ww_db := com, ww_fence := f1\<rparr>" by (auto simp: deliver_once_def Let_def)
    have "find_out com ?key = find_out d1 ?key"
      using prepare_row[OF p] p by (auto simp: deliver_prepare_def Let_def split: prod.splits option.splits)
    from life_run1[where row = "\<lambda>d. find_out d ?key" and start = "text_start ops st c", OF start this] w show ?thesis by simp
  next
    case (Inr u)
    obtain f2 h out where s: "deliver_submit ops st c (at_submit a) (mark_sending ?key d1) f1 (ww_net w) = (f2, h, out)"
      by (cases "deliver_submit ops st c (at_submit a) (mark_sending ?key d1) f1 (ww_net w)") auto
    obtain d3 r' where t: "deliver_settle ops st c reply out (mark_sending ?key d1) = (d3, r')"
      by (cases "deliver_settle ops st c reply out (mark_sending ?key d1)") auto
    from assms Proceed p l1 Inr s t have w: "w' = w\<lparr>ww_db := d3, ww_fence := f2, ww_net := h\<rparr>"
      by (simp add: deliver_once_def Let_def)
    have "claim_row ?key d1 (mark_sending ?key d1)" by (simp add: claim_row_def)
    moreover have "text_submit ops st c (mark_sending ?key d1) (message_answers (dv_meta ops) (ww_net w) h) out (mark_sending ?key d1)"
      using s unfolding text_submit_def by blast
    moreover have "text_settle ops st c out (mark_sending ?key d1) d3" using t unfolding text_settle_def by blast
    ultimately show ?thesis using life_run3[where start = "text_start ops st c", OF start] w by simp
  qed
qed (use assms in \<open>simp_all add: deliver_once_def\<close>)

text \<open>C31: The delivery routine refines that life: whatever \<open>deliver_once\<close> does to the database and the network is a run of
  the steps above, with the answers it received, so what holds of every life holds of every sequence of calls.\<close>

theorem deliver_once_refines_life:
  assumes "deliver_once ops st a c w = (w', r)"
  shows "(text_life ops st c)\<^sup>*\<^sup>* \<lparr> lf_db = ww_db w, lf_phase = Idle, lf_log = l \<rparr>
    \<lparr> lf_db = ww_db w', lf_phase = Idle, lf_log = l @ message_answers (dv_meta ops) (ww_net w) (ww_net w') \<rparr>"
  by (rule deliver_once_run[OF assms])

theorem deliver_media_once_refines_life:
  assumes "deliver_media_once ops st a c w = (w', r)"
  shows "(media_life ops st c)\<^sup>*\<^sup>* \<lparr> lf_db = ww_db w, lf_phase = Idle, lf_log = l \<rparr>
    \<lparr> lf_db = ww_db w', lf_phase = Idle, lf_log = l @ message_answers (dv_meta ops) (ww_net w) (ww_net w') \<rparr>"
proof (cases "media_check ops st c (ww_db w)")
  case Proceed
  let ?key = "media_key ops c"
  define d1 where "d1 = media_prepare ops st c (at_row a) (at_prepare a) (ww_db w)"
  have start: "media_start ops st c (ww_db w) d1" using Proceed d1_def unfolding media_start_def by blast
  have stop: ?thesis if "ww_db w' = d1" "ww_net w' = ww_net w"
    using life_run1[where row = "\<lambda>d. find_out d ?key" and start = "media_start ops st c" and ?d2.0 = d1, OF start refl] that by simp
  show ?thesis
  proof (cases "dm_sender c = None \<or> ms_backend st \<noteq> ''meta''")
    case True
    with assms Proceed show ?thesis
      by (intro stop) (auto simp: deliver_media_once_def d1_def Let_def split: option.splits)
  next
    case False
    then obtain sender where sd: "dm_sender c = Some sender" "ms_backend st = ''meta''" by auto
    obtain f1 ok where l1: "assert_current_job_lease d1 (at_claim a) (ww_fence w) = (f1, ok)"
      by (cases "assert_current_job_lease d1 (at_claim a) (ww_fence w)")
    show ?thesis
    proof (cases ok)
      case (Inl e)
      with assms Proceed sd l1 show ?thesis
        by (intro stop) (auto simp: deliver_media_once_def Let_def simp flip: d1_def)
    next
      case (Inr u)
      obtain f2 d2 h out where s: "media_submit ops st c sender (at_submit a) (mark_sending ?key d1) f1 (ww_net w) = (f2, d2, h, out)"
        by (cases "media_submit ops st c sender (at_submit a) (mark_sending ?key d1) f1 (ww_net w)") auto
      obtain d3 r' where t: "media_settle ops st c out d2 = (d3, r')" by (cases "media_settle ops st c out d2") auto
      from assms Proceed sd l1 Inr s t have w: "w' = w\<lparr>ww_db := d3, ww_fence := f2, ww_net := h\<rparr>"
        by (simp add: deliver_media_once_def Let_def flip: d1_def)
      have "claim_row ?key d1 (mark_sending ?key d1)" by (simp add: claim_row_def)
      moreover have "media_sent ops st c (mark_sending ?key d1) (message_answers (dv_meta ops) (ww_net w) h) out d2"
        using s unfolding media_sent_def by blast
      moreover have "media_settled ops st c out d2 d3" using t unfolding media_settled_def by blast
      ultimately show ?thesis using life_run3[where start = "media_start ops st c", OF start] w by simp
    qed
  qed
qed (use assms in \<open>simp_all add: deliver_media_once_def\<close>)

section \<open>Reported statuses\<close>

lemma apply_status_rank: "wm_status_rank m \<le> wm_status_rank (apply_status s t m)"
  by (simp add: apply_status_def split: option.splits)

text \<open>Delivery reports only move a message forward: processing any report keeps every message row, lowers no status rank,
  changes a status only together with its rank, and files the report once however often it arrives.\<close>

theorem reports_move_forward:
  assumes "db' = process_delivery ops st i now ev d db"
  shows "list_all2 (\<lambda>m m'. wm_id m' = wm_id m \<and> wm_status_rank m \<le> wm_status_rank m'
        \<and> wm_meta_message_id m' = wm_meta_message_id m
        \<and> (wm_status m' = wm_status m \<or> delivery_rank (wm_status m') = Some (wm_status_rank m')))
      (ag_whatsapp db) (ag_whatsapp db')
    \<and> wd_receipts (process_delivery ops st i2 now2 ev d db') = wd_receipts db'"
proof -
  let ?R = "\<lambda>m m'. wm_id m' = wm_id m \<and> wm_status_rank m \<le> wm_status_rank m' \<and> wm_meta_message_id m' = wm_meta_message_id m
        \<and> (wm_status m' = wm_status m \<or> delivery_rank (wm_status m') = Some (wm_status_rank m'))"
  have R: "?R m (if P then apply_status s t m else m)" for P s t m
    by (simp add: apply_status_def split: option.splits)
  have all: "list_all2 ?R xs (map (\<lambda>m. if P m then apply_status s t m else m) xs)" for P s t xs
    by (induction xs) (simp, simp only: list.map list_all2_Cons R simp_thms)
  obtain mid status stamp where rep: "report_of ops d = (mid, status, stamp)" by (cases "report_of ops d") auto
  have frame: "wd_receipts (webhook_done x ev (apply_report scope rep d1)) = wd_receipts d1"
    "ag_whatsapp (webhook_done x ev d1) = ag_whatsapp d1" for x scope rep and d1 :: "'b wa_db_scheme"
    by (simp_all add: webhook_done_def set_webhook_def apply_report_def split: prod.splits)
  have "wd_receipts (process_delivery ops st i2 now2 ev d db') = wd_receipts db'"
    unfolding assms by (auto simp: process_delivery_def frame file_report_def rep)
  moreover have "ag_whatsapp db' = map (\<lambda>m. if reported_on (report_scope ops st ev) mid m then apply_status status stamp m else m) (ag_whatsapp db)"
    unfolding assms by (simp add: process_delivery_def frame file_report_def apply_report_def rep)
  ultimately show ?thesis using all by simp
qed

section \<open>People who may not receive\<close>


end
