(* ===== verification/IngressSafety.thy ===== *)
theory IngressSafety
  imports Ingress
begin

text \<open>
  What durable ingress promises: an envelope is split without loss into payloads with distinct keys, call
  events are never stored, a batch is claimed as a whole, and a repeated webhook adds nothing.
\<close>

section \<open>Splitting an envelope\<close>

text \<open>The messages and statuses of an envelope in order, with the receiver they came to.\<close>

definition envelope_items :: "(string \<times> pyval) list \<Rightarrow> (string \<times> (string \<times> pyval) list) list" where
  "envelope_items payload =
    concat (map (\<lambda>e. concat (map (\<lambda>c. case dict_get (snd c) ''value'' of
        PDict v \<Rightarrow> map (\<lambda>(k, d). (''messages'', d)) (dict_items (dict_get v ''messages''))
          @ map (\<lambda>(k, d). (''statuses'', d)) (dict_items (dict_get v ''statuses''))
      | _ \<Rightarrow> []) (dict_items (dict_get (snd e) ''changes'')))) (dict_items (dict_get payload ''entry'')))"

lemma map_of_dict_set_other: "x \<noteq> k \<Longrightarrow> map_of (dict_set d k v) x = map_of d x"
  by (simp add: map_of_dict_set)

lemma first_value_item: "first_value (item_payload payload e c v kind x)
  = Some (PDict (without [''messages'', ''statuses''] v @ [(kind, PList [x])]))"
  by (simp add: first_value_def first_entry_def item_payload_def Let_def map_of_dict_set item_def item0_def)

lemma map_of_without: "map_of (without ks d) k = (if k \<in> set ks then None else map_of d k)"
  by (induction d) (auto simp: without_def)

lemma extract_item:
  assumes "kind = ''messages'' \<or> kind = ''statuses''"
  shows "extract_message (item_payload payload e c v kind (PDict d)) = Some (if kind = ''messages'' then PDict d else PNone)"
    and "extract_delivery_status (item_payload payload e c v kind (PDict d)) = Some (if kind = ''messages'' then PNone else PDict d)"
  using assms by (auto simp: extract_message_def extract_delivery_status_def extract_first_def first_value_item dict_or_def
      map_of_without map_add_def item0_def Let_def)

definition item_shape :: "string \<times> (string \<times> pyval) list \<Rightarrow> pyval option \<times> pyval option" where
  "item_shape x = (if fst x = ''messages'' then (Some (PDict (snd x)), Some PNone) else (Some PNone, Some (PDict (snd x))))"

definition read_item :: "(string \<times> pyval) list \<times> string \<Rightarrow> pyval option \<times> pyval option" where
  "read_item it = (extract_message (fst it), extract_delivery_status (fst it))"

definition split_items :: "(string \<times> pyval) list \<Rightarrow> ((string \<times> pyval) list \<times> string) list" where
  "split_items payload = concat (map (\<lambda>e. concat (map (change_items payload e) (dict_items (dict_get (snd e) ''changes''))))
     (dict_items (dict_get payload ''entry'')))"

lemma split_inbox_events_eq: "split_inbox_events payload
  = (if split_items payload = [] then [(payload, ''root'')] else split_items payload)"
  by (simp add: split_inbox_events_def split_items_def Let_def)

lemma read_kind_items:
  assumes "kind = ''messages'' \<or> kind = ''statuses''"
  shows "map read_item (kind_items payload e c v kind) = map item_shape (map (\<lambda>(k, d). (kind, d)) (dict_items (dict_get v kind)))"
  using assms by (auto simp: kind_items_def read_item_def item_shape_def extract_item)

definition change_shape :: "nat \<times> (string \<times> pyval) list \<Rightarrow> (string \<times> (string \<times> pyval) list) list" where
  "change_shape c = (case dict_get (snd c) ''value'' of
     PDict v \<Rightarrow> map (\<lambda>(k, d). (''messages'', d)) (dict_items (dict_get v ''messages''))
       @ map (\<lambda>(k, d). (''statuses'', d)) (dict_items (dict_get v ''statuses''))
   | _ \<Rightarrow> [])"

lemma read_change_items: "map read_item (change_items payload e c) = map item_shape (change_shape c)"
  by (simp add: change_items_def change_shape_def read_kind_items split: pyval.splits)

lemma read_split_items: "map read_item (split_items payload) = map item_shape (envelope_items payload)"
  by (simp add: split_items_def envelope_items_def map_concat comp_def read_change_items flip: change_shape_def)

section \<open>Distinct keys\<close>

lemma fallback_key_inj:
  assumes "fallback_key i j kind k = fallback_key i' j' kind' k'" "CHR '':'' \<notin> set kind" "CHR '':'' \<notin> set kind'"
  shows "i = i' \<and> j = j' \<and> kind = kind' \<and> k = k'"
proof -
  have no: "CHR '':'' \<notin> set (show_nat n)" for n
    using show_nat_digits[of n] by (auto simp: is_digit_def code_def)
  have s: "split_on CHR '':'' (fallback_key a b kd c) = [show_nat a, show_nat b, kd, show_nat c]"
    if "CHR '':'' \<notin> set kd" for a b kd c
    using that by (simp add: fallback_key_def split_on_append split_on_no_sep no)
  from arg_cong[OF assms(1), of "split_on CHR '':''"] assms(2,3)
  have e: "show_nat i = show_nat i'" "show_nat j = show_nat j'" "kind = kind'" "show_nat k = show_nat k'"
    by (simp_all add: s)
  have inj: "show_nat a = show_nat b \<Longrightarrow> a = b" for a b using foldl_show_nat by metis
  from e inj show ?thesis by blast
qed

lemma dict_items_fst: "distinct (map fst (dict_items v))"
proof (cases v)
  case (PList xs)
  have "distinct (map fst (concat (map (\<lambda>(n, x). case x of PDict d \<Rightarrow> [(n, d)] | _ \<Rightarrow> []) (enumerate m xs))))
    \<and> (\<forall>n \<in> set (map fst (concat (map (\<lambda>(n, x). case x of PDict d \<Rightarrow> [(n, d)] | _ \<Rightarrow> []) (enumerate m xs)))). m \<le> n)" for m
  proof (induction xs arbitrary: m)
    case (Cons x xs)
    show ?case using Cons[of "Suc m"] by (cases x) (auto dest: Suc_leD)
  qed simp
  with PList show ?thesis by (simp add: dict_items_def)
qed (simp_all add: dict_items_def)

lemma distinct_concat_map:
  assumes "distinct (map f xs)" "\<And>x. x \<in> set xs \<Longrightarrow> distinct (g x)"
    and "\<And>x y k. x \<in> set xs \<Longrightarrow> y \<in> set xs \<Longrightarrow> k \<in> set (g x) \<Longrightarrow> k \<in> set (g y) \<Longrightarrow> f x = f y"
  shows "distinct (concat (map g xs))"
  using assms
proof (induction xs)
  case (Cons x xs)
  have "set (g x) \<inter> set (concat (map g xs)) = {}"
  proof (rule ccontr)
    assume "set (g x) \<inter> set (concat (map g xs)) \<noteq> {}"
    then obtain k y where "k \<in> set (g x)" "y \<in> set xs" "k \<in> set (g y)" by auto
    with Cons.prems(3)[of x y k] have "f x = f y" by simp
    with Cons.prems(1) \<open>y \<in> set xs\<close> show False by (auto simp: image_iff)
  qed
  with Cons show ?case by auto
qed simp

lemma kind_keys: "k \<in> snd ` set (kind_items payload e c v kind) \<Longrightarrow> \<exists>n. k = fallback_key (fst e) (fst c) kind n"
  by (auto simp: kind_items_def)

lemma change_keys:
  assumes "k \<in> snd ` set (change_items payload e c)"
  shows "\<exists>kind n. (kind = ''messages'' \<or> kind = ''statuses'') \<and> k = fallback_key (fst e) (fst c) kind n"
proof (cases "dict_get (snd c) ''value''")
  case (PDict v)
  then have "change_items payload e c = kind_items payload e c v ''messages'' @ kind_items payload e c v ''statuses''"
    by (simp add: change_items_def)
  with assms have "k \<in> snd ` set (kind_items payload e c v ''messages'') \<or> k \<in> snd ` set (kind_items payload e c v ''statuses'')"
    by (simp only: set_append image_Un Un_iff)
  then show ?thesis
  proof
    assume "k \<in> snd ` set (kind_items payload e c v ''messages'')"
    then obtain n where "k = fallback_key (fst e) (fst c) ''messages'' n" by (rule kind_keys[THEN exE])
    then show ?thesis by (intro exI[of _ "''messages''"] exI[of _ n]) simp
  next
    assume "k \<in> snd ` set (kind_items payload e c v ''statuses'')"
    then obtain n where "k = fallback_key (fst e) (fst c) ''statuses'' n" by (rule kind_keys[THEN exE])
    then show ?thesis by (intro exI[of _ "''statuses''"] exI[of _ n]) simp
  qed
qed (use assms in \<open>simp_all add: change_items_def\<close>)

lemma no_colon: "kind = ''messages'' \<or> kind = ''statuses'' \<Longrightarrow> CHR '':'' \<notin> set kind"
  by auto

lemma kind_distinct: "kind = ''messages'' \<or> kind = ''statuses'' \<Longrightarrow> distinct (map snd (kind_items payload e c v kind))"
proof -
  assume k: "kind = ''messages'' \<or> kind = ''statuses''"
  have "inj_on (fallback_key (fst e) (fst c) kind) A" for A
    by (rule inj_onI) (use fallback_key_inj no_colon[OF k] in blast)
  moreover have "map snd (kind_items payload e c v kind)
      = map (fallback_key (fst e) (fst c) kind) (map fst (dict_items (dict_get v kind)))"
    by (simp add: kind_items_def comp_def case_prod_unfold)
  ultimately show ?thesis using dict_items_fst by (metis distinct_map)
qed

lemma change_distinct: "distinct (map snd (change_items payload e c))"
proof (cases "dict_get (snd c) ''value''")
  case (PDict v)
  have "k \<notin> snd ` set (kind_items payload e c v ''statuses'')" if k: "k \<in> snd ` set (kind_items payload e c v ''messages'')" for k
  proof
    assume s: "k \<in> snd ` set (kind_items payload e c v ''statuses'')"
    obtain n m where "k = fallback_key (fst e) (fst c) ''messages'' n" "k = fallback_key (fst e) (fst c) ''statuses'' m"
      using kind_keys[OF k] kind_keys[OF s] by blast
    with fallback_key_inj[of "fst e" "fst c" "''messages''" n "fst e" "fst c" "''statuses''" m] show False by simp
  qed
  then have "set (map snd (kind_items payload e c v ''messages'')) \<inter> set (map snd (kind_items payload e c v ''statuses'')) = {}"
    by auto
  with PDict kind_distinct show ?thesis by (simp add: change_items_def)
qed (simp_all add: change_items_def)

lemma in_concat_map: "k \<in> set (concat (map (\<lambda>c. map f (g c)) xs)) \<Longrightarrow> \<exists>c. k \<in> f ` set (g c)"
  by auto

lemma split_items_distinct: "distinct (map snd (split_items payload))"
proof -
  have same: "fst e = fst e' \<and> fst c = fst c'"
    if k1: "k \<in> snd ` set (change_items payload e c)" and k2: "k \<in> snd ` set (change_items payload e' c')" for e c e' c' k
  proof -
    obtain kd n where k: "kd = ''messages'' \<or> kd = ''statuses''" "k = fallback_key (fst e) (fst c) kd n"
      using change_keys[OF k1] by blast
    obtain kd' n' where k': "kd' = ''messages'' \<or> kd' = ''statuses''" "k = fallback_key (fst e') (fst c') kd' n'"
      using change_keys[OF k2] by blast
    have "fallback_key (fst e) (fst c) kd n = fallback_key (fst e') (fst c') kd' n'" by (simp only: k(2)[symmetric] k'(2))
    from fallback_key_inj[OF this no_colon[OF k(1)] no_colon[OF k'(1)]] show ?thesis by simp
  qed
  have inner: "distinct (concat (map (\<lambda>c. map snd (change_items payload e c)) (dict_items (dict_get (snd e) ''changes''))))" for e
  proof (rule distinct_concat_map[OF dict_items_fst change_distinct])
    fix x y k
    assume "k \<in> set (map snd (change_items payload e x))" "k \<in> set (map snd (change_items payload e y))"
    then show "fst x = fst y" unfolding set_map by (rule same[THEN conjunct2])
  qed
  show ?thesis
    unfolding split_items_def map_concat map_map comp_def
  proof (rule distinct_concat_map[OF dict_items_fst inner])
    fix x y k
    assume "k \<in> set (concat (map (\<lambda>c. map snd (change_items payload x c)) (dict_items (dict_get (snd x) ''changes''))))"
      and "k \<in> set (concat (map (\<lambda>c. map snd (change_items payload y c)) (dict_items (dict_get (snd y) ''changes''))))"
    then obtain c c' where "k \<in> snd ` set (change_items payload x c)" "k \<in> snd ` set (change_items payload y c')"
      using in_concat_map by metis
    from same[OF this] show "fst x = fst y" by simp
  qed
qed

text \<open>Splitting a signed envelope loses nothing and repeats nothing: read back in order, the payloads it stores are
  exactly the messages and statuses of the envelope, each alone in its payload, and their fallback keys are all different.\<close>

theorem split_is_lossless:
  "map read_item (split_items payload) = map item_shape (envelope_items payload)
   \<and> distinct (map snd (split_inbox_events payload))
   \<and> split_inbox_events payload = (if envelope_items payload = [] then [(payload, ''root'')] else split_items payload)"
proof -
  have "split_items payload = [] \<longleftrightarrow> envelope_items payload = []"
    using read_split_items[of payload] by (metis map_is_Nil_conv)
  then show ?thesis using read_split_items split_items_distinct by (simp add: split_inbox_events_eq)
qed

section \<open>Call events are never stored\<close>

definition call_free :: "(string \<times> pyval) list \<Rightarrow> bool" where
  "call_free payload \<longleftrightarrow> (\<exists>p. split_call_changes payload = Some (False, p))"

lemma gather_false:
  "(\<exists>ys. gather f xs = Some (False, ys)) \<longleftrightarrow> (\<forall>x \<in> set xs. \<exists>ys. f x = Some (False, ys))"
  by (induction xs) (auto split: option.splits)

lemma gather_in:
  "gather f xs = Some (b, ys) \<Longrightarrow> y \<in> set ys \<Longrightarrow> \<exists>x \<in> set xs. \<exists>a zs. f x = Some (a, zs) \<and> y \<in> set zs"
proof (induction xs arbitrary: b ys)
  case (Cons x xs)
  then obtain a zs b' zs' where "f x = Some (a, zs)" "gather f xs = Some (b', zs')" "ys = zs @ zs'"
    by (cases "f x"; cases "gather f xs") auto
  with Cons show ?case by auto
qed simp

definition change_free :: "pyval \<Rightarrow> bool" where
  "change_free c \<longleftrightarrow> (\<exists>ys. strip_change c = Some (False, ys))"

lemma change_free_dict:
  "change_free (PDict c) \<longleftrightarrow>
   dict_get c ''field'' \<noteq> PStr ''calls'' \<and> contains_calls (dict_or c ''value'' (PDict [])) = Some False"
  by (auto simp: change_free_def strip_change_def Let_def split: option.splits bool.splits pyval.splits)

definition entry_free :: "pyval \<Rightarrow> bool" where
  "entry_free e \<longleftrightarrow> (\<exists>ys. strip_entry e = Some (False, ys))"

lemma entry_free_dict:
  "entry_free (PDict e) \<longleftrightarrow> (\<exists>cs. py_iter (dict_or e ''changes'' (PList [])) = Some cs \<and> (\<forall>c \<in> set cs. change_free c))"
proof (cases "py_iter (dict_or e ''changes'' (PList []))")
  case (Some cs)
  then show ?thesis
    by (cases "gather strip_change cs") (auto simp: entry_free_def strip_entry_def change_free_def gather_false[symmetric])
qed (simp add: entry_free_def strip_entry_def)

lemma call_free_eq:
  "call_free p \<longleftrightarrow> (\<exists>es. py_iter (dict_or p ''entry'' (PList [])) = Some es \<and> (\<forall>e \<in> set es. entry_free e))"
  by (auto simp: call_free_def split_call_changes_def entry_free_def gather_false[symmetric] bind_eq_Some_conv)

lemma dict_or_set: "dict_or (dict_set d k v) x w = (if x = k then v else dict_or d x w)"
  by (simp add: dict_or_def map_of_dict_set)

lemma strip_change_free: "strip_change c = Some (b, ys) \<Longrightarrow> y \<in> set ys \<Longrightarrow> change_free y"
proof (cases c)
  case (PDict d)
  assume s: "strip_change c = Some (b, ys)" "y \<in> set ys"
  show ?thesis
  proof (cases b)
    case False
    then have "y = c" using s PDict
      by (auto simp: strip_change_def Let_def split: option.splits bool.splits pyval.splits if_splits)
    with s False show ?thesis by (auto simp: change_free_def)
  next
    case True
    with s PDict obtain v where "y = PDict (dict_set (dict_set d ''field'' (PStr ''messages'')) ''value'' (PDict (without [''calls''] v)))"
      by (auto simp: strip_change_def Let_def split: option.splits bool.splits pyval.splits if_splits)
    then show ?thesis
      by (simp add: change_free_dict dict_get_set dict_or_set contains_calls_def map_of_without)
  qed
qed (simp_all add: strip_change_def)

lemma strip_entry_free: "strip_entry e = Some (b, ys) \<Longrightarrow> y \<in> set ys \<Longrightarrow> entry_free y"
proof (cases e)
  case (PDict d)
  assume "strip_entry e = Some (b, ys)" "y \<in> set ys"
  with PDict obtain cs a changes where g: "gather strip_change cs = Some (a, changes)"
      "y = PDict (dict_set d ''changes'' (PList changes))"
    by (auto simp: strip_entry_def bind_eq_Some_conv split: if_splits)
  have "change_free c" if "c \<in> set changes" for c
    using gather_in[OF g(1) that] strip_change_free by blast
  with g(2) show ?thesis by (simp add: entry_free_dict dict_or_set py_iter_def)
qed (simp_all add: strip_entry_def)

lemma stripped_free: "split_call_changes payload = Some (b, rest) \<Longrightarrow> call_free rest"
proof -
  assume "split_call_changes payload = Some (b, rest)"
  then obtain es a entries where g: "gather strip_entry es = Some (a, entries)" "rest = dict_set payload ''entry'' (PList entries)"
    by (auto simp: split_call_changes_def bind_eq_Some_conv)
  have "entry_free e" if "e \<in> set entries" for e
    using gather_in[OF g(1) that] strip_entry_free by blast
  with g(2) show ?thesis by (simp add: call_free_eq dict_or_set py_iter_def)
qed

lemma dict_items_in: "(n, d) \<in> set (dict_items (dict_get p k)) \<Longrightarrow>
  \<exists>xs. py_iter (dict_or p k (PList [])) = Some xs \<and> PDict d \<in> set xs"
proof -
  assume m: "(n, d) \<in> set (dict_items (dict_get p k))"
  then obtain xs where "dict_get p k = PList xs" by (cases "dict_get p k") (auto simp: dict_items_def)
  moreover from this m have "PDict d \<in> set xs"
    by (auto simp: dict_items_def in_set_enumerate_eq split: pyval.splits) (metis nth_mem)+
  ultimately show ?thesis by (auto simp: dict_get_def dict_or_def py_iter_def split: option.splits)
qed

lemma item_free:
  assumes "change_free (PDict c)" "dict_get c ''value'' = PDict v" "kind = ''messages'' \<or> kind = ''statuses''"
  shows "call_free (item_payload payload e c v kind x)"
proof -
  have "map_of v ''calls'' = None"
    using assms(1,2) by (auto simp: change_free_dict contains_calls_def dict_get_def dict_or_def split: option.splits)
  moreover have "kind \<noteq> ''calls''" using assms(3) by auto
  ultimately have "map_of (without [''messages'', ''statuses''] v @ [(kind, PList [x])]) ''calls'' = None"
    by (auto simp: map_add_def map_of_without)
  moreover have "dict_get c ''field'' \<noteq> PStr ''calls''" using assms(1) by (simp add: change_free_dict)
  ultimately show ?thesis
    by (simp add: item_payload_def call_free_eq entry_free_dict change_free_dict dict_or_set dict_get_set py_iter_def contains_calls_def Let_def)
qed

lemma split_free:
  assumes "call_free p" "it \<in> set (split_inbox_events p)"
  shows "call_free (fst it)"
proof (cases "split_items p = []")
  case True
  with assms show ?thesis by (simp add: split_inbox_events_eq)
next
  case False
  with assms(2) have "it \<in> set (split_items p)" by (simp only: split_inbox_events_eq if_False)
  then obtain i e j c where m: "(i, e) \<in> set (dict_items (dict_get p ''entry''))"
      "(j, c) \<in> set (dict_items (dict_get e ''changes''))" "it \<in> set (change_items p (i, e) (j, c))"
    by (auto simp: split_items_def)
  have "entry_free (PDict e)" using dict_items_in[OF m(1)] assms(1) by (auto simp: call_free_eq)
  then have "change_free (PDict c)" using dict_items_in[OF m(2)] by (auto simp: entry_free_dict)
  moreover obtain v where v: "dict_get c ''value'' = PDict v" using m(3) by (cases "dict_get c ''value''") (auto simp: change_items_def)
  ultimately show ?thesis using item_free[of c v] m(3) by (auto simp: change_items_def kind_items_def)
qed

section \<open>What one claim changes\<close>

lemma allocate_webhooks:
  "allocate_arrival ops lane payload ev db = Inr (db', ev') \<Longrightarrow>
   wd_webhooks db' = wd_webhooks db \<and> job_rows db' = job_rows db
   \<and> wh_payload ev' = wh_payload ev \<and> wh_external_id ev' = wh_external_id ev \<and> wh_provider ev' = wh_provider ev
   \<and> wh_status ev' = wh_status ev \<and> wh_id ev' = wh_id ev"
  by (auto simp: allocate_arrival_def take_ticket_def ensure_stream_def split: if_splits option.splits)

lemma enqueue_event_cases:
  assumes "enqueue_event jid now external ev db = Inr (db', c)"
  obtains (settled) "wh_status ev \<in> set terminal_receipts" "db' = db" "\<not> ce_job_created c"
  | (queued) j where "enqueue_job db db jid True now ''whatsapp.process_webhook'' (PDict [(''event_id'', PStr (wh_id ev))])
        (event_job_key external) None ''default'' 5 None = Inr (db', j, ce_job_created c)"
proof (cases "wh_status ev \<in> set terminal_receipts")
  case True
  with assms have "db' = db" "\<not> ce_job_created c" by (auto simp: enqueue_event_def)
  with True settled show ?thesis by blast
next
  case False
  define q where "q = enqueue_job db db jid True now ''whatsapp.process_webhook'' (PDict [(''event_id'', PStr (wh_id ev))])
    (event_job_key external) None ''default'' 5 None"
  from False assms have e: "(case q of Inl e \<Rightarrow> Inl (ClaimEnqueue e)
      | Inr (db', j, created) \<Rightarrow> Inr (db', \<lparr> ce_id = wh_id ev, ce_job_created = created, ce_duplicate = False \<rparr>)) = Inr (db', c)"
    unfolding enqueue_event_def q_def by (simp only: if_False)
  then obtain j where "q = Inr (db', j, ce_job_created c)" by (cases q) auto
  with queued show ?thesis unfolding q_def .
qed

lemma enqueue_frame:
  assumes "enqueue_event jid now external ev db = Inr (db', c)"
  shows "wd_webhooks db' = wd_webhooks db"
    and "wh_status ev \<in> set terminal_receipts \<or> admitted (event_job_key external) db'"
    and "admitted k db \<Longrightarrow> admitted k db'"
proof -
  show "wd_webhooks db' = wd_webhooks db"
    using assms
  proof (cases rule: enqueue_event_cases)
    case (queued j)
    from queued show ?thesis by (cases rule: enqueue_cases) simp_all
  qed simp
  show "wh_status ev \<in> set terminal_receipts \<or> admitted (event_job_key external) db'"
    using assms by (cases rule: enqueue_event_cases) (simp_all add: enqueue_default(2))
  show "admitted k db \<Longrightarrow> admitted k db'"
    using assms by (cases rule: enqueue_event_cases) (simp_all add: enqueue_default(2))
qed

lemma enqueue_known:
  assumes "wh_status ev \<in> set terminal_receipts \<or> admitted (event_job_key external) db"
  shows "\<exists>c. enqueue_event jid now external ev db = Inr (db, c) \<and> \<not> ce_job_created c"
  using assms by (auto simp: enqueue_event_def enqueue_job_def admitted_def event_job_key_def split: option.splits)

lemma insert_cases:
  assumes "insert_webhook ops lane i external payload db = Inr (db', ev)"
  obtains (old) "db' = db" "find_webhook db external = Some ev"
  | (new) "find_webhook db external = None" "wd_webhooks db' = wd_webhooks db @ [ev]" "job_rows db' = job_rows db"
      "wh_provider ev = ''whatsapp''" "wh_external_id ev = external" "wh_payload ev = payload" "wh_status ev = ''received''"
proof -
  from assms obtain mid e where a: "allocate_arrival ops lane payload (new_webhook i external payload) db = Inr (mid, e)"
    and r: "(case find_webhook db external of Some old \<Rightarrow> Inr (db, old)
        | None \<Rightarrow> Inr (mid\<lparr>wd_webhooks := wd_webhooks mid @ [e]\<rparr>, e)) = (Inr (db', ev) :: ingress_error + _)"
    by (auto simp: insert_webhook_def and_then_Inr)
  show thesis
  proof (cases "find_webhook db external")
    case (Some o')
    with r old show ?thesis by simp
  next
    case None
    with r have "db' = mid\<lparr>wd_webhooks := wd_webhooks mid @ [ev]\<rparr>" "e = ev" by auto
    with allocate_webhooks[OF a] None new show ?thesis by (simp add: new_webhook_def)
  qed
qed

lemma find_webhook_append:
  assumes "wd_webhooks db' = wd_webhooks db @ [ev]"
  shows "find_webhook db' x = (case find_webhook db x of Some e \<Rightarrow> Some e
    | None \<Rightarrow> if wh_provider ev = ''whatsapp'' \<and> wh_external_id ev = x then Some ev else None)"
  by (simp only: find_webhook_def assms find_snoc)

text \<open>A claim either finds everything settled or appends one event for its item.\<close>

lemma legacy_settled: "legacy_claim payload old = Inr (Some c) \<Longrightarrow> \<not> ce_job_created c \<and> old \<noteq> None"
  by (auto simp: legacy_claim_def Let_def split: option.splits if_splits)

lemma claim_event_cases:
  assumes "claim_event ops lane raw now ids it db db = Inr (db', c)"
  obtains (known) external ev where "scoped_event_id ops (fst it) lane raw (snd it) = Some external"
      "find_webhook db external = Some ev" "enqueue_event (snd ids) now external ev db = Inr (db', c)"
  | (legacy) external rid where "scoped_event_id ops (fst it) lane raw (snd it) = Some external"
      "payload_event_id ops (fst it) raw (snd it) = Some rid" "find_webhook db external = None"
      "legacy_claim (fst it) (find_webhook db rid) = Inr (Some c)" "db' = db"
  | (new) external ev mid where "scoped_event_id ops (fst it) lane raw (snd it) = Some external"
      "find_webhook db external = None" "wd_webhooks mid = wd_webhooks db @ [ev]" "job_rows mid = job_rows db"
      "wh_provider ev = ''whatsapp''" "wh_external_id ev = external" "wh_payload ev = fst it" "wh_status ev = ''received''"
      "enqueue_event (snd ids) now external ev mid = Inr (db', c)"
proof -
  obtain external rid where e: "scoped_event_id ops (fst it) lane raw (snd it) = Some external"
      "payload_event_id ops (fst it) raw (snd it) = Some rid"
    using assms by (auto simp: claim_event_def split: option.splits)
  show thesis
  proof (cases "find_webhook db external")
    case (Some ev)
    with assms e known show ?thesis by (simp add: claim_event_def)
  next
    case None
    with assms e obtain settled where l: "legacy_claim (fst it) (find_webhook db rid) = Inr settled"
      by (auto simp: claim_event_def and_then_Inr)
    show ?thesis
    proof (cases settled)
      case (Some x)
      with assms e None l have "db' = db" "x = c" by (simp_all add: claim_event_def)
      with Some l show ?thesis by (intro legacy[OF e None]) simp_all
    next
      case none: None
      with assms e None l obtain mid ev where m: "insert_webhook ops lane (fst ids) external (fst it) db = Inr (mid, ev)"
          "enqueue_event (snd ids) now external ev mid = Inr (db', c)"
        by (auto simp: claim_event_def and_then_Inr)
      from m(1) show ?thesis
      proof (cases rule: insert_cases)
        case old
        with None show ?thesis by simp
      next
        case new1: new
        then show ?thesis using new[OF e(1) None _ _ _ _ _ _ m(2)] by simp
      qed
    qed
  qed
qed

definition settled_item ::
  "ingress_ops \<Rightarrow> string \<Rightarrow> byte list \<Rightarrow> (string \<times> pyval) list \<times> string \<Rightarrow> 'a wa_db_scheme \<Rightarrow> bool" where
  "settled_item ops lane raw it db \<longleftrightarrow> (\<exists>external. scoped_event_id ops (fst it) lane raw (snd it) = Some external
     \<and> ((\<exists>ev. find_webhook db external = Some ev
          \<and> (wh_status ev \<in> set terminal_receipts \<or> admitted (event_job_key external) db))
       \<or> (\<exists>rid c. find_webhook db external = None \<and> payload_event_id ops (fst it) raw (snd it) = Some rid
            \<and> legacy_claim (fst it) (find_webhook db rid) = Inr (Some c))))"

lemma payload_id_some: "scoped_event_id ops p lane raw k = Some x \<Longrightarrow> \<exists>rid. payload_event_id ops p raw k = Some rid"
  by (auto simp: scoped_event_id_def)

lemma settled_noop:
  assumes "settled_item ops lane raw it db"
  shows "\<exists>c. claim_event ops lane raw now ids it db db = Inr (db, c) \<and> \<not> ce_job_created c"
proof -
  from assms obtain external where e: "scoped_event_id ops (fst it) lane raw (snd it) = Some external"
    and d: "(\<exists>ev. find_webhook db external = Some ev \<and> (wh_status ev \<in> set terminal_receipts \<or> admitted (event_job_key external) db))
       \<or> (\<exists>rid c. find_webhook db external = None \<and> payload_event_id ops (fst it) raw (snd it) = Some rid
            \<and> legacy_claim (fst it) (find_webhook db rid) = Inr (Some c))"
    by (auto simp: settled_item_def)
  obtain rid where r: "payload_event_id ops (fst it) raw (snd it) = Some rid" using payload_id_some[OF e] by blast
  from d show ?thesis
  proof
    assume "\<exists>ev. find_webhook db external = Some ev \<and> (wh_status ev \<in> set terminal_receipts \<or> admitted (event_job_key external) db)"
    then obtain ev where f: "find_webhook db external = Some ev"
      and "wh_status ev \<in> set terminal_receipts \<or> admitted (event_job_key external) db" by blast
    from enqueue_known[OF this(2), of "snd ids" now] obtain c
      where "enqueue_event (snd ids) now external ev db = Inr (db, c)" "\<not> ce_job_created c" by (elim exE conjE)
    with e r f show ?thesis by (simp add: claim_event_def)
  next
    assume "\<exists>rid c. find_webhook db external = None \<and> payload_event_id ops (fst it) raw (snd it) = Some rid
            \<and> legacy_claim (fst it) (find_webhook db rid) = Inr (Some c)"
    then obtain rid' c where "find_webhook db external = None" "payload_event_id ops (fst it) raw (snd it) = Some rid'"
      "legacy_claim (fst it) (find_webhook db rid') = Inr (Some c)" by blast
    with e legacy_settled[of "fst it" "find_webhook db rid'" c] show ?thesis by (simp add: claim_event_def)
  qed
qed

lemma claim_settles:
  assumes "claim_event ops lane raw now ids it db db = Inr (db', c)"
  shows "settled_item ops lane raw it db'"
  using assms
proof (cases rule: claim_event_cases)
  case (known external ev)
  then show ?thesis using enqueue_frame(1,2)[OF known(3)] by (simp add: settled_item_def find_webhook_def)
next
  case (legacy external rid)
  then show ?thesis by (auto simp: settled_item_def)
next
  case (new external ev mid)
  have "find_webhook mid external = Some ev" using find_webhook_append[OF new(3)] new by simp
  then have "find_webhook db' external = Some ev" using enqueue_frame(1)[OF new(9)] by (simp add: find_webhook_def)
  with new(1) enqueue_frame(2)[OF new(9)] show ?thesis by (auto simp: settled_item_def)
qed

lemma claim_keeps:
  assumes "claim_event ops lane raw now ids it db db = Inr (db', c)" "settled_item ops lane raw it2 db"
  shows "settled_item ops lane raw it2 db'"
  using assms(1)
proof (cases rule: claim_event_cases)
  case (known external ev)
  then show ?thesis using enqueue_frame(1,3)[OF known(3)] assms(2) by (auto simp: settled_item_def find_webhook_def)
next
  case (legacy external rid)
  with assms(2) show ?thesis by simp
next
  case (new external ev mid)
  have fw: "find_webhook db' x = (case find_webhook db x of Some e \<Rightarrow> Some e | None \<Rightarrow> if x = external then Some ev else None)" for x
    using find_webhook_append[OF new(3)] enqueue_frame(1)[OF new(9)] new(5,6) by (simp add: find_webhook_def eq_commute)
  have ad: "admitted k db \<Longrightarrow> admitted k db'" for k
    using enqueue_frame(3)[OF new(9), of k] new(4) by (simp add: admitted_iff)
  have mine: "admitted (event_job_key external) db'" using enqueue_frame(2)[OF new(9)] new(8) by (auto simp: terminal_receipts_def)
  from assms(2) obtain x where x: "scoped_event_id ops (fst it2) lane raw (snd it2) = Some x"
    and d: "(\<exists>ev. find_webhook db x = Some ev \<and> (wh_status ev \<in> set terminal_receipts \<or> admitted (event_job_key x) db))
       \<or> (\<exists>rid c. find_webhook db x = None \<and> payload_event_id ops (fst it2) raw (snd it2) = Some rid
            \<and> legacy_claim (fst it2) (find_webhook db rid) = Inr (Some c))"
    by (auto simp: settled_item_def)
  from d show ?thesis
  proof
    assume "\<exists>ev. find_webhook db x = Some ev \<and> (wh_status ev \<in> set terminal_receipts \<or> admitted (event_job_key x) db)"
    then obtain e where f: "find_webhook db x = Some e" "wh_status e \<in> set terminal_receipts \<or> admitted (event_job_key x) db" by blast
    then have "find_webhook db' x = Some e" "wh_status e \<in> set terminal_receipts \<or> admitted (event_job_key x) db'"
      using ad[of "event_job_key x"] by (auto simp only: fw option.simps)
    with x show ?thesis unfolding settled_item_def by blast
  next
    assume "\<exists>rid c. find_webhook db x = None \<and> payload_event_id ops (fst it2) raw (snd it2) = Some rid
            \<and> legacy_claim (fst it2) (find_webhook db rid) = Inr (Some c)"
    then obtain rid c where l: "find_webhook db x = None" "payload_event_id ops (fst it2) raw (snd it2) = Some rid"
      "legacy_claim (fst it2) (find_webhook db rid) = Inr (Some c)" by blast
    obtain e where "find_webhook db rid = Some e" using legacy_settled[OF l(3)] by auto
    with l x mine show ?thesis by (cases "x = external") (auto simp: settled_item_def fw)
  qed
qed

lemma claim_items_settle:
  "claim_items ops lane raw now fresh n its db = Inr (db', cs) \<Longrightarrow>
   (\<forall>it \<in> UNIV. settled_item ops lane raw it db \<longrightarrow> settled_item ops lane raw it db')
   \<and> (\<forall>it \<in> set its. settled_item ops lane raw it db') \<and> length cs = length its"
proof (induction its arbitrary: n db cs)
  case (Cons it its)
  then obtain d c cs' where c: "claim_event ops lane raw now (fresh n) it db db = Inr (d, c)"
      "claim_items ops lane raw now fresh (Suc n) its d = Inr (db', cs')" "cs = c # cs'"
    by (auto simp: and_then_Inr)
  have k: "settled_item ops lane raw it2 d \<Longrightarrow> settled_item ops lane raw it2 db'" for it2 using Cons.IH[OF c(2)] by blast
  with Cons.IH[OF c(2)] claim_settles[OF c(1)] claim_keeps[OF c(1)] c(3) show ?case by simp
qed simp

lemma claim_items_noop:
  "\<forall>it \<in> set its. settled_item ops lane raw it db \<Longrightarrow>
   \<exists>cs. claim_items ops lane raw now fresh n its db = Inr (db, cs) \<and> (\<forall>c \<in> set cs. \<not> ce_job_created c) \<and> length cs = length its"
proof (induction its arbitrary: n)
  case (Cons it its)
  obtain c where c: "claim_event ops lane raw now (fresh n) it db db = Inr (db, c)" "\<not> ce_job_created c"
    using settled_noop[of ops lane raw it db now "fresh n"] Cons.prems by auto
  obtain cs where "claim_items ops lane raw now fresh (Suc n) its db = Inr (db, cs)" "\<forall>c \<in> set cs. \<not> ce_job_created c"
    "length cs = length its" using Cons by fastforce
  with c show ?case by simp
qed simp


lemma claim_payloads:
  "claim_items ops lane raw now fresh n its db = Inr (db', cs) \<Longrightarrow> e \<in> set (wd_webhooks db') \<Longrightarrow>
   e \<in> set (wd_webhooks db) \<or> wh_payload e \<in> fst ` set its"
proof (induction its arbitrary: n db cs)
  case (Cons it its)
  then obtain d c cs' where c: "claim_event ops lane raw now (fresh n) it db db = Inr (d, c)"
      "claim_items ops lane raw now fresh (Suc n) its d = Inr (db', cs')"
    by (auto simp: and_then_Inr)
  have "e \<in> set (wd_webhooks d) \<Longrightarrow> e \<in> set (wd_webhooks db) \<or> wh_payload e = fst it"
    using c(1) by (cases rule: claim_event_cases) (auto dest: enqueue_frame(1))
  with Cons.IH[OF c(2) Cons.prems(2)] show ?case by auto
qed simp

text \<open>Call signalling, which carries network addresses of the caller, is never stored: a webhook that the route accepts
  leaves no stored payload in which the scan for call events would find one.\<close>

theorem calls_never_stored:
  assumes "receive_webhook wo ops backend secret lane now fresh gateway cl signature raw db = (db', answer)"
    and "e \<in> set (wd_webhooks db')" "e \<notin> set (wd_webhooks db)"
  shows "call_free (wh_payload e)"
proof -
  have nd: "db' \<noteq> db" using assms(2,3) by blast
  then obtain payload calls rest where p: "wo_json wo raw = Some (PDict payload)"
      "split_call_changes payload = Some (calls, rest)"
      "db' = fst (claim_webhook_events ops lane (if calls then wo_dump wo (PDict rest) else raw) now fresh
                    (if calls then rest else payload) db)"
    using assms(1) unfolding receive_webhook_def
    by (auto split: if_splits option.splits bool.splits pyval.splits prod.splits sum.splits ingress_error.splits)
  let ?p = "if calls then rest else payload"
  have free: "call_free ?p"
    using stripped_free[OF p(2)] p(2) by (auto simp: call_free_def)
  from p(3) nd obtain raw' cs where "claim_items ops lane raw' now fresh 0 (split_inbox_events ?p) db = Inr (db', cs)"
    by (auto simp: claim_webhook_events_def split: sum.splits)
  from claim_payloads[OF this assms(2)] assms(3) obtain it where "it \<in> set (split_inbox_events ?p)" "wh_payload e = fst it"
    by auto
  with split_free[OF free] show ?thesis by simp
qed

end
