(* ===== verification/InboundSafety.thy ===== *)
theory InboundSafety
  imports Inbound DeliverySafety IngressSafety
begin

text \<open>
  What inbound processing promises: the messages of a participant are settled in the order they arrived, an account
  that opted out or is not active gets no message and reaches neither the agent nor a connector, and what becomes
  of a reset whose notice could not be delivered.
\<close>

section \<open>What processing leaves alone\<close>

definition same_ingress :: "'a wa_db_scheme \<Rightarrow> 'a wa_db_scheme \<Rightarrow> bool" where
  "same_ingress d d' \<longleftrightarrow> wd_webhooks d' = wd_webhooks d \<and> wd_streams d' = wd_streams d"

named_theorems ingress_frame \<open>operations that change neither webhook events nor arrival streams\<close>

lemma same_ingress_refl [ingress_frame]: "same_ingress d d"
  by (simp add: same_ingress_def)

lemma same_ingress_trans: "same_ingress d e \<Longrightarrow> same_ingress e f \<Longrightarrow> same_ingress d f"
  by (simp add: same_ingress_def)

lemma row_frames [ingress_frame]:
  "same_ingress d (set_out k f d)" "same_ingress d (set_inbound i s d)" "same_ingress d (set_opt_out i b d)"
  "same_ingress d (set_message i g d)" "same_ingress d (set_action i h d)" "same_ingress d (add_event e d)"
  "same_ingress d (set_run i r d)" "same_ingress d (set_conversation i c d)" "same_ingress d (set_job j q d)"
  "same_ingress d (mark_sending k d)" "same_ingress d (mark_control reply d)" "same_ingress d (record_consent st t u x d)"
  by (simp_all add: same_ingress_def set_out_def set_inbound_def set_opt_out_def set_message_def set_action_def add_event_def
      set_run_def set_conversation_def set_job_def mark_sending_def mark_control_def record_consent_def Let_def split: option.splits)

lemma control_frame:
  "record_control_reply sha lane now ids q d = (reply, d') \<Longrightarrow> same_ingress d d'"
  by (auto simp: record_control_reply_def same_ingress_def Let_def split: option.splits if_splits)

lemma prepare_frame:
  assumes "deliver_prepare ops st c a d = (reply, d1, com)"
  shows "same_ingress d d1" "same_ingress d com"
proof -
  obtain r e where r: "record_control_reply (sha_text (dv_text ops)) (ms_env st) (at_prepare a) (at_ids a) (delivery_control ops c) d = (r, e)"
    by (cases "record_control_reply (sha_text (dv_text ops)) (ms_env st) (at_prepare a) (at_ids a) (delivery_control ops c) d")
  from control_frame[OF r] assms r show "same_ingress d d1" "same_ingress d com"
    by (auto simp: deliver_prepare_def same_ingress_def Let_def split: option.splits)
qed

lemma settle_frame: "deliver_settle ops st c reply out d = (d', r) \<Longrightarrow> same_ingress d d'"
  by (cases out) (auto simp: deliver_settle_def Let_def same_ingress_def set_out_def mark_control_def set_message_def
      split: if_splits option.splits)

lemma deliver_frame: "deliver_once ops st a c w = (w', r) \<Longrightarrow> same_ingress (ww_db w) (ww_db w')"
proof (cases "deliver_check ops st c (ww_db w)")
  case Proceed
  assume d: "deliver_once ops st a c w = (w', r)"
  let ?key = "delivery_key ops c"
  obtain reply d1 com where p: "deliver_prepare ops st c a (ww_db w) = (reply, d1, com)"
    by (cases "deliver_prepare ops st c a (ww_db w)") auto
  obtain f1 ok where l1: "assert_current_job_lease d1 (at_claim a) (ww_fence w) = (f1, ok)"
    by (cases "assert_current_job_lease d1 (at_claim a) (ww_fence w)")
  show ?thesis
  proof (cases ok)
    case (Inl e)
    with d Proceed p l1 prepare_frame[OF p] show ?thesis by (auto simp: deliver_once_def Let_def)
  next
    case (Inr u)
    obtain f2 h out where s: "deliver_submit ops st c (at_submit a) (mark_sending ?key d1) f1 (ww_net w) = (f2, h, out)"
      by (cases "deliver_submit ops st c (at_submit a) (mark_sending ?key d1) f1 (ww_net w)") auto
    obtain d3 r' where t: "deliver_settle ops st c reply out (mark_sending ?key d1) = (d3, r')"
      by (cases "deliver_settle ops st c reply out (mark_sending ?key d1)") auto
    from d Proceed p l1 Inr s t have "w' = w\<lparr>ww_db := d3, ww_fence := f2, ww_net := h\<rparr>" by (simp add: deliver_once_def Let_def)
    moreover have "same_ingress (ww_db w) d3"
      using prepare_frame(1)[OF p] row_frames(10)[of d1 ?key] settle_frame[OF t] same_ingress_trans by blast
    ultimately show ?thesis by simp
  qed
qed (auto simp: deliver_once_def same_ingress_def)

lemma say_frame: "say ops st a c w = (w', r) \<Longrightarrow> same_ingress (iw_db w) (iw_db w')"
  by (auto simp: say_def split: prod.splits dest: deliver_frame)

lemma cancel_frame: "same_ingress d (cancel_conversation cid d)"
  by (auto simp: cancel_conversation_def same_ingress_def finish_run_def clear_pointer_def fail_media_def set_media_def
      set_run_def set_conversation_def Let_def
      split: option.splits)

lemma dispatch_frame:
  assumes "dispatch_action ops d n1 n2 n3 f i tenant user s = (f', sent, out)"
  shows "case out of DecideRaise e d' \<Rightarrow> same_ingress d d' | DecideReturn a d' \<Rightarrow> same_ingress d d' | DecideExecuting d' \<Rightarrow> same_ingress d d'"
proof -
  have fin: "case finish_action n i a d res of DecideRaise e d' \<Rightarrow> same_ingress d d' | DecideReturn a d' \<Rightarrow> same_ingress d d'
      | DecideExecuting d' \<Rightarrow> same_ingress d d'" for n i a res
    by (auto simp: finish_action_def same_ingress_def set_action_def add_event_def split: sum.splits action_error.splits)
  from assms show ?thesis
    by (auto simp: dispatch_action_def same_ingress_refl split: option.splits if_splits sum.splits prod.splits intro!: fin)
qed

lemma decide_frame:
  "case decide_pending_action ops d now i tenant user s ch of DecideRaise e d' \<Rightarrow> same_ingress d d' | DecideReturn a d' \<Rightarrow> same_ingress d d'
     | DecideExecuting d' \<Rightarrow> same_ingress d d'"
  unfolding decide_pending_action_def
  by (auto simp: same_ingress_def set_action_def add_event_def split: option.splits sum.splits if_splits)

lemma decide_now_frame:
  assumes "decide_now ops ts i tenant user s ch d f = (f', sent, out)"
  shows "case out of DecideRaise e d' \<Rightarrow> same_ingress d d' | DecideReturn a d' \<Rightarrow> same_ingress d d' | DecideExecuting d' \<Rightarrow> same_ingress d d'"
proof -
  obtain n n1 n2 n3 where ts: "ts = (n, n1, n2, n3)" by (cases ts)
  show ?thesis
  proof (cases "decide_pending_action ops d n i tenant user s ch")
    case (DecideExecuting e)
    with decide_frame[of d ops n i tenant user s ch] have "same_ingress d e" by simp
    moreover from assms ts DecideExecuting have "dispatch_action ops e n1 n2 n3 f i tenant user s = (f', sent, out)"
      by (simp add: decide_now_def)
    note dispatch_frame[OF this]
    ultimately show ?thesis by (cases out) (auto intro: same_ingress_trans)
  qed (use assms ts decide_frame[of d ops n i tenant user s ch] in \<open>simp_all add: decide_now_def\<close>)
qed

lemma decide_action_frame: "decide_action ops ts x cid ch i w = (w', r) \<Longrightarrow> same_ingress (iw_db w) (iw_db w')"
proof -
  assume d: "decide_action ops ts x cid ch i w = (w', r)"
  show ?thesis
  proof (cases "find_action (iw_db w) i (ix_tenant x) (ix_user x)")
    case None
    with d show ?thesis by (simp add: decide_action_def same_ingress_refl)
  next
    case (Some act)
    show ?thesis
    proof (cases "validate_approval_scope (iw_db w) act (case cid of None \<Rightarrow> [] | Some c \<Rightarrow> c) ''whatsapp'' (Some (ix_identity x))")
      case (Inl e)
      with d Some show ?thesis by (cases e) (auto simp: decide_action_def same_ingress_refl)
    next
      case (Inr u)
      obtain f sent out where n: "decide_now ops ts i (ix_tenant x) (ix_user x) (confirmation_token ops act) ch (iw_db w) (ww_fence (iw_world w))
          = (f, sent, out)" by (rule prod_cases3)
      from decide_now_frame[OF n] d Some Inr n show ?thesis
        by (auto simp: decide_action_def Let_def split: decide_outcome.splits action_error.splits)
    qed
  qed
qed

section \<open>The branches, one at a time\<close>

lemma authorized_start: "upper text = ''START'' \<Longrightarrow>
    authorized_branch ops st inp x m text flag w = opt_in_branch (ib_delivery ops) st (ii_attempt inp) x w"
  and authorized_out: "upper text \<noteq> ''START'' \<Longrightarrow> authorized_branch ops st inp x m text True w
    = (with_db (close_event (ix_inbound x) ''rejected'' (ix_event x)) w, Inr (Answered ''opted_out''))"
  and authorized_reset: "upper text \<noteq> ''START'' \<Longrightarrow> lower text = ''/new'' \<or> lower text = ''/reset'' \<Longrightarrow>
    authorized_branch ops st inp x m text False w = reset_branch (ib_delivery ops) st (ii_attempt inp) x
      (active_conversation st (iw_db w) (ix_tenant x) (ix_user x) (ix_sender x)) w"
  and authorized_other: "upper text \<noteq> ''START'' \<Longrightarrow> \<not> (lower text = ''/new'' \<or> lower text = ''/reset'') \<Longrightarrow>
    authorized_branch ops st inp x m text False w = budget_branch ops st inp x m
      (active_conversation st (iw_db w) (ix_tenant x) (ix_user x) (ix_sender x)) w"
  by (simp_all only: authorized_branch_def Let_def if_True if_False refl simp_thms insert_iff empty_iff)

definition is_stop :: "'s inbound_ops \<Rightarrow> (string \<times> pyval) list \<Rightarrow> phone_identity \<Rightarrow> bool" where
  "is_stop ops m p \<longleftrightarrow> ph_status p = ''approved'' \<and> upper (message_text (dv_text (ib_delivery ops)) m) = ''STOP''"

definition known_context ::
  "'s inbound_ops \<Rightarrow> webhook_event \<Rightarrow> (string \<times> pyval) list \<Rightarrow> string \<Rightarrow> (string \<times> string) option \<Rightarrow> ident \<Rightarrow> phone_identity \<Rightarrow> inbound_context" where
  "known_context ops ev m external sender i p = \<lparr> ix_event = ev, ix_inbound = i,
     ix_phone = sender_phone (dv_text (ib_delivery ops)) m, ix_external = external, ix_sender = sender,
     ix_tenant = ph_tenant_id p, ix_user = ph_user_id p, ix_identity = ph_id p \<rparr>"

lemma route_unknown: "route_sender ops st inp ev m external sender i None w
    = refuse_sender (ib_delivery ops) st (ii_attempt inp) ev (sender_phone (dv_text (ib_delivery ops)) m) sender i False w"
  by (simp add: route_sender_def Let_def)

lemma route_stop: "is_stop ops m p \<Longrightarrow> route_sender ops st inp ev m external sender i (Some p) w
    = (with_db (\<lambda>db. close_event i ''processed'' ev (set_opt_out (ph_id p) True db)) w, Inr (Answered ''opted_out''))"
  by (simp add: route_sender_def Let_def is_stop_def)

lemma route_refused: "\<not> is_stop ops m p \<Longrightarrow> \<not> sender_authorized (iw_db w) p \<Longrightarrow>
    route_sender ops st inp ev m external sender i (Some p) w
    = refuse_sender (ib_delivery ops) st (ii_attempt inp) ev (sender_phone (dv_text (ib_delivery ops)) m) sender i True w"
  unfolding is_stop_def by (simp only: route_sender_def Let_def option.simps if_False if_True simp_thms not_False_eq_True)

lemma route_known:
  assumes "\<not> is_stop ops m p" "sender_authorized (iw_db w) p"
  shows "route_sender ops st inp ev m external sender i (Some p) w =
    (case bind_inbound_job_tenant (ii_now inp) ev (ph_tenant_id p) (iw_db w) (ww_fence (iw_world w)) of
       (f, Inl e) \<Rightarrow> (w\<lparr>iw_world := (iw_world w)\<lparr>ww_fence := f\<rparr>\<rparr>, Inl e)
     | (f, Inr db) \<Rightarrow> authorized_branch ops st inp (known_context ops ev m external sender i p) m
         (message_text (dv_text (ib_delivery ops)) m) (ph_opt_out p) (w\<lparr>iw_world := (iw_world w)\<lparr>ww_db := db, ww_fence := f\<rparr>\<rparr>))"
  using assms unfolding is_stop_def known_context_def
  by (simp only: route_sender_def Let_def option.simps if_False if_True simp_thms not_False_eq_True)

lemma process_empty: "external_id ops m = [] \<Longrightarrow> process_message ops st inp ev m w
    = (w, Inl (InPermanent ''WhatsApp message is missing an external identifier''))"
  by (simp add: process_message_def)

lemma process_unconfigured: "external_id ops m \<noteq> [] \<Longrightarrow> unconfigured st ev \<Longrightarrow> process_message ops st inp ev m w
    = (with_db (webhook_done ''ignored'' ev) w, Inr (Answered ''rejected_unconfigured_sender''))"
  by (simp only: process_message_def Let_def if_False if_True simp_thms)

lemma process_known: "external_id ops m \<noteq> [] \<Longrightarrow> \<not> unconfigured st ev \<Longrightarrow> process_message ops st inp ev m w =
   (let w1 = show_typing (ib_delivery ops) st (inbound_sender st ev) (external_id ops m) w;
        po = find_identity (iw_db w1) (sender_phone (dv_text (ib_delivery ops)) m) in
    case ensure_inbound (ib_delivery ops) (ii_row inp) (ii_now inp) ev m (external_id ops m)
           (delivery_scope (ib_delivery ops) st (inbound_sender st ev)) po (iw_db w1) of
      (i, db) \<Rightarrow> route_sender ops st inp ev m (external_id ops m) (inbound_sender st ev) i po (with_db (\<lambda>_. db) w1))"
  by (simp only: process_message_def Let_def if_False if_True simp_thms)

section \<open>Processing settles its own event at most\<close>

definition settles :: "webhook_event \<Rightarrow> 'a wa_db_scheme \<Rightarrow> 'a wa_db_scheme \<Rightarrow> bool" where
  "settles ev d d' \<longleftrightarrow> wd_streams d' = wd_streams d \<and> (wd_webhooks d' = wd_webhooks d
     \<or> (\<exists>s \<in> set terminal_receipts. wd_webhooks d' = tbl_upd wh_id (wh_id ev) (\<lambda>e. e\<lparr>wh_status := s\<rparr>) (wd_webhooks d)))"

lemma same_settles: "same_ingress d d' \<Longrightarrow> settles ev d d'"
  by (simp add: settles_def same_ingress_def)

lemma settles_same: "same_ingress d e \<Longrightarrow> settles ev e f \<Longrightarrow> settles ev d f"
  by (simp add: settles_def same_ingress_def)

lemma settles_then_same: "settles ev d e \<Longrightarrow> same_ingress e f \<Longrightarrow> settles ev d f"
  by (simp add: settles_def same_ingress_def)

lemma done_settles: "s \<in> set terminal_receipts \<Longrightarrow> settles ev d (webhook_done s ev d)"
  by (auto simp: settles_def webhook_done_def set_webhook_def)

lemma close_settles: "settles ev d (close_event i s ev d)"
  unfolding close_event_def
  by (rule settles_same[OF row_frames(2) done_settles]) (simp add: terminal_receipts_def)

lemma with_db_simps [simp]: "iw_db (with_db f w) = f (iw_db w)" "iw_effects (with_db f w) = iw_effects w"
  "iw_redis (with_db f w) = iw_redis w" "ww_net (iw_world (with_db f w)) = ww_net (iw_world w)"
  "ww_fence (iw_world (with_db f w)) = ww_fence (iw_world w)"
  by (simp_all add: with_db_def)

lemma say_close_settles: "say_and_close ops st a x c ans w = (w', r) \<Longrightarrow> settles (ix_event x) (iw_db w) (iw_db w')"
  by (cases "say ops st a c w")
    (auto simp: say_and_close_def split: sum.splits intro: same_settles settles_same[OF _ close_settles] dest!: say_frame)

lemma opt_in_settles: "opt_in_branch ops st a x w = (w', r) \<Longrightarrow> settles (ix_event x) (iw_db w) (iw_db w')"
  unfolding opt_in_branch_def by (drule say_close_settles) (simp add: settles_same[OF row_frames(3)])

lemma reset_settles: "reset_branch ops st a x conv w = (w', r) \<Longrightarrow> settles (ix_event x) (iw_db w) (iw_db w')"
proof -
  assume r: "reset_branch ops st a x conv w = (w', r)"
  let ?w1 = "with_db (\<lambda>db. close_event (ix_inbound x) ''processed'' (ix_event x)
           (case conv of None \<Rightarrow> db | Some c \<Rightarrow> cancel_conversation (cv_id c) db)) w"
  have "same_ingress (iw_db w) (case conv of None \<Rightarrow> iw_db w | Some c \<Rightarrow> cancel_conversation (cv_id c) (iw_db w))"
    by (cases conv) (simp_all add: same_ingress_refl cancel_frame)
  then have 1: "settles (ix_event x) (iw_db w) (iw_db ?w1)" by (simp add: settles_same[OF _ close_settles])
  obtain w2 q where s: "say ops st a (branch_message x ''conversation-reset''
      ''Started a fresh conversation. What would you like to work on?'' False) ?w1 = (w2, q)"
    by (rule prod.exhaust)
  have "w' = w2" using r s by (auto simp: reset_branch_def Let_def split: sum.splits)
  with settles_then_same[OF 1 say_frame[OF s]] show ?thesis by simp
qed

lemma action_settles: "action_branch ops st inp x cid ch i w = (w', r) \<Longrightarrow> settles (ix_event x) (iw_db w) (iw_db w')"
proof -
  assume r: "action_branch ops st inp x cid ch i w = (w', r)"
  obtain w1 q where d: "decide_action (ib_actions ops) (ii_decide_at inp) x cid ch i w = (w1, q)" by (rule prod.exhaust)
  have f: "same_ingress (iw_db w) (iw_db w1)" by (rule decide_action_frame[OF d])
  show ?thesis
  proof (cases q)
    case (Inl e)
    with r d f show ?thesis by (simp add: action_branch_def same_settles)
  next
    case (Inr y)
    obtain body ans where "y = (body, ans)" by (cases y)
    with Inr r d have "say_and_close (ib_delivery ops) st (ii_attempt inp) x (branch_message x (''action-decision:'' @ i) body True) ans w1 = (w', r)"
      by (simp add: action_branch_def)
    from settles_same[OF f say_close_settles[OF this]] show ?thesis .
  qed
qed

lemma consent_settles: "consent_branch ops st inp x d w = (w', r) \<Longrightarrow> settles (ix_event x) (iw_db w) (iw_db w')"
proof -
  assume r: "consent_branch ops st inp x d w = (w', r)"
  let ?w1 = "with_db (record_consent st (ix_tenant x) (ix_user x) d) w"
  obtain w2 q where s: "say_and_close (ib_delivery ops) st (ii_attempt inp) x
      (branch_message x (''research-consent:'' @ d) (consent_body d) True) (''research_consent_'' @ d) ?w1 = (w2, q)"
    by (rule prod.exhaust)
  have 1: "settles (ix_event x) (iw_db w) (iw_db w2)"
    using say_close_settles[OF s] by (simp add: settles_same[OF row_frames(12)])
  from r s have "w' = w2 \<or> iw_db w' = iw_db w" by (auto simp: consent_branch_def Let_def split: sum.splits if_splits)
  with 1 show ?thesis by (auto simp: same_settles same_ingress_refl)
qed

lemma after_budget_settles: "after_budget ops st inp x m conv w = (w', r) \<Longrightarrow> settles (ix_event x) (iw_db w) (iw_db w')"
  by (auto simp: after_budget_def same_settles same_ingress_refl split: option.splits prod.splits
      dest: action_settles consent_settles)

lemma budget_settles: "budget_branch ops st inp x m conv w = (w', r) \<Longrightarrow> settles (ix_event x) (iw_db w) (iw_db w')"
proof -
  assume r: "budget_branch ops st inp x m conv w = (w', r)"
  obtain s q where t: "take_budget ops st inp x (iw_redis w) = (s, q)" by (rule prod.exhaust)
  show ?thesis
  proof (cases q)
    case (Inl e)
    with r t show ?thesis
      by (cases e) (auto simp: budget_branch_def same_settles same_ingress_refl dest: say_close_settles)
  next
    case (Inr u)
    with r t after_budget_settles[of ops st inp x m conv "w\<lparr>iw_redis := s\<rparr>" w' r] show ?thesis by (simp add: budget_branch_def)
  qed
qed

lemma authorized_settles:
  assumes r: "authorized_branch ops st inp x m text flag w = (w', r)"
  shows "settles (ix_event x) (iw_db w) (iw_db w')"
proof (cases "upper text = ''START''")
  case True
  show ?thesis by (rule opt_in_settles[OF r[unfolded authorized_start[OF True]]])
next
  case False
  show ?thesis
  proof (cases flag)
    case True
    with r authorized_out[OF False, of ops st inp x m w] have "w' = with_db (close_event (ix_inbound x) ''rejected'' (ix_event x)) w" by simp
    then show ?thesis by (simp add: close_settles)
  next
    case f: False
    with r have r: "authorized_branch ops st inp x m text False w = (w', r)" by simp
    show ?thesis
    proof (cases "lower text = ''/new'' \<or> lower text = ''/reset''")
      case True
      show ?thesis by (rule reset_settles[OF r[unfolded authorized_reset[OF False True]]])
    next
      case o': False
      show ?thesis by (rule budget_settles[OF r[unfolded authorized_other[OF False o']]])
    qed
  qed
qed

lemma refuse_settles: "refuse_sender ops st a ev phone sender i known w = (w', r) \<Longrightarrow> settles ev (iw_db w) (iw_db w')"
  by (cases "say ops st a (unknown_message ev phone sender) w"; cases known)
    (auto simp: refuse_sender_def close_settles split: sum.splits intro: same_settles settles_same[OF _ close_settles] dest!: say_frame)

lemma bind_frame: "bind_inbound_job_tenant now ev t d f = (f', Inr d') \<Longrightarrow> same_ingress d d'"
  by (auto simp: bind_inbound_job_tenant_def same_ingress_refl row_frames split: option.splits sum.splits prod.splits if_splits)

lemma route_settles:
  assumes r: "route_sender ops st inp ev m external sender i po w = (w', r)"
  shows "settles ev (iw_db w) (iw_db w')"
proof (cases po)
  case None
  with r show ?thesis by (simp add: route_unknown refuse_settles)
next
  case (Some p)
  with r have r: "route_sender ops st inp ev m external sender i (Some p) w = (w', r)" by simp
  show ?thesis
  proof (cases "is_stop ops m p")
    case True
    with r have "iw_db w' = close_event i ''processed'' ev (set_opt_out (ph_id p) True (iw_db w))"
      by (auto simp: route_stop)
    then show ?thesis by (simp add: settles_same[OF row_frames(3) close_settles])
  next
    case ns: False
    show ?thesis
    proof (cases "sender_authorized (iw_db w) p")
      case False
      show ?thesis by (rule refuse_settles[OF r[unfolded route_refused[OF ns False]]])
    next
      case True
      obtain f q where b: "bind_inbound_job_tenant (ii_now inp) ev (ph_tenant_id p) (iw_db w) (ww_fence (iw_world w)) = (f, q)"
        by (rule prod.exhaust)
      show ?thesis
      proof (cases q)
        case (Inl e)
        with r[unfolded route_known[of ops m p w, OF ns True]] b have "iw_db w' = iw_db w" by auto
        then show ?thesis by (simp add: same_settles same_ingress_refl)
      next
        case (Inr d)
        with r[unfolded route_known[of ops m p w, OF ns True]] b
        have "authorized_branch ops st inp (known_context ops ev m external sender i p) m
         (message_text (dv_text (ib_delivery ops)) m) (ph_opt_out p) (w\<lparr>iw_world := (iw_world w)\<lparr>ww_db := d, ww_fence := f\<rparr>\<rparr>) = (w', r)"
          by simp
        from authorized_settles[OF this] have "settles ev d (iw_db w')" by (simp add: known_context_def)
        from settles_same[OF bind_frame this] b Inr show ?thesis by blast
      qed
    qed
  qed
qed

lemma show_typing_db [simp]: "iw_db (show_typing ops st sender e w) = iw_db w" "iw_effects (show_typing ops st sender e w) = iw_effects w"
  "iw_redis (show_typing ops st sender e w) = iw_redis w" "ww_fence (iw_world (show_typing ops st sender e w)) = ww_fence (iw_world w)"
  by (auto simp: show_typing_def split: option.splits sum.splits)

lemma ensure_frame: "ensure_inbound ops i now ev m e sc p d = (j, d') \<Longrightarrow> same_ingress d d'"
  by (auto simp: ensure_inbound_def same_ingress_def split: option.splits)

lemma process_message_settles:
  assumes r: "process_message ops st inp ev m w = (w', r)"
  shows "settles ev (iw_db w) (iw_db w')"
proof (cases "external_id ops m = []")
  case True
  with r show ?thesis by (simp add: process_empty same_settles same_ingress_refl)
next
  case e: False
  show ?thesis
  proof (cases "unconfigured st ev")
    case True
    with r e have "w' = with_db (webhook_done ''ignored'' ev) w" by (simp add: process_unconfigured)
    then show ?thesis by (simp add: done_settles terminal_receipts_def)
  next
    case False
    let ?w1 = "show_typing (ib_delivery ops) st (inbound_sender st ev) (external_id ops m) w"
    let ?po = "find_identity (iw_db ?w1) (sender_phone (dv_text (ib_delivery ops)) m)"
    obtain i d where en: "ensure_inbound (ib_delivery ops) (ii_row inp) (ii_now inp) ev m (external_id ops m)
              (delivery_scope (ib_delivery ops) st (inbound_sender st ev)) ?po (iw_db ?w1) = (i, d)" by (rule prod.exhaust)
    have "route_sender ops st inp ev m (external_id ops m) (inbound_sender st ev) i ?po (with_db (\<lambda>_. d) ?w1) = (w', r)"
      using r[unfolded process_known[OF e False] Let_def en] by simp
    from route_settles[OF this] have "settles ev d (iw_db w')" by simp
    from settles_same[OF ensure_frame[OF en] this] show ?thesis by simp
  qed
qed

lemma report_settles: "settles ev d (process_delivery ops st i now ev x d)"
proof -
  have "same_ingress d (apply_report sc rep (file_report i now sc rep x d))" for sc rep
    by (auto simp: same_ingress_def apply_report_def file_report_def split: prod.splits)
  then show ?thesis unfolding process_delivery_def by (rule settles_same[OF _ done_settles]) (simp add: terminal_receipts_def)
qed

lemma claimed_settles:
  assumes "process_claimed_event ops st inp ev m d w = (w', r)"
  shows "settles ev (iw_db w) (iw_db w')"
proof (cases "truthy d")
  case True
  with assms show ?thesis
    by (cases d) (auto simp: process_claimed_event_def report_settles same_settles same_ingress_refl)
next
  case d: False
  show ?thesis
  proof (cases "truthy m")
    case True
    with assms d show ?thesis
      by (cases m) (auto simp: process_claimed_event_def same_settles same_ingress_refl intro: process_message_settles)
  next
    case False
    with assms d show ?thesis by (auto simp: process_claimed_event_def done_settles terminal_receipts_def)
  qed
qed

end
