(* ===== verification/InboundOrder.thy ===== *)
theory InboundOrder
  imports InboundSafety
begin

text \<open>
  The order in which the messages of one participant are settled. Claims of webhooks, admissions to processing, the
  work on admitted events, the ends of their agent turns and everything else that leaves events and streams alone
  interleave freely. The state is the database with the events admitted so far.
\<close>

definition ticket :: "webhook_event \<Rightarrow> (string \<times> int) option" where
  "ticket e = (case (wh_scope e, wh_sequence e) of (Some s, Some n) \<Rightarrow> Some (s, n) | _ \<Rightarrow> None)"

definition resolved :: "webhook_event \<Rightarrow> bool" where
  "resolved e \<longleftrightarrow> wh_status e \<in> set terminal_receipts"

definition carries_message :: "webhook_event \<Rightarrow> bool" where
  "carries_message e \<longleftrightarrow> (\<exists>m. extract_message (wh_payload e) = Some m \<and> truthy m)"

definition next_ticket :: "string \<Rightarrow> 'a wa_db_scheme \<Rightarrow> int option" where
  "next_ticket s db = map_option is_next (tbl_find is_scope s (wd_streams db))"

section \<open>What an arrival changes\<close>

definition arrives :: "webhook_event \<Rightarrow> 'a wa_db_scheme \<Rightarrow> 'a wa_db_scheme \<Rightarrow> bool" where
  "arrives ev d d' \<longleftrightarrow> wd_webhooks d' = wd_webhooks d @ [ev] \<and> \<not> resolved ev
     \<and> (case ticket ev of
          None \<Rightarrow> wd_streams d' = wd_streams d
        | Some (s, n) \<Rightarrow> carries_message ev \<and> 1 \<le> n \<and> next_ticket s d \<in> {None, Some n} \<and> next_ticket s d' = Some (n + 1)
            \<and> (\<forall>t. t \<noteq> s \<longrightarrow> next_ticket t d' = next_ticket t d))"

lemma scope_message: "ordering_scope ops lane payload = Some s \<Longrightarrow> \<exists>m. extract_message payload = Some m \<and> truthy m"
proof -
  assume "ordering_scope ops lane payload = Some s"
  then obtain v m where v: "first_value payload = Some (PDict v)" "item0 (dict_or v ''messages'' (PList [])) = Some (PDict m)"
      "m \<noteq> []"
    unfolding ordering_scope_def
    by (cases "first_value payload"; cases "first_entry payload") (force simp: dict_get_def split: pyval.splits option.splits if_splits)+
  then have "truthy (dict_or v ''messages'' (PList []))" by (auto simp: item0_def split: pyval.splits list.splits)
  with v show ?thesis by (simp add: extract_message_def extract_first_def Let_def)
qed

lemma take_ticket_arrives:
  assumes "take_ticket scope ev (ensure_stream scope db) = Inr (db', ev')"
  shows "\<exists>n. 1 \<le> n \<and> ev' = ev\<lparr>wh_scope := Some scope, wh_sequence := Some n\<rparr> \<and> wd_webhooks db' = wd_webhooks db
    \<and> next_ticket scope db \<in> {None, Some n} \<and> next_ticket scope db' = Some (n + 1)
    \<and> (\<forall>t. t \<noteq> scope \<longrightarrow> next_ticket t db' = next_ticket t db)"
proof -
  let ?d = "ensure_stream scope db"
  obtain x where x: "tbl_find is_scope scope (wd_streams ?d) = Some x" "1 \<le> is_next x" "ev' = ev\<lparr>wh_scope := Some scope, wh_sequence := Some (is_next x)\<rparr>"
    "db' = ?d\<lparr>wd_streams := tbl_upd is_scope scope (\<lambda>y. y\<lparr>is_next := is_next x + 1\<rparr>) (wd_streams ?d)\<rparr>"
    using assms by (auto simp: take_ticket_def split: option.splits if_splits)
  have t: "next_ticket t db' = (if t = scope then Some (is_next x + 1) else next_ticket t ?d)" for t
    using x(1) by (auto simp: next_ticket_def x(4) tbl_find_upd)
  have e: "next_ticket t ?d = next_ticket t db \<or> (next_ticket t db = None \<and> t = scope)" for t
    by (auto simp: next_ticket_def ensure_stream_def tbl_find_def find_snoc split: option.splits)
  have "next_ticket scope ?d = Some (is_next x)" using x(1) by (simp add: next_ticket_def)
  with e[of scope] have "next_ticket scope db \<in> {None, Some (is_next x)}" by auto
  moreover have "wd_webhooks db' = wd_webhooks db" by (simp add: x(4) ensure_stream_def split: option.splits)
  ultimately show ?thesis using x(2,3) t e by (intro exI[of _ "is_next x"]) auto
qed

lemma insert_arrives:
  assumes i: "insert_webhook ops lane i external payload db = Inr (db', ev)" and n: "find_webhook db external = None"
  shows "arrives ev db db' \<and> wh_id ev = i"
proof -
  let ?e = "new_webhook i external payload"
  obtain mid where a: "allocate_arrival ops lane payload ?e db = Inr (mid, ev)" and
    m: "db' = mid\<lparr>wd_webhooks := wd_webhooks mid @ [ev]\<rparr>"
    using i n by (auto simp: insert_webhook_def and_then_Inr)
  show ?thesis
  proof (cases "ordering_scope ops lane payload")
    case None
    with a m show ?thesis
      by (auto simp: allocate_arrival_def new_webhook_def arrives_def ticket_def resolved_def terminal_receipts_def)
  next
    case (Some s)
    with a have "take_ticket s ?e (ensure_stream s db) = Inr (mid, ev)" by (simp add: allocate_arrival_def new_webhook_def)
    from take_ticket_arrives[OF this] scope_message[OF Some] m show ?thesis
      by (auto simp: arrives_def new_webhook_def ticket_def resolved_def terminal_receipts_def carries_message_def next_ticket_def)
  qed
qed

lemma enqueue_same:
  assumes "enqueue_event jid now external ev db = Inr (db', c)"
  shows "same_ingress db db'"
  using assms
proof (cases rule: enqueue_event_cases)
  case (queued j)
  then show ?thesis by (cases rule: enqueue_cases) (simp_all add: same_ingress_def)
qed (auto simp: same_ingress_refl)

lemma arrives_same: "arrives ev d e \<Longrightarrow> same_ingress e f \<Longrightarrow> arrives ev d f"
  by (auto simp: arrives_def same_ingress_def next_ticket_def split: option.splits)

lemma claim_event_arrives:
  assumes c: "claim_event ops lane raw now ids it db db = Inr (db', c)"
  shows "same_ingress db db' \<or> (\<exists>ev. arrives ev db db' \<and> wh_id ev = fst ids)"
proof -
  obtain external rid where e: "scoped_event_id ops (fst it) lane raw (snd it) = Some external"
      "payload_event_id ops (fst it) raw (snd it) = Some rid"
    using c by (auto simp: claim_event_def split: option.splits)
  show ?thesis
  proof (cases "find_webhook db external")
    case (Some ev)
    with c e have "enqueue_event (snd ids) now external ev db = Inr (db', c)" by (simp add: claim_event_def)
    then show ?thesis by (simp add: enqueue_same)
  next
    case None
    with c e obtain settled where l: "legacy_claim (fst it) (find_webhook db rid) = Inr settled"
      by (auto simp: claim_event_def and_then_Inr)
    show ?thesis
    proof (cases settled)
      case (Some x)
      with c e None l show ?thesis by (simp add: claim_event_def same_ingress_refl)
    next
      case none: None
      with c e None l obtain mid ev where m: "insert_webhook ops lane (fst ids) external (fst it) db = Inr (mid, ev)"
          "enqueue_event (snd ids) now external ev mid = Inr (db', c)"
        by (auto simp: claim_event_def and_then_Inr)
      from insert_arrives[OF m(1) None] arrives_same enqueue_same[OF m(2)] show ?thesis by blast
    qed
  qed
qed

section \<open>The run\<close>

type_synonym 'a ordered_state = "'a wa_db_scheme \<times> ident set"

definition fresh_events :: "(nat \<Rightarrow> ident \<times> ident) \<Rightarrow> 'a wa_db_scheme \<Rightarrow> bool" where
  "fresh_events fresh d \<longleftrightarrow> inj (\<lambda>n. fst (fresh n)) \<and> (\<forall>n. fst (fresh n) \<notin> wh_id ` set (wd_webhooks d))"

inductive ordered_step :: "ingress_ops \<Rightarrow> 's inbound_ops \<Rightarrow> wa_settings \<Rightarrow> 'a ordered_state \<Rightarrow> 'a ordered_state \<Rightarrow> bool"
  for io ops st where
  claim: "fresh_events fresh d \<Longrightarrow> claim_webhook_events io lane raw now fresh payload d = (d', r) \<Longrightarrow>
    ordered_step io ops st (d, A) (d', A)"
| admit: "admit_event st d i = Inr (Some x) \<Longrightarrow> ordered_step io ops st (d, A) (d, insert i A)"
| work: "wh_id ev \<in> A \<Longrightarrow> process_claimed_event ops st inp ev m dl w = (w', r) \<Longrightarrow>
    ordered_step io ops st (iw_db w, A) (iw_db w', A)"
| finish: "wh_id ev \<in> A \<Longrightarrow> ordered_step io ops st (d, A) (webhook_done ''processed'' ev d, A)"
| other: "same_ingress d d' \<Longrightarrow> ordered_step io ops st (d, A) (d', A)"

definition no_events :: "'a ordered_state \<Rightarrow> bool" where
  "no_events s \<longleftrightarrow> wd_webhooks (fst s) = [] \<and> wd_streams (fst s) = [] \<and> snd s = {}"

section \<open>The invariant\<close>

definition tickets_valid :: "'a wa_db_scheme \<Rightarrow> bool" where
  "tickets_valid d \<longleftrightarrow> distinct (map wh_id (wd_webhooks d))
     \<and> (\<forall>e \<in> set (wd_webhooks d). \<forall>s n. ticket e = Some (s, n) \<longrightarrow>
          carries_message e \<and> (\<exists>k. next_ticket s d = Some k \<and> n < k))"

definition served_in_order :: "'a ordered_state \<Rightarrow> bool" where
  "served_in_order s \<longleftrightarrow> (\<forall>e \<in> set (wd_webhooks (fst s)). \<forall>f \<in> set (wd_webhooks (fst s)). \<forall>c n k.
     ticket e = Some (c, n) \<and> ticket f = Some (c, k) \<and> k < n \<and> (resolved e \<or> wh_id e \<in> snd s) \<longrightarrow> resolved f)"

definition ordered_inv :: "'a ordered_state \<Rightarrow> bool" where
  "ordered_inv s \<longleftrightarrow> tickets_valid (fst s) \<and> served_in_order s \<and> snd s \<subseteq> wh_id ` set (wd_webhooks (fst s))"

lemma inv_same: "ordered_inv (d, A) \<Longrightarrow> same_ingress d d' \<Longrightarrow> ordered_inv (d', A)"
  unfolding ordered_inv_def same_ingress_def tickets_valid_def served_in_order_def next_ticket_def fst_conv snd_conv
  by (elim conjE) (simp only: simp_thms)

lemma ticket_below: "tickets_valid d \<Longrightarrow> e \<in> set (wd_webhooks d) \<Longrightarrow> ticket e = Some (s, n) \<Longrightarrow>
    \<exists>k. next_ticket s d = Some k \<and> n < k"
  unfolding tickets_valid_def by blast

lemma in_orderI:
  assumes "\<And>x y c n k. x \<in> set (wd_webhooks d) \<Longrightarrow> y \<in> set (wd_webhooks d) \<Longrightarrow> ticket x = Some (c, n) \<Longrightarrow> ticket y = Some (c, k)
    \<Longrightarrow> k < n \<Longrightarrow> resolved x \<or> wh_id x \<in> A \<Longrightarrow> resolved y"
  shows "served_in_order (d, A)"
  unfolding served_in_order_def fst_conv snd_conv using assms by (intro ballI allI impI) (elim conjE)

lemma in_orderD:
  assumes "served_in_order (d, A)" "x \<in> set (wd_webhooks d)" "y \<in> set (wd_webhooks d)" "ticket x = Some (c, n)" "ticket y = Some (c, k)"
    "k < n" "resolved x \<or> wh_id x \<in> A"
  shows "resolved y"
  using assms(1)[unfolded served_in_order_def fst_conv snd_conv, rule_format, OF assms(2,3), of c n k] assms(4-) by blast

lemma ordered_invI: "tickets_valid d \<Longrightarrow> served_in_order (d, A) \<Longrightarrow> A \<subseteq> wh_id ` set (wd_webhooks d) \<Longrightarrow> ordered_inv (d, A)"
  and ordered_invD: "ordered_inv (d, A) \<Longrightarrow> tickets_valid d" "ordered_inv (d, A) \<Longrightarrow> served_in_order (d, A)"
    "ordered_inv (d, A) \<Longrightarrow> A \<subseteq> wh_id ` set (wd_webhooks d)"
  by (simp_all add: ordered_inv_def)

lemma inv_arrives:
  assumes i: "ordered_inv (d, A)" and a: "arrives ev d d'" and f: "wh_id ev \<notin> wh_id ` set (wd_webhooks d)"
  shows "ordered_inv (d', A)"
proof -
  have w: "wd_webhooks d' = wd_webhooks d @ [ev]" and u: "\<not> resolved ev" using a by (auto simp: arrives_def)
  have A: "A \<subseteq> wh_id ` set (wd_webhooks d)" and t: "tickets_valid d" using i by (auto simp: ordered_inv_def)
  have e: "next_ticket s d = Some k \<Longrightarrow> \<exists>k'. next_ticket s d' = Some k' \<and> k \<le> k'" for s k
  proof (cases "ticket ev")
    case None
    with a have "next_ticket s d' = next_ticket s d" by (simp add: arrives_def next_ticket_def)
    then show "next_ticket s d = Some k \<Longrightarrow> \<exists>k'. next_ticket s d' = Some k' \<and> k \<le> k'" by simp
  next
    case (Some p)
    with a show "next_ticket s d = Some k \<Longrightarrow> \<exists>k'. next_ticket s d' = Some k' \<and> k \<le> k'"
      by (cases p; cases "s = fst p") (auto simp: arrives_def)
  qed
  have "tickets_valid d'"
    unfolding tickets_valid_def w
  proof (intro conjI ballI allI impI)
    show "distinct (map wh_id (wd_webhooks d @ [ev]))" using t f by (auto simp: tickets_valid_def)
  next
    fix x s n assume x: "x \<in> set (wd_webhooks d @ [ev])" "ticket x = Some (s, n)"
    show "carries_message x" using x t a by (auto simp: tickets_valid_def arrives_def)
    show "\<exists>k. next_ticket s d' = Some k \<and> n < k"
    proof (cases "x = ev")
      case True
      with a x(2) show ?thesis by (auto simp: arrives_def)
    next
      case False
      with x have "x \<in> set (wd_webhooks d)" by simp
      from ticket_below[OF t this x(2)] obtain k where "next_ticket s d = Some k" "n < k" by blast
      with e[of s k] show ?thesis by force
    qed
  qed
  moreover have "resolved y"
    if xy: "x \<in> set (wd_webhooks d')" "y \<in> set (wd_webhooks d')" "ticket x = Some (c, n)" "ticket y = Some (c, k)" "k < n"
      "resolved x \<or> wh_id x \<in> A" for x y c n k
  proof -
    have "x \<noteq> ev" using xy(6) u f A by blast
    then have x: "x \<in> set (wd_webhooks d)" using xy(1) w by simp
    then obtain j where j: "next_ticket c d = Some j" "n < j" using ticket_below[OF t _ xy(3)] by blast
    have "y \<noteq> ev" using a xy(4,5) j by (auto simp: arrives_def)
    then have "y \<in> set (wd_webhooks d)" using xy(2) w by simp
    from in_orderD[OF ordered_invD(2)[OF i] x this xy(3-6)] show ?thesis .
  qed
  then have "served_in_order (d', A)" by (rule in_orderI)
  ultimately show ?thesis using A w by (intro ordered_invI) auto
qed

lemma inv_settles:
  assumes i: "ordered_inv (d, A)" and s: "settles ev d d'" and m: "wh_id ev \<in> A"
  shows "ordered_inv (d', A)"
proof (cases "wd_webhooks d' = wd_webhooks d")
  case True
  with s inv_same[OF i] show ?thesis by (auto simp: settles_def same_ingress_def)
next
  case False
  with s obtain z where z: "z \<in> set terminal_receipts" "wd_streams d' = wd_streams d"
      "wd_webhooks d' = tbl_upd wh_id (wh_id ev) (\<lambda>e. e\<lparr>wh_status := z\<rparr>) (wd_webhooks d)"
    by (auto simp: settles_def)
  define g :: "webhook_event \<Rightarrow> webhook_event" where "g = (\<lambda>e. if wh_id e = wh_id ev then e\<lparr>wh_status := z\<rparr> else e)"
  have w: "wd_webhooks d' = map g (wd_webhooks d)" using z(3) by (simp add: tbl_upd_def g_def)
  have g: "wh_id (g e) = wh_id e" "ticket (g e) = ticket e" "carries_message (g e) = carries_message e"
    "resolved (g e) \<longleftrightarrow> resolved e \<or> wh_id e = wh_id ev" for e
    using z(1) by (auto simp: g_def ticket_def carries_message_def resolved_def split: option.splits)
  have "distinct (map wh_id (wd_webhooks d'))" using i by (simp add: w g ordered_inv_def tickets_valid_def comp_def)
  moreover have "next_ticket c d' = next_ticket c d" for c using z(2) by (simp add: next_ticket_def)
  ultimately have "tickets_valid d'" using ordered_invD(1)[OF i] by (auto simp: tickets_valid_def w g)
  moreover have "served_in_order (d', A)"
  proof (rule in_orderI)
    fix x y c n k
    assume xy: "x \<in> set (wd_webhooks d')" "y \<in> set (wd_webhooks d')" "ticket x = Some (c, n)" "ticket y = Some (c, k)" "k < n"
      "resolved x \<or> wh_id x \<in> A"
    from xy(1,2) obtain x0 y0 where o': "x0 \<in> set (wd_webhooks d)" "x = g x0" "y0 \<in> set (wd_webhooks d)" "y = g y0"
      by (auto simp: w)
    with xy m have "resolved x0 \<or> wh_id x0 \<in> A" "ticket x0 = Some (c, n)" "ticket y0 = Some (c, k)" by (auto simp: g)
    with in_orderD[OF ordered_invD(2)[OF i] o'(1,3)] xy(5) have "resolved y0" by blast
    then show "resolved y" by (simp add: o' g)
  qed
  moreover have "wh_id ` set (wd_webhooks d') = wh_id ` set (wd_webhooks d)" by (simp add: w g image_image)
  ultimately show ?thesis using ordered_invD(3)[OF i] by (intro ordered_invI) simp_all
qed

lemma inv_admit:
  assumes i: "ordered_inv (d, A)" and a: "admit_event st d k = Inr (Some x)"
  shows "ordered_inv (d, insert k A)"
proof -
  obtain ev where ev: "tbl_find wh_id k (wd_webhooks d) = Some ev" using a by (auto simp: admit_event_def split: option.splits)
  then have mem: "ev \<in> set (wd_webhooks d)" "wh_id ev = k" by (auto simp: tbl_find_def find_Some_iff)
  have only: "e \<in> set (wd_webhooks d) \<Longrightarrow> wh_id e = k \<Longrightarrow> e = ev" for e
    using i mem by (auto simp: ordered_inv_def tickets_valid_def distinct_map dest: inj_onD)
  have "resolved f" if f: "f \<in> set (wd_webhooks d)" "ticket ev = Some (c, n)" "ticket f = Some (c, j)" "j < n" for f c n j
  proof -
    have "carries_message ev" using i mem f(2) by (auto simp: ordered_inv_def tickets_valid_def)
    moreover have "wh_sequence ev = Some n" "wh_scope ev = Some c" using f(2) by (auto simp: ticket_def split: option.splits)
    ultimately have "require_head d ev = Inr ()"
      using a ev by (auto simp: admit_event_def carries_message_def split: option.splits if_splits sum.splits)
    then have "\<not> unresolved_before c n d" using f(2)
      by (auto simp: require_head_def ticket_def split: option.splits if_splits)
    with f show ?thesis
      by (auto simp: unresolved_before_def resolved_def ticket_def list_ex_iff split: option.splits)
  qed
  then have "served_in_order (d, insert k A)"
    using in_orderD[OF ordered_invD(2)[OF i]] only by (intro in_orderI) blast
  with i mem show ?thesis by (auto simp: ordered_inv_def)
qed

lemma inv_claim_items:
  "claim_items io lane raw now fresh n its d = Inr (d', cs) \<Longrightarrow> ordered_inv (d, A) \<Longrightarrow> inj (\<lambda>k. fst (fresh k)) \<Longrightarrow>
   \<forall>k \<ge> n. fst (fresh k) \<notin> wh_id ` set (wd_webhooks d) \<Longrightarrow> ordered_inv (d', A)"
proof (induction its arbitrary: n d cs)
  case (Cons it its)
  then obtain e c cs' where c: "claim_event io lane raw now (fresh n) it d d = Inr (e, c)"
      "claim_items io lane raw now fresh (Suc n) its e = Inr (d', cs')"
    by (auto simp: and_then_Inr)
  have "ordered_inv (e, A) \<and> (\<forall>k \<ge> Suc n. fst (fresh k) \<notin> wh_id ` set (wd_webhooks e))"
    using claim_event_arrives[OF c(1)]
  proof
    assume s: "same_ingress d e"
    with inv_same[OF Cons.prems(2) s] Cons.prems(4) show ?thesis by (auto simp: same_ingress_def)
  next
    assume "\<exists>ev. arrives ev d e \<and> wh_id ev = fst (fresh n)"
    then obtain ev where ev: "arrives ev d e" "wh_id ev = fst (fresh n)" by blast
    with inv_arrives[OF Cons.prems(2) ev(1)] Cons.prems(4) have "ordered_inv (e, A)" by simp
    moreover have "fst (fresh k) \<noteq> fst (fresh n)" if "Suc n \<le> k" for k
      using injD[OF Cons.prems(3), of k n] that by auto
    ultimately show ?thesis using ev Cons.prems(4) by (auto simp: arrives_def)
  qed
  with Cons.IH[OF c(2) _ Cons.prems(3)] show ?case by blast
qed simp

lemma ordered_inv_step: "ordered_inv s \<Longrightarrow> ordered_step io ops st s t \<Longrightarrow> ordered_inv t"
proof (erule ordered_step.cases)
  fix fresh d lane raw now payload d' r A
  assume i: "ordered_inv s" "s = (d, A)" "t = (d', A)" "fresh_events fresh d"
    and c: "claim_webhook_events io lane raw now fresh payload d = (d', r)"
  show "ordered_inv t"
  proof (cases "claim_items io lane raw now fresh 0 (split_inbox_events payload) d")
    case (Inl e)
    with i c show ?thesis by (simp add: claim_webhook_events_def)
  next
    case (Inr y)
    with c have "claim_items io lane raw now fresh 0 (split_inbox_events payload) d = Inr (d', snd y)"
      by (cases y) (simp add: claim_webhook_events_def)
    from inv_claim_items[OF this] i show ?thesis by (simp add: fresh_events_def)
  qed
next
  fix ev A d
  assume "ordered_inv s" "s = (d, A)" "t = (webhook_done ''processed'' ev d, A)" "wh_id ev \<in> A"
  moreover have "settles ev d (webhook_done ''processed'' ev d)" by (rule done_settles) (simp add: terminal_receipts_def)
  ultimately show "ordered_inv t" by (simp add: inv_settles)
qed (auto intro: inv_admit inv_same inv_settles claimed_settles)

interpretation arrivals: inv_system no_events "ordered_step io ops st" ordered_inv
proof
  fix s assume "no_events s"
  then show "ordered_inv s"
    by (cases s) (auto simp: no_events_def ordered_inv_def tickets_valid_def served_in_order_def)
qed (rule ordered_inv_step)

text \<open>C6: The messages of one participant to one receiver are settled in the order they arrived. However claims, workers,
  retries and agent turns interleave, an event is admitted to processing or settled only when every message with a
  smaller arrival number of the same stream is settled already.\<close>

theorem messages_processed_in_order:
  assumes "reach no_events (ordered_step io ops st) (db, admitted_ids)"
    and "e \<in> set (wd_webhooks db)" "f \<in> set (wd_webhooks db)"
    and "ticket e = Some (scope, n)" "ticket f = Some (scope, k)" "k < n"
    and "resolved e \<or> wh_id e \<in> admitted_ids"
  shows "resolved f"
proof -
  from arrivals.reach_inv[OF assms(1)] have "served_in_order (db, admitted_ids)" by (simp add: ordered_inv_def)
  from this[unfolded served_in_order_def fst_conv snd_conv, rule_format, OF assms(2,3)] assms(4-) show ?thesis by blast
qed

text \<open>A whole run of \<^verbatim>\<open>process_inbox_event\<close> is an admission and its work, or changes nothing.\<close>

lemma process_is_ordered:
  assumes "process_inbox_event ops st inp i w = (w', r)"
  shows "w' = w \<or> (ordered_step io ops st (iw_db w, A) (iw_db w, insert i A)
    \<and> ordered_step io ops st (iw_db w, insert i A) (iw_db w', insert i A))"
proof (cases "admit_event st (iw_db w) i")
  case (Inr y)
  show ?thesis
  proof (cases y)
    case (Some z)
    then obtain ev m d where z: "y = Some (ev, m, d)" by (cases z) auto
    with Inr assms have p: "process_claimed_event ops st inp ev m d w = (w', r)" by (simp add: process_inbox_event_def)
    have "wh_id ev = i"
      using Inr z by (auto simp: admit_event_def tbl_find_def find_Some_iff split: option.splits if_splits sum.splits)
    with ordered_step.admit[of st "iw_db w" i "(ev, m, d)" io ops A] ordered_step.work[OF _ p, of "insert i A" io] Inr z
    show ?thesis by auto
  qed (use assms Inr in \<open>simp add: process_inbox_event_def\<close>)
qed (use assms in \<open>simp add: process_inbox_event_def\<close>)

end
