(* ===== verification/InboundAnswers.thy ===== *)
theory InboundAnswers
  imports InboundOrder
begin

text \<open>
  How inbound processing ends: an error leaves the event open for the job's next attempt, but for the reset command,
  and senders that opted out or are not active are answered with silence.
\<close>

section \<open>Errors leave the event open\<close>

definition reset_text :: "string \<Rightarrow> bool" where
  "reset_text s \<longleftrightarrow> lower s = ''/new'' \<or> lower s = ''/reset''"

text \<open>The outcome \<open>r\<close> of work on an event: either it is no error, or neither events nor streams changed.\<close>

definition error_keeps :: "'a wa_db_scheme \<Rightarrow> 'a wa_db_scheme \<Rightarrow> inbound_error + inbound_answer \<Rightarrow> bool" where
  "error_keeps d d' r \<longleftrightarrow> is_ok r \<or> same_ingress d d'"

lemma error_keeps_simps [simp]: "error_keeps d d' (Inr y)" "error_keeps d d' (Inl e) = same_ingress d d'"
  by (simp_all add: error_keeps_def)

lemma keeps_after: "same_ingress d e \<Longrightarrow> error_keeps e f r \<Longrightarrow> error_keeps d f r"
  by (auto simp: error_keeps_def intro: same_ingress_trans)

lemma say_close_keeps: "say_and_close ops st a x c ans w = (w', r) \<Longrightarrow> error_keeps (iw_db w) (iw_db w') r"
  by (cases "say ops st a c w") (auto simp: say_and_close_def dest: say_frame split: sum.splits)

lemma opt_in_keeps: "opt_in_branch ops st a x w = (w', r) \<Longrightarrow> error_keeps (iw_db w) (iw_db w') r"
  unfolding opt_in_branch_def by (drule say_close_keeps) (simp add: keeps_after[OF row_frames(3)])

lemma action_keeps:
  assumes r: "action_branch ops st inp x cid ch i w = (w', r)"
  shows "error_keeps (iw_db w) (iw_db w') r"
proof -
  obtain w1 q where d: "decide_action (ib_actions ops) (ii_decide_at inp) x cid ch i w = (w1, q)" by (rule prod.exhaust)
  have f: "same_ingress (iw_db w) (iw_db w1)" by (rule decide_action_frame[OF d])
  show ?thesis
  proof (cases q)
    case (Inl e)
    with r d f show ?thesis by (auto simp: action_branch_def)
  next
    case (Inr y)
    obtain body ans where "y = (body, ans)" by (cases y)
    with Inr r d have "say_and_close (ib_delivery ops) st (ii_attempt inp) x (branch_message x (''action-decision:'' @ i) body True) ans w1 = (w', r)"
      by (simp add: action_branch_def)
    from keeps_after[OF f say_close_keeps[OF this]] show ?thesis .
  qed
qed

lemma consent_keeps:
  assumes r: "consent_branch ops st inp x d w = (w', r)"
  shows "error_keeps (iw_db w) (iw_db w') r"
proof -
  let ?w1 = "with_db (record_consent st (ix_tenant x) (ix_user x) d) w"
  obtain w2 q where s: "say_and_close (ib_delivery ops) st (ii_attempt inp) x
      (branch_message x (''research-consent:'' @ d) (consent_body d) True) (''research_consent_'' @ d) ?w1 = (w2, q)"
    by (rule prod.exhaust)
  have 1: "error_keeps (iw_db w) (iw_db w2) q"
    using say_close_keeps[OF s] by (simp add: keeps_after[OF row_frames(12)])
  from r s have "r = q" "w' = w2 \<or> iw_db w' = iw_db w" by (auto simp: consent_branch_def Let_def split: sum.splits if_splits)
  with 1 show ?thesis by (auto simp: error_keeps_def same_ingress_refl)
qed

lemma after_budget_keeps: "after_budget ops st inp x m conv w = (w', r) \<Longrightarrow> error_keeps (iw_db w) (iw_db w') r"
  by (auto simp: after_budget_def split: option.splits prod.splits dest: action_keeps consent_keeps)

lemma budget_keeps:
  assumes r: "budget_branch ops st inp x m conv w = (w', r)"
  shows "error_keeps (iw_db w) (iw_db w') r"
proof -
  obtain s q where t: "take_budget ops st inp x (iw_redis w) = (s, q)" by (rule prod.exhaust)
  show ?thesis
  proof (cases q)
    case (Inl e)
    with r t show ?thesis by (cases e) (auto simp: budget_branch_def same_ingress_refl dest: say_close_keeps)
  next
    case (Inr u)
    with r t after_budget_keeps[of ops st inp x m conv "w\<lparr>iw_redis := s\<rparr>" w' r] show ?thesis by (simp add: budget_branch_def)
  qed
qed

lemma authorized_keeps:
  assumes r: "authorized_branch ops st inp x m text flag w = (w', r)"
  shows "error_keeps (iw_db w) (iw_db w') r \<or> reset_text text"
proof (cases "upper text = ''START''")
  case True
  show ?thesis by (rule disjI1[OF opt_in_keeps[OF r[unfolded authorized_start[OF True]]]])
next
  case False
  show ?thesis
  proof (cases flag)
    case True
    with r authorized_out[OF False, of ops st inp x m w] have "r = Inr (Answered ''opted_out'')" by simp
    then show ?thesis by simp
  next
    case f: False
    with r have r: "authorized_branch ops st inp x m text False w = (w', r)" by simp
    show ?thesis
    proof (cases "reset_text text")
      case t: False
      then have "\<not> (lower text = ''/new'' \<or> lower text = ''/reset'')" by (simp only: reset_text_def simp_thms)
      from budget_keeps[OF r[unfolded authorized_other[OF False this]]] show ?thesis ..
    qed simp
  qed
qed

lemma refuse_keeps: "refuse_sender ops st a ev phone sender i known w = (w', r) \<Longrightarrow> error_keeps (iw_db w) (iw_db w') r"
  by (cases "say ops st a (unknown_message ev phone sender) w"; cases known)
    (auto simp: refuse_sender_def split: sum.splits dest!: say_frame)

lemma route_keeps:
  assumes r: "route_sender ops st inp ev m external sender i po w = (w', r)"
  shows "error_keeps (iw_db w) (iw_db w') r \<or> reset_text (message_text (dv_text (ib_delivery ops)) m)"
proof (cases po)
  case None
  with r show ?thesis by (simp add: route_unknown refuse_keeps)
next
  case (Some p)
  with r have r: "route_sender ops st inp ev m external sender i (Some p) w = (w', r)" by simp
  show ?thesis
  proof (cases "is_stop ops m p")
    case True
    with r have "is_ok r" by (auto simp: route_stop is_ok_def)
    then show ?thesis by (simp add: error_keeps_def)
  next
    case ns: False
    show ?thesis
    proof (cases "sender_authorized (iw_db w) p")
      case False
      show ?thesis by (rule disjI1[OF refuse_keeps[OF r[unfolded route_refused[OF ns False]]]])
    next
      case True
      obtain f q where b: "bind_inbound_job_tenant (ii_now inp) ev (ph_tenant_id p) (iw_db w) (ww_fence (iw_world w)) = (f, q)"
        by (rule prod.exhaust)
      show ?thesis
      proof (cases q)
        case (Inl e)
        with r[unfolded route_known[of ops m p w, OF ns True]] b have "iw_db w' = iw_db w" by auto
        then show ?thesis by (simp add: error_keeps_def same_ingress_refl)
      next
        case (Inr d)
        with r[unfolded route_known[of ops m p w, OF ns True]] b
        have "authorized_branch ops st inp (known_context ops ev m external sender i p) m
         (message_text (dv_text (ib_delivery ops)) m) (ph_opt_out p) (w\<lparr>iw_world := (iw_world w)\<lparr>ww_db := d, ww_fence := f\<rparr>\<rparr>) = (w', r)"
          by simp
        from authorized_keeps[OF this] have "error_keeps d (iw_db w') r \<or> reset_text (message_text (dv_text (ib_delivery ops)) m)" by simp
        moreover have "same_ingress (iw_db w) d" using bind_frame b Inr by blast
        ultimately show ?thesis using keeps_after by blast
      qed
    qed
  qed
qed

lemma message_keeps:
  assumes r: "process_message ops st inp ev m w = (w', r)"
  shows "error_keeps (iw_db w) (iw_db w') r \<or> reset_text (message_text (dv_text (ib_delivery ops)) m)"
proof (cases "external_id ops m = []")
  case True
  with r show ?thesis by (auto simp: process_empty same_ingress_refl)
next
  case e: False
  show ?thesis
  proof (cases "unconfigured st ev")
    case True
    with r e show ?thesis by (auto simp: process_unconfigured)
  next
    case False
    let ?w1 = "show_typing (ib_delivery ops) st (inbound_sender st ev) (external_id ops m) w"
    let ?po = "find_identity (iw_db ?w1) (sender_phone (dv_text (ib_delivery ops)) m)"
    obtain i d where en: "ensure_inbound (ib_delivery ops) (ii_row inp) (ii_now inp) ev m (external_id ops m)
              (delivery_scope (ib_delivery ops) st (inbound_sender st ev)) ?po (iw_db ?w1) = (i, d)" by (rule prod.exhaust)
    have "route_sender ops st inp ev m (external_id ops m) (inbound_sender st ev) i ?po (with_db (\<lambda>_. d) ?w1) = (w', r)"
      using r[unfolded process_known[OF e False] Let_def en] by simp
    from route_keeps[OF this] have "error_keeps d (iw_db w') r \<or> reset_text (message_text (dv_text (ib_delivery ops)) m)" by simp
    moreover have "same_ingress (iw_db w) d" using ensure_frame[OF en] by simp
    ultimately show ?thesis using keeps_after by blast
  qed
qed

lemma admitted_row:
  "admit_event st db i = Inr (Some (ev, m, d)) \<Longrightarrow> tbl_find wh_id i (wd_webhooks db) = Some ev \<and> wh_id ev = i"
  by (auto simp: admit_event_def tbl_find_def find_Some_iff split: option.splits if_splits sum.splits)

lemma settled_is_duplicate:
  assumes "settles ev (iw_db w) (iw_db w')" "\<not> same_ingress (iw_db w) (iw_db w')"
    "tbl_find wh_id (wh_id ev) (wd_webhooks (iw_db w)) = Some e"
  shows "process_inbox_event ops st inp (wh_id ev) w' = (w', Inr (Answered ''duplicate''))"
proof -
  from assms obtain s where s: "s \<in> set terminal_receipts"
      "wd_webhooks (iw_db w') = tbl_upd wh_id (wh_id ev) (\<lambda>e. e\<lparr>wh_status := s\<rparr>) (wd_webhooks (iw_db w))"
    by (auto simp: settles_def same_ingress_def)
  with assms(3) have "tbl_find wh_id (wh_id ev) (wd_webhooks (iw_db w')) = Some (e\<lparr>wh_status := s\<rparr>)"
    by (simp add: tbl_find_upd)
  with s(1) have "admit_event st (iw_db w') (wh_id ev) = Inr None" by (simp add: admit_event_def)
  then show ?thesis by (simp add: process_inbox_event_def)
qed

lemma claimed_error:
  assumes p: "process_claimed_event ops st inp ev m d w = (w', Inl e)"
  shows "w' = w \<or> (\<exists>r. m = PDict r \<and> process_message ops st inp ev r w = (w', Inl e))"
proof (cases "truthy d")
  case True
  with p have "(case d of PDict r \<Rightarrow> (with_db (process_delivery (dv_text (ib_delivery ops)) st (ii_row inp) (ii_now inp) ev r) w,
      Inr (Answered ''accepted'')) | _ \<Rightarrow> (w, Inl InAttributeError)) = (w', Inl e)"
    unfolding process_claimed_event_def by (simp only: if_True)
  then show ?thesis by (cases d) simp_all
next
  case d: False
  show ?thesis
  proof (cases "truthy m")
    case True
    with p d have "(case m of PDict r \<Rightarrow> process_message ops st inp ev r w | _ \<Rightarrow> (w, Inl InAttributeError)) = (w', Inl e)"
      unfolding process_claimed_event_def by (simp only: if_True if_False)
    then show ?thesis by (cases m) simp_all
  next
    case False
    with p d show ?thesis unfolding process_claimed_event_def by (simp only: if_False prod.inject sum.distinct simp_thms)
  qed
qed


section \<open>Silence\<close>

lemma find_identity_ensure:
  "ensure_inbound ops i now ev m e sc p d = (j, d') \<Longrightarrow> sender_authorized d' q = sender_authorized d q"
  by (auto simp: ensure_inbound_def sender_authorized_def active_member_def active_user_def active_tenant_def split: option.splits)

definition silent :: "('d, 's) inbound_world \<Rightarrow> ('d, 's) inbound_world \<Rightarrow> inbound_error + inbound_answer \<Rightarrow> bool" where
  "silent w w' r \<longleftrightarrow> ww_net (iw_world w') = ww_net (iw_world w) \<and> iw_effects w' = iw_effects w \<and> iw_redis w' = iw_redis w
     \<and> (\<forall>t. r \<noteq> Inr (NeedsTurn t))"

lemma route_silent:
  assumes r: "route_sender ops st inp ev m external sender i (Some p) w = (w', r)"
    and q: "\<not> sender_authorized (iw_db w) p \<or> ph_opt_out p \<and> upper (message_text (dv_text (ib_delivery ops)) m) \<noteq> ''START''"
  shows "silent w w' r"
proof (cases "is_stop ops m p")
  case True
  with r show ?thesis by (auto simp: route_stop silent_def)
next
  case ns: False
  show ?thesis
  proof (cases "sender_authorized (iw_db w) p")
    case False
    from r[unfolded route_refused[OF ns False]] show ?thesis by (auto simp: refuse_sender_def silent_def)
  next
    case True
    with q have o': "ph_opt_out p" "upper (message_text (dv_text (ib_delivery ops)) m) \<noteq> ''START''" by blast+
    obtain f q where b: "bind_inbound_job_tenant (ii_now inp) ev (ph_tenant_id p) (iw_db w) (ww_fence (iw_world w)) = (f, q)"
      by (rule prod.exhaust)
    from r[unfolded route_known[of ops m p w, OF ns True]] b o'(1) show ?thesis
      by (cases q) (auto simp: authorized_out[OF o'(2)] silent_def)
  qed
qed

text \<open>A sender that opted out, or whose account, membership or tenant is not active, is answered with silence: no
  message is sent, no message budget is spent, no connector is called and no agent turn starts. All the provider sees is the
  read receipt that was sent before the sender was looked up.\<close>

theorem silent_senders:
  assumes "process_message ops st inp ev m w = (w', r)"
    and "external_id ops m \<noteq> []" "\<not> unconfigured st ev"
    and "find_identity (iw_db w) (sender_phone (dv_text (ib_delivery ops)) m) = Some p"
    and "\<not> sender_authorized (iw_db w) p \<or> ph_opt_out p \<and> upper (message_text (dv_text (ib_delivery ops)) m) \<noteq> ''START''"
  shows "ww_net (iw_world w') = ww_net (iw_world (show_typing (ib_delivery ops) st (inbound_sender st ev) (external_id ops m) w))
    \<and> iw_effects w' = iw_effects w \<and> iw_redis w' = iw_redis w \<and> (\<forall>t. r \<noteq> Inr (NeedsTurn t))"
proof -
  let ?w1 = "show_typing (ib_delivery ops) st (inbound_sender st ev) (external_id ops m) w"
  obtain i d where en: "ensure_inbound (ib_delivery ops) (ii_row inp) (ii_now inp) ev m (external_id ops m)
            (delivery_scope (ib_delivery ops) st (inbound_sender st ev)) (Some p) (iw_db ?w1) = (i, d)" by (rule prod.exhaust)
  have "route_sender ops st inp ev m (external_id ops m) (inbound_sender st ev) i (Some p) (with_db (\<lambda>_. d) ?w1) = (w', r)"
    using assms(1)[unfolded process_known[OF assms(2,3)] Let_def] en assms(4) by simp
  from route_silent[OF this] assms(5) find_identity_ensure[OF en] show ?thesis by (simp add: silent_def)
qed

end
