(* ===== verification/InboundExamples.thy ===== *)
theory InboundExamples
  imports InboundAnswers TurnExamples
begin

text \<open>Concrete messages: the witnesses of the properties of ingress, delivery and inbound processing.\<close>

section \<open>A provider that does not answer\<close>

text \<open>The hash of the examples is a text as long as its input.\<close>

definition ex_text :: ingress_ops where
  "ex_text = \<lparr> io_sha = (\<lambda>b. replicate (length b) CHR ''h''), io_str = (\<lambda>_. []) \<rparr>"

definition ex_meta :: meta_ops where
  "ex_meta = \<lparr> mo_net = (\<lambda>_ _. NoAnswer), mo_loads = (\<lambda>_. None), mo_sha = (\<lambda>_. []), mo_split = (\<lambda>_. None) \<rparr>"

definition ex_dops :: delivery_ops where
  "ex_dops = \<lparr> dv_meta = ex_meta, dv_text = ex_text \<rparr>"

definition ex_wa_settings :: "string \<Rightarrow> wa_settings" where
  "ex_wa_settings backend = \<lparr> ms_env = ''production'', ms_backend = backend, ms_graph_version = ''v2.0'', ms_waba_id = Some ''12345'',
     ms_phone_number_id = Some ''12345'', ms_token = replicate 16 CHR ''k'', ms_primary = True, ms_test_replies = False,
     ms_test_waba_id = None, ms_test_phone_number_id = None, ms_otp_template = ''otp'', ms_language = ''en'', ms_timeout = 20,
     ms_max_response = 4096, ms_progress = False, ms_speech = False, ms_pilot = False, ms_policy = ''v1'',
     ms_message_limit = 10, ms_message_window = 60 \<rparr>"

definition ex_wa :: "webhook_event list \<Rightarrow> wa_db" where
  "ex_wa es = agent_db.extend ex_shop \<lparr> wd_webhooks = es, wd_streams = [], wd_receipts = [], wd_consents = [] \<rparr>"

definition ex_event :: "(string \<times> pyval) list \<Rightarrow> webhook_event" where
  "ex_event payload = \<lparr> wh_id = ''e'', wh_scope = None, wh_sequence = None, wh_provider = ''whatsapp'', wh_external_id = ''x'',
     wh_payload = payload, wh_status = ''received'' \<rparr>"

definition ex_notice_to :: "ident option \<Rightarrow> string \<Rightarrow> text_delivery" where
  "ex_notice_to who phone = \<lparr> dc_event = ex_event [], dc_purpose = ''p'', dc_phone = phone, dc_body = ''hi'',
     dc_tenant = map_option (\<lambda>_. ''t'') who, dc_user = who, dc_sender = None, dc_reply_to = None, dc_buttons = [] \<rparr>"

lemma ex_notice_simps [simp]: "dc_event (ex_notice_to who p) = ex_event []" "dc_purpose (ex_notice_to who p) = ''p''"
  "dc_phone (ex_notice_to who p) = p" "dc_body (ex_notice_to who p) = ''hi''" "dc_tenant (ex_notice_to who p) = map_option (\<lambda>_. ''t'') who"
  "dc_user (ex_notice_to who p) = who" "dc_sender (ex_notice_to who p) = None" "dc_reply_to (ex_notice_to who p) = None"
  "dc_buttons (ex_notice_to who p) = []"
  by (simp_all add: ex_notice_to_def)

definition ex_attempt :: attempt where
  "ex_attempt = \<lparr> at_ids = (''1'', ''2'', ''3''), at_row = ''4'', at_prepare = 0, at_claim = 1, at_submit = 2 \<rparr>"

definition ex_world :: "'d \<Rightarrow> 'd world" where
  "ex_world d = \<lparr> ww_db = d, ww_fence = None, ww_net = [] \<rparr>"

definition ex_client :: meta_client where
  "ex_client = \<lparr> mt_phone_number_id = ''12345'', mt_version = ''v2.0'', mt_token = replicate 16 CHR ''k'', mt_otp_template = Some ''otp'',
     mt_language = ''en'', mt_max_response = 4096 \<rparr>"

lemma ex_client: "client_from_settings (ex_wa_settings ''meta'') = Inr ex_client"
proof -
  have "graph_version_ok ''v2.0''" "spans 5 64 is_digit ''12345''" "template_name_ok ''otp''" "language_code_ok ''en''" by code_simp+
  then show ?thesis by (simp add: client_from_settings_def ex_wa_settings_def new_client_def ex_client_def)
qed

definition ex_number :: string where
  "ex_number = ''+12345678''"

definition ex_post :: meta_call where
  "ex_post = post_json ex_client (PDict (individual ''text'' (PDict [(''preview_url'', PBool False), (''body'', PStr ''hi'')])
     @ [(''to'', PStr ''12345678'')]))"

lemma ex_send: "send_text ex_meta ex_client ex_number ''hi'' None [] = ([ex_post], Inl (failure ''timeout'' True))"
proof -
  have "recipient_digits ex_number = Inr ''12345678''" "strip ''hi'' = ''hi''" unfolding ex_number_def by code_simp+
  then show ?thesis
    by (simp add: send_text_def max_text_def reply_context_def meta_send_def ex_post_def ex_meta_def read_send_def no_reply_def)
qed

lemma ex_unknown: "ag_whatsapp ex_shop = []" by (simp add: ex_shop_def)

text \<open>The first attempt: the provider does not answer, the outcome is ambiguous.\<close>

definition ex_row :: wa_message where
  "ex_row = outbound_row ex_dops (ex_wa_settings ''meta'') (ex_notice_to None ex_number) ''4'' 0"

definition ex_after :: agent_db where
  "ex_after = ex_shop\<lparr>ag_whatsapp := [record_failure (\<lparr> mf_category = ''timeout'', mf_retryable = True, mf_status = None, mf_code = None,
     mf_request = None, mf_retry_after = None \<rparr>) (ex_row\<lparr>wm_status := ''sending'', wm_status_rank := 2\<rparr>)]\<rparr>"

lemma ex_deliver: "deliver_once ex_dops (ex_wa_settings ''meta'') ex_attempt (ex_notice_to None ex_number) (ex_world ex_shop)
  = (\<lparr> ww_db = ex_after, ww_fence = None, ww_net = [ex_post] \<rparr>,
     Inl (DeliveryPermanent ''WhatsApp delivery cannot be retried safely''))"
proof -
  let ?c = "ex_notice_to None ex_number" and ?st = "ex_wa_settings ''meta''"
  let ?d1 = "ex_shop\<lparr>ag_whatsapp := [ex_row]\<rparr>" and ?d2 = "ex_shop\<lparr>ag_whatsapp := [ex_row\<lparr>wm_status := ''sending'', wm_status_rank := 2\<rparr>]\<rparr>"
  have none: "find_out ex_shop (delivery_key ex_dops ?c) = None" by (simp add: find_out_def ex_unknown)
  have "deliver_check ex_dops ?st ?c ex_shop = Proceed" by (simp add: deliver_check_def none)
  moreover have "deliver_prepare ex_dops ?st ?c ex_attempt ex_shop = (None, ?d1, ?d1)"
    by (simp add: deliver_prepare_def none record_control_reply_def delivery_control_def Let_def ex_unknown
        ex_attempt_def ex_row_def)
  moreover have key: "wm_idempotency_key ex_row = Some (delivery_key ex_dops ?c)" by (simp add: ex_row_def outbound_row_def)
  then have "mark_sending (delivery_key ex_dops ?c) ?d1 = ?d2" by (simp add: mark_sending_def set_out_def)
  moreover have "deliver_submit ex_dops ?st ?c 2 ?d2 None [] = (None, [ex_post], ProviderFailed \<lparr> mf_category = ''timeout'', mf_retryable = True,
      mf_status = None, mf_code = None, mf_request = None, mf_retry_after = None \<rparr>)"
  proof -
    have "delivery_actor ?d2 (dc_tenant ?c) (dc_user ?c) (dc_phone ?c)" by (simp add: delivery_actor_def present_def)
    moreover have "transmit ex_dops ?st ?c [] = ([ex_post], outcome_of (Inl (failure ''timeout'' True)))"
      using ex_client ex_send by (simp add: transmit_def messaging_client_def ex_dops_def ex_wa_settings_def)
    ultimately show ?thesis by (simp add: deliver_submit_def outcome_of_def failure_def)
  qed
  moreover have "deliver_settle ex_dops ?st ?c None (ProviderFailed \<lparr> mf_category = ''timeout'', mf_retryable = True,
      mf_status = None, mf_code = None, mf_request = None, mf_retry_after = None \<rparr>) ?d2
      = (ex_after, Inl (DeliveryPermanent ''WhatsApp delivery cannot be retried safely''))"
    using key by (simp add: deliver_settle_def Let_def set_out_def ex_after_def failed_status_def ambiguous_failure_def)
  ultimately show ?thesis by (simp add: deliver_once_def ex_world_def Let_def ex_attempt_def)
qed

theorem deliver_once_refines_life_witness:
  "(text_life ex_dops (ex_wa_settings ''meta'') (ex_notice_to None ex_number))\<^sup>*\<^sup>* \<lparr> lf_db = ex_shop, lf_phase = Idle, lf_log = [] \<rparr>
    \<lparr> lf_db = ex_after, lf_phase = Idle, lf_log = [NoAnswer] \<rparr>"
proof -
  have "message_answers (dv_meta ex_dops) [] [ex_post] = [NoAnswer]"
    by (simp add: message_answers_def ex_post_def post_json_def ex_dops_def ex_meta_def upt_rec)
  then show ?thesis using deliver_once_refines_life[OF ex_deliver, of "[]"] by (simp add: ex_world_def)
qed

lemma ex_lived: "reach (life_start (\<lambda>d. find_out d (delivery_key ex_dops (ex_notice_to None ex_number))))
    (text_life ex_dops (ex_wa_settings ''meta'') (ex_notice_to None ex_number)) \<lparr> lf_db = ex_shop, lf_phase = Idle, lf_log = [] \<rparr>"
  by (rule reach_init) (simp add: life_start_def find_out_def ex_unknown)

theorem message_submitted_at_most_once_witness:
  "closed_row (find_out ex_after (delivery_key ex_dops (ex_notice_to None ex_number)))
   \<and> reach (life_start (\<lambda>d. find_out d (delivery_key ex_dops (ex_notice_to None ex_number))))
    (text_life ex_dops (ex_wa_settings ''meta'') (ex_notice_to None ex_number)) \<lparr> lf_db = ex_after, lf_phase = Idle, lf_log = [NoAnswer] \<rparr>"
proof -
  have log: "message_answers (dv_meta ex_dops) [] [ex_post] = [NoAnswer]"
    by (simp add: message_answers_def ex_post_def post_json_def ex_dops_def ex_meta_def upt_rec)
  from deliver_once_run[OF ex_deliver, of "[]"] log ex_lived
  have r: "reach (life_start (\<lambda>d. find_out d (delivery_key ex_dops (ex_notice_to None ex_number))))
    (text_life ex_dops (ex_wa_settings ''meta'') (ex_notice_to None ex_number)) \<lparr> lf_db = ex_after, lf_phase = Idle, lf_log = [NoAnswer] \<rparr>"
    by (simp add: ex_world_def reach_steps)
  from message_submitted_at_most_once[OF this] r show ?thesis by (simp add: refused_def)
qed

section \<open>A person who opted out\<close>

definition ex_silent :: agent_db where
  "ex_silent = ex_shop\<lparr>ag_phones := [\<lparr> ph_id = ''i'', ph_tenant_id = ''t'', ph_user_id = ''u'', ph_phone = ex_number, ph_wa_id = None,
     ph_status = ''approved'', ph_opt_out = True \<rparr>]\<rparr>"


section \<open>A report\<close>

definition ex_reported :: wa_db where
  "ex_reported = ex_wa []\<lparr>ag_whatsapp := [ex_row\<lparr>wm_meta_message_id := Some ''x'', wm_status := ''sent'', wm_status_rank := 3\<rparr>]\<rparr>"

definition ex_report :: "string \<Rightarrow> (string \<times> pyval) list" where
  "ex_report s = [(''id'', PStr ''x''), (''status'', PStr s), (''timestamp'', PStr ''1'')]"

theorem reports_move_forward_witness:
  "wm_status_rank (hd (ag_whatsapp ex_reported))
     \<le> wm_status_rank (hd (ag_whatsapp (process_delivery ex_text (ex_wa_settings ''meta'') ''r'' 0 (ex_event []) (ex_report ''read'') ex_reported)))"
proof -
  let ?d = "process_delivery ex_text (ex_wa_settings ''meta'') ''r'' 0 (ex_event []) (ex_report ''read'') ex_reported"
  have "list_all2 (\<lambda>m m'. wm_id m' = wm_id m \<and> wm_status_rank m \<le> wm_status_rank m' \<and> wm_meta_message_id m' = wm_meta_message_id m
      \<and> (wm_status m' = wm_status m \<or> delivery_rank (wm_status m') = Some (wm_status_rank m'))) (ag_whatsapp ex_reported) (ag_whatsapp ?d)"
    by (rule conjunct1[OF reports_move_forward[OF refl]])
  then show ?thesis by (cases "ag_whatsapp ?d") (auto simp: ex_reported_def)
qed

section \<open>Webhooks\<close>

definition ex_ids :: "nat \<Rightarrow> ident \<times> ident" where
  "ex_ids n = (replicate n CHR ''e'', replicate n CHR ''j'')"

lemma utf8_append: "utf8 (x @ y) = utf8 x @ utf8 y"
  by (simp add: utf8_def to_utext_def)

lemma utf8_cons: "utf8 (c # s) = utf8_char (code c) @ utf8 s"
  by (simp add: utf8_def to_utext_def)

lemma ex_sha: "sha_text ex_text s = replicate (length (utf8 s)) CHR ''h''"
  by (simp add: sha_text_def ex_text_def)

text \<open>Two messages of one participant in one envelope.\<close>

definition ex_msg :: "string \<Rightarrow> string \<Rightarrow> (string \<times> pyval) list" where
  "ex_msg i s = [(''id'', PStr i), (''from'', PStr ''7''), (''type'', PStr ''text''), (''text'', PDict [(''body'', PStr s)])]"

definition ex_value :: "(string \<times> pyval) list list \<Rightarrow> (string \<times> pyval) list" where
  "ex_value ms = [(''metadata'', PDict [(''phone_number_id'', PStr ''2'')]), (''messages'', PList (map PDict ms))]"

definition ex_change :: "(string \<times> pyval) list list \<Rightarrow> (string \<times> pyval) list" where
  "ex_change ms = [(''value'', PDict (ex_value ms))]"

definition ex_entry :: "(string \<times> pyval) list list \<Rightarrow> (string \<times> pyval) list" where
  "ex_entry ms = [(''id'', PStr ''1''), (''changes'', PList [PDict (ex_change ms)])]"

definition ex_body :: "(string \<times> pyval) list list \<Rightarrow> (string \<times> pyval) list" where
  "ex_body ms = [(''entry'', PList [PDict (ex_entry ms)])]"

definition ex_pay :: "(string \<times> pyval) list list \<Rightarrow> (string \<times> pyval) list \<Rightarrow> (string \<times> pyval) list" where
  "ex_pay ms m = item_payload (ex_body ms) (ex_entry ms) (ex_change ms) (ex_value ms) ''messages'' (PDict m)"

lemma ex_split: "split_inbox_events (ex_body [m, n]) = [(ex_pay [m, n] m, fallback_key 0 0 ''messages'' 0), (ex_pay [m, n] n, fallback_key 0 0 ''messages'' 1)]"
  by (simp add: split_inbox_events_def dict_items_def change_items_def kind_items_def dict_get_def ex_body_def ex_entry_def ex_change_def
      ex_value_def ex_pay_def Let_def)

definition ex_order :: string where
  "ex_order = sha_text ex_text (''wa-arrival-v1'' @ [CHR 0x00] @ ''production'' @ [CHR 0x00] @ ''1'' @ [CHR 0x00] @ ''2'' @ [CHR 0x00] @ ''7'')"

lemma ex_digits: "str_isdigit ''1''" "str_isdigit ''2''" "str_isdigit ''7''" by code_simp+

lemma ex_pay_reads:
  "extract_message (ex_pay ms (ex_msg i s)) = Some (PDict (ex_msg i s))"
  "extract_delivery_status (ex_pay ms (ex_msg i s)) = Some PNone"
  "ordering_scope ex_text ''production'' (ex_pay ms (ex_msg i s)) = Some ex_order"
proof -
  show "extract_message (ex_pay ms (ex_msg i s)) = Some (PDict (ex_msg i s))"
    "extract_delivery_status (ex_pay ms (ex_msg i s)) = Some PNone"
    by (simp_all add: ex_pay_def extract_item)
  show "ordering_scope ex_text ''production'' (ex_pay ms (ex_msg i s)) = Some ex_order"
    by (simp add: ordering_scope_def first_value_def first_entry_def ex_pay_def item_payload_def Let_def map_of_dict_set item_def item0_def
        dict_get_set dict_or_def map_of_without dict_get_def ex_entry_def ex_change_def ex_value_def ex_msg_def lstrip_char_def
        ordering_receiver_def ex_digits ex_order_def map_add_def)
qed

lemma ex_sender: "extract_inbound_sender (ex_pay ms m) = Some (''1'', ''2'')"
  by (simp add: extract_inbound_sender_def first_value_def first_entry_def ex_pay_def item_payload_def Let_def map_of_dict_set item_def
      item0_def map_of_without ex_entry_def ex_change_def ex_value_def ex_digits ex_body_def map_add_def)

definition ex_external :: "string \<Rightarrow> string" where
  "ex_external i = ''wa1_'' @ sha_text ex_text (receiver_scope (sha_text ex_text) ''production'' (Some (''1'', ''2'')) @ [CHR 0x00] @ i)"

lemma ex_external_inj: "length (utf8 i) \<noteq> length (utf8 j) \<Longrightarrow> ex_external i \<noteq> ex_external j"
  by (simp add: ex_external_def ex_sha utf8_append utf8_cons)

lemma ex_ids_of:
  assumes "i \<noteq> []"
  shows "payload_event_id ex_text (ex_pay ms (ex_msg i s)) raw k = Some i"
    and "scoped_event_id ex_text (ex_pay ms (ex_msg i s)) ''production'' raw k = Some (ex_external i)"
proof -
  have "webhook_event_id ex_text raw (PDict (ex_msg i s)) PNone k = Some i"
    using assms by (simp add: webhook_event_id_def field_if_true_def ex_msg_def dict_get_def to_text_def)
  then show p: "payload_event_id ex_text (ex_pay ms (ex_msg i s)) raw k = Some i" by (simp add: payload_event_id_def ex_pay_reads)
  then show "scoped_event_id ex_text (ex_pay ms (ex_msg i s)) ''production'' raw k = Some (ex_external i)"
    by (simp add: scoped_event_id_def ex_sender ex_external_def)
qed

definition ex_row_of :: "ident \<Rightarrow> string \<Rightarrow> int \<Rightarrow> (string \<times> pyval) list \<Rightarrow> webhook_event" where
  "ex_row_of e i n payload = \<lparr> wh_id = e, wh_scope = Some ex_order, wh_sequence = Some n, wh_provider = ''whatsapp'',
     wh_external_id = ex_external i, wh_payload = payload, wh_status = ''received'' \<rparr>"

text \<open>The claim of one message when the stream's next number is \<open>n\<close>.\<close>

lemma ex_wa_enqueue:
  assumes "JobQueue.find_by_key d ''default'' (event_job_key x) = None" "get_job d j = None" "get_outbox d j = None"
    and "wh_status ev = ''received''"
  shows "\<exists>c. enqueue_event j now x ev d = Inr (d\<lparr>job_rows := job_rows d @ [new_job j now ''whatsapp.process_webhook''
      (PDict [(''event_id'', PStr (wh_id ev))]) (event_job_key x) None ''default'' 5 now], outbox_rows := outbox_rows d @ [new_outbox None j now now]\<rparr>, c)"
  using assms unfolding enqueue_event_def enqueue_job_def insert_ok_def
  by (simp add: terminal_receipts_def Let_def event_job_key_def)

definition ex_claimed :: "ident \<times> ident \<Rightarrow> string \<Rightarrow> int \<Rightarrow> (string \<times> pyval) list \<Rightarrow> wa_db \<Rightarrow> wa_db" where
  "ex_claimed ids i n p db = db\<lparr>wd_streams := [\<lparr> is_scope = ex_order, is_next = n + 1 \<rparr>], wd_webhooks := wd_webhooks db @ [ex_row_of (fst ids) i n p],
     job_rows := job_rows db @ [new_job (snd ids) 0 ''whatsapp.process_webhook'' (PDict [(''event_id'', PStr (fst ids))])
       (event_job_key (ex_external i)) None ''default'' 5 0], outbox_rows := outbox_rows db @ [new_outbox None (snd ids) 0 0]\<rparr>"

lemma ex_wa_claim:
  assumes "i \<noteq> []" "find_webhook db (ex_external i) = None" "find_webhook db i = None"
    and "wd_streams db = [] \<and> n = 1 \<or> wd_streams db = [\<lparr> is_scope = ex_order, is_next = n \<rparr>] \<and> 1 \<le> n"
    and "JobQueue.find_by_key db ''default'' (event_job_key (ex_external i)) = None" "get_job db (snd ids) = None" "get_outbox db (snd ids) = None"
  shows "\<exists>c. claim_event ex_text ''production'' raw 0 ids (ex_pay ms (ex_msg i s), k) db db
    = Inr (ex_claimed ids i n (ex_pay ms (ex_msg i s)) db, c)"
proof -
  let ?p = "ex_pay ms (ex_msg i s)"
  let ?r = "ex_row_of (fst ids) i n ?p"
  let ?d = "db\<lparr>wd_streams := [\<lparr> is_scope = ex_order, is_next = n + 1 \<rparr>]\<rparr>"
  have e: "wh_status ?r = ''received''" "wh_id ?r = fst ids" by (simp_all add: ex_row_of_def)
  have s: "wd_streams (ensure_stream ex_order db) = [\<lparr> is_scope = ex_order, is_next = n \<rparr>]" "1 \<le> n"
      "(ensure_stream ex_order db)\<lparr>wd_streams := x\<rparr> = db\<lparr>wd_streams := x\<rparr>" for x
    using assms(4) by (auto simp: ensure_stream_def tbl_find_def)
  have t: "tbl_find is_scope ex_order [\<lparr> is_scope = ex_order, is_next = n \<rparr>] = Some \<lparr> is_scope = ex_order, is_next = n \<rparr>"
    "tbl_upd is_scope ex_order (\<lambda>x. x\<lparr>is_next := n + 1\<rparr>) [\<lparr> is_scope = ex_order, is_next = n \<rparr>] = [\<lparr> is_scope = ex_order, is_next = n + 1 \<rparr>]"
    by (simp_all add: tbl_find_def tbl_upd_def)
  have fresh: "wh_scope (new_webhook a b p) = None" "wh_sequence (new_webhook a b p) = None" for a b p
    by (simp_all add: new_webhook_def)
  have "take_ticket ex_order (new_webhook (fst ids) (ex_external i) ?p) (ensure_stream ex_order db) = Inr (?d, ?r)"
    using s(2) t by (simp add: take_ticket_def s(1,3) new_webhook_def ex_row_of_def)
  then have "allocate_arrival ex_text ''production'' ?p (new_webhook (fst ids) (ex_external i) ?p) db = Inr (?d, ?r)"
    by (simp add: allocate_arrival_def ex_pay_reads fresh)
  then have "insert_webhook ex_text ''production'' (fst ids) (ex_external i) ?p db = Inr (?d\<lparr>wd_webhooks := wd_webhooks db @ [?r]\<rparr>, ?r)"
    using assms(2) by (simp add: insert_webhook_def)
  moreover have "\<exists>c. enqueue_event (snd ids) 0 (ex_external i) ?r (?d\<lparr>wd_webhooks := wd_webhooks db @ [?r]\<rparr>) = Inr (ex_claimed ids i n ?p db, c)"
  proof -
    let ?x = "?d\<lparr>wd_webhooks := wd_webhooks db @ [?r]\<rparr>"
    have "JobQueue.find_by_key ?x ''default'' (event_job_key (ex_external i)) = None" "get_job ?x (snd ids) = None" "get_outbox ?x (snd ids) = None"
      using assms(5-7) by (simp_all add: JobQueue.find_by_key_def get_job_def get_outbox_def)
    from ex_wa_enqueue[OF this e(1), of 0] show ?thesis by (simp only: e(2) ex_claimed_def) simp
  qed
  moreover have "legacy_claim ?p (find_webhook db i) = Inr None" using assms(3) by (simp add: legacy_claim_def)
  ultimately show ?thesis using assms(1-3) by (auto simp: claim_event_def ex_ids_of)
qed

text \<open>The claim of both messages on an empty database.\<close>

definition ex_two :: "(string \<times> pyval) list list" where
  "ex_two = [ex_msg ''a'' ''hi'', ex_msg ''bb'' ''hi'']"

definition ex_one_in :: wa_db where
  "ex_one_in = ex_claimed (ex_ids 1) ''a'' 1 (ex_pay ex_two (ex_msg ''a'' ''hi'')) (ex_wa [])"

definition ex_both_in :: wa_db where
  "ex_both_in = ex_claimed (ex_ids 2) ''bb'' 2 (ex_pay ex_two (ex_msg ''bb'' ''hi'')) ex_one_in"

lemma ex_wa_simps [simp]: "wd_webhooks (ex_wa es) = es" "wd_streams (ex_wa es) = []" "job_rows (ex_wa es) = []" "outbox_rows (ex_wa es) = []"
  by (simp_all add: ex_wa_def ex_shop_def agent_db.defs)

lemma ex_differ: "ex_external ''a'' \<noteq> ex_external ''bb''" "ex_external ''a'' \<noteq> ''bb''"
proof -
  have "length (utf8 ''a'') = 1" "length (utf8 ''bb'') = 2" by (simp_all add: utf8_cons utf8_char_def code_def) (simp_all add: utf8_def to_utext_def)
  then show "ex_external ''a'' \<noteq> ex_external ''bb''" by (intro ex_external_inj) simp
  show "ex_external ''a'' \<noteq> ''bb''" by (simp add: ex_external_def)
qed

lemma ex_claim_two: "\<exists>cs. claim_webhook_events ex_text ''production'' raw 0 (\<lambda>n. ex_ids (Suc n)) (ex_body ex_two) (ex_wa []) = (ex_both_in, Inr cs)"
proof -
  have f: "find_webhook (ex_wa []) x = None" for x by (simp add: find_webhook_def)
  have g: "find_webhook ex_one_in (ex_external ''bb'') = None" "find_webhook ex_one_in ''bb'' = None"
    using ex_differ by (auto simp: find_webhook_def ex_one_in_def ex_claimed_def ex_row_of_def)
  have k: "JobQueue.find_by_key (ex_wa []) ''default'' x = None" for x by (simp add: JobQueue.find_by_key_def)
  have k2: "JobQueue.find_by_key ex_one_in ''default'' (event_job_key (ex_external ''bb'')) = None"
    using ex_differ by (auto simp: JobQueue.find_by_key_def ex_one_in_def ex_claimed_def new_job_def event_job_key_def)
  have j: "get_job (ex_wa []) x = None" "get_outbox (ex_wa []) x = None" for x by (simp_all add: tbl_find_def get_job_def get_outbox_def)
  have j2: "get_job ex_one_in (snd (ex_ids 2)) = None" "get_outbox ex_one_in (snd (ex_ids 2)) = None"
    by (simp_all add: get_job_def get_outbox_def tbl_find_def ex_one_in_def ex_claimed_def new_job_def new_outbox_def ex_ids_def numeral_2_eq_2)
  obtain c1 where 1: "claim_event ex_text ''production'' raw 0 (ex_ids 1) (ex_pay ex_two (ex_msg ''a'' ''hi''), fallback_key 0 0 ''messages'' 0) (ex_wa []) (ex_wa [])
      = Inr (ex_one_in, c1)"
    using ex_wa_claim[of "''a''" "ex_wa []" 1 "ex_ids 1" raw ex_two "''hi''" "fallback_key 0 0 ''messages'' 0"] f k j
    unfolding ex_one_in_def by auto
  have s: "wd_streams ex_one_in = [\<lparr> is_scope = ex_order, is_next = 2 \<rparr>]" by (simp add: ex_one_in_def ex_claimed_def)
  obtain c2 where 2: "claim_event ex_text ''production'' raw 0 (ex_ids 2) (ex_pay ex_two (ex_msg ''bb'' ''hi''), fallback_key 0 0 ''messages'' 1) ex_one_in ex_one_in
      = Inr (ex_both_in, c2)"
    using ex_wa_claim[of "''bb''" ex_one_in 2 "ex_ids 2" raw ex_two "''hi''" "fallback_key 0 0 ''messages'' 1"] g k2 j2 s
    unfolding ex_both_in_def by auto
  have "split_inbox_events (ex_body ex_two) = [(ex_pay ex_two (ex_msg ''a'' ''hi''), fallback_key 0 0 ''messages'' 0),
      (ex_pay ex_two (ex_msg ''bb'' ''hi''), fallback_key 0 0 ''messages'' 1)]"
    unfolding ex_two_def by (rule ex_split)
  then show ?thesis using 1 2 by (simp add: claim_webhook_events_def numeral_2_eq_2)
qed


text \<open>The first message is admitted and its turn ends; then the second is admitted.\<close>

definition ex_first_done :: wa_db where
  "ex_first_done = webhook_done ''processed'' (ex_row_of (fst (ex_ids 1)) ''a'' 1 []) ex_both_in"

lemma ex_both_rows:
  "wd_webhooks ex_both_in = [ex_row_of (fst (ex_ids 1)) ''a'' 1 (ex_pay ex_two (ex_msg ''a'' ''hi'')),
     ex_row_of (fst (ex_ids 2)) ''bb'' 2 (ex_pay ex_two (ex_msg ''bb'' ''hi''))]"
  "wd_streams ex_both_in = [\<lparr> is_scope = ex_order, is_next = 3 \<rparr>]"
  "fst (ex_ids 1) \<noteq> fst (ex_ids 2)"
  by (simp_all add: ex_both_in_def ex_one_in_def ex_claimed_def ex_ids_def numeral_2_eq_2)

lemma ex_order_nonempty: "ex_order \<noteq> []"
  by (simp add: ex_order_def ex_sha utf8_append utf8_cons utf8_char_def)

lemma ex_admit:
  assumes "tbl_find wh_id e (wd_webhooks d) = Some (ex_row_of e i n (ex_pay ms (ex_msg i s)))" "1 \<le> n"
    and "wd_streams d = [\<lparr> is_scope = ex_order, is_next = k \<rparr>]" "n < k" "\<not> unresolved_before ex_order n d"
  shows "admit_event st d e = Inr (Some (ex_row_of e i n (ex_pay ms (ex_msg i s)), PDict (ex_msg i s), PNone))"
proof -
  have "require_head d (ex_row_of e i n (ex_pay ms (ex_msg i s))) = Inr ()"
    using assms by (simp add: require_head_def ex_row_of_def tbl_find_def ex_order_nonempty)
  moreover have "truthy (PDict (ex_msg i s))" by (simp add: ex_msg_def)
  ultimately show ?thesis using assms(1)
    by (simp add: admit_event_def ex_pay_reads) (simp add: ex_row_of_def terminal_receipts_def ex_pay_reads)
qed

theorem messages_processed_in_order_witness:
  "\<exists>(ops :: unit inbound_ops) e f. ordered_step ex_text ops (ex_wa_settings ''mock'') (ex_first_done, {fst (ex_ids 1)}) (ex_first_done, {fst (ex_ids 1), fst (ex_ids 2)})
     \<and> e \<in> set (wd_webhooks ex_first_done) \<and> f \<in> set (wd_webhooks ex_first_done) \<and> ticket e = Some (ex_order, 2) \<and> ticket f = Some (ex_order, 1) \<and> resolved f"
proof -
  obtain ops :: "unit inbound_ops" where True by simp
  let ?step = "ordered_step ex_text ops (ex_wa_settings ''mock'')"
  let ?e1 = "fst (ex_ids 1)" and ?e2 = "fst (ex_ids 2)"
  obtain cs where c: "claim_webhook_events ex_text ''production'' [] 0 (\<lambda>n. ex_ids (Suc n)) (ex_body ex_two) (ex_wa []) = (ex_both_in, Inr cs)"
    using ex_claim_two by blast
  have "reach no_events ?step (ex_wa [], {})" by (rule reach_init) (simp add: no_events_def)
  moreover have "?step (ex_wa [], {}) (ex_both_in, {})"
    by (rule ordered_step.claim[OF _ c]) (simp add: fresh_events_def ex_ids_def inj_def)
  moreover have "?step (ex_both_in, {}) (ex_both_in, {?e1})"
    by (rule ordered_step.admit[OF ex_admit[of ?e1 ex_both_in "''a''" 1 ex_two "''hi''" 3]]) (use ex_both_rows in \<open>simp_all add: tbl_find_def ex_row_of_def unresolved_before_def\<close>)
  moreover have "?step (ex_both_in, {?e1}) (ex_first_done, {?e1})"
    unfolding ex_first_done_def by (rule ordered_step.finish) (simp add: ex_row_of_def)
  moreover have rows: "wd_webhooks ex_first_done = [(ex_row_of ?e1 ''a'' 1 (ex_pay ex_two (ex_msg ''a'' ''hi'')))\<lparr>wh_status := ''processed''\<rparr>,
      ex_row_of ?e2 ''bb'' 2 (ex_pay ex_two (ex_msg ''bb'' ''hi''))]" "wd_streams ex_first_done = [\<lparr> is_scope = ex_order, is_next = 3 \<rparr>]"
    using ex_both_rows by (simp_all add: ex_first_done_def webhook_done_def set_webhook_def tbl_upd_def ex_row_of_def)
  moreover have s: "?step (ex_first_done, {?e1}) (ex_first_done, insert ?e2 {?e1})"
    by (rule ordered_step.admit[OF ex_admit[of ?e2 ex_first_done "''bb''" 2 ex_two "''hi''" 3]])
      (use ex_both_rows(3) in \<open>simp_all add: rows tbl_find_def ex_row_of_def unresolved_before_def terminal_receipts_def\<close>)
  ultimately have r: "reach no_events ?step (ex_first_done, insert ?e2 {?e1})" by (meson reach_step)
  let ?f = "(ex_row_of ?e1 ''a'' 1 (ex_pay ex_two (ex_msg ''a'' ''hi'')))\<lparr>wh_status := ''processed''\<rparr>"
  let ?e = "ex_row_of ?e2 ''bb'' 2 (ex_pay ex_two (ex_msg ''bb'' ''hi''))"
  have t: "?e \<in> set (wd_webhooks ex_first_done)" "?f \<in> set (wd_webhooks ex_first_done)" "ticket ?e = Some (ex_order, 2)" "ticket ?f = Some (ex_order, 1)"
    by (simp_all add: rows ticket_def ex_row_of_def)
  have "resolved ?f" by (rule messages_processed_in_order[OF r t]) (simp_all add: ex_row_of_def)
  with s t show ?thesis by (intro exI[of _ ops] exI[of _ ?e] exI[of _ ?f]) (simp add: insert_commute)
qed

section \<open>A call event\<close>

definition ex_webhook_ops :: webhook_ops where
  "ex_webhook_ops = \<lparr> wo_hmac = (\<lambda>_ _. []), wo_json = (\<lambda>_. Some (PDict (ex_body ex_two))), wo_dump = (\<lambda>_. []) \<rparr>"

theorem calls_never_stored_witness:
  "\<exists>e \<in> set (wd_webhooks (fst (receive_webhook ex_webhook_ops ex_text ''meta'' [] ''production'' 0 (\<lambda>n. ex_ids (Suc n)) False None
     (Some ''sha256='') [] (ex_wa [])))). call_free (wh_payload e)"
proof -
  obtain cs where c: "claim_webhook_events ex_text ''production'' [] 0 (\<lambda>n. ex_ids (Suc n)) (ex_body ex_two) (ex_wa []) = (ex_both_in, Inr cs)"
    using ex_claim_two by blast
  have v: "valid_signature ex_webhook_ops [] (Some ''sha256='') [] = Some True"
    by (simp add: valid_signature_def starts_with_def ascii_text_def code_def ex_webhook_ops_def)
  have sp: "split_call_changes (ex_body ex_two) = Some (False, ex_body ex_two)"
    by (simp add: split_call_changes_def ex_body_def ex_entry_def ex_change_def ex_value_def py_iter_def dict_or_def strip_entry_def
        strip_change_def dict_get_def contains_calls_def)
  have "receive_webhook ex_webhook_ops ex_text ''meta'' [] ''production'' 0 (\<lambda>n. ex_ids (Suc n)) False None (Some ''sha256='') [] (ex_wa [])
    = (ex_both_in, EventsClaimed cs)"
    by (simp add: receive_webhook_def webhook_too_large_def declared_size_def v sp c ex_webhook_ops_def[THEN arg_cong, of wo_json])
  moreover from calls_never_stored[OF this, of "hd (wd_webhooks ex_both_in)"] have "call_free (wh_payload (hd (wd_webhooks ex_both_in)))"
    by (simp add: ex_both_rows)
  ultimately show ?thesis by (intro bexI[of _ "hd (wd_webhooks ex_both_in)"]) (simp_all add: ex_both_rows)
qed

section \<open>Silence and the lost notice\<close>

definition ex_person :: "bool \<Rightarrow> phone_identity" where
  "ex_person out_flag = \<lparr> ph_id = ''i'', ph_tenant_id = ''t'', ph_user_id = ''u'', ph_phone = ''+7'', ph_wa_id = None,
     ph_status = ''approved'', ph_opt_out = out_flag \<rparr>"

definition ex_inbound_ops :: "unit inbound_ops" where
  "ex_inbound_ops = \<lparr> ib_delivery = ex_dops, ib_actions = undefined, ib_hash = undefined, ib_redis = undefined, ib_rate = undefined \<rparr>"

definition ex_input :: inbound_input where
  "ex_input = \<lparr> ii_row = ''n'', ii_now = 0, ii_attempt = ex_attempt, ii_link = undefined, ii_limit_at = 0, ii_decide_at = (0, 0, 0, 0) \<rparr>"

definition ex_inbound :: "bool \<Rightarrow> webhook_event list \<Rightarrow> (wa_db, unit) inbound_world" where
  "ex_inbound out_flag es = \<lparr> iw_world = ex_world ((ex_wa es)\<lparr>ag_phones := [ex_person out_flag],
     wd_streams := [\<lparr> is_scope = ex_order, is_next = 2 \<rparr>]\<rparr>), iw_redis = (), iw_effects = [] \<rparr>"

lemma ex_inbound_simps:
  "ib_delivery ex_inbound_ops = ex_dops" "dv_text ex_dops = ex_text" "ii_row ex_input = ''n''" "ii_attempt ex_input = ex_attempt" "ii_now ex_input = 0"
  "iw_effects (ex_inbound f es) = []" "ww_net (iw_world (ex_inbound f es)) = []" "ww_fence (iw_world (ex_inbound f es)) = None"
  "wd_webhooks (iw_db (ex_inbound f es)) = es" "ag_phones (iw_db (ex_inbound f es)) = [ex_person f]"
  by (simp_all add: ex_inbound_ops_def ex_dops_def ex_input_def ex_inbound_def ex_world_def)

lemma ex_reads:
  "external_id ex_inbound_ops (ex_msg i s) = i" "sender_phone ex_text (ex_msg i s) = ''+7''" "message_text ex_text (ex_msg i s) = strip s"
  by (simp_all add: external_id_def ex_inbound_simps ex_msg_def dict_or_def to_text_def sender_phone_def lstrip_char_def message_text_def
      text_field_def dict_get_def)

lemma ex_mock: "\<not> unconfigured (ex_wa_settings ''mock'') ev" "\<not> unconfigured (ex_wa_settings ''disabled'') ev"
  "show_typing d (ex_wa_settings ''mock'') s e w = w" "show_typing d (ex_wa_settings ''disabled'') s e w = w"
  by (simp_all add: unconfigured_def ex_wa_settings_def show_typing_def split: option.splits)

theorem silent_senders_witness:
  "ww_net (iw_world (fst (process_message ex_inbound_ops (ex_wa_settings ''mock'') ex_input (ex_event []) (ex_msg ''a'' ''hi'') (ex_inbound True [])))) = []"
proof -
  obtain w' r where p: "process_message ex_inbound_ops (ex_wa_settings ''mock'') ex_input (ex_event []) (ex_msg ''a'' ''hi'') (ex_inbound True []) = (w', r)"
    by (rule prod.exhaust)
  have t: "strip ''hi'' = ''hi''" "upper ''hi'' \<noteq> ''START''" by code_simp+
  have f: "find_identity (iw_db (ex_inbound True [])) ''+7'' = Some (ex_person True)"
    by (simp add: find_identity_def ex_inbound_simps) (simp add: ex_person_def)
  have "ww_net (iw_world w') = ww_net (iw_world (ex_inbound True []))"
    using silent_senders[OF p, of "ex_person True"] f t
    by (simp add: ex_reads ex_inbound_simps ex_mock) (simp add: ex_person_def)
  then show ?thesis using p by (simp add: ex_inbound_simps)
qed

text \<open>With the provider switched off no delivery succeeds.\<close>

lemma disabled_fails:
  assumes "ms_backend st = ''disabled''" "deliver_check ops st c (ww_db w) = Proceed"
  shows "\<exists>w' e. deliver_once ops st a c w = (w', Inl e)"
proof -
  have t: "transmit ops st c h = (h, Escaped (DeliveryPermanent ''WhatsApp delivery is disabled''))" for h
    using assms(1) by (simp add: transmit_def)
  obtain reply d1 com where p: "deliver_prepare ops st c a (ww_db w) = (reply, d1, com)" by (rule prod_cases3)
  obtain f1 ok where l: "assert_current_job_lease d1 (at_claim a) (ww_fence w) = (f1, ok)" by (rule prod.exhaust)
  let ?d = "mark_sending (delivery_key ops c) d1"
  obtain f2 h out where s: "deliver_submit ops st c (at_submit a) ?d f1 (ww_net w) = (f2, h, out)" by (rule prod_cases3)
  have "\<exists>e. out = Escaped e"
    using s by (auto simp: deliver_submit_def t split: prod.splits sum.splits if_splits)
  then obtain e where "deliver_settle ops st c reply out ?d = (?d, Inl e)" by (auto simp: deliver_settle_def)
  with assms(2) p l s show ?thesis by (cases ok) (simp_all add: deliver_once_def Let_def)
qed

definition ex_reset_row :: webhook_event where
  "ex_reset_row = ex_row_of ''e'' ''a'' 1 (ex_pay [ex_msg ''a'' ''/reset''] (ex_msg ''a'' ''/reset''))"

definition ex_reset :: "(wa_db, unit) inbound_world" where
  "ex_reset = ex_inbound False [ex_reset_row]"

lemma ex_reset_admit: "admit_event st (iw_db ex_reset) ''e'' = Inr (Some (ex_reset_row, PDict (ex_msg ''a'' ''/reset''), PNone))"
  unfolding ex_reset_row_def
  by (rule ex_admit[of _ _ _ 1 _ _ 2])
    (simp_all add: ex_reset_def ex_inbound_simps ex_reset_row_def tbl_find_def ex_row_of_def unresolved_before_def,
     simp add: ex_inbound_def ex_world_def)

lemma ex_texts: "strip ''/reset'' = ''/reset''" "upper ''/reset'' \<noteq> ''START''" "upper ''/reset'' \<noteq> ''STOP''" "lower ''/reset'' = ''/reset''"
  by code_simp+

lemma ex_authorized:
  assumes "ag_members d = ag_members ex_shop" "ag_users d = ag_users ex_shop" "ag_tenants d = ag_tenants ex_shop"
  shows "sender_authorized d (ex_person f)"
  using assms by (simp add: sender_authorized_def ex_person_def active_member_def active_user_def active_tenant_def ex_shop_def)

lemma ex_key_neq: "idempotency_key ex_dops e ''inbound'' \<noteq> idempotency_key ex_dops e ''conversation-reset''"
  by (simp add: idempotency_key_def ex_inbound_simps ex_sha utf8_append utf8_cons utf8_char_def code_def)

lemma ex_reset_fails:
  "\<exists>w' e. process_inbox_event ex_inbound_ops (ex_wa_settings ''disabled'') ex_input ''e'' ex_reset = (w', Inl e)
     \<and> wd_webhooks (iw_db w') \<noteq> wd_webhooks (iw_db ex_reset)"
proof -
  let ?st = "ex_wa_settings ''disabled''" and ?m = "ex_msg ''a'' ''/reset''" and ?p = "ex_person False"
  let ?row = "inbound_row ex_dops ''n'' 0 ex_reset_row ?m (delivery_scope ex_dops ?st None) (Some ?p)"
  let ?d = "(iw_db ex_reset)\<lparr>ag_whatsapp := [?row]\<rparr>"
  let ?w = "with_db (\<lambda>_. ?d) ex_reset"
  let ?x = "known_context ex_inbound_ops ex_reset_row ?m ''a'' None ''n'' ?p"
  have base: "ag_whatsapp (iw_db ex_reset) = []" "ag_members (iw_db ex_reset) = ag_members ex_shop"
    "ag_users (iw_db ex_reset) = ag_users ex_shop" "ag_tenants (iw_db ex_reset) = ag_tenants ex_shop"
    "ag_conversations (iw_db ex_reset) = [ex_conv]" "ww_fence (iw_world ex_reset) = None"
    by (simp_all add: ex_reset_def ex_inbound_def ex_world_def ex_wa_def ex_shop_def agent_db.defs)
  have snd: "inbound_sender ?st ex_reset_row = None" by (simp add: inbound_sender_def ex_wa_settings_def)
  have idy: "find_identity (iw_db ex_reset) ''+7'' = Some ?p"
    by (simp add: find_identity_def ex_reset_def ex_inbound_simps) (simp add: ex_person_def)
  have ens: "ensure_inbound ex_dops ''n'' 0 ex_reset_row ?m ''a'' (delivery_scope ex_dops ?st None) (Some ?p) (iw_db ex_reset) = (''n'', ?d)"
    by (simp add: ensure_inbound_def find_inbound_def base)
  have ns: "\<not> is_stop ex_inbound_ops ?m ?p"
    using ex_texts by (simp add: is_stop_def ex_inbound_simps ex_reads)
  have au: "sender_authorized (iw_db ?w) ?p" by (rule ex_authorized) (simp_all add: base)
  have ac: "active_conversation ?st ?d t u s = None" for t u s
    by (simp add: active_conversation_def base) (simp add: ex_conv_def ex_wa_settings_def)
  have off: "ms_backend ?st = ''disabled''" by (simp add: ex_wa_settings_def)
  let ?c = "branch_message ?x ''conversation-reset'' ''Started a fresh conversation. What would you like to work on?'' False"
  let ?w1 = "with_db (\<lambda>db. close_event ''n'' ''processed'' ex_reset_row db) ?w"
  have close: "wd_webhooks (iw_db ?w1) = [ex_reset_row\<lparr>wh_status := ''processed''\<rparr>]"
    "ag_whatsapp (iw_db ?w1) = [?row\<lparr>wm_status := ''processed''\<rparr>]"
    by (simp_all add: close_event_def webhook_done_def set_webhook_def set_inbound_def tbl_upd_def ex_reset_def ex_inbound_simps)
      (simp add: inbound_row_def Let_def)
  have "deliver_check ex_dops ?st ?c (iw_db ?w1) = Proceed"
    using ex_key_neq[of "''e''"] unfolding deliver_check_def find_out_def close
    by (simp add: delivery_key_def branch_message_def known_context_def inbound_row_def ex_reset_row_def ex_row_of_def Let_def)
  then obtain w2 e where dl: "deliver_once ex_dops ?st ex_attempt ?c (iw_world ?w1) = (w2, Inl e)"
    using disabled_fails[of ?st ex_dops ?c "iw_world ?w1" ex_attempt] off by blast
  let ?w2 = "?w1\<lparr>iw_world := w2\<rparr>"
  have sy: "say ex_dops ?st ex_attempt ?c ?w1 = (?w2, Inl e)" by (simp add: say_def dl)
  have ww: "?w\<lparr>iw_world := (iw_world ?w)\<lparr>ww_db := ?d, ww_fence := None\<rparr>\<rparr> = ?w"
    by (simp add: with_db_def ex_reset_def ex_inbound_def ex_world_def)
  have po: "ph_opt_out ?p = False" by (simp add: ex_person_def)
  have "reset_branch ex_dops ?st ex_attempt ?x None ?w = (?w2, Inl (InDelivery e))"
    using sy unfolding reset_branch_def Let_def by (simp add: known_context_def)
  then have "authorized_branch ex_inbound_ops ?st ex_input ?x ?m ''/reset'' False ?w = (?w2, Inl (InDelivery e))"
    using authorized_reset[of "''/reset''" ex_inbound_ops ?st ex_input ?x ?m ?w] ex_texts by (simp add: ac ex_inbound_simps)
  then have "route_sender ex_inbound_ops ?st ex_input ex_reset_row ?m ''a'' None ''n'' (Some ?p) ?w = (?w2, Inl (InDelivery e))"
    using route_known[of ex_inbound_ops ?m ?p ?w ?st ex_input ex_reset_row "''a''" None "''n''", OF ns au] ex_texts
    by (simp add: bind_inbound_job_tenant_def base ex_inbound_simps ex_reads po ww[simplified])
  then have "process_message ex_inbound_ops ?st ex_input ex_reset_row ?m ex_reset = (?w2, Inl (InDelivery e))"
    using process_known[of ex_inbound_ops ?m ?st ex_reset_row ex_input ex_reset] ens idy
    by (simp add: ex_reads ex_mock snd ex_inbound_simps)
  then have "process_inbox_event ex_inbound_ops ?st ex_input ''e'' ex_reset = (?w2, Inl (InDelivery e))"
    using ex_reset_admit[of ?st] by (simp add: process_inbox_event_def process_claimed_event_def) (simp add: ex_msg_def)
  moreover have "wd_webhooks (iw_db ?w2) = [ex_reset_row\<lparr>wh_status := ''processed''\<rparr>]"
    using say_frame[OF sy] close(1) by (simp add: same_ingress_def)
  moreover have "wd_webhooks (iw_db ex_reset) = [ex_reset_row]" by (simp add: ex_reset_def ex_inbound_simps)
  moreover have "ex_reset_row\<lparr>wh_status := ''processed''\<rparr> \<noteq> ex_reset_row" by (simp add: ex_reset_row_def ex_row_of_def)
  ultimately show ?thesis by (intro exI[of _ ?w2] exI[of _ "InDelivery e"]) auto
qed


end
