(* ===== verification/Commerce.thy ===== *)
theory Commerce
  imports AgentModel Scheduler "HOL-Library.AList"
begin

text \<open>
  Synchronisation of a store's orders and figures (\<^verbatim>\<open>app/services/bumpa.py\<close>, \<^verbatim>\<open>app/services/bumpa_connections.py\<close>
  and the job handler of \<^verbatim>\<open>app/jobs/handlers.py\<close>): the boundary a pull belongs to, the two generation fences, the
  classification of a pull, its publication and the ways it can fail. The provider's client, the redaction of
  payloads, the parsing of amounts and the zones of the stores are parameters. A pull's log lines and analytics rows
  are left out.
\<close>

section \<open>What a provider returns\<close>

record provider_dataset =
  ds_resource :: string
  ds_dataset :: string
  ds_availability :: string
  ds_payload :: "(string \<times> pyval) list"
  ds_value :: "rat option"
  ds_title :: "string option"
  ds_error :: "string option"
  ds_canonical :: "(string \<times> pyval) list"
  ds_currency :: "string option"
  ds_response_from :: "time option"
  ds_response_to :: "time option"

record provider_order =
  po_id :: string
  po_number :: string
  po_status :: string
  po_payment_status :: string
  po_currency :: "string option"
  po_total :: "rat option"
  po_date :: "time option"
  po_payload :: "(string \<times> pyval) list"

record provider_response =
  rp_resource :: string
  rp_dataset :: "string option"
  rp_status :: "int option"
  rp_payload :: "(string \<times> pyval) list"
  rp_availability :: string
  rp_error :: "string option"
  rp_failure_kind :: "string option"

record live_result =
  lr_datasets :: "provider_dataset list"
  lr_orders :: "provider_order list"
  lr_responses :: "provider_response list"
  lr_rate_limit :: "int option"
  lr_rate_remaining :: "int option"
  lr_orders_availability :: string
  lr_orders_error :: "string option"

text \<open>\<open>ExtractedSync\<close>: the snapshot of the local provider, or a live result, which is its own snapshot.\<close>

datatype extracted_sync = LocalSnapshot "provider_dataset list" "provider_order list" | LivePull live_result

fun snapshot_datasets :: "extracted_sync \<Rightarrow> provider_dataset list" where
  "snapshot_datasets (LocalSnapshot ds _) = ds"
| "snapshot_datasets (LivePull r) = lr_datasets r"

fun snapshot_orders :: "extracted_sync \<Rightarrow> provider_order list" where
  "snapshot_orders (LocalSnapshot _ os) = os"
| "snapshot_orders (LivePull r) = lr_orders r"

fun live_of :: "extracted_sync \<Rightarrow> live_result option" where
  "live_of (LocalSnapshot _ _) = None"
| "live_of (LivePull r) = Some r"

section \<open>The tables\<close>

record commerce_run = sync_run +
  cr_rate_limit :: "int option"
  cr_rate_remaining :: "int option"
  cr_results :: "(string \<times> pyval) list"

record metric_snapshot =
  ms_tenant_id :: ident
  ms_run_id :: ident
  ms_key :: string
  ms_title :: "string option"
  ms_value :: "rat option"
  ms_canonical :: "(string \<times> pyval) list"
  ms_currency :: "string option"
  ms_requested_from :: int
  ms_requested_to :: int
  ms_response_from :: "time option"
  ms_response_to :: "time option"
  ms_availability :: string

record raw_response =
  rw_tenant_id :: ident
  rw_run_id :: ident
  rw_resource :: string
  rw_dataset :: "string option"
  rw_http_status :: "int option"
  rw_availability :: string
  rw_failure_kind :: "string option"
  rw_error :: "string option"
  rw_payload :: "(string \<times> pyval) list"

text \<open>The columns of an order that a publication writes, but for the payload.\<close>

record order_values =
  ov_number :: string
  ov_status :: string
  ov_payment_status :: string
  ov_currency :: "string option"
  ov_total :: "rat option"
  ov_date :: "time option"
  ov_shipping_status :: "string option"
  ov_channel :: "string option"
  ov_origin :: "string option"
  ov_subtotal :: "rat option"
  ov_tax :: "rat option"
  ov_shipping :: "rat option"
  ov_paid :: "rat option"
  ov_due :: "rat option"
  ov_created :: "time option"
  ov_updated :: "time option"

record order_row =
  od_id :: ident
  od_tenant_id :: ident
  od_order_id :: string
  od_values :: order_values
  od_raw :: "(string \<times> pyval) list"

record order_item =
  oi_tenant_id :: ident
  oi_order_row :: ident
  oi_item_id :: "string option"
  oi_product_id :: "string option"
  oi_name :: "string option"
  oi_unit :: "string option"
  oi_quantity :: "rat option"
  oi_unit_price :: "rat option"
  oi_total :: "rat option"
  oi_raw :: "(string \<times> pyval) list"

record commerce_db =
  cm_connections :: "bumpa_connection list"
  cm_runs :: "commerce_run list"
  cm_metrics :: "metric_snapshot list"
  cm_raws :: "raw_response list"
  cm_orders :: "order_row list"
  cm_items :: "order_item list"

text \<open>
  \<open>cx_midnight\<close> is the instant a day begins in a zone, \<open>None\<close> for a zone that does not exist; \<open>cx_order_row\<close> gives
  the fresh identifier of the row of an order seen for the first time; \<open>cx_money v c\<close> is
  \<^verbatim>\<open>parse_money(v, currency_code=c)\<close>, \<open>cx_instant\<close> the instant of an ISO text.
\<close>

record commerce_ops =
  cx_midnight :: "string \<Rightarrow> (int \<Rightarrow> time) option"
  cx_redact :: "(string \<times> pyval) list \<Rightarrow> (string \<times> pyval) list"
  cx_redact_response :: "string \<Rightarrow> string option \<Rightarrow> (string \<times> pyval) list \<Rightarrow> (string \<times> pyval) list"
  cx_money :: "pyval \<Rightarrow> string \<Rightarrow> rat option"
  cx_str :: "pyval \<Rightarrow> string"
  cx_instant :: "string \<Rightarrow> time option"
  cx_order_row :: "string \<Rightarrow> ident"

section \<open>The boundary of a connection and its fences\<close>

record boundary =
  bd_id :: ident
  bd_tenant_id :: ident
  bd_status :: string
  bd_provider :: string
  bd_encrypted_api_key :: string
  bd_scope_type :: scope_type
  bd_scope_id :: string
  bd_store_timezone :: string
  bd_store_currency :: string
  bd_revision :: int

definition capture_boundary :: "bumpa_connection \<Rightarrow> boundary" where
  "capture_boundary c = \<lparr> bd_id = bc_id c, bd_tenant_id = bc_tenant_id c, bd_status = bc_status c,
     bd_provider = bc_provider c, bd_encrypted_api_key = bc_encrypted_api_key c, bd_scope_type = bc_scope_type c,
     bd_scope_id = bc_scope_id c, bd_store_timezone = bc_store_timezone c, bd_store_currency = bc_store_currency c,
     bd_revision = bc_boundary_revision c \<rparr>"

text \<open>Answers of the HTTP layer: the status, the detail, and whether the cause is a provider's error that no retry mends.\<close>

type_synonym http_error = "int \<times> string \<times> bool"

definition boundary_changed :: http_error where
  "boundary_changed = (409, ''Bumpa connection changed during sync'', False)"

definition lock_matching_connection :: "boundary \<Rightarrow> commerce_db \<Rightarrow> http_error + bumpa_connection" where
  "lock_matching_connection b db = (case tbl_find bc_id (bd_id b) (cm_connections db) of
      None \<Rightarrow> Inl boundary_changed
    | Some c \<Rightarrow> if capture_boundary c \<noteq> b then Inl boundary_changed else Inr c)"

text \<open>The condition of both updates: every column of the boundary.\<close>

definition at_boundary :: "boundary \<Rightarrow> bumpa_connection \<Rightarrow> bool" where
  "at_boundary b c \<longleftrightarrow> bc_id c = bd_id b \<and> bc_tenant_id c = bd_tenant_id b \<and> bc_status c = bd_status b
     \<and> bc_provider c = bd_provider b \<and> bc_encrypted_api_key c = bd_encrypted_api_key b
     \<and> bc_scope_type c = bd_scope_type b \<and> bc_scope_id c = bd_scope_id b
     \<and> bc_store_timezone c = bd_store_timezone b \<and> bc_store_currency c = bd_store_currency b
     \<and> bc_boundary_revision c = bd_revision b"

definition max_generation :: int where
  "max_generation = 9223372036854775807"

definition set_connection :: "ident \<Rightarrow> (bumpa_connection \<Rightarrow> bumpa_connection) \<Rightarrow> commerce_db \<Rightarrow> commerce_db" where
  "set_connection k f db = db\<lparr>cm_connections := tbl_upd bc_id k f (cm_connections db)\<rparr>"

definition claim_sync_generation :: "boundary \<Rightarrow> commerce_db \<Rightarrow> http_error + (int \<times> commerce_db)" where
  "claim_sync_generation b db =
    (case find (\<lambda>c. at_boundary b c \<and> bc_sync_generation c < max_generation) (cm_connections db) of
       Some c \<Rightarrow> Inr (bc_sync_generation c + 1,
         set_connection (bc_id c) (\<lambda>c. c\<lparr>bc_sync_generation := bc_sync_generation c + 1\<rparr>) db)
     | None \<Rightarrow> and_then (lock_matching_connection b db) (\<lambda>c.
         if max_generation \<le> bc_sync_generation c then Inl (503, ''Bumpa sync generation is exhausted'', False)
         else Inl boundary_changed))"

text \<open>\<open>None\<close>: a newer pull was published.\<close>

definition claim_publication_generation :: "boundary \<Rightarrow> int \<Rightarrow> commerce_db \<Rightarrow> http_error + commerce_db option" where
  "claim_publication_generation b g db =
    (case find (\<lambda>c. at_boundary b c \<and> g \<le> bc_sync_generation c \<and> bc_published_generation c < g)
            (cm_connections db) of
       Some c \<Rightarrow> Inr (Some (set_connection (bc_id c) (\<lambda>c. c\<lparr>bc_published_generation := g\<rparr>) db))
     | None \<Rightarrow> and_then (lock_matching_connection b db) (\<lambda>c.
         if g \<le> bc_published_generation c then Inr None else Inl boundary_changed))"

section \<open>Classification of a pull\<close>

definition expected_datasets :: "string list" where
  "expected_datasets = [''sales.overview'', ''sales.total_sales'', ''sales.gross_profit'', ''sales.net_profit'',
     ''products.overview'', ''products.products_sold'', ''products.top_selling_products'',
     ''products.least_selling_products'', ''customers.overview'', ''customers.top_customers_order'']"

definition accepted_profit_error :: "string \<Rightarrow> string option" where
  "accepted_profit_error = map_of
     [(''sales.gross_profit'', ''Gross profit cannot be calculated for this store''),
      (''sales.net_profit'', ''Net profit cannot be calculated for this store'')]"

record sync_completion =
  sc_status :: sync_status
  sc_quality :: sync_quality
  sc_partial_reason :: "string option"
  sc_advances :: bool

definition dataset_key :: "provider_dataset \<Rightarrow> string" where
  "dataset_key d = ds_resource d @ ''.'' @ ds_dataset d"

definition has_typed_content :: "provider_dataset \<Rightarrow> bool" where
  "has_typed_content d \<longleftrightarrow> ds_availability d = ''available'' \<and> ds_error d = None
     \<and> (ds_value d \<noteq> None
        \<or> dict_get (ds_canonical d) ''schema_version'' = PInt 1 \<and> dict_get (ds_canonical d) ''kind'' = PStr ''ranking''
          \<and> (case dict_get (ds_canonical d) ''groups'' of PList _ \<Rightarrow> True | _ \<Rightarrow> False))"

text \<open>\<open>keyed_datasets\<close> is the dictionary the loop fills: a later dataset with the same key replaces the earlier.\<close>

definition keyed_datasets :: "provider_dataset list \<Rightarrow> (string \<times> provider_dataset) list" where
  "keyed_datasets ds = fold (\<lambda>d. AList.update (dataset_key d) d) ds []"

definition exact_datasets :: "provider_dataset list \<Rightarrow> bool" where
  "exact_datasets ds \<longleftrightarrow> distinct (map dataset_key ds) \<and> set (map fst (keyed_datasets ds)) = set expected_datasets"

definition optional_unavailable :: "provider_dataset list \<Rightarrow> string list" where
  "optional_unavailable ds = map fst (filter (\<lambda>(k, d). ds_availability d = ''unavailable''
     \<and> accepted_profit_error k \<noteq> None) (keyed_datasets ds))"

definition accepted_gap :: "provider_dataset list \<Rightarrow> string \<Rightarrow> provider_dataset \<Rightarrow> bool" where
  "accepted_gap ds k d \<longleftrightarrow> k \<in> set (optional_unavailable ds) \<and> ds_error d = accepted_profit_error k"

definition partial_reason_of :: "provider_dataset list \<Rightarrow> string \<Rightarrow> string option \<Rightarrow> string" where
  "partial_reason_of ds availability err =
    (if availability \<noteq> ''available'' \<or> err \<noteq> None then ''orders_unavailable''
     else if \<not> exact_datasets ds then ''incomplete_dataset_set''
     else if list_ex (\<lambda>(k, d). ds_availability d = ''error'') (keyed_datasets ds) then ''dataset_error''
     else ''dataset_unavailable'')"

definition classify_sync_completion :: "provider_dataset list \<Rightarrow> string \<Rightarrow> string option \<Rightarrow> sync_completion" where
  "classify_sync_completion ds availability err =
    (if exact_datasets ds \<and> availability = ''available'' \<and> err = None
        \<and> list_all (\<lambda>(k, d). has_typed_content d) (keyed_datasets ds)
     then \<lparr> sc_status = SSuccess, sc_quality = QComplete, sc_partial_reason = None, sc_advances = True \<rparr>
     else if exact_datasets ds \<and> availability = ''available'' \<and> err = None \<and> optional_unavailable ds \<noteq> []
        \<and> list_all (\<lambda>(k, d). has_typed_content d \<or> accepted_gap ds k d) (keyed_datasets ds)
     then \<lparr> sc_status = SPartial, sc_quality = QAcceptedPartial,
            sc_partial_reason = Some ''profit_not_calculable'', sc_advances = True \<rparr>
     else \<lparr> sc_status = SPartial, sc_quality = QDegraded,
            sc_partial_reason = Some (partial_reason_of ds availability err), sc_advances = False \<rparr>)"

section \<open>Publication of the orders\<close>

text \<open>
  \<open>ScopeInvalid\<close> is the \<^verbatim>\<open>ValueError\<close> that turns into unavailable orders; an unknown zone is another exception
  and fails the whole publication.
\<close>

datatype scope_failure = ScopeInvalid string | UnknownZone string

fun membership_ok :: "string \<Rightarrow> time \<Rightarrow> time \<Rightarrow> string list \<Rightarrow> provider_order list \<Rightarrow> bool" where
  "membership_ok currency starts ends seen [] = True"
| "membership_ok currency starts ends seen (p # ps) =
    (if po_id p = [] \<or> po_id p \<in> set seen \<or> po_currency p \<noteq> Some currency then False
     else case po_date p of
       None \<Rightarrow> False
     | Some t \<Rightarrow> starts \<le> t \<and> t < ends \<and> membership_ok currency starts ends (po_id p # seen) ps)"

definition scope_unavailable :: "ident \<Rightarrow> commerce_run \<Rightarrow> bumpa_connection \<Rightarrow> bool" where
  "scope_unavailable tenant r c \<longleftrightarrow> sr_tenant_id r \<noteq> tenant \<or> bc_tenant_id c \<noteq> tenant \<or> bc_status c \<noteq> ''active''
     \<or> sr_boundary_revision r \<noteq> bc_boundary_revision c
     \<or> (case sr_sync_generation r of None \<Rightarrow> True
          | Some g \<Rightarrow> g \<le> 0 \<or> g \<noteq> bc_published_generation c \<or> bc_sync_generation c < g)
     \<or> sr_status r \<notin> {SRunning, SSuccess, SPartial}
     \<or> (sr_status r \<noteq> SRunning \<and> (sr_orders_availability r \<noteq> Some ''available'' \<or> sr_orders_count r = None))
     \<or> sr_error r \<noteq> None \<or> sr_requested_to r < sr_requested_from r"

definition order_publication_scope ::
  "commerce_ops \<Rightarrow> ident \<Rightarrow> ident \<Rightarrow> provider_order list \<Rightarrow> commerce_db \<Rightarrow> scope_failure + (time \<times> time)" where
  "order_publication_scope X tenant rid ps db =
    (case tbl_find sr_id rid (cm_runs db) of
       None \<Rightarrow> Inl (ScopeInvalid ''Order publication boundary is unavailable'')
     | Some r \<Rightarrow> (case tbl_find bc_id (sr_connection_id r) (cm_connections db) of
         None \<Rightarrow> Inl (ScopeInvalid ''Order publication boundary is unavailable'')
       | Some c \<Rightarrow>
           if scope_unavailable tenant r c then Inl (ScopeInvalid ''Order publication boundary is unavailable'')
           else (case cx_midnight X (bc_store_timezone c) of
              None \<Rightarrow> Inl (UnknownZone (bc_store_timezone c))
            | Some midnight \<Rightarrow>
                (let starts = midnight (sr_requested_from r); ends = midnight (sr_requested_to r + 1) in
                 if membership_ok (bc_store_currency c) starts ends [] ps then Inr (starts, ends)
                 else Inl (ScopeInvalid ''Orders do not establish complete dated single-currency membership'')))))"

text \<open>Reading optional fields of a payload.\<close>

fun payload_text :: "commerce_ops \<Rightarrow> (string \<times> pyval) list \<Rightarrow> string list \<Rightarrow> string option" where
  "payload_text X d [] = None"
| "payload_text X d (k # ks) = (case dict_get d k of PNone \<Rightarrow> payload_text X d ks | v \<Rightarrow> Some (take 500 (cx_str X v)))"

definition bounded_text :: "string option \<Rightarrow> nat \<Rightarrow> string option" where
  "bounded_text v n = map_option (take n) v"

fun payload_money :: "commerce_ops \<Rightarrow> (string \<times> pyval) list \<Rightarrow> string list \<Rightarrow> string option \<Rightarrow> rat option" where
  "payload_money X d [] c = None"
| "payload_money X d (k # ks) c = (case map_of d k of
      Some v \<Rightarrow> cx_money X v (case c of Some cur \<Rightarrow> cur | None \<Rightarrow> ''UNSPECIFIED'')
    | None \<Rightarrow> payload_money X d ks c)"

definition source_instant :: "commerce_ops \<Rightarrow> (string \<times> pyval) list \<Rightarrow> string \<Rightarrow> time option" where
  "source_instant X d k = (case dict_get d k of PStr s \<Rightarrow> cx_instant X s | _ \<Rightarrow> None)"

definition order_values_of :: "commerce_ops \<Rightarrow> provider_order \<Rightarrow> order_values" where
  "order_values_of X p = (let d = po_payload p; c = po_currency p in
    \<lparr> ov_number = take 120 (po_number p), ov_status = take 80 (po_status p),
      ov_payment_status = take 80 (po_payment_status p), ov_currency = c, ov_total = po_total p, ov_date = po_date p,
      ov_shipping_status = bounded_text (payload_text X d [''shipping_status'']) 80,
      ov_channel = bounded_text (payload_text X d [''channel'', ''sales_channel'']) 80,
      ov_origin = bounded_text (payload_text X d [''origin'']) 120,
      ov_subtotal = payload_money X d [''subtotal_amount'', ''subtotal'', ''sub_total''] c,
      ov_tax = payload_money X d [''tax_amount'', ''tax''] c,
      ov_shipping = payload_money X d [''shipping_amount'', ''shipping_fee'', ''shipping_price''] c,
      ov_paid = payload_money X d [''amount_paid'', ''paid_amount''] c,
      ov_due = payload_money X d [''amount_due'', ''due_amount''] c,
      ov_created = source_instant X d ''created_at'', ov_updated = source_instant X d ''updated_at'' \<rparr>)"

text \<open>The stamp is set after redaction and replaces whatever the provider sent under its name.\<close>

definition stamp :: "ident \<Rightarrow> string \<Rightarrow> (string \<times> pyval) list \<Rightarrow> (string \<times> pyval) list" where
  "stamp rid state d = dict_set d ''_bumpa_publication'' (PDict [(''sync_run_id'', PStr rid), (''state'', PStr state)])"

definition item_product_id :: "commerce_ops \<Rightarrow> (string \<times> pyval) list \<Rightarrow> string option" where
  "item_product_id X d = (case payload_text X d [''product_id'', ''productId''] of
      Some t \<Rightarrow> bounded_text (Some t) 120
    | None \<Rightarrow> (case dict_get d ''product'' of
        PDict p \<Rightarrow> bounded_text (payload_text X p [''id'', ''product_id'']) 120 | _ \<Rightarrow> None))"

definition raw_items :: "(string \<times> pyval) list \<Rightarrow> pyval" where
  "raw_items d = (if truthy (dict_get d ''items'') then dict_get d ''items''
     else if truthy (dict_get d ''order_items'') then dict_get d ''order_items''
     else if truthy (dict_get d ''products'') then dict_get d ''products'' else PList [])"

definition item_of :: "commerce_ops \<Rightarrow> ident \<Rightarrow> ident \<Rightarrow> string option \<Rightarrow> (string \<times> pyval) list \<Rightarrow> order_item" where
  "item_of X tenant oid c d = \<lparr> oi_tenant_id = tenant, oi_order_row = oid,
     oi_item_id = bounded_text (payload_text X d [''id'', ''order_item_id'']) 120,
     oi_product_id = item_product_id X d,
     oi_name = bounded_text (payload_text X d [''name'', ''product_name'']) 300,
     oi_unit = bounded_text (payload_text X d [''unit'']) 80,
     oi_quantity = payload_money X d [''quantity'', ''qty''] None,
     oi_unit_price = payload_money X d [''unit_price'', ''price''] c,
     oi_total = payload_money X d [''total_amount'', ''total''] c,
     oi_raw = cx_redact X d \<rparr>"

definition replace_order_items ::
  "commerce_ops \<Rightarrow> ident \<Rightarrow> ident \<Rightarrow> (string \<times> pyval) list \<Rightarrow> string option \<Rightarrow> commerce_db \<Rightarrow> commerce_db" where
  "replace_order_items X tenant oid payload c db =
    db\<lparr>cm_items := filter (\<lambda>i. oi_order_row i \<noteq> oid) (cm_items db)
       @ (case raw_items payload of
            PList vs \<Rightarrow> List.map_filter (\<lambda>v. case v of PDict d \<Rightarrow> Some (item_of X tenant oid c d) | _ \<Rightarrow> None) vs
          | _ \<Rightarrow> [])\<rparr>"

text \<open>Orders carry a unique key of tenant and provider identifier.\<close>

definition order_key :: "order_row \<Rightarrow> ident \<times> string" where
  "order_key r = (od_tenant_id r, od_order_id r)"

definition in_range :: "time \<Rightarrow> time \<Rightarrow> time option \<Rightarrow> bool" where
  "in_range starts ends t = (case t of None \<Rightarrow> False | Some t \<Rightarrow> starts \<le> t \<and> t < ends)"

definition supersede_absent ::
  "ident \<Rightarrow> ident \<Rightarrow> time \<Rightarrow> time \<Rightarrow> provider_order list \<Rightarrow> commerce_db \<Rightarrow> commerce_db" where
  "supersede_absent tenant rid starts ends ps db = db\<lparr>cm_orders := map (\<lambda>r.
      if od_tenant_id r = tenant \<and> in_range starts ends (ov_date (od_values r)) \<and> od_order_id r \<notin> po_id ` set ps
      then r\<lparr>od_raw := stamp rid ''superseded'' (od_raw r)\<rparr> else r) (cm_orders db)\<rparr>"

definition order_raw_response :: "commerce_ops \<Rightarrow> ident \<Rightarrow> ident \<Rightarrow> provider_order \<Rightarrow> raw_response" where
  "order_raw_response X tenant rid p = \<lparr> rw_tenant_id = tenant, rw_run_id = rid, rw_resource = ''orders'',
     rw_dataset = None, rw_http_status = Some 200, rw_availability = ''available'', rw_failure_kind = None,
     rw_error = None, rw_payload = cx_redact X (po_payload p) \<rparr>"

definition promote_order ::
  "commerce_ops \<Rightarrow> ident \<Rightarrow> ident \<Rightarrow> bool \<Rightarrow> provider_order \<Rightarrow> commerce_db \<Rightarrow> commerce_db" where
  "promote_order X tenant rid record_raw p db =
    (let values = order_values_of X p; raw = stamp rid ''active'' (cx_redact X (po_payload p));
         (oid, db1) = (case tbl_find order_key (tenant, po_id p) (cm_orders db) of
            Some r \<Rightarrow> (od_id r, db\<lparr>cm_orders := tbl_upd order_key (tenant, po_id p)
              (\<lambda>r. r\<lparr>od_values := values, od_raw := raw\<rparr>) (cm_orders db)\<rparr>)
          | None \<Rightarrow> (cx_order_row X (po_id p), db\<lparr>cm_orders := cm_orders db @
              [\<lparr> od_id = cx_order_row X (po_id p), od_tenant_id = tenant, od_order_id = po_id p,
                 od_values = values, od_raw = raw \<rparr>]\<rparr>));
         db2 = replace_order_items X tenant oid (po_payload p) (po_currency p) db1
     in if record_raw then db2\<lparr>cm_raws := cm_raws db2 @ [order_raw_response X tenant rid p]\<rparr> else db2)"

definition promote_orders ::
  "commerce_ops \<Rightarrow> ident \<Rightarrow> ident \<Rightarrow> provider_order list \<Rightarrow> bool \<Rightarrow> commerce_db \<Rightarrow> scope_failure + commerce_db" where
  "promote_orders X tenant rid ps record_raw db =
    and_then (order_publication_scope X tenant rid ps db) (\<lambda>(starts, ends).
      Inr (fold (promote_order X tenant rid record_raw) ps (supersede_absent tenant rid starts ends ps db)))"

definition clear_tenant_commerce :: "ident \<Rightarrow> commerce_db \<Rightarrow> commerce_db" where
  "clear_tenant_commerce tenant db = db\<lparr>cm_orders := filter (\<lambda>r. od_tenant_id r \<noteq> tenant) (cm_orders db),
     cm_items := filter (\<lambda>i. oi_order_row i \<notin> od_id ` set (filter (\<lambda>r. od_tenant_id r = tenant) (cm_orders db)))
       (cm_items db),
     cm_metrics := filter (\<lambda>m. ms_tenant_id m \<noteq> tenant) (cm_metrics db)\<rparr>"

end
