(* ===== verification/CommerceSync.thy ===== *)
theory CommerceSync
  imports Commerce
begin

text \<open>
  One pull from its claim to its end (\<^verbatim>\<open>run_sync\<close> of \<^verbatim>\<open>app/services/bumpa.py\<close>): the claim of a generation, the
  extraction without a transaction, and one transaction that publishes, records a superseded pull or records a
  failure; the job handler around it, and the replacement of a connection.
\<close>

section \<open>Extraction\<close>

text \<open>
  \<open>NotConfigured\<close> is the \<^verbatim>\<open>HTTPException\<close> of \<^verbatim>\<open>_extract_sync\<close>, \<open>ProviderFailed\<close> a \<^verbatim>\<open>BumpaProviderError\<close>
  and \<open>ExtractCrashed\<close> any other exception.
\<close>

datatype extract_error =
    NotConfigured string
  | ProviderFailed (failed_message: string) (failed_kind: string) (failed_retryable: bool)
  | ExtractCrashed

text \<open>
  The environment of a pull: the local provider, the decryption of a credential (\<open>None\<close>: it fails; the field is
  \<open>None\<close> when no cipher is configured) and the provider's client for an opened credential.
\<close>

record extract_env =
  ee_local :: "ident \<Rightarrow> string \<Rightarrow> string \<Rightarrow> int \<Rightarrow> int \<Rightarrow> extract_error + (provider_dataset list \<times> provider_order list)"
  ee_decrypt :: "(string \<Rightarrow> string option) option"
  ee_client :: "string \<Rightarrow> boundary \<Rightarrow> int \<Rightarrow> int \<Rightarrow> extract_error + live_result"
  ee_backend :: "string option"

definition extract_sync :: "extract_env \<Rightarrow> ident \<Rightarrow> boundary \<Rightarrow> int \<Rightarrow> int \<Rightarrow> extract_error + extracted_sync" where
  "extract_sync E tenant b since until =
    (if bd_provider b = ''local''
     then and_then (ee_local E tenant (bd_store_timezone b) (bd_store_currency b) since until)
       (\<lambda>(ds, ps). Inr (LocalSnapshot ds ps))
     else if bd_provider b \<noteq> ''bumpa'' then Inl (NotConfigured ''Bumpa provider is not configured'')
     else if ee_backend E \<noteq> Some ''bumpa'' then Inl (NotConfigured ''Bumpa integration is not enabled'')
     else case ee_decrypt E of
       None \<Rightarrow> Inl (NotConfigured ''Bumpa credential decryption is unavailable'')
     | Some decrypt \<Rightarrow> (case decrypt (bd_encrypted_api_key b) of
         None \<Rightarrow> Inl ExtractCrashed
       | Some key \<Rightarrow> and_then (ee_client E key b since until) (\<lambda>r. Inr (LivePull r))))"

section \<open>Staging\<close>

record staged_sync =
  sg_completion :: sync_completion
  sg_results :: "(string \<times> pyval) list"
  sg_orders_availability :: string
  sg_orders_error :: "string option"
  sg_orders_count :: "int option"

definition metric_of :: "ident \<Rightarrow> ident \<Rightarrow> int \<Rightarrow> int \<Rightarrow> provider_dataset \<Rightarrow> metric_snapshot" where
  "metric_of tenant rid since until d = \<lparr> ms_tenant_id = tenant, ms_run_id = rid, ms_key = dataset_key d,
     ms_title = ds_title d, ms_value = ds_value d, ms_canonical = ds_canonical d, ms_currency = ds_currency d,
     ms_requested_from = since, ms_requested_to = until, ms_response_from = ds_response_from d,
     ms_response_to = ds_response_to d, ms_availability = ds_availability d \<rparr>"

definition dataset_raw :: "ident \<Rightarrow> ident \<Rightarrow> provider_dataset \<Rightarrow> raw_response" where
  "dataset_raw tenant rid d = \<lparr> rw_tenant_id = tenant, rw_run_id = rid, rw_resource = ds_resource d,
     rw_dataset = Some (ds_dataset d), rw_http_status = Some 200, rw_availability = ds_availability d,
     rw_failure_kind = None, rw_error = ds_error d, rw_payload = ds_payload d \<rparr>"

definition response_raw :: "commerce_ops \<Rightarrow> ident \<Rightarrow> ident \<Rightarrow> provider_response \<Rightarrow> raw_response" where
  "response_raw X tenant rid p = \<lparr> rw_tenant_id = tenant, rw_run_id = rid, rw_resource = rp_resource p,
     rw_dataset = rp_dataset p, rw_http_status = rp_status p, rw_availability = rp_availability p,
     rw_failure_kind = rp_failure_kind p, rw_error = rp_error p,
     rw_payload = cx_redact_response X (rp_resource p) (rp_dataset p) (rp_payload p) \<rparr>"

definition dataset_results_of :: "provider_dataset list \<Rightarrow> (string \<times> pyval) list" where
  "dataset_results_of ds = fold (\<lambda>d m. dict_set m (dataset_key d) (PStr (ds_availability d))) ds []"

definition publication_evidence :: pyval where
  "publication_evidence = PDict [(''version'', PInt 1), (''state'', PStr ''complete'')]"

text \<open>What a pull says about its orders, after the check of their membership.\<close>

definition orders_verdict ::
  "commerce_ops \<Rightarrow> ident \<Rightarrow> ident \<Rightarrow> extracted_sync \<Rightarrow> commerce_db \<Rightarrow> scope_failure + (string \<times> string option)" where
  "orders_verdict X tenant rid x db =
    (let availability = (case live_of x of None \<Rightarrow> ''available'' | Some r \<Rightarrow> lr_orders_availability r);
         err = (case live_of x of None \<Rightarrow> None | Some r \<Rightarrow> lr_orders_error r) in
     if availability = ''available'' \<and> err = None
     then (case order_publication_scope X tenant rid (snapshot_orders x) db of
         Inr _ \<Rightarrow> Inr (availability, err)
       | Inl (ScopeInvalid _) \<Rightarrow> Inr (''error'', Some ''Orders could not establish complete current-boundary publication'')
       | Inl (UnknownZone z) \<Rightarrow> Inl (UnknownZone z))
     else Inr (availability, err))"

definition stage_evidence ::
  "commerce_ops \<Rightarrow> ident \<Rightarrow> ident \<Rightarrow> int \<Rightarrow> int \<Rightarrow> extracted_sync \<Rightarrow> commerce_db \<Rightarrow> commerce_db" where
  "stage_evidence X tenant rid since until x db =
    db\<lparr>cm_metrics := cm_metrics db @ map (metric_of tenant rid since until) (snapshot_datasets x),
       cm_raws := cm_raws db @ (case live_of x of
           None \<Rightarrow> map (dataset_raw tenant rid) (snapshot_datasets x)
         | Some r \<Rightarrow> map (response_raw X tenant rid) (lr_responses r))\<rparr>"

definition stage_sync_publication ::
  "commerce_ops \<Rightarrow> ident \<Rightarrow> ident \<Rightarrow> int \<Rightarrow> int \<Rightarrow> extracted_sync \<Rightarrow> commerce_db \<Rightarrow> scope_failure + (staged_sync \<times> commerce_db)" where
  "stage_sync_publication X tenant rid since until x db =
    and_then (orders_verdict X tenant rid x db) (\<lambda>(availability, err).
      let completion = classify_sync_completion (snapshot_datasets x) availability err;
          results = dataset_results_of (snapshot_datasets x);
          db1 = stage_evidence X tenant rid since until x db in
      if availability = ''available'' \<and> err = None
      then and_then (promote_orders X tenant rid (snapshot_orders x) (live_of x = None) db1) (\<lambda>db2.
        Inr (\<lparr> sg_completion = completion,
               sg_results = dict_set results ''_bumpa_order_publication'' publication_evidence,
               sg_orders_availability = availability, sg_orders_error = err,
               sg_orders_count = Some (int (length (snapshot_orders x))) \<rparr>, db2))
      else Inr (\<lparr> sg_completion = completion, sg_results = results, sg_orders_availability = availability,
               sg_orders_error = err, sg_orders_count = None \<rparr>, db1))"

section \<open>Ends of a pull\<close>

definition new_run :: "boundary \<Rightarrow> ident \<Rightarrow> ident \<Rightarrow> int \<Rightarrow> int \<Rightarrow> int \<Rightarrow> time \<Rightarrow> commerce_run" where
  "new_run b rid tenant g since until now = \<lparr> sr_id = rid, sr_tenant_id = tenant, sr_connection_id = bd_id b,
     sr_status = SRunning, sr_quality = QPending, sr_partial_reason = None, sr_requested_from = since,
     sr_requested_to = until, sr_started_at = Some now, sr_finished_at = None, sr_error = None,
     sr_orders_availability = None, sr_orders_count = None, sr_boundary_revision = bd_revision b,
     sr_sync_generation = Some g, cr_rate_limit = None, cr_rate_remaining = None, cr_results = [] \<rparr>"

definition failed_run :: "string \<Rightarrow> time \<Rightarrow> commerce_run \<Rightarrow> commerce_run" where
  "failed_run err now r = r\<lparr>sr_status := SFailed, sr_quality := QFailed, sr_partial_reason := None,
     sr_error := Some err, sr_finished_at := Some now\<rparr>"

definition add_run :: "commerce_run \<Rightarrow> commerce_db \<Rightarrow> commerce_db" where
  "add_run r db = db\<lparr>cm_runs := cm_runs db @ [r]\<rparr>"

definition set_run :: "ident \<Rightarrow> (commerce_run \<Rightarrow> commerce_run) \<Rightarrow> commerce_db \<Rightarrow> commerce_db" where
  "set_run rid f db = db\<lparr>cm_runs := tbl_upd sr_id rid f (cm_runs db)\<rparr>"

text \<open>A failure leaves the connection's health alone when a newer pull has been claimed.\<close>

definition persist_extraction_failure ::
  "boundary \<Rightarrow> commerce_run \<Rightarrow> string \<Rightarrow> time \<Rightarrow> commerce_db \<Rightarrow> http_error + commerce_db" where
  "persist_extraction_failure b r err now db = and_then (lock_matching_connection b db) (\<lambda>c.
     let db1 = add_run (failed_run err now r) db in
     Inr (if Some (bc_sync_generation c) = sr_sync_generation r
          then set_connection (bc_id c) (\<lambda>c. c\<lparr>bc_last_failed_sync_at := Some now, bc_last_error := Some err\<rparr>) db1
          else db1))"

definition persist_superseded_run :: "commerce_run \<Rightarrow> time \<Rightarrow> commerce_db \<Rightarrow> commerce_db" where
  "persist_superseded_run r now db = add_run (failed_run ''Superseded by a newer Bumpa sync'' now r) db"

definition completed_run :: "staged_sync \<Rightarrow> extracted_sync \<Rightarrow> time \<Rightarrow> commerce_run \<Rightarrow> commerce_run" where
  "completed_run st x now r =
    (let r1 = r\<lparr>sr_status := sc_status (sg_completion st), sr_quality := sc_quality (sg_completion st),
                sr_partial_reason := sc_partial_reason (sg_completion st),
                sr_orders_availability := Some (sg_orders_availability st), sr_orders_count := sg_orders_count st,
                sr_finished_at := Some now, cr_results := sg_results st\<rparr>
     in case live_of x of None \<Rightarrow> r1
        | Some l \<Rightarrow> r1\<lparr>cr_rate_limit := lr_rate_limit l, cr_rate_remaining := lr_rate_remaining l\<rparr>)"

definition freshness_update :: "staged_sync \<Rightarrow> time \<Rightarrow> bumpa_connection \<Rightarrow> bumpa_connection" where
  "freshness_update st now c = (if sc_advances (sg_completion st)
     then c\<lparr>bc_last_successful_sync_at := Some now, bc_last_error := None\<rparr>
     else c\<lparr>bc_last_failed_sync_at := Some now,
            bc_last_error := Some ''Some Bumpa datasets or orders were unavailable''\<rparr>)"

text \<open>
  The database of the publication's transaction at its commit: \<open>Inl\<close> the HTTP error of the fence, otherwise
  \<open>None\<close> for a superseded pull, or the staged result.
\<close>

datatype publication = SupersededBy commerce_db | StagingRaised | StagedAt commerce_run commerce_db

definition publish_extracted ::
  "commerce_ops \<Rightarrow> boundary \<Rightarrow> ident \<Rightarrow> int \<Rightarrow> commerce_run \<Rightarrow> extracted_sync \<Rightarrow> time \<Rightarrow> commerce_db \<Rightarrow> http_error + publication" where
  "publish_extracted X b tenant g r x now db = and_then (claim_publication_generation b g db) (\<lambda>claimed.
     case claimed of
       None \<Rightarrow> Inr (SupersededBy (persist_superseded_run r now db))
     | Some db1 \<Rightarrow>
         (case stage_sync_publication X tenant (sr_id r) (sr_requested_from r) (sr_requested_to r) x (add_run r db1) of
            Inl _ \<Rightarrow> Inr StagingRaised
          | Inr (st, db2) \<Rightarrow> (let done_run = completed_run st x now r in
              Inr (StagedAt done_run
                (set_connection (bd_id b) (freshness_update st now) (set_run (sr_id r) (\<lambda>_. done_run) db2))))))"

text \<open>How the commit ends: durable, refused, or durable although the connection broke before the answer.\<close>

datatype commit_outcome = CommitOk | CommitRefused | CommitUnanswered

definition failure_then :: "boundary \<Rightarrow> commerce_run \<Rightarrow> string \<Rightarrow> time \<Rightarrow> http_error \<Rightarrow> commerce_db \<Rightarrow> commerce_db \<times> (http_error + commerce_run)" where
  "failure_then b r err now answer db = (case persist_extraction_failure b r err now db of
      Inl e \<Rightarrow> (db, Inl e)
    | Inr db' \<Rightarrow> (db', Inl answer))"

text \<open>The handler of an unexpected exception while publishing: a commit that did take effect counts.\<close>

definition publication_crashed ::
  "boundary \<Rightarrow> commerce_run \<Rightarrow> time \<Rightarrow> commerce_db \<Rightarrow> commerce_db \<times> (http_error + commerce_run)" where
  "publication_crashed b r now db = (case tbl_find sr_id (sr_id r) (cm_runs db) of
      Some existing \<Rightarrow> if sr_status existing \<in> {SSuccess, SPartial} then (db, Inr existing)
        else failure_then b r ''Commerce sync failed'' now (502, ''Commerce sync failed'', False) db
    | None \<Rightarrow> failure_then b r ''Commerce sync failed'' now (502, ''Commerce sync failed'', False) db)"

definition publish_pull ::
  "commerce_ops \<Rightarrow> boundary \<Rightarrow> ident \<Rightarrow> int \<Rightarrow> commerce_run \<Rightarrow> extracted_sync \<Rightarrow> time \<Rightarrow> commit_outcome
   \<Rightarrow> (commerce_db \<Rightarrow> commerce_db) \<Rightarrow> commerce_db \<Rightarrow> commerce_db \<times> (http_error + commerce_run)" where
  "publish_pull X b tenant g r x now outcome other db = (case publish_extracted X b tenant g r x now db of
      Inl e \<Rightarrow> (db, Inl e)
    | Inr (SupersededBy db') \<Rightarrow> (db', Inl (409, ''Bumpa sync was superseded by a newer request'', False))
    | Inr StagingRaised \<Rightarrow> publication_crashed b r now (other db)
    | Inr (StagedAt r' db') \<Rightarrow> (case outcome of
        CommitOk \<Rightarrow> (db', Inr r')
      | CommitRefused \<Rightarrow> publication_crashed b r' now (other db)
      | CommitUnanswered \<Rightarrow> publication_crashed b r' now (other db')))"

text \<open>
  \<open>other n\<close> is what other transactions commit before the pull's n-th transaction after its claim; \<open>start\<close> and
  \<open>now\<close> are the clock at the claim and at the end.
\<close>

definition run_sync ::
  "commerce_ops \<Rightarrow> extract_env \<Rightarrow> ident \<Rightarrow> ident \<Rightarrow> bumpa_connection \<Rightarrow> int \<Rightarrow> int \<Rightarrow> time \<Rightarrow> time \<Rightarrow> commit_outcome
   \<Rightarrow> (nat \<Rightarrow> commerce_db \<Rightarrow> commerce_db) \<Rightarrow> commerce_db \<Rightarrow> commerce_db \<times> (http_error + commerce_run)" where
  "run_sync X E rid tenant seen since until start now outcome other db =
    (let b = capture_boundary seen in
     if bd_tenant_id b \<noteq> tenant \<or> bd_status b \<noteq> ''active''
     then (db, Inl (409, ''Bumpa connection changed before sync started'', False))
     else case claim_sync_generation b db of
       Inl e \<Rightarrow> (db, Inl e)
     | Inr (g, db1) \<Rightarrow>
         (let r = new_run b rid tenant g since until start; db2 = other 0 db1 in
          case extract_sync E tenant b since until of
            Inl (NotConfigured detail) \<Rightarrow> failure_then b r ''Provider is not configured'' now (503, detail, False) db2
          | Inl (ProviderFailed m k retryable) \<Rightarrow> failure_then b r m now (if retryable then 503 else 502, m, \<not> retryable) db2
          | Inl ExtractCrashed \<Rightarrow> failure_then b r ''Commerce sync failed'' now (502, ''Commerce sync failed'', False) db2
          | Inr x \<Rightarrow> publish_pull X b tenant g r x now outcome (other 1) db2))"

section \<open>The job\<close>

text \<open>How the handler of a synchronisation job ends: a result, a permanent failure, or a failure worth a retry.\<close>

datatype sync_job_end = SyncDone commerce_run | SyncRefused string | SyncRetried string

definition required_string :: "(string \<times> pyval) list \<Rightarrow> string \<Rightarrow> string option" where
  "required_string d k = (case dict_get d k of PStr s \<Rightarrow> if s = [] \<or> 200 < length s then None else Some s | _ \<Rightarrow> None)"

definition required_positive_int :: "(string \<times> pyval) list \<Rightarrow> string \<Rightarrow> int option" where
  "required_positive_int d k = (case dict_get d k of PInt n \<Rightarrow> if n < 1 then None else Some n | _ \<Rightarrow> None)"

definition required_date :: "(string \<Rightarrow> int option) \<Rightarrow> (string \<times> pyval) list \<Rightarrow> string \<Rightarrow> int option" where
  "required_date day d k = Option.bind (required_string d k) day"

definition end_of_sync :: "http_error + commerce_run \<Rightarrow> sync_job_end" where
  "end_of_sync out = (case out of
      Inr r \<Rightarrow> SyncDone r
    | Inl (status, _, hopeless) \<Rightarrow>
        if hopeless \<or> status < 500 then SyncRefused ''Bumpa sync request was rejected''
        else SyncRetried ''Bumpa sync provider is temporarily unavailable'')"

definition bumpa_sync_handler ::
  "commerce_ops \<Rightarrow> extract_env \<Rightarrow> (string \<Rightarrow> int option) \<Rightarrow> ident \<Rightarrow> ident option \<Rightarrow> (string \<times> pyval) list \<Rightarrow> time \<Rightarrow> time
   \<Rightarrow> commit_outcome \<Rightarrow> (nat \<Rightarrow> commerce_db \<Rightarrow> commerce_db) \<Rightarrow> commerce_db \<Rightarrow> commerce_db \<times> sync_job_end" where
  "bumpa_sync_handler X E day rid job_tenant payload start now outcome other db =
    (case (required_string payload ''tenant_id'', required_string payload ''connection_id'',
           required_date day payload ''date_from'', required_date day payload ''date_to'') of
       (Some tenant, Some cid, Some since, Some until) \<Rightarrow>
         if until < since \<or> 366 < until - since then (db, SyncRefused ''Bumpa sync job contains an invalid date range'')
         else (case required_positive_int payload ''boundary_revision'' of
             None \<Rightarrow> (db, SyncRefused ''Job payload field boundary_revision must be a positive integer'')
           | Some revision \<Rightarrow>
               if job_tenant \<noteq> Some tenant then (db, SyncRefused ''Bumpa sync job tenant boundary is invalid'')
               else (case tbl_find bc_id cid (cm_connections db) of
                   None \<Rightarrow> (db, SyncRefused ''Bumpa connection is unavailable'')
                 | Some c \<Rightarrow>
                     if bc_tenant_id c \<noteq> tenant then (db, SyncRefused ''Bumpa connection is unavailable'')
                     else if bc_status c \<noteq> ''active'' then (db, SyncRefused ''Bumpa connection is inactive'')
                     else if bc_boundary_revision c \<noteq> revision
                       then (db, SyncRefused ''Bumpa connection was replaced after this sync was queued'')
                     else (case run_sync X E rid tenant c since until start now outcome other db of
                         (db', out) \<Rightarrow> (db', end_of_sync out))))
     | _ \<Rightarrow> (db, SyncRefused ''Job payload field is invalid''))"

section \<open>Replacing a connection\<close>

record boundary_input =
  bi_scope_type :: scope_type
  bi_scope_id :: string
  bi_store_timezone :: string
  bi_store_currency :: string
  bi_provider :: string

definition material_boundary_changed :: "bumpa_connection \<Rightarrow> boundary_input \<Rightarrow> bool" where
  "material_boundary_changed c i \<longleftrightarrow> bc_scope_type c \<noteq> bi_scope_type i \<or> bc_scope_id c \<noteq> bi_scope_id i
     \<or> bc_store_timezone c \<noteq> bi_store_timezone i \<or> bc_store_currency c \<noteq> bi_store_currency i
     \<or> bc_provider c \<noteq> bi_provider i"

definition put_boundary :: "string \<Rightarrow> boundary_input \<Rightarrow> bumpa_connection \<Rightarrow> bumpa_connection" where
  "put_boundary key i c = c\<lparr>bc_encrypted_api_key := key, bc_scope_type := bi_scope_type i, bc_scope_id := bi_scope_id i,
     bc_store_timezone := bi_store_timezone i, bc_store_currency := bi_store_currency i, bc_provider := bi_provider i,
     bc_status := ''active'', bc_last_error := None\<rparr>"

definition replace_bumpa_connection ::
  "string \<Rightarrow> boundary_input \<Rightarrow> bumpa_connection \<Rightarrow> commerce_db \<Rightarrow> http_error + (bool \<times> commerce_db)" where
  "replace_bumpa_connection key i c db =
    (if material_boundary_changed c i
     then if max_generation \<le> bc_boundary_revision c
       then Inl (503, ''Bumpa connection boundary revision is exhausted'', False)
       else Inr (True, set_connection (bc_id c) (\<lambda>c. put_boundary key i
           (c\<lparr>bc_boundary_revision := bc_boundary_revision c + 1, bc_last_successful_sync_at := None,
              bc_last_failed_sync_at := None, bc_last_error := None\<rparr>))
         (db\<lparr>cm_items := filter (\<lambda>t. oi_tenant_id t \<noteq> bc_tenant_id c) (cm_items db),
             cm_orders := filter (\<lambda>r. od_tenant_id r \<noteq> bc_tenant_id c) (cm_orders db)\<rparr>))
     else Inr (False, set_connection (bc_id c) (put_boundary key i) db))"

end
