(* ===== verification/CommerceFacts.thy ===== *)
theory CommerceFacts
  imports CommerceSync
begin

text \<open>
  What the assistant may say about a store (\<^verbatim>\<open>app/services/business_tools.py\<close> and
  \<^verbatim>\<open>app/services/bumpa_freshness.py\<close>): which rows are published facts of the current boundary, which days are
  covered by verified pulls, the periods a question can name, and the figures of a period. Amounts are the rationals
  their decimal texts denote; the answers are records in place of the JSON documents that carry them.
\<close>

section \<open>Published runs and orders\<close>

definition json_field :: "pyval \<Rightarrow> string \<Rightarrow> pyval" where
  "json_field v k = (case v of PDict d \<Rightarrow> dict_get d k | _ \<Rightarrow> PNone)"

definition publication_marker_valid :: "commerce_run \<Rightarrow> bool" where
  "publication_marker_valid r \<longleftrightarrow> (case dict_get (cr_results r) ''_bumpa_order_publication'' of
      PDict m \<Rightarrow> dict_get m ''version'' = PInt 1 \<and> dict_get m ''state'' = PStr ''complete''
    | _ \<Rightarrow> False)"

text \<open>The filters on a run and its connection; the two JSON paths name the same evidence as the marker.\<close>

definition publication_filters :: "ident \<Rightarrow> commerce_run \<Rightarrow> bumpa_connection \<Rightarrow> bool" where
  "publication_filters tenant r c \<longleftrightarrow> sr_tenant_id r = tenant \<and> bc_tenant_id c = tenant \<and> bc_status c = ''active''
     \<and> sr_connection_id r = bc_id c \<and> sr_boundary_revision r = bc_boundary_revision c
     \<and> (case sr_sync_generation r of None \<Rightarrow> False
          | Some g \<Rightarrow> 0 < g \<and> g \<le> bc_published_generation c \<and> g \<le> bc_sync_generation c)
     \<and> sr_requested_from r \<le> sr_requested_to r \<and> sr_error r = None \<and> sr_finished_at r \<noteq> None
     \<and> sr_status r \<in> {SSuccess, SPartial} \<and> sr_quality r \<in> {QComplete, QAcceptedPartial, QDegraded}
     \<and> sr_orders_availability r = Some ''available'' \<and> sr_orders_count r \<noteq> None
     \<and> json_field (dict_get (cr_results r) ''_bumpa_order_publication'') ''version'' = PInt 1
     \<and> json_field (dict_get (cr_results r) ''_bumpa_order_publication'') ''state'' = PStr ''complete''"

definition run_published :: "commerce_db \<Rightarrow> ident \<Rightarrow> commerce_run \<Rightarrow> bool" where
  "run_published db tenant r \<longleftrightarrow> list_ex (\<lambda>c. bc_id c = sr_connection_id r \<and> publication_filters tenant r c) (cm_connections db)"

definition order_marker :: "order_row \<Rightarrow> pyval" where
  "order_marker r = dict_get (od_raw r) ''_bumpa_publication''"

definition published_order :: "commerce_db \<Rightarrow> ident \<Rightarrow> order_row \<Rightarrow> bool" where
  "published_order db tenant r \<longleftrightarrow> od_tenant_id r = tenant \<and> ov_date (od_values r) \<noteq> None
     \<and> json_field (order_marker r) ''state'' = PStr ''active''
     \<and> list_ex (\<lambda>n. json_field (order_marker r) ''sync_run_id'' = PStr (sr_id n)
         \<and> list_ex (\<lambda>c. bc_id c = sr_connection_id n \<and> publication_filters tenant n c
             \<and> ov_currency (od_values r) = Some (bc_store_currency c)) (cm_connections db)) (cm_runs db)"

section \<open>Coverage\<close>

text \<open>The scan stops at the first gap; pulls that miss the period are skipped.\<close>

fun covered_until :: "int \<Rightarrow> int \<Rightarrow> int \<Rightarrow> (int \<times> int) list \<Rightarrow> int" where
  "covered_until since until covered [] = covered"
| "covered_until since until covered ((a, b) # rs) =
    (if b < since \<or> until < a then covered_until since until covered rs
     else if covered + 1 < a then covered
     else covered_until since until (max covered b) rs)"

definition verified_runs :: "commerce_db \<Rightarrow> ident \<Rightarrow> commerce_run list" where
  "verified_runs db tenant = filter publication_marker_valid
     (query_by (\<lambda>r. (sr_requested_from r, sr_requested_to r)) (run_published db tenant) (cm_runs db))"

record order_coverage =
  vc_available :: bool
  vc_periods :: "(ident \<times> int \<times> int \<times> time option) list"

definition order_publication_coverage :: "commerce_db \<Rightarrow> ident \<Rightarrow> (int \<times> int) option \<Rightarrow> order_coverage" where
  "order_publication_coverage db tenant period =
    (let runs = verified_runs db tenant in
     \<lparr> vc_available = (case period of
          None \<Rightarrow> runs \<noteq> []
        | Some (since, until) \<Rightarrow>
            until \<le> covered_until since until (since - 1) (map (\<lambda>r. (sr_requested_from r, sr_requested_to r)) runs)),
       vc_periods = map (\<lambda>r. (sr_id r, sr_requested_from r, sr_requested_to r, sr_finished_at r)) runs \<rparr>)"

section \<open>Periods\<close>

record store_tenant = tenant +
  tn_currency_code :: string

datatype period_error = PeriodInvalid string | PeriodZone string

definition tenant_store_context ::
  "store_tenant list \<Rightarrow> commerce_db \<Rightarrow> ident \<Rightarrow> period_error + (string \<times> string)" where
  "tenant_store_context tenants db tenant = (case tbl_find tn_id tenant tenants of
      None \<Rightarrow> Inl (PeriodInvalid ''Tenant does not exist'')
    | Some t \<Rightarrow> (case find (\<lambda>c. bc_tenant_id c = tenant \<and> bc_status c = ''active'') (cm_connections db) of
        Some c \<Rightarrow> Inr (bc_store_timezone c, bc_store_currency c)
      | None \<Rightarrow> Inr (tn_timezone t, tn_currency_code t)))"

record resolved_period =
  pd_name :: string
  pd_from :: int
  pd_to :: int
  pd_starts :: time
  pd_ends :: time
  pd_zone :: string

text \<open>The first day of a day's month.\<close>

definition month_start :: "int \<Rightarrow> int" where
  "month_start d = (case ord_ymd d of (y, m, _) \<Rightarrow> ymd_ord y m 1)"

definition least_of :: "int list \<Rightarrow> int option" where
  "least_of xs = (if xs = [] then None else Some (Min (set xs)))"

definition greatest_of :: "int list \<Rightarrow> int option" where
  "greatest_of xs = (if xs = [] then None else Some (Max (set xs)))"

definition published_instants :: "commerce_db \<Rightarrow> ident \<Rightarrow> time list" where
  "published_instants db tenant = List.map_filter (\<lambda>r. if published_order db tenant r then ov_date (od_values r) else None)
     (cm_orders db)"

definition all_available_days :: "commerce_db \<Rightarrow> ident \<Rightarrow> (time \<Rightarrow> time) \<Rightarrow> int \<Rightarrow> int \<times> int" where
  "all_available_days db tenant local today =
    (let ts = published_instants db tenant; vs = vc_periods (order_publication_coverage db tenant None) in
     (case least_of ts of Some t \<Rightarrow> day_of (local t)
        | None \<Rightarrow> (case least_of (map (\<lambda>(_, a, _, _). a) vs) of Some a \<Rightarrow> a | None \<Rightarrow> today),
      case greatest_of ts of Some t \<Rightarrow> day_of (local t)
        | None \<Rightarrow> (case greatest_of (map (\<lambda>(_, _, b, _). b) vs) of Some b \<Rightarrow> b | None \<Rightarrow> today)))"

definition named_days ::
  "string \<Rightarrow> int \<Rightarrow> int option \<Rightarrow> int option \<Rightarrow> int \<times> int \<Rightarrow> period_error + (int \<times> int)" where
  "named_days name today since until everything =
    (if name = ''custom'' then (case (since, until) of
         (Some a, Some b) \<Rightarrow> Inr (a, b)
       | _ \<Rightarrow> Inl (PeriodInvalid ''Custom periods require date_from and date_to''))
     else if name = ''today'' then Inr (today, today)
     else if name = ''yesterday'' then Inr (today - 1, today - 1)
     else if name = ''this_week'' then Inr (today - weekday today, today)
     else if name = ''last_week'' then (let e = today - (weekday today + 1) in Inr (e - 6, e))
     else if name = ''this_month'' then Inr (month_start today, today)
     else if name = ''last_month'' then (let e = month_start today - 1 in Inr (month_start e, e))
     else if name = ''last_30_days'' then Inr (today - 29, today)
     else if name = ''all_available'' then Inr everything
     else Inl (PeriodInvalid ''Unsupported period''))"

definition resolve_period ::
  "(string \<Rightarrow> (int \<Rightarrow> time) option) \<Rightarrow> zone_db \<Rightarrow> store_tenant list \<Rightarrow> ident \<Rightarrow> string option \<Rightarrow> int option \<Rightarrow> int option
   \<Rightarrow> time \<Rightarrow> commerce_db \<Rightarrow> period_error + resolved_period" where
  "resolve_period midnight zone tenants tenant period since until now db =
    (if (since = None) \<noteq> (until = None) then Inl (PeriodInvalid ''Supply both date_from and date_to'')
     else if since \<noteq> None \<and> period \<notin> {None, Some ''custom''}
       then Inl (PeriodInvalid ''Explicit dates require period=custom or an omitted period'')
     else let name = (if since \<noteq> None then ''custom''
            else case period of None \<Rightarrow> ''this_month'' | Some p \<Rightarrow> if p = [] then ''this_month'' else p) in
       and_then (tenant_store_context tenants db tenant) (\<lambda>(tz, _).
         case (zone tz, midnight tz) of
           (Some local, Some start_of) \<Rightarrow>
             (let today = day_of (local now) in
              and_then (named_days name today since until (all_available_days db tenant local today)) (\<lambda>(a, b).
                if b < a then Inl (PeriodInvalid ''date_to must be on or after date_from'')
                else if 366 < b - a then Inl (PeriodInvalid ''Periods cannot exceed 367 days'')
                else Inr \<lparr> pd_name = name, pd_from = a, pd_to = b, pd_starts = start_of a,
                           pd_ends = start_of (b + 1), pd_zone = tz \<rparr>))
         | _ \<Rightarrow> Inl (PeriodZone tz)))"

section \<open>Figures\<close>

definition in_period :: "resolved_period \<Rightarrow> order_row \<Rightarrow> bool" where
  "in_period p r = in_range (pd_starts p) (pd_ends p) (ov_date (od_values r))"

definition period_orders :: "commerce_db \<Rightarrow> ident \<Rightarrow> resolved_period \<Rightarrow> order_row list" where
  "period_orders db tenant p = filter (\<lambda>r. published_order db tenant r \<and> in_period p r) (cm_orders db)"

definition amounts :: "order_row list \<Rightarrow> rat list" where
  "amounts rs = List.map_filter (\<lambda>r. ov_total (od_values r)) rs"

record figures =
  fg_currency :: string
  fg_available :: bool
  fg_sales :: "rat option"
  fg_orders :: "int option"
  fg_with_amount :: "int option"
  fg_missing_amount :: "int option"
  fg_channels :: "int option"

definition period_figures :: "commerce_db \<Rightarrow> ident \<Rightarrow> string \<Rightarrow> resolved_period \<Rightarrow> figures" where
  "period_figures db tenant currency p =
    (let ok = vc_available (order_publication_coverage db tenant (Some (pd_from p, pd_to p)));
         rs = period_orders db tenant p; n = int (length rs); m = int (length (amounts rs)) in
     \<lparr> fg_currency = currency, fg_available = ok,
       fg_sales = (if ok \<and> amounts rs \<noteq> [] then Some (sum_list (amounts rs)) else if ok \<and> n = 0 then Some 0 else None),
       fg_orders = (if ok then Some n else None), fg_with_amount = (if ok then Some m else None),
       fg_missing_amount = (if ok then Some (n - m) else None),
       fg_channels = (if ok then Some (int (card (set (List.map_filter (\<lambda>r. ov_channel (od_values r)) rs)))) else None) \<rparr>)"

definition overview_for_resolved_period ::
  "store_tenant list \<Rightarrow> commerce_db \<Rightarrow> ident \<Rightarrow> resolved_period \<Rightarrow> period_error + figures" where
  "overview_for_resolved_period tenants db tenant p =
    and_then (tenant_store_context tenants db tenant) (\<lambda>(_, currency). Inr (period_figures db tenant currency p))"

text \<open>The previous period is as long and ends the day before.\<close>

definition business_overview ::
  "(string \<Rightarrow> (int \<Rightarrow> time) option) \<Rightarrow> zone_db \<Rightarrow> store_tenant list \<Rightarrow> ident \<Rightarrow> string option \<Rightarrow> int option \<Rightarrow> int option
   \<Rightarrow> bool \<Rightarrow> time \<Rightarrow> commerce_db \<Rightarrow> period_error + (resolved_period \<times> figures \<times> (resolved_period \<times> figures) option)" where
  "business_overview midnight zone tenants tenant period since until compare now db =
    and_then (resolve_period midnight zone tenants tenant period since until now db) (\<lambda>p.
    and_then (overview_for_resolved_period tenants db tenant p) (\<lambda>current.
      if \<not> compare then Inr (p, current, None)
      else (let days_no = pd_to p - pd_from p + 1; previous_to = pd_from p - 1 in
        and_then (resolve_period midnight zone tenants tenant (Some ''custom'') (Some (previous_to - (days_no - 1)))
            (Some previous_to) now db) (\<lambda>q.
        and_then (overview_for_resolved_period tenants db tenant q) (\<lambda>prior. Inr (p, current, Some (q, prior)))))))"

datatype granularity = PerDay | PerWeek | PerMonth

definition bucket_of :: "granularity \<Rightarrow> int \<Rightarrow> int" where
  "bucket_of g d = (case g of PerDay \<Rightarrow> d | PerWeek \<Rightarrow> d - weekday d | PerMonth \<Rightarrow> month_start d)"

record trend_point =
  tp_start :: int
  tp_total :: rat
  tp_count :: int
  tp_missing :: int

definition add_to_bucket :: "rat option \<Rightarrow> trend_point \<Rightarrow> trend_point" where
  "add_to_bucket v p = (let p1 = p\<lparr>tp_count := tp_count p + 1\<rparr> in case v of
      None \<Rightarrow> p1\<lparr>tp_missing := tp_missing p1 + 1\<rparr> | Some q \<Rightarrow> p1\<lparr>tp_total := tp_total p1 + q\<rparr>)"

text \<open>A dictionary with a default, kept as the list of its points.\<close>

fun bump_bucket :: "int \<Rightarrow> rat option \<Rightarrow> trend_point list \<Rightarrow> trend_point list" where
  "bump_bucket k v [] = [add_to_bucket v \<lparr> tp_start = k, tp_total = 0, tp_count = 0, tp_missing = 0 \<rparr>]"
| "bump_bucket k v (p # ps) = (if tp_start p = k then add_to_bucket v p # ps else p # bump_bucket k v ps)"

definition trend_points :: "(time \<Rightarrow> time) \<Rightarrow> granularity \<Rightarrow> order_row list \<Rightarrow> trend_point list" where
  "trend_points local g rs = sort_key tp_start (fold (\<lambda>r ps. case ov_date (od_values r) of
      None \<Rightarrow> ps | Some t \<Rightarrow> bump_bucket (bucket_of g (day_of (local t))) (ov_total (od_values r)) ps) rs [])"

definition sales_trend ::
  "(string \<Rightarrow> (int \<Rightarrow> time) option) \<Rightarrow> zone_db \<Rightarrow> store_tenant list \<Rightarrow> ident \<Rightarrow> string option \<Rightarrow> granularity
   \<Rightarrow> int option \<Rightarrow> int option \<Rightarrow> time \<Rightarrow> commerce_db \<Rightarrow> period_error + (resolved_period \<times> bool \<times> trend_point list)" where
  "sales_trend midnight zone tenants tenant period g since until now db =
    and_then (resolve_period midnight zone tenants tenant period since until now db) (\<lambda>p.
    and_then (tenant_store_context tenants db tenant) (\<lambda>(tz, _).
      case zone tz of None \<Rightarrow> Inl (PeriodZone tz)
      | Some local \<Rightarrow>
          (let ok = vc_available (order_publication_coverage db tenant (Some (pd_from p, pd_to p))) in
           Inr (p, ok, trend_points local g (if ok then period_orders db tenant p else [])))))"

section \<open>Freshness\<close>

definition usable_sync_run :: "commerce_run \<Rightarrow> bool" where
  "usable_sync_run r \<longleftrightarrow> sr_error r = None \<and> sr_finished_at r \<noteq> None
     \<and> (sr_status r = SSuccess \<and> sr_quality r = QComplete \<and> sr_partial_reason r = None
          \<and> sr_orders_availability r = Some ''available''
        \<or> sr_status r = SPartial \<and> sr_quality r = QAcceptedPartial \<and> sr_partial_reason r = Some ''profit_not_calculable''
          \<and> sr_orders_availability r = Some ''available'' \<and> sr_orders_count r \<noteq> None
          \<and> json_field (dict_get (cr_results r) ''_bumpa_order_publication'') ''version'' = PInt 1
          \<and> json_field (dict_get (cr_results r) ''_bumpa_order_publication'') ''state'' = PStr ''complete'')"

end
