(* ===== verification/CommerceBook.thy ===== *)
theory CommerceBook
  imports CommerceFacts
begin

text \<open>
  The published orders of a tenant as an order book: a map from the provider's identifiers to the values a question
  sees. A publication replaces the book's orders in its range by the orders of the pull; a new store boundary empties
  it. The tables refine this book.
\<close>

section \<open>Connections\<close>

lemma at_boundary_iff: "at_boundary b c \<longleftrightarrow> capture_boundary c = b"
  by (cases b) (auto simp: at_boundary_def capture_boundary_def)

lemma set_connection_fields [simp]:
  "cm_runs (set_connection k f db) = cm_runs db" "cm_orders (set_connection k f db) = cm_orders db"
  "cm_metrics (set_connection k f db) = cm_metrics db" "cm_items (set_connection k f db) = cm_items db"
  "cm_raws (set_connection k f db) = cm_raws db"
  "cm_connections (set_connection k f db) = tbl_upd bc_id k f (cm_connections db)"
  by (simp_all add: set_connection_def)

lemma add_run_fields [simp]:
  "cm_runs (add_run r db) = cm_runs db @ [r]" "cm_orders (add_run r db) = cm_orders db"
  "cm_connections (add_run r db) = cm_connections db"
  by (simp_all add: add_run_def)

lemma set_run_fields [simp]:
  "cm_runs (set_run k f db) = tbl_upd sr_id k f (cm_runs db)" "cm_orders (set_run k f db) = cm_orders db"
  "cm_connections (set_run k f db) = cm_connections db"
  by (simp_all add: set_run_def)

lemma find_capture:
  assumes "find (\<lambda>c. at_boundary b c \<and> p c) cs = Some c"
  shows "c \<in> set cs" "capture_boundary c = b" "p c" "bc_id c = bd_id b"
  using assms by (auto simp: find_Some_iff at_boundary_iff capture_boundary_def)

lemma capture_fields:
  assumes "capture_boundary c = b"
  shows "bc_id c = bd_id b" "bc_tenant_id c = bd_tenant_id b" "bc_status c = bd_status b"
    "bc_store_timezone c = bd_store_timezone b" "bc_store_currency c = bd_store_currency b"
    "bc_boundary_revision c = bd_revision b"
  using assms by (auto simp: capture_boundary_def)

lemma claim_sync_generation_Inr:
  assumes "claim_sync_generation b db = Inr (g, db')"
  obtains c where "c \<in> set (cm_connections db)" "capture_boundary c = b" "g = bc_sync_generation c + 1"
    "bc_sync_generation c < max_generation"
    "db' = set_connection (bd_id b) (\<lambda>c. c\<lparr>bc_sync_generation := bc_sync_generation c + 1\<rparr>) db"
proof -
  from assms obtain c where f: "find (\<lambda>c. at_boundary b c \<and> bc_sync_generation c < max_generation) (cm_connections db) = Some c"
    and *: "g = bc_sync_generation c + 1"
      "db' = set_connection (bc_id c) (\<lambda>c. c\<lparr>bc_sync_generation := bc_sync_generation c + 1\<rparr>) db"
    unfolding claim_sync_generation_def by (auto simp: and_then_def split: option.splits sum.splits if_splits)
  note c = find_capture[OF f]
  show ?thesis by (rule that[OF c(1,2) *(1) c(3)]) (simp add: *(2) c(4))
qed

lemma claim_publication_Some:
  assumes "claim_publication_generation b g db = Inr (Some db')"
  obtains c where "c \<in> set (cm_connections db)" "capture_boundary c = b" "g \<le> bc_sync_generation c"
    "bc_published_generation c < g"
    "db' = set_connection (bd_id b) (\<lambda>c. c\<lparr>bc_published_generation := g\<rparr>) db"
proof -
  from assms obtain c where f: "find (\<lambda>c. at_boundary b c \<and> g \<le> bc_sync_generation c \<and> bc_published_generation c < g)
      (cm_connections db) = Some c" and *: "db' = set_connection (bc_id c) (\<lambda>c. c\<lparr>bc_published_generation := g\<rparr>) db"
    unfolding claim_publication_generation_def by (auto simp: and_then_def split: option.splits sum.splits if_splits)
  note c = find_capture[OF f]
  show ?thesis by (rule that[OF c(1,2)]) (use c in \<open>simp_all add: *\<close>)
qed

lemma lock_matching_Inr:
  assumes "lock_matching_connection b db = Inr c"
  shows "c \<in> set (cm_connections db)" "capture_boundary c = b" "bc_id c = bd_id b"
  using assms by (auto simp: lock_matching_connection_def capture_boundary_def dest: tbl_find_Some
      split: option.splits if_splits)

section \<open>Stamps\<close>

definition active_marked :: "order_row \<Rightarrow> bool" where
  "active_marked r \<longleftrightarrow> json_field (order_marker r) ''state'' = PStr ''active''"

lemma stamped_marker:
  "od_raw r = stamp rid state d \<Longrightarrow> json_field (order_marker r) ''state'' = PStr state
     \<and> json_field (order_marker r) ''sync_run_id'' = PStr rid"
  unfolding order_marker_def stamp_def
  by (simp only: dict_get_set refl if_True json_field_def pyval.case) (simp add: dict_get_def)

lemma superseded_not_active: "od_raw r = stamp rid ''superseded'' d \<Longrightarrow> \<not> active_marked r"
  by (simp add: active_marked_def stamped_marker)

lemma published_active: "published_order db t r \<Longrightarrow> active_marked r \<and> od_tenant_id r = t"
  by (simp add: published_order_def active_marked_def)

section \<open>The book\<close>

definition order_at :: "commerce_db \<Rightarrow> ident \<Rightarrow> string \<Rightarrow> order_row option" where
  "order_at db t k = tbl_find order_key (t, k) (cm_orders db)"

definition book :: "commerce_db \<Rightarrow> ident \<Rightarrow> string \<Rightarrow> order_values option" where
  "book db t k = (case order_at db t k of
      Some r \<Rightarrow> if published_order db t r then Some (od_values r) else None
    | None \<Rightarrow> None)"

definition publish_book ::
  "time \<Rightarrow> time \<Rightarrow> (string \<times> order_values) list \<Rightarrow> (string \<Rightarrow> order_values option) \<Rightarrow> string \<Rightarrow> order_values option" where
  "publish_book starts ends os B k = (case map_of os k of
      Some v \<Rightarrow> Some v
    | None \<Rightarrow> (case B k of
        Some v \<Rightarrow> if in_range starts ends (ov_date v) then None else Some v
      | None \<Rightarrow> None))"

definition pulled :: "commerce_ops \<Rightarrow> provider_order list \<Rightarrow> (string \<times> order_values) list" where
  "pulled X ps = map (\<lambda>p. (po_id p, order_values_of X p)) ps"

section \<open>The table invariant\<close>

definition order_tables_ok :: "commerce_db \<Rightarrow> bool" where
  "order_tables_ok db \<longleftrightarrow> distinct (map bc_id (cm_connections db)) \<and> distinct (map bc_tenant_id (cm_connections db))
     \<and> (\<forall>c \<in> set (cm_connections db). 0 \<le> bc_published_generation c \<and> bc_published_generation c \<le> bc_sync_generation c)
     \<and> distinct (map sr_id (cm_runs db)) \<and> distinct (map order_key (cm_orders db))
     \<and> (\<forall>r \<in> set (cm_orders db). active_marked r \<longrightarrow> published_order db (od_tenant_id r) r)"

lemma order_tables_okD:
  assumes "order_tables_ok db"
  shows "distinct (map bc_id (cm_connections db))" "distinct (map bc_tenant_id (cm_connections db))"
    "c \<in> set (cm_connections db) \<Longrightarrow> 0 \<le> bc_published_generation c \<and> bc_published_generation c \<le> bc_sync_generation c"
    "distinct (map sr_id (cm_runs db))" "distinct (map order_key (cm_orders db))"
    "r \<in> set (cm_orders db) \<Longrightarrow> active_marked r \<Longrightarrow> published_order db (od_tenant_id r) r"
  using assms by (auto simp: order_tables_ok_def)

lemma order_at_Some: "order_at db t k = Some r \<Longrightarrow> r \<in> set (cm_orders db) \<and> od_tenant_id r = t \<and> od_order_id r = k"
  unfolding order_at_def by (drule tbl_find_Some) (simp add: order_key_def)

lemma order_at_in:
  "order_tables_ok db \<Longrightarrow> r \<in> set (cm_orders db) \<Longrightarrow> order_at db (od_tenant_id r) (od_order_id r) = Some r"
  using distinct_tbl_find[of order_key "cm_orders db" r] by (simp add: order_at_def order_key_def order_tables_ok_def)

text \<open>With the invariant an order is published exactly when its stamp is active.\<close>

lemma published_iff:
  "order_tables_ok db \<Longrightarrow> r \<in> set (cm_orders db) \<Longrightarrow> published_order db t r \<longleftrightarrow> active_marked r \<and> od_tenant_id r = t"
  using order_tables_okD(6) published_active by blast

lemma book_active:
  assumes "order_tables_ok db"
  shows "book db t k = (case order_at db t k of
     Some r \<Rightarrow> if active_marked r then Some (od_values r) else None | None \<Rightarrow> None)"
  using published_iff[OF assms] order_at_Some by (fastforce simp: book_def split: option.splits)

section \<open>Transactions that keep what is published\<close>

definition conn_grows :: "bumpa_connection \<Rightarrow> bumpa_connection \<Rightarrow> bool" where
  "conn_grows c c' \<longleftrightarrow> bc_id c' = bc_id c \<and> bc_tenant_id c' = bc_tenant_id c \<and> bc_status c' = ''active''
     \<and> bc_boundary_revision c' = bc_boundary_revision c \<and> bc_store_currency c' = bc_store_currency c
     \<and> bc_published_generation c \<le> bc_published_generation c' \<and> bc_sync_generation c \<le> bc_sync_generation c'"

definition tables_grow :: "commerce_db \<Rightarrow> commerce_db \<Rightarrow> bool" where
  "tables_grow db db' \<longleftrightarrow> set (cm_runs db) \<subseteq> set (cm_runs db')
     \<and> (\<forall>c \<in> set (cm_connections db). bc_status c = ''active'' \<longrightarrow> (\<exists>c' \<in> set (cm_connections db'). conn_grows c c'))"

lemma filters_grow: "publication_filters t n c \<Longrightarrow> conn_grows c c' \<Longrightarrow> publication_filters t n c'"
  unfolding publication_filters_def conn_grows_def by (auto split: option.splits)

lemma published_witness:
  "published_order db t r \<longleftrightarrow> od_tenant_id r = t \<and> ov_date (od_values r) \<noteq> None \<and> active_marked r
     \<and> (\<exists>n \<in> set (cm_runs db). json_field (order_marker r) ''sync_run_id'' = PStr (sr_id n)
          \<and> (\<exists>c \<in> set (cm_connections db). bc_id c = sr_connection_id n \<and> publication_filters t n c
              \<and> ov_currency (od_values r) = Some (bc_store_currency c)))"
  by (auto simp: published_order_def active_marked_def list_ex_iff)

lemma published_grow:
  assumes "tables_grow db db'" "published_order db t r"
  shows "published_order db' t r"
proof -
  from assms(2) obtain n c where n: "n \<in> set (cm_runs db)" "json_field (order_marker r) ''sync_run_id'' = PStr (sr_id n)"
    and c: "c \<in> set (cm_connections db)" "bc_id c = sr_connection_id n" "publication_filters t n c"
      "ov_currency (od_values r) = Some (bc_store_currency c)"
    unfolding published_witness by blast
  have "bc_status c = ''active''" using c(3) by (simp only: publication_filters_def)
  then obtain c' where c': "c' \<in> set (cm_connections db')" "conn_grows c c'"
    using assms(1) c(1) unfolding tables_grow_def by blast
  have "publication_filters t n c'" by (rule filters_grow[OF c(3) c'(2)])
  moreover have "n \<in> set (cm_runs db')" using assms(1) n(1) unfolding tables_grow_def by blast
  moreover have "bc_id c' = sr_connection_id n" "ov_currency (od_values r) = Some (bc_store_currency c')"
    using c c'(2) by (simp_all add: conn_grows_def)
  ultimately show ?thesis using assms(2) n(2) c'(1) unfolding published_witness by blast
qed

lemma grow_keeps_book:
  assumes "order_tables_ok db" "tables_grow db db'" "cm_orders db' = cm_orders db"
    and "distinct (map bc_id (cm_connections db'))" "distinct (map bc_tenant_id (cm_connections db'))"
    and "\<And>c. c \<in> set (cm_connections db') \<Longrightarrow> 0 \<le> bc_published_generation c \<and> bc_published_generation c \<le> bc_sync_generation c"
    and "distinct (map sr_id (cm_runs db'))"
  shows "order_tables_ok db'" and "book db' t k = book db t k"
proof -
  show ok: "order_tables_ok db'"
    using assms order_tables_okD[OF assms(1)] published_grow[OF assms(2)] unfolding order_tables_ok_def by auto
  show "book db' t k = book db t k"
    unfolding book_active[OF assms(1)] book_active[OF ok] order_at_def assms(3) ..
qed

lemma conn_grows_refl: "bc_status c = ''active'' \<Longrightarrow> conn_grows c c"
  by (simp add: conn_grows_def)

lemma set_connection_keeps:
  assumes ok: "order_tables_ok db" and f: "\<And>c. bc_id (f c) = bc_id c" "\<And>c. bc_tenant_id (f c) = bc_tenant_id c"
    and g: "\<And>c. c \<in> set (cm_connections db) \<Longrightarrow> bc_id c = i \<Longrightarrow>
        0 \<le> bc_published_generation (f c) \<and> bc_published_generation (f c) \<le> bc_sync_generation (f c)"
    and grow: "\<And>c. c \<in> set (cm_connections db) \<Longrightarrow> bc_id c = i \<Longrightarrow> bc_status c = ''active'' \<Longrightarrow> conn_grows c (f c)"
  shows "order_tables_ok (set_connection i f db)" "book (set_connection i f db) t k = book db t k"
proof -
  have tg: "tables_grow db (set_connection i f db)" unfolding tables_grow_def
  proof (intro conjI ballI impI)
    fix c assume c: "c \<in> set (cm_connections db)" "bc_status c = ''active''"
    have "(if bc_id c = i then f c else c) \<in> set (cm_connections (set_connection i f db))"
      using c(1) by (auto simp: set_tbl_upd)
    moreover have "conn_grows c (if bc_id c = i then f c else c)" using grow[OF c(1)] c(2) by (simp add: conn_grows_refl)
    ultimately show "\<exists>c' \<in> set (cm_connections (set_connection i f db)). conn_grows c c'" by blast
  qed simp
  have t: "map bc_tenant_id (cm_connections (set_connection i f db)) = map bc_tenant_id (cm_connections db)"
    by (simp add: tbl_upd_def f(2))
  have b: "0 \<le> bc_published_generation c \<and> bc_published_generation c \<le> bc_sync_generation c"
    if "c \<in> set (cm_connections (set_connection i f db))" for c
    using that order_tables_okD(3)[OF ok] g unfolding set_connection_fields by (elim in_tbl_updE) auto
  have d: "distinct (map bc_id (cm_connections (set_connection i f db)))"
    "distinct (map sr_id (cm_runs (set_connection i f db)))"
    using order_tables_okD(1,4)[OF ok] by (simp_all add: f(1))
  have dt: "distinct (map bc_tenant_id (cm_connections (set_connection i f db)))"
    using order_tables_okD(2)[OF ok] by (simp only: t)
  note keep = grow_keeps_book[OF ok tg set_connection_fields(2) d(1) dt b d(2)]
  show "order_tables_ok (set_connection i f db)" by (rule keep(1))
  show "book (set_connection i f db) t k = book db t k" by (rule keep(2))
qed

lemma add_run_keeps:
  assumes ok: "order_tables_ok db" and r: "sr_id r \<notin> sr_id ` set (cm_runs db)"
  shows "order_tables_ok (add_run r db)" "book (add_run r db) t k = book db t k"
proof -
  have tg: "tables_grow db (add_run r db)" by (auto simp: tables_grow_def intro: conn_grows_refl)
  have d: "distinct (map bc_id (cm_connections (add_run r db)))" "distinct (map bc_tenant_id (cm_connections (add_run r db)))"
    "distinct (map sr_id (cm_runs (add_run r db)))"
    using order_tables_okD(1,2,4)[OF ok] r by simp_all
  have b: "0 \<le> bc_published_generation c \<and> bc_published_generation c \<le> bc_sync_generation c"
    if "c \<in> set (cm_connections (add_run r db))" for c using that order_tables_okD(3)[OF ok] by simp
  note keep = grow_keeps_book[OF ok tg add_run_fields(2) d(1,2) b d(3)]
  show "order_tables_ok (add_run r db)" by (rule keep(1))
  show "book (add_run r db) t k = book db t k" by (rule keep(2))
qed

text \<open>Only connections and runs decide what is published.\<close>

lemma published_cong:
  "cm_connections d = cm_connections a \<Longrightarrow> cm_runs d = cm_runs a \<Longrightarrow> published_order d = published_order a"
  by (intro ext) (simp add: published_order_def)

section \<open>Promotion of a pull\<close>

definition promoted_row :: "commerce_ops \<Rightarrow> ident \<Rightarrow> ident \<Rightarrow> provider_order \<Rightarrow> ident \<Rightarrow> order_row" where
  "promoted_row X tenant rid p oid = \<lparr> od_id = oid, od_tenant_id = tenant, od_order_id = po_id p,
     od_values = order_values_of X p, od_raw = stamp rid ''active'' (cx_redact X (po_payload p)) \<rparr>"

definition row_id_for :: "commerce_ops \<Rightarrow> provider_order \<Rightarrow> order_row option \<Rightarrow> ident" where
  "row_id_for X p prev = (case prev of Some r \<Rightarrow> od_id r | None \<Rightarrow> cx_order_row X (po_id p))"

lemma replace_order_items_fields [simp]:
  "cm_orders (replace_order_items X t oid d c db) = cm_orders db"
  "cm_runs (replace_order_items X t oid d c db) = cm_runs db"
  "cm_connections (replace_order_items X t oid d c db) = cm_connections db"
  by (simp_all add: replace_order_items_def)

lemma promote_order_frame [simp]:
  "cm_runs (promote_order X t rid w p db) = cm_runs db"
  "cm_connections (promote_order X t rid w p db) = cm_connections db"
  by (simp_all add: promote_order_def Let_def split: option.split)

lemma promote_order_rows:
  "cm_orders (promote_order X t rid w p db) = (case order_at db t (po_id p) of
     Some r \<Rightarrow> tbl_upd order_key (t, po_id p)
       (\<lambda>r. r\<lparr>od_values := order_values_of X p, od_raw := stamp rid ''active'' (cx_redact X (po_payload p))\<rparr>) (cm_orders db)
   | None \<Rightarrow> cm_orders db @ [promoted_row X t rid p (cx_order_row X (po_id p))])"
  by (simp add: promote_order_def order_at_def Let_def promoted_row_def split: option.split)

lemma order_at_promote:
  "order_at (promote_order X t rid w p db) t' k =
    (if t' = t \<and> k = po_id p then Some (promoted_row X t rid p (row_id_for X p (order_at db t (po_id p))))
     else order_at db t' k)"
proof (cases "order_at db t (po_id p)")
  case None
  show ?thesis
  proof (cases "order_at db t' k")
    case (Some r)
    then have "\<not> (t' = t \<and> k = po_id p)" using None by auto
    with Some None show ?thesis by (auto simp: order_at_def promote_order_rows tbl_find_append)
  next
    case None2: None
    show ?thesis using None None2
      by (auto simp: order_at_def promote_order_rows tbl_find_append promoted_row_def order_key_def row_id_for_def)
  qed
next
  case (Some r)
  note r = order_at_Some[OF Some]
  have "order_at (promote_order X t rid w p db) t' k = (if (t', k) = (t, po_id p)
      then map_option (\<lambda>r. r\<lparr>od_values := order_values_of X p, od_raw := stamp rid ''active'' (cx_redact X (po_payload p))\<rparr>)
        (order_at db t' k) else order_at db t' k)"
    unfolding order_at_def promote_order_rows Some[unfolded order_at_def] option.case
    by (rule tbl_find_upd) (simp add: order_key_def)
  then show ?thesis using r by (auto simp: Some promoted_row_def row_id_for_def)
qed

lemma distinct_promote:
  assumes "distinct (map order_key (cm_orders db))"
  shows "distinct (map order_key (cm_orders (promote_order X t rid w p db)))"
proof (cases "order_at db t (po_id p)")
  case None
  then have "(t, po_id p) \<notin> order_key ` set (cm_orders db)" by (simp add: order_at_def tbl_find_None)
  with None assms show ?thesis by (simp add: promote_order_rows promoted_row_def order_key_def[of "\<lparr>od_id = _, od_tenant_id = _, od_order_id = _, od_values = _, od_raw = _\<rparr>"])
next
  case (Some r)
  have "map order_key (tbl_upd order_key (t, po_id p)
      (\<lambda>r. r\<lparr>od_values := order_values_of X p, od_raw := stamp rid ''active'' (cx_redact X (po_payload p))\<rparr>) (cm_orders db))
    = map order_key (cm_orders db)" by (rule map_rid_upd) (simp add: order_key_def)
  with Some assms show ?thesis by (simp add: promote_order_rows)
qed

text \<open>All orders of a pull: each is looked up under its key, whatever was there before.\<close>

lemma promote_fold_frame [simp]:
  "cm_runs (fold (promote_order X t rid w) ps db) = cm_runs db"
  "cm_connections (fold (promote_order X t rid w) ps db) = cm_connections db"
  by (induction ps arbitrary: db) simp_all

lemma promote_fold:
  assumes "distinct (map po_id ps)" "distinct (map order_key (cm_orders db))"
  shows "distinct (map order_key (cm_orders (fold (promote_order X t rid w) ps db)))"
    and "order_at (fold (promote_order X t rid w) ps db) t' k = (if t' = t \<and> k \<in> po_id ` set ps
      then Some (promoted_row X t rid (the (find (\<lambda>p. po_id p = k) ps))
        (row_id_for X (the (find (\<lambda>p. po_id p = k) ps)) (order_at db t k)))
      else order_at db t' k)"
  using assms
proof (induction ps arbitrary: db)
  case (Cons p ps)
  { case 1 then show ?case using Cons.IH(1)[OF _ distinct_promote[OF 1(2)]] by simp
  next case 2 then show ?case using Cons.IH(2)[OF _ distinct_promote[OF 2(2)]] by (auto simp: order_at_promote) }
qed simp_all

lemma order_find_map:
  assumes "\<And>r. key (f r) = key r"
  shows "tbl_find key k (map f rs) = map_option f (tbl_find key k rs)"
  unfolding tbl_find_def by (induction rs) (simp_all add: assms)

lemma order_at_supersede:
  "order_at (supersede_absent t rid starts ends ps db) t' k = map_option (\<lambda>r.
     if t' = t \<and> in_range starts ends (ov_date (od_values r)) \<and> k \<notin> po_id ` set ps
     then r\<lparr>od_raw := stamp rid ''superseded'' (od_raw r)\<rparr> else r) (order_at db t' k)"
proof -
  let ?f = "\<lambda>r. if od_tenant_id r = t \<and> in_range starts ends (ov_date (od_values r)) \<and> od_order_id r \<notin> po_id ` set ps
      then r\<lparr>od_raw := stamp rid ''superseded'' (od_raw r)\<rparr> else r"
  have "order_at (supersede_absent t rid starts ends ps db) t' k = map_option ?f (order_at db t' k)"
    using order_find_map[of order_key ?f "(t', k)" "cm_orders db"] by (simp add: order_at_def supersede_absent_def order_key_def)
  then show ?thesis by (cases "order_at db t' k") (auto dest: order_at_Some)
qed

lemma supersede_fields [simp]:
  "cm_runs (supersede_absent t rid starts ends ps db) = cm_runs db"
  "cm_connections (supersede_absent t rid starts ends ps db) = cm_connections db"
  "map order_key (cm_orders (supersede_absent t rid starts ends ps db)) = map order_key (cm_orders db)"
  by (auto simp: supersede_absent_def order_key_def)

lemma membership_ok_members:
  "membership_ok cur starts ends seen ps \<Longrightarrow> p \<in> set ps \<Longrightarrow>
     po_id p \<notin> set seen \<and> po_id p \<noteq> [] \<and> po_currency p = Some cur \<and> in_range starts ends (po_date p)"
  by (induction cur starts ends seen ps rule: membership_ok.induct) (auto simp: in_range_def split: if_splits option.splits)

lemma membership_ok_distinct: "membership_ok cur starts ends seen ps \<Longrightarrow> distinct (map po_id ps)"
proof (induction cur starts ends seen ps rule: membership_ok.induct)
  case (2 cur starts ends seen p ps)
  then obtain d where d: "po_date p = Some d" "membership_ok cur starts ends (po_id p # seen) ps" "distinct (map po_id ps)"
    by (auto split: if_splits option.splits)
  from membership_ok_members[OF d(2)] have "po_id p \<notin> po_id ` set ps" by fastforce
  with d(3) show ?case by simp
qed simp

lemma pulled_lookup:
  "map_of (pulled X ps) k = (if k \<in> po_id ` set ps then Some (order_values_of X (the (find (\<lambda>p. po_id p = k) ps))) else None)"
  by (induction ps) (auto simp: pulled_def)

lemma find_member: "k \<in> po_id ` set ps \<Longrightarrow> the (find (\<lambda>p. po_id p = k) ps) \<in> set ps \<and> po_id (the (find (\<lambda>p. po_id p = k) ps)) = k"
  by (induction ps) auto

lemma promoted_row_fields [simp]:
  "od_tenant_id (promoted_row X t rid p i) = t" "od_order_id (promoted_row X t rid p i) = po_id p"
  "od_values (promoted_row X t rid p i) = order_values_of X p"
  "od_raw (promoted_row X t rid p i) = stamp rid ''active'' (cx_redact X (po_payload p))"
  by (simp_all add: promoted_row_def)

lemma promoted_active: "active_marked (promoted_row X t rid p i)"
  unfolding active_marked_def
  by (rule conjunct1[OF stamped_marker[of _ rid "''active''" "cx_redact X (po_payload p)"]]) simp

definition superseded_row :: "ident \<Rightarrow> ident \<Rightarrow> time \<Rightarrow> time \<Rightarrow> order_row \<Rightarrow> order_row" where
  "superseded_row t rid starts ends r = (if od_tenant_id r = t \<and> in_range starts ends (ov_date (od_values r))
     then r\<lparr>od_raw := stamp rid ''superseded'' (od_raw r)\<rparr> else r)"

lemma superseded_row_marked:
  "active_marked (superseded_row t rid starts ends r) \<longleftrightarrow>
     active_marked r \<and> \<not> (od_tenant_id r = t \<and> in_range starts ends (ov_date (od_values r)))"
  using superseded_not_active[of "superseded_row t rid starts ends r" rid "od_raw r"] by (auto simp: superseded_row_def)

lemma superseded_row_values [simp]: "od_values (superseded_row t rid starts ends r) = od_values r"
  by (simp add: superseded_row_def)

lemma lookup_promoted:
  assumes "distinct (map po_id ps)" "distinct (map order_key (cm_orders db))"
  shows "distinct (map order_key (cm_orders (fold (promote_order X t rid w) ps (supersede_absent t rid starts ends ps db))))"
    and "\<exists>ids. \<forall>t' k. order_at (fold (promote_order X t rid w) ps (supersede_absent t rid starts ends ps db)) t' k =
      (if t' = t \<and> k \<in> po_id ` set ps then Some (promoted_row X t rid (the (find (\<lambda>p. po_id p = k) ps)) (ids k))
       else map_option (superseded_row t rid starts ends) (order_at db t' k))"
proof -
  let ?S = "supersede_absent t rid starts ends ps db"
  have d: "distinct (map order_key (cm_orders ?S))" using assms(2) by simp
  show "distinct (map order_key (cm_orders (fold (promote_order X t rid w) ps ?S)))" by (rule promote_fold(1)[OF assms(1) d])
  have "order_at ?S t' k = map_option (superseded_row t rid starts ends) (order_at db t' k)"
    if "\<not> (t' = t \<and> k \<in> po_id ` set ps)" for t' k
    using that unfolding order_at_supersede by (cases "order_at db t' k") (auto simp: superseded_row_def dest: order_at_Some)
  then have "\<forall>t' k. order_at (fold (promote_order X t rid w) ps ?S) t' k = (if t' = t \<and> k \<in> po_id ` set ps
      then Some (promoted_row X t rid (the (find (\<lambda>p. po_id p = k) ps))
        (row_id_for X (the (find (\<lambda>p. po_id p = k) ps)) (order_at ?S t k)))
      else map_option (superseded_row t rid starts ends) (order_at db t' k))"
    unfolding promote_fold(2)[OF assms(1) d] by auto
  then show "\<exists>ids. \<forall>t' k. order_at (fold (promote_order X t rid w) ps ?S) t' k =
      (if t' = t \<and> k \<in> po_id ` set ps then Some (promoted_row X t rid (the (find (\<lambda>p. po_id p = k) ps)) (ids k))
       else map_option (superseded_row t rid starts ends) (order_at db t' k))"
    by (intro exI[of _ "\<lambda>k. row_id_for X (the (find (\<lambda>p. po_id p = k) ps)) (order_at ?S t k)"])
qed

text \<open>The step from the tables before a promotion, with the run already completed, to those after.\<close>

lemma promotion_step:
  assumes ok: "order_tables_ok a" and eq: "cm_connections d = cm_connections a" "cm_runs d = cm_runs a"
    and dist: "distinct (map order_key (cm_orders d))"
    and at: "\<And>t' k. order_at d t' k = (if t' = t \<and> k \<in> po_id ` set ps
        then Some (promoted_row X t rid (the (find (\<lambda>p. po_id p = k) ps)) (ids k))
        else map_option (superseded_row t rid starts ends) (order_at a t' k))"
    and pub: "\<And>p i. p \<in> set ps \<Longrightarrow> published_order a t (promoted_row X t rid p i)"
  shows "order_tables_ok d"
    and "book d t' k = (if t' = t then publish_book starts ends (pulled X ps) (book a t) k else book a t' k)"
proof -
  have look: "order_at d (od_tenant_id r) (od_order_id r) = Some r" if "r \<in> set (cm_orders d)" for r
    using distinct_tbl_find[OF dist that] by (simp add: order_at_def order_key_def)
  have act: "published_order d (od_tenant_id r) r" if r: "r \<in> set (cm_orders d)" "active_marked r" for r
  proof (cases "od_tenant_id r = t \<and> od_order_id r \<in> po_id ` set ps")
    case True
    let ?p = "the (find (\<lambda>p. po_id p = od_order_id r) ps)"
    have "promoted_row X t rid ?p (ids (od_order_id r)) = r" using look[OF r(1)] True by (simp add: at)
    moreover have "?p \<in> set ps" using find_member[of "od_order_id r" ps] True by simp
    ultimately have "published_order a t r" using pub[of ?p "ids (od_order_id r)"] by simp
    then show ?thesis using True by (simp add: published_cong[OF eq])
  next
    case False
    then obtain q where q: "order_at a (od_tenant_id r) (od_order_id r) = Some q" "r = superseded_row t rid starts ends q"
      using look[OF r(1)] by (auto simp: at)
    then have "r = q" using r(2) superseded_row_marked[of t rid starts ends q] by (auto simp: superseded_row_def)
    then show ?thesis using order_tables_okD(6)[OF ok] order_at_Some[OF q(1)] r(2) by (simp add: published_cong[OF eq])
  qed
  show okd: "order_tables_ok d" using ok dist act eq unfolding order_tables_ok_def by simp
  show "book d t' k = (if t' = t then publish_book starts ends (pulled X ps) (book a t) k else book a t' k)"
  proof (cases "t' = t \<and> k \<in> po_id ` set ps")
    case True
    then show ?thesis by (simp add: book_active[OF okd] at promoted_active publish_book_def pulled_lookup)
  next
    case False
    show ?thesis
    proof (cases "order_at a t' k")
      case None
      with False show ?thesis by (auto simp: book_active[OF okd] book_active[OF ok] at publish_book_def pulled_lookup)
    next
      case (Some q)
      from False Some order_at_Some[OF Some] show ?thesis
        by (auto simp: book_active[OF okd] book_active[OF ok] at publish_book_def pulled_lookup superseded_row_marked)
    qed
  qed
qed

section \<open>A whole publication\<close>

lemma stage_evidence_fields [simp]:
  "cm_runs (stage_evidence X t rid since until x db) = cm_runs db"
  "cm_connections (stage_evidence X t rid since until x db) = cm_connections db"
  "cm_orders (stage_evidence X t rid since until x db) = cm_orders db"
  by (simp_all add: stage_evidence_def)

lemma scope_cong:
  assumes "cm_runs d = cm_runs a" "cm_connections d = cm_connections a"
  shows "order_publication_scope X t rid ps d = order_publication_scope X t rid ps a"
  unfolding order_publication_scope_def assms ..

lemma scope_Inr:
  assumes "order_publication_scope X t rid ps db = Inr (starts, ends)"
  obtains r c m where "tbl_find sr_id rid (cm_runs db) = Some r"
    "tbl_find bc_id (sr_connection_id r) (cm_connections db) = Some c" "\<not> scope_unavailable t r c"
    "cx_midnight X (bc_store_timezone c) = Some m" "starts = m (sr_requested_from r)" "ends = m (sr_requested_to r + 1)"
    "membership_ok (bc_store_currency c) starts ends [] ps"
  using assms that unfolding order_publication_scope_def
  by (auto simp: Let_def split: option.splits if_splits)

lemma stage_cases:
  assumes "stage_sync_publication X t rid since until x a = Inr (st, d)"
  shows "(\<exists>starts ends. order_publication_scope X t rid (snapshot_orders x) a = Inr (starts, ends)
       \<and> d = fold (promote_order X t rid (live_of x = None)) (snapshot_orders x)
           (supersede_absent t rid starts ends (snapshot_orders x) (stage_evidence X t rid since until x a))
       \<and> sg_orders_availability st = ''available'' \<and> sg_orders_count st = Some (int (length (snapshot_orders x)))
       \<and> dict_get (sg_results st) ''_bumpa_order_publication'' = publication_evidence)
     \<or> d = stage_evidence X t rid since until x a \<and> sg_orders_count st = None"
proof -
  let ?a = "stage_evidence X t rid since until x a"
  obtain v e where v: "orders_verdict X t rid x a = Inr (v, e)"
    using assms by (auto simp: stage_sync_publication_def and_then_Inr)
  show ?thesis
  proof (cases "v = ''available'' \<and> e = None")
    case False
    from assms[unfolded stage_sync_publication_def v and_then_simps prod.case Let_def if_not_P[OF False]]
    show ?thesis by auto
  next
    case True
    then obtain db2 where p: "promote_orders X t rid (snapshot_orders x) (live_of x = None) ?a = Inr db2" "d = db2"
      and s: "sg_orders_availability st = ''available''" "sg_orders_count st = Some (int (length (snapshot_orders x)))"
        "sg_results st = dict_set (dataset_results_of (snapshot_datasets x)) ''_bumpa_order_publication'' publication_evidence"
      using assms by (auto simp: stage_sync_publication_def v Let_def and_then_Inr)
    from p obtain starts ends where "order_publication_scope X t rid (snapshot_orders x) ?a = Inr (starts, ends)"
      "d = fold (promote_order X t rid (live_of x = None)) (snapshot_orders x)
         (supersede_absent t rid starts ends (snapshot_orders x) ?a)"
      by (auto simp: promote_orders_def and_then_Inr)
    moreover have "dict_get (sg_results st) ''_bumpa_order_publication'' = publication_evidence"
      by (simp only: s(3) dict_get_set if_True refl)
    ultimately show ?thesis using s(1,2) scope_cong[of ?a a] by auto
  qed
qed

lemma publish_staged:
  assumes "publish_extracted X b t g r x now db = Inr (StagedAt r' db')"
  obtains c st d where "c \<in> set (cm_connections db)" "capture_boundary c = b" "g \<le> bc_sync_generation c"
    "bc_published_generation c < g"
    "stage_sync_publication X t (sr_id r) (sr_requested_from r) (sr_requested_to r) x
       (add_run r (set_connection (bd_id b) (\<lambda>c. c\<lparr>bc_published_generation := g\<rparr>) db)) = Inr (st, d)"
    "r' = completed_run st x now r"
    "db' = set_connection (bd_id b) (freshness_update st now) (set_run (sr_id r) (\<lambda>_. r') d)"
proof -
  from assms obtain db1 where c: "claim_publication_generation b g db = Inr (Some db1)"
    unfolding publish_extracted_def by (auto simp: and_then_Inr split: option.splits)
  with assms obtain st d where s: "stage_sync_publication X t (sr_id r) (sr_requested_from r) (sr_requested_to r) x (add_run r db1) = Inr (st, d)"
    "r' = completed_run st x now r"
    "db' = set_connection (bd_id b) (freshness_update st now) (set_run (sr_id r) (\<lambda>_. r') d)"
    unfolding publish_extracted_def by (auto simp: Let_def split: sum.splits)
  from c obtain co where co: "co \<in> set (cm_connections db)" "capture_boundary co = b" "g \<le> bc_sync_generation co"
    "bc_published_generation co < g" "db1 = set_connection (bd_id b) (\<lambda>c. c\<lparr>bc_published_generation := g\<rparr>) db"
    by (rule claim_publication_Some)
  show thesis by (rule that[OF co(1-4) _ s(2,3)]) (use s(1) co(5) in simp)
qed

lemma classify_outcomes:
  "sc_status (classify_sync_completion ds v e) \<in> {SSuccess, SPartial}
     \<and> sc_quality (classify_sync_completion ds v e) \<in> {QComplete, QAcceptedPartial, QDegraded}"
  by (simp add: classify_sync_completion_def)

lemma stage_completion:
  assumes "stage_sync_publication X t rid since until x a = Inr (st, d)"
  shows "sg_completion st = classify_sync_completion (snapshot_datasets x) (sg_orders_availability st) (sg_orders_error st)"
  using assms unfolding stage_sync_publication_def by (auto simp: and_then_Inr Let_def split: if_splits)

lemma completed_run_fields [simp]:
  "sr_id (completed_run st x now r) = sr_id r" "sr_tenant_id (completed_run st x now r) = sr_tenant_id r"
  "sr_connection_id (completed_run st x now r) = sr_connection_id r"
  "sr_status (completed_run st x now r) = sc_status (sg_completion st)"
  "sr_quality (completed_run st x now r) = sc_quality (sg_completion st)"
  "sr_partial_reason (completed_run st x now r) = sc_partial_reason (sg_completion st)"
  "sr_requested_from (completed_run st x now r) = sr_requested_from r"
  "sr_requested_to (completed_run st x now r) = sr_requested_to r"
  "sr_finished_at (completed_run st x now r) = Some now" "sr_error (completed_run st x now r) = sr_error r"
  "sr_orders_availability (completed_run st x now r) = Some (sg_orders_availability st)"
  "sr_orders_count (completed_run st x now r) = sg_orders_count st"
  "sr_boundary_revision (completed_run st x now r) = sr_boundary_revision r"
  "sr_sync_generation (completed_run st x now r) = sr_sync_generation r"
  "cr_results (completed_run st x now r) = sg_results st"
  by (simp_all add: completed_run_def Let_def split: option.split)

lemma new_run_fields [simp]:
  "sr_id (new_run b i t g since until s) = i" "sr_tenant_id (new_run b i t g since until s) = t"
  "sr_connection_id (new_run b i t g since until s) = bd_id b" "sr_status (new_run b i t g since until s) = SRunning"
  "sr_requested_from (new_run b i t g since until s) = since" "sr_requested_to (new_run b i t g since until s) = until"
  "sr_error (new_run b i t g since until s) = None" "sr_boundary_revision (new_run b i t g since until s) = bd_revision b"
  "sr_sync_generation (new_run b i t g since until s) = Some g"
  by (simp_all add: new_run_def)

lemma freshness_update_fields [simp]:
  "bc_id (freshness_update st now c) = bc_id c" "bc_tenant_id (freshness_update st now c) = bc_tenant_id c"
  "bc_status (freshness_update st now c) = bc_status c"
  "bc_boundary_revision (freshness_update st now c) = bc_boundary_revision c"
  "bc_store_currency (freshness_update st now c) = bc_store_currency c"
  "bc_store_timezone (freshness_update st now c) = bc_store_timezone c"
  "bc_published_generation (freshness_update st now c) = bc_published_generation c"
  "bc_sync_generation (freshness_update st now c) = bc_sync_generation c"
  by (simp_all add: freshness_update_def)

lemma tbl_upd_twice: "(\<And>r. rid (h r) = rid r) \<Longrightarrow> tbl_upd rid k f (tbl_upd rid k h rs) = tbl_upd rid k (\<lambda>r. f (h r)) rs"
  by (simp add: tbl_upd_def)

lemma tables_cong:
  assumes "cm_connections d = cm_connections a" "cm_runs d = cm_runs a" "cm_orders d = cm_orders a"
  shows "order_tables_ok d = order_tables_ok a" "book d = book a"
proof -
  note p = published_cong[OF assms(1,2)]
  show "order_tables_ok d = order_tables_ok a" unfolding order_tables_ok_def p assms ..
  show "book d = book a" by (intro ext) (unfold book_def order_at_def p assms, rule refl)
qed

lemma evidence_filters:
  assumes "dict_get rs ''_bumpa_order_publication'' = publication_evidence"
  shows "json_field (dict_get rs ''_bumpa_order_publication'') ''version'' = PInt 1"
    "json_field (dict_get rs ''_bumpa_order_publication'') ''state'' = PStr ''complete''"
  unfolding assms by (simp_all add: publication_evidence_def json_field_def dict_get_def)

text \<open>The connection that is staged at: matched by the fence, then with the published generation of the pull.\<close>

lemma connection_at:
  assumes "order_tables_ok db" "c \<in> set (cm_connections db)"
  shows "tbl_find bc_id (bc_id c) (cm_connections db) = Some c"
  by (rule distinct_tbl_find[OF order_tables_okD(1)[OF assms(1)] assms(2)])

lemma run_at:
  "sr_id r \<notin> sr_id ` set rs \<Longrightarrow> tbl_find sr_id (sr_id r) (rs @ [r]) = Some r"
  by (simp add: tbl_find_append tbl_find_None[THEN iffD2])

text \<open>A run completed with the evidence passes the filters at the connection that carries its generation.\<close>

lemma completed_filters:
  assumes st: "stage_sync_publication X t rid since until x a = Inr (st, d)" "sg_orders_availability st = ''available''"
      "sg_orders_count st = Some n" "dict_get (sg_results st) ''_bumpa_order_publication'' = publication_evidence"
    and r': "r' = completed_run st x now (new_run b rid t g since until start)"
    and c: "bc_id c = bd_id b" "bc_tenant_id c = t" "bc_status c = ''active''"
      "bc_boundary_revision c = bd_revision b" "bc_published_generation c = g" "g \<le> bc_sync_generation c"
    and s: "0 < g" "since \<le> until"
  shows "publication_filters t r' c"
  using s c evidence_filters[OF st(4)] st(2,3) classify_outcomes[of "snapshot_datasets x"]
  unfolding publication_filters_def by (simp add: r' stage_completion[OF st(1)])

lemma member_published:
  assumes r: "publication_filters t n c" "n \<in> set (cm_runs A)" "c \<in> set (cm_connections A)"
    and p: "po_currency p = Some (bc_store_currency c)" "in_range starts ends (po_date p)"
  shows "published_order A t (promoted_row X t (sr_id n) p i)"
proof -
  have "ov_date (order_values_of X p) \<noteq> None" "ov_currency (order_values_of X p) = Some (bc_store_currency c)"
    using p by (auto simp: order_values_of_def Let_def in_range_def split: option.splits)
  moreover have "json_field (order_marker (promoted_row X t (sr_id n) p i)) ''sync_run_id'' = PStr (sr_id n)"
    using stamped_marker[of "promoted_row X t (sr_id n) p i"] by simp
  moreover have "bc_id c = sr_connection_id n" using r(1) by (simp add: publication_filters_def)
  ultimately show ?thesis unfolding published_witness using r promoted_active[of X t "sr_id n" p i] by auto
qed

lemma publication_refines:
  assumes ok: "order_tables_ok db" and fresh: "rid \<notin> sr_id ` set (cm_runs db)"
    and pub: "publish_extracted X b t g (new_run b rid t g since until start) x now db = Inr (StagedAt r' db')"
  shows "order_tables_ok db'" and "sr_sync_generation r' = Some g"
    and "sr_orders_count r' = None \<Longrightarrow> book db' = book db"
    and "sr_orders_count r' \<noteq> None \<Longrightarrow> \<exists>m. cx_midnight X (bd_store_timezone b) = Some m \<and> bd_tenant_id b = t
      \<and> bd_status b = ''active'' \<and> 0 < g \<and> run_published db' t r'
      \<and> membership_ok (bd_store_currency b) (m since) (m (until + 1)) [] (snapshot_orders x)
      \<and> (\<forall>t' k. book db' t' k = (if t' = t
            then publish_book (m since) (m (until + 1)) (pulled X (snapshot_orders x)) (book db t) k else book db t' k))"
proof -
  let ?r = "new_run b rid t g since until start" and ?i = "bd_id b"
  from pub obtain c st d where c: "c \<in> set (cm_connections db)" "capture_boundary c = b" "g \<le> bc_sync_generation c"
      "bc_published_generation c < g"
    and st: "stage_sync_publication X t rid since until x
       (add_run ?r (set_connection ?i (\<lambda>c. c\<lparr>bc_published_generation := g\<rparr>) db)) = Inr (st, d)"
    and r': "r' = completed_run st x now ?r"
    and db': "db' = set_connection ?i (freshness_update st now) (set_run rid (\<lambda>_. r') d)"
    by (rule publish_staged) simp
  note cf = capture_fields[OF c(2)]
  define P where "P = set_connection ?i (\<lambda>c. c\<lparr>bc_published_generation := g\<rparr>) db"
  define f where "f = (\<lambda>c. freshness_update st now (c\<lparr>bc_published_generation := g\<rparr>))"
  define A where "A = add_run r' (set_connection ?i f db)"
  have same: "c' = c" if "c' \<in> set (cm_connections db)" "bc_id c' = ?i" for c'
    using connection_at[OF ok that(1)] connection_at[OF ok c(1)] cf(1) that(2) by simp
  have F: "order_tables_ok (set_connection ?i f db)" "book (set_connection ?i f db) t' k = book db t' k" for t' k
    using order_tables_okD(3)[OF ok c(1)] c(3,4)
    by (intro set_connection_keeps[OF ok]; auto simp: f_def conn_grows_def dest!: same)+
  have okA: "order_tables_ok A" and bookA: "book A = book db"
    unfolding A_def using add_run_keeps[OF F(1), of r'] fresh F(2) by (auto simp: r' fun_eq_iff)
  have runs: "cm_runs db' = cm_runs A \<and> cm_connections db' = cm_connections A" if "cm_runs d = cm_runs (add_run ?r P)"
    "cm_connections d = cm_connections (add_run ?r P)"
  proof -
    have "tbl_upd sr_id rid (\<lambda>_. r') (cm_runs db @ [?r]) = cm_runs db @ [r']"
      using tbl_upd_absent[OF fresh, of "\<lambda>_. r'"] by (simp add: tbl_upd_def r')
    moreover have "tbl_upd bc_id ?i (freshness_update st now) (tbl_upd bc_id ?i (\<lambda>c. c\<lparr>bc_published_generation := g\<rparr>) cs) =
      tbl_upd bc_id ?i f cs" for cs unfolding f_def by (rule tbl_upd_twice) simp
    ultimately show ?thesis using that by (simp add: db' A_def P_def)
  qed
  note cases = stage_cases[OF st[folded P_def]]
  show "sr_sync_generation r' = Some g" by (simp add: r')
  have none: "order_tables_ok db' \<and> book db' = book db" if "d = stage_evidence X t rid since until x (add_run ?r P)"
  proof -
    have "cm_orders db' = cm_orders A" by (simp add: db' that P_def A_def)
    moreover have "cm_runs db' = cm_runs A \<and> cm_connections db' = cm_connections A" by (rule runs) (simp_all add: that)
    ultimately show ?thesis using tables_cong[of db' A] okA bookA by simp
  qed
  have some: "order_tables_ok db' \<and> (\<exists>m. cx_midnight X (bd_store_timezone b) = Some m \<and> bd_tenant_id b = t
      \<and> bd_status b = ''active'' \<and> 0 < g \<and> run_published db' t r'
      \<and> membership_ok (bd_store_currency b) (m since) (m (until + 1)) [] (snapshot_orders x)
      \<and> (\<forall>t' k. book db' t' k = (if t' = t
            then publish_book (m since) (m (until + 1)) (pulled X (snapshot_orders x)) (book db t) k else book db t' k)))"
    if sc: "order_publication_scope X t rid (snapshot_orders x) (add_run ?r P) = Inr (starts, ends)"
      and d: "d = fold (promote_order X t rid (live_of x = None)) (snapshot_orders x)
           (supersede_absent t rid starts ends (snapshot_orders x) (stage_evidence X t rid since until x (add_run ?r P)))"
      and ev: "sg_orders_availability st = ''available''" "sg_orders_count st = Some (int (length (snapshot_orders x)))"
        "dict_get (sg_results st) ''_bumpa_order_publication'' = publication_evidence"
    for starts ends
  proof -
    let ?ps = "snapshot_orders x" and ?c1 = "c\<lparr>bc_published_generation := g\<rparr>"
    have c1: "tbl_find bc_id ?i (cm_connections (add_run ?r P)) = Some ?c1"
      using connection_at[OF ok c(1)] cf(1) tbl_find_upd[of bc_id "\<lambda>c. c\<lparr>bc_published_generation := g\<rparr>" ?i ?i "cm_connections db"]
      by (simp add: P_def)
    from sc obtain r0 c0 m where r0: "tbl_find sr_id rid (cm_runs (add_run ?r P)) = Some r0"
      "tbl_find bc_id (sr_connection_id r0) (cm_connections (add_run ?r P)) = Some c0" "\<not> scope_unavailable t r0 c0"
      "cx_midnight X (bc_store_timezone c0) = Some m" "starts = m (sr_requested_from r0)" "ends = m (sr_requested_to r0 + 1)"
      "membership_ok (bc_store_currency c0) starts ends [] ?ps" by (rule scope_Inr)
    have "r0 = ?r" using r0(1) run_at[of ?r "cm_runs db"] fresh by (simp add: P_def)
    then have c0: "c0 = ?c1" using r0(2) c1 by simp
    note scope = r0(3)[unfolded \<open>r0 = ?r\<close> c0 scope_unavailable_def]
    have s: "bd_tenant_id b = t" "bd_status b = ''active''" "0 < g" "since \<le> until"
      using scope cf by (auto)
    have rows: "cm_runs d = cm_runs (add_run ?r P)" "cm_connections d = cm_connections (add_run ?r P)" by (simp_all add: d)
    note eqs = runs[OF rows]
    note dp = membership_ok_distinct[OF r0(7)]
    have dS: "distinct (map order_key (cm_orders (stage_evidence X t rid since until x (add_run ?r P))))"
      using order_tables_okD(5)[OF ok] by (simp add: P_def)
    have ordd: "cm_orders db' = cm_orders d" by (simp add: db')
    note look = lookup_promoted[OF dp dS, of X t rid "live_of x = None" starts ends, folded d]
    obtain ids where at: "order_at db' t' k = (if t' = t \<and> k \<in> po_id ` set ?ps
        then Some (promoted_row X t rid (the (find (\<lambda>p. po_id p = k) ?ps)) (ids k))
        else map_option (superseded_row t rid starts ends) (order_at A t' k))" for t' k
    proof -
      have a: "order_at db' t' k = order_at d t' k" "order_at (stage_evidence X t rid since until x (add_run ?r P)) t' k = order_at A t' k"
        for t' k by (simp_all add: order_at_def ordd A_def P_def)
      from look(2) show thesis unfolding a(2) a(1)[symmetric] using that by (elim exE) blast
    qed
    have dist: "distinct (map order_key (cm_orders db'))" unfolding ordd by (rule look(1))
    have con: "f c \<in> set (cm_connections A)" "r' \<in> set (cm_runs A)" using c(1) cf(1) by (auto simp: A_def set_tbl_upd)
    have fil: "publication_filters t r' (f c)"
      by (rule completed_filters[OF st[folded P_def] ev r']) (use c(3) cf s in \<open>auto simp: f_def\<close>)
    have new: "published_order A t (promoted_row X t rid p i)" if p: "p \<in> set ?ps" for p i
      using member_published[OF fil con(2,1), of p starts ends X i] membership_ok_members[OF r0(7) p]
      by (simp add: c0 f_def r')
    have rp: "run_published db' t r'" using con(1) fil conjunct2[OF eqs] cf(1)
      by (auto simp: run_published_def list_ex_iff f_def r' intro!: bexI[of _ "f c"])
    note step = promotion_step[OF okA conjunct2[OF eqs] conjunct1[OF eqs] dist at new]
    have "cx_midnight X (bd_store_timezone b) = Some m" using r0(4) cf(4) c0 by simp
    moreover have "starts = m since" "ends = m (until + 1)" using r0(5,6) \<open>r0 = ?r\<close> by simp_all
    ultimately show ?thesis using step s rp r0(7) cf(5) c0 by (auto simp: bookA)
  qed
  show "order_tables_ok db'" using cases none some by blast
  show "sr_orders_count r' = None \<Longrightarrow> book db' = book db" using cases none by (auto simp: r')
  show "sr_orders_count r' \<noteq> None \<Longrightarrow> \<exists>m. cx_midnight X (bd_store_timezone b) = Some m \<and> bd_tenant_id b = t
      \<and> bd_status b = ''active'' \<and> 0 < g \<and> run_published db' t r'
      \<and> membership_ok (bd_store_currency b) (m since) (m (until + 1)) [] (snapshot_orders x)
      \<and> (\<forall>t' k. book db' t' k = (if t' = t
            then publish_book (m since) (m (until + 1)) (pulled X (snapshot_orders x)) (book db t) k else book db t' k))"
    using cases
  proof (elim disjE exE conjE)
    fix starts ends
    assume "order_publication_scope X t rid (snapshot_orders x) (add_run ?r P) = Inr (starts, ends)"
      "d = fold (promote_order X t rid (live_of x = None)) (snapshot_orders x)
         (supersede_absent t rid starts ends (snapshot_orders x) (stage_evidence X t rid since until x (add_run ?r P)))"
      "sg_orders_availability st = ''available''" "sg_orders_count st = Some (int (length (snapshot_orders x)))"
      "dict_get (sg_results st) ''_bumpa_order_publication'' = publication_evidence"
    from conjunct2[OF some[OF this]] show ?thesis .
  next
    assume "sr_orders_count r' \<noteq> None" "sg_orders_count st = None"
    then show ?thesis by (simp add: r')
  qed
qed

end
