(* ===== verification/CommerceOrder.thy ===== *)
theory CommerceOrder
  imports CommerceBook
begin

text \<open>
  Pulls, failures, replacements of connections and key rotations interleave freely. The state is the database with
  the claims made so far and the publications that took effect; the book of every tenant is the replay of the latter.
\<close>

section \<open>Steps\<close>

datatype book_event =
    Published (pe_tenant: ident) (pe_connection: ident) (pe_generation: int) (pe_starts: time) (pe_ends: time)
      (pe_orders: "(string \<times> order_values) list")
  | Emptied ident

fun apply_event :: "ident \<Rightarrow> book_event \<Rightarrow> (string \<Rightarrow> order_values option) \<Rightarrow> string \<Rightarrow> order_values option" where
  "apply_event t (Published t' _ _ starts ends os) B = (if t = t' then publish_book starts ends os B else B)"
| "apply_event t (Emptied t') B = (if t = t' then (\<lambda>_. None) else B)"

definition replay :: "ident \<Rightarrow> book_event list \<Rightarrow> string \<Rightarrow> order_values option" where
  "replay t es = fold (apply_event t) es (\<lambda>_. None)"

record sync_world =
  sw_db :: commerce_db
  sw_claims :: "(boundary \<times> int) list"
  sw_log :: "book_event list"

definition publication_events ::
  "commerce_ops \<Rightarrow> boundary \<Rightarrow> ident \<Rightarrow> int \<Rightarrow> int \<Rightarrow> int \<Rightarrow> extracted_sync \<Rightarrow> commerce_run \<Rightarrow> book_event list" where
  "publication_events X b t g since until x r = (if sr_orders_count r = None then []
     else case cx_midnight X (bd_store_timezone b) of None \<Rightarrow> []
       | Some m \<Rightarrow> [Published t (bd_id b) g (m since) (m (until + 1)) (pulled X (snapshot_orders x))])"

definition new_connection :: "bumpa_connection \<Rightarrow> commerce_db \<Rightarrow> bool" where
  "new_connection c db \<longleftrightarrow> bc_id c \<notin> bc_id ` set (cm_connections db) \<and> bc_tenant_id c \<notin> bc_tenant_id ` set (cm_connections db)
     \<and> bc_status c = ''active'' \<and> bc_boundary_revision c = 1 \<and> bc_sync_generation c = 0 \<and> bc_published_generation c = 0"

inductive sync_step :: "commerce_ops \<Rightarrow> sync_world \<Rightarrow> sync_world \<Rightarrow> bool" for X where
  claimed: "claim_sync_generation b (sw_db w) = Inr (g, db') \<Longrightarrow>
     sync_step X w (w\<lparr>sw_db := db', sw_claims := sw_claims w @ [(b, g)]\<rparr>)"
| failed: "sr_id r \<notin> sr_id ` set (cm_runs (sw_db w)) \<Longrightarrow>
     persist_extraction_failure b r err now (sw_db w) = Inr db' \<Longrightarrow> sync_step X w (w\<lparr>sw_db := db'\<rparr>)"
| superseded: "rid \<notin> sr_id ` set (cm_runs (sw_db w)) \<Longrightarrow>
     publish_extracted X b t g (new_run b rid t g since until start) x now (sw_db w) = Inr (SupersededBy db') \<Longrightarrow>
     sync_step X w (w\<lparr>sw_db := db'\<rparr>)"
| published: "(b, g) \<in> set (sw_claims w) \<Longrightarrow> rid \<notin> sr_id ` set (cm_runs (sw_db w)) \<Longrightarrow>
     publish_extracted X b t g (new_run b rid t g since until start) x now (sw_db w) = Inr (StagedAt r db') \<Longrightarrow>
     sync_step X w (w\<lparr>sw_db := db', sw_log := sw_log w @ publication_events X b t g since until x r\<rparr>)"
| replaced: "c \<in> set (cm_connections (sw_db w)) \<Longrightarrow> replace_bumpa_connection key i c (sw_db w) = Inr (changed, db') \<Longrightarrow>
     sync_step X w (w\<lparr>sw_db := db', sw_log := sw_log w @ (if changed then [Emptied (bc_tenant_id c)] else [])\<rparr>)"
| rekeyed: "sync_step X w (w\<lparr>sw_db := set_connection k (\<lambda>c. c\<lparr>bc_encrypted_api_key := key\<rparr>) (sw_db w)\<rparr>)"
| connected: "new_connection c (sw_db w) \<Longrightarrow>
     sync_step X w (w\<lparr>sw_db := (sw_db w)\<lparr>cm_connections := cm_connections (sw_db w) @ [c]\<rparr>\<rparr>)"

definition sync_start :: "sync_world \<Rightarrow> bool" where
  "sync_start w \<longleftrightarrow> order_tables_ok (sw_db w) \<and> cm_orders (sw_db w) = [] \<and> sw_claims w = [] \<and> sw_log w = []"

section \<open>The invariant\<close>

definition claim_generations :: "ident \<Rightarrow> (boundary \<times> int) list \<Rightarrow> int list" where
  "claim_generations i cl = map snd (filter (\<lambda>(b, g). bd_id b = i) cl)"

definition published_generations :: "ident \<Rightarrow> book_event list \<Rightarrow> int list" where
  "published_generations i es = map pe_generation (filter (\<lambda>e. case e of Published _ j _ _ _ _ \<Rightarrow> j = i | _ \<Rightarrow> False) es)"

text \<open>\<open>reached db i g p\<close>: connection i has claimed g and published p, or more.\<close>

definition reached :: "commerce_db \<Rightarrow> ident \<Rightarrow> int \<Rightarrow> int \<Rightarrow> bool" where
  "reached db i g p \<longleftrightarrow> (\<exists>c \<in> set (cm_connections db). bc_id c = i \<and> g \<le> bc_sync_generation c \<and> p \<le> bc_published_generation c)"

definition sync_inv :: "sync_world \<Rightarrow> bool" where
  "sync_inv w \<longleftrightarrow> order_tables_ok (sw_db w) \<and> (\<forall>t. book (sw_db w) t = replay t (sw_log w))
     \<and> (\<forall>(b, g) \<in> set (sw_claims w). reached (sw_db w) (bd_id b) g 0)
     \<and> (\<forall>i. \<forall>g \<in> set (published_generations i (sw_log w)). reached (sw_db w) i g g \<and> g \<in> set (claim_generations i (sw_claims w)))
     \<and> (\<forall>i. sorted_wrt (<) (claim_generations i (sw_claims w)))
     \<and> (\<forall>i. sorted_wrt (<) (published_generations i (sw_log w)))"

definition advances :: "commerce_db \<Rightarrow> commerce_db \<Rightarrow> bool" where
  "advances db db' \<longleftrightarrow> (\<forall>c \<in> set (cm_connections db). \<exists>c' \<in> set (cm_connections db'). bc_id c' = bc_id c
     \<and> bc_sync_generation c \<le> bc_sync_generation c' \<and> bc_published_generation c \<le> bc_published_generation c')"

lemma reached_advances: "advances db db' \<Longrightarrow> reached db i g p \<Longrightarrow> reached db' i g p"
  unfolding advances_def reached_def by (elim bexE conjE, drule (1) bspec) (auto intro: order_trans)

lemma reached_unique:
  assumes "order_tables_ok db" "c \<in> set (cm_connections db)" "reached db (bc_id c) g p"
  shows "g \<le> bc_sync_generation c \<and> p \<le> bc_published_generation c"
  using assms connection_at[OF assms(1)] unfolding reached_def by (metis option.inject)

lemma advances_set:
  assumes "\<And>c. c \<in> set (cm_connections db) \<Longrightarrow> bc_id c = i \<Longrightarrow> bc_id (f c) = bc_id c
      \<and> bc_sync_generation c \<le> bc_sync_generation (f c) \<and> bc_published_generation c \<le> bc_published_generation (f c)"
    and "cm_connections db' = tbl_upd bc_id i f (cm_connections db)"
  shows "advances db db'"
  unfolding advances_def
proof
  fix c assume c: "c \<in> set (cm_connections db)"
  have "(if bc_id c = i then f c else c) \<in> set (cm_connections db')" using c by (auto simp: assms(2) set_tbl_upd)
  with assms(1)[OF c] show "\<exists>c' \<in> set (cm_connections db'). bc_id c' = bc_id c
     \<and> bc_sync_generation c \<le> bc_sync_generation c' \<and> bc_published_generation c \<le> bc_published_generation c'"
    by (intro bexI[of _ "if bc_id c = i then f c else c"]) auto
qed

lemma generations_append [simp]:
  "claim_generations i (cl @ cl') = claim_generations i cl @ claim_generations i cl'"
  "published_generations i (es @ es') = published_generations i es @ published_generations i es'"
  "claim_generations i [] = []" "published_generations i [] = []"
  "claim_generations i [(b, g)] = (if bd_id b = i then [g] else [])"
  "published_generations i [Emptied t] = []"
  "published_generations i [Published t j g s e os] = (if j = i then [g] else [])"
  by (simp_all add: claim_generations_def published_generations_def)

lemma replay_append: "replay t (es @ es') = fold (apply_event t) es' (replay t es)"
  by (simp add: replay_def)

text \<open>Steps that leave claims and publications alone.\<close>

lemma sync_inv_quiet:
  assumes "sync_inv w" "order_tables_ok db'" "\<And>t k. book db' t k = book (sw_db w) t k" "advances (sw_db w) db'"
  shows "sync_inv (w\<lparr>sw_db := db'\<rparr>)"
  using assms reached_advances[OF assms(4)] unfolding sync_inv_def by (auto simp: fun_eq_iff)

lemma sync_invD:
  assumes "sync_inv w"
  shows "order_tables_ok (sw_db w)" "book (sw_db w) t = replay t (sw_log w)"
    "(b, g) \<in> set (sw_claims w) \<Longrightarrow> reached (sw_db w) (bd_id b) g 0"
    "p \<in> set (published_generations i (sw_log w)) \<Longrightarrow> reached (sw_db w) i p p \<and> p \<in> set (claim_generations i (sw_claims w))"
    "sorted_wrt (<) (claim_generations i (sw_claims w))" "sorted_wrt (<) (published_generations i (sw_log w))"
  using assms unfolding sync_inv_def by auto

section \<open>Each step keeps the invariant\<close>

lemma same_connection:
  "order_tables_ok db \<Longrightarrow> c \<in> set (cm_connections db) \<Longrightarrow> c' \<in> set (cm_connections db) \<Longrightarrow> bc_id c' = bc_id c \<Longrightarrow> c' = c"
  using connection_at[of db c] connection_at[of db c'] by simp

lemma reached_self: "c \<in> set (cm_connections db) \<Longrightarrow> reached db (bc_id c) (bc_sync_generation c) (bc_published_generation c)"
  by (auto simp: reached_def)

lemma reached_mono: "reached db i g p \<Longrightarrow> g' \<le> g \<Longrightarrow> p' \<le> p \<Longrightarrow> reached db i g' p'"
  unfolding reached_def by (meson order_trans)

lemma claimed_tables_ok:
  assumes ok: "order_tables_ok db" and cl: "claim_sync_generation b db = Inr (g, db')"
  shows "order_tables_ok db'" "book db' t k = book db t k"
proof -
  from cl obtain c where c: "db' = set_connection (bd_id b) (\<lambda>c. c\<lparr>bc_sync_generation := bc_sync_generation c + 1\<rparr>) db"
    by (rule claim_sync_generation_Inr)
  show "order_tables_ok db'" "book db' t k = book db t k"
    unfolding c using order_tables_okD(3)[OF ok] by (intro set_connection_keeps[OF ok]; fastforce simp: conn_grows_def)+
qed

lemma claim_step:
  assumes inv: "sync_inv w" and cl: "claim_sync_generation b (sw_db w) = Inr (g, db')"
  shows "sync_inv (w\<lparr>sw_db := db', sw_claims := sw_claims w @ [(b, g)]\<rparr>)"
proof -
  let ?f = "\<lambda>c. c\<lparr>bc_sync_generation := bc_sync_generation c + 1\<rparr>"
  note I = sync_invD[OF inv]
  from cl obtain c where c: "c \<in> set (cm_connections (sw_db w))" "capture_boundary c = b" "g = bc_sync_generation c + 1"
    "db' = set_connection (bd_id b) ?f (sw_db w)" by (rule claim_sync_generation_Inr)
  note cf = capture_fields(1)[OF c(2)]
  note keep = claimed_tables_ok[OF I(1) cl]
  have adv: "advances (sw_db w) db'" by (rule advances_set[where i = "bd_id b" and f = ?f]) (simp_all add: c(4))
  have q: "sync_inv (w\<lparr>sw_db := db'\<rparr>)" by (rule sync_inv_quiet[OF inv keep adv])
  have new: "reached db' (bd_id b) g 0"
    using c(1,3) cf order_tables_okD(3)[OF I(1) c(1)] unfolding reached_def c(4)
    by (intro bexI[of _ "?f c"]) (auto simp: set_tbl_upd)
  have less: "g' < g" if "g' \<in> set (claim_generations (bd_id b) (sw_claims w))" for g'
  proof -
    from that obtain b' where "(b', g') \<in> set (sw_claims w)" "bd_id b' = bd_id b" by (auto simp: claim_generations_def)
    with I(3) have "reached (sw_db w) (bc_id c) g' 0" using cf by fastforce
    from reached_unique[OF I(1) c(1) this] c(3) show ?thesis by simp
  qed
  show ?thesis using q new less unfolding sync_inv_def by (auto simp: sorted_wrt_append)
qed

lemma fail_step:
  assumes inv: "sync_inv w" and r: "sr_id r \<notin> sr_id ` set (cm_runs (sw_db w))"
    and p: "persist_extraction_failure b r err now (sw_db w) = Inr db'"
  shows "sync_inv (w\<lparr>sw_db := db'\<rparr>)"
proof -
  let ?d = "add_run (failed_run err now r) (sw_db w)" and ?f = "\<lambda>c. c\<lparr>bc_last_failed_sync_at := Some now, bc_last_error := Some err\<rparr>"
  note I = sync_invD[OF inv]
  have r': "sr_id (failed_run err now r) \<notin> sr_id ` set (cm_runs (sw_db w))" using r by (simp add: failed_run_def)
  note A = add_run_keeps[OF I(1) r']
  have "\<exists>i. db' = ?d \<or> db' = set_connection i ?f ?d"
  proof (cases "lock_matching_connection b (sw_db w)")
    case (Inr c)
    with p show ?thesis by (auto simp: persist_extraction_failure_def Let_def split: if_splits)
  qed (use p in \<open>simp add: persist_extraction_failure_def\<close>)
  then obtain j where "db' = ?d \<or> db' = set_connection j ?f ?d" ..
  moreover have "order_tables_ok (set_connection i ?f ?d)" "book (set_connection i ?f ?d) t k = book ?d t k" for i t k
    by (intro set_connection_keeps[OF A(1)]; simp add: conn_grows_def order_tables_okD(3)[OF I(1)])+
  moreover have "advances (sw_db w) ?d" by (auto simp: advances_def)
  moreover have "advances (sw_db w) (set_connection i ?f ?d)" for i
    by (rule advances_set[where i = i and f = ?f]) simp_all
  ultimately show ?thesis using A sync_inv_quiet[OF inv] by metis
qed

lemma superseded_db:
  assumes "publish_extracted X b t g r x now db = Inr (SupersededBy db')"
  shows "db' = persist_superseded_run r now db"
proof -
  from assms obtain y where y: "claim_publication_generation b g db = Inr y" unfolding publish_extracted_def by (auto simp: and_then_Inr)
  show ?thesis
  proof (cases y)
    case None
    with assms show ?thesis by (simp add: publish_extracted_def y)
  next
    case (Some db1)
    with assms show ?thesis by (auto simp: publish_extracted_def y Let_def split: sum.splits)
  qed
qed

lemma superseded_step:
  assumes inv: "sync_inv w" and r: "sr_id r \<notin> sr_id ` set (cm_runs (sw_db w))"
  shows "sync_inv (w\<lparr>sw_db := persist_superseded_run r now (sw_db w)\<rparr>)"
proof -
  have r': "sr_id (failed_run e now r) \<notin> sr_id ` set (cm_runs (sw_db w))" for e using r by (simp add: failed_run_def)
  have "advances (sw_db w) (persist_superseded_run r now (sw_db w))" by (auto simp: advances_def persist_superseded_run_def)
  with add_run_keeps[OF sync_invD(1)[OF inv] r'] show ?thesis
    using sync_inv_quiet[OF inv] by (simp add: persist_superseded_run_def)
qed

lemma publish_step:
  assumes inv: "sync_inv w" and cl: "(b, g) \<in> set (sw_claims w)" and fresh: "rid \<notin> sr_id ` set (cm_runs (sw_db w))"
    and pub: "publish_extracted X b t g (new_run b rid t g since until start) x now (sw_db w) = Inr (StagedAt r db')"
  shows "sync_inv (w\<lparr>sw_db := db', sw_log := sw_log w @ publication_events X b t g since until x r\<rparr>)"
proof -
  note I = sync_invD[OF inv]
  note P = publication_refines[OF I(1) fresh pub]
  let ?ev = "publication_events X b t g since until x r"
  from pub obtain c st d where c: "c \<in> set (cm_connections (sw_db w))" "capture_boundary c = b" "g \<le> bc_sync_generation c"
      "bc_published_generation c < g"
    and st: "stage_sync_publication X t rid since until x
       (add_run (new_run b rid t g since until start) (set_connection (bd_id b) (\<lambda>c. c\<lparr>bc_published_generation := g\<rparr>) (sw_db w))) = Inr (st, d)"
    and db': "db' = set_connection (bd_id b) (freshness_update st now) (set_run rid (\<lambda>_. r) d)"
    by (rule publish_staged) simp
  let ?f = "\<lambda>c. freshness_update st now (c\<lparr>bc_published_generation := g\<rparr>)"
  have "cm_connections d = tbl_upd bc_id (bd_id b) (\<lambda>c. c\<lparr>bc_published_generation := g\<rparr>) (cm_connections (sw_db w))"
    using stage_cases[OF st] by auto
  then have con: "cm_connections db' = tbl_upd bc_id (bd_id b) ?f (cm_connections (sw_db w))"
    by (simp add: db' tbl_upd_twice)
  note cf = capture_fields(1)[OF c(2)]
  have adv: "advances (sw_db w) db'"
  proof (rule advances_set[OF _ con])
    fix c' assume "c' \<in> set (cm_connections (sw_db w))" "bc_id c' = bd_id b"
    then have "c' = c" using same_connection[OF I(1) c(1)] cf by simp
    then show "bc_id (?f c') = bc_id c' \<and> bc_sync_generation c' \<le> bc_sync_generation (?f c')
        \<and> bc_published_generation c' \<le> bc_published_generation (?f c')" using c(4) by simp
  qed
  have new: "reached db' (bd_id b) g g"
    using c(1,3) cf unfolding reached_def con by (intro bexI[of _ "?f c"]) (auto simp: set_tbl_upd)
  have less: "p < g" if "p \<in> set (published_generations (bd_id b) (sw_log w))" for p
    using reached_unique[OF I(1) c(1), of p p] I(4)[OF that] cf c(4) by simp
  have claimed: "g \<in> set (claim_generations (bd_id b) (sw_claims w))" using cl by (force simp: claim_generations_def)
  have ev: "?ev = [] \<and> book db' = book (sw_db w) \<or> (\<exists>s e os. ?ev = [Published t (bd_id b) g s e os]
      \<and> (\<forall>t' k. book db' t' k = (if t' = t then publish_book s e os (book (sw_db w) t) k else book (sw_db w) t' k)))"
  proof (cases "sr_orders_count r")
    case None
    then show ?thesis using P(3) by (simp add: publication_events_def)
  next
    case (Some n)
    then obtain m where "cx_midnight X (bd_store_timezone b) = Some m" "\<forall>t' k. book db' t' k = (if t' = t
            then publish_book (m since) (m (until + 1)) (pulled X (snapshot_orders x)) (book (sw_db w) t) k else book (sw_db w) t' k)"
      using P(4) by auto
    then show ?thesis using Some by (auto simp: publication_events_def)
  qed
  have gens: "published_generations i ?ev = (if ?ev \<noteq> [] \<and> i = bd_id b then [g] else [])" for i using ev by auto
  have rep: "book db' t' = replay t' (sw_log w @ ?ev)" for t'
    using ev by (elim disjE exE conjE) (auto simp: replay_append I(2) intro!: ext)
  show ?thesis unfolding sync_inv_def
  proof (intro conjI allI ballI)
    show "sorted_wrt (<) (published_generations i (sw_log (w\<lparr>sw_db := db', sw_log := sw_log w @ ?ev\<rparr>)))" for i
      using I(6)[of i] less by (auto simp: gens sorted_wrt_append)
  qed (use P(1) rep I(3,4,5) reached_advances[OF adv] new claimed in \<open>auto simp: gens split: if_splits\<close>)
qed

text \<open>A new boundary: the tenant's orders go, and no other tenant's order depends on the connection.\<close>

lemma published_elsewhere:
  assumes ok: "order_tables_ok db" and c: "c \<in> set (cm_connections db)" "t \<noteq> bc_tenant_id c"
    and eq: "cm_runs d = cm_runs db" "cm_connections d = tbl_upd bc_id (bc_id c) f (cm_connections db)"
    and p: "published_order db t r"
  shows "published_order d t r"
proof -
  from p obtain n k where n: "n \<in> set (cm_runs db)" "json_field (order_marker r) ''sync_run_id'' = PStr (sr_id n)"
    and k: "k \<in> set (cm_connections db)" "bc_id k = sr_connection_id n" "publication_filters t n k"
      "ov_currency (od_values r) = Some (bc_store_currency k)"
    unfolding published_witness by blast
  have "bc_tenant_id k = t" using k(3) by (simp only: publication_filters_def)
  then have "bc_id k \<noteq> bc_id c" using same_connection[OF ok c(1) k(1)] c(2) by blast
  then have "k \<in> set (cm_connections d)" using k(1) by (auto simp: eq set_tbl_upd)
  then show ?thesis using p n k unfolding published_witness eq(1) by blast
qed

lemma boundary_step:
  assumes ok: "order_tables_ok db" and c: "c \<in> set (cm_connections db)"
    and f: "\<And>c. bc_id (f c) = bc_id c" "\<And>c. bc_tenant_id (f c) = bc_tenant_id c"
      "\<And>c. bc_published_generation (f c) = bc_published_generation c" "\<And>c. bc_sync_generation (f c) = bc_sync_generation c"
    and d: "cm_runs d = cm_runs db" "cm_connections d = tbl_upd bc_id (bc_id c) f (cm_connections db)"
      "cm_orders d = filter (\<lambda>r. od_tenant_id r \<noteq> bc_tenant_id c) (cm_orders db)"
  shows "order_tables_ok d" and "book d t = (if t = bc_tenant_id c then (\<lambda>_. None) else book db t)"
proof -
  note D = order_tables_okD[OF ok]
  have tenants: "map bc_tenant_id (cm_connections d) = map bc_tenant_id (cm_connections db)" by (simp add: d tbl_upd_def f)
  have keys: "distinct (map order_key (cm_orders d))" unfolding d(3) by (rule distinct_map_filter[OF D(5)])
  have gens: "0 \<le> bc_published_generation k \<and> bc_published_generation k \<le> bc_sync_generation k" if "k \<in> set (cm_connections d)" for k
    using that D(3) unfolding d(2) by (elim in_tbl_updE) (auto simp: f)
  have pub: "published_order d (od_tenant_id r) r" if "r \<in> set (cm_orders d)" "active_marked r" for r
    using that D(6) by (intro published_elsewhere[OF ok c _ d(1,2)]) (auto simp: d(3))
  show okd: "order_tables_ok d"
    using D(1,2,4) keys tenants gens pub unfolding order_tables_ok_def d(1) by (auto simp: d(2) f)
  have "tbl_find order_key (t, k) (filter (\<lambda>r. od_tenant_id r \<noteq> u) rs) = (if t = u then None else tbl_find order_key (t, k) rs)"
    for u k rs by (induction rs) (auto simp: order_key_def tbl_find_def)
  then have "order_at d t k = (if t = bc_tenant_id c then None else order_at db t k)" for k
    unfolding order_at_def d(3) .
  then show "book d t = (if t = bc_tenant_id c then (\<lambda>_. None) else book db t)"
    by (intro ext) (simp add: book_active[OF okd] book_active[OF ok])
qed

lemma put_boundary_fields [simp]:
  "bc_id (put_boundary key i c) = bc_id c" "bc_tenant_id (put_boundary key i c) = bc_tenant_id c"
  "bc_published_generation (put_boundary key i c) = bc_published_generation c"
  "bc_sync_generation (put_boundary key i c) = bc_sync_generation c"
  "bc_boundary_revision (put_boundary key i c) = bc_boundary_revision c"
  "bc_store_currency (put_boundary key i c) = bi_store_currency i" "bc_status (put_boundary key i c) = ''active''"
  by (simp_all add: put_boundary_def)

lemma replace_step:
  assumes inv: "sync_inv w" and c: "c \<in> set (cm_connections (sw_db w))"
    and r: "replace_bumpa_connection key i c (sw_db w) = Inr (changed, db')"
  shows "sync_inv (w\<lparr>sw_db := db', sw_log := sw_log w @ (if changed then [Emptied (bc_tenant_id c)] else [])\<rparr>)"
proof (cases "material_boundary_changed c i")
  case False
  note I = sync_invD[OF inv]
  have ch: "\<not> changed" "db' = set_connection (bc_id c) (put_boundary key i) (sw_db w)"
    using r False by (auto simp: replace_bumpa_connection_def)
  have cur: "c' = c" if "c' \<in> set (cm_connections (sw_db w))" "bc_id c' = bc_id c" for c'
    by (rule same_connection[OF I(1) c that])
  have keep: "order_tables_ok db'" "book db' t k = book (sw_db w) t k" for t k
    unfolding ch(2) using order_tables_okD(3)[OF I(1)] False
    by (intro set_connection_keeps[OF I(1)]; auto simp: conn_grows_def material_boundary_changed_def dest!: cur)+
  have "advances (sw_db w) db'" by (rule advances_set[where i = "bc_id c" and f = "put_boundary key i"]) (simp_all add: ch(2))
  from sync_inv_quiet[OF inv keep this] show ?thesis using ch(1) by simp
next
  case True
  let ?f = "\<lambda>c. put_boundary key i (c\<lparr>bc_boundary_revision := bc_boundary_revision c + 1, bc_last_successful_sync_at := None,
      bc_last_failed_sync_at := None, bc_last_error := None\<rparr>)"
  note I = sync_invD[OF inv]
  have ch: "changed" "cm_runs db' = cm_runs (sw_db w)" "cm_connections db' = tbl_upd bc_id (bc_id c) ?f (cm_connections (sw_db w))"
    "cm_orders db' = filter (\<lambda>r. od_tenant_id r \<noteq> bc_tenant_id c) (cm_orders (sw_db w))"
    using r True by (auto simp: replace_bumpa_connection_def split: if_splits)
  note B = boundary_step[OF I(1) c _ _ _ _ ch(2,3,4), simplified]
  have adv: "advances (sw_db w) db'" by (rule advances_set[OF _ ch(3)]) simp_all
  show ?thesis using I B ch(1) reached_advances[OF adv] unfolding sync_inv_def by (auto simp: replay_append)
qed

lemma rekey_step:
  assumes inv: "sync_inv w"
  shows "sync_inv (w\<lparr>sw_db := set_connection k (\<lambda>c. c\<lparr>bc_encrypted_api_key := key\<rparr>) (sw_db w)\<rparr>)"
proof (rule sync_inv_quiet[OF inv])
  note ok = sync_invD(1)[OF inv]
  show "order_tables_ok (set_connection k (\<lambda>c. c\<lparr>bc_encrypted_api_key := key\<rparr>) (sw_db w))"
    "\<And>t i. book (set_connection k (\<lambda>c. c\<lparr>bc_encrypted_api_key := key\<rparr>) (sw_db w)) t i = book (sw_db w) t i"
    by (intro set_connection_keeps[OF ok]; simp add: conn_grows_def order_tables_okD(3)[OF ok])+
  show "advances (sw_db w) (set_connection k (\<lambda>c. c\<lparr>bc_encrypted_api_key := key\<rparr>) (sw_db w))"
    by (rule advances_set[where i = k and f = "\<lambda>c. c\<lparr>bc_encrypted_api_key := key\<rparr>"]) simp_all
qed

lemma connect_step:
  assumes inv: "sync_inv w" and c: "new_connection c (sw_db w)"
  shows "sync_inv (w\<lparr>sw_db := (sw_db w)\<lparr>cm_connections := cm_connections (sw_db w) @ [c]\<rparr>\<rparr>)" (is "sync_inv (w\<lparr>sw_db := ?d\<rparr>)")
proof -
  note ok = sync_invD(1)[OF inv]
  have tg: "tables_grow (sw_db w) ?d" by (auto simp: tables_grow_def intro: conn_grows_refl)
  have d: "distinct (map bc_id (cm_connections ?d))" "distinct (map bc_tenant_id (cm_connections ?d))" "distinct (map sr_id (cm_runs ?d))"
    using order_tables_okD(1,2,4)[OF ok] c by (auto simp: new_connection_def)
  have g: "0 \<le> bc_published_generation k \<and> bc_published_generation k \<le> bc_sync_generation k" if "k \<in> set (cm_connections ?d)" for k
    using that order_tables_okD(3)[OF ok] c by (auto simp: new_connection_def)
  note keep = grow_keeps_book[OF ok tg _ d(1,2) g d(3)]
  have "advances (sw_db w) ?d" by (auto simp: advances_def)
  with keep show ?thesis using sync_inv_quiet[OF inv] by simp
qed

lemma sync_step_inv:
  assumes "sync_step X w w'" "sync_inv w"
  shows "sync_inv w'"
  using assms(1)
proof cases
  case (claimed b g db')
  then show ?thesis using claim_step[OF assms(2)] by simp
next
  case (failed r b err now db')
  then show ?thesis using fail_step[OF assms(2)] by simp
next
  case (superseded rid b t g since until start x now db')
  then show ?thesis using superseded_step[OF assms(2)] superseded_db by fastforce
next
  case (published b g rid t since until start x now r db')
  then show ?thesis using publish_step[OF assms(2)] by simp
next
  case (replaced c key i changed db')
  then show ?thesis using replace_step[OF assms(2)] by simp
next
  case (rekeyed k key)
  then show ?thesis using rekey_step[OF assms(2)] by simp
next
  case (connected c)
  then show ?thesis using connect_step[OF assms(2)] by simp
qed

lemma sync_start_inv: "sync_start w \<Longrightarrow> sync_inv w"
  by (auto simp: sync_start_def sync_inv_def book_def order_at_def tbl_find_def replay_def)

interpretation pulls: inv_system sync_start "sync_step X" sync_inv for X
  by unfold_locales (auto intro: sync_step_inv sync_start_inv)

text \<open>C7: What the assistant can say about a store's orders is the replay of the publications that took effect, in
  the order their pulls were started. However pulls, failures, replaced connections and key rotations interleave,
  each tenant's published orders are what one gets by taking the logged publications one after the other, each
  replacing the orders of its days by the orders of its pull, and by forgetting everything at a new store boundary;
  and per connection both the claims and the publications carry strictly increasing generations, every publication
  that of a claim, so a pull that was overtaken by one started later never shows.\<close>

theorem published_orders_are_a_replay:
  assumes "reach sync_start (sync_step X) w"
  shows "book (sw_db w) t = replay t (sw_log w)
     \<and> sorted_wrt (<) (claim_generations i (sw_claims w)) \<and> sorted_wrt (<) (published_generations i (sw_log w))
     \<and> set (published_generations i (sw_log w)) \<subseteq> set (claim_generations i (sw_claims w))"
  using sync_invD[OF pulls.reach_inv[OF assms]] by auto

section \<open>A call is a run of steps\<close>

lemma publish_rows:
  assumes "rid \<notin> sr_id ` set (cm_runs db)"
    and "publish_extracted X b t g (new_run b rid t g since until start) x now db = Inr (StagedAt r db')"
  shows "cm_runs db' = cm_runs db @ [r]" "sr_id r = rid" "sr_status r \<in> {SSuccess, SPartial}"
proof -
  from assms(2) obtain st d where st: "stage_sync_publication X t rid since until x
       (add_run (new_run b rid t g since until start) (set_connection (bd_id b) (\<lambda>c. c\<lparr>bc_published_generation := g\<rparr>) db)) = Inr (st, d)"
    and r: "r = completed_run st x now (new_run b rid t g since until start)"
    and db': "db' = set_connection (bd_id b) (freshness_update st now) (set_run rid (\<lambda>_. r) d)"
    by (rule publish_staged) simp
  have "cm_runs d = cm_runs db @ [new_run b rid t g since until start]" using stage_cases[OF st] by auto
  moreover have "tbl_upd sr_id rid (\<lambda>_. r) (cm_runs db @ [new_run b rid t g since until start]) = cm_runs db @ [r]"
    using tbl_upd_absent[OF assms(1), of "\<lambda>_. r"] by (simp add: tbl_upd_def r)
  ultimately show "cm_runs db' = cm_runs db @ [r]" by (simp add: db')
  show "sr_id r = rid" "sr_status r \<in> {SSuccess, SPartial}"
    using classify_outcomes[of "snapshot_datasets x"] by (simp_all add: r stage_completion[OF st])
qed

lemma sync_step_runs:
  assumes "sync_step X w w'"
  shows "set (cm_runs (sw_db w)) \<subseteq> set (cm_runs (sw_db w'))"
  using assms
proof cases
  case (claimed b g db')
  then show ?thesis by (auto elim: claim_sync_generation_Inr)
next
  case (failed r b err now db')
  then show ?thesis by (auto simp: persist_extraction_failure_def and_then_def Let_def split: sum.splits if_splits)
next
  case (superseded rid b t g since until start x now db')
  from superseded_db[OF superseded(3)] show ?thesis by (auto simp: superseded(1) persist_superseded_run_def)
next
  case (published b g rid t since until start x now r db')
  from publish_rows(1)[OF published(3,4)] show ?thesis by (auto simp: published(1))
next
  case (replaced c key i changed db')
  then show ?thesis by (auto simp: replace_bumpa_connection_def split: if_splits)
qed simp_all

lemma sync_steps_runs: "(sync_step X)\<^sup>*\<^sup>* w w' \<Longrightarrow> set (cm_runs (sw_db w)) \<subseteq> set (cm_runs (sw_db w'))"
  by (induction rule: rtranclp_induct) (auto dest: sync_step_runs)

lemma sync_steps_inv: "(sync_step X)\<^sup>*\<^sup>* w w' \<Longrightarrow> sync_inv w \<Longrightarrow> sync_inv w'"
  by (rule pulls.steps_inv)

lemma sync_step_claims: "sync_step X w w' \<Longrightarrow> set (sw_claims w) \<subseteq> set (sw_claims w')"
  by (erule sync_step.cases) auto

lemma sync_steps_claims: "(sync_step X)\<^sup>*\<^sup>* w w' \<Longrightarrow> set (sw_claims w) \<subseteq> set (sw_claims w')"
  by (induction rule: rtranclp_induct) (auto dest: sync_step_claims)

text \<open>What other transactions do between those of a call: steps of the same system that leave its identifier unused.\<close>

definition others_are_steps :: "commerce_ops \<Rightarrow> ident \<Rightarrow> (nat \<Rightarrow> commerce_db \<Rightarrow> commerce_db) \<Rightarrow> bool" where
  "others_are_steps X rid other \<longleftrightarrow> (\<forall>n v. \<exists>v'. (sync_step X)\<^sup>*\<^sup>* v v' \<and> sw_db v' = other n (sw_db v)
     \<and> (rid \<notin> sr_id ` set (cm_runs (sw_db v)) \<longrightarrow> rid \<notin> sr_id ` set (cm_runs (sw_db v'))))"

definition returned_run :: "ident \<Rightarrow> commerce_db \<times> (http_error + commerce_run) \<Rightarrow> bool" where
  "returned_run rid out \<longleftrightarrow> (\<forall>r. snd out = Inr r \<longrightarrow> r \<in> set (cm_runs (fst out)) \<and> sr_id r = rid
     \<and> sr_status r \<in> {SSuccess, SPartial})"

lemma failure_then_steps:
  assumes "sr_id r \<notin> sr_id ` set (cm_runs (sw_db w))"
  shows "\<exists>w'. (sync_step X)\<^sup>*\<^sup>* w w' \<and> sw_db w' = fst (failure_then b r err now answer (sw_db w))"
    and "returned_run rid (failure_then b r err now answer (sw_db w))"
proof -
  show "returned_run rid (failure_then b r err now answer (sw_db w))"
    by (simp add: returned_run_def failure_then_def split: sum.split)
  show "\<exists>w'. (sync_step X)\<^sup>*\<^sup>* w w' \<and> sw_db w' = fst (failure_then b r err now answer (sw_db w))"
  proof (cases "persist_extraction_failure b r err now (sw_db w)")
    case (Inl e)
    then show ?thesis by (intro exI[of _ w]) (simp add: failure_then_def)
  next
    case (Inr db')
    from sync_step.failed[OF assms Inr]
    show ?thesis by (intro exI[of _ "w\<lparr>sw_db := db'\<rparr>"]) (auto simp: failure_then_def Inr)
  qed
qed

lemma crashed_steps:
  assumes "sr_id r \<notin> sr_id ` set (cm_runs (sw_db w))"
  shows "\<exists>w'. (sync_step X)\<^sup>*\<^sup>* w w' \<and> sw_db w' = fst (publication_crashed b r now (sw_db w))"
    and "returned_run rid (publication_crashed b r now (sw_db w))"
proof -
  have "tbl_find sr_id (sr_id r) (cm_runs (sw_db w)) = None" using assms by (simp add: tbl_find_None)
  then have eq: "publication_crashed b r now (sw_db w) =
      failure_then b r ''Commerce sync failed'' now (502, ''Commerce sync failed'', False) (sw_db w)"
    by (simp only: publication_crashed_def option.case)
  show "\<exists>w'. (sync_step X)\<^sup>*\<^sup>* w w' \<and> sw_db w' = fst (publication_crashed b r now (sw_db w))"
    unfolding eq by (rule failure_then_steps(1)[OF assms])
  show "returned_run rid (publication_crashed b r now (sw_db w))"
    unfolding eq by (rule failure_then_steps(2)[OF assms])
qed

text \<open>A commit that took effect is found again, whatever was committed since.\<close>

lemma crashed_after_commit:
  assumes "sync_inv w" "r \<in> set (cm_runs (sw_db w))" "sr_status r \<in> {SSuccess, SPartial}"
  shows "publication_crashed b r now (sw_db w) = (sw_db w, Inr r)"
proof -
  have "tbl_find sr_id (sr_id r) (cm_runs (sw_db w)) = Some r"
    by (rule distinct_tbl_find[OF order_tables_okD(4)[OF sync_invD(1)[OF assms(1)]] assms(2)])
  with assms(3) show ?thesis by (simp add: publication_crashed_def)
qed

lemma publish_pull_steps:
  assumes inv: "sync_inv w" and cl: "(b, g) \<in> set (sw_claims w)" and fresh: "rid \<notin> sr_id ` set (cm_runs (sw_db w))"
    and other: "\<And>v. \<exists>v'. (sync_step X)\<^sup>*\<^sup>* v v' \<and> sw_db v' = other (sw_db v)
      \<and> (rid \<notin> sr_id ` set (cm_runs (sw_db v)) \<longrightarrow> rid \<notin> sr_id ` set (cm_runs (sw_db v')))"
    and out_def: "out = publish_pull X b t g (new_run b rid t g since until start) x now outcome other (sw_db w)"
  shows "(\<exists>w'. (sync_step X)\<^sup>*\<^sup>* w w' \<and> sw_db w' = fst out) \<and> returned_run rid out"
proof -
  let ?r = "new_run b rid t g since until start"
  have crash: "(\<exists>w'. (sync_step X)\<^sup>*\<^sup>* w w' \<and> sw_db w' = fst (publication_crashed b r now (other (sw_db w))))
      \<and> returned_run rid (publication_crashed b r now (other (sw_db w)))" if "sr_id r = rid" for r
  proof -
    obtain v where v: "(sync_step X)\<^sup>*\<^sup>* w v" "sw_db v = other (sw_db w)" "rid \<notin> sr_id ` set (cm_runs (sw_db v))"
      using other[of w] fresh by blast
    have f: "sr_id r \<notin> sr_id ` set (cm_runs (sw_db v))" using v(3) that by simp
    obtain w' where "(sync_step X)\<^sup>*\<^sup>* v w'" "sw_db w' = fst (publication_crashed b r now (sw_db v))"
      using crashed_steps(1)[OF f, of X b now] by blast
    with v(1,2) crashed_steps(2)[OF f, of rid b now] show ?thesis by (auto intro: rtranclp_trans)
  qed
  show ?thesis
  proof (cases "publish_extracted X b t g ?r x now (sw_db w)")
    case (Inl e)
    then show ?thesis by (auto simp: out_def publish_pull_def returned_run_def)
  next
    case (Inr y)
    show ?thesis
    proof (cases y)
      case (SupersededBy db')
      from sync_step.superseded[OF fresh Inr[unfolded SupersededBy]] show ?thesis
        by (auto simp: out_def publish_pull_def returned_run_def Inr SupersededBy intro!: exI[of _ "w\<lparr>sw_db := db'\<rparr>"])
    next
      case StagingRaised
      then show ?thesis using crash[of ?r] by (simp add: out_def publish_pull_def Inr)
    next
      case (StagedAt r db')
      let ?w = "w\<lparr>sw_db := db', sw_log := sw_log w @ publication_events X b t g since until x r\<rparr>"
      note rows = publish_rows[OF fresh Inr[unfolded StagedAt]]
      have st: "sync_step X w ?w" by (rule sync_step.published[OF cl fresh Inr[unfolded StagedAt]])
      obtain v where v: "(sync_step X)\<^sup>*\<^sup>* ?w v" "sw_db v = other db'" using other[of ?w] by auto
      have in_v: "sync_inv v" "r \<in> set (cm_runs (sw_db v))"
        using sync_steps_inv[OF v(1) sync_step_inv[OF st inv]] sync_steps_runs[OF v(1)] rows(1) by auto
      have to_v: "(sync_step X)\<^sup>*\<^sup>* w v" using st v(1) by (rule converse_rtranclp_into_rtranclp)
      show ?thesis
      proof (cases outcome)
        case CommitOk
        with st rows show ?thesis
          by (auto simp: out_def publish_pull_def returned_run_def Inr StagedAt intro!: exI[of _ ?w])
      next
        case CommitRefused
        with crash[OF rows(2)] show ?thesis by (simp add: out_def publish_pull_def Inr StagedAt)
      next
        case CommitUnanswered
        with crashed_after_commit[OF in_v rows(3)] v(2) have "out = (sw_db v, Inr r)"
          by (simp add: out_def publish_pull_def Inr StagedAt)
        with to_v in_v(2) rows show ?thesis by (auto simp: returned_run_def)
      qed
    qed
  qed
qed

lemma run_sync_steps:
  assumes "reach sync_start (sync_step X) w" and "rid \<notin> sr_id ` set (cm_runs (sw_db w))" and "others_are_steps X rid other"
    and "run_sync X E rid tenant seen since until start now outcome other (sw_db w) = out"
  shows "(\<exists>w'. (sync_step X)\<^sup>*\<^sup>* w w' \<and> sw_db w' = fst out) \<and> returned_run rid out"
proof -
  let ?b = "capture_boundary seen"
  note inv = pulls.reach_inv[OF assms(1)]
  have other: "\<exists>v'. (sync_step X)\<^sup>*\<^sup>* v v' \<and> sw_db v' = other n (sw_db v)
      \<and> (rid \<notin> sr_id ` set (cm_runs (sw_db v)) \<longrightarrow> rid \<notin> sr_id ` set (cm_runs (sw_db v')))" for n v
    using assms(3) unfolding others_are_steps_def by blast
  show ?thesis
  proof (cases "bd_tenant_id ?b \<noteq> tenant \<or> bd_status ?b \<noteq> ''active'' \<or> (\<exists>e. claim_sync_generation ?b (sw_db w) = Inl e)")
    case True
    then have "fst out = sw_db w \<and> (\<exists>e. snd out = Inl e)" using assms(4)[symmetric] by (auto simp: run_sync_def Let_def)
    then show ?thesis by (auto simp: returned_run_def)
  next
    case False
    then obtain g db1 where c: "claim_sync_generation ?b (sw_db w) = Inr (g, db1)"
      by (cases "claim_sync_generation ?b (sw_db w)") auto
    let ?w1 = "w\<lparr>sw_db := db1, sw_claims := sw_claims w @ [(?b, g)]\<rparr>"
    have s1: "sync_step X w ?w1" by (rule sync_step.claimed[OF c])
    have f1: "rid \<notin> sr_id ` set (cm_runs (sw_db ?w1))" using c assms(2) by (auto elim: claim_sync_generation_Inr)
    obtain v where v: "(sync_step X)\<^sup>*\<^sup>* ?w1 v" "sw_db v = other 0 db1" "rid \<notin> sr_id ` set (cm_runs (sw_db v))"
      using other[of ?w1 0] f1 by auto
    have inv_v: "sync_inv v" by (rule sync_steps_inv[OF v(1) sync_step_inv[OF s1 inv]])
    have cl: "(?b, g) \<in> set (sw_claims v)" using sync_steps_claims[OF v(1)] by auto
    have wv: "(sync_step X)\<^sup>*\<^sup>* w v" using s1 v(1) by (rule converse_rtranclp_into_rtranclp)
    let ?r = "new_run ?b rid tenant g since until start"
    have fv: "sr_id ?r \<notin> sr_id ` set (cm_runs (sw_db v))" using v(3) by simp
    have "(\<exists>w'. (sync_step X)\<^sup>*\<^sup>* v w' \<and> sw_db w' = fst out) \<and> returned_run rid out"
    proof (cases "extract_sync E tenant ?b since until")
      case (Inr x)
      with False v(2) assms(4) have "out = publish_pull X ?b tenant g ?r x now outcome (other 1) (sw_db v)"
        by (auto simp: run_sync_def Let_def c)
      then show ?thesis by (rule publish_pull_steps[OF inv_v cl v(3) other])
    next
      case (Inl e)
      then show ?thesis using failure_then_steps[OF fv] False v(2) assms(4)
        by (cases e) (auto simp: run_sync_def Let_def c)
    qed
    then show ?thesis using wv by (meson rtranclp_trans)
  qed
qed

text \<open>C35: One call of the synchronisation, whatever its provider answers and whatever is committed between its
  transactions, is a run of the steps above, so the order book property holds after it; and when the call returns a
  run, that run is stored and was published, also when the connection to the database broke before the commit was
  answered.\<close>

theorem run_sync_is_a_run_of_steps:
  assumes "reach sync_start (sync_step X) w" and "rid \<notin> sr_id ` set (cm_runs (sw_db w))" and "others_are_steps X rid other"
    and "run_sync X E rid tenant seen since until start now outcome other (sw_db w) = out"
  shows "(\<exists>w'. (sync_step X)\<^sup>*\<^sup>* w w' \<and> sw_db w' = fst out) \<and> returned_run rid out"
  by (rule run_sync_steps[OF assms])

end
