(* ===== verification/CommerceAnswers.thy ===== *)
theory CommerceAnswers
  imports CommerceOrder "HOL-Library.Multiset"
begin

text \<open>
  What the answers about a store rest on: the coverage scan is exact, the figures of a covered period are those of
  the pull that covers it, and the points of a trend add up to the figures.
\<close>

section \<open>Coverage\<close>

lemma covered_until_exact:
  assumes "sorted (map fst rs)" "since - 1 \<le> cov"
  shows "until \<le> covered_until since until cov rs \<longleftrightarrow> (\<forall>d. cov < d \<and> d \<le> until \<longrightarrow> (\<exists>(a, b) \<in> set rs. a \<le> d \<and> d \<le> b))"
  using assms
proof (induction since until cov rs rule: covered_until.induct)
  case (1 since until cov)
  have "(until \<le> cov) = (\<forall>d. \<not> (cov < d \<and> d \<le> until))" by presburger
  then show ?case by simp
next
  case (2 since until cov a b rs)
  have sorted: "sorted (map fst rs)" and first: "\<And>x. x \<in> set rs \<Longrightarrow> a \<le> fst x" using "2.prems"(1) by auto
  show ?case
  proof (cases "b < since \<or> until < a")
    case True
    then have "\<not> (a \<le> d \<and> d \<le> b)" if "cov < d \<and> d \<le> until" for d using that "2.prems"(2) by linarith
    then show ?thesis using "2.IH"(1)[OF True sorted "2.prems"(2)] True by auto
  next
    case False
    show ?thesis
    proof (cases "cov + 1 < a")
      case True
      have "\<not> (\<exists>(x, y) \<in> set ((a, b) # rs). x \<le> cov + 1 \<and> cov + 1 \<le> y)" using True first by fastforce
      moreover have "cov < cov + 1 \<and> cov + 1 \<le> until" using True False by simp
      moreover have "\<not> until \<le> covered_until since until cov ((a, b) # rs)" using True False by simp
      ultimately show ?thesis by blast
    next
      case reach: False
      have IH: "until \<le> covered_until since until (max cov b) rs \<longleftrightarrow>
          (\<forall>d. max cov b < d \<and> d \<le> until \<longrightarrow> (\<exists>(x, y) \<in> set rs. x \<le> d \<and> d \<le> y))"
        by (rule "2.IH"(2)[OF False reach sorted]) (use "2.prems"(2) in simp)
      have split: "(\<exists>(x, y) \<in> set ((a, b) # rs). x \<le> d \<and> d \<le> y) \<longleftrightarrow> d \<le> b \<or> (\<exists>(x, y) \<in> set rs. x \<le> d \<and> d \<le> y)"
        if "cov < d" for d using that reach by auto
      have "until \<le> covered_until since until cov ((a, b) # rs) \<longleftrightarrow>
          (\<forall>d. cov < d \<and> d \<le> until \<longrightarrow> d \<le> b \<or> (\<exists>(x, y) \<in> set rs. x \<le> d \<and> d \<le> y))"
        using False reach IH by auto
      then show ?thesis using split by blast
    qed
  qed
qed

lemma filters_marker: "publication_filters t r c \<Longrightarrow> publication_marker_valid r"
  unfolding publication_filters_def publication_marker_valid_def json_field_def by (auto split: pyval.splits)

lemma verified_runs_set: "set (verified_runs db t) = {r \<in> set (cm_runs db). run_published db t r}"
  using filters_marker by (auto simp: verified_runs_def run_published_def list_ex_iff)

lemma verified_runs_sorted: "sorted (map sr_requested_from (verified_runs db t))"
proof -
  let ?k = "\<lambda>r::commerce_run. (sr_requested_from r, sr_requested_to r)"
  have "sorted (map ?k (query_by ?k (run_published db t) (cm_runs db)))" by (simp add: query_by_def)
  then have "sorted (map ?k (verified_runs db t))" unfolding verified_runs_def by (rule sorted_filter)
  then have "sorted (map fst (map ?k (verified_runs db t)))" by (rule sorted_map_mono) (auto simp: mono_on_def less_eq_prod_def)
  then show ?thesis by (simp add: o_def)
qed

lemma coverage_exact:
  "vc_available (order_publication_coverage db t (Some (since, until))) = (\<forall>d \<in> {since..until}.
     \<exists>r \<in> set (cm_runs db). run_published db t r \<and> sr_requested_from r \<le> d \<and> d \<le> sr_requested_to r)"
proof -
  let ?rs = "map (\<lambda>r. (sr_requested_from r, sr_requested_to r)) (verified_runs db t)"
  have s: "sorted (map fst ?rs)" using verified_runs_sorted[of db t] by (simp add: o_def)
  have "vc_available (order_publication_coverage db t (Some (since, until))) \<longleftrightarrow>
      (\<forall>d. since - 1 < d \<and> d \<le> until \<longrightarrow> (\<exists>(a, b) \<in> set ?rs. a \<le> d \<and> d \<le> b))"
    using covered_until_exact[OF s, of since "since - 1" until] by (simp add: order_publication_coverage_def Let_def)
  also have "\<dots> \<longleftrightarrow> (\<forall>d \<in> {since..until}. \<exists>r \<in> set (verified_runs db t). sr_requested_from r \<le> d \<and> d \<le> sr_requested_to r)"
    by fastforce
  finally show ?thesis by (simp add: verified_runs_set Bex_def conj_assoc)
qed

text \<open>C36: The scan that decides whether a period may be answered is exact: it reports coverage precisely when every day
  of the period lies inside some verified pull of the tenant's current store boundary, however the pulls overlap,
  nest or leave gaps.\<close>

theorem coverage_is_exact:
  "vc_available (order_publication_coverage db t (Some (since, until))) = (\<forall>d \<in> {since..until}.
     \<exists>r \<in> set (cm_runs db). run_published db t r \<and> sr_requested_from r \<le> d \<and> d \<le> sr_requested_to r)"
  by (rule coverage_exact)

section \<open>The figures of a covered period\<close>

definition pull_in_period :: "resolved_period \<Rightarrow> provider_order list \<Rightarrow> provider_order list" where
  "pull_in_period p ps = filter (\<lambda>q. in_range (pd_starts p) (pd_ends p) (po_date q)) ps"

definition pull_figures :: "string \<Rightarrow> provider_order list \<Rightarrow> commerce_ops \<Rightarrow> figures" where
  "pull_figures currency qs X = (let as = List.map_filter po_total qs in
     \<lparr> fg_currency = currency, fg_available = True,
       fg_sales = (if as \<noteq> [] then Some (sum_list as) else if qs = [] then Some 0 else None),
       fg_orders = Some (int (length qs)), fg_with_amount = Some (int (length as)),
       fg_missing_amount = Some (int (length qs) - int (length as)),
       fg_channels = Some (int (card (set (List.map_filter (\<lambda>q. ov_channel (order_values_of X q)) qs)))) \<rparr>)"

lemma mset_map_filter: "mset xs = mset ys \<Longrightarrow> mset (List.map_filter f xs) = mset (List.map_filter f ys)"
  by (simp add: List.map_filter_def)

lemma map_filter_o: "List.map_filter (\<lambda>x. f (g x)) xs = List.map_filter f (map g xs)"
  by (simp add: List.map_filter_def filter_map o_def)

lemma order_values_simps [simp]:
  "ov_date (order_values_of X q) = po_date q" "ov_total (order_values_of X q) = po_total q"
  by (simp_all add: order_values_of_def Let_def)

lemma publish_book_in_range:
  assumes "in_range starts ends (ov_date v)" "\<And>q. q \<in> set ps \<Longrightarrow> in_range starts ends (po_date q)" "distinct (map po_id ps)"
  shows "publish_book starts ends (pulled X ps) B k = Some v \<longleftrightarrow> (\<exists>q \<in> set ps. po_id q = k \<and> order_values_of X q = v)"
proof (cases "k \<in> po_id ` set ps")
  case True
  define q where "q = the (find (\<lambda>p. po_id p = k) ps)"
  have q: "q \<in> set ps" "po_id q = k" using find_member[OF True] by (simp_all add: q_def)
  have uniq: "q' = q" if "q' \<in> set ps" "po_id q' = k" for q'
    using inj_onD[of po_id "set ps" q' q] assms(3) that q by (simp add: distinct_map)
  have "publish_book starts ends (pulled X ps) B k = Some (order_values_of X q)"
    by (simp add: publish_book_def pulled_lookup True q_def)
  moreover have "(\<exists>q \<in> set ps. po_id q = k \<and> order_values_of X q = v) \<longleftrightarrow> order_values_of X q = v"
  proof
    assume "\<exists>q \<in> set ps. po_id q = k \<and> order_values_of X q = v"
    then obtain q' where q': "q' \<in> set ps" "po_id q' = k" "order_values_of X q' = v" by blast
    from uniq[OF q'(1,2)] q'(3) show "order_values_of X q = v" by simp
  qed (use q in blast)
  ultimately show ?thesis by simp
next
  case False
  then have "map_of (pulled X ps) k = None" by (simp add: pulled_lookup)
  then have "publish_book starts ends (pulled X ps) B k \<noteq> Some v"
    using assms(1) by (cases "B k") (auto simp: publish_book_def)
  with False show ?thesis by blast
qed

text \<open>After a publication, the published rows of a range inside its own are the members of the pull in that range.\<close>

lemma period_orders_mset:
  assumes ok: "order_tables_ok db"
    and book: "\<And>k. book db t k = publish_book starts ends (pulled X ps) B k"
    and ps: "\<And>q. q \<in> set ps \<Longrightarrow> in_range starts ends (po_date q)" "distinct (map po_id ps)"
    and range: "starts \<le> pd_starts p" "pd_ends p \<le> ends"
  shows "mset (map od_values (period_orders db t p)) = mset (map (order_values_of X) (pull_in_period p ps))"
proof -
  let ?rows = "map (\<lambda>r. (od_order_id r, od_values r)) (period_orders db t p)"
  let ?pull = "map (\<lambda>q. (po_id q, order_values_of X q)) (pull_in_period p ps)"
  have inner: "in_range starts ends d" if "in_range (pd_starts p) (pd_ends p) d" for d
    using that range by (auto simp: in_range_def split: option.splits)
  have key: "(k, v) \<in> set ?rows \<longleftrightarrow> book db t k = Some v \<and> in_range (pd_starts p) (pd_ends p) (ov_date v)" for k v
  proof
    assume "(k, v) \<in> set ?rows"
    then obtain r where r: "r \<in> set (cm_orders db)" "published_order db t r" "in_period p r" "k = od_order_id r" "v = od_values r"
      by (auto simp: period_orders_def)
    moreover have "order_at db t k = Some r" using order_at_in[OF ok r(1)] published_active[OF r(2)] r(4) by simp
    ultimately show "book db t k = Some v \<and> in_range (pd_starts p) (pd_ends p) (ov_date v)"
      by (simp add: book_def in_period_def)
  next
    assume *: "book db t k = Some v \<and> in_range (pd_starts p) (pd_ends p) (ov_date v)"
    then obtain r where r: "order_at db t k = Some r" "published_order db t r" "v = od_values r"
      by (auto simp: book_def split: option.splits if_splits)
    note m = order_at_Some[OF r(1)]
    have "r \<in> set (period_orders db t p)" using m r * by (simp add: period_orders_def in_period_def)
    then have "(od_order_id r, od_values r) \<in> set ?rows" by simp
    then show "(k, v) \<in> set ?rows" using m r(3) by simp
  qed
  have "set ?rows = set ?pull"
  proof (intro set_eqI)
    fix kv :: "string \<times> order_values"
    obtain k v where kv: "kv = (k, v)" by (cases kv)
    show "kv \<in> set ?rows \<longleftrightarrow> kv \<in> set ?pull"
      unfolding kv key book using publish_book_in_range[OF inner ps, where v = v and X = X and B = B and k = k]
      by (auto simp: pull_in_period_def)
  qed
  moreover have "distinct ?rows"
  proof -
    have "distinct (map order_key (period_orders db t p))"
      unfolding period_orders_def by (rule distinct_map_filter[OF order_tables_okD(5)[OF ok]])
    moreover have "od_tenant_id r = t" if "r \<in> set (period_orders db t p)" for r
      using that by (simp add: period_orders_def published_order_def)
    ultimately show ?thesis unfolding distinct_map by (auto simp: inj_on_def order_key_def)
  qed
  moreover have "distinct ?pull"
    using ps(2) by (auto simp: pull_in_period_def distinct_map inj_on_def)
  ultimately have "mset ?rows = mset ?pull" by (simp only: set_eq_iff_mset_eq_distinct)
  then have "image_mset snd (mset ?rows) = image_mset snd (mset ?pull)" by simp
  then show ?thesis by (simp only: mset_map[symmetric] map_map o_def snd_conv)
qed

lemma figures_of_rows:
  assumes "mset (map od_values rs) = mset (map (order_values_of X) qs)"
  shows "length rs = length qs" "length (amounts rs) = length (List.map_filter po_total qs)"
    "sum_list (amounts rs) = sum_list (List.map_filter po_total qs)"
    "set (List.map_filter (\<lambda>r. ov_channel (od_values r)) rs) = set (List.map_filter (\<lambda>q. ov_channel (order_values_of X q)) qs)"
proof -
  show "length rs = length qs" using mset_eq_length[OF assms] by simp
  have t: "amounts rs = List.map_filter ov_total (map od_values rs)" unfolding amounts_def by (rule map_filter_o)
  have q: "List.map_filter po_total qs = List.map_filter ov_total (map (order_values_of X) qs)"
    using map_filter_o[of ov_total "order_values_of X" qs] by simp
  note m = mset_map_filter[OF assms, of ov_total, folded t q]
  show "length (amounts rs) = length (List.map_filter po_total qs)" by (rule mset_eq_length[OF m])
  show "sum_list (amounts rs) = sum_list (List.map_filter po_total qs)"
    using arg_cong[OF m, of sum_mset] by (simp only: sum_mset_sum_list)
  show "set (List.map_filter (\<lambda>r. ov_channel (od_values r)) rs) = set (List.map_filter (\<lambda>q. ov_channel (order_values_of X q)) qs)"
    unfolding map_filter_o[of ov_channel od_values] map_filter_o[of ov_channel "order_values_of X"] by (rule mset_eq_setD[OF mset_map_filter[OF assms]])
qed

text \<open>A call that returns a run, with its commit answered, published in the database other transactions left it.\<close>

lemma publish_pull_ok:
  assumes "publish_pull X b t g r x now CommitOk other db = (db', Inr q)" "sr_id r \<notin> sr_id ` set (cm_runs (other db))"
  shows "publish_extracted X b t g r x now db = Inr (StagedAt q db')"
proof -
  have "tbl_find sr_id (sr_id r) (cm_runs (other db)) = None" using assms(2) by (simp add: tbl_find_None)
  then have "publication_crashed b r now (other db) \<noteq> (db', Inr q)"
    by (simp add: publication_crashed_def failure_then_def split: sum.split)
  then show ?thesis using assms(1) by (auto simp: publish_pull_def split: sum.splits publication.splits)
qed

lemma run_sync_ok:
  assumes run: "run_sync X E rid tenant seen since until start now CommitOk other db = (db', Inr r)"
    and x: "extract_sync E tenant (capture_boundary seen) since until = Inr x"
    and fresh: "rid \<notin> sr_id ` set (cm_runs db)"
    and other: "\<And>n d. rid \<notin> sr_id ` set (cm_runs d) \<Longrightarrow> rid \<notin> sr_id ` set (cm_runs (other n d))"
  obtains g d where "claim_sync_generation (capture_boundary seen) db = Inr (g, d)"
    "publish_extracted X (capture_boundary seen) tenant g (new_run (capture_boundary seen) rid tenant g since until start) x now
       (other 0 d) = Inr (StagedAt r db')" "rid \<notin> sr_id ` set (cm_runs (other 0 d))"
proof -
  let ?b = "capture_boundary seen"
  from run obtain g d where c: "claim_sync_generation ?b db = Inr (g, d)"
    by (auto simp: run_sync_def Let_def split: if_splits sum.splits)
  have f: "rid \<notin> sr_id ` set (cm_runs (other 0 d))" using c fresh by (intro other) (auto elim: claim_sync_generation_Inr)
  from run c x have p: "publish_pull X ?b tenant g (new_run ?b rid tenant g since until start) x now CommitOk (other 1) (other 0 d) = (db', Inr r)"
    by (auto simp: run_sync_def Let_def split: if_splits)
  have "sr_id (new_run ?b rid tenant g since until start) \<notin> sr_id ` set (cm_runs (other 1 (other 0 d)))"
    using other[OF f] by simp
  from that[OF c publish_pull_ok[OF p this] f] show thesis .
qed

text \<open>C8: The figures the assistant gives are those of the store. When a call of the synchronisation returns a run whose
  orders were complete, then for every period inside the pulled days, the business overview is available and its
  number of orders, the sum of their amounts, the orders with and without an amount and the number of channels are
  exactly those of the provider's orders dated in the period, whatever was stored before and whatever else was
  committed meanwhile.\<close>

theorem overview_is_the_pull:
  assumes "run_sync X E rid tenant seen since until start now CommitOk other db = (db', Inr r)"
    and "extract_sync E tenant (capture_boundary seen) since until = Inr x" and "sr_orders_count r \<noteq> None"
    and "order_tables_ok db" and "rid \<notin> sr_id ` set (cm_runs db)"
    and "\<And>n d. order_tables_ok d \<Longrightarrow> order_tables_ok (other n d)"
    and "\<And>n d. rid \<notin> sr_id ` set (cm_runs d) \<Longrightarrow> rid \<notin> sr_id ` set (cm_runs (other n d))"
    and "cx_midnight X (bc_store_timezone seen) = Some m" and "mono m"
    and "since \<le> pd_from p" and "pd_to p \<le> until" and "pd_starts p = m (pd_from p)" and "pd_ends p = m (pd_to p + 1)"
  shows "period_figures db' tenant currency p = pull_figures currency (pull_in_period p (snapshot_orders x)) X"
proof -
  let ?b = "capture_boundary seen" and ?ps = "snapshot_orders x"
  from assms(1,2,5,7) obtain g d where c: "claim_sync_generation ?b db = Inr (g, d)"
    and pub: "publish_extracted X ?b tenant g (new_run ?b rid tenant g since until start) x now (other 0 d) = Inr (StagedAt r db')"
    and fresh: "rid \<notin> sr_id ` set (cm_runs (other 0 d))" by (rule run_sync_ok)
  have okd: "order_tables_ok d" by (rule claimed_tables_ok(1)[OF assms(4) c])
  note P = publication_refines[OF assms(6)[OF okd] fresh pub]
  have z: "bd_store_timezone ?b = bc_store_timezone seen" by (simp add: capture_boundary_def)
  from P(4)[OF assms(3)] z assms(8) have rp: "run_published db' tenant r"
    and mem: "membership_ok (bd_store_currency ?b) (m since) (m (until + 1)) [] ?ps"
    and book: "\<And>k. book db' tenant k = publish_book (m since) (m (until + 1)) (pulled X ?ps) (book (other 0 d) tenant) k"
    by auto
  have "m since \<le> pd_starts p" "pd_ends p \<le> m (until + 1)" using assms(9-13) by (simp_all add: monoD)
  from period_orders_mset[OF P(1) book _ membership_ok_distinct[OF mem] this] membership_ok_members[OF mem]
  have ms: "mset (map od_values (period_orders db' tenant p)) = mset (map (order_values_of X) (pull_in_period p ?ps))" by blast
  note F = figures_of_rows[OF ms]
  have e: "amounts (period_orders db' tenant p) = [] \<longleftrightarrow> List.map_filter po_total (pull_in_period p ?ps) = []"
    "length (pull_in_period p ?ps) = 0 \<longleftrightarrow> pull_in_period p ?ps = []" using F(2) by (metis length_0_conv, simp)
  have row: "r \<in> set (cm_runs db')" "sr_requested_from r = since" "sr_requested_to r = until"
    using publish_rows(1)[OF fresh pub] pub by (auto elim!: publish_staged)
  have "vc_available (order_publication_coverage db' tenant (Some (pd_from p, pd_to p)))"
    unfolding coverage_exact using rp row assms(10,11) by (intro ballI bexI[of _ r]) auto
  then show ?thesis unfolding period_figures_def pull_figures_def Let_def by (simp add: F e)
qed

section \<open>Questions that cannot be answered\<close>

lemma resolved_today:
  assumes "resolve_period midnight zone tenants tenant name None None now db = Inr p"
    and "name \<in> {None, Some ''today'', Some ''this_week'', Some ''this_month'', Some ''last_30_days''}"
  shows "\<exists>local. zone (pd_zone p) = Some local \<and> pd_to p = day_of (local now) \<and> pd_from p \<le> pd_to p"
proof -
  define nm where "nm = (case name of None \<Rightarrow> ''this_month'' | Some p \<Rightarrow> if p = [] then ''this_month'' else p)"
  have nm: "nm \<in> {''today'', ''this_week'', ''this_month'', ''last_30_days''}" using assms(2) by (auto simp: nm_def)
  have last: "snd d = today" if "named_days nm today None None everything = Inr d" for today everything d
    using that nm by (elim insertE emptyE) (auto simp: named_days_def)
  from assms(1) obtain tz cur where t: "tenant_store_context tenants db tenant = Inr (tz, cur)"
    unfolding resolve_period_def by (auto simp: and_then_Inr Let_def)
  obtain local where l: "zone tz = Some local" using assms(1) by (cases "zone tz") (auto simp: resolve_period_def t Let_def)
  obtain m where m: "midnight tz = Some m" using assms(1) by (cases "midnight tz") (auto simp: resolve_period_def t l Let_def)
  from assms(1) obtain d where *: "zone tz = Some local" "midnight tz = Some m"
      "named_days nm (day_of (local now)) None None (all_available_days db tenant local (day_of (local now))) = Inr d"
      "fst d \<le> snd d" "p = \<lparr> pd_name = nm, pd_from = fst d, pd_to = snd d, pd_starts = m (fst d), pd_ends = m (snd d + 1), pd_zone = tz \<rparr>"
    unfolding resolve_period_def nm_def[symmetric] using l m
    by (auto simp: and_then_Inr t Let_def split: if_splits)
  show ?thesis using *(1,4) last[OF *(3)] by (simp add: *(5))
qed


text \<open>Asking for everything stops working after a year. Once two published orders of a tenant lie more than 366 days
  apart in the store's zone, the period of all available data is refused as too long, so the overview and the trend
  of everything end in an error.\<close>

theorem all_available_fails_after_a_year:
  assumes "tenant_store_context tenants db tenant = Inr (tz, cur)" and "zone tz = Some local" and "midnight tz = Some m"
    and "mono (\<lambda>t. day_of (local t))"
    and "r1 \<in> set (cm_orders db)" and "published_order db tenant r1" and "ov_date (od_values r1) = Some t1"
    and "r2 \<in> set (cm_orders db)" and "published_order db tenant r2" and "ov_date (od_values r2) = Some t2"
    and "366 < day_of (local t2) - day_of (local t1)"
  shows "business_overview midnight zone tenants tenant (Some ''all_available'') None None compare now db =
    Inl (PeriodInvalid ''Periods cannot exceed 367 days'')"
proof -
  let ?ts = "published_instants db tenant" and ?l = "\<lambda>t. day_of (local t)"
  have i: "t1 \<in> set ?ts" "t2 \<in> set ?ts"
    using assms(5-10) by (auto simp: published_instants_def List.map_filter_def image_iff intro!: bexI[of _ r1] bexI[of _ r2])
  have ne: "?ts \<noteq> []" using i(1) by auto
  have "?l (Min (set ?ts)) \<le> ?l t1" "?l t2 \<le> ?l (Max (set ?ts))" using i by (auto intro: monoD[OF assms(4)])
  then have "366 < ?l (Max (set ?ts)) - ?l (Min (set ?ts))" using assms(11) by linarith
  moreover have "all_available_days db tenant local today = (?l (Min (set ?ts)), ?l (Max (set ?ts)))" for today
    using ne by (simp add: all_available_days_def least_of_def greatest_of_def Let_def)
  moreover have "\<not> ?l (Max (set ?ts)) < ?l (Min (set ?ts))" using calculation(1) by linarith
  ultimately have "resolve_period midnight zone tenants tenant (Some ''all_available'') None None now db =
      Inl (PeriodInvalid ''Periods cannot exceed 367 days'')"
    by (simp add: resolve_period_def assms(1-3) named_days_def Let_def)
  then show ?thesis by (simp add: business_overview_def)
qed

end
