(* ===== verification/CommerceSafety.thy ===== *)
theory CommerceSafety
  imports CommerceAnswers
begin

text \<open>
  What a pull may change: the freshness of a connection is earned by a complete pull only, a pull whose boundary
  changed meanwhile writes nothing, every stored run satisfies the constraints of its table, and the points of a trend
  add up to the figures of the period.
\<close>

section \<open>Freshness\<close>

lemma keyed_fst: "set (map fst (fold (\<lambda>d. AList.update (dataset_key d) d) ds al)) = set (map fst al) \<union> set (map dataset_key ds)"
  by (induction ds arbitrary: al) (simp_all add: dom_update)

lemma alist_update_new: "k \<notin> fst ` set al \<Longrightarrow> AList.update k v al = al @ [(k, v)]"
  by (induction al) auto

lemma keyed_datasets_set:
  assumes "distinct (map dataset_key ds)"
  shows "set (keyed_datasets ds) = (\<lambda>d. (dataset_key d, d)) ` set ds"
proof -
  have "set (fold (\<lambda>d. AList.update (dataset_key d) d) ds al) = set al \<union> (\<lambda>d. (dataset_key d, d)) ` set ds"
    if "distinct (map fst al @ map dataset_key ds)" for al
    using that
  proof (induction ds arbitrary: al)
    case (Cons d ds)
    then have "AList.update (dataset_key d) d al = al @ [(dataset_key d, d)]" by (simp add: alist_update_new)
    with Cons show ?case by auto
  qed simp
  from this[of "[]"] assms show ?thesis by (simp add: keyed_datasets_def)
qed

lemma exact_iff_mset: "exact_datasets ds \<longleftrightarrow> mset (map dataset_key ds) = mset expected_datasets"
proof -
  have d: "distinct expected_datasets" by (simp add: expected_datasets_def)
  have k: "set (map fst (keyed_datasets ds)) = set (map dataset_key ds)" using keyed_fst[of ds "[]"] by (simp add: keyed_datasets_def)
  show ?thesis
  proof (cases "distinct (map dataset_key ds)")
    case True
    then show ?thesis using set_eq_iff_mset_eq_distinct[OF True d] unfolding exact_datasets_def k by simp
  next
    case False
    then show ?thesis using d mset_eq_imp_distinct_iff[of "map dataset_key ds" expected_datasets] by (auto simp: exact_datasets_def)
  qed
qed

text \<open>A gap the code accepts: one of the two profit figures, with the provider's own explanation.\<close>

definition profit_gap :: "provider_dataset \<Rightarrow> bool" where
  "profit_gap d \<longleftrightarrow> ds_availability d = ''unavailable'' \<and> ds_error d \<noteq> None \<and> ds_error d = accepted_profit_error (dataset_key d)"

definition complete_pull :: "provider_dataset list \<Rightarrow> bool" where
  "complete_pull ds \<longleftrightarrow> mset (map dataset_key ds) = mset expected_datasets \<and> (\<forall>d \<in> set ds. has_typed_content d \<or> profit_gap d)"

lemma advances_iff:
  "sc_advances (classify_sync_completion ds v e) \<longleftrightarrow> complete_pull ds \<and> v = ''available'' \<and> e = None"
proof (cases "exact_datasets ds \<and> v = ''available'' \<and> e = None")
  case False
  then have "sc_advances (classify_sync_completion ds v e) = False" unfolding classify_sync_completion_def by auto
  with False show ?thesis by (auto simp: complete_pull_def exact_iff_mset)
next
  case True
  then have d: "distinct (map dataset_key ds)" by (simp add: exact_datasets_def)
  note k = keyed_datasets_set[OF d]
  have opt: "dataset_key d \<in> set (optional_unavailable ds) \<longleftrightarrow> ds_availability d = ''unavailable'' \<and> accepted_profit_error (dataset_key d) \<noteq> None"
    if "d \<in> set ds" for d
    using that d unfolding optional_unavailable_def by (force simp: k image_iff distinct_map inj_on_def)
  have gap: "accepted_gap ds (dataset_key d) d \<longleftrightarrow> profit_gap d" if "d \<in> set ds" for d
    using opt[OF that] by (auto simp: accepted_gap_def profit_gap_def)
  have "sc_advances (classify_sync_completion ds v e) \<longleftrightarrow> (\<forall>d \<in> set ds. has_typed_content d)
      \<or> optional_unavailable ds \<noteq> [] \<and> (\<forall>d \<in> set ds. has_typed_content d \<or> profit_gap d)"
    unfolding classify_sync_completion_def using True gap by (simp add: list_all_iff k)
  also have "\<dots> \<longleftrightarrow> (\<forall>d \<in> set ds. has_typed_content d \<or> profit_gap d)"
  proof -
    have "optional_unavailable ds \<noteq> []" if "d \<in> set ds" "profit_gap d" for d
      using opt[OF that(1)] that(2) by (auto simp: profit_gap_def)
    then show ?thesis by blast
  qed
  finally show ?thesis using True by (simp add: complete_pull_def exact_iff_mset)
qed

lemma staged_orders:
  assumes "stage_sync_publication X t rid since until x a = Inr (st, d)"
  shows "sg_orders_count st \<noteq> None \<longleftrightarrow> sg_orders_availability st = ''available'' \<and> sg_orders_error st = None"
  using assms unfolding stage_sync_publication_def by (auto simp: and_then_Inr Let_def split: if_splits)

text \<open>C37: A store counts as freshly synchronised only after a complete pull. A publication sets the time of the last
  success exactly when the pull brought each of the ten expected datasets once and no other, each with typed content
  except for profit figures the provider itself declares incalculable, and the orders were published; every other
  publication leaves that time as it was.\<close>

theorem freshness_is_earned:
  assumes "publish_extracted X b t g (new_run b rid t g since until start) x now db = Inr (StagedAt r db')"
    and "order_tables_ok db" and "rid \<notin> sr_id ` set (cm_runs db)"
    and "tbl_find bc_id (bd_id b) (cm_connections db) = Some c" and "tbl_find bc_id (bd_id b) (cm_connections db') = Some c'"
  shows "bc_last_successful_sync_at c' =
    (if complete_pull (snapshot_datasets x) \<and> sr_orders_count r \<noteq> None then Some now else bc_last_successful_sync_at c)"
proof -
  let ?h = "\<lambda>c. c\<lparr>bc_published_generation := g\<rparr>"
  from assms(1) obtain st d where st: "stage_sync_publication X t rid since until x
       (add_run (new_run b rid t g since until start) (set_connection (bd_id b) ?h db)) = Inr (st, d)"
    and r: "r = completed_run st x now (new_run b rid t g since until start)"
    and db': "db' = set_connection (bd_id b) (freshness_update st now) (set_run rid (\<lambda>_. r) d)"
    by (rule publish_staged) simp
  have "cm_connections d = tbl_upd bc_id (bd_id b) ?h (cm_connections db)" using stage_cases[OF st] by auto
  then have "cm_connections db' = tbl_upd bc_id (bd_id b) (\<lambda>c. freshness_update st now (?h c)) (cm_connections db)"
    by (simp add: db' tbl_upd_twice)
  then have "c' = freshness_update st now (?h c)"
    using assms(4,5) tbl_find_upd[of bc_id "\<lambda>c. freshness_update st now (?h c)" "bd_id b" "bd_id b" "cm_connections db"] by simp
  moreover have "sc_advances (sg_completion st) \<longleftrightarrow> complete_pull (snapshot_datasets x) \<and> sr_orders_count r \<noteq> None"
    unfolding stage_completion[OF st] advances_iff r completed_run_fields staged_orders[OF st] ..
  ultimately show ?thesis by (auto simp: freshness_update_def)
qed

section \<open>The fence\<close>

text \<open>C38: A pull never lands on a store boundary it was not made for. If, while the provider was asked, the connection
  was replaced, disabled, re-keyed or removed, so that no connection has the captured boundary any more, then the call
  ends with a conflict and writes nothing at all, whatever the provider answered.\<close>

theorem changed_boundary_writes_nothing:
  assumes "bc_tenant_id seen = tenant" and "bc_status seen = ''active''"
    and "claim_sync_generation (capture_boundary seen) db = Inr (g, d)"
    and "\<forall>c \<in> set (cm_connections (other 0 d)). capture_boundary c \<noteq> capture_boundary seen"
  shows "run_sync X E rid tenant seen since until start now outcome other db = (other 0 d, Inl boundary_changed)"
proof -
  let ?b = "capture_boundary seen" and ?d = "other 0 d"
  have lock: "lock_matching_connection ?b ?d = Inl boundary_changed"
    using assms(4) by (auto simp: lock_matching_connection_def dest: tbl_find_Some split: option.splits)
  have "find (\<lambda>c. at_boundary ?b c \<and> p c) (cm_connections ?d) = None" for p
    using assms(4) by (auto simp: find_None_iff at_boundary_iff)
  then have pub: "claim_publication_generation ?b g ?d = Inl boundary_changed"
    by (simp add: claim_publication_generation_def lock)
  have fail: "failure_then ?b r err now answer ?d = (?d, Inl boundary_changed)" for r err answer
    by (simp add: failure_then_def persist_extraction_failure_def lock)
  have b: "bd_tenant_id ?b = tenant" "bd_status ?b = ''active''" using assms(1,2) by (simp_all add: capture_boundary_def)
  show ?thesis
  proof (cases "extract_sync E tenant ?b since until")
    case (Inl e)
    then show ?thesis using b by (cases e) (simp_all add: run_sync_def Let_def assms(3) fail)
  next
    case (Inr x)
    then show ?thesis using b by (simp add: run_sync_def Let_def assms(3) publish_pull_def publish_extracted_def pub)
  qed
qed

section \<open>The constraints of the run table\<close>

text \<open>The check constraints of \<^verbatim>\<open>bumpa_sync_runs\<close> that depend on the service.\<close>

definition completion_state_ok :: "commerce_run \<Rightarrow> bool" where
  "completion_state_ok r \<longleftrightarrow>
     sr_status r \<in> {SQueued, SRunning} \<and> sr_quality r = QPending \<and> sr_partial_reason r = None \<and> sr_error r = None
   \<or> sr_status r = SSuccess \<and> sr_quality r = QComplete \<and> sr_partial_reason r = None \<and> sr_error r = None
   \<or> sr_status r = SPartial \<and> sr_quality r = QAcceptedPartial
     \<and> sr_partial_reason r \<in> {Some ''profit_not_calculable'', Some ''optional_dataset_unavailable''} \<and> sr_error r = None
     \<and> sr_orders_availability r = Some ''available'' \<and> sr_orders_count r \<noteq> None
   \<or> sr_status r = SPartial \<and> sr_quality r = QDegraded
     \<and> sr_partial_reason r \<in> {Some ''dataset_unavailable'', Some ''dataset_error'', Some ''orders_unavailable'',
          Some ''incomplete_dataset_set''}
   \<or> sr_status r = SFailed \<and> sr_quality r = QFailed \<and> sr_partial_reason r = None
   \<or> sr_quality r = QLegacy \<and> sr_partial_reason r = None \<and> sr_orders_availability r = None \<and> sr_orders_count r = None
     \<and> (sr_status r \<in> {SQueued, SRunning, SSuccess, SPartial} \<and> sr_error r = None \<or> sr_status r = SFailed \<and> sr_error r \<noteq> None)"

definition availability_ok :: "string \<Rightarrow> bool" where
  "availability_ok v \<longleftrightarrow> v \<in> {''available'', ''unavailable'', ''error''}"

definition rate_ok :: "int option \<Rightarrow> int option \<Rightarrow> bool" where
  "rate_ok limit remaining \<longleftrightarrow> (case limit of None \<Rightarrow> True | Some l \<Rightarrow> 0 \<le> l) \<and> (case remaining of None \<Rightarrow> True | Some m \<Rightarrow> 0 \<le> m)
     \<and> (case (limit, remaining) of (Some l, Some m) \<Rightarrow> m \<le> l | _ \<Rightarrow> True)"

definition run_row_ok :: "commerce_run \<Rightarrow> bool" where
  "run_row_ok r \<longleftrightarrow> completion_state_ok r \<and> rate_ok (cr_rate_limit r) (cr_rate_remaining r)
     \<and> (case sr_orders_count r of None \<Rightarrow> True | Some n \<Rightarrow> 0 \<le> n)
     \<and> (case sr_sync_generation r of None \<Rightarrow> True | Some g \<Rightarrow> 0 < g) \<and> 0 < sr_boundary_revision r
     \<and> (case sr_orders_availability r of None \<Rightarrow> True | Some v \<Rightarrow> availability_ok v)"

text \<open>The rows a run passes through inside the service: everything but the state.\<close>

definition run_body_ok :: "commerce_run \<Rightarrow> bool" where
  "run_body_ok r \<longleftrightarrow> rate_ok (cr_rate_limit r) (cr_rate_remaining r)
     \<and> (case sr_orders_count r of None \<Rightarrow> True | Some n \<Rightarrow> 0 \<le> n)
     \<and> (case sr_sync_generation r of None \<Rightarrow> True | Some g \<Rightarrow> 0 < g) \<and> 0 < sr_boundary_revision r
     \<and> (case sr_orders_availability r of None \<Rightarrow> True | Some v \<Rightarrow> availability_ok v)"

lemma failed_run_ok: "run_body_ok r \<Longrightarrow> run_row_ok (failed_run err now r)"
  by (simp add: run_row_ok_def run_body_ok_def failed_run_def completion_state_ok_def)

lemma new_run_body: "0 < g \<Longrightarrow> 0 < bd_revision b \<Longrightarrow> run_body_ok (new_run b rid t g since until start)"
  by (simp add: run_body_ok_def new_run_def rate_ok_def)

lemma classified_state:
  assumes "sr_error r = None" "sr_status r = sc_status (classify_sync_completion ds v e)"
    "sr_quality r = sc_quality (classify_sync_completion ds v e)"
    "sr_partial_reason r = sc_partial_reason (classify_sync_completion ds v e)" "sr_orders_availability r = Some v"
    "sr_orders_count r \<noteq> None \<longleftrightarrow> v = ''available'' \<and> e = None"
  shows "completion_state_ok r"
  using assms unfolding completion_state_ok_def classify_sync_completion_def partial_reason_of_def
  by (simp split: if_splits)

text \<open>What the provider's client promises of its own answer.\<close>

definition pull_answer_ok :: "extracted_sync \<Rightarrow> bool" where
  "pull_answer_ok x \<longleftrightarrow> (case live_of x of None \<Rightarrow> True
     | Some l \<Rightarrow> availability_ok (lr_orders_availability l) \<and> rate_ok (lr_rate_limit l) (lr_rate_remaining l))"

lemma staged_availability:
  assumes "stage_sync_publication X t rid since until x a = Inr (st, d)" "pull_answer_ok x"
  shows "availability_ok (sg_orders_availability st)" "case sg_orders_count st of None \<Rightarrow> True | Some n \<Rightarrow> 0 \<le> n"
proof -
  from assms(1) obtain v e where v: "orders_verdict X t rid x a = Inr (v, e)" "sg_orders_availability st = v"
    unfolding stage_sync_publication_def by (auto simp: and_then_Inr Let_def split: if_splits)
  have "availability_ok v"
    using v(1) assms(2) unfolding orders_verdict_def pull_answer_ok_def
    by (auto simp: Let_def availability_ok_def split: if_splits option.splits sum.splits scope_failure.splits)
  with v(2) show "availability_ok (sg_orders_availability st)" by simp
  show "case sg_orders_count st of None \<Rightarrow> True | Some n \<Rightarrow> 0 \<le> n" using stage_cases[OF assms(1)] by auto
qed

lemma completed_run_ok:
  assumes st: "stage_sync_publication X t rid since until x a = Inr (st, d)" "pull_answer_ok x" and g: "0 < g" "0 < bd_revision b"
  shows "run_row_ok (completed_run st x now (new_run b rid t g since until start))" (is "run_row_ok ?r")
proof -
  have "completion_state_ok ?r"
    by (rule classified_state[where v = "sg_orders_availability st" and e = "sg_orders_error st" and ds = "snapshot_datasets x"])
      (simp_all add: stage_completion[OF st(1)] staged_orders[OF st(1), simplified])
  moreover have "rate_ok (cr_rate_limit ?r) (cr_rate_remaining ?r)"
    using st(2) by (simp add: pull_answer_ok_def completed_run_def new_run_def rate_ok_def Let_def split: option.splits)
  ultimately show ?thesis using staged_availability[OF st] g by (simp add: run_row_ok_def)
qed

definition rows_ok :: "commerce_db \<Rightarrow> bool" where
  "rows_ok db \<longleftrightarrow> (\<forall>r \<in> set (cm_runs db). run_row_ok r)"

lemma persist_failure_rows:
  assumes "persist_extraction_failure b r err now db = Inr db'" "rows_ok db" "run_body_ok r"
  shows "rows_ok db'"
  using assms failed_run_ok[OF assms(3), of err now]
  by (auto simp: persist_extraction_failure_def and_then_def rows_ok_def Let_def split: sum.splits if_splits)

lemma failure_then_rows: "rows_ok db \<Longrightarrow> run_body_ok r \<Longrightarrow> rows_ok (fst (failure_then b r err now answer db))"
  using persist_failure_rows by (auto simp: failure_then_def split: sum.split)

lemma crashed_rows: "rows_ok db \<Longrightarrow> run_body_ok r \<Longrightarrow> rows_ok (fst (publication_crashed b r now db))"
  using failure_then_rows[of db r] by (auto simp: publication_crashed_def split: option.split)

lemma publish_rows_ok:
  assumes pub: "publish_extracted X b t g (new_run b rid t g since until start) x now db = Inr y" and ok: "rows_ok db"
    and x: "pull_answer_ok x" and g: "0 < g" "0 < bd_revision b"
  shows "case y of SupersededBy db' \<Rightarrow> rows_ok db' | StagingRaised \<Rightarrow> True | StagedAt r db' \<Rightarrow> rows_ok db' \<and> run_body_ok r"
proof (cases y)
  case (SupersededBy db')
  from superseded_db[OF pub[unfolded SupersededBy]] failed_run_ok[OF new_run_body[OF g]] ok
  show ?thesis by (simp add: SupersededBy persist_superseded_run_def rows_ok_def)
next
  case (StagedAt r db')
  from pub[unfolded StagedAt] obtain st d where st: "stage_sync_publication X t rid since until x
       (add_run (new_run b rid t g since until start) (set_connection (bd_id b) (\<lambda>c. c\<lparr>bc_published_generation := g\<rparr>) db)) = Inr (st, d)"
    and r: "r = completed_run st x now (new_run b rid t g since until start)"
    and db': "db' = set_connection (bd_id b) (freshness_update st now) (set_run rid (\<lambda>_. r) d)"
    by (rule publish_staged) simp
  have rows: "cm_runs d = cm_runs db @ [new_run b rid t g since until start]" using stage_cases[OF st] by auto
  have "run_row_ok r" unfolding r by (rule completed_run_ok[OF st x g])
  then have "run_row_ok r \<and> run_body_ok r" by (simp add: run_row_ok_def run_body_ok_def)
  moreover have "n = r \<or> n \<in> set (cm_runs db)" if "n \<in> set (cm_runs db')" for n
    using that by (auto simp: db' rows set_tbl_upd split: if_splits)
  ultimately show ?thesis using ok by (auto simp: StagedAt rows_ok_def)
qed simp


section \<open>Trends\<close>

lemma bump_bucket_sums:
  "sum_list (map tp_count (bump_bucket k v ps)) = sum_list (map tp_count ps) + 1"
  "sum_list (map tp_total (bump_bucket k v ps)) = sum_list (map tp_total ps) + (case v of None \<Rightarrow> 0 | Some q \<Rightarrow> q)"
  "sum_list (map tp_missing (bump_bucket k v ps)) = sum_list (map tp_missing ps) + (case v of None \<Rightarrow> 1 | Some q \<Rightarrow> 0)"
  by (induction k v ps rule: bump_bucket.induct) (auto simp: add_to_bucket_def Let_def split: option.split)

lemma bump_bucket_starts:
  "map tp_start (bump_bucket k v ps) = (if k \<in> tp_start ` set ps then map tp_start ps else map tp_start ps @ [k])"
  by (induction k v ps rule: bump_bucket.induct) (auto simp: add_to_bucket_def Let_def split: option.split)

text \<open>A trend tells the same story as the overview of its period: at any granularity its points are in order of
  time, no two for the same bucket, every order of the period is counted in exactly one of them, and together they
  carry the total and the missing amounts of the overview.\<close>

theorem trend_adds_up:
  "sorted_wrt (<) (map tp_start (trend_points local g (period_orders db t p)))
    \<and> sum_list (map tp_count (trend_points local g (period_orders db t p))) = int (length (period_orders db t p))
    \<and> sum_list (map tp_total (trend_points local g (period_orders db t p))) = sum_list (amounts (period_orders db t p))
    \<and> sum_list (map tp_missing (trend_points local g (period_orders db t p))) = int (length (period_orders db t p)) - int (length (amounts (period_orders db t p)))"
proof -
  define rs where "rs = period_orders db t p"
  let ?f = "\<lambda>r ps. case ov_date (od_values r) of
      None \<Rightarrow> ps | Some t \<Rightarrow> bump_bucket (bucket_of g (day_of (local t))) (ov_total (od_values r)) ps"
  have dated: "ov_date (od_values r) \<noteq> None" if "r \<in> set rs" for r
    using that by (auto simp: rs_def period_orders_def published_order_def)
  have step: "\<exists>k. ?f r ps = bump_bucket k (ov_total (od_values r)) ps" if "r \<in> set rs" for r ps
    using dated[OF that] by auto
  have sums: "sum_list (map tp_count (fold ?f xs ps)) = sum_list (map tp_count ps) + int (length xs)
      \<and> sum_list (map tp_total (fold ?f xs ps)) = sum_list (map tp_total ps) + sum_list (amounts xs)
      \<and> sum_list (map tp_missing (fold ?f xs ps)) = sum_list (map tp_missing ps) + int (length xs) - int (length (amounts xs))
      \<and> (distinct (map tp_start ps) \<longrightarrow> distinct (map tp_start (fold ?f xs ps)))"
    if "set xs \<subseteq> set rs" for xs ps
    using that
  proof (induction xs arbitrary: ps)
    case (Cons r xs)
    then obtain k where k: "?f r ps = bump_bucket k (ov_total (od_values r)) ps" using step by force
    have "set xs \<subseteq> set rs" using Cons.prems by simp
    note IH = Cons.IH[OF this, of "?f r ps"]
    show ?case using IH unfolding fold_simps o_apply k
      by (auto simp: bump_bucket_sums bump_bucket_starts amounts_def List.map_filter_simps split: option.splits)
  qed (simp add: amounts_def List.map_filter_simps)
  let ?ps = "fold ?f rs []"
  have perm: "mset (trend_points local g rs) = mset ?ps" by (simp add: trend_points_def)
  have total: "sum_list (map h (trend_points local g rs)) = sum_list (map h ?ps)" for h :: "trend_point \<Rightarrow> 'a::comm_monoid_add"
    by (simp only: sum_mset_sum_list[symmetric] mset_map perm)
  have "sorted (map tp_start (trend_points local g rs))" by (simp add: trend_points_def)
  moreover have "distinct (map tp_start (trend_points local g rs))"
    using sums[of rs "[]"] mset_eq_imp_distinct_iff[of "map tp_start (trend_points local g rs)" "map tp_start ?ps"] perm by simp
  ultimately have "sorted_wrt (<) (map tp_start (trend_points local g rs))" by (simp add: strict_sorted_iff)
  then show ?thesis using sums[of rs "[]"] unfolding rs_def[symmetric] total by simp
qed

end
