(* ===== verification/CommerceExamples.thy ===== *)
theory CommerceExamples
  imports CommerceSafety
begin

text \<open>A store, a pull of two days and the answers that follow: the witnesses of the properties of synchronisation.\<close>

definition ex_shop_ops :: commerce_ops where
  "ex_shop_ops = \<lparr> cx_midnight = (\<lambda>_. Some (\<lambda>d. days (d - 719163))), cx_redact = (\<lambda>d. d), cx_redact_response = (\<lambda>_ _ d. d),
     cx_money = (\<lambda>_ _. None), cx_str = (\<lambda>_. ''''), cx_instant = (\<lambda>_. None), cx_order_row = (\<lambda>i. ''row-'' @ i) \<rparr>"

definition ex_shop :: bumpa_connection where
  "ex_shop = \<lparr> bc_id = ''c'', bc_tenant_id = ''t'', bc_encrypted_api_key = ''k'', bc_scope_type = BusinessId, bc_scope_id = ''s'',
     bc_store_timezone = ''UTC'', bc_store_currency = ''NGN'', bc_provider = ''local'', bc_status = ''active'',
     bc_boundary_revision = 1, bc_sync_generation = 0, bc_published_generation = 0, bc_last_successful_sync_at = None,
     bc_last_failed_sync_at = None, bc_last_error = None \<rparr>"

definition ex_shop_db :: commerce_db where
  "ex_shop_db = \<lparr> cm_connections = [ex_shop], cm_runs = [], cm_metrics = [], cm_raws = [], cm_orders = [], cm_items = [] \<rparr>"

definition ex_order :: "string \<Rightarrow> int \<Rightarrow> rat \<Rightarrow> provider_order" where
  "ex_order i day amount = \<lparr> po_id = i, po_number = i, po_status = ''completed'', po_payment_status = ''paid'',
     po_currency = Some ''NGN'', po_total = Some amount, po_date = Some (days (day - 719163)), po_payload = [] \<rparr>"

definition ex_pull :: "provider_order list" where
  "ex_pull = [ex_order ''o1'' 739000 10, ex_order ''o2'' 739001 5]"

definition ex_extract :: extract_env where
  "ex_extract = \<lparr> ee_local = (\<lambda>_ _ _ _ _. Inr ([], ex_pull)), ee_decrypt = None, ee_client = (\<lambda>_ _ _ _. Inl ExtractCrashed),
     ee_backend = None \<rparr>"

definition ex_sync :: "commerce_db \<times> (http_error + commerce_run)" where
  "ex_sync = run_sync ex_shop_ops ex_extract ''r1'' ''t'' ex_shop 739000 739001 1 2 CommitOk (\<lambda>_ d. d) ex_shop_db"

definition ex_synced :: commerce_run where
  "ex_synced = (new_run (capture_boundary ex_shop) ''r1'' ''t'' 1 739000 739001 1)\<lparr>sr_status := SPartial, sr_quality := QDegraded,
     sr_partial_reason := Some ''incomplete_dataset_set'', sr_finished_at := Some 2, sr_orders_availability := Some ''available'',
     sr_orders_count := Some 2, cr_results := [(''_bumpa_order_publication'', publication_evidence)]\<rparr>"

lemma ex_shop_ok: "order_tables_ok ex_shop_db" "rows_ok ex_shop_db" "''r1'' \<notin> sr_id ` set (cm_runs ex_shop_db)"
  by (simp_all add: ex_shop_db_def ex_shop_def order_tables_ok_def rows_ok_def)

lemma ex_sync_result: "snd ex_sync = Inr ex_synced" by code_simp

definition ex_world :: sync_world where
  "ex_world = \<lparr> sw_db = ex_shop_db, sw_claims = [], sw_log = [] \<rparr>"

lemma ex_world_start: "reach sync_start (sync_step X) ex_world"
  by (rule reach_init) (simp add: sync_start_def ex_world_def ex_shop_ok, simp add: ex_shop_db_def)

lemma ex_others: "others_are_steps X rid (\<lambda>_ d. d)"
  unfolding others_are_steps_def by blast

lemma reach_sync_steps: "(sync_step X)\<^sup>*\<^sup>* w w' \<Longrightarrow> reach sync_start (sync_step X) w \<Longrightarrow> reach sync_start (sync_step X) w'"
  by (induction rule: rtranclp_induct) (auto intro: reach_step)

lemma ex_sync_eq:
  "run_sync ex_shop_ops ex_extract ''r1'' ''t'' ex_shop 739000 739001 1 2 CommitOk (\<lambda>_ d. d) ex_shop_db = ex_sync"
  by (simp only: ex_sync_def)

lemma published_orders_are_a_replay_witness:
  "\<exists>w::sync_world. sw_db w = fst ex_sync \<and> book (sw_db w) ''t'' = replay ''t'' (sw_log w)
     \<and> sorted_wrt (<) (published_generations ''c'' (sw_log w))"
proof -
  from run_sync_steps[OF ex_world_start, of "''r1''" ex_shop_ops "\<lambda>_ d. d" ex_extract "''t''" ex_shop 739000 739001 1 2 CommitOk]
  obtain w where w: "(sync_step ex_shop_ops)\<^sup>*\<^sup>* ex_world w" "sw_db w = fst ex_sync"
    using ex_shop_ok(3) ex_others by (auto simp: ex_world_def ex_sync_eq)
  from published_orders_are_a_replay[OF reach_sync_steps[OF w(1) ex_world_start], of "''t''" "''c''"] w(2)
  show ?thesis by (intro exI[of _ w] conjI) simp_all
qed

lemma run_sync_is_a_run_of_steps_witness:
  "(\<exists>w. (sync_step ex_shop_ops)\<^sup>*\<^sup>* ex_world w \<and> sw_db w = fst ex_sync) \<and> ex_synced \<in> set (cm_runs (fst ex_sync))"
proof -
  have "(\<exists>w. (sync_step ex_shop_ops)\<^sup>*\<^sup>* ex_world w \<and> sw_db w = fst ex_sync) \<and> returned_run ''r1'' ex_sync"
    by (rule run_sync_is_a_run_of_steps[OF ex_world_start _ ex_others, where E = ex_extract and tenant = "''t''" and seen = ex_shop
          and since = 739000 and until = 739001 and start = 1 and now = 2 and outcome = CommitOk])
      (simp_all add: ex_world_def ex_shop_ok ex_sync_eq)
  then show ?thesis using ex_sync_result by (simp add: returned_run_def)
qed

definition ex_days :: resolved_period where
  "ex_days = \<lparr> pd_name = ''custom'', pd_from = 739000, pd_to = 739001, pd_starts = days (739000 - 719163),
     pd_ends = days (739002 - 719163), pd_zone = ''UTC'' \<rparr>"

lemma ex_extracted: "extract_sync ex_extract ''t'' (capture_boundary ex_shop) 739000 739001 = Inr (LocalSnapshot [] ex_pull)"
  by (simp add: extract_sync_def capture_boundary_def ex_shop_def ex_extract_def)

lemma overview_is_the_pull_witness:
  "fg_orders (period_figures (fst ex_sync) ''t'' ''NGN'' ex_days) = Some 2
   \<and> fg_sales (period_figures (fst ex_sync) ''t'' ''NGN'' ex_days) = Some 15"
proof -
  have run: "run_sync ex_shop_ops ex_extract ''r1'' ''t'' ex_shop 739000 739001 1 2 CommitOk (\<lambda>_ d. d) ex_shop_db = (fst ex_sync, Inr ex_synced)"
    unfolding ex_sync_eq using ex_sync_result by (metis prod.collapse)
  have "period_figures (fst ex_sync) ''t'' ''NGN'' ex_days = pull_figures ''NGN'' (pull_in_period ex_days ex_pull) ex_shop_ops"
    using overview_is_the_pull[OF run ex_extracted _ ex_shop_ok(1,3), where m = "\<lambda>d. days (d - 719163)" and p = ex_days and currency = "''NGN''"]
    by (simp add: ex_synced_def ex_shop_ops_def ex_days_def mono_def days_def)
  moreover have "fg_orders (pull_figures ''NGN'' (pull_in_period ex_days ex_pull) ex_shop_ops) = Some 2
      \<and> fg_sales (pull_figures ''NGN'' (pull_in_period ex_days ex_pull) ex_shop_ops) = Some 15" by code_simp
  ultimately show ?thesis by simp
qed

lemma coverage_is_exact_witness:
  "vc_available (order_publication_coverage (fst ex_sync) ''t'' (Some (739000, 739001)))
   \<and> (\<exists>r \<in> set (cm_runs (fst ex_sync)). run_published (fst ex_sync) ''t'' r \<and> sr_requested_from r \<le> 739001 \<and> 739001 \<le> sr_requested_to r)"
proof -
  have "vc_available (order_publication_coverage (fst ex_sync) ''t'' (Some (739000, 739001)))" by code_simp
  with coverage_is_exact[of "fst ex_sync" "''t''" 739000 739001] show ?thesis by simp
qed

definition ex_claimed :: commerce_db where
  "ex_claimed = set_connection ''c'' (\<lambda>c. c\<lparr>bc_sync_generation := 1\<rparr>) ex_shop_db"

definition ex_published :: "http_error + publication" where
  "ex_published = publish_extracted ex_shop_ops (capture_boundary ex_shop) ''t'' 1
     (new_run (capture_boundary ex_shop) ''r1'' ''t'' 1 739000 739001 1) (LocalSnapshot [] ex_pull) 2 ex_claimed"

lemma ex_claimed_ok: "order_tables_ok ex_claimed" "''r1'' \<notin> sr_id ` set (cm_runs ex_claimed)"
  by (simp_all add: ex_claimed_def ex_shop_db_def ex_shop_def order_tables_ok_def tbl_upd_def)

lemma freshness_is_earned_witness:
  "\<exists>r db'. ex_published = Inr (StagedAt r db') \<and> \<not> complete_pull []
     \<and> (\<forall>c'. tbl_find bc_id ''c'' (cm_connections db') = Some c' \<longrightarrow> bc_last_successful_sync_at c' = None)"
proof -
  have "case ex_published of Inr (StagedAt _ _) \<Rightarrow> True | _ \<Rightarrow> False" by code_simp
  then obtain r db' where p: "ex_published = Inr (StagedAt r db')" by (auto split: sum.splits publication.splits)
  have i: "bd_id (capture_boundary ex_shop) = ''c''" by (simp add: capture_boundary_def ex_shop_def)
  have c: "tbl_find bc_id ''c'' (cm_connections ex_claimed) = Some (ex_shop\<lparr>bc_sync_generation := 1\<rparr>)"
    by (simp add: ex_claimed_def ex_shop_db_def ex_shop_def tbl_upd_def tbl_find_def)
  have n: "\<not> complete_pull []" by (simp add: complete_pull_def expected_datasets_def)
  have "bc_last_successful_sync_at c' = None" if "tbl_find bc_id ''c'' (cm_connections db') = Some c'" for c'
    using freshness_is_earned[OF p[unfolded ex_published_def] ex_claimed_ok, unfolded i, OF c that] n
    by (simp add: ex_shop_def)
  with p n show ?thesis by blast
qed

definition ex_rekey :: "nat \<Rightarrow> commerce_db \<Rightarrow> commerce_db" where
  "ex_rekey n d = set_connection ''c'' (\<lambda>c. c\<lparr>bc_encrypted_api_key := ''new''\<rparr>) d"

lemma changed_boundary_writes_nothing_witness:
  "run_sync ex_shop_ops ex_extract ''r1'' ''t'' ex_shop 739000 739001 1 2 CommitOk ex_rekey ex_shop_db
     = (ex_rekey 0 ex_claimed, Inl boundary_changed)"
proof (rule changed_boundary_writes_nothing)
  show "claim_sync_generation (capture_boundary ex_shop) ex_shop_db = Inr (1, ex_claimed)" by code_simp
  show "\<forall>c \<in> set (cm_connections (ex_rekey 0 ex_claimed)). capture_boundary c \<noteq> capture_boundary ex_shop"
    by (simp add: ex_rekey_def ex_claimed_def ex_shop_db_def ex_shop_def tbl_upd_def capture_boundary_def)
qed (simp_all add: ex_shop_def)


definition ex_store_tenants :: "store_tenant list" where
  "ex_store_tenants = [\<lparr> tn_id = ''t'', tn_slug = ''t'', tn_name = ''T'', tn_status = TActive, tn_timezone = ''UTC'', tn_consent = [],
     tn_currency_code = ''NGN'' \<rparr>]"

definition ex_midnight :: "string \<Rightarrow> (int \<Rightarrow> time) option" where
  "ex_midnight z = Some (\<lambda>d. days (d - 719163))"

definition ex_utc :: zone_db where
  "ex_utc z = Some (\<lambda>t. t)"

text \<open>The day after the pull, noon.\<close>

definition ex_noon :: time where
  "ex_noon = days (739002 - 719163) + 43200000000"

definition ex_month :: resolved_period where
  "ex_month = (case resolve_period ex_midnight ex_utc ex_store_tenants ''t'' None None None ex_noon (fst ex_sync) of
     Inr p \<Rightarrow> p | Inl _ \<Rightarrow> ex_days)"


text \<open>A store with orders three years apart.\<close>

definition ex_old_db :: commerce_db where
  "ex_old_db = fst (run_sync ex_shop_ops (ex_extract\<lparr>ee_local := \<lambda>_ _ _ _ _. Inr ([], [ex_order ''o1'' 738000 10, ex_order ''o2'' 739001 5])\<rparr>)
     ''r1'' ''t'' ex_shop 738000 739001 1 2 CommitOk (\<lambda>_ d. d) ex_shop_db)"

lemma all_available_fails_after_a_year_witness:
  "business_overview ex_midnight ex_utc ex_store_tenants ''t'' (Some ''all_available'') None None True ex_noon ex_old_db
     = Inl (PeriodInvalid ''Periods cannot exceed 367 days'')"
proof -
  have c: "tenant_store_context ex_store_tenants ex_old_db ''t'' = Inr (''UTC'', ''NGN'')" by code_simp
  have "list_ex (\<lambda>r. published_order ex_old_db ''t'' r \<and> ov_date (od_values r) = Some (days (738000 - 719163))) (cm_orders ex_old_db)"
    by code_simp
  then obtain r1 where r1: "r1 \<in> set (cm_orders ex_old_db)" "published_order ex_old_db ''t'' r1"
    "ov_date (od_values r1) = Some (days (738000 - 719163))" unfolding list_ex_iff by blast
  have "list_ex (\<lambda>r. published_order ex_old_db ''t'' r \<and> ov_date (od_values r) = Some (days (739001 - 719163))) (cm_orders ex_old_db)"
    by code_simp
  then obtain r2 where r2: "r2 \<in> set (cm_orders ex_old_db)" "published_order ex_old_db ''t'' r2"
    "ov_date (od_values r2) = Some (days (739001 - 719163))" unfolding list_ex_iff by blast
  show ?thesis
  proof (rule all_available_fails_after_a_year[OF c, of ex_utc "\<lambda>t. t" ex_midnight "\<lambda>d. days (d - 719163)", OF _ _ _ r1 r2])
    show "mono (\<lambda>t. day_of t)" by (simp add: mono_def day_of_def zdiv_mono1)
  qed (simp_all add: ex_utc_def ex_midnight_def day_of_def days_def)
qed

end
