(* ===== verification/Spec2Isabelle.thy ===== *)
theory Spec2Isabelle
  imports Worker Scheduler AuthRoutes KeyRotation ConnectorExamples InboundExamples CommerceExamples
begin

text \<open>
  Verification of the backend of the application.
\<close>

end
